(* ===== verification/StreamerPrelude.thy ===== *)
theory StreamerPrelude
  imports Main "HOL-Library.Word"
begin

text \<open>
  Shared ground of the development: the machine integers of the C code as words, the
  byte orders in which the protocols write them, C result codes, generic list lemmas, and the
  two interfaces that several components instantiate (a transition system with an invariant,
  and a table with distinct keys and a fixed capacity).
\<close>

unbundle bit_operations_syntax

named_theorems byte_order "decoding what was encoded in a byte order"
named_theorems wire "facts about what an operation puts on or takes from a socket"
named_theorems frame_conds "fields an operation leaves alone"

type_synonym u8 = "8 word"
type_synonym u16 = "16 word"
type_synonym u32 = "32 word"
type_synonym u64 = "64 word"
type_synonym bytes = "u8 list"

section \<open>Bytes and characters\<close>

text \<open>A C \<open>char\<close> is a byte; HOL's \<^typ>\<open>char\<close> has the same 256 values.\<close>

definition byte_char :: "u8 \<Rightarrow> char" where
  "byte_char b = char_of (unat b)"

definition char_byte :: "char \<Rightarrow> u8" where
  "char_byte c = word_of_nat (of_char c)"

lemma byte_char_byte [simp]: "byte_char (char_byte c) = c"
  by (simp add: byte_char_def char_byte_def unat_of_nat take_bit_eq_mod)

lemma char_byte_char [simp]: "char_byte (byte_char b) = b"
proof -
  have "unat b < 256" by (rule order_less_le_trans [OF unsigned_less]) simp
  then show ?thesis by (simp add: byte_char_def char_byte_def)
qed

lemma map_byte_char_byte [simp]: "map byte_char (map char_byte s) = s"
  by (induction s) simp_all

lemma byte_char_o_char_byte [simp]: "byte_char \<circ> char_byte = id"
  by (simp add: fun_eq_iff)

lemma map_char_byte_char [simp]: "map char_byte (map byte_char bs) = bs"
  by (induction bs) simp_all

lemma byte_char_inject [simp]: "byte_char a = byte_char b \<longleftrightarrow> a = b"
  by (metis char_byte_char)

lemma char_byte_inject [simp]: "char_byte a = char_byte b \<longleftrightarrow> a = b"
  by (metis byte_char_byte)

lemma byte_bit_less: "bit (a :: u8) n \<Longrightarrow> n < 8"
  using bit_imp_le_length by fastforce

lemma byte_eqI:
  assumes "bit a 0 = bit b 0" "bit a 1 = bit b 1" "bit a 2 = bit b 2" "bit a 3 = bit b 3"
    "bit a 4 = bit b 4" "bit a 5 = bit b 5" "bit a 6 = bit b 6" "bit a 7 = bit b 7"
  shows "a = (b :: u8)"
proof (rule bit_word_eqI, goal_cases)
  case (1 n)
  then have "n \<in> {0, 1, 2, 3, 4, 5, 6, 7}" by auto
  with assms show ?case by auto
qed

section \<open>Byte orders\<close>

text \<open>
  \<open>(x >> 24) & 0xFF\<close> stored in a \<open>uint8_t\<close> is the truncation of a shift; reading back is
  \<open>(b0 << 24) | (b1 << 16) | ...\<close> in 32 bits. The code writes both out by hand at every use.
\<close>

definition be32 :: "u32 \<Rightarrow> bytes" where
  "be32 w = [ucast (drop_bit 24 w), ucast (drop_bit 16 w), ucast (drop_bit 8 w), ucast w]"

definition de32 :: "u8 \<Rightarrow> u8 \<Rightarrow> u8 \<Rightarrow> u8 \<Rightarrow> u32" where
  "de32 a b c d = push_bit 24 (ucast a) OR push_bit 16 (ucast b) OR push_bit 8 (ucast c) OR ucast d"

definition be24 :: "u32 \<Rightarrow> bytes" where
  "be24 w = [ucast (drop_bit 16 w), ucast (drop_bit 8 w), ucast w]"

definition de24 :: "u8 \<Rightarrow> u8 \<Rightarrow> u8 \<Rightarrow> u32" where
  "de24 a b c = push_bit 16 (ucast a) OR push_bit 8 (ucast b) OR ucast c"

definition le32 :: "u32 \<Rightarrow> bytes" where
  "le32 w = [ucast w, ucast (drop_bit 8 w), ucast (drop_bit 16 w), ucast (drop_bit 24 w)]"

definition be16 :: "u16 \<Rightarrow> bytes" where
  "be16 w = [ucast (drop_bit 8 w), ucast w]"

definition de16 :: "u8 \<Rightarrow> u8 \<Rightarrow> u16" where
  "de16 a b = push_bit 8 (ucast a) OR ucast b"

lemma length_be [simp]:
  "length (be32 w) = 4" "length (be24 w) = 3" "length (le32 w) = 4" "length (be16 v) = 2"
  by (simp_all add: be32_def be24_def le32_def be16_def)

lemma de32_be32 [byte_order, simp]:
  "de32 (ucast (drop_bit 24 w)) (ucast (drop_bit 16 w)) (ucast (drop_bit 8 w)) (ucast w) = w"
  unfolding de32_def
proof (rule bit_word_eqI, goal_cases)
  case (1 n)
  then show ?case
    by (cases "n < 8"; cases "n < 16"; cases "n < 24") (auto simp: bit_simps not_less)
qed

lemma de16_be16 [byte_order, simp]: "de16 (ucast (drop_bit 8 w)) (ucast w) = w"
  unfolding de16_def
proof (rule bit_word_eqI, goal_cases)
  case (1 n)
  then show ?case by (cases "n < 8") (auto simp: bit_simps not_less)
qed

lemma de24_be24_mask [byte_order]:
  "de24 (ucast (drop_bit 16 w)) (ucast (drop_bit 8 w)) (ucast w) = w AND mask 24"
  unfolding de24_def
proof (rule bit_word_eqI, goal_cases)
  case (1 n)
  then show ?case
    by (cases "n < 8"; cases "n < 16"; cases "n < 24") (auto simp: bit_simps not_less)
qed

lemma de24_be24 [byte_order]:
  assumes "w < 0x1000000"
  shows "de24 (ucast (drop_bit 16 w)) (ucast (drop_bit 8 w)) (ucast w) = w"
  using assms by (simp add: de24_be24_mask less_mask_eq)

section \<open>Arithmetic of sizes\<close>

lemma unat_u8_less [simp]: "unat (b :: u8) < 256"
  by (rule order_less_le_trans [OF unsigned_less]) simp

lemma unat_u16_less [simp]: "unat (b :: u16) < 65536"
  by (rule order_less_le_trans [OF unsigned_less]) simp

text \<open>A C \<open>int\<close> result: negative values are errors, as every caller tests.\<close>

type_synonym c_int = int

section \<open>Lists\<close>

lemma take_append_exact [simp]: "length xs = n \<Longrightarrow> take n (xs @ ys) = xs"
  by simp

lemma drop_append_exact [simp]: "length xs = n \<Longrightarrow> drop n (xs @ ys) = ys"
  by simp

text \<open>The blocks of at most \<open>n\<close> elements in which every fragmenting loop of the code cuts.\<close>

function blocks :: "nat \<Rightarrow> 'a list \<Rightarrow> 'a list list" where
  "blocks n xs = (if n = 0 \<or> xs = [] then [] else take n xs # blocks n (drop n xs))"
  by pat_completeness auto
termination
  by (relation "measure (\<lambda>(n, xs). length xs)") auto

declare blocks.simps [simp del]

lemma blocks_Nil [simp]: "blocks n [] = []"
  by (simp add: blocks.simps)

lemma blocks_step: "0 < n \<Longrightarrow> xs \<noteq> [] \<Longrightarrow> blocks n xs = take n xs # blocks n (drop n xs)"
  by (subst blocks.simps) simp

lemma blocks_single: "xs \<noteq> [] \<Longrightarrow> length xs \<le> n \<Longrightarrow> blocks n xs = [xs]"
  by (cases xs; subst blocks.simps) auto

lemma concat_blocks [simp]: "0 < n \<Longrightarrow> concat (blocks n xs) = xs"
proof (induction n xs rule: blocks.induct)
  case (1 n xs)
  then show ?case by (cases "xs = []") (simp_all add: blocks_step)
qed

lemma blocks_size: "b \<in> set (blocks n xs) \<Longrightarrow> 0 < length b \<and> length b \<le> n"
proof (induction n xs rule: blocks.induct)
  case (1 n xs)
  then show ?case
    by (cases "n = 0 \<or> xs = []") (auto simp: blocks.simps [of n xs])
qed

lemma length_blocks: "0 < n \<Longrightarrow> length (blocks n xs) = (length xs + n - 1) div n"
proof (induction n xs rule: blocks.induct)
  case (1 n xs)
  show ?case
  proof (cases "length xs \<le> n")
    case True
    have "(length xs + n - 1) div n = 1" if "xs \<noteq> []"
      using True that "1.prems" by (intro div_nat_eqI) (cases xs; simp)+
    with True "1.prems" show ?thesis
      by (cases "xs = []") (simp_all add: blocks_single)
  next
    case False
    then have ne: "xs \<noteq> []" by auto
    have "(length xs + n - 1) div n = Suc ((length xs - n + n - 1) div n)"
      using False "1.prems" by (simp add: le_div_geq not_le)
    with ne False "1.prems" "1.IH" show ?thesis by (simp add: blocks_step)
  qed
qed

section \<open>Interfaces shared by several components\<close>

text \<open>
  A component driven from outside: an initial state and one total step per event. What its
  operations keep one at a time, any sequence of calls keeps.
\<close>

locale event_machine =
  fixes start :: "'s \<Rightarrow> bool"
    and step :: "'s \<Rightarrow> 'e \<Rightarrow> 's"
    and inv :: "'s \<Rightarrow> bool"
  assumes inv_start: "start s \<Longrightarrow> inv s"
    and inv_step: "inv s \<Longrightarrow> inv (step s e)"
begin

lemma inv_run: "inv s \<Longrightarrow> inv (foldl step s es)"
  by (induction es arbitrary: s) (simp_all add: inv_step)

lemma inv_reached: "start s \<Longrightarrow> inv (foldl step s es)"
  by (simp add: inv_start inv_run)

lemma inv_prefix: "start s \<Longrightarrow> inv (foldl step s (take n es))"
  by (rule inv_reached)

end

text \<open>
  The same for a step that may be undefined and an invariant that holds as long as the events are
  of a kind: \<open>None\<close> stays.
\<close>

fun run_steps :: "('s \<Rightarrow> 'e \<Rightarrow> 's option) \<Rightarrow> 's \<Rightarrow> 'e list \<Rightarrow> 's option" where
  "run_steps step s [] = Some s"
| "run_steps step s (e # es) = (case step s e of None \<Rightarrow> None | Some s1 \<Rightarrow> run_steps step s1 es)"

locale partial_machine =
  fixes step :: "'s \<Rightarrow> 'e \<Rightarrow> 's option"
    and ok :: "'e \<Rightarrow> bool"
    and inv :: "'s \<Rightarrow> bool"
  assumes inv_step: "inv s \<Longrightarrow> ok e \<Longrightarrow> step s e = Some s1 \<Longrightarrow> inv s1"
begin

lemma inv_run: "inv s \<Longrightarrow> list_all ok es \<Longrightarrow> run_steps step s es = Some s1 \<Longrightarrow> inv s1"
  by (induction es arbitrary: s) (auto split: option.splits dest: inv_step)

end

text \<open>
  A registration table: \<open>add\<close> returns 0 and enters what \<open>entry\<close> makes of the key and the value, or
  returns an error code and leaves every entry as it was. Its clients register whole lists and
  stop at the first error.
\<close>

locale registry =
  fixes lookup :: "'t \<Rightarrow> 'k \<Rightarrow> 'w option"
    and add :: "'t \<Rightarrow> 'k \<Rightarrow> 'v \<Rightarrow> c_int \<times> 't"
    and entry :: "'k \<Rightarrow> 'v \<Rightarrow> 'w"
    and inv :: "'t \<Rightarrow> bool"
  assumes add_ok: "inv t \<Longrightarrow> add t k v = (0, t') \<Longrightarrow> lookup t' = (lookup t)(k \<mapsto> entry k v)"
    and add_error: "inv t \<Longrightarrow> add t k v = (r, t') \<Longrightarrow> r \<noteq> 0 \<Longrightarrow> lookup t' = lookup t"
    and add_inv: "inv t \<Longrightarrow> add t k v = (r, t') \<Longrightarrow> inv t'"
begin

fun add_list :: "'t \<Rightarrow> ('k \<times> 'v) list \<Rightarrow> c_int \<times> 't" where
  "add_list t [] = (0, t)"
| "add_list t ((k, v) # kvs) =
     (case add t k v of (r, t') \<Rightarrow> if r \<noteq> 0 then (r, t') else add_list t' kvs)"

lemma add_list_inv: "inv t \<Longrightarrow> add_list t kvs = (r, t') \<Longrightarrow> inv t'"
  by (induction t kvs rule: add_list.induct)
    (auto split: prod.splits if_splits dest: add_inv)

lemma add_list_ok:
  "inv t \<Longrightarrow> add_list t kvs = (0, t') \<Longrightarrow>
     lookup t' = lookup t ++ map_of (rev (map (\<lambda>(k, v). (k, entry k v)) kvs))"
  by (induction t kvs rule: add_list.induct)
    (auto split: prod.splits if_splits simp: add_ok dest: add_inv)

lemma add_list_grows: "inv t \<Longrightarrow> add_list t kvs = (r, t') \<Longrightarrow> dom (lookup t) \<subseteq> dom (lookup t')"
proof (induction t kvs rule: add_list.induct)
  case (2 t k v kvs)
  obtain c t1 where a: "add t k v = (c, t1)" by (metis prod.exhaust)
  have "dom (lookup t) \<subseteq> dom (lookup t1)"
    using add_ok [OF "2.prems"(1)] add_error [OF "2.prems"(1) a] a by (cases "c = 0") auto
  moreover have "c \<noteq> 0 \<Longrightarrow> t' = t1" using "2.prems"(2) a by simp
  moreover have "c = 0 \<Longrightarrow> dom (lookup t1) \<subseteq> dom (lookup t')"
    using "2.IH" [OF a [symmetric]] add_inv [OF "2.prems"(1) a] "2.prems"(2) a by simp
  ultimately show ?case by blast
qed simp

lemma add_list_finds:
  assumes "inv t" and "add_list t kvs = (0, t')" and "distinct (map fst kvs)"
    and "(k, v) \<in> set kvs"
  shows "lookup t' k = Some (entry k v)"
proof -
  let ?es = "map (\<lambda>(k, v). (k, entry k v)) kvs"
  have "map fst ?es = map fst kvs" by (induction kvs) auto
  then have "distinct (map fst (rev ?es))" using assms(3) by (simp only: rev_map [symmetric] distinct_rev)
  moreover have "(k, entry k v) \<in> set (rev ?es)"
    using assms(4) by (auto simp: image_iff intro: bexI [of _ "(k, v)"])
  ultimately have "map_of (rev ?es) k = Some (entry k v)" by (rule map_of_is_SomeI)
  with add_list_ok [OF assms(1,2)] show ?thesis by simp
qed

lemma add_list_keeps:
  assumes "inv t" and "add_list t kvs = (0, t')" and "k \<notin> fst ` set kvs"
  shows "lookup t' k = lookup t k"
proof -
  have "map_of (rev (map (\<lambda>(k, v). (k, entry k v)) kvs)) k = None"
    using assms(3) by (auto simp: map_of_eq_None_iff image_iff)
  with add_list_ok [OF assms(1,2)] show ?thesis by (simp add: map_add_def)
qed

end

text \<open>
  An encoding with a decoder that takes a buffer and an offset and returns the value and the
  offset behind it. What decodes wherever it stands in a buffer is also uniquely decodable.
\<close>

locale codec =
  fixes wf :: "'a \<Rightarrow> bool"
    and enc :: "'a \<Rightarrow> bytes"
    and dec :: "bytes \<Rightarrow> nat \<Rightarrow> ('a \<times> nat) option"
  assumes dec_enc:
      "wf v \<Longrightarrow> dec (pre @ enc v @ rest) (length pre) = Some (v, length pre + length (enc v))"
    and enc_nonempty: "wf v \<Longrightarrow> enc v \<noteq> []"
begin

lemma dec_whole: "wf v \<Longrightarrow> dec (enc v) 0 = Some (v, length (enc v))"
  using dec_enc [of v "[]" "[]"] by simp

lemma dec_first: "wf v \<Longrightarrow> dec (enc v @ rest) 0 = Some (v, length (enc v))"
  using dec_enc [of v "[]" rest] by simp

lemma enc_unique:
  assumes "wf v" and "wf w" and "enc v @ a = enc w @ b"
  shows "v = w \<and> a = b"
proof -
  from dec_first [OF assms(1), of a] dec_first [OF assms(2), of b] assms(3)
  have "v = w" by simp
  with assms(3) show ?thesis by simp
qed

lemma enc_inj: "wf v \<Longrightarrow> wf w \<Longrightarrow> enc v = enc w \<Longrightarrow> v = w"
  using enc_unique [of v w "[]" "[]"] by simp

end

end
