(* ===== verification/NetIO.thy ===== *)
theory NetIO
  imports StreamerPrelude
begin

text \<open>
  Blocking stream sockets as the RTMP code uses them, and its two exact-length helpers
  \<open>rtmp_read_bytes\<close> and \<open>rtmp_write_bytes\<close> (\<open>rtmp_server.c\<close>; \<open>rtmp_client.c\<close> has the
  same helpers). The kernel's side is a script: what each further \<open>recv\<close> finds, what each
  further \<open>send\<close> accepts. A script is arbitrary, so a theorem over all scripts covers every
  segmentation of the stream, every time-out and every shutdown.
\<close>

section \<open>The kernel's side\<close>

text \<open>
  \<open>RxData bs\<close> is a segment that has arrived (an empty one is the orderly shutdown that makes
  \<open>recv\<close> return 0); \<open>RxError\<close> is a failure or a time-out, \<open>recv\<close> returning -1. After the
  script the peer has shut down. A number of \<open>tx_plan\<close> is what the next \<open>send\<close> returns when
  it may take that many bytes; nothing positive is an error; after the script \<open>send\<close> takes
  everything it is given.
\<close>

datatype rx_event = RxData bytes | RxError

record sock =
  rx :: "rx_event list"
  tx_plan :: "int list"
  tx :: bytes

fun recv :: "rx_event list \<Rightarrow> nat \<Rightarrow> c_int \<times> bytes \<times> rx_event list" where
  "recv [] n = (0, [], [])"
| "recv (RxError # es) n = (-1, [], es)"
| "recv (RxData bs # es) n =
     (if bs = [] then (0, [], es)
      else (int (min n (length bs)), take n bs,
            (if length bs \<le> n then es else RxData (drop n bs) # es)))"

section \<open>Reading an exact number of bytes\<close>

text \<open>
  The loop of \<open>rtmp_read_bytes\<close>: \<open>got\<close> is the buffer filled so far. Its result is the
  \<open>int\<close> the C function returns: the length, 0 for a closed connection (and for a request of
  no bytes, which never enters the loop), -1 for an error.
\<close>

function read_loop :: "rx_event list \<Rightarrow> nat \<Rightarrow> bytes \<Rightarrow> c_int \<times> bytes \<times> rx_event list" where
  "read_loop es n got =
     (if length got < n then
        (let (r, bs, es') = recv es (n - length got) in
         if r \<le> 0 then (if r = 0 then (0, got, es') else (-1, got, es'))
         else read_loop es' n (got @ bs))
      else (int (length got), got, es))"
  by pat_completeness auto
termination
proof (relation "measure (\<lambda>(es, n, got). n - length got)", goal_cases)
  case 1
  show ?case by simp
next
  case (2 es n got p r q bs es')
  from 2(2,3,4) have "recv es (n - length got) = (r, bs, es')" by auto
  with 2(1,5) have "bs \<noteq> []"
    by (cases "(es, n - length got)" rule: recv.cases) (auto split: if_splits)
  with 2(1) show ?case by (auto simp: length_greater_0_conv [symmetric] simp del: length_greater_0_conv)
qed

declare read_loop.simps [simp del]

definition rtmp_read_bytes :: "sock \<Rightarrow> nat \<Rightarrow> c_int \<times> bytes \<times> sock" where
  "rtmp_read_bytes s n =
     (case read_loop (rx s) n [] of (r, bs, es) \<Rightarrow> (r, bs, s\<lparr>rx := es\<rparr>))"

text \<open>
  \<open>if (rtmp_read_bytes(fd, buf, n) != n) return e;\<close> as an early return with the caller's
  result \<open>bad\<close>, and the rest of the function as a continuation.
\<close>

definition read_or :: "nat \<Rightarrow> sock \<Rightarrow> (sock \<Rightarrow> 'r) \<Rightarrow> (bytes \<Rightarrow> sock \<Rightarrow> 'r) \<Rightarrow> 'r" where
  "read_or n s bad k =
     (case rtmp_read_bytes s n of (r, bs, s') \<Rightarrow> if r \<noteq> int n then bad s' else k bs s')"

section \<open>Writing every byte\<close>

function write_loop :: "int list \<Rightarrow> bytes \<Rightarrow> bytes \<Rightarrow> c_int \<times> bytes \<times> int list" where
  "write_loop plan sent todo =
     (if todo = [] then (int (length sent), sent, plan)
      else case plan of
        [] \<Rightarrow> (int (length sent + length todo), sent @ todo, [])
      | k # ks \<Rightarrow>
          (if k \<le> 0 then (-1, sent, ks)
           else write_loop ks (sent @ take (nat k) todo) (drop (nat k) todo)))"
  by pat_completeness auto
termination
  by (relation "measure (\<lambda>(plan, sent, todo). length todo)") auto

declare write_loop.simps [simp del]

definition rtmp_write_bytes :: "sock \<Rightarrow> bytes \<Rightarrow> c_int \<times> sock" where
  "rtmp_write_bytes s bs =
     (case write_loop (tx_plan s) [] bs of
        (r, sent, ks) \<Rightarrow> (r, s\<lparr>tx_plan := ks, tx := tx s @ sent\<rparr>))"

definition write_or :: "bytes \<Rightarrow> sock \<Rightarrow> (sock \<Rightarrow> 'r) \<Rightarrow> (sock \<Rightarrow> 'r) \<Rightarrow> 'r" where
  "write_or bs s bad k =
     (case rtmp_write_bytes s bs of (r, s') \<Rightarrow> if r \<noteq> int (length bs) then bad s' else k s')"

section \<open>What a reader sees of the stream\<close>

text \<open>The bytes that arrive before the stream ends, in whatever segments they come.\<close>

fun avail :: "rx_event list \<Rightarrow> bytes" where
  "avail [] = []"
| "avail (RxError # es) = []"
| "avail (RxData bs # es) = (if bs = [] then [] else bs @ avail es)"

definition pending :: "sock \<Rightarrow> bytes" where
  "pending s = avail (rx s)"

lemma recv_positive:
  "recv es n = (r, bs, es') \<Longrightarrow> 0 < n \<Longrightarrow> 0 < r \<Longrightarrow>
     bs \<noteq> [] \<and> length bs \<le> n \<and> r = int (length bs) \<and> avail es = bs @ avail es'"
  by (cases "(es, n)" rule: recv.cases) (auto split: if_splits)

lemma recv_nonpositive:
  "recv es n = (r, bs, es') \<Longrightarrow> 0 < n \<Longrightarrow> r \<le> 0 \<Longrightarrow> avail es = []"
  by (cases "(es, n)" rule: recv.cases) (auto split: if_splits)

lemma read_loop_enough:
  "n \<le> length got + length (avail es) \<Longrightarrow> length got \<le> n \<Longrightarrow>
     \<exists>es'. read_loop es n got = (int n, got @ take (n - length got) (avail es), es') \<and>
           avail es' = drop (n - length got) (avail es)"
proof (induction es n got rule: read_loop.induct)
  case (1 es n got)
  show ?case
  proof (cases "length got < n")
    case False
    with "1.prems" show ?thesis by (simp add: read_loop.simps [of es n got])
  next
    case True
    obtain r bs es1 where rc: "recv es (n - length got) = (r, bs, es1)" by (metis prod_cases3)
    have "\<not> r \<le> 0"
      using recv_nonpositive [OF rc] True "1.prems" by auto
    then have pos: "0 < r" by simp
    from recv_positive [OF rc _ pos] True
    have bs: "bs \<noteq> []" "length bs \<le> n - length got" "avail es = bs @ avail es1" by auto
    from "1.IH" [OF True rc [symmetric] refl refl] pos "1.prems" bs
    obtain es' where "read_loop es1 n (got @ bs) =
        (int n, (got @ bs) @ take (n - length (got @ bs)) (avail es1), es')"
      and "avail es' = drop (n - length (got @ bs)) (avail es1)"
      by fastforce
    with True pos bs rc show ?thesis
      by (simp add: read_loop.simps [of es n got])
  qed
qed

lemma read_loop_short:
  "length got + length (avail es) < n \<Longrightarrow> read_loop es n got = (r, bs, es') \<Longrightarrow> r \<le> 0"
proof (induction es n got rule: read_loop.induct)
  case (1 es n got)
  obtain q cs es1 where rc: "recv es (n - length got) = (q, cs, es1)" by (metis prod_cases3)
  from "1.prems" have lt: "length got < n" by simp
  show ?case
  proof (cases "q \<le> 0")
    case True
    with "1.prems"(2) lt rc show ?thesis
      by (auto simp: read_loop.simps [of es n got] split: if_splits)
  next
    case False
    with recv_positive [OF rc] lt have "length cs \<le> n - length got" "avail es = cs @ avail es1"
      by auto
    with False rc lt "1.prems" "1.IH" [OF lt rc [symmetric] refl refl False] show ?thesis
      by (simp add: read_loop.simps [of es n got])
  qed
qed

text \<open>
  \<open>after_read\<close> and \<open>after_write\<close> name the socket an operation leaves behind, so that the facts
  below are equations the simplifier applies one after the other along a parser or a writer.
\<close>

definition after_read :: "sock \<Rightarrow> nat \<Rightarrow> sock" where
  "after_read s n = snd (snd (rtmp_read_bytes s n))"

definition after_write :: "sock \<Rightarrow> bytes \<Rightarrow> sock" where
  "after_write s bs = snd (rtmp_write_bytes s bs)"

lemma rtmp_read_bytes_enough [wire]:
  assumes "n \<le> length (pending s)"
  shows "rtmp_read_bytes s n = (int n, take n (pending s), after_read s n)"
    and "pending (after_read s n) = drop n (pending s)"
proof -
  from assms have "n \<le> length [] + length (avail (rx s))" "length [] \<le> n"
    by (simp_all add: pending_def)
  from read_loop_enough [OF this] obtain es' where
    "read_loop (rx s) n [] = (int n, take n (avail (rx s)), es')"
    "avail es' = drop n (avail (rx s))" by auto
  then show "rtmp_read_bytes s n = (int n, take n (pending s), after_read s n)"
    and "pending (after_read s n) = drop n (pending s)"
    by (simp_all add: rtmp_read_bytes_def after_read_def pending_def)
qed

lemma rtmp_read_bytes_short:
  assumes "length (pending s) < n" and "rtmp_read_bytes s n = (r, bs, s')"
  shows "r \<le> 0"
  using assms read_loop_short [of "[]" "rx s" n]
  by (auto simp: rtmp_read_bytes_def pending_def split: prod.splits)

lemma after_read_frame [frame_conds, simp]:
  "tx (after_read s n) = tx s" "tx_plan (after_read s n) = tx_plan s"
  by (simp_all add: after_read_def rtmp_read_bytes_def split: prod.splits)

lemma read_or_enough [wire]:
  "n \<le> length (pending s) \<Longrightarrow> read_or n s bad k = k (take n (pending s)) (after_read s n)"
  by (simp add: read_or_def rtmp_read_bytes_enough)

lemma read_or_short:
  assumes "length (pending s) < n"
  shows "\<exists>s'. read_or n s bad k = bad s'"
proof -
  obtain r bs s' where r: "rtmp_read_bytes s n = (r, bs, s')" by (metis prod_cases3)
  with rtmp_read_bytes_short [OF assms r] assms show ?thesis
    by (auto simp: read_or_def)
qed

text \<open>A read that delivers everything it was asked for has filled exactly that many bytes.\<close>

lemma read_loop_length:
  "read_loop es n got = (r, bs, es') \<Longrightarrow> length got \<le> n \<Longrightarrow> 0 < r \<Longrightarrow> r = int n \<and> length bs = n"
proof (induction es n got rule: read_loop.induct)
  case (1 es n got)
  obtain q cs es1 where rc: "recv es (n - length got) = (q, cs, es1)" by (metis prod_cases3)
  show ?case
  proof (cases "length got < n \<and> \<not> q \<le> 0")
    case True
    then have lt: "length got < n" and q: "\<not> q \<le> 0" by auto
    from recv_positive [OF rc] lt q have "length got + length cs \<le> n" by auto
    with True rc "1.prems" "1.IH" [OF lt rc [symmetric] refl refl q] show ?thesis
      by (simp add: read_loop.simps [of es n got])
  next
    case False
    with rc "1.prems" show ?thesis
      by (auto simp: read_loop.simps [of es n got] split: if_splits)
  qed
qed

lemma read_or_cases:
  obtains (bad) s' where "read_or n s bad k = bad s'"
  | (full) bs s' where "read_or n s bad k = k bs s'" and "length bs = n"
proof -
  obtain r bs es where l: "read_loop (rx s) n [] = (r, bs, es)" by (metis prod_cases3)
  show thesis
  proof (cases "r = int n")
    case True
    have "length bs = n"
      using read_loop_length [OF l] True l by (cases "n = 0") (auto simp: read_loop.simps [of _ 0])
    with True l that(2) [of bs "s\<lparr>rx := es\<rparr>"] show ?thesis
      by (simp add: read_or_def rtmp_read_bytes_def)
  next
    case False
    with l that(1) [of "s\<lparr>rx := es\<rparr>"] show ?thesis
      by (simp add: read_or_def rtmp_read_bytes_def)
  qed
qed

lemma read_or_rule:
  "(\<And>s'. P (bad s')) \<Longrightarrow> (\<And>bs s'. length bs = n \<Longrightarrow> P (k bs s')) \<Longrightarrow> P (read_or n s bad k)"
  by (cases rule: read_or_cases [of n s bad k]) simp_all

section \<open>How much a script still holds\<close>

text \<open>The bytes of the whole script: every read that succeeds takes some of them.\<close>

fun script_load :: "rx_event list \<Rightarrow> nat" where
  "script_load [] = 0"
| "script_load (RxData bs # es) = length bs + script_load es"
| "script_load (RxError # es) = script_load es"

lemma recv_load:
  "recv es n = (r, bs, es') \<Longrightarrow>
     script_load es' + length bs \<le>
     script_load es"
  by (cases "(es, n)" rule: recv.cases) (auto split: if_splits)

lemma read_loop_load:
  "read_loop es n got = (r, bs, es') \<Longrightarrow>
     script_load es' + length bs \<le>
     script_load es + length got \<and>
     (0 < r \<longrightarrow> r = int (length bs))"
proof (induction es n got rule: read_loop.induct)
  case (1 es n got)
  obtain q cs es1 where rc: "recv es (n - length got) = (q, cs, es1)" by (metis prod_cases3)
  show ?case
  proof (cases "length got < n \<and> 0 < q")
    case True
    then have go: "length got < n" "\<not> q \<le> 0" by auto
    from "1.prems" go rc have "read_loop es1 n (got @ cs) = (r, bs, es')"
      by (simp add: read_loop.simps [of es n got])
    from "1.IH" [OF go(1) rc [symmetric] refl refl go(2) this] recv_load [OF rc] show ?thesis by auto
  next
    case False
    with "1.prems" rc recv_load [OF rc] show ?thesis
      by (auto simp: read_loop.simps [of es n got] split: if_splits)
  qed
qed

lemma read_or_load_rule:
  assumes "\<And>s'. script_load (rx s') \<le> script_load (rx s) \<Longrightarrow> P (bad s')"
    and "\<And>bs s'. length bs = n \<Longrightarrow> script_load (rx s') + n \<le> script_load (rx s) \<Longrightarrow> P (k bs s')"
  shows "P (read_or n s bad k)"
proof -
  obtain r bs es where l: "read_loop (rx s) n [] = (r, bs, es)" by (metis prod_cases3)
  note load = read_loop_load [OF l]
  show ?thesis
  proof (cases "r = int n")
    case True
    have "length bs = n"
      using read_loop_length [OF l] True l by (cases "n = 0") (auto simp: read_loop.simps [of _ 0])
    with True l load assms(2) [of bs "s\<lparr>rx := es\<rparr>"] show ?thesis
      by (simp add: read_or_def rtmp_read_bytes_def)
  next
    case False
    with l load assms(1) [of "s\<lparr>rx := es\<rparr>"] show ?thesis
      by (simp add: read_or_def rtmp_read_bytes_def)
  qed
qed

lemma write_or_rx_rule:
  assumes "\<And>s'. rx s' = rx s \<Longrightarrow> P (bad s')" and "\<And>s'. rx s' = rx s \<Longrightarrow> P (k s')"
  shows "P (write_or bs s bad k)"
  using assms by (auto simp: write_or_def rtmp_write_bytes_def split: prod.split)

section \<open>What a writer gets onto the stream\<close>

definition tx_ok :: "sock \<Rightarrow> bool" where
  "tx_ok s \<longleftrightarrow> list_all (\<lambda>k. 0 < k) (tx_plan s)"

lemma write_loop_ok:
  "list_all (\<lambda>k. 0 < k) plan \<Longrightarrow>
     \<exists>ks. write_loop plan sent todo = (int (length sent + length todo), sent @ todo, ks) \<and>
          list_all (\<lambda>k. 0 < k) ks"
proof (induction plan sent todo rule: write_loop.induct)
  case (1 plan sent todo)
  show ?case
  proof (cases "todo = []")
    case True
    with "1.prems" show ?thesis by (simp add: write_loop.simps [of plan sent])
  next
    case False
    show ?thesis
    proof (cases plan)
      case Nil
      with False show ?thesis by (simp add: write_loop.simps [of "[]" sent todo])
    next
      case (Cons k ks)
      with "1.prems" have "\<not> k \<le> 0" "list_all (\<lambda>k. 0 < k) ks" by auto
      with "1.IH" [OF False Cons] obtain ks' where
        "write_loop ks (sent @ take (nat k) todo) (drop (nat k) todo) =
           (int (length (sent @ take (nat k) todo) + length (drop (nat k) todo)),
            (sent @ take (nat k) todo) @ drop (nat k) todo, ks')"
        "list_all (\<lambda>k. 0 < k) ks'" by blast
      with False Cons \<open>\<not> k \<le> 0\<close> show ?thesis
        by (simp add: write_loop.simps [of "k # ks" sent todo])
    qed
  qed
qed

text \<open>Whatever happens, a prefix of the buffer went out, and the whole of it on success.\<close>

lemma write_loop_prefix:
  "write_loop plan sent todo = (r, sent', ks) \<Longrightarrow>
     \<exists>n. sent' = sent @ take n todo \<and> (0 \<le> r \<longrightarrow> sent' = sent @ todo \<and> r = int (length sent'))"
proof (induction plan sent todo rule: write_loop.induct)
  case (1 plan sent todo)
  show ?case
  proof (cases "todo = [] \<or> plan = []")
    case True
    with "1.prems" show ?thesis
      by (auto simp: write_loop.simps [of plan sent todo] split: if_splits intro: exI [of _ "length todo"])
  next
    case False
    then obtain k ks1 where plan: "plan = k # ks1" and ne: "todo \<noteq> []" by (auto simp: neq_Nil_conv)
    show ?thesis
    proof (cases "k \<le> 0")
      case True
      with "1.prems" plan ne show ?thesis
        by (auto simp: write_loop.simps [of "k # ks1" sent todo] intro: exI [of _ 0])
    next
      case False
      with "1.prems" plan ne
      have "write_loop ks1 (sent @ take (nat k) todo) (drop (nat k) todo) = (r, sent', ks)"
        by (simp add: write_loop.simps [of "k # ks1" sent todo])
      from "1.IH" [OF ne plan False this] obtain n where
        out: "sent' = (sent @ take (nat k) todo) @ take n (drop (nat k) todo)" and
        all: "0 \<le> r \<longrightarrow> sent' = (sent @ take (nat k) todo) @ drop (nat k) todo \<and>
           r = int (length sent')" by blast
      from out have "sent' = sent @ take (nat k + n) todo" by (simp add: take_add)
      moreover from all have "0 \<le> r \<longrightarrow> sent' = sent @ todo \<and> r = int (length sent')"
        by (simp only: append_assoc append_take_drop_id)
      ultimately show ?thesis by blast
    qed
  qed
qed

lemma rtmp_write_bytes_ok [wire]:
  assumes "tx_ok s"
  shows "rtmp_write_bytes s bs = (int (length bs), after_write s bs)"
    and "tx (after_write s bs) = tx s @ bs"
    and "tx_ok (after_write s bs)"
proof -
  from write_loop_ok [of "tx_plan s" "[]" bs] assms obtain ks where
    "write_loop (tx_plan s) [] bs = (int (length bs), bs, ks)" "list_all (\<lambda>k. 0 < k) ks"
    by (auto simp: tx_ok_def)
  then show "rtmp_write_bytes s bs = (int (length bs), after_write s bs)"
    and "tx (after_write s bs) = tx s @ bs" and "tx_ok (after_write s bs)"
    by (simp_all add: rtmp_write_bytes_def after_write_def tx_ok_def)
qed

lemma rtmp_write_bytes_prefix:
  assumes "rtmp_write_bytes s bs = (r, s')"
  shows "\<exists>n. tx s' = tx s @ take n bs \<and> (0 \<le> r \<longrightarrow> tx s' = tx s @ bs \<and> r = int (length bs))"
proof -
  obtain q sent ks where w: "write_loop (tx_plan s) [] bs = (q, sent, ks)" by (metis prod_cases3)
  with assms have "r = q" "tx s' = tx s @ sent" by (auto simp: rtmp_write_bytes_def)
  with write_loop_prefix [OF w] show ?thesis by auto
qed

lemma after_write_frame [frame_conds, simp]:
  "rx (after_write s bs) = rx s" "pending (after_write s bs) = pending s"
  by (simp_all add: after_write_def rtmp_write_bytes_def pending_def split: prod.splits)

lemma tx_ok_after_read [simp]: "tx_ok (after_read s n) = tx_ok s"
  by (simp add: tx_ok_def)

lemma write_or_ok [wire]: "tx_ok s \<Longrightarrow> write_or bs s bad k = k (after_write s bs)"
  by (simp add: write_or_def rtmp_write_bytes_ok)

lemma write_or_rule:
  "(\<And>s'. P (bad s')) \<Longrightarrow> (\<And>s'. P (k s')) \<Longrightarrow> P (write_or bs s bad k)"
  by (simp add: write_or_def split: prod.split)

lemmas sock_script = read_or_enough rtmp_read_bytes_enough write_or_ok rtmp_write_bytes_ok

end
