(* ===== verification/RtmpChunk.thy ===== *)
theory RtmpChunk
  imports NetIO
begin

text \<open>
  The RTMP chunk layer of \<open>modules/rtmp_server/rtmp_server.c\<close>: chunk headers in their four
  formats, reading one chunk, cutting a message into chunks. The state is the connection record
  of \<open>rtmp_server.h\<close> with its socket, and the function-static array \<open>last_headers\<close> of
  \<open>rtmp_chunk_read\<close>, which all connections share. The counters \<open>bytes_received\<close> and
  \<open>bytes_sent\<close> of a connection are never used by the code and are left out; \<open>app_name\<close> and
  \<open>stream_key\<close> are the bytes of their buffers up to the NUL. Memory comes from a predicate \<open>mok\<close>: an
  allocation of \<open>n\<close> bytes succeeds if \<open>mok n\<close>.
\<close>

section \<open>Data\<close>

datatype rtmp_state =
  RTMP_STATE_UNINITIALIZED | RTMP_STATE_VERSION_SENT | RTMP_STATE_ACK_SENT |
  RTMP_STATE_HANDSHAKE_DONE | RTMP_STATE_CONNECTED

record rtmp_chunk_header =
  fmt :: u8
  chunk_stream_id :: u32
  timestamp :: u32
  message_length :: u32
  message_type_id :: u8
  message_stream_id :: u32

text \<open>
  \<open>payload\<close> is NULL (\<open>None\<close>) or the filled prefix of a buffer of \<open>payload_size\<close> bytes.
\<close>

record rtmp_message =
  header :: rtmp_chunk_header
  payload :: "bytes option"
  payload_size :: u32
  bytes_read :: u32

record rtmp_connection =
  socket :: sock
  conn_state :: rtmp_state
  c0_s0_version :: u8
  c1_s1_data :: bytes
  c2_s2_data :: bytes
  chunk_size_in :: u32
  chunk_size_out :: u32
  window_ack_size :: u32
  app_name :: bytes
  stream_key :: bytes
  publishing :: bool
  thread_running :: bool

definition zero_header :: rtmp_chunk_header where
  "zero_header = \<lparr>fmt = 0, chunk_stream_id = 0, timestamp = 0, message_length = 0,
     message_type_id = 0, message_stream_id = 0\<rparr>"

definition zero_message :: rtmp_message where
  "zero_message = \<lparr>header = zero_header, payload = None, payload_size = 0, bytes_read = 0\<rparr>"

section \<open>Reading a chunk header\<close>

text \<open>
  The basic header: one byte with the format in its upper two bits; a stream id of 0 or 1 in the
  lower six announces one or two further bytes. The result code is 0 when nothing can be read,
  -1 when the header breaks off.
\<close>

definition read_basic_header ::
  "sock \<Rightarrow> rtmp_chunk_header \<Rightarrow>
     (sock \<Rightarrow> rtmp_chunk_header \<Rightarrow> c_int \<times> rtmp_chunk_header \<times> sock) \<Rightarrow>
     c_int \<times> rtmp_chunk_header \<times> sock" where
  "read_basic_header s h k =
     read_or 1 s (\<lambda>s. (0, h, s)) (\<lambda>b s.
       let h1 = h\<lparr>fmt := drop_bit 6 (b ! 0) AND 3, chunk_stream_id := ucast (b ! 0) AND 0x3F\<rparr> in
       if chunk_stream_id h1 = 0 then
         read_or 1 s (\<lambda>s. (-1, h1, s)) (\<lambda>c s. k s (h1\<lparr>chunk_stream_id := ucast (c ! 0) + 64\<rparr>))
       else if chunk_stream_id h1 = 1 then
         read_or 2 s (\<lambda>s. (-1, h1, s)) (\<lambda>c s.
           k s (h1\<lparr>chunk_stream_id := ucast (c ! 1) * 256 + ucast (c ! 0) + 64\<rparr>))
       else k s h1)"

text \<open>Type 0: absolute timestamp, length, type and stream id.\<close>

definition read_type0 :: "sock \<Rightarrow> rtmp_chunk_header \<Rightarrow> c_int \<times> rtmp_chunk_header \<times> sock" where
  "read_type0 s h =
     read_or 11 s (\<lambda>s. (-1, h, s)) (\<lambda>m s.
       let h1 = h\<lparr>timestamp := de24 (m ! 0) (m ! 1) (m ! 2),
                  message_length := de24 (m ! 3) (m ! 4) (m ! 5),
                  message_type_id := m ! 6,
                  message_stream_id := de32 (m ! 10) (m ! 9) (m ! 8) (m ! 7)\<rparr> in
       if timestamp h1 = 0xFFFFFF then
         read_or 4 s (\<lambda>s. (-1, h1, s)) (\<lambda>e s.
           (1, h1\<lparr>timestamp := de32 (e ! 0) (e ! 1) (e ! 2) (e ! 3)\<rparr>, s))
       else (1, h1, s))"

text \<open>The extended timestamp delta that types 1 and 2 share.\<close>

definition read_ext_delta ::
  "sock \<Rightarrow> rtmp_chunk_header \<Rightarrow> u32 \<Rightarrow> c_int \<times> rtmp_chunk_header \<times> sock" where
  "read_ext_delta s h delta =
     (if delta = 0xFFFFFF then
        read_or 4 s (\<lambda>s. (-1, h, s)) (\<lambda>e s.
          (1, h\<lparr>timestamp := timestamp h - delta + de32 (e ! 0) (e ! 1) (e ! 2) (e ! 3)\<rparr>, s))
      else (1, h, s))"

definition read_type1 :: "sock \<Rightarrow> rtmp_chunk_header \<Rightarrow> c_int \<times> rtmp_chunk_header \<times> sock" where
  "read_type1 s h =
     read_or 7 s (\<lambda>s. (-1, h, s)) (\<lambda>m s.
       let delta = de24 (m ! 0) (m ! 1) (m ! 2) in
       read_ext_delta s
         (h\<lparr>timestamp := timestamp h + delta,
            message_length := de24 (m ! 3) (m ! 4) (m ! 5),
            message_type_id := m ! 6\<rparr>) delta)"

definition read_type2 :: "sock \<Rightarrow> rtmp_chunk_header \<Rightarrow> c_int \<times> rtmp_chunk_header \<times> sock" where
  "read_type2 s h =
     read_or 3 s (\<lambda>s. (-1, h, s)) (\<lambda>m s.
       let delta = de24 (m ! 0) (m ! 1) (m ! 2) in
       read_ext_delta s (h\<lparr>timestamp := timestamp h + delta\<rparr>) delta)"

definition rtmp_read_chunk_header ::
  "sock \<Rightarrow> rtmp_chunk_header \<Rightarrow> c_int \<times> rtmp_chunk_header \<times> sock" where
  "rtmp_read_chunk_header s h =
     read_basic_header s h (\<lambda>s h.
       if fmt h = 0 then read_type0 s h
       else if fmt h = 1 then read_type1 s h
       else if fmt h = 2 then read_type2 s h
       else if fmt h = 3 then (1, h, s)
       else (-1, h, s))"

section \<open>Reading a chunk\<close>

text \<open>
  What formats 1 to 3 take from the last header of the same chunk stream, for stream ids
  below 64; the header so completed becomes the last one.
\<close>

definition inherit_header ::
  "rtmp_chunk_header list \<Rightarrow> rtmp_chunk_header \<Rightarrow> rtmp_chunk_header \<times> rtmp_chunk_header list" where
  "inherit_header lasts h =
     (let i = unat (chunk_stream_id h) in
      if chunk_stream_id h < 64 then
        (let p = lasts ! i;
             h1 = (if fmt h = 1 then h\<lparr>message_stream_id := message_stream_id p\<rparr>
                   else if fmt h = 2 then
                     h\<lparr>message_length := message_length p, message_type_id := message_type_id p,
                       message_stream_id := message_stream_id p\<rparr>
                   else if fmt h = 3 then
                     h\<lparr>timestamp := timestamp p, message_length := message_length p,
                       message_type_id := message_type_id p,
                       message_stream_id := message_stream_id p\<rparr>
                   else h)
         in (h1, lasts[i := h1]))
      else (h, lasts))"

text \<open>
  The result code: -1 error, 0 closed, 1 a complete message, 2 a partial one. The message
  passed in is overwritten at once (\<open>memset\<close>), so nothing of it is used.
\<close>

definition rtmp_chunk_read ::
  "(nat \<Rightarrow> bool) \<Rightarrow> rtmp_chunk_header list \<Rightarrow> rtmp_connection \<Rightarrow> rtmp_message \<Rightarrow>
     c_int \<times> rtmp_message \<times> rtmp_chunk_header list \<times> rtmp_connection" where
  "rtmp_chunk_read mok lasts conn msg0 =
     (let msg = zero_message;
          (result, h, s) = rtmp_read_chunk_header (socket conn) (header msg)
      in if result \<le> 0 then (result, msg\<lparr>header := h\<rparr>, lasts, conn\<lparr>socket := s\<rparr>)
         else
           (let (h1, lasts1) = inherit_header lasts h;
                msg1 = msg\<lparr>header := h1\<rparr>;
                want = message_length h1 - bytes_read msg1;
                n = (if chunk_size_in conn < want then chunk_size_in conn else want)
            in if payload msg1 = None \<and> \<not> mok (unat (message_length h1))
               then (-1, msg1, lasts1, conn\<lparr>socket := s\<rparr>)
               else
                 (let msg2 = (if payload msg1 = None
                              then msg1\<lparr>payload := Some [], payload_size := message_length h1\<rparr>
                              else msg1);
                      finish = (\<lambda>m s. (if message_length h1 \<le> bytes_read m then 1 else 2,
                                       m, lasts1, conn\<lparr>socket := s\<rparr>))
                  in if 0 < n then
                       read_or (unat n) s
                         (\<lambda>s. (-1, msg2\<lparr>payload := None\<rparr>, lasts1, conn\<lparr>socket := s\<rparr>))
                         (\<lambda>bs s. finish
                            (msg2\<lparr>payload := Some (the (payload msg2) @ bs),
                                  bytes_read := bytes_read msg2 + n\<rparr>) s)
                     else finish msg2 s)))"

section \<open>Writing chunks\<close>

definition conn_write_or ::
  "bytes \<Rightarrow> rtmp_connection \<Rightarrow> (rtmp_connection \<Rightarrow> 'r) \<Rightarrow> (rtmp_connection \<Rightarrow> 'r) \<Rightarrow> 'r" where
  "conn_write_or bs conn bad k =
     write_or bs (socket conn) (\<lambda>s. bad (conn\<lparr>socket := s\<rparr>)) (\<lambda>s. k (conn\<lparr>socket := s\<rparr>))"

text \<open>The basic header, in the shortest of its three forms.\<close>

definition write_basic_header ::
  "rtmp_connection \<Rightarrow> rtmp_chunk_header \<Rightarrow> u8 \<Rightarrow>
     (rtmp_connection \<Rightarrow> c_int \<times> rtmp_connection) \<Rightarrow> c_int \<times> rtmp_connection" where
  "write_basic_header conn h f k =
     (let fail = (\<lambda>c. (-1, c)); cid = chunk_stream_id h in
      if cid < 64 then
        conn_write_or [push_bit 6 f OR ucast cid] conn fail k
      else if cid < 320 then
        conn_write_or [push_bit 6 f] conn fail (\<lambda>c. conn_write_or [ucast (cid - 64)] c fail k)
      else
        (let cs = (ucast (cid - 64) :: u16) in
         conn_write_or [push_bit 6 f OR 1] conn fail (\<lambda>c.
           conn_write_or [ucast cs, ucast (drop_bit 8 cs)] c fail k)))"

definition ts_field :: "u32 \<Rightarrow> bytes" where
  "ts_field t = (if 0xFFFFFF \<le> t then [0xFF, 0xFF, 0xFF] else be24 t)"

text \<open>The message header of each format, and the extended timestamp that may follow it.\<close>

definition msg_header :: "rtmp_chunk_header \<Rightarrow> u8 \<Rightarrow> bytes" where
  "msg_header h f =
     (if f = 0 then ts_field (timestamp h) @ be24 (message_length h) @ [message_type_id h] @
                    le32 (message_stream_id h)
      else if f = 1 then ts_field (timestamp h) @ be24 (message_length h) @ [message_type_id h]
      else ts_field (timestamp h))"

definition rtmp_write_chunk_header ::
  "rtmp_connection \<Rightarrow> rtmp_chunk_header \<Rightarrow> u8 \<Rightarrow> c_int \<times> rtmp_connection" where
  "rtmp_write_chunk_header conn h f =
     write_basic_header conn h f (\<lambda>c.
       if f < 3 then
         conn_write_or (msg_header h f) c (\<lambda>c. (-1, c)) (\<lambda>c.
           if 0xFFFFFF \<le> timestamp h
           then conn_write_or (be32 (timestamp h)) c (\<lambda>c. (-1, c)) (\<lambda>c. (0, c))
           else (0, c))
       else if f = 3 then (0, c)
       else (-1, c))"

text \<open>
  The loop of \<open>rtmp_chunk_write\<close>. With an outgoing chunk size of 0 it makes no progress, so it
  is a partial function: \<open>None\<close> is a call that does not return.
\<close>

partial_function (option) chunk_write_loop ::
  "rtmp_connection \<Rightarrow> rtmp_chunk_header \<Rightarrow> bytes \<Rightarrow> u32 \<Rightarrow> (c_int \<times> rtmp_connection) option" where
  "chunk_write_loop conn h data written =
     (if message_length h \<le> written then Some (0, conn)
      else
        (let want = message_length h - written;
             n = (if chunk_size_out conn < want then chunk_size_out conn else want)
         in case rtmp_write_chunk_header conn h (if written = 0 then 0 else 3) of
              (r, conn1) \<Rightarrow>
                if r \<noteq> 0 then Some (-1, conn1)
                else (case rtmp_write_bytes (socket conn1) (take (unat n) (drop (unat written) data)) of
                        (w, s) \<Rightarrow>
                          if w \<noteq> int (unat n) then Some (-1, conn1\<lparr>socket := s\<rparr>)
                          else chunk_write_loop (conn1\<lparr>socket := s\<rparr>) h data (written + n))))"

declare chunk_write_loop.simps [code]

definition rtmp_chunk_write ::
  "rtmp_connection \<Rightarrow> rtmp_message \<Rightarrow> (c_int \<times> rtmp_connection) option" where
  "rtmp_chunk_write conn msg =
     (case payload msg of
        None \<Rightarrow> Some (-1, conn)
      | Some data \<Rightarrow>
          (if message_length (header msg) = 0 then Some (-1, conn)
           else chunk_write_loop conn (header msg) data 0))"

section \<open>The basic header, bit by bit\<close>

lemma basic_byte_fmt:
  assumes "f < 4" "cid < 64"
  shows "drop_bit 6 (push_bit 6 f OR ucast (cid :: u32) :: u8) AND 3 = f"
proof -
  have f: "f = f AND mask 2" using assms by (simp add: less_mask_eq)
  have i: "cid = cid AND mask 6" using assms by (simp add: less_mask_eq)
  have "drop_bit 6 (push_bit 6 (f AND mask 2) OR ucast (cid AND mask 6) :: u8) AND mask 2 = f AND mask 2"
    by (rule bit_word_eqI) (auto simp: bit_simps)
  moreover have "(3 :: u8) = mask 2" by (simp add: mask_eq_exp_minus_1)
  ultimately show ?thesis by (simp only: f [symmetric] i [symmetric])
qed

lemma basic_byte_id:
  assumes "cid < 64"
  shows "ucast (push_bit 6 f OR ucast (cid :: u32) :: u8) AND 0x3F = cid"
proof -
  have i: "cid = cid AND mask 6" using assms by (simp add: less_mask_eq)
  have "ucast (push_bit 6 f OR ucast (cid AND mask 6) :: u8) AND mask 6 = cid AND mask 6"
    by (rule bit_word_eqI) (auto simp: bit_simps)
  then show ?thesis using i by (simp add: mask_eq_exp_minus_1)
qed

lemma stream_id_2: assumes "64 \<le> cid" "cid < 320"
  shows "ucast (ucast ((cid::u32) - 64) :: u8) + 64 = cid"
proof -
  have "cid - 64 < 256" using assms by unat_arith
  then have i: "(cid - 64) AND mask 8 = cid - 64" by (simp add: less_mask_eq)
  have "ucast (ucast (cid - 64) :: u8) = (cid - 64) AND mask 8"
    by (rule bit_word_eqI) (auto simp: bit_simps)
  with i show ?thesis by simp
qed

lemma le16_value: "ucast (ucast (drop_bit 8 (cs::u16)) :: u8) * 256 + ucast (ucast cs :: u8) = (ucast cs :: u32)"
proof -
  have a: "(ucast (ucast (drop_bit 8 cs) :: u8) :: u32) * 256 = push_bit 8 (ucast (ucast (drop_bit 8 cs) :: u8))"
    by (simp add: push_bit_eq_mult)
  have b: "push_bit 8 (ucast (ucast (drop_bit 8 cs) :: u8)) + ucast (ucast cs :: u8)
       = (push_bit 8 (ucast (ucast (drop_bit 8 cs) :: u8)) OR ucast (ucast cs :: u8) :: u32)"
    by (rule disjunctive_add) (auto simp: bit_simps)
  have c: "(push_bit 8 (ucast (ucast (drop_bit 8 cs) :: u8)) OR ucast (ucast cs :: u8) :: u32) = ucast cs"
  proof (rule bit_word_eqI, goal_cases)
    case (1 n)
    have "bit cs n \<Longrightarrow> n < 16" using bit_imp_le_length [of cs n] by simp
    with 1 show ?case by (cases "n < 8") (auto simp: bit_simps)
  qed
  show ?thesis unfolding a b c ..
qed

lemma stream_id_3: assumes "320 \<le> cid" "cid < 65600"
  shows "ucast (ucast ((cid::u32) - 64) :: u16) + 64 = cid"
proof -
  have "cid - 64 < 65536" using assms by unat_arith
  then have i: "(cid - 64) AND mask 16 = cid - 64" by (simp add: less_mask_eq)
  have "ucast (ucast (cid - 64) :: u16) = (cid - 64) AND mask 16"
    by (rule bit_word_eqI) (auto simp: bit_simps)
  with i show ?thesis by simp
qed
lemma bare_byte_fmt: assumes "f < 4" shows "drop_bit 6 (push_bit 6 f :: u8) AND 3 = f"
 using basic_byte_fmt [OF assms, of 0] by simp
lemma bare_byte_id: shows "(ucast (push_bit 6 f :: u8) :: u32) AND 0x3F = 0"
 using basic_byte_id [of 0 f] by simp
lemma one_byte_fmt: assumes "f < 4" shows "drop_bit 6 (push_bit 6 f OR 1 :: u8) AND 3 = f"
 using basic_byte_fmt [OF assms, of 1] by simp
lemma one_byte_id: shows "(ucast (push_bit 6 f OR 1:: u8) :: u32) AND 0x3F = 1"
 using basic_byte_id [of 1 f] by simp

section \<open>The bytes of a header\<close>

definition basic_bytes :: "u32 \<Rightarrow> u8 \<Rightarrow> bytes" where
  "basic_bytes cid f =
     (if cid < 64 then [push_bit 6 f OR ucast cid]
      else if cid < 320 then [push_bit 6 f, ucast (cid - 64)]
      else [push_bit 6 f OR 1, ucast (ucast (cid - 64) :: u16),
            ucast (drop_bit 8 (ucast (cid - 64) :: u16))])"

definition header_bytes :: "rtmp_chunk_header \<Rightarrow> u8 \<Rightarrow> bytes" where
  "header_bytes h f =
     basic_bytes (chunk_stream_id h) f @
     (if f < 3 then msg_header h f @ (if 0xFFFFFF \<le> timestamp h then be32 (timestamp h) else [])
      else [])"

lemma rtmp_write_chunk_header_ok [wire]:
  assumes "tx_ok (socket conn)" and "f < 4"
  shows "\<exists>s'. rtmp_write_chunk_header conn h f = (0, conn\<lparr>socket := s'\<rparr>) \<and> tx_ok s' \<and>
           tx s' = tx (socket conn) @ header_bytes h f \<and> rx s' = rx (socket conn)"
proof -
  have "f < 3 \<or> f = 3" using assms(2) by unat_arith
  with assms(1) show ?thesis
    by (auto simp: rtmp_write_chunk_header_def write_basic_header_def header_bytes_def
        basic_bytes_def conn_write_or_def Let_def sock_script)
qed

lemma read_basic_header_bytes:
  assumes "pending s = basic_bytes cid f @ rest" and "f < 4" and "2 \<le> cid" and "cid < 65600"
  shows "\<exists>s'. read_basic_header s h k = k s' (h\<lparr>fmt := f, chunk_stream_id := cid\<rparr>) \<and>
           pending s' = rest \<and> tx s' = tx s \<and> tx_plan s' = tx_plan s"
proof -
  consider "cid < 64" | "64 \<le> cid" "cid < 320" | "320 \<le> cid" by fastforce
  then show ?thesis
  proof cases
    case 1
    from assms(3) have "cid \<noteq> 0" "cid \<noteq> 1" by unat_arith+
    with 1 assms show ?thesis
      by (intro exI [of _ "after_read s 1"])
        (simp add: read_basic_header_def basic_bytes_def sock_script Let_def basic_byte_fmt
          basic_byte_id del: drop_bit_or)
  next
    case 2
    then have "\<not> cid < 64" by simp
    with 2 assms show ?thesis
      by (intro exI [of _ "after_read (after_read s 1) 1"])
        (simp add: read_basic_header_def basic_bytes_def sock_script Let_def bare_byte_fmt
          bare_byte_id stream_id_2)
  next
    case 3
    then have "\<not> cid < 64" "\<not> cid < 320" by unat_arith+
    with 3 assms show ?thesis
      by (intro exI [of _ "after_read (after_read s 1) 2"])
        (simp add: read_basic_header_def basic_bytes_def sock_script Let_def one_byte_fmt
          one_byte_id le16_value stream_id_3 del: drop_bit_or)
  qed
qed


section \<open>Reading back what was written\<close>

lemma ts_field_less: "t < 0xFFFFFF \<Longrightarrow> ts_field t = be24 t"
  by (auto simp: ts_field_def)

lemma length_ts_field [simp]: "length (ts_field t) = 3"
  by (simp add: ts_field_def)

lemma de24_ts_field:
  "de24 (ts_field t ! 0) (ts_field t ! 1) (ts_field t ! 2) = (if 0xFFFFFF \<le> t then 0xFFFFFF else t)"
proof (cases "0xFFFFFF \<le> t")
  case True
  have "de24 0xFF 0xFF 0xFF = 0xFFFFFF" by (simp add: de24_def)
  with True show ?thesis by (simp add: ts_field_def)
next
  case False
  then have "t < 0x1000000" by (auto simp: not_le intro: order_less_trans)
  with False show ?thesis by (simp add: ts_field_def be24_def de24_be24)
qed

text \<open>The fields of a message header, as the reader indexes them.\<close>

lemma nth_ts_field:
  assumes "xs = ts_field t @ ys"
  shows "xs ! 0 = ts_field t ! 0" "xs ! Suc 0 = ts_field t ! 1" "xs ! 2 = ts_field t ! 2"
    "xs ! 3 = (ys ! 0)" "xs ! 4 = ys ! 1" "xs ! 5 = ys ! 2" "xs ! 6 = ys ! 3"
    "xs ! 7 = ys ! 4" "xs ! 8 = ys ! 5" "xs ! 9 = ys ! 6" "xs ! 10 = ys ! 7"
  by (simp_all add: assms nth_append)

lemma read_type0_bytes:
  assumes "pending s = msg_header h 0 @ (if 0xFFFFFF \<le> timestamp h then be32 (timestamp h) else []) @ rest"
    and "message_length h < 0x1000000"
  shows "\<exists>s'. read_type0 s g =
       (1, g\<lparr>timestamp := timestamp h, message_length := message_length h,
            message_type_id := message_type_id h, message_stream_id := message_stream_id h\<rparr>, s') \<and>
     pending s' = rest"
proof -
  define m where "m = be24 (message_length h) @ [message_type_id h] @ le32 (message_stream_id h)"
  have mh: "msg_header h 0 = ts_field (timestamp h) @ m" by (simp add: msg_header_def m_def)
  have len: "length (msg_header h 0) = 11" by (simp add: mh m_def)
  have "11 \<le> length (pending s)" using assms(1) len by simp
  moreover have "take 11 (pending s) = ts_field (timestamp h) @ m"
    using assms(1) len by (simp add: mh)
  moreover have "de24 (m ! 0) (m ! Suc 0) (m ! 2) = message_length h" "m ! 3 = message_type_id h"
    "de32 (m ! 7) (m ! 6) (m ! 5) (m ! 4) = message_stream_id h"
    using assms(2) by (simp_all add: m_def be24_def le32_def de24_be24)
  moreover have "drop 11 (pending s) =
      (if 0xFFFFFF \<le> timestamp h then be32 (timestamp h) else []) @ rest"
    using assms(1) len by simp
  ultimately show ?thesis
    using de24_ts_field [of "timestamp h"]
    by (auto simp: read_type0_def sock_script Let_def nth_ts_field [OF refl] be32_def)
qed

lemma read_type1_bytes:
  assumes "pending s = msg_header h 1 @ (if 0xFFFFFF \<le> timestamp h then be32 (timestamp h) else []) @ rest"
    and "message_length h < 0x1000000"
  shows "\<exists>s'. read_type1 s g =
       (1, g\<lparr>timestamp := timestamp g + timestamp h, message_length := message_length h,
            message_type_id := message_type_id h\<rparr>, s') \<and>
     pending s' = rest"
proof -
  define m where "m = be24 (message_length h) @ [message_type_id h]"
  have mh: "msg_header h 1 = ts_field (timestamp h) @ m" by (simp add: msg_header_def m_def)
  have len: "length (msg_header h 1) = 7" by (simp add: mh m_def)
  have "7 \<le> length (pending s)" using assms(1) len by simp
  moreover have "take 7 (pending s) = ts_field (timestamp h) @ m"
    using assms(1) len by (simp add: mh)
  moreover have "de24 (m ! 0) (m ! Suc 0) (m ! 2) = message_length h" "m ! 3 = message_type_id h"
    using assms(2) by (simp_all add: m_def be24_def de24_be24)
  moreover have "drop 7 (pending s) =
      (if 0xFFFFFF \<le> timestamp h then be32 (timestamp h) else []) @ rest"
    using assms(1) len by simp
  ultimately show ?thesis
    using de24_ts_field [of "timestamp h"]
    by (auto simp: read_type1_def read_ext_delta_def sock_script Let_def nth_ts_field [OF refl]
        be32_def)
qed

lemma read_type2_bytes:
  assumes "pending s = msg_header h 2 @ (if 0xFFFFFF \<le> timestamp h then be32 (timestamp h) else []) @ rest"
  shows "\<exists>s'. read_type2 s g = (1, g\<lparr>timestamp := timestamp g + timestamp h\<rparr>, s') \<and>
     pending s' = rest"
proof -
  have mh: "msg_header h 2 = ts_field (timestamp h)" by (simp add: msg_header_def)
  have len: "length (msg_header h 2) = 3" by (simp add: mh)
  have "3 \<le> length (pending s)" using assms len by simp
  moreover have "take 3 (pending s) = ts_field (timestamp h)"
    using assms len by (simp add: mh)
  moreover have "drop 3 (pending s) =
      (if 0xFFFFFF \<le> timestamp h then be32 (timestamp h) else []) @ rest"
    using assms len by simp
  ultimately show ?thesis
    using de24_ts_field [of "timestamp h"]
    by (auto simp: read_type2_def read_ext_delta_def sock_script Let_def be32_def)
qed

text \<open>
  What the reader makes of a header written in each format, on top of the header \<open>g\<close> it was
  given (all zero in \<open>rtmp_chunk_read\<close>).
\<close>

definition header_read :: "rtmp_chunk_header \<Rightarrow> u8 \<Rightarrow> rtmp_chunk_header \<Rightarrow> rtmp_chunk_header" where
  "header_read g f h =
     (let g' = g\<lparr>fmt := f, chunk_stream_id := chunk_stream_id h\<rparr> in
      if f = 0 then h\<lparr>fmt := 0\<rparr>
      else if f = 1 then g'\<lparr>timestamp := timestamp g + timestamp h,
                            message_length := message_length h, message_type_id := message_type_id h\<rparr>
      else if f = 2 then g'\<lparr>timestamp := timestamp g + timestamp h\<rparr>
      else g')"

lemma read_header_bytes:
  assumes "pending s = header_bytes h f @ rest" and "f < 4"
    and "2 \<le> chunk_stream_id h" and "chunk_stream_id h < 65600" and "message_length h < 0x1000000"
  shows "\<exists>s'. rtmp_read_chunk_header s g = (1, header_read g f h, s') \<and> pending s' = rest"
proof -
  let ?body = "if f < 3 then msg_header h f @ (if 0xFFFFFF \<le> timestamp h then be32 (timestamp h) else []) else []"
  let ?g = "g\<lparr>fmt := f, chunk_stream_id := chunk_stream_id h\<rparr>"
  have "pending s = basic_bytes (chunk_stream_id h) f @ ?body @ rest"
    using assms(1) by (simp add: header_bytes_def)
  from read_basic_header_bytes [OF this assms(2,3,4), of g "\<lambda>s h. if fmt h = 0 then read_type0 s h
      else if fmt h = 1 then read_type1 s h else if fmt h = 2 then read_type2 s h
      else if fmt h = 3 then (1, h, s) else (-1, h, s)"]
  obtain s1 where
    step: "rtmp_read_chunk_header s g =
       (if f = 0 then read_type0 s1 ?g else if f = 1 then read_type1 s1 ?g
        else if f = 2 then read_type2 s1 ?g else if f = 3 then (1, ?g, s1) else (-1, ?g, s1))"
    and rest: "pending s1 = ?body @ rest"
    by (auto simp: rtmp_read_chunk_header_def cong: if_cong)
  have "f = 0 \<or> f = 1 \<or> f = 2 \<or> f = 3" using assms(2) by unat_arith
  then show ?thesis
    using step rest assms(5) read_type0_bytes [of s1 h rest ?g] read_type1_bytes [of s1 h rest ?g]
      read_type2_bytes [of s1 h rest ?g]
    by (elim disjE) (auto simp: header_read_def)
qed

section \<open>Cutting a message into chunks\<close>

text \<open>The first block goes out behind a header of format \<open>f\<close>, the others behind format 3.\<close>

fun wire_chunks :: "rtmp_chunk_header \<Rightarrow> u8 \<Rightarrow> bytes list \<Rightarrow> bytes" where
  "wire_chunks h f [] = []"
| "wire_chunks h f (b # bs) = header_bytes h f @ b @ wire_chunks h 3 bs"

definition chunk_wire :: "u32 \<Rightarrow> rtmp_chunk_header \<Rightarrow> bytes \<Rightarrow> bytes" where
  "chunk_wire cs h data = wire_chunks h 0 (blocks (unat cs) data)"

lemma min_step:
  assumes "written < len" and "0 < (cs :: u32)" and "n = (if cs < len - written then cs else len - written)"
  shows "unat n = min (unat cs) (unat len - unat written)" "0 < unat n"
    "unat (written + n) = unat written + unat n" "written + n \<le> len" "written + n \<noteq> 0"
proof -
  have sub: "unat (len - written) = unat len - unat written"
    using assms(1) by (simp add: unat_sub order_less_imp_le)
  have lt: "unat written < unat len" using assms(1) by (simp add: word_less_nat_alt)
  show n: "unat n = min (unat cs) (unat len - unat written)"
    using sub by (simp add: assms(3) word_less_nat_alt)
  then show pos: "0 < unat n" using assms(2) lt by (simp add: word_less_nat_alt)
  have "unat written + unat n \<le> unat len" using n lt by simp
  moreover have "unat len < 2 ^ LENGTH(32)" by (rule unsigned_less)
  ultimately show u: "unat (written + n) = unat written + unat n"
    by (simp add: unat_word_ariths)
  show "written + n \<le> len" using u n lt by (simp add: word_le_nat_alt)
  show "written + n \<noteq> 0" using u pos by auto
qed

lemma chunk_write_loop_ok:
  assumes "tx_ok (socket conn)" and "0 < chunk_size_out conn" and "unat (message_length h) \<le> length data"
    and "written \<le> message_length h"
  shows "\<exists>s'. chunk_write_loop conn h data written = Some (0, conn\<lparr>socket := s'\<rparr>) \<and> tx_ok s' \<and>
           rx s' = rx (socket conn) \<and>
           tx s' = tx (socket conn) @
             wire_chunks h (if written = 0 then 0 else 3)
               (blocks (unat (chunk_size_out conn))
                 (drop (unat written) (take (unat (message_length h)) data)))"
  using assms
proof (induction "unat (message_length h - written)" arbitrary: conn written rule: less_induct)
  case less
  let ?len = "message_length h" and ?cs = "chunk_size_out conn"
  let ?tail = "\<lambda>w. drop (unat w) (take (unat ?len) data)"
  show ?case
  proof (cases "written = ?len")
    case True
    with less.prems show ?thesis
      by (intro exI [of _ "socket conn"]) (simp add: chunk_write_loop.simps [of conn])
  next
    case False
    with less.prems(4) have lt: "written < ?len" and go: "\<not> ?len \<le> written" by simp_all
    define n where "n = (if ?cs < ?len - written then ?cs else ?len - written)"
    define f :: u8 where "f = (if written = 0 then 0 else 3)"
    note st = min_step [OF lt less.prems(2) n_def]
    have "f < 4" by (simp add: f_def)
    from rtmp_write_chunk_header_ok [OF less.prems(1) this, of h] obtain s1 where
      w: "rtmp_write_chunk_header conn h f = (0, conn\<lparr>socket := s1\<rparr>)" "tx_ok s1"
         "tx s1 = tx (socket conn) @ header_bytes h f" "rx s1 = rx (socket conn)"
      by blast
    define b where "b = take (unat n) (drop (unat written) data)"
    have ltn: "unat written < unat ?len" using lt by (simp add: word_less_nat_alt)
    have lb: "length b = unat n" using less.prems(3) st(1) ltn by (simp add: b_def)
    define s2 where "s2 = after_write s1 b"
    note wb = rtmp_write_bytes_ok [OF w(2), of b, folded s2_def]
    have step: "chunk_write_loop conn h data written =
        chunk_write_loop (conn\<lparr>socket := s2\<rparr>) h data (written + n)"
      using go w(1) wb(1) lb
      by (subst chunk_write_loop.simps)
        (simp add: Let_def n_def [symmetric] f_def [symmetric] b_def [symmetric])
    have "unat (?len - (written + n)) < unat (?len - written)"
      using st ltn less.prems(4) by (simp add: unat_sub)
    from less.hyps [OF this, of "conn\<lparr>socket := s2\<rparr>"] less.prems wb(3) st(4,5)
    obtain s' where ih:
      "chunk_write_loop (conn\<lparr>socket := s2\<rparr>) h data (written + n) = Some (0, conn\<lparr>socket := s'\<rparr>)"
      "tx_ok s'" "rx s' = rx s2"
      "tx s' = tx s2 @ wire_chunks h 3 (blocks (unat ?cs) (?tail (written + n)))"
      by auto
    have "0 < unat ?cs" using less.prems(2) by (simp add: word_less_nat_alt)
    moreover have "?tail written \<noteq> []" using ltn less.prems(3) by simp
    ultimately have "blocks (unat ?cs) (?tail written) =
        take (unat ?cs) (?tail written) # blocks (unat ?cs) (drop (unat ?cs) (?tail written))"
      by (rule blocks_step)
    moreover have "take (unat ?cs) (?tail written) = b"
      using st(1) by (simp add: b_def drop_take take_take min.commute)
    moreover have "drop (unat ?cs) (?tail written) = ?tail (written + n)"
      using st(1,3) less.prems(3) ltn by (simp add: drop_take add.commute min_def)
    ultimately have "wire_chunks h f (blocks (unat ?cs) (?tail written)) =
        header_bytes h f @ b @ wire_chunks h 3 (blocks (unat ?cs) (?tail (written + n)))"
      by simp
    with step ih w(3,4) wb(2) show ?thesis
      by (intro exI [of _ s']) (simp add: s2_def f_def)
  qed
qed

lemma rtmp_chunk_write_ok:
  assumes "tx_ok (socket conn)" and "0 < chunk_size_out conn"
    and "payload msg = Some data" and "data \<noteq> []" and "length data = unat (message_length (header msg))"
  shows "\<exists>s'. rtmp_chunk_write conn msg = Some (0, conn\<lparr>socket := s'\<rparr>) \<and> tx_ok s' \<and>
           rx s' = rx (socket conn) \<and>
           tx s' = tx (socket conn) @ chunk_wire (chunk_size_out conn) (header msg) data"
proof -
  have ne: "message_length (header msg) \<noteq> 0" using assms(4,5) by auto
  from chunk_write_loop_ok [OF assms(1,2), of "header msg" data 0] assms(3,5) ne
  show ?thesis by (simp add: rtmp_chunk_write_def chunk_wire_def)
qed

text \<open>
  Writing touches nothing of a connection but its socket, and with a chunk size above 0 the loop
  ends whatever the socket does.
\<close>

definition same_but_socket :: "rtmp_connection \<Rightarrow> rtmp_connection \<Rightarrow> bool" where
  "same_but_socket conn c \<longleftrightarrow> c = conn\<lparr>socket := socket c\<rparr>"

lemma same_but_socket_update [simp]:
  "same_but_socket conn (conn\<lparr>socket := s\<rparr>)" "same_but_socket conn conn"
  by (simp_all add: same_but_socket_def)

lemma same_but_socket_trans:
  "same_but_socket a b \<Longrightarrow> same_but_socket b c \<Longrightarrow> same_but_socket a c"
  by (cases a; cases b; cases c) (simp add: same_but_socket_def)

lemma same_but_socket_fields:
  assumes "same_but_socket a b"
  shows "conn_state b = conn_state a" "chunk_size_in b = chunk_size_in a"
    "chunk_size_out b = chunk_size_out a" "app_name b = app_name a" "stream_key b = stream_key a"
    "publishing b = publishing a" "thread_running b = thread_running a"
  using assms by (cases a; cases b; simp add: same_but_socket_def)+

lemma conn_write_or_rule:
  assumes "same_but_socket base conn"
    and "\<And>c. same_but_socket base c \<Longrightarrow> P (bad c)" and "\<And>c. same_but_socket base c \<Longrightarrow> P (k c)"
  shows "P (conn_write_or bs conn bad k)"
proof -
  have "same_but_socket base (conn\<lparr>socket := s\<rparr>)" for s
    by (rule same_but_socket_trans [OF assms(1)]) simp
  then show ?thesis
    unfolding conn_write_or_def by (intro write_or_rule [where P = P]) (blast intro: assms(2,3))+
qed

lemma rtmp_write_chunk_header_frame: "same_but_socket conn (snd (rtmp_write_chunk_header conn h f))"
proof -
  define P :: "c_int \<times> rtmp_connection \<Rightarrow> bool" where "P x \<longleftrightarrow> same_but_socket conn (snd x)" for x
  have [simp]: "P (r, c) = same_but_socket conn c" for r c by (simp add: P_def)
  note R = conn_write_or_rule [where P = P and base = conn]
  have "P (rtmp_write_chunk_header conn h f)"
    unfolding rtmp_write_chunk_header_def write_basic_header_def Let_def
    by (auto intro!: R)
  then show ?thesis by (simp add: P_def)
qed

lemma chunk_write_loop_returns:
  assumes "0 < chunk_size_out conn" and "written \<le> message_length h"
  shows "\<exists>r c. chunk_write_loop conn h data written = Some (r, c) \<and> same_but_socket conn c"
  using assms
proof (induction "unat (message_length h - written)" arbitrary: conn written rule: less_induct)
  case less
  let ?len = "message_length h" and ?cs = "chunk_size_out conn"
  show ?case
  proof (cases "?len \<le> written")
    case True
    then show ?thesis by (simp add: chunk_write_loop.simps [of conn])
  next
    case False
    then have lt: "written < ?len" by simp
    define n where "n = (if ?cs < ?len - written then ?cs else ?len - written)"
    define f :: u8 where "f = (if written = 0 then 0 else 3)"
    note st = min_step [OF lt less.prems(1) n_def]
    obtain r c where w: "rtmp_write_chunk_header conn h f = (r, c)" by (metis prod.exhaust)
    with rtmp_write_chunk_header_frame [of conn h f] have c: "same_but_socket conn c" by simp
    obtain q s where wb: "rtmp_write_bytes (socket c) (take (unat n) (drop (unat written) data)) = (q, s)"
      by (metis prod.exhaust)
    have c2: "same_but_socket conn (c\<lparr>socket := s\<rparr>)"
      using same_but_socket_trans [OF c] by simp
    have step: "chunk_write_loop conn h data written =
        (if r \<noteq> 0 then Some (-1, c) else if q \<noteq> int (unat n) then Some (-1, c\<lparr>socket := s\<rparr>)
         else chunk_write_loop (c\<lparr>socket := s\<rparr>) h data (written + n))"
      using False w wb
      by (subst chunk_write_loop.simps) (simp add: Let_def n_def [symmetric] f_def [symmetric])
    have "unat (?len - (written + n)) < unat (?len - written)"
      using st(2,3) unat_sub [OF st(4)] unat_sub [OF less.prems(2)] lt
      by (simp add: word_less_nat_alt)
    from less.hyps [OF this, of "c\<lparr>socket := s\<rparr>"] less.prems st(4) same_but_socket_fields [OF c2]
    obtain r' c' where "chunk_write_loop (c\<lparr>socket := s\<rparr>) h data (written + n) = Some (r', c')"
      "same_but_socket (c\<lparr>socket := s\<rparr>) c'" by auto
    with step c c2 same_but_socket_trans [OF c2] show ?thesis by auto
  qed
qed

lemma rtmp_chunk_write_returns_frame:
  assumes "0 < chunk_size_out conn"
  obtains r c where "rtmp_chunk_write conn msg = Some (r, c)" "same_but_socket conn c"
proof (cases "payload msg")
  case None
  then show ?thesis by (intro that [of "-1" conn]) (simp_all add: rtmp_chunk_write_def)
next
  case (Some data)
  with chunk_write_loop_returns [OF assms, of 0 "header msg" data] that show ?thesis
    by (cases "message_length (header msg) = 0") (auto simp: rtmp_chunk_write_def)
qed

lemma chunk_write_loop_stuck:
  assumes "chunk_write_loop conn h data written = Some y"
  shows "\<not> (tx_ok (socket conn) \<and> chunk_size_out conn = 0 \<and> written < message_length h)"
proof (rule chunk_write_loop.raw_induct
    [where P = "\<lambda>conn h data written y. \<not> (tx_ok (socket conn) \<and> chunk_size_out conn = 0 \<and>
       written < message_length h)", OF _ assms], goal_cases)
  case (1 loop conn h data written y)
  show ?case
  proof
    assume a: "tx_ok (socket conn) \<and> chunk_size_out conn = 0 \<and> written < message_length h"
    define f :: u8 where "f = (if written = 0 then 0 else 3)"
    have "f < 4" by (simp add: f_def)
    with a rtmp_write_chunk_header_ok [of conn f h] obtain s1 where
      w: "rtmp_write_chunk_header conn h f = (0, conn\<lparr>socket := s1\<rparr>)" "tx_ok s1" by blast
    have go: "\<not> message_length h \<le> written" and z: "0 < message_length h - written"
      using a by unat_arith+
    from 1(2) go z a w(1) rtmp_write_bytes_ok [OF w(2), of "[]"]
    have "loop (conn\<lparr>socket := after_write s1 []\<rparr>) h data written = Some y"
      by (simp add: Let_def f_def [symmetric])
    from 1(1) [OF this] a rtmp_write_bytes_ok [OF w(2), of "[]"] show False by simp
  qed
qed

section \<open>Reading the chunks of a message\<close>

lemma inherit_header_type0 [simp]:
  "fst (inherit_header lasts (h\<lparr>fmt := 0\<rparr>)) = h\<lparr>fmt := 0\<rparr>"
  by (simp add: inherit_header_def Let_def)

text \<open>
  A chunk behind a type 0 header yields its block of the payload; the message is complete if
  that block is all of it.
\<close>

lemma rtmp_chunk_read_type0:
  assumes "pending (socket conn) = header_bytes h 0 @ b @ rest"
    and "2 \<le> chunk_stream_id h" and "chunk_stream_id h < 65600" and "message_length h < 0x1000000"
    and "length b = min (unat (chunk_size_in conn)) (unat (message_length h))"
    and "mok (unat (message_length h))"
  shows "\<exists>s'. rtmp_chunk_read mok lasts conn m0 =
      (if message_length h \<le> of_nat (length b) then 1 else 2,
       \<lparr>header = h\<lparr>fmt := 0\<rparr>, payload = Some b, payload_size = message_length h,
        bytes_read = of_nat (length b)\<rparr>,
       snd (inherit_header lasts (h\<lparr>fmt := 0\<rparr>)), conn\<lparr>socket := s'\<rparr>) \<and> pending s' = rest"
proof -
  obtain s1 where r: "rtmp_read_chunk_header (socket conn) zero_header = (1, h\<lparr>fmt := 0\<rparr>, s1)"
    and p: "pending s1 = b @ rest"
    using read_header_bytes [OF assms(1) _ assms(2,3,4), of zero_header] by (auto simp: header_read_def)
  obtain lasts1 where i: "inherit_header lasts (h\<lparr>fmt := 0\<rparr>) = (h\<lparr>fmt := 0\<rparr>, lasts1)"
    using inherit_header_type0 by (metis prod.collapse)
  define n where "n = (if chunk_size_in conn < message_length h then chunk_size_in conn else message_length h)"
  have n: "unat n = length b" using assms(5) by (simp add: n_def word_less_nat_alt)
  then have nb: "of_nat (length b) = n" by (simp flip: n)
  have eq: "rtmp_chunk_read mok lasts conn m0 = (if 0 < n then
      read_or (unat n) s1
        (\<lambda>s. (-1, \<lparr>header = h\<lparr>fmt := 0\<rparr>, payload = None, payload_size = message_length h,
                  bytes_read = 0\<rparr>, lasts1, conn\<lparr>socket := s\<rparr>))
        (\<lambda>bs s. (if message_length h \<le> n then 1 else 2, \<lparr>header = h\<lparr>fmt := 0\<rparr>, payload = Some bs,
                   payload_size = message_length h, bytes_read = n\<rparr>, lasts1, conn\<lparr>socket := s\<rparr>))
      else (if message_length h \<le> 0 then 1 else 2, \<lparr>header = h\<lparr>fmt := 0\<rparr>, payload = Some [],
              payload_size = message_length h, bytes_read = 0\<rparr>, lasts1, conn\<lparr>socket := s1\<rparr>))"
    unfolding n_def using r i assms(6)
    by (simp add: rtmp_chunk_read_def zero_message_def Let_def)
  show ?thesis
  proof (cases "b = []")
    case True
    with n have "n = 0" by (simp add: unat_eq_0)
    with True eq p i show ?thesis by auto
  next
    case False
    with n have "0 < n" by (simp add: word_less_nat_alt)
    with eq p i n nb show ?thesis
      by (intro exI [of _ "after_read s1 (length b)"]) (simp add: sock_script)
  qed
qed

lemma rtmp_chunk_read_complete:
  assumes "rtmp_chunk_read mok lasts conn m0 = (1, m, lasts', conn')"
  shows "message_length (header m) \<le> chunk_size_in conn"
  using assms
  by (auto simp: rtmp_chunk_read_def zero_message_def Let_def read_or_def split: prod.splits if_splits)

lemma rtmp_read_chunk_header_result: "fst (rtmp_read_chunk_header s h) \<in> {-1, 0, 1}"
proof -
  define P :: "c_int \<times> rtmp_chunk_header \<times> sock \<Rightarrow> bool" where "P x \<longleftrightarrow> fst x \<in> {-1, 0, 1}" for x
  have P [simp]: "P (-1, h, s)" "P (0, h, s)" "P (1, h, s)" for h s by (simp_all add: P_def)
  note R = read_or_rule [where P = P]
  have ext: "P (read_ext_delta s h d)" for s h d
    unfolding read_ext_delta_def by (simp add: R)
  have types: "P (read_type0 s h)" "P (read_type1 s h)" "P (read_type2 s h)" for s h
    unfolding read_type0_def read_type1_def read_type2_def Let_def
    by (auto intro!: R ext)
  have "P (rtmp_read_chunk_header s h)"
    unfolding rtmp_read_chunk_header_def read_basic_header_def Let_def
    by (auto intro!: R types)
  then show ?thesis by (simp add: P_def)
qed

lemma inherit_header_length [simp]: "length (snd (inherit_header lasts h)) = length lasts"
  by (simp add: inherit_header_def Let_def)

text \<open>
  What holds of any outcome of \<open>rtmp_chunk_read\<close>: the result codes, and how the payload relates
  to the counters.
\<close>

definition chunk_read_post ::
  "(nat \<Rightarrow> bool) \<Rightarrow> nat \<Rightarrow> u32 \<Rightarrow>
     c_int \<times> rtmp_message \<times> rtmp_chunk_header list \<times> rtmp_connection \<Rightarrow> bool" where
  "chunk_read_post mok slots cs out =
     (case out of (r, m, lasts', conn') \<Rightarrow>
        r \<in> {-1, 0, 1, 2} \<and> length lasts' = slots \<and>
        (case payload m of
           None \<Rightarrow> r \<le> 0
         | Some bs \<Rightarrow> 0 < r \<and> length bs = unat (bytes_read m) \<and> bytes_read m \<le> payload_size m \<and>
             payload_size m = message_length (header m) \<and> bytes_read m \<le> cs \<and>
             mok (unat (payload_size m))))"

lemma rtmp_chunk_read_post:
  "chunk_read_post mok (length lasts) (chunk_size_in conn) (rtmp_chunk_read mok lasts conn m0)"
proof -
  obtain r h s where rh: "rtmp_read_chunk_header (socket conn) zero_header = (r, h, s)"
    by (metis prod_cases3)
  with rtmp_read_chunk_header_result [of "socket conn" zero_header] have r: "r \<in> {-1, 0, 1}" by simp
  obtain h1 lasts1 where ih: "inherit_header lasts h = (h1, lasts1)" by (metis prod.exhaust)
  with inherit_header_length [of lasts h] have len: "length lasts1 = length lasts" by simp
  have fin: "chunk_read_post mok (length lasts) (chunk_size_in conn)
      (read_or (unat n) s
         (\<lambda>s. (-1, m\<lparr>payload := None\<rparr>, lasts1, conn\<lparr>socket := s\<rparr>))
         (\<lambda>bs s. (if message_length h1 \<le> n then 1 else 2,
            \<lparr>header = h1, payload = Some bs, payload_size = message_length h1, bytes_read = n\<rparr>,
            lasts1, conn\<lparr>socket := s\<rparr>)))"
    if "n \<le> chunk_size_in conn" "n \<le> message_length h1" "mok (unat (message_length h1))" for n m
    by (rule read_or_rule) (simp_all add: chunk_read_post_def len that)
  show ?thesis
  proof (cases "0 < r")
    case False
    with r rh show ?thesis
      by (auto simp: rtmp_chunk_read_def zero_message_def chunk_read_post_def)
  next
    case True
    with r have "r = 1" by auto
    define n where "n = (if chunk_size_in conn < message_length h1 then chunk_size_in conn
      else message_length h1)"
    have n: "n \<le> chunk_size_in conn" "n \<le> message_length h1" by (auto simp: n_def)
    have eq: "rtmp_chunk_read mok lasts conn m0 =
      (if mok (unat (message_length h1)) then
         if 0 < n then
           read_or (unat n) s
             (\<lambda>s. (-1, \<lparr>header = h1, payload = None, payload_size = message_length h1,
                       bytes_read = 0\<rparr>, lasts1, conn\<lparr>socket := s\<rparr>))
             (\<lambda>bs s. (if message_length h1 \<le> n then 1 else 2,
                \<lparr>header = h1, payload = Some bs, payload_size = message_length h1, bytes_read = n\<rparr>,
                lasts1, conn\<lparr>socket := s\<rparr>))
         else (if message_length h1 \<le> 0 then 1 else 2,
               \<lparr>header = h1, payload = Some [], payload_size = message_length h1, bytes_read = 0\<rparr>,
               lasts1, conn\<lparr>socket := s\<rparr>)
       else (-1, \<lparr>header = h1, payload = None, payload_size = 0, bytes_read = 0\<rparr>, lasts1,
             conn\<lparr>socket := s\<rparr>))"
      unfolding n_def using \<open>r = 1\<close> rh ih
      by (simp add: rtmp_chunk_read_def zero_message_def Let_def)
    show ?thesis
    proof (cases "mok (unat (message_length h1)) \<and> 0 < n")
      case True
      with eq fin [OF n, of "\<lparr>header = h1, payload = None, payload_size = message_length h1,
          bytes_read = 0\<rparr>"] show ?thesis by simp
    next
      case False
      with eq len show ?thesis by (auto simp: chunk_read_post_def)
    qed
  qed
qed

section \<open>Properties\<close>

text \<open>
  C13. What \<open>rtmp_write_chunk_header\<close> puts on the wire in any of the four formats,
  \<open>rtmp_read_chunk_header\<close> reads back: all of the header in format 0, in the other formats the
  fields they carry, on top of the header the reader started from, for every chunk stream id the
  protocol has (one, two and three byte basic headers) and with extended timestamps.
\<close>

theorem chunk_header_roundtrip:
  assumes "tx_ok (socket w)" and "f < 4"
    and "2 \<le> chunk_stream_id h" and "chunk_stream_id h < 65600" and "message_length h < 0x1000000"
    and "pending s = drop (length (tx (socket w)))
           (tx (socket (snd (rtmp_write_chunk_header w h f)))) @ rest"
  shows "\<exists>s'. rtmp_read_chunk_header s g = (1, header_read g f h, s') \<and> pending s' = rest"
proof -
  from rtmp_write_chunk_header_ok [OF assms(1,2), of h] assms(6)
  have "pending s = header_bytes h f @ rest" by auto
  from read_header_bytes [OF this assms(2-5)] show ?thesis .
qed

definition sample_conn :: rtmp_connection where
  "sample_conn = \<lparr>socket = \<lparr>rx = [], tx_plan = [1, 2, 1], tx = [9]\<rparr>, conn_state = RTMP_STATE_CONNECTED,
     c0_s0_version = 3, c1_s1_data = [], c2_s2_data = [], chunk_size_in = 4, chunk_size_out = 4,
     window_ack_size = 0, app_name = [], stream_key = [], publishing = False, thread_running = False\<rparr>"

definition sample_header :: rtmp_chunk_header where
  "sample_header = \<lparr>fmt = 0, chunk_stream_id = 400, timestamp = 0x1020304, message_length = 3,
     message_type_id = 9, message_stream_id = 1\<rparr>"

theorem chunk_header_roundtrip_witness:
  "\<exists>s'. rtmp_read_chunk_header
       \<lparr>rx = [RxData [1, 80], RxData [1, 0xFF, 0xFF, 0xFF, 0, 0, 3, 9, 1, 0, 0, 0],
              RxData [1, 2, 3, 4, 77]], tx_plan = [], tx = []\<rparr> zero_header =
     (1, sample_header, s') \<and> pending s' = [77]"
proof -
  let ?s = "\<lparr>rx = [RxData [1, 80], RxData [1, 0xFF, 0xFF, 0xFF, 0, 0, 3, 9, 1, 0, 0, 0],
              RxData [1, 2, 3, 4, 77]], tx_plan = [], tx = []\<rparr> :: sock"
  have "pending ?s = drop (length (tx (socket sample_conn)))
      (tx (socket (snd (rtmp_write_chunk_header sample_conn sample_header 0)))) @ [77]"
    by code_simp
  from chunk_header_roundtrip [OF _ _ _ _ _ this, of zero_header]
  show ?thesis by (simp add: tx_ok_def sample_conn_def sample_header_def header_read_def)
qed

text \<open>
  C2. A message that fits one chunk of both ends arrives whole: \<open>rtmp_chunk_write\<close> succeeds, and
  \<open>rtmp_chunk_read\<close> on the bytes it sent returns 1 with the header (its format set to 0) and
  exactly the payload, however the bytes were segmented.
\<close>

theorem rtmp_message_roundtrip:
  assumes "tx_ok (socket w)" and "payload msg = Some data" and "data \<noteq> []"
    and "length data = unat (message_length (header msg))"
    and "2 \<le> chunk_stream_id (header msg)" and "chunk_stream_id (header msg) < 65600"
    and "message_length (header msg) < 0x1000000"
    and "message_length (header msg) \<le> chunk_size_out w"
    and "message_length (header msg) \<le> chunk_size_in r" and "mok (length data)"
    and "rtmp_chunk_write w msg = Some (code, w')"
    and "pending (socket r) = drop (length (tx (socket w))) (tx (socket w')) @ rest"
  shows "code = 0 \<and>
    (\<exists>lasts' s'. rtmp_chunk_read mok lasts r m0 =
       (1, msg\<lparr>header := (header msg)\<lparr>fmt := 0\<rparr>, payload_size := message_length (header msg),
                bytes_read := message_length (header msg)\<rparr>, lasts', r\<lparr>socket := s'\<rparr>) \<and>
       pending s' = rest)"
proof -
  let ?h = "header msg"
  have "message_length ?h \<noteq> 0" using assms(3,4) by auto
  then have pos: "0 < message_length ?h" by (simp add: word_neq_0_conv)
  then have cs: "0 < chunk_size_out w" using assms(8) by (rule order_less_le_trans)
  from rtmp_chunk_write_ok [OF assms(1) cs assms(2,3,4)] assms(11)
  have code: "code = 0" and
    out: "tx (socket w') = tx (socket w) @ chunk_wire (chunk_size_out w) ?h data" by auto
  have "length data \<le> unat (chunk_size_out w)" using assms(4,8) by (simp add: word_le_nat_alt)
  with assms(3) have "chunk_wire (chunk_size_out w) ?h data = header_bytes ?h 0 @ data"
    by (simp add: chunk_wire_def blocks_single)
  with out assms(12) have "pending (socket r) = header_bytes ?h 0 @ data @ rest" by simp
  moreover have "length data = min (unat (chunk_size_in r)) (unat (message_length ?h))"
    using assms(4,9) by (simp add: word_le_nat_alt)
  moreover have "of_nat (length data) = message_length ?h" by (simp add: assms(4))
  ultimately show ?thesis
    using rtmp_chunk_read_type0 [where rest = rest, OF _ assms(5,6,7), of r data mok lasts m0]
      code assms(2,4,10) by fastforce
qed

definition sample_message :: rtmp_message where
  "sample_message = \<lparr>header = sample_header, payload = Some [10, 20, 30], payload_size = 3, bytes_read = 0\<rparr>"

definition sample_reader :: rtmp_connection where
  "sample_reader = sample_conn\<lparr>socket :=
     \<lparr>rx = [RxData [1, 80, 1, 0xFF, 0xFF, 0xFF, 0], RxData [0, 3, 9, 1, 0, 0, 0, 1, 2, 3, 4, 10],
            RxData [20, 30, 77]], tx_plan = [], tx = []\<rparr>\<rparr>"

theorem rtmp_message_roundtrip_witness:
  "\<exists>lasts' s'. rtmp_chunk_read (\<lambda>n. n \<le> 100) (replicate 64 zero_header) sample_reader zero_message =
     (1, sample_message\<lparr>bytes_read := 3\<rparr>, lasts', sample_reader\<lparr>socket := s'\<rparr>) \<and> pending s' = [77]"
proof -
  have a: "rtmp_chunk_write sample_conn sample_message =
      Some (0, sample_conn\<lparr>socket := \<lparr>rx = [], tx_plan = [],
        tx = [9, 1, 80, 1, 0xFF, 0xFF, 0xFF, 0, 0, 3, 9, 1, 0, 0, 0, 1, 2, 3, 4, 10, 20, 30]\<rparr>\<rparr>)"
    by code_simp
  have b: "pending (socket sample_reader) = drop (length (tx (socket sample_conn)))
      (tx (socket (sample_conn\<lparr>socket := \<lparr>rx = [], tx_plan = [],
        tx = [9, 1, 80, 1, 0xFF, 0xFF, 0xFF, 0, 0, 3, 9, 1, 0, 0, 0, 1, 2, 3, 4, 10, 20, 30]\<rparr>\<rparr>))) @ [77]"
    by code_simp
  from rtmp_message_roundtrip [OF _ _ _ _ _ _ _ _ _ _ a b, of "[10, 20, 30]" "\<lambda>n. n \<le> 100"]
  show ?thesis
    by (simp add: tx_ok_def sample_message_def sample_conn_def sample_header_def sample_reader_def)
qed

text \<open>
  With a socket that accepts everything in the end, \<open>rtmp_chunk_write\<close> of a message that is not empty
  sends the payload in \<open>ceiling(length / chunk_size_out)\<close> blocks, none empty and none longer
  than the chunk size, that put together are the payload: the first behind a type 0 header, each
  other behind a type 3 header.
\<close>

theorem rtmp_chunk_write_blocks:
  assumes "tx_ok (socket conn)" and "0 < chunk_size_out conn"
    and "payload msg = Some data" and "data \<noteq> []"
    and "length data = unat (message_length (header msg))"
  shows "\<exists>bs s'. rtmp_chunk_write conn msg = Some (0, conn\<lparr>socket := s'\<rparr>) \<and>
     tx s' = tx (socket conn) @ wire_chunks (header msg) 0 bs \<and> concat bs = data \<and>
     length bs = (length data + unat (chunk_size_out conn) - 1) div unat (chunk_size_out conn) \<and>
     list_all (\<lambda>b. 0 < length b \<and> length b \<le> unat (chunk_size_out conn)) bs"
proof -
  let ?bs = "blocks (unat (chunk_size_out conn)) data"
  have "0 < unat (chunk_size_out conn)" using assms(2) by (simp add: word_less_nat_alt)
  then have "concat ?bs = data"
    "length ?bs = (length data + unat (chunk_size_out conn) - 1) div unat (chunk_size_out conn)"
    "list_all (\<lambda>b. 0 < length b \<and> length b \<le> unat (chunk_size_out conn)) ?bs"
    by (auto simp: length_blocks list_all_iff dest: blocks_size)
  with rtmp_chunk_write_ok [OF assms] show ?thesis
    unfolding chunk_wire_def by blast
qed

theorem rtmp_chunk_write_blocks_witness:
  "\<exists>bs s'. rtmp_chunk_write (sample_conn\<lparr>chunk_size_out := 2\<rparr>) sample_message =
       Some (0, sample_conn\<lparr>chunk_size_out := 2, socket := s'\<rparr>) \<and>
     tx s' = [9] @ wire_chunks sample_header 0 bs \<and> concat bs = [10, 20, 30] \<and> length bs = Suc (Suc 0) \<and>
     list_all (\<lambda>b. 0 < length b \<and> length b \<le> 2) bs"
proof -
  from rtmp_chunk_write_blocks [of "sample_conn\<lparr>chunk_size_out := 2\<rparr>" sample_message "[10, 20, 30]"]
  show ?thesis
    by (simp add: tx_ok_def sample_message_def sample_conn_def sample_header_def)
qed

text \<open>
  \<open>rtmp_chunk_write\<close> returns, with such a socket, exactly if the outgoing chunk size is not 0:
  with chunk size 0 its loop sends headers for ever.
\<close>

theorem rtmp_chunk_write_returns:
  assumes "tx_ok (socket conn)" and "payload msg = Some data" and "data \<noteq> []"
    and "length data = unat (message_length (header msg))"
  shows "(\<exists>r conn'. rtmp_chunk_write conn msg = Some (r, conn')) \<longleftrightarrow> chunk_size_out conn \<noteq> 0"
proof (cases "chunk_size_out conn = 0")
  case True
  have "message_length (header msg) \<noteq> 0" using assms(3,4) by auto
  moreover from this have "0 < message_length (header msg)" by (simp add: word_neq_0_conv)
  then have "chunk_write_loop conn (header msg) data 0 \<noteq> Some y" for y
    using chunk_write_loop_stuck [of conn "header msg" data 0 y] True assms(1) by blast
  ultimately show ?thesis using assms(2) True by (simp add: rtmp_chunk_write_def)
next
  case False
  then have "0 < chunk_size_out conn" by (simp add: word_neq_0_conv)
  from rtmp_chunk_write_ok [OF assms(1) this assms(2-4)] False show ?thesis by blast
qed

theorem rtmp_chunk_write_returns_witness:
  "\<not> (\<exists>r conn'. rtmp_chunk_write (sample_conn\<lparr>chunk_size_out := 0\<rparr>) sample_message = Some (r, conn'))"
  using rtmp_chunk_write_returns [of "sample_conn\<lparr>chunk_size_out := 0\<rparr>" sample_message "[10, 20, 30]"]
  by (simp add: tx_ok_def sample_message_def sample_conn_def sample_header_def)

text \<open>
  Memory safety of \<open>rtmp_chunk_read\<close> on any input: its result is one of -1, 0, 1, 2; a
  payload it leaves behind has been filled with exactly \<open>bytes_read\<close> bytes, which is within the
  allocated \<open>payload_size\<close>, the announced message length, and within one incoming chunk.
\<close>

theorem rtmp_chunk_read_safe:
  assumes "rtmp_chunk_read mok lasts conn m0 = (r, m, lasts', conn')"
  shows "r \<in> {-1, 0, 1, 2} \<and> length lasts' = length lasts \<and>
    (case payload m of
       None \<Rightarrow> r \<le> 0
     | Some bs \<Rightarrow> 0 < r \<and> length bs = unat (bytes_read m) \<and> bytes_read m \<le> payload_size m \<and>
         payload_size m = message_length (header m) \<and> bytes_read m \<le> chunk_size_in conn \<and>
         mok (unat (payload_size m)))"
  using rtmp_chunk_read_post [of mok lasts conn m0] by (simp add: assms chunk_read_post_def)

theorem rtmp_chunk_read_safe_witness:
  "rtmp_chunk_read (\<lambda>n. n \<le> 100) (replicate 64 zero_header) (sample_reader\<lparr>chunk_size_in := 2\<rparr>)
     zero_message =
     (2, sample_message\<lparr>payload := Some [10, 20], bytes_read := 2\<rparr>, replicate 64 zero_header,
      sample_reader\<lparr>chunk_size_in := 2,
        socket := \<lparr>rx = [RxData [30, 77]], tx_plan = [], tx = []\<rparr>\<rparr>) \<and>
   (2 :: c_int) \<in> {-1, 0, 1, 2} \<and> length [10, 20 :: u8] = unat (2 :: u32) \<and> (2 :: u32) \<le> 3"
proof -
  have e: "rtmp_chunk_read (\<lambda>n. n \<le> 100) (replicate 64 zero_header)
      (sample_reader\<lparr>chunk_size_in := 2\<rparr>) zero_message =
     (2, sample_message\<lparr>payload := Some [10, 20], bytes_read := 2\<rparr>, replicate 64 zero_header,
      sample_reader\<lparr>chunk_size_in := 2,
        socket := \<lparr>rx = [RxData [30, 77]], tx_plan = [], tx = []\<rparr>\<rparr>)"
    by code_simp
  from rtmp_chunk_read_safe [OF e] e show ?thesis by (simp add: sample_message_def)
qed

text \<open>
  The partial message given to \<open>rtmp_chunk_read\<close> is discarded, so the result 1, a complete
  message, is only ever reached by a message that fits one incoming chunk.
\<close>

theorem rtmp_chunk_read_single_chunk:
  assumes "rtmp_chunk_read mok lasts conn m0 = (1, m, lasts', conn')"
  shows "message_length (header m) \<le> chunk_size_in conn \<and>
    rtmp_chunk_read mok lasts conn partial = (1, m, lasts', conn')"
  using rtmp_chunk_read_complete [OF assms] assms by (simp add: rtmp_chunk_read_def Let_def)

theorem rtmp_chunk_read_single_chunk_witness:
  "rtmp_chunk_read (\<lambda>n. n \<le> 100) (replicate 64 zero_header) sample_reader zero_message =
     (1, sample_message\<lparr>bytes_read := 3\<rparr>, replicate 64 zero_header,
      sample_reader\<lparr>socket := \<lparr>rx = [RxData [77]], tx_plan = [], tx = []\<rparr>\<rparr>) \<and>
   message_length sample_header \<le> chunk_size_in sample_reader"
proof -
  have e: "rtmp_chunk_read (\<lambda>n. n \<le> 100) (replicate 64 zero_header) sample_reader zero_message =
     (1, sample_message\<lparr>bytes_read := 3\<rparr>, replicate 64 zero_header,
      sample_reader\<lparr>socket := \<lparr>rx = [RxData [77]], tx_plan = [], tx = []\<rparr>\<rparr>)"
    by code_simp
  from rtmp_chunk_read_single_chunk [OF e] e show ?thesis by (simp add: sample_message_def)
qed

end
