(* ===== verification/RtmpAmf.thy ===== *)
theory RtmpAmf
  imports StreamerPrelude
begin

text \<open>
  The AMF0 codec of \<open>modules/rtmp_server/rtmp_server.c\<close>: the encoders with the buffer they
  allocate or grow, the recursive decoder of values and objects. A number is the 64 bit pattern
  of its \<open>double\<close>, which the code only moves. Allocations come from a predicate \<open>mok\<close>: one of
  \<open>n\<close> bytes succeeds if \<open>mok n\<close>. The decoder recurses on its input, so its definitions carry
  fuel; \<open>amf_decode\<close> gives one unit more than there are bytes left, and that is enough.
\<close>

section \<open>Values\<close>

text \<open>
  \<open>amf_value_t\<close> with the cases the codec produces. Strings are their \<open>length\<close> bytes; a value
  that was only zeroed (\<open>memset\<close>) has type 0 and is the number 0.
\<close>

datatype amf_value =
  AmfNumber u64
| AmfBoolean bool
| AmfString bytes
| AmfNull
| AmfUndefined
| AmfObject "(bytes \<times> amf_value) list"

definition amf_zero :: amf_value where
  "amf_zero = AmfNumber 0"

section \<open>Encoding\<close>

text \<open>
  The caller's \<open>buffer\<close> and \<open>buffer_size\<close>: \<open>None\<close> for NULL, \<open>Some n\<close> for \<open>n\<close> bytes. An
  encoder returns its result code, the bytes it wrote at the start of the buffer, and the buffer.
\<close>

type_synonym amf_buffer = "nat option"
type_synonym amf_out = "c_int \<times> bytes \<times> amf_buffer"

definition amf_alloc :: "(nat \<Rightarrow> bool) \<Rightarrow> amf_buffer \<Rightarrow> (nat \<Rightarrow> amf_out) \<Rightarrow> amf_out" where
  "amf_alloc mok b k =
     (case b of
        Some n \<Rightarrow> k n
      | None \<Rightarrow> if mok 1024 then k 1024 else (-1, [], None))"

definition be64 :: "u64 \<Rightarrow> bytes" where
  "be64 w = map (\<lambda>i. ucast (drop_bit (8 * i) w)) [7, 6, 5, 4, 3, 2, 1, 0]"

definition amf_encode_number :: "(nat \<Rightarrow> bool) \<Rightarrow> amf_buffer \<Rightarrow> u64 \<Rightarrow> amf_out" where
  "amf_encode_number mok b number =
     amf_alloc mok b (\<lambda>n.
       if n < 9 then
         (if mok 1024 then (9, 0 # be64 number, Some 1024) else (-1, [], None))
       else (9, 0 # be64 number, Some n))"

definition amf_encode_boolean :: "(nat \<Rightarrow> bool) \<Rightarrow> amf_buffer \<Rightarrow> bool \<Rightarrow> amf_out" where
  "amf_encode_boolean mok b v = amf_alloc mok b (\<lambda>n. (2, [1, if v then 1 else 0], Some n))"

definition amf_encode_null :: "(nat \<Rightarrow> bool) \<Rightarrow> amf_buffer \<Rightarrow> amf_out" where
  "amf_encode_null mok b = amf_alloc mok b (\<lambda>n. (1, [5], Some n))"

text \<open>The length is \<open>strlen\<close> truncated to 16 bits, and that many bytes are copied.\<close>

definition amf_encode_string :: "(nat \<Rightarrow> bool) \<Rightarrow> amf_buffer \<Rightarrow> bytes option \<Rightarrow> amf_out" where
  "amf_encode_string mok b s =
     (case s of
        None \<Rightarrow> amf_encode_null mok b
      | Some str \<Rightarrow>
          (let len = (word_of_nat (length str) :: u16);
               needed = 3 + unat len;
               out = (\<lambda>n. (int needed, 2 # be16 len @ take (unat len) str, Some n))
           in case b of
                Some n \<Rightarrow> if n < needed
                          then (if mok (needed + 1024) then out (needed + 1024) else (-1, [], None))
                          else out n
              | None \<Rightarrow> if mok (needed + 1024) then out (needed + 1024) else (-1, [], None)))"

definition amf_encode_object_start :: "(nat \<Rightarrow> bool) \<Rightarrow> amf_buffer \<Rightarrow> amf_out" where
  "amf_encode_object_start mok b = amf_alloc mok b (\<lambda>n. (1, [3], Some n))"

definition amf_encode_object_end :: "(nat \<Rightarrow> bool) \<Rightarrow> amf_buffer \<Rightarrow> amf_out" where
  "amf_encode_object_end mok b = amf_alloc mok b (\<lambda>n. (3, [0, 0, 9], Some n))"

text \<open>\<open>amf_encode_object_property\<close> is a stub that always fails.\<close>

definition amf_encode_object_property :: "amf_buffer \<Rightarrow> bytes \<Rightarrow> amf_value \<Rightarrow> amf_out" where
  "amf_encode_object_property b name v = (-1, [], b)"

section \<open>Decoding\<close>

definition amf_decode_string ::
  "(nat \<Rightarrow> bool) \<Rightarrow> bytes \<Rightarrow> nat \<Rightarrow> (bytes \<times> nat) option" where
  "amf_decode_string mok buf off =
     (if length buf < off + 2 then None
      else
        (let len = unat (de16 (buf ! off) (buf ! (off + 1)))
         in if length buf < off + 2 + len then None
            else if \<not> mok (len + 1) then None
            else Some (take len (drop (off + 2) buf), off + 2 + len)))"

definition de64 :: "bytes \<Rightarrow> u64" where
  "de64 bs = foldl (\<lambda>w b. push_bit 8 w OR ucast b) 0 (take 8 bs)"

text \<open>\<open>sizeof(amf_property_t)\<close> and \<open>sizeof(amf_value_t)\<close> on the 32 bit target.\<close>

definition amf_property_size :: nat where
  "amf_property_size = 24"

definition amf_value_size :: nat where
  "amf_value_size = 16"

text \<open>
  The decoder proper. A result is the value and the offset behind it; \<open>None\<close> is the error -1,
  after which no caller looks at the offset again. The object loop carries what it has decoded
  and the capacity of its array, which doubles from 4.
\<close>

definition amf_decode_scalar ::
  "(nat \<Rightarrow> bool) \<Rightarrow> u8 \<Rightarrow> bytes \<Rightarrow> nat \<Rightarrow> (amf_value \<times> nat) option" where
  "amf_decode_scalar mok t buf off =
     (if t = 0 then
        (if length buf < off + 8 then None
         else Some (AmfNumber (de64 (drop off buf)), off + 8))
      else if t = 1 then
        (if length buf \<le> off then None
         else Some (AmfBoolean (buf ! off \<noteq> 0), off + 1))
      else if t = 2 then
        map_option (\<lambda>(s, off2). (AmfString s, off2)) (amf_decode_string mok buf off)
      else if t = 5 then Some (AmfNull, off)
      else if t = 6 then Some (AmfUndefined, off)
      else None)"

definition amf_object_end :: "bytes \<Rightarrow> nat \<Rightarrow> bool" where
  "amf_object_end buf off \<longleftrightarrow>
     off + 3 \<le> length buf \<and> buf ! off = 0 \<and> buf ! (off + 1) = 0 \<and> buf ! (off + 2) = 9"

fun amf_decode_value :: "(nat \<Rightarrow> bool) \<Rightarrow> nat \<Rightarrow> bytes \<Rightarrow> nat \<Rightarrow> (amf_value \<times> nat) option"
  and amf_decode_object ::
    "(nat \<Rightarrow> bool) \<Rightarrow> nat \<Rightarrow> bytes \<Rightarrow> nat \<Rightarrow> (bytes \<times> amf_value) list \<Rightarrow> nat \<Rightarrow>
       (amf_value \<times> nat) option" where
  "amf_decode_value mok 0 buf off = None"
| "amf_decode_value mok (Suc k) buf off =
     (if length buf \<le> off then None
      else if buf ! off = 3 then amf_decode_object mok k buf (off + 1) [] 0
      else amf_decode_scalar mok (buf ! off) buf (off + 1))"
| "amf_decode_object mok 0 buf off ps capacity = None"
| "amf_decode_object mok (Suc k) buf off ps capacity =
     (if off < length buf then
        if amf_object_end buf off then Some (AmfObject ps, off + 3)
        else
          (let full = capacity \<le> length ps;
               capacity1 = (if full then (if capacity = 0 then 4 else capacity * 2) else capacity)
           in if full \<and> \<not> mok (capacity1 * amf_property_size) then None
              else case amf_decode_string mok buf off of
                     None \<Rightarrow> None
                   | Some (name, off1) \<Rightarrow>
                       (case amf_decode_value mok k buf off1 of
                          None \<Rightarrow> None
                        | Some (v, off2) \<Rightarrow>
                            amf_decode_object mok k buf off2 (ps @ [(name, v)]) capacity1))
      else Some (AmfObject ps, off))"

definition amf_decode :: "(nat \<Rightarrow> bool) \<Rightarrow> bytes \<Rightarrow> nat \<Rightarrow> (amf_value \<times> nat) option" where
  "amf_decode mok buf off = amf_decode_value mok (Suc (length buf - off)) buf off"

section \<open>Offsets\<close>

lemma amf_decode_string_offset:
  "amf_decode_string mok buf off = Some (s, off') \<Longrightarrow>
     off + 2 \<le> off' \<and> off' \<le> length buf \<and> length s = off' - off - 2 \<and> length s < 65536"
  by (auto simp: amf_decode_string_def Let_def split: if_splits)

lemma amf_decode_object_step:
  assumes "amf_decode_object mok (Suc k) buf off ps c = Some r"
  obtains (ended) "length buf \<le> off" "r = (AmfObject ps, off)"
  | (marker) "off + 3 \<le> length buf" "r = (AmfObject ps, off + 3)"
  | (property) name off1 v off2 c1 where "off < length buf"
      "amf_decode_string mok buf off = Some (name, off1)"
      "amf_decode_value mok k buf off1 = Some (v, off2)"
      "amf_decode_object mok k buf off2 (ps @ [(name, v)]) c1 = Some r"
  using assms by (auto simp: Let_def amf_object_end_def split: if_splits option.splits)

lemma amf_decode_scalar_offset:
  "off \<le> length buf \<Longrightarrow> amf_decode_scalar mok t buf off = Some (v, off') \<Longrightarrow>
     off \<le> off' \<and> off' \<le> length buf"
  by (auto simp: amf_decode_scalar_def split: if_splits dest!: amf_decode_string_offset)

lemma amf_decode_value_step:
  assumes "amf_decode_value mok (Suc k) buf off = Some (v, off')"
  obtains (atom) "off < off'" "off' \<le> length buf"
  | (object) "off < length buf" "amf_decode_object mok k buf (off + 1) [] 0 = Some (v, off')"
  using assms
  by (fastforce split: if_splits dest: amf_decode_scalar_offset [rotated])

lemma amf_decode_offset_both:
  "(\<forall>off v off'. amf_decode_value mok k buf off = Some (v, off') \<longrightarrow> off < off' \<and> off' \<le> length buf) \<and>
   (\<forall>off ps c v off'. off \<le> length buf \<longrightarrow> amf_decode_object mok k buf off ps c = Some (v, off') \<longrightarrow>
      off \<le> off' \<and> off' \<le> length buf)"
proof (induction k)
  case 0
  show ?case by simp
next
  case (Suc k)
  then have iv: "amf_decode_value mok k buf off = Some (v, off') \<Longrightarrow> off < off' \<and> off' \<le> length buf"
    and io: "off \<le> length buf \<Longrightarrow> amf_decode_object mok k buf off ps c = Some (v, off') \<Longrightarrow>
      off \<le> off' \<and> off' \<le> length buf" for off v off' ps c by blast+
  have "off < off' \<and> off' \<le> length buf"
    if "amf_decode_value mok (Suc k) buf off = Some (v, off')" for off v off'
    using that by (cases rule: amf_decode_value_step) (use io [of "off + 1"] in fastforce)+
  moreover have "off \<le> off' \<and> off' \<le> length buf"
    if "off \<le> length buf" "amf_decode_object mok (Suc k) buf off ps c = Some (v, off')"
    for off ps c v off'
    using that(2)
  proof (cases rule: amf_decode_object_step)
    case (property name off1 w off2 c1)
    from amf_decode_string_offset [OF property(2)] iv [OF property(3)] io [OF _ property(4)]
    show ?thesis by simp
  qed (use that(1) in auto)
  ultimately show ?case by blast
qed

lemma amf_decode_offset:
  "amf_decode_value mok k buf off = Some (v, off') \<Longrightarrow> off < off' \<and> off' \<le> length buf"
  "off \<le> length buf \<Longrightarrow> amf_decode_object mok k buf off ps c = Some (v, off') \<Longrightarrow>
     off \<le> off' \<and> off' \<le> length buf"
  using amf_decode_offset_both by blast+

section \<open>Enough fuel\<close>

lemma amf_decode_fuel_both:
  "(\<forall>k' off. length buf - off < k \<longrightarrow> k \<le> k' \<longrightarrow>
      amf_decode_value mok k' buf off = amf_decode_value mok k buf off) \<and>
   (\<forall>k' off ps c. length buf - off < k \<longrightarrow> k \<le> k' \<longrightarrow>
      amf_decode_object mok k' buf off ps c = amf_decode_object mok k buf off ps c)"
proof (induction k)
  case 0
  show ?case by simp
next
  case (Suc k)
  then have iv: "length buf - off < k \<Longrightarrow> k \<le> k' \<Longrightarrow>
      amf_decode_value mok k' buf off = amf_decode_value mok k buf off"
    and io: "length buf - off < k \<Longrightarrow> k \<le> k' \<Longrightarrow>
      amf_decode_object mok k' buf off ps c = amf_decode_object mok k buf off ps c" for k' off ps c
    by blast+
  have "amf_decode_value mok k' buf off = amf_decode_value mok (Suc k) buf off"
    if "length buf - off < Suc k" "Suc k \<le> k'" for k' off
  proof -
    from that obtain j where j: "k' = Suc j" "k \<le> j" by (cases k') auto
    show ?thesis
    proof (cases "length buf \<le> off")
      case False
      with that have "length buf - (off + 1) < k" by simp
      from io [OF this j(2)] show ?thesis by (simp add: j(1) Let_def)
    qed (simp add: j(1))
  qed
  moreover have "amf_decode_object mok k' buf off ps c = amf_decode_object mok (Suc k) buf off ps c"
    if "length buf - off < Suc k" "Suc k \<le> k'" for k' off ps c
  proof -
    from that obtain j where j: "k' = Suc j" "k \<le> j" by (cases k') auto
    show ?thesis
    proof (cases "off < length buf")
      case True
      have v: "amf_decode_value mok j buf off1 = amf_decode_value mok k buf off1"
        if s: "amf_decode_string mok buf off = Some (name, off1)" for name off1
        using amf_decode_string_offset [OF s] that \<open>length buf - off < Suc k\<close> True j(2)
        by (intro iv) linarith+
      have o: "amf_decode_object mok j buf off2 qs d = amf_decode_object mok k buf off2 qs d"
        if s: "amf_decode_string mok buf off = Some (name, off1)"
          and w: "amf_decode_value mok k buf off1 = Some (w, off2)" for name off1 w off2 qs d
        using amf_decode_string_offset [OF s] amf_decode_offset(1) [OF w] \<open>length buf - off < Suc k\<close>
          True j(2)
        by (intro io) linarith+
      show ?thesis
        using True v o by (auto simp: j(1) Let_def split: option.splits)
    qed (simp add: j(1))
  qed
  ultimately show ?case by blast
qed

lemma amf_decode_fuel:
  "length buf - off < k \<Longrightarrow> amf_decode_value mok k buf off = amf_decode mok buf off"
  using amf_decode_fuel_both [of buf "Suc (length buf - off)" mok] by (simp add: amf_decode_def)

section \<open>The format as a specification\<close>

fun amf_bytes :: "amf_value \<Rightarrow> bytes"
  and amf_props_bytes :: "(bytes \<times> amf_value) list \<Rightarrow> bytes" where
  "amf_bytes (AmfNumber w) = 0 # be64 w"
| "amf_bytes (AmfBoolean b) = [1, if b then 1 else 0]"
| "amf_bytes (AmfString s) = 2 # be16 (word_of_nat (length s)) @ s"
| "amf_bytes AmfNull = [5]"
| "amf_bytes AmfUndefined = [6]"
| "amf_bytes (AmfObject ps) = 3 # amf_props_bytes ps"
| "amf_props_bytes [] = [0, 0, 9]"
| "amf_props_bytes ((name, v) # ps) =
     be16 (word_of_nat (length name)) @ name @ amf_bytes v @ amf_props_bytes ps"

fun amf_wf :: "amf_value \<Rightarrow> bool"
  and amf_props_wf :: "(bytes \<times> amf_value) list \<Rightarrow> bool" where
  "amf_wf (AmfString s) = (length s < 65536)"
| "amf_wf (AmfObject ps) = amf_props_wf ps"
| "amf_wf v = True"
| "amf_props_wf [] = True"
| "amf_props_wf ((name, v) # ps) = (length name < 65536 \<and> amf_wf v \<and> amf_props_wf ps)"

lemma length_be64 [simp]: "length (be64 w) = 8"
  by (simp add: be64_def)

lemma byte_join:
  "push_bit 8 (drop_bit (k + 8) w) OR ucast (ucast (drop_bit k w) :: u8) = (drop_bit k w :: u64)"
proof (rule bit_word_eqI, goal_cases)
  case (1 n)
  then show ?case by (cases "n < 8") (auto simp: bit_simps not_less ac_simps)
qed

lemma top_byte: "ucast (ucast (drop_bit 56 w) :: u8) = (drop_bit 56 w :: u64)"
proof (rule bit_word_eqI, goal_cases)
  case (1 n)
  have "bit w (56 + n) \<Longrightarrow> 56 + n < 64" using bit_imp_le_length [of w "56 + n"] by simp
  with 1 show ?case by (auto simp: bit_simps)
qed

lemma be64_join:
  "push_bit 8 (drop_bit 56 w) OR ucast (ucast (drop_bit 48 w) :: u8) = (drop_bit 48 w :: u64)"
  "push_bit 8 (drop_bit 48 w) OR ucast (ucast (drop_bit 40 w) :: u8) = (drop_bit 40 w :: u64)"
  "push_bit 8 (drop_bit 40 w) OR ucast (ucast (drop_bit 32 w) :: u8) = (drop_bit 32 w :: u64)"
  "push_bit 8 (drop_bit 32 w) OR ucast (ucast (drop_bit 24 w) :: u8) = (drop_bit 24 w :: u64)"
  "push_bit 8 (drop_bit 24 w) OR ucast (ucast (drop_bit 16 w) :: u8) = (drop_bit 16 w :: u64)"
  "push_bit 8 (drop_bit 16 w) OR ucast (ucast (drop_bit 8 w) :: u8) = (drop_bit 8 w :: u64)"
  "push_bit 8 (drop_bit 8 w) OR ucast (ucast w :: u8) = (w :: u64)"
  using byte_join [of 48 w] byte_join [of 40 w] byte_join [of 32 w] byte_join [of 24 w]
    byte_join [of 16 w] byte_join [of 8 w] byte_join [of 0 w]
  by simp_all

lemma de64_be64 [byte_order, simp]: "de64 (be64 w @ rest) = w"
  unfolding de64_def be64_def by (simp add: top_byte be64_join)

section \<open>Decoding what was encoded\<close>

lemma u16_length: "n < 65536 \<Longrightarrow> unat (word_of_nat n :: u16) = n"
  by (simp add: unat_of_nat take_bit_nat_eq_self)

lemma amf_decode_string_bytes:
  assumes "length s < 65536" and "\<forall>n. mok n"
  shows "amf_decode_string mok (pre @ be16 (word_of_nat (length s)) @ s @ rest) (length pre) =
    Some (s, length pre + 2 + length s)"
  using assms by (simp add: amf_decode_string_def be16_def nth_append u16_length Let_def)

lemma amf_scalar_bytes:
  assumes "amf_wf v" and "\<forall>n. mok n" and "\<And>ps. v \<noteq> AmfObject ps"
  shows "amf_decode_value mok (Suc k) (pre @ amf_bytes v @ rest) (length pre) =
    Some (v, length pre + length (amf_bytes v))"
proof (cases v)
  case (AmfString s)
  with assms(1) amf_decode_string_bytes [OF _ assms(2), of s "pre @ [2]" rest] show ?thesis
    by (simp add: amf_decode_scalar_def)
qed (use assms(3) in \<open>simp_all add: amf_decode_scalar_def nth_append\<close>)

lemma amf_bytes_nonempty [simp]: "amf_bytes v \<noteq> []"
  by (cases v) simp_all

lemma amf_bytes_head: "hd (amf_bytes v) \<noteq> 9"
  by (cases v) simp_all

lemma not_object_end:
  "length name < 65536 \<Longrightarrow>
     \<not> amf_object_end (pre @ be16 (word_of_nat (length name)) @ name @ amf_bytes v @ rest) (length pre)"
proof
  assume len: "length name < 65536"
    and e: "amf_object_end (pre @ be16 (word_of_nat (length name)) @ name @ amf_bytes v @ rest) (length pre)"
  let ?w = "word_of_nat (length name) :: u16"
  from e have z: "ucast (drop_bit 8 ?w) = (0 :: u8)" "ucast ?w = (0 :: u8)"
    and nine: "(name @ amf_bytes v @ rest) ! 0 = 9"
    by (auto simp: amf_object_end_def be16_def nth_append)
  from z de16_be16 [of ?w] have "?w = de16 0 0" by simp
  then have "?w = 0" by (simp add: de16_def)
  with u16_length [OF len] have "name = []" by simp
  with nine amf_bytes_head [of v] show False
    by (cases "amf_bytes v") simp_all
qed

lemma amf_decode_bytes:
  assumes "\<forall>n. mok n"
  shows "amf_wf v \<Longrightarrow> length (amf_bytes v) \<le> k \<Longrightarrow>
      amf_decode_value mok k (pre @ amf_bytes v @ rest) (length pre) =
        Some (v, length pre + length (amf_bytes v))"
    and "amf_props_wf ps \<Longrightarrow> length (amf_props_bytes ps) \<le> k \<Longrightarrow>
      amf_decode_object mok k (pre @ amf_props_bytes ps @ rest) (length pre) acc c =
        Some (AmfObject (acc @ ps), length pre + length (amf_props_bytes ps))"
proof (induction v and ps arbitrary: k pre rest and k pre rest acc c
    rule: amf_bytes_amf_props_bytes.induct)
  case (6 ps)
  then obtain j where j: "k = Suc j" "length (amf_props_bytes ps) \<le> j" by (cases k) auto
  from 6 j(2) "6.IH" [of j "pre @ [3]" rest "[]" 0] show ?case
    by (simp add: j(1) nth_append)
next
  case 7
  then obtain j where "k = Suc j" by (cases k) auto
  then show ?case by (simp add: amf_object_end_def nth_append)
next
  case (8 name v ps)
  then obtain j where j: "k = Suc j" by (cases k) auto
  let ?n = "be16 (word_of_nat (length name))"
  let ?tail = "amf_props_bytes ps @ rest"
  from "8.prems" have name: "length name < 65536" and v: "length (amf_bytes v) \<le> j"
    and ps: "length (amf_props_bytes ps) \<le> j" by (auto simp: j)
  from amf_decode_string_bytes [OF name assms, of pre "amf_bytes v @ ?tail"]
    "8.IH"(1) [OF _ v, of "pre @ ?n @ name" ?tail]
    "8.IH"(2) [OF _ ps, of "pre @ ?n @ name @ amf_bytes v" rest "acc @ [(name, v)]"]
    not_object_end [OF name, of pre v ?tail] "8.prems"(1) assms
  show ?case by (simp add: j Let_def add.assoc)
next
  case (3 s)
  then show ?case using amf_scalar_bytes [OF _ assms, of "AmfString s"] by (cases k) auto
qed (use amf_scalar_bytes [OF _ assms] in \<open>case_tac k; fastforce\<close>)+

interpretation amf: codec amf_wf amf_bytes "amf_decode (\<lambda>n. True)"
proof
  fix v pre rest
  assume "amf_wf v"
  with amf_decode_bytes(1) [of "\<lambda>n. True" v "Suc (length (amf_bytes v @ rest))" pre rest]
  show "amf_decode (\<lambda>n. True) (pre @ amf_bytes v @ rest) (length pre) =
      Some (v, length pre + length (amf_bytes v))"
    by (simp add: amf_decode_def)
qed simp

section \<open>What the encoders write\<close>

text \<open>A buffer is adequate if it is NULL or has the 1024 bytes every encoder allocates.\<close>

definition amf_adequate :: "amf_buffer \<Rightarrow> bool" where
  "amf_adequate b \<longleftrightarrow> (case b of None \<Rightarrow> True | Some n \<Rightarrow> 1024 \<le> n)"

text \<open>
  A call that succeeded wrote \<open>expected\<close> inside an adequate buffer; one that failed returned -1
  with nothing written and the buffer NULL.
\<close>

definition amf_wrote :: "bytes \<Rightarrow> amf_out \<Rightarrow> bool" where
  "amf_wrote expected out =
     (case out of (r, bs, b) \<Rightarrow>
        (case b of
           None \<Rightarrow> r = -1 \<and> bs = []
         | Some n \<Rightarrow> r = int (length bs) \<and> bs = expected \<and> length bs \<le> n \<and> 1024 \<le> n))"

lemma amf_encode_wrote:
  assumes "amf_adequate b"
  shows "amf_wrote (amf_bytes (AmfNumber w)) (amf_encode_number mok b w)"
    and "amf_wrote (amf_bytes (AmfBoolean v)) (amf_encode_boolean mok b v)"
    and "amf_wrote (amf_bytes AmfNull) (amf_encode_null mok b)"
    and "amf_wrote [3] (amf_encode_object_start mok b)"
    and "amf_wrote [0, 0, 9] (amf_encode_object_end mok b)"
  using assms
  by (auto simp: amf_wrote_def amf_adequate_def amf_encode_number_def amf_encode_boolean_def
      amf_encode_null_def amf_encode_object_start_def amf_encode_object_end_def amf_alloc_def
      split: option.splits)

lemma amf_encode_string_wrote:
  assumes "amf_adequate b"
  shows "amf_wrote (amf_bytes (AmfString (take (length s mod 65536) s))) (amf_encode_string mok b (Some s))"
proof -
  have u: "unat (word_of_nat (length s) :: u16) = length s mod 65536"
    by (simp add: unat_of_nat take_bit_eq_mod)
  have w: "word_of_nat (length s mod 65536) = (word_of_nat (length s) :: u16)"
    using u by (metis word_unat_eq_iff unat_of_nat mod_mod_trivial take_bit_eq_mod)
  show ?thesis
    using assms
    by (auto simp: amf_wrote_def amf_adequate_def amf_encode_string_def Let_def u w min_def
        split: option.splits)
qed

section \<open>Properties\<close>

text \<open>
  C14. The AMF0 decoder inverts the format on every value, nested objects included, wherever the
  value stands in a buffer: it returns the value and the offset right behind it, if no
  allocation fails.
\<close>

theorem amf_roundtrip:
  assumes "amf_wf v"
  shows "amf_decode (\<lambda>n. True) (pre @ amf_bytes v @ rest) (length pre) =
    Some (v, length pre + length (amf_bytes v))"
  using assms by (rule amf.dec_enc)

definition sample_amf :: amf_value where
  "sample_amf = AmfObject [([97, 112, 112], AmfString [108, 105, 118, 101]),
     ([], AmfObject [([120], AmfNumber 0x3FF0000000000000)]), ([98], AmfBoolean True)]"

theorem amf_roundtrip_witness:
  "amf_bytes sample_amf =
     [3, 0, 3, 97, 112, 112, 2, 0, 4, 108, 105, 118, 101,
      0, 0, 3, 0, 1, 120, 0, 0x3F, 0xF0, 0, 0, 0, 0, 0, 0, 0, 0, 9,
      0, 1, 98, 1, 1, 0, 0, 9] \<and>
   amf_decode (\<lambda>n. True) ([7] @ amf_bytes sample_amf @ [1]) (length [7 :: u8]) = Some (sample_amf, 40)"
proof
  show e: "amf_bytes sample_amf =
     [3, 0, 3, 97, 112, 112, 2, 0, 4, 108, 105, 118, 101,
      0, 0, 3, 0, 1, 120, 0, 0x3F, 0xF0, 0, 0, 0, 0, 0, 0, 0, 0, 9,
      0, 1, 98, 1, 1, 0, 0, 9]"
    by code_simp
  from amf_roundtrip [of sample_amf "[7]" "[1]"]
  show "amf_decode (\<lambda>n. True) ([7] @ amf_bytes sample_amf @ [1]) (length [7 :: u8]) = Some (sample_amf, 40)"
    by (simp add: e) (simp add: sample_amf_def)
qed

text \<open>
  The encoders write exactly the format, inside the buffer they were given or allocated, and
  return its length; a string is cut to its length modulo 65536. A call that fails returns -1 and
  leaves the buffer pointer NULL.
\<close>

theorem amf_encoders_conform:
  assumes "amf_adequate b"
  shows "amf_wrote (amf_bytes (AmfNumber w)) (amf_encode_number mok b w) \<and>
    amf_wrote (amf_bytes (AmfBoolean v)) (amf_encode_boolean mok b v) \<and>
    amf_wrote (amf_bytes AmfNull) (amf_encode_null mok b) \<and>
    amf_wrote (amf_bytes (AmfString (take (length s mod 65536) s))) (amf_encode_string mok b (Some s))"
  using amf_encode_wrote [OF assms] amf_encode_string_wrote [OF assms] by blast

theorem amf_encoders_conform_witness:
  "amf_encode_number (\<lambda>n. n < 100) (Some 2048) 5 = (9, [0, 0, 0, 0, 0, 0, 0, 0, 5], Some 2048) \<and>
   amf_encode_string (\<lambda>n. n < 100) (Some 2048) (Some [104, 105]) = (5, [2, 0, 2, 104, 105], Some 2048) \<and>
   amf_wrote (amf_bytes (AmfNumber 5)) (amf_encode_number (\<lambda>n. n < 100) (Some 2048) 5) \<and>
   amf_wrote (amf_bytes (AmfString [104, 105])) (amf_encode_string (\<lambda>n. n < 100) (Some 2048) (Some [104, 105]))"
proof -
  have "amf_adequate (Some 2048)" by (simp add: amf_adequate_def)
  note w = amf_encoders_conform [OF this, of 5 "\<lambda>n. n < 100" True "[104, 105]"]
  have "amf_encode_number (\<lambda>n. n < 100) (Some 2048) 5 = (9, [0, 0, 0, 0, 0, 0, 0, 0, 5], Some 2048)"
    by code_simp
  moreover have "amf_encode_string (\<lambda>n. n < 100) (Some 2048) (Some [104, 105]) =
      (5, [2, 0, 2, 104, 105], Some 2048)"
    by code_simp
  ultimately show ?thesis using w by simp
qed

text \<open>
  Whatever the bytes and whatever allocations fail, a decoded value ends behind its type byte
  and within the buffer, and the fuel chosen never decides the result: any larger amount gives
  the same.
\<close>

theorem amf_decode_bounds:
  "(case amf_decode mok buf off of
      None \<Rightarrow> True
    | Some (v, off') \<Rightarrow> off < off' \<and> off' \<le> length buf) \<and>
   amf_decode_value mok (Suc (length buf - off) + extra) buf off = amf_decode mok buf off"
proof -
  have "amf_decode_value mok (Suc (length buf - off) + extra) buf off = amf_decode mok buf off"
    by (rule amf_decode_fuel) simp
  then show ?thesis
    using amf_decode_offset(1) [of mok "Suc (length buf - off)" buf off]
    by (auto simp: amf_decode_def split: option.splits)
qed

fun amf_depth :: "amf_value \<Rightarrow> nat"
  and amf_props_depth :: "(bytes \<times> amf_value) list \<Rightarrow> nat" where
  "amf_depth (AmfObject ps) = Suc (amf_props_depth ps)"
| "amf_depth v = 0"
| "amf_props_depth [] = 0"
| "amf_props_depth ((name, v) # ps) = max (amf_depth v) (amf_props_depth ps)"

fun nested_object :: "nat \<Rightarrow> amf_value" where
  "nested_object 0 = AmfObject []"
| "nested_object (Suc n) = AmfObject [([], nested_object n)]"

fun nested_bytes :: "nat \<Rightarrow> bytes" where
  "nested_bytes 0 = [3]"
| "nested_bytes (Suc n) = [3, 0, 0] @ nested_bytes n"

lemma length_nested_bytes [simp]: "length (nested_bytes n) = 3 * n + 1"
  by (induction n) simp_all

lemma nested_bytes_hd: "nested_bytes n ! 0 = 3"
  by (cases n) simp_all

lemma amf_decode_nested:
  "2 * n + 2 \<le> k \<Longrightarrow>
     amf_decode_value (\<lambda>m. True) k (pre @ nested_bytes n) (length pre) =
       Some (nested_object n, length pre + 3 * n + 1)"
proof (induction n arbitrary: k pre)
  case 0
  then obtain j where "k = Suc (Suc j)" by (cases k; cases "k - 1") auto
  then show ?case by simp
next
  case (Suc n)
  then obtain j where j: "k = Suc (Suc j)" "2 * n + 2 \<le> j" by (cases k; cases "k - 1") auto
  from Suc.IH [OF j(2), of "pre @ [3, 0, 0]"]
  have v: "amf_decode_value (\<lambda>m. True) j (pre @ [3, 0, 0] @ nested_bytes n) (length pre + 3) =
      Some (nested_object n, length pre + 3 * n + 4)" by (simp add: numeral_eq_Suc)
  let ?buf = "pre @ [3, 0, 0] @ nested_bytes n"
  have ne: "\<not> amf_object_end ?buf (length pre + 1)"
    using nested_bytes_hd [of n] by (simp add: amf_object_end_def nth_append)
  have s: "amf_decode_string (\<lambda>m. True) ?buf (length pre + 1) = Some ([], length pre + 3)"
    by (simp add: amf_decode_string_def nth_append de16_def)
  from j(2) obtain i where i: "j = Suc i" by (cases j) auto
  have o: "amf_decode_object (\<lambda>m. True) j ?buf (length pre + 3 * n + 4) ps c =
      Some (AmfObject ps, length pre + 3 * n + 4)" for ps c by (simp add: i)
  have "amf_decode_object (\<lambda>m. True) (Suc j) ?buf (length pre + 1) [] 0 =
      Some (AmfObject [([], nested_object n)], length pre + 3 * n + 4)"
    using ne s v o by (simp add: Let_def)
  then show ?case by (simp add: j(1) del: amf_decode_object.simps)
qed

lemma amf_depth_nested [simp]: "amf_depth (nested_object n) = Suc n"
  by (induction n) simp_all

text \<open>
  Nothing bounds the recursion of the decoder but the message: for every depth there is a
  buffer of three bytes a level, with no object closed, that decodes, at that depth.
\<close>

theorem amf_unbounded_nesting:
  "\<exists>v. amf_decode (\<lambda>m. True) (nested_bytes n) 0 = Some (v, 3 * n + 1) \<and> amf_depth v = Suc n"
  using amf_decode_nested [of n "Suc (3 * n + 1)" "[]"] by (simp add: amf_decode_def)

end
