(* ===== verification/RtmpServer.thy ===== *)
theory RtmpServer
  imports RtmpChunk RtmpAmf
begin

text \<open>
  Sessions of the RTMP server (\<open>modules/rtmp_server/rtmp_server.c\<close>): handshake, commands,
  replies, the message loop of a connection, the table of connections and the frames sent to
  them. A call that sends may not return (\<open>None\<close>), as \<open>rtmp_chunk_write\<close> may not, and neither does one that
  follows a null pointer. The
  connection list of a server is guarded by a mutex that is not recursive; locking it twice in one thread
  is a call that does not return, too.
\<close>

section \<open>Strings\<close>

definition ascii :: "string \<Rightarrow> bytes" where
  "ascii s = map char_byte s"

definition c_str :: "bytes \<Rightarrow> bytes" where
  "c_str bs = takeWhile (\<lambda>b. b \<noteq> 0) bs"

text \<open>\<open>strncpy(dst, src, sizeof(dst) - 1); dst[sizeof(dst) - 1] = 0\<close> for 256 bytes.\<close>

definition copy255 :: "bytes \<Rightarrow> bytes" where
  "copy255 src = take 255 (c_str src)"

section \<open>Handshake\<close>

definition RTMP_HANDSHAKE_SIZE :: nat where
  "RTMP_HANDSHAKE_SIZE = 1536"

text \<open>
  \<open>now\<close> is \<open>(uint32_t)time(NULL)\<close> and \<open>rnd\<close> the bytes drawn from \<open>rand()\<close>.
\<close>

definition s1_block :: "u32 \<Rightarrow> bytes \<Rightarrow> bytes" where
  "s1_block now rnd = be32 now @ [0, 0, 0, 0] @ take (RTMP_HANDSHAKE_SIZE - 8) rnd"

definition conn_read_or ::
  "nat \<Rightarrow> rtmp_connection \<Rightarrow> (rtmp_connection \<Rightarrow> 'r) \<Rightarrow> (bytes \<Rightarrow> rtmp_connection \<Rightarrow> 'r) \<Rightarrow> 'r" where
  "conn_read_or n conn bad k =
     read_or n (socket conn) (\<lambda>s. bad (conn\<lparr>socket := s\<rparr>)) (\<lambda>bs s. k bs (conn\<lparr>socket := s\<rparr>))"

definition rtmp_handshake_process ::
  "u32 \<Rightarrow> bytes \<Rightarrow> rtmp_connection \<Rightarrow> c_int \<times> rtmp_connection" where
  "rtmp_handshake_process now rnd conn =
     (let fail = (\<lambda>c. (-1, c)) in
      conn_read_or 1 conn fail (\<lambda>c0 c.
        if c0 ! 0 \<noteq> 3 then (-1, c)
        else
          (let c1 = c\<lparr>c0_s0_version := c0 ! 0, conn_state := RTMP_STATE_VERSION_SENT\<rparr> in
           conn_write_or [3] c1 fail (\<lambda>c.
             conn_read_or RTMP_HANDSHAKE_SIZE c fail (\<lambda>bs c.
               conn_write_or (s1_block now rnd) (c\<lparr>c1_s1_data := bs\<rparr>) fail (\<lambda>c.
                 conn_write_or (c1_s1_data c) c fail (\<lambda>c.
                   conn_read_or RTMP_HANDSHAKE_SIZE (c\<lparr>conn_state := RTMP_STATE_ACK_SENT\<rparr>) fail
                     (\<lambda>bs c. (0, c\<lparr>c2_s2_data := bs, conn_state := RTMP_STATE_HANDSHAKE_DONE\<rparr>)))))))))"

section \<open>Commands\<close>

record rtmp_command =
  command_name :: "bytes option"
  transaction_id :: u64
  command_object :: amf_value
  arguments :: "amf_value list"

text \<open>
  The argument loop of \<open>rtmp_command_parse\<close>: decode until the buffer ends, growing the array by
  one element at a time.
\<close>

fun decode_all ::
  "(nat \<Rightarrow> bool) \<Rightarrow> nat \<Rightarrow> (bytes \<Rightarrow> nat \<Rightarrow> ('a \<times> nat) option) \<Rightarrow> nat \<Rightarrow> bytes \<Rightarrow> nat \<Rightarrow>
     'a list \<Rightarrow> 'a list option" where
  "decode_all mok item dec 0 buf off acc = None"
| "decode_all mok item dec (Suc k) buf off acc =
     (if off < length buf then
        if \<not> mok ((length acc + 1) * item) then None
        else (case dec buf off of
                None \<Rightarrow> None
              | Some (v, off') \<Rightarrow> decode_all mok item dec k buf off' (acc @ [v]))
      else Some acc)"

text \<open>
  \<open>None\<close> is the result -1. Fuel for the argument loop is one more than the bytes of the buffer:
  every value takes at least one. \<open>dup\<close> tells whether \<open>strdup\<close> gets memory for the name; its result is not looked at.
\<close>

definition rtmp_command_parse :: "(nat \<Rightarrow> bool) \<Rightarrow> bool \<Rightarrow> bytes \<Rightarrow> rtmp_command option" where
  "rtmp_command_parse mok dup buf =
     (case amf_decode mok buf 0 of
        Some (AmfString name, o1) \<Rightarrow>
          (case amf_decode mok buf o1 of
             Some (AmfNumber tid, o2) \<Rightarrow>
               (case (if o2 < length buf then amf_decode mok buf o2 else Some (amf_zero, o2)) of
                  None \<Rightarrow> None
                | Some (obj, o3) \<Rightarrow>
                    map_option
                      (\<lambda>args. \<lparr>command_name = (if dup then Some (c_str name) else None), transaction_id = tid,
                               command_object = obj, arguments = args\<rparr>)
                      (decode_all mok amf_value_size (amf_decode mok) (Suc (length buf)) buf o3 []))
           | _ \<Rightarrow> None)
      | _ \<Rightarrow> None)"

section \<open>Replies\<close>

text \<open>
  One step of building a reply: encode into a fresh temporary buffer, grow the reply buffer,
  append.
\<close>

definition amf_append ::
  "(nat \<Rightarrow> bool) \<Rightarrow> bytes \<Rightarrow> amf_out \<Rightarrow> (bytes \<Rightarrow> (c_int \<times> 'c) option) \<Rightarrow> 'c \<Rightarrow>
     (c_int \<times> 'c) option" where
  "amf_append mok acc out k conn =
     (case out of (r, bs, b) \<Rightarrow>
        if r < 0 then Some (-1, conn)
        else if \<not> mok (length acc + nat r) then Some (-1, conn)
        else k (acc @ take (nat r) bs))"

definition amf_begin ::
  "amf_out \<Rightarrow> (bytes \<Rightarrow> (c_int \<times> 'c) option) \<Rightarrow> 'c \<Rightarrow> (c_int \<times> 'c) option" where
  "amf_begin out k conn =
     (case out of (r, bs, b) \<Rightarrow> if r < 0 then Some (-1, conn) else k (take (nat r) bs))"

definition command_message :: "u32 \<Rightarrow> bytes \<Rightarrow> rtmp_message" where
  "command_message stream buf =
     \<lparr>header = \<lparr>fmt = 0, chunk_stream_id = 3, timestamp = 0,
                message_length = word_of_nat (length buf), message_type_id = 20,
                message_stream_id = stream\<rparr>,
      payload = Some buf, payload_size = word_of_nat (length buf), bytes_read = 0\<rparr>"

definition rtmp_send_connect_result ::
  "(nat \<Rightarrow> bool) \<Rightarrow> rtmp_connection \<Rightarrow> u64 \<Rightarrow> bool \<Rightarrow> (c_int \<times> rtmp_connection) option" where
  "rtmp_send_connect_result mok conn tid success =
     amf_begin (amf_encode_string mok None (Some (ascii (if success then ''_result'' else ''_error''))))
       (\<lambda>buf. amf_append mok buf (amf_encode_number mok None tid)
       (\<lambda>buf. amf_append mok buf (amf_encode_object_start mok None)
       (\<lambda>buf. amf_append mok buf (amf_encode_object_end mok None)
       (\<lambda>buf. amf_append mok buf (amf_encode_null mok None)
       (\<lambda>buf. rtmp_chunk_write conn (command_message 0 buf)) conn) conn) conn) conn) conn"

definition rtmp_send_create_stream_result ::
  "(nat \<Rightarrow> bool) \<Rightarrow> rtmp_connection \<Rightarrow> u64 \<Rightarrow> u64 \<Rightarrow> (c_int \<times> rtmp_connection) option" where
  "rtmp_send_create_stream_result mok conn tid stream =
     amf_begin (amf_encode_string mok None (Some (ascii ''_result'')))
       (\<lambda>buf. amf_append mok buf (amf_encode_number mok None tid)
       (\<lambda>buf. amf_append mok buf (amf_encode_null mok None)
       (\<lambda>buf. amf_append mok buf (amf_encode_number mok None stream)
       (\<lambda>buf. rtmp_chunk_write conn (command_message 0 buf)) conn) conn) conn) conn"

text \<open>The status code and the description are only logged.\<close>

definition rtmp_send_publish_status ::
  "(nat \<Rightarrow> bool) \<Rightarrow> rtmp_connection \<Rightarrow> string \<Rightarrow> string \<Rightarrow> (c_int \<times> rtmp_connection) option" where
  "rtmp_send_publish_status mok conn code description =
     amf_begin (amf_encode_string mok None (Some (ascii ''onStatus'')))
       (\<lambda>buf. amf_append mok buf (amf_encode_number mok None 0)
       (\<lambda>buf. amf_append mok buf (amf_encode_null mok None)
       (\<lambda>buf. amf_append mok buf (amf_encode_object_start mok None)
       (\<lambda>buf. amf_append mok buf (amf_encode_object_end mok None)
       (\<lambda>buf. rtmp_chunk_write conn (command_message 1 buf)) conn) conn) conn) conn) conn"

definition rtmp_send_play_status ::
  "(nat \<Rightarrow> bool) \<Rightarrow> rtmp_connection \<Rightarrow> string \<Rightarrow> string \<Rightarrow> (c_int \<times> rtmp_connection) option" where
  "rtmp_send_play_status = rtmp_send_publish_status"

section \<open>Control messages\<close>

definition control_message :: "u8 \<Rightarrow> u32 \<Rightarrow> rtmp_message" where
  "control_message type value =
     \<lparr>header = \<lparr>fmt = 0, chunk_stream_id = 2, timestamp = 0, message_length = 4,
                message_type_id = type, message_stream_id = 0\<rparr>,
      payload = Some (be32 value), payload_size = 4, bytes_read = 0\<rparr>"

definition rtmp_send_set_chunk_size ::
  "(nat \<Rightarrow> bool) \<Rightarrow> rtmp_connection \<Rightarrow> u32 \<Rightarrow> (c_int \<times> rtmp_connection) option" where
  "rtmp_send_set_chunk_size mok conn cs =
     (if \<not> mok 4 then Some (-1, conn)
      else map_option
        (\<lambda>(r, c). (r, if r = 0 then c\<lparr>chunk_size_out := cs\<rparr> else c))
        (rtmp_chunk_write conn (control_message 1 cs)))"

definition rtmp_send_acknowledgement ::
  "(nat \<Rightarrow> bool) \<Rightarrow> rtmp_connection \<Rightarrow> u32 \<Rightarrow> (c_int \<times> rtmp_connection) option" where
  "rtmp_send_acknowledgement mok conn received =
     (if \<not> mok 4 then Some (-1, conn) else rtmp_chunk_write conn (control_message 3 received))"

definition rtmp_send_window_ack_size ::
  "(nat \<Rightarrow> bool) \<Rightarrow> rtmp_connection \<Rightarrow> u32 \<Rightarrow> (c_int \<times> rtmp_connection) option" where
  "rtmp_send_window_ack_size mok conn window =
     (if \<not> mok 4 then Some (-1, conn) else rtmp_chunk_write conn (control_message 5 window))"

section \<open>Handling commands and messages\<close>

text \<open>The first \<open>app\<close> property that is a string, as \<open>connect\<close> looks for it.\<close>

fun find_app :: "(bytes \<times> amf_value) list \<Rightarrow> bytes option" where
  "find_app [] = None"
| "find_app ((name, v) # ps) =
     (case v of
        AmfString s \<Rightarrow> if c_str name = ascii ''app'' then Some s else find_app ps
      | _ \<Rightarrow> find_app ps)"

definition connect_app :: "amf_value \<Rightarrow> rtmp_connection \<Rightarrow> rtmp_connection" where
  "connect_app obj conn =
     (case obj of
        AmfObject ps \<Rightarrow>
          (case find_app ps of None \<Rightarrow> conn | Some s \<Rightarrow> conn\<lparr>app_name := copy255 s\<rparr>)
      | _ \<Rightarrow> conn)"

text \<open>The stream name of \<open>publish\<close> and \<open>play\<close>: the first argument, if it is a string.\<close>

definition stream_argument :: "rtmp_command \<Rightarrow> bytes option" where
  "stream_argument cmd =
     (case arguments cmd of AmfString s # _ \<Rightarrow> Some s | _ \<Rightarrow> None)"

text \<open>Comparing a name that is a null pointer is undefined: \<open>None\<close>.\<close>

definition rtmp_command_handle ::
  "(nat \<Rightarrow> bool) \<Rightarrow> rtmp_connection \<Rightarrow> rtmp_command \<Rightarrow> (c_int \<times> rtmp_connection) option" where
  "rtmp_command_handle mok conn cmd =
     (case command_name cmd of
        None \<Rightarrow> None
      | Some name \<Rightarrow>
      if name = ascii ''connect'' then
        rtmp_send_connect_result mok
          ((connect_app (command_object cmd) conn)\<lparr>conn_state := RTMP_STATE_CONNECTED\<rparr>)
          (transaction_id cmd) True
      else if name = ascii ''createStream'' then
        rtmp_send_create_stream_result mok conn (transaction_id cmd) 0x3FF0000000000000
      else if name = ascii ''publish'' then
        (case stream_argument cmd of
           Some s \<Rightarrow> rtmp_send_publish_status mok (conn\<lparr>stream_key := copy255 s, publishing := True\<rparr>)
                      ''NetStream.Publish.Start'' ''Publishing stream''
         | None \<Rightarrow> rtmp_send_publish_status mok conn
                     ''NetStream.Publish.Failed'' ''Invalid stream name'')
      else if name = ascii ''play'' then
        (case stream_argument cmd of
           Some s \<Rightarrow> rtmp_send_play_status mok (conn\<lparr>stream_key := copy255 s\<rparr>)
                      ''NetStream.Play.StreamNotFound'' ''Stream not found''
         | None \<Rightarrow> rtmp_send_play_status mok conn
                     ''NetStream.Play.Failed'' ''Invalid stream name'')
      else if name = ascii ''deleteStream'' then
        Some (0, conn\<lparr>publishing := False, stream_key := []\<rparr>)
      else if name = ascii ''close'' then Some (0, conn\<lparr>thread_running := False\<rparr>)
      else Some (0, conn))"

text \<open>The payload of a complete message, and its first four bytes as a number.\<close>

definition payload_bytes :: "rtmp_message \<Rightarrow> bytes" where
  "payload_bytes msg = (case payload msg of None \<Rightarrow> [] | Some bs \<Rightarrow> bs)"

definition payload_u32 :: "rtmp_message \<Rightarrow> u32" where
  "payload_u32 msg =
     (let p = payload_bytes msg in de32 (p ! 0) (p ! 1) (p ! 2) (p ! 3))"

definition rtmp_message_parse ::
  "(nat \<Rightarrow> bool) \<Rightarrow> bool \<Rightarrow> rtmp_connection \<Rightarrow> rtmp_message \<Rightarrow> (c_int \<times> rtmp_connection) option" where
  "rtmp_message_parse mok dup conn msg =
     (let type = message_type_id (header msg); len = message_length (header msg) in
      if type = 1 then
        Some (0, if 4 \<le> len then conn\<lparr>chunk_size_in := payload_u32 msg\<rparr> else conn)
      else if type = 5 then
        Some (0, if 4 \<le> len then conn\<lparr>window_ack_size := payload_u32 msg\<rparr> else conn)
      else if type = 20 then
        (case rtmp_command_parse mok dup (payload_bytes msg) of
           None \<Rightarrow> Some (0, conn)
         | Some cmd \<Rightarrow> map_option (\<lambda>(r, c). (0, c)) (rtmp_command_handle mok conn cmd))
      else Some (0, conn))"

section \<open>The connection thread\<close>




section \<open>The server\<close>

text \<open>
  Connections are known by the address of their record, here a number. \<open>connections_mutex\<close> tells
  whether the thread at hand holds the mutex.
\<close>

record rtmp_server =
  running :: bool
  connections :: "(nat \<times> rtmp_connection) list"
  connections_mutex :: bool
  max_connections :: c_int
  current_connections :: c_int

definition fresh_connection :: "sock \<Rightarrow> rtmp_connection" where
  "fresh_connection s =
     \<lparr>socket = s, conn_state = RTMP_STATE_UNINITIALIZED, c0_s0_version = 0, c1_s1_data = [],
      c2_s2_data = [], chunk_size_in = 65536, chunk_size_out = 65536, window_ack_size = 2500000,
      app_name = [], stream_key = [], publishing = False, thread_running = True\<rparr>"

text \<open>
  \<open>rtmp_connection_cleanup\<close> locks the mutex, unlinks the connection and frees it. With the mutex
  already held by its caller it never returns.
\<close>

definition rtmp_connection_cleanup :: "rtmp_server \<Rightarrow> nat \<Rightarrow> rtmp_server option" where
  "rtmp_connection_cleanup sv c =
     (if connections_mutex sv then None
      else Some
        (if c \<in> fst ` set (connections sv)
         then sv\<lparr>connections := remove1 (c, the (map_of (connections sv) c)) (connections sv),
                current_connections := current_connections sv - 1\<rparr>
         else sv))"

text \<open>
  One round of the accept thread, for a client that connected: the connection limit, the
  allocation at address \<open>c\<close> (\<open>None\<close> if it fails), the list, the thread.
\<close>

definition rtmp_accept :: "rtmp_server \<Rightarrow> nat option \<Rightarrow> sock \<Rightarrow> bool \<Rightarrow> rtmp_server option" where
  "rtmp_accept sv alloc s thread_ok =
     (if max_connections sv \<le> current_connections sv then Some sv
      else case alloc of
        None \<Rightarrow> Some sv
      | Some c \<Rightarrow>
          (let sv1 = sv\<lparr>connections := (c, fresh_connection s) # connections sv,
                        current_connections := current_connections sv + 1\<rparr>
           in if thread_ok then Some sv1 else rtmp_connection_cleanup sv1 c))"

text \<open>The loop of \<open>rtmp_server_destroy\<close> over the connections, with the mutex held.\<close>

fun cleanup_all :: "rtmp_server \<Rightarrow> nat list \<Rightarrow> rtmp_server option" where
  "cleanup_all sv [] = Some sv"
| "cleanup_all sv (c # cs) =
     (case rtmp_connection_cleanup sv c of None \<Rightarrow> None | Some sv1 \<Rightarrow> cleanup_all sv1 cs)"

definition rtmp_server_destroy :: "rtmp_server option \<Rightarrow> rtmp_server option option" where
  "rtmp_server_destroy g =
     (case g of
        None \<Rightarrow> Some None
      | Some sv \<Rightarrow>
          (if connections_mutex sv then None
           else map_option (\<lambda>_. None)
             (cleanup_all (sv\<lparr>running := False, connections_mutex := True\<rparr>)
                (map fst (connections sv)))))"

section \<open>Frames\<close>

text \<open>A frame is \<open>None\<close> for a NULL pointer; its size is the length of its data.\<close>

definition media_message :: "u32 \<Rightarrow> u8 \<Rightarrow> bytes \<Rightarrow> u32 \<Rightarrow> rtmp_message" where
  "media_message cid type data ts =
     \<lparr>header = \<lparr>fmt = 0, chunk_stream_id = cid, timestamp = ts,
                message_length = word_of_nat (length data), message_type_id = type,
                message_stream_id = 1\<rparr>,
      payload = Some data, payload_size = word_of_nat (length data), bytes_read = 0\<rparr>"

definition rtmp_send_video_frame ::
  "(nat \<Rightarrow> bool) \<Rightarrow> rtmp_connection \<Rightarrow> bytes option \<Rightarrow> u32 \<Rightarrow> (c_int \<times> rtmp_connection) option" where
  "rtmp_send_video_frame mok conn frame ts =
     (case frame of
        None \<Rightarrow> Some (0, conn)
      | Some data \<Rightarrow>
          if data = [] \<or> \<not> publishing conn then Some (0, conn)
          else if \<not> mok (length data) then Some (-1, conn)
          else rtmp_chunk_write conn (media_message 4 9 data ts))"

definition rtmp_send_audio_frame ::
  "(nat \<Rightarrow> bool) \<Rightarrow> rtmp_connection \<Rightarrow> bytes option \<Rightarrow> u32 \<Rightarrow> (c_int \<times> rtmp_connection) option" where
  "rtmp_send_audio_frame mok conn frame ts =
     (case frame of
        None \<Rightarrow> Some (0, conn)
      | Some data \<Rightarrow>
          if data = [] \<or> \<not> publishing conn then Some (0, conn)
          else if \<not> mok (length data) then Some (-1, conn)
          else rtmp_chunk_write conn (media_message 5 8 data ts))"

text \<open>The loop over the connection list: how many took the frame, and the list afterwards.\<close>

fun send_to_connections ::
  "(nat \<Rightarrow> bool) \<Rightarrow> bytes option \<Rightarrow> u32 \<Rightarrow> (nat \<times> rtmp_connection) list \<Rightarrow>
     (c_int \<times> (nat \<times> rtmp_connection) list) option" where
  "send_to_connections mok frame ts [] = Some (0, [])"
| "send_to_connections mok frame ts ((a, conn) # cs) =
     (if publishing conn \<and> thread_running conn then
        (case rtmp_send_video_frame mok conn frame ts of
           None \<Rightarrow> None
         | Some (r, conn1) \<Rightarrow>
             map_option (\<lambda>(n, cs1). ((if r = 0 then 1 else 0) + n, (a, conn1) # cs1))
               (send_to_connections mok frame ts cs))
      else map_option (\<lambda>(n, cs1). (n, (a, conn) # cs1)) (send_to_connections mok frame ts cs))"

text \<open>A \<open>timeval\<close> is its seconds and microseconds; the timestamp is cut to 32 bits.\<close>

definition rtmp_timestamp :: "int \<times> int \<Rightarrow> u32" where
  "rtmp_timestamp tv = word_of_int (fst tv * 1000 + snd tv div 1000)"

definition rtmp_server_send_frame ::
  "(nat \<Rightarrow> bool) \<Rightarrow> rtmp_server option \<Rightarrow> bytes option \<Rightarrow> int \<times> int \<Rightarrow>
     (c_int \<times> rtmp_server option) option" where
  "rtmp_server_send_frame mok server frame tv =
     (case server of
        None \<Rightarrow> Some (0, None)
      | Some sv \<Rightarrow>
          if frame = None \<or> frame = Some [] then Some (0, Some sv)
          else if connections_mutex sv then None
          else map_option (\<lambda>(n, cs). (n, Some (sv\<lparr>connections := cs\<rparr>)))
            (send_to_connections mok frame (rtmp_timestamp tv) (connections sv)))"

text \<open>
  The callback the RTSP module calls with each frame. \<open>module_running\<close> is the module's state,
  \<open>video_channel\<close> tells the channels that are enabled and not JPEG (the table \<open>chn\<close>).
\<close>

definition rtmp_frame_callback ::
  "(nat \<Rightarrow> bool) \<Rightarrow> (int \<Rightarrow> bool) \<Rightarrow> bool \<Rightarrow> rtmp_server option \<Rightarrow> int \<Rightarrow> bytes option \<Rightarrow>
     (int \<times> int) option \<Rightarrow> (c_int \<times> rtmp_server option) option" where
  "rtmp_frame_callback mok video_channel module_running server channel frame tv =
     (case (server, tv) of
        (Some sv, Some t) \<Rightarrow>
          if \<not> module_running \<or> frame = None \<or> frame = Some [] then Some (0, server)
          else if connections_mutex sv then None
          else if \<not> list_ex (\<lambda>(a, c). publishing c \<and> thread_running c) (connections sv)
          then Some (0, server)
          else if \<not> video_channel channel then Some (0, server)
          else rtmp_server_send_frame mok server frame t
      | _ \<Rightarrow> Some (0, server))"

section \<open>Every call returns\<close>

text \<open>\<open>returns Q x\<close>: the call \<open>x\<close> returns, and leaves a connection that satisfies \<open>Q\<close>.\<close>

definition returns :: "('c \<Rightarrow> bool) \<Rightarrow> (c_int \<times> 'c) option \<Rightarrow> bool" where
  "returns Q x \<longleftrightarrow> (case x of None \<Rightarrow> False | Some (r, c) \<Rightarrow> Q c)"

lemma returns_Some [simp]: "returns Q (Some (r, c)) = Q c"
  by (simp add: returns_def)

lemma returns_mono: "returns Q x \<Longrightarrow> (\<And>c. Q c \<Longrightarrow> R c) \<Longrightarrow> returns R x"
  by (auto simp: returns_def split: option.splits)


lemma returns_append [intro]:
  "Q conn \<Longrightarrow> (\<And>buf. returns Q (k buf)) \<Longrightarrow> returns Q (amf_append mok acc out k conn)"
  by (simp add: amf_append_def split: prod.split)

lemma returns_begin [intro]:
  "Q conn \<Longrightarrow> (\<And>buf. returns Q (k buf)) \<Longrightarrow> returns Q (amf_begin out k conn)"
  by (simp add: amf_begin_def split: prod.split)

text \<open>Sending changes the socket only, and nothing of what is still to be read from it.\<close>

definition sent_only :: "rtmp_connection \<Rightarrow> rtmp_connection \<Rightarrow> bool" where
  "sent_only a b \<longleftrightarrow> same_but_socket a b \<and> rx (socket b) = rx (socket a)"

lemma sent_only_refl [simp]: "sent_only a a"
  by (simp add: sent_only_def)

lemma conn_write_input:
  assumes "\<And>c. rx (socket c) = rx (socket conn) \<Longrightarrow> P (bad c)" and "\<And>c. rx (socket c) = rx (socket conn) \<Longrightarrow> P (k c)"
  shows "P (conn_write_or bs conn bad k)"
  unfolding conn_write_or_def by (rule write_or_rx_rule [where P = P]) (simp_all add: assms)

lemma chunk_header_input:
  assumes "rtmp_write_chunk_header conn h f = (r, c)"
  shows "rx (socket c) = rx (socket conn)"
proof -
  define P :: "c_int \<times> rtmp_connection \<Rightarrow> bool" where "P x \<longleftrightarrow> rx (socket (snd x)) = rx (socket conn)" for x
  have [simp]: "P (r, c) \<longleftrightarrow> rx (socket c) = rx (socket conn)" for r c by (simp add: P_def)
  have "P (rtmp_write_chunk_header conn h f)"
    unfolding rtmp_write_chunk_header_def write_basic_header_def Let_def
    by (auto intro!: conn_write_input [where P = P])
  with assms show ?thesis by simp
qed

lemma chunk_write_input:
  assumes "chunk_write_loop conn h data written = Some (r, c)"
  shows "rx (socket c) = rx (socket conn)"
proof -
  have "rx (socket (snd y)) = rx (socket conn)" if "chunk_write_loop conn h data written = Some y" for y
  proof (rule chunk_write_loop.raw_induct
      [where P = "\<lambda>conn h data written y. rx (socket (snd y)) = rx (socket conn)", OF _ that], goal_cases)
    case (1 loop conn h data written y)
    then show ?case
      by (auto simp: Let_def rtmp_write_bytes_def dest!: chunk_header_input split: if_splits prod.splits)
  qed
  from this [OF assms] show ?thesis by simp
qed

lemma returns_write:
  assumes "0 < chunk_size_out conn"
  shows "returns (sent_only conn) (rtmp_chunk_write conn msg)"
proof -
  obtain r c where w: "rtmp_chunk_write conn msg = Some (r, c)" "same_but_socket conn c"
    using rtmp_chunk_write_returns_frame [OF assms] by blast
  then have "rx (socket c) = rx (socket conn)"
    by (auto simp: rtmp_chunk_write_def dest: chunk_write_input split: option.splits if_splits)
  with w show ?thesis by (simp add: sent_only_def)
qed

lemma returns_replies:
  assumes "0 < chunk_size_out conn"
  shows "returns (sent_only conn) (rtmp_send_connect_result mok conn tid success)"
    and "returns (sent_only conn) (rtmp_send_create_stream_result mok conn tid stream)"
    and "returns (sent_only conn) (rtmp_send_publish_status mok conn code description)"
    and "returns (sent_only conn) (rtmp_send_play_status mok conn code description)"
  unfolding rtmp_send_connect_result_def rtmp_send_create_stream_result_def
    rtmp_send_play_status_def rtmp_send_publish_status_def
  by (auto intro!: returns_append returns_begin returns_write assms)

text \<open>
  The invariant of a connection: the outgoing chunk size is set, and the two names fit their
  256 byte buffers with the NUL that ends them.
\<close>

definition conn_inv :: "rtmp_connection \<Rightarrow> bool" where
  "conn_inv conn \<longleftrightarrow>
     0 < chunk_size_out conn \<and> length (app_name conn) \<le> 255 \<and> 0 \<notin> set (app_name conn) \<and>
     length (stream_key conn) \<le> 255 \<and> 0 \<notin> set (stream_key conn)"

lemma conn_inv_same: "same_but_socket a b \<Longrightarrow> conn_inv a \<Longrightarrow> conn_inv b"
  by (simp add: conn_inv_def same_but_socket_fields)

text \<open>The invariant, with what is still to be read.\<close>

definition holds_input :: "rx_event list \<Rightarrow> rtmp_connection \<Rightarrow> bool" where
  "holds_input es conn \<longleftrightarrow> conn_inv conn \<and> rx (socket conn) = es"

lemma returns_inv: "returns (sent_only a) x \<Longrightarrow> holds_input es a \<Longrightarrow> returns (holds_input es) x"
  by (erule returns_mono) (auto simp: sent_only_def holds_input_def intro: conn_inv_same)

lemma copy255_bounds [simp]: "length (copy255 s) \<le> 255" "0 \<notin> set (copy255 s)"
  by (auto simp: copy255_def c_str_def dest!: in_set_takeD set_takeWhileD)

lemma connect_app_inv: "holds_input es conn \<Longrightarrow> holds_input es (connect_app obj conn)"
  by (auto simp: connect_app_def holds_input_def conn_inv_def split: amf_value.split option.split)

lemma rtmp_command_handle_returns:
  assumes "holds_input es conn" and "command_name cmd \<noteq> None"
  shows "returns (holds_input es) (rtmp_command_handle mok conn cmd)"
proof -
  have inv: "holds_input es c \<Longrightarrow> returns (holds_input es) (rtmp_send_connect_result mok c t b)"
    "holds_input es c \<Longrightarrow> returns (holds_input es) (rtmp_send_create_stream_result mok c t st)"
    "holds_input es c \<Longrightarrow> returns (holds_input es) (rtmp_send_publish_status mok c x y)"
    "holds_input es c \<Longrightarrow> returns (holds_input es) (rtmp_send_play_status mok c x y)" for c t b st x y
    by (rule returns_inv [OF returns_replies(1)] returns_inv [OF returns_replies(2)]
        returns_inv [OF returns_replies(3)] returns_inv [OF returns_replies(4)],
        simp_all add: holds_input_def conn_inv_def)+
  have upd: "holds_input es (c\<lparr>conn_state := q\<rparr>)" "holds_input es (c\<lparr>stream_key := copy255 s, publishing := p\<rparr>)"
    "holds_input es (c\<lparr>stream_key := copy255 s\<rparr>)" "holds_input es (c\<lparr>publishing := p, stream_key := []\<rparr>)"
    "holds_input es (c\<lparr>thread_running := p\<rparr>)" if "holds_input es c" for c q s p
    using that by (simp_all add: holds_input_def conn_inv_def)
  from assms(2) obtain name where "command_name cmd = Some name" by blast
  then show ?thesis
    unfolding rtmp_command_handle_def
    using assms(1) by (auto intro!: inv upd connect_app_inv split: option.split)
qed

lemma rtmp_command_parse_name: "rtmp_command_parse mok True buf = Some cmd \<Longrightarrow> command_name cmd \<noteq> None"
  by (auto simp: rtmp_command_parse_def split: option.splits amf_value.splits prod.splits if_splits)

lemma rtmp_message_parse_returns:
  assumes "holds_input es conn"
  shows "returns (holds_input es) (rtmp_message_parse mok True conn msg)"
proof -
  have "returns (holds_input es) (map_option (\<lambda>(r, c). (0, c)) (rtmp_command_handle mok conn cmd))"
    if "command_name cmd \<noteq> None" for cmd
    using rtmp_command_handle_returns [OF assms that, of mok]
    by (auto simp: returns_def split: option.splits)
  moreover have "holds_input es (conn\<lparr>chunk_size_in := v\<rparr>)" "holds_input es (conn\<lparr>window_ack_size := v\<rparr>)" for v
    using assms by (simp_all add: holds_input_def conn_inv_def)
  ultimately show ?thesis
    unfolding rtmp_message_parse_def Let_def
    using assms by (auto dest: rtmp_command_parse_name split: option.split)
qed

text \<open>Without memory for the name a command is not handled at all: the server follows the null pointer.\<close>

lemma unnamed_command_crashes:
  assumes "message_type_id (header msg) = 20" and "rtmp_command_parse mok True (payload_bytes msg) = Some cmd"
  shows "rtmp_message_parse mok False conn msg = None"
proof -
  have "\<exists>c. rtmp_command_parse mok False (payload_bytes msg) = Some c \<and> command_name c = None"
    using assms(2) by (auto simp: rtmp_command_parse_def split: option.splits amf_value.splits prod.splits)
  with assms(1) show ?thesis by (auto simp: rtmp_message_parse_def rtmp_command_handle_def)
qed

text \<open>
  The messages of a connection as an event machine: whatever messages arrive in whatever order,
  the invariant holds after each.
\<close>

definition message_step :: "(nat \<Rightarrow> bool) \<Rightarrow> rtmp_connection \<Rightarrow> rtmp_message \<Rightarrow> rtmp_connection" where
  "message_step mok conn msg =
     (case rtmp_message_parse mok True conn msg of None \<Rightarrow> conn | Some (r, c) \<Rightarrow> c)"

lemma conn_inv_fresh: "conn_inv (fresh_connection s)"
  by (simp add: conn_inv_def fresh_connection_def)

interpretation rtmp_conn:
  event_machine "\<lambda>c. \<exists>s. c = fresh_connection s" "message_step mok" conn_inv for mok
proof
  fix c m assume "conn_inv c"
  then have "holds_input (rx (socket c)) c" by (simp add: holds_input_def)
  from rtmp_message_parse_returns [OF this, of mok m] show "conn_inv (message_step mok c m)"
    by (auto simp: message_step_def returns_def holds_input_def split: option.splits)
qed (auto simp: conn_inv_fresh)


text \<open>A chunk that was read has taken at least a byte.\<close>

definition takes :: "nat \<Rightarrow> c_int \<Rightarrow> sock \<Rightarrow> bool" where
  "takes n r s \<longleftrightarrow> script_load (rx s) \<le> n \<and> (0 < r \<longrightarrow> script_load (rx s) < n)"

lemma takes_simps [simp]:
  "r \<le> 0 \<Longrightarrow> takes n r s \<longleftrightarrow> script_load (rx s) \<le> n" "0 < r \<Longrightarrow> takes n r s \<longleftrightarrow> script_load (rx s) < n"
  by (auto simp: takes_def)







section \<open>What a session exchanges\<close>

lemma conn_read_or_enough:
  "n \<le> length (pending (socket c)) \<Longrightarrow> conn_read_or n c bad k =
     k (take n (pending (socket c))) (c\<lparr>socket := after_read (socket c) n\<rparr>)"
  by (simp add: conn_read_or_def sock_script)

lemma conn_write_or_ok:
  "tx_ok (socket c) \<Longrightarrow> conn_write_or bs c bad k = k (c\<lparr>socket := after_write (socket c) bs\<rparr>)"
  by (simp add: conn_write_or_def sock_script)

context codec
begin

text \<open>A list of encoded values up to the end of the buffer decodes to the list.\<close>

lemma decode_all_enc:
  "list_all wf vs \<Longrightarrow> \<forall>n. mok n \<Longrightarrow> length (concat (map enc vs)) < k \<Longrightarrow>
     decode_all mok item dec k (pre @ concat (map enc vs)) (length pre) acc = Some (acc @ vs)"
proof (induction vs arbitrary: k pre acc)
  case Nil
  then show ?case by (cases k) simp_all
next
  case (Cons v vs)
  then obtain j where k: "k = Suc j" by (cases k) auto
  from Cons.prems(1) have v: "wf v" and ne: "enc v \<noteq> []" by (simp_all add: enc_nonempty)
  from ne have "0 < length (enc v)" by simp
  moreover have "length (concat (map enc (v # vs))) = length (enc v) + length (concat (map enc vs))"
    by simp
  ultimately have j: "length (concat (map enc vs)) < j" using Cons.prems(3) k by linarith
  from dec_enc [OF v, of pre "concat (map enc vs)"] Cons.IH [OF _ Cons.prems(2) j, of "pre @ enc v"]
    Cons.prems(1,2) ne
  show ?case by (simp add: k)
qed

end

lemma amf_bytes_length: "0 < length (amf_bytes v)"
  by simp

lemma rtmp_command_parse_bytes:
  assumes "length name < 65536" and "0 \<notin> set name" and "amf_wf obj" and "list_all amf_wf args"
  shows "rtmp_command_parse (\<lambda>n. True) True
      (amf_bytes (AmfString name) @ amf_bytes (AmfNumber tid) @ amf_bytes obj @
       concat (map amf_bytes args)) =
    Some \<lparr>command_name = Some name, transaction_id = tid, command_object = obj, arguments = args\<rparr>"
proof -
  let ?n = "amf_bytes (AmfString name)" and ?t = "amf_bytes (AmfNumber tid)" and ?o = "amf_bytes obj"
  let ?a = "concat (map amf_bytes args)"
  let ?buf = "?n @ ?t @ ?o @ ?a"
  have "c_str name = name"
    using assms(2) by (auto simp: c_str_def takeWhile_eq_all_conv)
  moreover have "amf_decode (\<lambda>n. True) ?buf 0 = Some (AmfString name, length ?n)"
    using amf.dec_first [of "AmfString name" "?t @ ?o @ ?a"] assms(1) by simp
  moreover have "amf_decode (\<lambda>n. True) ?buf (length ?n) = Some (AmfNumber tid, length ?n + length ?t)"
    using amf.dec_enc [of "AmfNumber tid" ?n "?o @ ?a"] by simp
  moreover have "amf_decode (\<lambda>n. True) ?buf (length ?n + length ?t) =
      Some (obj, length ?n + length ?t + length ?o)"
    using amf.dec_enc [OF assms(3), of "?n @ ?t" ?a] by simp
  moreover have "decode_all (\<lambda>n. True) amf_value_size (amf_decode (\<lambda>n. True)) (Suc (length ?buf)) ?buf
      (length ?n + length ?t + length ?o) [] = Some args"
    using amf.decode_all_enc [OF assms(4), of "\<lambda>n. True" "Suc (length ?buf)" amf_value_size "?n @ ?t @ ?o" "[]"]
    by (simp add: add.assoc)
  moreover have "length ?n + length ?t < length ?buf" using amf_bytes_length [of obj] by simp
  ultimately show ?thesis
    by (simp add: rtmp_command_parse_def del: amf_bytes.simps length_append append_assoc)
qed

section \<open>The server's threads\<close>

text \<open>
  The accept thread, the connection threads and the sender interleave at the grain of their
  critical sections: a round of the accept thread, a connection thread working on its own
  record, one leaving, a frame going out. An allocation never returns an address in use.
\<close>

definition created_server :: "c_int \<Rightarrow> rtmp_server" where
  "created_server limit =
     \<lparr>running = True, connections = [], connections_mutex = False, max_connections = limit,
      current_connections = 0\<rparr>"

inductive rtmp_server_step :: "rtmp_server \<Rightarrow> rtmp_server \<Rightarrow> bool" where
  step_accept:
    "running sv \<Longrightarrow> (\<And>c. alloc = Some c \<Longrightarrow> c \<notin> fst ` set (connections sv)) \<Longrightarrow>
       rtmp_accept sv alloc s thread_ok = Some sv' \<Longrightarrow> rtmp_server_step sv sv'"
| step_work:
    "connections sv = xs @ (c, conn) # ys \<Longrightarrow>
       rtmp_server_step sv (sv\<lparr>connections := xs @ (c, conn') # ys\<rparr>)"
| step_leave:
    "rtmp_connection_cleanup sv c = Some sv' \<Longrightarrow> rtmp_server_step sv sv'"
| step_frame:
    "rtmp_server_send_frame mok (Some sv) frame tv = Some (n, Some sv') \<Longrightarrow> rtmp_server_step sv sv'"

inductive rtmp_server_reachable :: "c_int \<Rightarrow> rtmp_server \<Rightarrow> bool" where
  reach_created: "rtmp_server_reachable limit (created_server limit)"
| reach_step: "rtmp_server_reachable limit sv \<Longrightarrow> rtmp_server_step sv sv' \<Longrightarrow> rtmp_server_reachable limit sv'"

definition server_inv :: "c_int \<Rightarrow> rtmp_server \<Rightarrow> bool" where
  "server_inv limit sv \<longleftrightarrow>
     max_connections sv = limit \<and> \<not> connections_mutex sv \<and> distinct (map fst (connections sv)) \<and>
     current_connections sv = int (length (connections sv)) \<and> current_connections sv \<le> max 0 limit"

lemma send_to_connections_keys:
  "send_to_connections mok frame ts cs = Some (n, cs') \<Longrightarrow> map fst cs' = map fst cs"
  by (induction mok frame ts cs arbitrary: n cs' rule: send_to_connections.induct)
    (auto split: if_splits option.splits)

lemma cleanup_inv:
  assumes "server_inv limit sv" and "rtmp_connection_cleanup sv c = Some sv'"
  shows "server_inv limit sv'"
proof (cases "c \<in> fst ` set (connections sv)")
  case True
  then obtain conn where m: "map_of (connections sv) c = Some conn"
    by (metis map_of_eq_None_iff not_None_eq)
  then have i: "(c, conn) \<in> set (connections sv)" by (rule map_of_SomeD)
  then have "1 \<le> length (connections sv)" by (cases "connections sv") auto
  moreover have "distinct (map fst (remove1 (c, conn) (connections sv)))"
    using assms(1) by (auto simp: server_inv_def distinct_map intro: inj_on_subset dest: notin_set_remove1
        set_remove1_subset [THEN subsetD])
  ultimately show ?thesis
    using assms True m i
    by (auto simp: rtmp_connection_cleanup_def server_inv_def length_remove1 of_nat_diff split: if_splits)
next
  case False
  with assms show ?thesis by (auto simp: rtmp_connection_cleanup_def split: if_splits)
qed

lemma rtmp_server_step_inv:
  assumes "server_inv limit sv" and "rtmp_server_step sv sv'"
  shows "server_inv limit sv'"
  using assms(2)
proof (cases rule: rtmp_server_step.cases)
  case (step_accept alloc s thread_ok)
  show ?thesis
  proof (cases "max_connections sv \<le> current_connections sv \<or> alloc = None")
    case True
    with step_accept assms(1) show ?thesis by (auto simp: rtmp_accept_def split: if_splits)
  next
    case False
    then obtain c where c: "alloc = Some c" by auto
    let ?sv = "sv\<lparr>connections := (c, fresh_connection s) # connections sv,
      current_connections := current_connections sv + 1\<rparr>"
    have "server_inv limit ?sv" using assms(1) False c step_accept(2) by (auto simp: server_inv_def)
    with False c step_accept(3) cleanup_inv [of limit ?sv c sv'] show ?thesis
      by (auto simp: rtmp_accept_def Let_def split: if_splits)
  qed
next
  case (step_work xs c conn ys conn')
  with assms(1) show ?thesis by (simp add: server_inv_def)
next
  case (step_leave c)
  with cleanup_inv [OF assms(1)] show ?thesis by blast
next
  case (step_frame mok frame tv n)
  with assms(1) show ?thesis
    by (auto simp: rtmp_server_send_frame_def server_inv_def split: if_splits
        dest!: send_to_connections_keys dest: map_eq_imp_length_eq)
qed

lemma rtmp_server_reachable_inv: "rtmp_server_reachable limit sv \<Longrightarrow> server_inv limit sv"
  by (induction rule: rtmp_server_reachable.induct)
    (simp add: server_inv_def created_server_def, blast intro: rtmp_server_step_inv)

text \<open>Who takes a frame, and what taking it means.\<close>

definition takes_frames :: "rtmp_connection \<Rightarrow> bool" where
  "takes_frames conn \<longleftrightarrow> publishing conn \<and> thread_running conn"

definition got_frame ::
  "bytes \<Rightarrow> u32 \<Rightarrow> nat \<times> rtmp_connection \<Rightarrow> nat \<times> rtmp_connection \<Rightarrow> bool" where
  "got_frame data ts old new \<longleftrightarrow>
     fst new = fst old \<and>
     (if takes_frames (snd old)
      then same_but_socket (snd old) (snd new) \<and>
        tx (socket (snd new)) = tx (socket (snd old)) @
          chunk_wire (chunk_size_out (snd old)) (header (media_message 4 9 data ts)) data
      else snd new = snd old)"

lemma send_to_connections_ok:
  assumes "data \<noteq> []" and "length data < 2 ^ 32"
    and "list_all (\<lambda>(a, c). tx_ok (socket c) \<and> 0 < chunk_size_out c) cs"
  shows "\<exists>cs'. send_to_connections (\<lambda>n. True) (Some data) ts cs =
      Some (int (length (filter (\<lambda>(a, c). takes_frames c) cs)), cs') \<and>
    list_all2 (got_frame data ts) cs cs'"
  using assms(3)
proof (induction cs)
  case Nil
  then show ?case by simp
next
  case (Cons x cs)
  obtain a c where x: "x = (a, c)" by (metis prod.exhaust)
  from Cons obtain cs' where ih: "send_to_connections (\<lambda>n. True) (Some data) ts cs =
      Some (int (length (filter (\<lambda>(a, c). takes_frames c) cs)), cs')"
    "list_all2 (got_frame data ts) cs cs'" by auto
  show ?case
  proof (cases "takes_frames c")
    case True
    let ?m = "media_message 4 9 data ts"
    have len: "length data = unat (message_length (header ?m))"
      using assms(2) by (simp add: media_message_def unat_of_nat take_bit_nat_eq_self)
    have "payload ?m = Some data" by (simp add: media_message_def)
    from rtmp_chunk_write_ok [OF _ _ this assms(1) len, of c] Cons.prems obtain s' where w: "rtmp_chunk_write c ?m = Some (0, c\<lparr>socket := s'\<rparr>)"
      "tx s' = tx (socket c) @ chunk_wire (chunk_size_out c) (header ?m) data"
      by (auto simp: x)
    from True w(2) have "got_frame data ts (a, c) (a, c\<lparr>socket := s'\<rparr>)" by (simp add: got_frame_def)
    with True ih assms(1) w(1) show ?thesis
      by (intro exI [of _ "(a, c\<lparr>socket := s'\<rparr>) # cs'"])
        (simp add: x takes_frames_def rtmp_send_video_frame_def)
  next
    case False
    then have "got_frame data ts (a, c) (a, c)" by (simp add: got_frame_def)
    with False ih show ?thesis
      by (intro exI [of _ "(a, c) # cs'"]) (auto simp: x takes_frames_def)
  qed
qed

lemma server_handshake:
  assumes "tx_ok (socket conn)" and "pending (socket conn) = [3] @ c1 @ c2 @ rest"
    and "length c1 = 1536" and "length c2 = 1536" and "length rnd \<ge> 1528"
  shows "\<exists>s'. rtmp_handshake_process now rnd conn =
      (0, conn\<lparr>c0_s0_version := 3, c1_s1_data := c1, c2_s2_data := c2,
               conn_state := RTMP_STATE_HANDSHAKE_DONE, socket := s'\<rparr>) \<and>
    tx s' = tx (socket conn) @ [3] @ (be32 now @ [0, 0, 0, 0] @ take 1528 rnd) @ c1 \<and>
    length (be32 now @ [0, 0, 0, 0] @ take 1528 rnd) = 1536 \<and> pending s' = rest"
  using assms
  by (intro exI [of _ "after_read (after_write (after_write (after_read (after_write
        (after_read (socket conn) 1) [3]) 1536) (s1_block now rnd)) c1) 1536"])
    (simp add: rtmp_handshake_process_def Let_def conn_read_or_enough conn_write_or_ok
      rtmp_write_bytes_ok rtmp_read_bytes_enough RTMP_HANDSHAKE_SIZE_def s1_block_def)

section \<open>Properties\<close>




text \<open>
  The invariant holds after any sequence of parsed messages on a fresh connection.
\<close>

theorem rtmp_messages_keep_inv:
  "conn_inv (foldl (message_step mok) (fresh_connection s) msgs)"
  by (rule rtmp_conn.inv_reached) blast

text \<open>
  The handshake with a client that sends version 3 and its two blocks: the server answers with
  version 3, its own block (the time, four zeros, random bytes) and the client's block unchanged,
  and reaches the state after the handshake with the rest of the input unread.
\<close>

theorem rtmp_handshake_exchange:
  assumes "tx_ok (socket conn)" and "pending (socket conn) = [3] @ c1 @ c2 @ rest"
    and "length c1 = 1536" and "length c2 = 1536" and "length rnd \<ge> 1528"
  shows "\<exists>s'. rtmp_handshake_process now rnd conn =
      (0, conn\<lparr>c0_s0_version := 3, c1_s1_data := c1, c2_s2_data := c2,
               conn_state := RTMP_STATE_HANDSHAKE_DONE, socket := s'\<rparr>) \<and>
    tx s' = tx (socket conn) @ [3] @ (be32 now @ [0, 0, 0, 0] @ take 1528 rnd) @ c1 \<and>
    length (be32 now @ [0, 0, 0, 0] @ take 1528 rnd) = 1536 \<and> pending s' = rest"
  using assms by (rule server_handshake)

theorem rtmp_handshake_exchange_witness:
  "\<exists>s'. rtmp_handshake_process 7 (replicate 1528 5)
      (fresh_connection \<lparr>rx = [RxData [3], RxData (replicate 1536 1), RxData (replicate 1536 2 @ [9])],
         tx_plan = [1, 700], tx = []\<rparr>) =
      (0, (fresh_connection s')\<lparr>c0_s0_version := 3, c1_s1_data := replicate 1536 1,
           c2_s2_data := replicate 1536 2, conn_state := RTMP_STATE_HANDSHAKE_DONE\<rparr>) \<and>
    length (tx s') = 3073 \<and> pending s' = [9]"
proof -
  let ?s = "\<lparr>rx = [RxData [3], RxData (replicate 1536 1), RxData (replicate 1536 2 @ [9])],
         tx_plan = [1, 700], tx = []\<rparr> :: sock"
  have "replicate 1536 1 \<noteq> ([] :: bytes)" "replicate 1536 2 \<noteq> ([] :: bytes)" by simp_all
  then have "pending (socket (fresh_connection ?s)) = [3] @ replicate 1536 1 @ replicate 1536 2 @ [9]"
    by (simp add: fresh_connection_def pending_def)
  from rtmp_handshake_exchange [OF _ this, of "replicate 1528 5" 7] obtain s' where
    "rtmp_handshake_process 7 (replicate 1528 5) (fresh_connection ?s) =
      (0, (fresh_connection ?s)\<lparr>c0_s0_version := 3, c1_s1_data := replicate 1536 1,
           c2_s2_data := replicate 1536 2, conn_state := RTMP_STATE_HANDSHAKE_DONE, socket := s'\<rparr>)"
    "tx s' = [3] @ (be32 7 @ [0, 0, 0, 0] @ take 1528 (replicate 1528 5)) @ replicate 1536 1"
    "pending s' = [9]"
    by (auto simp: tx_ok_def fresh_connection_def)
  then show ?thesis by (intro exI [of _ s']) (simp add: fresh_connection_def)
qed

text \<open>
  A command built from a name, a transaction number, a command object and any list of
  arguments is parsed back into exactly these, if no allocation fails.
\<close>

theorem rtmp_command_roundtrip:
  assumes "length name < 65536" and "0 \<notin> set name" and "amf_wf obj" and "list_all amf_wf args"
  shows "rtmp_command_parse (\<lambda>n. True) True
      (amf_bytes (AmfString name) @ amf_bytes (AmfNumber tid) @ amf_bytes obj @
       concat (map amf_bytes args)) =
    Some \<lparr>command_name = Some name, transaction_id = tid, command_object = obj, arguments = args\<rparr>"
  using assms by (rule rtmp_command_parse_bytes)

theorem rtmp_command_roundtrip_witness:
  "rtmp_command_parse (\<lambda>n. True) True
     [2, 0, 7, 112, 117, 98, 108, 105, 115, 104, 0, 0x40, 0, 0, 0, 0, 0, 0, 0, 5, 2, 0, 2, 99, 49, 1, 1] =
   Some \<lparr>command_name = Some (ascii ''publish''), transaction_id = 0x4000000000000000, command_object = AmfNull,
         arguments = [AmfString (ascii ''c1''), AmfBoolean True]\<rparr>"
proof -
  have e: "amf_bytes (AmfString (ascii ''publish'')) @ amf_bytes (AmfNumber 0x4000000000000000) @ amf_bytes AmfNull @
      concat (map amf_bytes [AmfString (ascii ''c1''), AmfBoolean True]) =
    [2, 0, 7, 112, 117, 98, 108, 105, 115, 104, 0, 0x40, 0, 0, 0, 0, 0, 0, 0, 5, 2, 0, 2, 99, 49, 1, 1]"
    by code_simp
  have "0 \<notin> set (ascii ''publish'')" by code_simp
  from rtmp_command_roundtrip [OF _ this, of AmfNull "[AmfString (ascii ''c1''), AmfBoolean True]"
      "0x4000000000000000"]
  show ?thesis unfolding e by (simp add: ascii_def)
qed

lemma u16_length_int: "n < 65536 \<Longrightarrow> uint (word_of_nat n :: u16) = int n"
  by (simp add: unsigned_of_nat take_bit_nat_eq_self flip: of_nat_take_bit)

text \<open>With memory for the reply, a reply is the sequence of the values it is built from.\<close>

lemma append_number:
  "amf_append (\<lambda>n. True) acc (amf_encode_number (\<lambda>n. True) None w) k conn = k (acc @ amf_bytes (AmfNumber w))"
  by (simp add: amf_append_def amf_encode_number_def amf_alloc_def)

lemma append_object:
  "amf_append (\<lambda>n. True) acc (amf_encode_object_start (\<lambda>n. True) None) k conn = k (acc @ [3])"
  "amf_append (\<lambda>n. True) acc (amf_encode_object_end (\<lambda>n. True) None) k conn = k (acc @ [0, 0, 9])"
  "amf_append (\<lambda>n. True) acc (amf_encode_null (\<lambda>n. True) None) k conn = k (acc @ [5])"
  by (simp_all add: amf_append_def amf_encode_object_start_def amf_encode_object_end_def
      amf_encode_null_def amf_alloc_def)

lemma begin_string:
  "length s < 65536 \<Longrightarrow>
     amf_begin (amf_encode_string (\<lambda>n. True) None (Some s)) k conn = k (amf_bytes (AmfString s))"
  by (simp add: amf_begin_def amf_encode_string_def Let_def u16_length u16_length_int nat_add_distrib)

lemmas reply_steps = append_number append_object begin_string

definition publish_status_bytes :: bytes where
  "publish_status_bytes =
     amf_bytes (AmfString (ascii ''onStatus'')) @ amf_bytes (AmfNumber 0) @ amf_bytes AmfNull @
     amf_bytes (AmfObject [])"

definition connect_result_bytes :: "u64 \<Rightarrow> bytes" where
  "connect_result_bytes tid =
     amf_bytes (AmfString (ascii ''_result'')) @ amf_bytes (AmfNumber tid) @ amf_bytes (AmfObject []) @
     amf_bytes AmfNull"

lemma rtmp_send_publish_status_eq:
  "rtmp_send_publish_status (\<lambda>n. True) conn code description =
     rtmp_chunk_write conn (command_message 1 publish_status_bytes)"
  by (simp add: rtmp_send_publish_status_def reply_steps publish_status_bytes_def ascii_def)

lemma rtmp_send_connect_result_eq:
  "rtmp_send_connect_result (\<lambda>n. True) conn tid True =
     rtmp_chunk_write conn (command_message 0 (connect_result_bytes tid))"
  by (simp add: rtmp_send_connect_result_def reply_steps connect_result_bytes_def ascii_def)

lemma connect_result_length: "length (connect_result_bytes tid) = 24"
  by (simp add: connect_result_bytes_def ascii_def)

text \<open>
  \<open>connect\<close> moves the connection to the connected state, takes over the application name and
  sends one chunk (with the default chunk size) whose payload the server's own parser reads as the
  \<open>_result\<close> of the same transaction.
\<close>

theorem rtmp_connect_reply:
  assumes "tx_ok (socket conn)" and "chunk_size_out conn = 65536"
    and "command_name cmd = Some (ascii ''connect'')"
  shows "\<exists>s' reply. rtmp_command_handle (\<lambda>n. True) conn cmd =
      Some (0, (connect_app (command_object cmd) conn)\<lparr>conn_state := RTMP_STATE_CONNECTED, socket := s'\<rparr>) \<and>
    tx s' = tx (socket conn) @ header_bytes (header (command_message 0 reply)) 0 @ reply \<and>
    rtmp_command_parse (\<lambda>n. True) True reply =
      Some \<lparr>command_name = Some (ascii ''_result''), transaction_id = transaction_id cmd,
            command_object = AmfObject [], arguments = [AmfNull]\<rparr>"
proof -
  let ?c = "(connect_app (command_object cmd) conn)\<lparr>conn_state := RTMP_STATE_CONNECTED\<rparr>"
  let ?r = "connect_result_bytes (transaction_id cmd)"
  have c: "socket ?c = socket conn" "chunk_size_out ?c = 65536"
    using assms(2) by (auto simp: connect_app_def split: amf_value.split option.split)
  have "rtmp_command_parse (\<lambda>n. True) True ?r =
      Some \<lparr>command_name = Some (ascii ''_result''), transaction_id = transaction_id cmd,
            command_object = AmfObject [], arguments = [AmfNull]\<rparr>"
    using rtmp_command_parse_bytes [of "ascii ''_result''" "AmfObject []" "[AmfNull]" "transaction_id cmd"]
    by (simp add: connect_result_bytes_def ascii_def char_byte_def)
  moreover have "length ?r = unat (message_length (header (command_message 0 ?r)))" "?r \<noteq> []"
    by (simp_all add: command_message_def connect_result_length flip: length_0_conv)
  then obtain s' where "rtmp_chunk_write ?c (command_message 0 ?r) = Some (0, ?c\<lparr>socket := s'\<rparr>)"
    "tx s' = tx (socket conn) @ header_bytes (header (command_message 0 ?r)) 0 @ ?r"
    using rtmp_chunk_write_ok [of ?c "command_message 0 ?r" ?r] c assms(1)
    by (auto simp: command_message_def chunk_wire_def blocks_single connect_result_length)
  ultimately show ?thesis
    using assms(3) by (auto simp: rtmp_command_handle_def rtmp_send_connect_result_eq)
qed

definition sample_connect :: rtmp_command where
  "sample_connect = \<lparr>command_name = Some (ascii ''connect''), transaction_id = 0x3FF0000000000000,
     command_object = AmfObject [(ascii ''app'', AmfString (ascii ''live''))], arguments = []\<rparr>"

theorem rtmp_connect_reply_witness:
  "\<exists>s' reply. rtmp_command_handle (\<lambda>n. True) (fresh_connection \<lparr>rx = [], tx_plan = [5], tx = []\<rparr>)
      sample_connect =
    Some (0, (fresh_connection s')\<lparr>app_name := ascii ''live'', conn_state := RTMP_STATE_CONNECTED\<rparr>) \<and>
    tx s' = header_bytes (header (command_message 0 reply)) 0 @ reply \<and>
    rtmp_command_parse (\<lambda>n. True) True reply =
      Some \<lparr>command_name = Some (ascii ''_result''), transaction_id = 0x3FF0000000000000,
            command_object = AmfObject [], arguments = [AmfNull]\<rparr>"
proof -
  let ?c = "fresh_connection \<lparr>rx = [], tx_plan = [5], tx = []\<rparr>"
  from rtmp_connect_reply [of ?c sample_connect] obtain s' reply where
    "rtmp_command_handle (\<lambda>n. True) ?c sample_connect =
      Some (0, (connect_app (command_object sample_connect) ?c)
        \<lparr>conn_state := RTMP_STATE_CONNECTED, socket := s'\<rparr>)"
    "tx s' = tx (socket ?c) @ header_bytes (header (command_message 0 reply)) 0 @ reply"
    "rtmp_command_parse (\<lambda>n. True) True reply =
      Some \<lparr>command_name = Some (ascii ''_result''), transaction_id = 0x3FF0000000000000,
            command_object = AmfObject [], arguments = [AmfNull]\<rparr>"
    by (auto simp: sample_connect_def fresh_connection_def tx_ok_def)
  moreover have "connect_app (command_object sample_connect) ?c = ?c\<lparr>app_name := ascii ''live''\<rparr>"
    by code_simp
  ultimately show ?thesis
    by (intro exI [of _ s'] exI [of _ reply]) (simp add: fresh_connection_def)
qed

text \<open>
  The reply to \<open>publish\<close> does not tell its outcome: a publish with a stream name, which is accepted in any
  state of the connection, and one without, which is refused, put the same bytes on the wire. Only the
  flag and the key of the connection differ.
\<close>

theorem rtmp_publish_reply_same:
  assumes "tx_ok (socket conn)" and "chunk_size_out conn = 65536"
    and "command_name cmd = Some (ascii ''publish'')"
  shows "\<exists>s1 s2. rtmp_command_handle (\<lambda>n. True) conn (cmd\<lparr>arguments := AmfString key # args\<rparr>) =
      Some (0, conn\<lparr>stream_key := copy255 key, publishing := True, socket := s1\<rparr>) \<and>
    rtmp_command_handle (\<lambda>n. True) conn (cmd\<lparr>arguments := []\<rparr>) = Some (0, conn\<lparr>socket := s2\<rparr>) \<and>
    tx s1 = tx s2 \<and>
    tx s1 = tx (socket conn) @ header_bytes (header (command_message 1 publish_status_bytes)) 0 @
      publish_status_bytes"
proof -
  let ?m = "command_message 1 publish_status_bytes"
  let ?c = "conn\<lparr>stream_key := copy255 key, publishing := True\<rparr>"
  have len: "length publish_status_bytes = 25"
    by (simp add: publish_status_bytes_def ascii_def)
  then have ne: "publish_status_bytes \<noteq> []" by auto
  have names: "ascii ''publish'' \<noteq> ascii ''connect''" "ascii ''publish'' \<noteq> ascii ''createStream''"
    by (simp_all add: ascii_def)
  have sent: "\<exists>s'. rtmp_chunk_write c ?m = Some (0, c\<lparr>socket := s'\<rparr>) \<and>
      tx s' = tx (socket c) @ header_bytes (header ?m) 0 @ publish_status_bytes"
    if "tx_ok (socket c)" "chunk_size_out c = 65536" for c
    using rtmp_chunk_write_ok [of c ?m publish_status_bytes] that len ne
    by (auto simp: command_message_def chunk_wire_def blocks_single)
  from sent [of ?c] sent [of conn] assms(1,2) obtain s1 s2 where
    "rtmp_chunk_write ?c ?m = Some (0, ?c\<lparr>socket := s1\<rparr>)"
    "rtmp_chunk_write conn ?m = Some (0, conn\<lparr>socket := s2\<rparr>)"
    "tx s1 = tx (socket conn) @ header_bytes (header ?m) 0 @ publish_status_bytes"
    "tx s2 = tx (socket conn) @ header_bytes (header ?m) 0 @ publish_status_bytes"
    by auto
  then show ?thesis
    using assms(3) names
    by (intro exI [of _ s1] exI [of _ s2])
      (simp add: rtmp_command_handle_def stream_argument_def rtmp_send_publish_status_eq)
qed

theorem rtmp_publish_reply_same_witness:
  "\<exists>s1 s2. rtmp_command_handle (\<lambda>n. True) (fresh_connection \<lparr>rx = [], tx_plan = [], tx = []\<rparr>)
      (sample_connect\<lparr>command_name := Some (ascii ''publish''), arguments := [AmfString [107]]\<rparr>) =
      Some (0, (fresh_connection s1)\<lparr>stream_key := [107], publishing := True\<rparr>) \<and>
    rtmp_command_handle (\<lambda>n. True) (fresh_connection \<lparr>rx = [], tx_plan = [], tx = []\<rparr>)
      (sample_connect\<lparr>command_name := Some (ascii ''publish'')\<rparr>) = Some (0, fresh_connection s2) \<and>
    tx s1 = tx s2"
proof -
  let ?c = "fresh_connection \<lparr>rx = [], tx_plan = [], tx = []\<rparr>"
  let ?p = "sample_connect\<lparr>command_name := Some (ascii ''publish'')\<rparr>"
  from rtmp_publish_reply_same [of ?c ?p "[107]" "[]"] obtain s1 s2 where
    a: "rtmp_command_handle (\<lambda>n. True) ?c (?p\<lparr>arguments := [AmfString [107]]\<rparr>) =
      Some (0, ?c\<lparr>stream_key := copy255 [107], publishing := True, socket := s1\<rparr>)"
    "rtmp_command_handle (\<lambda>n. True) ?c (?p\<lparr>arguments := []\<rparr>) = Some (0, ?c\<lparr>socket := s2\<rparr>)"
    "tx s1 = tx s2"
    by (auto simp: fresh_connection_def tx_ok_def)
  have "?p\<lparr>arguments := []\<rparr> = ?p" by (simp add: sample_connect_def)
  with a show ?thesis
    by (intro exI [of _ s1] exI [of _ s2]) (simp add: fresh_connection_def copy255_def c_str_def)
qed

text \<open>
  C23. In every state the server's threads can reach, the connection count is the number of
  listed connections, which are distinct and within the configured limit, and no thread sits on
  the list's mutex.
\<close>

theorem rtmp_server_connections:
  assumes "rtmp_server_reachable limit sv"
  shows "current_connections sv = int (length (connections sv)) \<and> distinct (map fst (connections sv)) \<and>
    current_connections sv \<le> max 0 limit \<and> \<not> connections_mutex sv"
  using rtmp_server_reachable_inv [OF assms] by (simp add: server_inv_def)

lemma one_connection_reachable:
  "rtmp_server_reachable 2 ((created_server 2)\<lparr>connections :=
     [(9, fresh_connection \<lparr>rx = [], tx_plan = [], tx = []\<rparr>)], current_connections := 1\<rparr>)"
  by (rule reach_step [OF reach_created], rule step_accept [where alloc = "Some 9" and thread_ok = True])
    (simp_all add: rtmp_accept_def created_server_def)

theorem rtmp_server_connections_witness:
  "int (length (connections ((created_server 2)\<lparr>connections :=
     [(9, fresh_connection \<lparr>rx = [], tx_plan = [], tx = []\<rparr>)], current_connections := 1\<rparr>))) = 1 \<and>
   (1 :: c_int) \<le> max 0 2"
  using rtmp_server_connections [OF one_connection_reachable] by simp

text \<open>
  \<open>rtmp_server_destroy\<close> returns only for a server without connections: it calls
  \<open>rtmp_connection_cleanup\<close>, which locks the connection mutex, while holding that mutex.
\<close>

theorem rtmp_server_destroy_deadlock:
  assumes "rtmp_server_reachable limit sv"
  shows "rtmp_server_destroy (Some sv) = (if connections sv = [] then Some None else None)"
  using rtmp_server_reachable_inv [OF assms]
  by (cases "connections sv")
    (auto simp: rtmp_server_destroy_def rtmp_connection_cleanup_def server_inv_def)

theorem rtmp_server_destroy_deadlock_witness:
  "rtmp_server_destroy (Some ((created_server 2)\<lparr>connections :=
     [(9, fresh_connection \<lparr>rx = [], tx_plan = [], tx = []\<rparr>)], current_connections := 1\<rparr>)) = None"
  using rtmp_server_destroy_deadlock [OF one_connection_reachable] by simp

text \<open>
  A frame is sent, cut into chunks, to exactly the connections that publish and run; the
  others are left alone, and the result is the number of those that took it (sockets that accept
  everything in the end, memory for the copies).
\<close>

theorem rtmp_frame_distribution:
  assumes "data \<noteq> []" and "length data < 2 ^ 32" and "\<not> connections_mutex sv"
    and "list_all (\<lambda>(a, c). tx_ok (socket c) \<and> 0 < chunk_size_out c) (connections sv)"
  shows "\<exists>cs'. rtmp_server_send_frame (\<lambda>n. True) (Some sv) (Some data) tv =
      Some (int (length (filter (\<lambda>(a, c). takes_frames c) (connections sv))),
            Some (sv\<lparr>connections := cs'\<rparr>)) \<and>
    list_all2 (got_frame data (rtmp_timestamp tv)) (connections sv) cs'"
  using send_to_connections_ok [OF assms(1,2,4), of "rtmp_timestamp tv"] assms(1,3)
  by (auto simp: rtmp_server_send_frame_def)

theorem rtmp_frame_distribution_witness:
  "\<exists>cs'. rtmp_server_send_frame (\<lambda>n. True) (Some ((created_server 2)\<lparr>connections :=
        [(1, sample_conn), (2, sample_conn\<lparr>publishing := True, thread_running := True\<rparr>)]\<rparr>))
      (Some [1, 2, 3, 4, 5]) (12, 345678) =
      Some (1, Some ((created_server 2)\<lparr>connections := cs'\<rparr>)) \<and> length cs' = 2 \<and>
    rtmp_timestamp (12, 345678) = 12345"
proof -
  let ?sv = "(created_server 2)\<lparr>connections :=
        [(1, sample_conn), (2, sample_conn\<lparr>publishing := True, thread_running := True\<rparr>)]\<rparr>"
  from rtmp_frame_distribution [of "[1, 2, 3, 4, 5]" ?sv "(12, 345678)"] obtain cs' where
    a: "rtmp_server_send_frame (\<lambda>n. True) (Some ?sv) (Some [1, 2, 3, 4, 5]) (12, 345678) =
      Some (1, Some (?sv\<lparr>connections := cs'\<rparr>))"
    "list_all2 (got_frame [1, 2, 3, 4, 5] (rtmp_timestamp (12, 345678))) (connections ?sv) cs'"
    by (auto simp: created_server_def sample_conn_def tx_ok_def takes_frames_def)
  from list_all2_lengthD [OF a(2)] have "length cs' = 2" by (simp add: created_server_def)
  moreover have "rtmp_timestamp (12, 345678) = 12345" by (simp add: rtmp_timestamp_def)
  ultimately show ?thesis using a(1) by (auto simp: created_server_def)
qed

end
