(* ===== verification/FrameManager.thy ===== *)
theory FrameManager
  imports StreamerPrelude
begin

text \<open>
  \<open>frame_manager.c\<close>: taking frames from the encoder, finding the parameter sets, handing
  frames to the registered consumers; with the stream part of the encoder layer for the T31
  (\<open>hal/imp/imp_t31.c\<close>), whose packs lie in a ring buffer. A consumer's callback is its address,
  and a delivery is recorded as the callback, its user data and the frame. \<open>size_t\<close> has 32 bits.
\<close>

section \<open>State\<close>

datatype frame_type =
  FRAME_TYPE_H264_IDR | FRAME_TYPE_H264_P | FRAME_TYPE_H265_IDR | FRAME_TYPE_H265_P | FRAME_TYPE_JPEG

record frame_info =
  frame_data :: bytes
  frame_channel :: nat
  frame_kind :: frame_type
  frame_time :: "nat \<times> nat"
  frame_sequence :: u32
  frame_keyframe :: bool

record stream_params =
  sps_data :: "bytes option"
  pps_data :: "bytes option"
  params_available :: bool

record frame_consumer =
  consumer_name :: "string option"
  callback :: "nat option"
  user_data :: nat
  channel_mask :: u32
  active :: bool

record frame_stats =
  total_frames :: u32
  frames_per_channel :: "u32 list"
  last_frame_time :: nat

text \<open>\<open>consumers\<close> holds the first \<open>consumer_count\<close> entries of the table.\<close>

record frame_manager =
  consumers :: "frame_consumer list"
  manager_running :: bool
  manager_initialized :: bool
  manager_stats :: frame_stats
  params :: "stream_params list"
  seq_counters :: "u32 list"
  buffer_caps :: "nat list"

definition MAX_FRAME_CONSUMERS :: nat where
  "MAX_FRAME_CONSUMERS = 8"

definition FS_CHN_NUM :: nat where
  "FS_CHN_NUM = 4"

definition empty_stats :: frame_stats where
  "empty_stats = \<lparr>total_frames = 0, frames_per_channel = replicate 4 0, last_frame_time = 0\<rparr>"

definition empty_params :: stream_params where
  "empty_params = \<lparr>sps_data = None, pps_data = None, params_available = False\<rparr>"

text \<open>The zeroed static structure.\<close>

definition initial_manager :: frame_manager where
  "initial_manager =
     \<lparr>consumers = [], manager_running = False, manager_initialized = False,
      manager_stats = empty_stats, params = replicate FS_CHN_NUM empty_params,
      seq_counters = replicate FS_CHN_NUM 0, buffer_caps = replicate FS_CHN_NUM 0\<rparr>"

section \<open>Life cycle\<close>

text \<open>\<open>m1\<close>, \<open>m2\<close>, \<open>m3\<close>: the three mutex initialisations succeed.\<close>

definition frame_manager_init ::
  "bool \<Rightarrow> bool \<Rightarrow> bool \<Rightarrow> frame_manager \<Rightarrow> c_int \<times> frame_manager" where
  "frame_manager_init m1 m2 m3 fm =
     (if manager_initialized fm then (0, fm)
      else if \<not> m1 then (-1, fm)
      else if \<not> m2 then (-1, fm)
      else if \<not> m3 then (-1, fm)
      else (0, fm\<lparr>manager_stats := empty_stats, manager_running := False, manager_initialized := True\<rparr>))"

definition frame_manager_start :: "bool \<Rightarrow> frame_manager \<Rightarrow> c_int \<times> frame_manager" where
  "frame_manager_start thread_ok fm =
     (if \<not> manager_initialized fm then (-1, fm)
      else if manager_running fm then (0, fm)
      else if \<not> thread_ok then (-1, fm\<lparr>manager_running := False\<rparr>)
      else (0, fm\<lparr>manager_running := True\<rparr>))"

definition frame_manager_stop :: "frame_manager \<Rightarrow> c_int \<times> frame_manager" where
  "frame_manager_stop fm =
     (if \<not> manager_running fm then (0, fm) else (0, fm\<lparr>manager_running := False\<rparr>))"

definition frame_manager_cleanup :: "frame_manager \<Rightarrow> c_int \<times> frame_manager" where
  "frame_manager_cleanup fm =
     (if \<not> manager_initialized fm then (0, fm)
      else (0, (snd (frame_manager_stop fm))\<lparr>manager_initialized := False\<rparr>))"

section \<open>Consumers\<close>

definition frame_manager_register_consumer ::
  "frame_manager \<Rightarrow> frame_consumer option \<Rightarrow> c_int \<times> frame_manager" where
  "frame_manager_register_consumer fm consumer =
     (case consumer of
        None \<Rightarrow> (-1, fm)
      | Some c \<Rightarrow>
          if callback c = None \<or> consumer_name c = None then (-1, fm)
          else if MAX_FRAME_CONSUMERS \<le> length (consumers fm) then (-1, fm)
          else (int (length (consumers fm)), fm\<lparr>consumers := consumers fm @ [c\<lparr>active := True\<rparr>]\<rparr>))"

definition frame_manager_set_consumer_enabled ::
  "frame_manager \<Rightarrow> c_int \<Rightarrow> bool \<Rightarrow> c_int \<times> frame_manager" where
  "frame_manager_set_consumer_enabled fm cid enabled =
     (if cid < 0 \<or> int (length (consumers fm)) \<le> cid then (-1, fm)
      else (0, fm\<lparr>consumers := (consumers fm)[nat cid := (consumers fm ! nat cid)\<lparr>active := enabled\<rparr>]\<rparr>))"

definition frame_manager_unregister_consumer :: "frame_manager \<Rightarrow> c_int \<Rightarrow> c_int \<times> frame_manager" where
  "frame_manager_unregister_consumer fm cid =
     (if cid < 0 \<or> int (length (consumers fm)) \<le> cid then (-1, fm)
      else (0, fm\<lparr>consumers := (consumers fm)[nat cid := (consumers fm ! nat cid)\<lparr>active := False\<rparr>]\<rparr>))"

definition wants_channel :: "nat \<Rightarrow> frame_consumer \<Rightarrow> bool" where
  "wants_channel ch c \<longleftrightarrow> active c \<and> channel_mask c AND push_bit ch 1 \<noteq> 0"

definition frame_manager_get_consumer_count :: "frame_manager \<Rightarrow> nat \<Rightarrow> nat" where
  "frame_manager_get_consumer_count fm ch = length (filter (wants_channel ch) (consumers fm))"

definition frame_manager_get_stats :: "frame_manager \<Rightarrow> bool \<Rightarrow> frame_stats option" where
  "frame_manager_get_stats fm null_stats = (if null_stats then None else Some (manager_stats fm))"

definition frame_manager_get_stream_params :: "frame_manager \<Rightarrow> c_int \<Rightarrow> stream_params" where
  "frame_manager_get_stream_params fm ch =
     (if ch < 0 \<or> int FS_CHN_NUM \<le> ch then empty_params else params fm ! nat ch)"

text \<open>\<open>idr\<close> is the result of \<open>IMP_Encoder_RequestIDR\<close>.\<close>

definition frame_manager_request_idr :: "(nat \<Rightarrow> c_int) \<Rightarrow> nat \<Rightarrow> c_int" where
  "frame_manager_request_idr idr ch = (if idr ch < 0 then -1 else 0)"

text \<open>A delivery: the callback, its user data, the frame.\<close>

type_synonym delivery = "nat \<times> nat \<times> frame_info"

fun deliver_to :: "frame_info \<Rightarrow> frame_consumer list \<Rightarrow> delivery list" where
  "deliver_to frame [] = []"
| "deliver_to frame (c # cs) =
     (if active c \<and> channel_mask c AND push_bit (frame_channel frame) 1 \<noteq> 0
      then (the (callback c), user_data c, frame) # deliver_to frame cs
      else deliver_to frame cs)"

definition distribute_frame_to_consumers :: "frame_manager \<Rightarrow> frame_info \<Rightarrow> delivery list" where
  "distribute_frame_to_consumers fm frame = deliver_to frame (consumers fm)"

section \<open>Looking into a frame\<close>

text \<open>The four byte start code at position \<open>i\<close>, and the three byte one.\<close>

definition start4 :: "bytes \<Rightarrow> nat \<Rightarrow> bool" where
  "start4 d i \<longleftrightarrow> d ! i = 0 \<and> d ! (i + 1) = 0 \<and> d ! (i + 2) = 0 \<and> d ! (i + 3) = 1"

definition start3 :: "bytes \<Rightarrow> nat \<Rightarrow> bool" where
  "start3 d i \<longleftrightarrow> d ! i = 0 \<and> d ! (i + 1) = 0 \<and> d ! (i + 2) = 1"

fun detect_loop :: "bytes \<Rightarrow> nat list \<Rightarrow> frame_type" where
  "detect_loop d [] = FRAME_TYPE_H264_P"
| "detect_loop d (i # is) =
     (if start4 d i then
        (let nal_type = d ! (i + 4) AND 0x1F in
         if nal_type = 5 then FRAME_TYPE_H264_IDR
         else if nal_type = 1 then FRAME_TYPE_H264_P
         else detect_loop d is)
      else detect_loop d is)"

definition detect_frame_type :: "bytes \<Rightarrow> frame_type" where
  "detect_frame_type d =
     (if length d < 5 then FRAME_TYPE_H264_P else detect_loop d [0..<length d - 4])"

definition is_keyframe :: "frame_type \<Rightarrow> bool" where
  "is_keyframe t \<longleftrightarrow> t = FRAME_TYPE_H264_IDR \<or> t = FRAME_TYPE_H265_IDR"

text \<open>The end of a NAL unit: the next start code before the last three bytes, or the end.\<close>

definition nal_end_from :: "bytes \<Rightarrow> nat \<Rightarrow> nat" where
  "nal_end_from d j =
     (case find (\<lambda>i. start4 d i \<or> start3 d i) [j..<length d - 3] of None \<Rightarrow> length d | Some i \<Rightarrow> i)"

lemma nal_end_from_ge: "j \<le> length d \<Longrightarrow> j \<le> nal_end_from d j"
  by (auto simp: nal_end_from_def find_Some_iff split: option.split)

lemma nal_end_from_le: "nal_end_from d j \<le> length d"
  by (auto simp: nal_end_from_def find_Some_iff split: option.split)

definition keep_nal :: "(nat \<Rightarrow> bool) \<Rightarrow> u8 \<Rightarrow> bytes \<Rightarrow> stream_params \<Rightarrow> stream_params" where
  "keep_nal mok nal_type nal p =
     (let p1 = (if nal_type = 7 \<and> sps_data p = None then
                  (if mok (length nal) then p\<lparr>sps_data := Some nal\<rparr> else p)
                else if nal_type = 8 \<and> pps_data p = None then
                  (if mok (length nal) then p\<lparr>pps_data := Some nal\<rparr> else p)
                else p)
      in if sps_data p1 \<noteq> None \<and> pps_data p1 \<noteq> None then p1\<lparr>params_available := True\<rparr> else p1)"

definition nal_start_at :: "bytes \<Rightarrow> nat \<Rightarrow> nat option" where
  "nal_start_at d off =
     (if start4 d off then Some (off + 4)
      else if off < length d - 3 \<and> start3 d off then Some (off + 3)
      else None)"

definition nal_type_at :: "bytes \<Rightarrow> nat \<Rightarrow> u8" where
  "nal_type_at d i = d ! i AND 0x1F"

definition is_param_nal :: "bytes \<Rightarrow> nat \<Rightarrow> bool" where
  "is_param_nal d s \<longleftrightarrow> s < length d \<and> (nal_type_at d s = 7 \<or> nal_type_at d s = 8)"

function params_loop :: "(nat \<Rightarrow> bool) \<Rightarrow> bytes \<Rightarrow> nat \<Rightarrow> stream_params \<Rightarrow> stream_params" where
  "params_loop mok d off p =
     (if off < length d - 4 then
        (case nal_start_at d off of
           None \<Rightarrow> params_loop mok d (off + 1) p
         | Some s \<Rightarrow>
             if is_param_nal d s
             then params_loop mok d (nal_end_from d (s + 1))
                    (keep_nal mok (nal_type_at d s) (take (nal_end_from d (s + 1) - s) (drop s d)) p)
             else params_loop mok d (off + 1) p)
      else p)"
  by pat_completeness auto
termination
proof (relation "measure (\<lambda>(mok, d, off, p). length d - off)", goal_cases)
  case (3 mok d off p s)
  then have "off < s" "s < length d"
    by (auto simp: nal_start_at_def is_param_nal_def split: if_splits)
  with 3 nal_end_from_ge [of "s + 1" d] show ?case by auto
qed auto

declare params_loop.simps [simp del]

lemma params_end: "\<not> off < length d - 4 \<Longrightarrow> params_loop mok d off p = p"
  by (simp add: params_loop.simps)

lemma params_pass:
  "(\<And>s. nal_start_at d off = Some s \<Longrightarrow> \<not> is_param_nal d s) \<Longrightarrow>
     params_loop mok d off p = params_loop mok d (off + 1) p"
  by (cases "off < length d - 4"; cases "nal_start_at d off")
    (simp_all add: params_loop.simps [of mok d off] params_end)

lemma params_take:
  "off < length d - 4 \<Longrightarrow> nal_start_at d off = Some s \<Longrightarrow> is_param_nal d s \<Longrightarrow>
     params_loop mok d off p = params_loop mok d (nal_end_from d (s + 1))
       (keep_nal mok (nal_type_at d s) (take (nal_end_from d (s + 1) - s) (drop s d)) p)"
  by (simp add: params_loop.simps [of mok d off])

text \<open>
  \<open>None\<close> is undefined behaviour: the loop bound \<open>size - 4\<close> wraps around for a frame of less than
  4 bytes, and the loop reads on behind the buffer.
\<close>

definition extract_stream_params ::
  "(nat \<Rightarrow> bool) \<Rightarrow> frame_manager \<Rightarrow> frame_info \<Rightarrow> frame_manager option" where
  "extract_stream_params mok fm frame =
     (if FS_CHN_NUM \<le> frame_channel frame then Some fm
      else if params_available (params fm ! frame_channel frame) then Some fm
      else if length (frame_data frame) < 4 then None
      else Some (fm\<lparr>params := (params fm)[frame_channel frame :=
             params_loop mok (frame_data frame) 0 (params fm ! frame_channel frame)]\<rparr>))"

section \<open>From the encoder\<close>

text \<open>
  A stream of the T31: the ring buffer and the packs in it (offset, length, timestamp in
  microseconds). \<open>None\<close> is a stream without native storage.
\<close>

record hal_stream =
  ring :: bytes
  packs :: "(nat \<times> nat \<times> nat) list"

definition hal_stream_pack_count :: "hal_stream \<Rightarrow> nat" where
  "hal_stream_pack_count s = length (packs s)"

definition hal_stream_pack_length :: "hal_stream \<Rightarrow> nat \<Rightarrow> nat" where
  "hal_stream_pack_length s i =
     (if length (packs s) \<le> i then 0 else fst (snd (packs s ! i)))"

definition hal_stream_pack_timestamp_us :: "hal_stream \<Rightarrow> nat \<Rightarrow> nat" where
  "hal_stream_pack_timestamp_us s i =
     (if length (packs s) \<le> i then 0 else snd (snd (packs s ! i)))"

text \<open>The bytes copied; their number is the result.\<close>

definition hal_stream_copy_pack :: "hal_stream \<Rightarrow> nat \<Rightarrow> bytes" where
  "hal_stream_copy_pack s i =
     (if length (packs s) \<le> i then []
      else (let (off, len, ts) = packs s ! i; rem = length (ring s) - off in
            if rem < len then take rem (drop off (ring s)) @ take (len - rem) (ring s)
            else take len (drop off (ring s))))"

text \<open>
  One frame. \<open>poll\<close> is the result of polling, \<open>get\<close> the stream or \<open>None\<close> for an error, \<open>now\<close>
  the time. The result code, the deliveries and the manager; \<open>None\<close> is undefined behaviour: when
  the sum of the pack lengths wraps around, the packs are copied behind the end of the buffer.
\<close>

definition process_frame_from_encoder ::
  "(nat \<Rightarrow> bool) \<Rightarrow> c_int \<Rightarrow> hal_stream option \<Rightarrow> nat \<Rightarrow> frame_manager \<Rightarrow> nat \<Rightarrow>
     (c_int \<times> delivery list \<times> frame_manager) option" where
  "process_frame_from_encoder mok poll get now fm ch =
     (if poll < 0 then Some (-1, [], fm)
      else case get of
        None \<Rightarrow> Some (-1, [], fm)
      | Some s \<Rightarrow>
          (let n = hal_stream_pack_count s;
               total = sum_list (map (hal_stream_pack_length s) [0..<n]);
               frame_size = total mod 2 ^ 32
           in if buffer_caps fm ! ch < frame_size \<and> \<not> mok frame_size then Some (-1, [], fm)
              else if total \<noteq> frame_size then None
              else
                (let fm1 = (if buffer_caps fm ! ch < frame_size
                            then fm\<lparr>buffer_caps := (buffer_caps fm)[ch := frame_size]\<rparr> else fm);
                     d = concat (map (hal_stream_copy_pack s) [0..<n]);
                     ts = (if 0 < n then hal_stream_pack_timestamp_us s 0 else 0);
                     sq = seq_counters fm1 ! ch + 1;
                     fm2 = fm1\<lparr>seq_counters := (seq_counters fm1)[ch := sq]\<rparr>;
                     kind = detect_frame_type d;
                     frame = \<lparr>frame_data = d, frame_channel = ch, frame_kind = kind,
                              frame_time = (ts div 1000000, ts mod 1000000), frame_sequence = sq,
                              frame_keyframe = is_keyframe kind\<rparr>
                 in case extract_stream_params mok fm2 frame of
                      None \<Rightarrow> None
                    | Some fm3 \<Rightarrow>
                        (let st = manager_stats fm3;
                             st1 = st\<lparr>total_frames := total_frames st + 1,
                                      frames_per_channel := (frames_per_channel st)
                                        [ch := frames_per_channel st ! ch + 1],
                                      last_frame_time := now\<rparr>
                         in Some (0, distribute_frame_to_consumers fm3 frame,
                                  fm3\<lparr>manager_stats := st1\<rparr>)))))"

text \<open>
  One pass of the processing thread over the four channels: \<open>poll\<close> and \<open>get\<close> give what each
  channel finds. The flag tells whether any frame was processed.
\<close>

fun channel_pass ::
  "(nat \<Rightarrow> bool) \<Rightarrow> (nat \<Rightarrow> c_int) \<Rightarrow> (nat \<Rightarrow> hal_stream option) \<Rightarrow> nat \<Rightarrow> nat list \<Rightarrow>
     bool \<times> delivery list \<times> frame_manager \<Rightarrow> (bool \<times> delivery list \<times> frame_manager) option" where
  "channel_pass mok poll get now [] st = Some st"
| "channel_pass mok poll get now (ch # chs) (done_any, out, fm) =
     (if 0 < frame_manager_get_consumer_count fm ch then
        (case process_frame_from_encoder mok (poll ch) (get ch) now fm ch of
           None \<Rightarrow> None
         | Some (r, ds, fm1) \<Rightarrow>
             channel_pass mok poll get now chs (done_any \<or> r = 0, out @ ds, fm1))
      else channel_pass mok poll get now chs (done_any, out, fm))"

definition frame_processing_pass ::
  "(nat \<Rightarrow> bool) \<Rightarrow> (nat \<Rightarrow> c_int) \<Rightarrow> (nat \<Rightarrow> hal_stream option) \<Rightarrow> nat \<Rightarrow> frame_manager \<Rightarrow>
     (bool \<times> delivery list \<times> frame_manager) option" where
  "frame_processing_pass mok poll get now fm =
     channel_pass mok poll get now [0, 1, 2, 3] (False, [], fm)"

section \<open>Frames of NAL units\<close>

text \<open>
  A NAL unit as an encoder writes it: not empty, no start code inside (emulation prevention),
  the last byte not 0 (the stop bit).
\<close>

fun no_start_code :: "bytes \<Rightarrow> bool" where
  "no_start_code (a # b # c # r) = (\<not> (a = 0 \<and> b = 0 \<and> (c = 0 \<or> c = 1)) \<and> no_start_code (b # c # r))"
| "no_start_code r = True"

definition nal_unit :: "bytes \<Rightarrow> bool" where
  "nal_unit n \<longleftrightarrow> n \<noteq> [] \<and> last n \<noteq> 0 \<and> no_start_code n"

fun annex_b :: "bytes list \<Rightarrow> bytes" where
  "annex_b [] = []"
| "annex_b (n # ns) = [0, 0, 0, 1] @ n @ annex_b ns"

lemma no_start_code_at:
  "no_start_code n \<Longrightarrow> i + 2 < length n \<Longrightarrow> n ! i = 0 \<Longrightarrow> n ! (i + 1) = 0 \<Longrightarrow>
     n ! (i + 2) \<noteq> 0 \<and> n ! (i + 2) \<noteq> 1"
proof (induction n arbitrary: i rule: no_start_code.induct)
  case (1 a b c r)
  then show ?case by (cases i) auto
qed auto

lemma inside_no_code:
  assumes "nal_unit n" and "i < length n"
  shows "\<not> start4 (pre @ n @ rest) (length pre + i)" "\<not> start3 (pre @ n @ rest) (length pre + i)"
proof -
  let ?d = "pre @ n @ rest"
  have nth: "?d ! (length pre + j) = n ! j" if "j < length n" for j using that by (simp add: nth_append)
  from assms(1) have ne: "n \<noteq> []" and l: "n ! (length n - 1) \<noteq> 0"
    by (auto simp: nal_unit_def last_conv_nth)
  have code: "\<not> (?d ! (length pre + i) = 0 \<and> ?d ! (length pre + i + 1) = 0 \<and>
      (?d ! (length pre + i + 2) = 0 \<or> ?d ! (length pre + i + 2) = 1))"
  proof (cases "i + 2 < length n")
    case True
    with no_start_code_at [of n i] assms(1) nth [of i] nth [of "i + 1"] nth [of "i + 2"]
    show ?thesis by (auto simp: nal_unit_def add.assoc)
  next
    case False
    with assms(2) consider "i = length n - 1" | "i + 1 = length n - 1" "i + 1 < length n" by fastforce
    then show ?thesis using l nth [OF assms(2)] nth [of "i + 1"] by cases (auto simp: add.assoc)
  qed
  then show "\<not> start4 ?d (length pre + i)" "\<not> start3 ?d (length pre + i)"
    by (auto simp: start4_def start3_def)
qed

lemma find_first:
  "j \<le> k \<Longrightarrow> k < m \<Longrightarrow> P k \<Longrightarrow> \<forall>i. j \<le> i \<longrightarrow> i < k \<longrightarrow> \<not> P i \<Longrightarrow> find P [j..<m] = Some k"
proof (induction "k - j" arbitrary: j)
  case 0
  then show ?case by (simp add: upt_conv_Cons)
next
  case (Suc n)
  then have "find P [Suc j..<m] = Some k" by (intro Suc.hyps(1)) auto
  with Suc show ?case by (simp add: upt_conv_Cons)
qed

lemma nal_end_unit:
  assumes "nal_unit n"
  shows "nal_end_from (pre @ n @ annex_b ns) (length pre + 1) = length pre + length n"
proof -
  let ?d = "pre @ n @ annex_b ns"
  let ?P = "\<lambda>i. start4 ?d i \<or> start3 ?d i"
  have no: "\<not> ?P i" if "length pre + 1 \<le> i" "i < length pre + length n" for i
    using inside_no_code [OF assms, of "i - length pre" pre "annex_b ns"] that by auto
  have ne: "n \<noteq> []" using assms by (simp add: nal_unit_def)
  show ?thesis
  proof (cases ns)
    case Nil
    then have "find ?P [length pre + 1..<length ?d - 3] = None"
      using no by (auto simp: find_None_iff)
    with Nil show ?thesis by (simp add: nal_end_from_def)
  next
    case (Cons n' ns')
    have "?P (length pre + length n)" by (simp add: Cons start4_def nth_append)
    with no ne Cons have "find ?P [length pre + 1..<length ?d - 3] = Some (length pre + length n)"
      by (intro find_first) (auto simp: Suc_le_eq)
    then show ?thesis by (simp add: nal_end_from_def)
  qed
qed

lemma params_skip:
  "\<not> start4 d off \<Longrightarrow> \<not> start3 d off \<Longrightarrow> params_loop mok d off p = params_loop mok d (off + 1) p"
  by (rule params_pass) (simp add: nal_start_at_def)

lemma params_skip_inside:
  assumes "nal_unit n" and "i \<le> length n"
  shows "params_loop mok (pre @ n @ rest) (length pre + i) p =
    params_loop mok (pre @ n @ rest) (length pre + length n) p"
  using assms(2)
proof (induction "length n - i" arbitrary: i)
  case 0
  then show ?case by simp
next
  case (Suc k)
  then have "i < length n" by simp
  with params_skip [OF inside_no_code [OF assms(1) this, of pre rest], of mok p]
    Suc.hyps(1) [of "Suc i"] Suc.hyps(2) show ?case
    by simp
qed

definition take_nal :: "(nat \<Rightarrow> bool) \<Rightarrow> stream_params \<Rightarrow> bytes \<Rightarrow> stream_params" where
  "take_nal mok p n =
     (let t = hd n AND 0x1F in if t = 7 \<or> t = 8 then keep_nal mok t n p else p)"

lemma params_loop_annex_b:
  "list_all nal_unit ns \<Longrightarrow>
     params_loop mok (pre @ annex_b ns) (length pre) p = foldl (take_nal mok) p ns"
proof (induction ns arbitrary: pre p)
  case Nil
  then show ?case by (simp add: params_loop.simps)
next
  case (Cons n ns)
  let ?rest = "annex_b ns"
  let ?s = "pre @ [0, 0, 0, 1]"
  let ?d = "?s @ n @ ?rest"
  from Cons.prems have n: "nal_unit n" and ne: "n \<noteq> []" by (simp_all add: nal_unit_def)
  then obtain b n' where b: "n = b # n'" by (cases n) auto
  have in4: "length pre < length ?d - 4" using b by simp
  have s4: "start4 ?d (length pre)" by (simp add: start4_def nth_append)
  have hd: "?d ! (length pre + 4) = hd n" using ne by (simp add: nth_append hd_conv_nth)
  have ih: "params_loop mok ?d (length pre + 4 + length n) q = foldl (take_nal mok) q ns" for q
    using Cons.IH [of "?s @ n" q] Cons.prems by (simp add: numeral_eq_Suc)
  have tk: "take_nal mok p n =
      (if hd n AND 0x1F = 7 \<or> hd n AND 0x1F = 8 then keep_nal mok (hd n AND 0x1F) n p else p)"
    by (simp add: take_nal_def Let_def)
  have ty: "nal_type_at ?d (length pre + 4) = hd n AND 0x1F" using hd by (simp add: nal_type_at_def)
  have in_d: "length pre + 4 < length ?d" using b by simp
  have at0: "nal_start_at ?d (length pre) = Some (length pre + 4)" using s4 by (simp add: nal_start_at_def)
  show ?case
  proof (cases "hd n AND 0x1F = 7 \<or> hd n AND 0x1F = 8")
    case True
    have "nal_end_from ?d (length pre + 4 + 1) = length pre + 4 + length n"
      using nal_end_unit [OF n, of ?s ns] by (simp add: numeral_eq_Suc)
    moreover have "take (length n) (drop (length pre + 4) ?d) = n" by simp
    moreover have "is_param_nal ?d (length pre + 4)" using True ty in_d by (simp add: is_param_nal_def)
    ultimately have "params_loop mok ?d (length pre) p =
        params_loop mok ?d (length pre + 4 + length n) (keep_nal mok (hd n AND 0x1F) n p)"
      using params_take [OF in4 at0, of mok p] ty by simp
    with ih tk True show ?thesis by simp
  next
    case False
    then have np: "\<not> is_param_nal ?d (length pre + 4)" using ty by (simp add: is_param_nal_def)
    have "params_loop mok ?d (length pre) p = params_loop mok ?d (length pre + 1) p"
      using at0 np by (intro params_pass) simp
    also have "\<dots> = params_loop mok ?d (length pre + 2) p"
    proof -
      have "\<not> start4 ?d (length pre + 1)" by (simp add: start4_def nth_append)
      then have "\<not> is_param_nal ?d s" if "nal_start_at ?d (length pre + 1) = Some s" for s
        using that np by (auto simp: nal_start_at_def numeral_eq_Suc split: if_splits)
      then show ?thesis using params_pass [of ?d "length pre + 1" mok p] by (simp add: numeral_eq_Suc)
    qed
    also have "\<dots> = params_loop mok ?d (length pre + 3) p"
      using params_skip [of ?d "length pre + 2" mok p]
      by (simp add: start4_def start3_def nth_append numeral_eq_Suc)
    also have "\<dots> = params_loop mok ?d (length pre + 4) p"
      using params_skip [of ?d "length pre + 3" mok p]
      by (simp add: start4_def start3_def nth_append numeral_eq_Suc)
    also have "\<dots> = params_loop mok ?d (length pre + 4 + length n) p"
      using params_skip_inside [OF n, of 0 mok ?s ?rest p] by (simp add: numeral_eq_Suc)
    finally show ?thesis using ih tk False by simp
  qed
qed

section \<open>Operations in any order\<close>

text \<open>
  What holds of the manager at all times: the table's capacity, the size of the arrays, the
  parameter sets of each channel (of the right NAL type, available exactly if both are there),
  and the totals.
\<close>

definition params_ok :: "stream_params \<Rightarrow> bool" where
  "params_ok p \<longleftrightarrow>
     (case sps_data p of None \<Rightarrow> True | Some b \<Rightarrow> b \<noteq> [] \<and> hd b AND 0x1F = 7) \<and>
     (case pps_data p of None \<Rightarrow> True | Some b \<Rightarrow> b \<noteq> [] \<and> hd b AND 0x1F = 8) \<and>
     (params_available p \<longleftrightarrow> sps_data p \<noteq> None \<and> pps_data p \<noteq> None)"

definition manager_inv :: "frame_manager \<Rightarrow> bool" where
  "manager_inv fm \<longleftrightarrow>
     length (consumers fm) \<le> MAX_FRAME_CONSUMERS \<and>
     list_all (\<lambda>c. callback c \<noteq> None \<and> consumer_name c \<noteq> None) (consumers fm) \<and>
     length (params fm) = FS_CHN_NUM \<and> list_all params_ok (params fm) \<and>
     length (seq_counters fm) = FS_CHN_NUM \<and> length (buffer_caps fm) = FS_CHN_NUM \<and>
     length (frames_per_channel (manager_stats fm)) = 4 \<and>
     total_frames (manager_stats fm) = sum_list (frames_per_channel (manager_stats fm))"

lemma keep_nal_ok:
  assumes "params_ok p" and "nal \<noteq> []" and "t = hd nal AND 0x1F"
  shows "params_ok (keep_nal mok t nal p)"
  using assms by (auto simp: keep_nal_def params_ok_def Let_def split: option.splits)

lemma params_loop_ok: "params_ok p \<Longrightarrow> params_ok (params_loop mok d off p)"
proof (induction mok d off p rule: params_loop.induct)
  case (1 mok d off p)
  show ?case
  proof (cases "off < length d - 4")
    case in_d: True
    show ?thesis
    proof (cases "nal_start_at d off")
      case None
      with 1 in_d show ?thesis by (simp add: params_loop.simps [of mok d off])
    next
      case (Some s)
      show ?thesis
      proof (cases "is_param_nal d s")
        case False
        with 1 in_d Some show ?thesis by (simp add: params_loop.simps [of mok d off])
      next
        case True
        let ?nal = "take (nal_end_from d (s + 1) - s) (drop s d)"
        from True have "s < length d" by (simp add: is_param_nal_def)
        moreover from this have "s + 1 \<le> nal_end_from d (s + 1)" by (intro nal_end_from_ge) simp
        ultimately have "?nal \<noteq> []" "hd ?nal = d ! s" by (auto simp: hd_drop_conv_nth)
        then have "params_ok (keep_nal mok (nal_type_at d s) ?nal p)"
          using "1.prems" by (intro keep_nal_ok) (simp_all add: nal_type_at_def)
        from "1.IH"(2) [OF in_d Some True this] show ?thesis
          by (simp only: params_take [OF in_d Some True])
      qed
    qed
  qed (use "1.prems" in \<open>simp add: params_end\<close>)
qed

lemma extract_inv:
  assumes "manager_inv fm" and "extract_stream_params mok fm frame = Some fm'"
  shows "manager_inv fm' \<and> consumers fm' = consumers fm \<and> manager_stats fm' = manager_stats fm"
proof (cases "fm' = fm")
  case False
  let ?ch = "frame_channel frame"
  from assms(2) False have ch: "?ch < FS_CHN_NUM" and
    fm': "fm' = fm\<lparr>params := (params fm)[?ch := params_loop mok (frame_data frame) 0 (params fm ! ?ch)]\<rparr>"
    by (auto simp: extract_stream_params_def split: if_splits)
  from assms(1) ch have "params_ok (params fm ! ?ch)"
    by (auto simp: manager_inv_def list_all_length)
  then have "params_ok (params_loop mok (frame_data frame) 0 (params fm ! ?ch))" by (rule params_loop_ok)
  with assms(1) ch fm' show ?thesis
    by (auto simp: manager_inv_def list_all_iff dest!: set_update_subset_insert [THEN subsetD])
qed (use assms in simp)

lemma sum_list_increment:
  "i < length xs \<Longrightarrow> sum_list (xs[i := xs ! i + 1]) = sum_list xs + (1 :: u32)"
proof (induction xs arbitrary: i)
  case (Cons x xs)
  then show ?case by (cases i) (simp_all add: ac_simps)
qed simp

lemma process_frame_inv:
  assumes "manager_inv fm" and "ch < FS_CHN_NUM"
    and "process_frame_from_encoder mok poll get now fm ch = Some (r, ds, fm')"
  shows "manager_inv fm'"
proof -
  have bookkeeping: "manager_inv (fm\<lparr>seq_counters := (seq_counters fm)[ch := q]\<rparr>)"
    "manager_inv (fm\<lparr>buffer_caps := (buffer_caps fm)[ch := n], seq_counters := (seq_counters fm)[ch := q]\<rparr>)"
    for q n
    using assms(1) by (simp_all add: manager_inv_def)
  have stats: "manager_inv (f\<lparr>manager_stats := st\<lparr>total_frames := total_frames st + 1,
      frames_per_channel := (frames_per_channel st)[ch := frames_per_channel st ! ch + 1],
      last_frame_time := now\<rparr>\<rparr>)" if "manager_inv f" "st = manager_stats f" for f st
    using that assms(2) by (simp add: manager_inv_def FS_CHN_NUM_def sum_list_increment)
  from assms(3) show ?thesis
    using assms(1)
    by (auto simp: process_frame_from_encoder_def Let_def split: if_splits option.splits
        intro!: stats dest: extract_inv [OF bookkeeping(1)] extract_inv [OF bookkeeping(2)])
qed

datatype manager_event =
  FmInit bool bool bool | FmStart bool | FmStop | FmCleanup
| FmRegister "frame_consumer option" | FmEnable c_int bool | FmUnregister c_int
| FmFrame "nat \<Rightarrow> bool" c_int "hal_stream option" nat nat

text \<open>A frame on a channel that exists, as the processing thread asks for them.\<close>

definition manager_step :: "frame_manager \<Rightarrow> manager_event \<Rightarrow> frame_manager" where
  "manager_step fm e =
     (case e of
        FmInit a b c \<Rightarrow> snd (frame_manager_init a b c fm)
      | FmStart ok \<Rightarrow> snd (frame_manager_start ok fm)
      | FmStop \<Rightarrow> snd (frame_manager_stop fm)
      | FmCleanup \<Rightarrow> snd (frame_manager_cleanup fm)
      | FmRegister c \<Rightarrow> snd (frame_manager_register_consumer fm c)
      | FmEnable i b \<Rightarrow> snd (frame_manager_set_consumer_enabled fm i b)
      | FmUnregister i \<Rightarrow> snd (frame_manager_unregister_consumer fm i)
      | FmFrame mok poll get now ch \<Rightarrow>
          (case process_frame_from_encoder mok poll get now fm (ch mod FS_CHN_NUM) of
             None \<Rightarrow> fm | Some (r, ds, fm') \<Rightarrow> fm'))"

lemma update_active_inv:
  "manager_inv fm \<Longrightarrow> i < length (consumers fm) \<Longrightarrow>
     manager_inv (fm\<lparr>consumers := (consumers fm)[i := (consumers fm ! i)\<lparr>active := b\<rparr>]\<rparr>)"
  by (auto simp: manager_inv_def list_all_length nth_list_update)

interpretation manager_life:
  event_machine "\<lambda>fm. fm = initial_manager" manager_step manager_inv
proof
  fix fm e assume inv: "manager_inv fm"
  show "manager_inv (manager_step fm e)"
  proof (cases e)
    case (FmFrame mok poll get now ch)
    have "ch mod FS_CHN_NUM < FS_CHN_NUM" by (simp add: FS_CHN_NUM_def)
    from process_frame_inv [OF inv this] FmFrame inv show ?thesis
      by (auto simp: manager_step_def split: option.split)
  next
    case (FmRegister c)
    with inv show ?thesis
      by (auto simp: manager_step_def frame_manager_register_consumer_def manager_inv_def
          split: option.split)
  next
    case (FmEnable i b)
    with update_active_inv [OF inv, of "nat i" b] inv show ?thesis
      by (auto simp: manager_step_def frame_manager_set_consumer_enabled_def nat_less_iff)
  next
    case (FmUnregister i)
    with update_active_inv [OF inv, of "nat i" False] inv show ?thesis
      by (auto simp: manager_step_def frame_manager_unregister_consumer_def nat_less_iff)
  next
    case (FmInit a b c)
    with inv show ?thesis
      by (simp add: manager_step_def frame_manager_init_def manager_inv_def empty_stats_def
          numeral_eq_Suc)
  qed (use inv in \<open>simp_all add: manager_step_def frame_manager_start_def frame_manager_stop_def
        frame_manager_cleanup_def manager_inv_def\<close>)
next
  fix fm assume "fm = initial_manager"
  then show "manager_inv fm"
    by (simp add: initial_manager_def manager_inv_def empty_stats_def params_ok_def empty_params_def
        FS_CHN_NUM_def list_all_iff numeral_eq_Suc)
qed

text \<open>
  The table of consumers only grows, and the entry behind an identifier stays the same consumer:
  only its flag changes.
\<close>

definition same_consumer :: "frame_consumer \<Rightarrow> frame_consumer \<Rightarrow> bool" where
  "same_consumer a b \<longleftrightarrow> b = a\<lparr>active := active b\<rparr>"

lemma same_consumer_update [simp]: "same_consumer c (c\<lparr>active := b\<rparr>)" "same_consumer c c"
  by (simp_all add: same_consumer_def)

lemma same_consumer_trans: "same_consumer a b \<Longrightarrow> same_consumer b c \<Longrightarrow> same_consumer a c"
  by (cases a; cases b; cases c) (simp add: same_consumer_def)

definition table_extends :: "frame_consumer list \<Rightarrow> frame_consumer list \<Rightarrow> bool" where
  "table_extends xs ys \<longleftrightarrow> list_all2 same_consumer xs (take (length xs) ys)"

lemma table_extends_refl [simp]: "table_extends xs xs" "table_extends xs (xs @ ys)"
  by (simp_all add: table_extends_def list_all2_refl)

lemma table_extends_update [simp]: "table_extends xs (xs[i := (xs ! i)\<lparr>active := b\<rparr>])"
  unfolding table_extends_def list_all2_conv_all_nth
proof (intro conjI allI impI)
  fix j assume "j < length xs"
  then show "same_consumer (xs ! j) (take (length xs) (xs[i := (xs ! i)\<lparr>active := b\<rparr>]) ! j)"
    by (cases "i = j") simp_all
qed simp

lemma table_extends_trans: "table_extends xs ys \<Longrightarrow> table_extends ys zs \<Longrightarrow> table_extends xs zs"
  unfolding table_extends_def list_all2_conv_all_nth
  by (auto intro: same_consumer_trans)

lemma process_frame_consumers:
  "process_frame_from_encoder mok poll get now fm ch = Some (r, ds, fm') \<Longrightarrow> consumers fm' = consumers fm"
  by (auto simp: process_frame_from_encoder_def extract_stream_params_def Let_def
      split: if_splits option.splits)

lemma manager_step_extends: "table_extends (consumers fm) (consumers (manager_step fm e))"
  by (cases e)
    (auto simp: manager_step_def frame_manager_init_def frame_manager_start_def frame_manager_stop_def
      frame_manager_cleanup_def frame_manager_register_consumer_def
      frame_manager_set_consumer_enabled_def frame_manager_unregister_consumer_def
      process_frame_consumers split: option.split)

section \<open>Properties\<close>

text \<open>
  After any sequence of life cycle calls, registrations and frames, whatever the encoder
  delivers and whatever allocations fail: at most 8 consumers, all with a callback; kept
  parameter sets begin with a NAL header of type 7 or 8 and are available exactly if both are
  there; the total of frames is the sum over the channels.
\<close>

theorem frame_manager_invariant:
  assumes "fm = foldl manager_step initial_manager es"
  shows "length (consumers fm) \<le> 8 \<and> list_all (\<lambda>c. callback c \<noteq> None) (consumers fm) \<and>
    list_all params_ok (params fm) \<and>
    total_frames (manager_stats fm) = sum_list (frames_per_channel (manager_stats fm))"
proof -
  have "manager_inv fm" unfolding assms by (rule manager_life.inv_reached) simp
  then show ?thesis by (auto simp: manager_inv_def MAX_FRAME_CONSUMERS_def list_all_iff)
qed

definition sample_consumer :: frame_consumer where
  "sample_consumer =
     \<lparr>consumer_name = Some ''rtsp'', callback = Some 77, user_data = 5, channel_mask = 3, active = False\<rparr>"

definition sample_stream :: hal_stream where
  "sample_stream = \<lparr>ring = [3, 0, 0, 0, 1, 0x65, 9, 0, 0, 0, 1, 0x67, 7, 0, 0, 0, 1, 0x68],
     packs = [(7, 12, 2000003), (1, 6, 0)]\<rparr>"

theorem frame_manager_invariant_witness:
  "list_all params_ok (params (foldl manager_step initial_manager
     [FmInit True True True, FmRegister (Some sample_consumer), FmFrame (\<lambda>n. True) 0 (Some sample_stream) 99 1]))"
  using frame_manager_invariant [OF refl, of "[FmInit True True True, FmRegister (Some sample_consumer),
    FmFrame (\<lambda>n. True) 0 (Some sample_stream) 99 1]"]
  by blast

text \<open>
  An identifier returned by a registration stands for the same consumer for ever; a slot is
  never given to another one, so that after 8 registrations every further one fails, also when
  all consumers have been unregistered.
\<close>

theorem consumer_slots_never_reused:
  assumes "i < length (consumers fm)"
  shows "same_consumer (consumers fm ! i) (consumers (foldl manager_step fm es) ! i) \<and>
    (length (consumers fm) = 8 \<longrightarrow>
       fst (frame_manager_register_consumer (foldl manager_step fm es) c) = -1)"
proof -
  have ext: "table_extends (consumers fm) (consumers (foldl manager_step fm es))"
  proof (induction es arbitrary: fm)
    case (Cons e es)
    then show ?case using table_extends_trans manager_step_extends by fastforce
  qed simp
  then have "length (consumers fm) \<le> length (consumers (foldl manager_step fm es))"
    by (auto simp: table_extends_def dest: list_all2_lengthD)
  with ext assms show ?thesis
    by (auto simp: table_extends_def list_all2_conv_all_nth frame_manager_register_consumer_def
        MAX_FRAME_CONSUMERS_def split: option.split)
qed

theorem consumer_slots_never_reused_witness:
  "fst (frame_manager_register_consumer
     (foldl manager_step (initial_manager\<lparr>consumers := replicate 8 sample_consumer\<rparr>)
        (map (FmUnregister \<circ> int) [0..<8])) (Some sample_consumer)) = -1"
  using consumer_slots_never_reused [of 0 "initial_manager\<lparr>consumers := replicate 8 sample_consumer\<rparr>"
      "map (FmUnregister \<circ> int) [0..<8]" "Some sample_consumer"]
  by simp

lemma take_nal_sps:
  "sps_data (foldl (take_nal (\<lambda>n. True)) p ns) =
     (case sps_data p of Some b \<Rightarrow> Some b | None \<Rightarrow> find (\<lambda>n. hd n AND 0x1F = 7) ns)"
  by (induction ns arbitrary: p) (auto simp: take_nal_def keep_nal_def Let_def split: option.splits)

lemma take_nal_pps:
  "pps_data (foldl (take_nal (\<lambda>n. True)) p ns) =
     (case pps_data p of Some b \<Rightarrow> Some b | None \<Rightarrow> find (\<lambda>n. hd n AND 0x1F = 8) ns)"
  by (induction ns arbitrary: p) (auto simp: take_nal_def keep_nal_def Let_def split: option.splits)

text \<open>
  From a frame made of NAL units behind four byte start codes, as an encoder writes them, on
  a channel without parameter sets, exactly the first unit of type 7 and the first of type 8 are
  kept, byte for byte, if memory for them is found.
\<close>

theorem stream_params_of_nal_units:
  assumes "frame_data frame = annex_b ns" and "ns \<noteq> []" and "list_all nal_unit ns"
    and "frame_channel frame < 4" and "length (params fm) = 4"
    and "params fm ! frame_channel frame = empty_params"
    and "extract_stream_params (\<lambda>n. True) fm frame = Some fm'"
  shows "sps_data (frame_manager_get_stream_params fm' (int (frame_channel frame))) =
      find (\<lambda>n. hd n AND 0x1F = 7) ns \<and>
    pps_data (frame_manager_get_stream_params fm' (int (frame_channel frame))) =
      find (\<lambda>n. hd n AND 0x1F = 8) ns"
proof -
  have "4 \<le> length (annex_b ns)" using assms(2) by (cases ns) simp_all
  with assms have "params fm' ! frame_channel frame = foldl (take_nal (\<lambda>n. True)) empty_params ns"
    using params_loop_annex_b [OF assms(3), of "\<lambda>n. True" "[]" empty_params]
    by (auto simp: extract_stream_params_def FS_CHN_NUM_def empty_params_def)
  with assms(4) take_nal_sps [of empty_params ns] take_nal_pps [of empty_params ns] show ?thesis
    by (simp add: frame_manager_get_stream_params_def FS_CHN_NUM_def empty_params_def)
qed

definition sample_frame :: frame_info where
  "sample_frame = \<lparr>frame_data = annex_b [[0x67, 1, 0, 0, 3, 1], [0x68, 5], [0x65, 8, 8, 8]],
     frame_channel = 1, frame_kind = FRAME_TYPE_H264_IDR, frame_time = (0, 0), frame_sequence = 1,
     frame_keyframe = True\<rparr>"

theorem stream_params_of_nal_units_witness:
  "map_option (\<lambda>fm. (sps_data (frame_manager_get_stream_params fm 1),
        pps_data (frame_manager_get_stream_params fm 1)))
      (extract_stream_params (\<lambda>n. True) initial_manager sample_frame) =
    Some (Some [0x67, 1, 0, 0, 3, 1], Some [0x68, 5])"
proof -
  obtain fm' where fm': "extract_stream_params (\<lambda>n. True) initial_manager sample_frame = Some fm'"
    by (cases "extract_stream_params (\<lambda>n. True) initial_manager sample_frame")
      (auto simp: extract_stream_params_def sample_frame_def split: if_splits)
  have p: "params initial_manager ! 1 = empty_params" "length (params initial_manager) = 4"
    by (simp_all add: initial_manager_def FS_CHN_NUM_def)
  have d: "frame_data sample_frame = annex_b [[0x67, 1, 0, 0, 3, 1], [0x68, 5], [0x65, 8, 8, 8]]"
    and c: "frame_channel sample_frame = 1"
    by (simp_all add: sample_frame_def)
  have "list_all nal_unit [[0x67, 1, 0, 0, 3, 1], [0x68, 5], [0x65, 8, 8, 8]]"
    by (simp add: nal_unit_def)
  from stream_params_of_nal_units [OF d _ this _ p(2) _ fm'] p c show ?thesis
    by (simp add: fm')
qed

text \<open>
  A frame counts as a key frame exactly if the first NAL unit of type 1 or 5 behind a four
  byte start code has type 5; parameter sets before it are passed over.
\<close>

theorem keyframe_by_first_slice:
  "is_keyframe (detect_frame_type d) =
     (case find (\<lambda>i. start4 d i \<and> (nal_type_at d (i + 4) = 1 \<or> nal_type_at d (i + 4) = 5)) [0..<length d - 4] of
        None \<Rightarrow> False
      | Some i \<Rightarrow> nal_type_at d (i + 4) = 5)"
proof -
  have "is_keyframe (detect_loop d js) =
     (case find (\<lambda>i. start4 d i \<and> (nal_type_at d (i + 4) = 1 \<or> nal_type_at d (i + 4) = 5)) js of
        None \<Rightarrow> False | Some i \<Rightarrow> nal_type_at d (i + 4) = 5)" for js
    by (induction js) (auto simp: is_keyframe_def nal_type_at_def Let_def)
  then show ?thesis by (cases "length d < 5") (simp_all add: detect_frame_type_def is_keyframe_def)
qed

text \<open>Behind a three byte start code the same IDR slice does not make a key frame.\<close>

lemma keyframe_three_byte_code:
  "detect_frame_type [0, 0, 1, 0x65, 0x88, 0x84] = FRAME_TYPE_H264_P"
  "detect_frame_type [0, 0, 0, 1, 0x65, 0x88, 0x84] = FRAME_TYPE_H264_IDR"
  by (simp_all add: detect_frame_type_def start4_def upt_rec)

text \<open>
  Copying a pack out of the encoder's ring buffer yields the bytes of the pack, around the
  end of the ring, and as many as the pack is long, for any pack no longer than the ring.
\<close>

theorem ring_copy:
  assumes "i < length (packs s)" and "packs s ! i = (off, len, ts)"
    and "off \<le> length (ring s)" and "len \<le> length (ring s)"
  shows "hal_stream_copy_pack s i = map (\<lambda>k. ring s ! ((off + k) mod length (ring s))) [0..<len] \<and>
    length (hal_stream_copy_pack s i) = hal_stream_pack_length s i"
proof -
  let ?n = "length (ring s)"
  have len: "length (hal_stream_copy_pack s i) = len"
    using assms by (auto simp: hal_stream_copy_pack_def Let_def)
  have "hal_stream_copy_pack s i ! k = ring s ! ((off + k) mod ?n)" if k: "k < len" for k
  proof (cases "off + k < ?n")
    case True
    with assms k show ?thesis by (auto simp: hal_stream_copy_pack_def Let_def nth_append)
  next
    case False
    then have "(off + k) mod ?n = off + k - ?n" using assms(3,4) k by (simp add: mod_if)
    with False assms k show ?thesis
      by (auto simp: hal_stream_copy_pack_def Let_def nth_append ac_simps)
  qed
  with len assms(1,2) show ?thesis
    by (auto simp: list_eq_iff_nth_eq hal_stream_pack_length_def)
qed

theorem ring_copy_witness:
  "hal_stream_copy_pack sample_stream 0 = [0, 0, 0, 1, 0x67, 7, 0, 0, 0, 1, 0x68, 3]"
  using ring_copy [of 0 sample_stream 7 12 2000003]
  by (simp add: sample_stream_def upt_rec)

end
