(* ===== verification/CStrings.thy ===== *)
theory CStrings
  imports StreamerPrelude
begin

text \<open>
  The C string functions the program uses, on strings without their NUL: \<open>strncmp\<close> against a
  literal, \<open>strchr\<close>, \<open>strstr\<close>, copies into fixed buffers, \<open>snprintf\<close> with its truncation,
  decimal numbers.
\<close>

section \<open>Searching\<close>

text \<open>\<open>strncmp(s, p, strlen(p)) == 0\<close>\<close>

definition starts_with :: "string \<Rightarrow> string \<Rightarrow> bool" where
  "starts_with p s \<longleftrightarrow> take (length p) s = p"

text \<open>The position \<open>strchr\<close> finds.\<close>

definition strchr :: "string \<Rightarrow> char \<Rightarrow> nat option" where
  "strchr s c = (if c \<in> set s then Some (length (takeWhile (\<lambda>x. x \<noteq> c) s)) else None)"

text \<open>The position \<open>strstr\<close> finds: the first at which the pattern stands.\<close>

fun strstr :: "string \<Rightarrow> string \<Rightarrow> nat option" where
  "strstr [] p = (if p = [] then Some 0 else None)"
| "strstr (c # s) p = (if starts_with p (c # s) then Some 0 else map_option Suc (strstr s p))"

lemma starts_with_append [simp]: "starts_with p (p @ s)"
  by (simp add: starts_with_def)

lemma strchr_skip: "c \<notin> set pre \<Longrightarrow> strchr (pre @ s) c = map_option ((+) (length pre)) (strchr s c)"
  by (induction pre) (auto simp: strchr_def)

lemma strchr_append: "c \<notin> set pre \<Longrightarrow> strchr (pre @ c # s) c = Some (length pre)"
  by (simp add: strchr_skip) (simp add: strchr_def)

lemma strchr_None_iff [simp]: "strchr s c = None \<longleftrightarrow> c \<notin> set s"
  by (simp add: strchr_def)

lemma strchr_bound: "strchr s c = Some n \<Longrightarrow> n < length s \<and> s ! n = c \<and> c \<notin> set (take n s)"
proof (induction s arbitrary: n)
  case (Cons x s)
  then show ?case by (cases n) (auto simp: strchr_def split: if_splits)
qed (simp add: strchr_def)

lemma starts_with_Cons: "starts_with (a # p) (c # s) \<longleftrightarrow> a = c \<and> starts_with p s" "starts_with [] s"
  by (auto simp: starts_with_def)

lemma strstr_over: "p = a # q \<Longrightarrow> a \<notin> set u \<Longrightarrow> strstr (u @ s) p = map_option ((+) (length u)) (strstr s p)"
  by (induction u; cases "strstr s p") (auto simp: starts_with_Cons)

lemma strstr_bound: "strstr s p = Some n \<Longrightarrow> n \<le> length s \<and> starts_with p (drop n s)"
  by (induction s p arbitrary: n rule: strstr.induct) (auto simp: starts_with_def split: if_splits)

lemma strstr_first: "strstr s p = Some n \<Longrightarrow> m < n \<Longrightarrow> \<not> starts_with p (drop m s)"
proof (induction s p arbitrary: n m rule: strstr.induct)
  case (2 c s p)
  then show ?case by (cases m) (auto split: if_splits)
qed (auto split: if_splits)

lemma strstr_found: "starts_with p (drop n s) \<Longrightarrow> \<exists>m \<le> n. strstr s p = Some m"
proof (induction s p arbitrary: n rule: strstr.induct)
  case (1 p)
  then show ?case by (auto simp: starts_with_def)
next
  case (2 c s p)
  show ?case
  proof (cases "starts_with p (c # s)")
    case False
    with 2(2) obtain m where n: "n = Suc m" by (cases n) auto
    with 2 False show ?thesis by fastforce
  qed simp
qed

lemma strstr_at_once: "strstr (p @ s) p = Some 0"
  using strstr_found [of p 0 "p @ s"] by simp

section \<open>Copies into buffers\<close>

text \<open>\<open>snprintf\<close> into \<open>n\<close> bytes stores at most \<open>n - 1\<close> characters and a NUL.\<close>

definition fit :: "nat \<Rightarrow> string \<Rightarrow> string" where
  "fit n s = take (n - 1) s"

lemma fit_length: "0 < n \<Longrightarrow> length (fit n s) < n"
  by (simp add: fit_def)

lemma fit_id: "length s < n \<Longrightarrow> fit n s = s"
  by (simp add: fit_def)

section \<open>Decimal numbers\<close>

definition digit :: "nat \<Rightarrow> char" where
  "digit n = char_of (48 + n)"

fun dec_digits :: "nat \<Rightarrow> nat \<Rightarrow> string" where
  "dec_digits 0 n = []"
| "dec_digits (Suc k) n = (if n < 10 then [digit n] else dec_digits k (n div 10) @ [digit (n mod 10)])"

text \<open>\<open>%u\<close>: a number has no more digits than its successor.\<close>

definition decimal :: "nat \<Rightarrow> string" where
  "decimal n = dec_digits (Suc n) n"

text \<open>\<open>%d\<close>\<close>

definition decimal_int :: "int \<Rightarrow> string" where
  "decimal_int i = (if i < 0 then CHR ''-'' # decimal (nat (- i)) else decimal (nat i))"

section \<open>Reading with \<open>sscanf\<close>\<close>

text \<open>
  The conversions the program uses, each with what it stores and the text behind it; \<open>None\<close> ends
  the scan. White space in a format is \<open>skip_space\<close>.
\<close>

definition isspace :: "char \<Rightarrow> bool" where
  "isspace c \<longleftrightarrow> c \<in> {CHR '' '', CHR 0x09, CHR 0x0A, CHR 0x0B, CHR 0x0C, CHR 0x0D}"

definition isdigit :: "char \<Rightarrow> bool" where
  "isdigit c \<longleftrightarrow> 48 \<le> (of_char c :: nat) \<and> (of_char c :: nat) \<le> 57"

definition skip_space :: "string \<Rightarrow> string" where
  "skip_space = dropWhile isspace"

definition scan_literal :: "string \<Rightarrow> string \<Rightarrow> string option" where
  "scan_literal p s = (if starts_with p s then Some (drop (length p) s) else None)"

text \<open>\<open>%ns\<close> and \<open>%n[...]\<close>\<close>

definition scan_set :: "(char \<Rightarrow> bool) \<Rightarrow> nat \<Rightarrow> string \<Rightarrow> (string \<times> string) option" where
  "scan_set P n s =
     (let w = take n (takeWhile P s) in if w = [] then None else Some (w, drop (length w) s))"

definition scan_word :: "nat \<Rightarrow> string \<Rightarrow> (string \<times> string) option" where
  "scan_word n s = scan_set (\<lambda>c. \<not> isspace c) n (skip_space s)"

definition digits_value :: "string \<Rightarrow> nat" where
  "digits_value ds = foldl (\<lambda>n c. 10 * n + (of_char c - 48)) 0 ds"

text \<open>
  \<open>%d\<close> and \<open>atoi\<close>: out of the range of \<open>int\<close> C leaves the result open; here it is the nearest
  number of the range, as \<open>strtol\<close> has it for a \<open>long\<close> of 32 bits.
\<close>

definition int_range :: "int \<Rightarrow> bool" where
  "int_range i \<longleftrightarrow> - (2 ^ 31) \<le> i \<and> i < 2 ^ 31"

definition clamp_int :: "int \<Rightarrow> int" where
  "clamp_int i = max (- (2 ^ 31)) (min (2 ^ 31 - 1) i)"

definition scan_nat :: "string \<Rightarrow> (nat \<times> string) option" where
  "scan_nat s = map_option (\<lambda>(ds, r). (digits_value ds, r)) (scan_set isdigit (length s) s)"

definition scan_int :: "string \<Rightarrow> (int \<times> string) option" where
  "scan_int s =
     (case skip_space s of
        [] \<Rightarrow> None
      | c # r \<Rightarrow>
          if c = CHR ''-'' then map_option (\<lambda>(n, q). (clamp_int (- int n), q)) (scan_nat r)
          else if c = CHR ''+'' then map_option (\<lambda>(n, q). (clamp_int (int n), q)) (scan_nat r)
          else map_option (\<lambda>(n, q). (clamp_int (int n), q)) (scan_nat (c # r)))"

definition atoi :: "string \<Rightarrow> int" where
  "atoi s = (case scan_int s of None \<Rightarrow> 0 | Some (n, r) \<Rightarrow> n)"

lemma clamp_int_range [simp]: "int_range (clamp_int i)"
  by (auto simp: clamp_int_def int_range_def)

lemma clamp_int_id: "int_range i \<Longrightarrow> clamp_int i = i"
  by (auto simp: clamp_int_def int_range_def)

lemma scan_int_range: "scan_int s = Some (i, r) \<Longrightarrow> int_range i"
  by (auto simp: scan_int_def split: list.splits if_splits)

lemma of_char_digit: "n < 10 \<Longrightarrow> of_char (digit n) = (48 + n :: nat)"
  by (simp add: digit_def)

lemma isdigit_digit [simp]: "n < 10 \<Longrightarrow> isdigit (digit n)"
  by (simp add: isdigit_def of_char_digit)

lemma dec_digits_all: "n < 10 ^ k \<Longrightarrow> list_all isdigit (dec_digits k n)"
proof (induction k arbitrary: n)
  case (Suc k)
  then have "n div 10 < 10 ^ k" by (simp add: less_mult_imp_div_less mult.commute)
  with Suc.IH show ?case by simp
qed simp

lemma digits_value_snoc: "digits_value (ds @ [c]) = 10 * digits_value ds + (of_char c - 48)"
  by (simp add: digits_value_def)

lemma dec_digits_value: "n < 10 ^ k \<Longrightarrow> digits_value (dec_digits k n) = n"
proof (induction k arbitrary: n)
  case (Suc k)
  show ?case
  proof (cases "n < 10")
    case True
    then show ?thesis by (simp add: digits_value_def of_char_digit)
  next
    case False
    from Suc.prems have "n div 10 < 10 ^ k" by (simp add: less_mult_imp_div_less mult.commute)
    from Suc.IH [OF this] False show ?thesis
      by (simp add: digits_value_snoc of_char_digit)
  qed
qed (simp add: digits_value_def)

lemma less_ten_power: "n < 10 ^ Suc n"
proof -
  have "n < 2 ^ n" by (rule less_exp)
  also have "(2::nat) ^ n \<le> 10 ^ n" by (simp add: power_mono)
  also have "(10::nat) ^ n \<le> 10 ^ Suc n" by simp
  finally show ?thesis .
qed

lemma decimal_digits: "list_all isdigit (decimal n)" "digits_value (decimal n) = n" "decimal n \<noteq> []"
  using dec_digits_all [OF less_ten_power] dec_digits_value [OF less_ten_power]
  by (simp_all add: decimal_def)

lemma scan_nat_decimal:
  assumes "s = [] \<or> \<not> isdigit (hd s)"
  shows "scan_nat (decimal n @ s) = Some (n, s)"
proof -
  have "takeWhile isdigit (decimal n @ s) = decimal n"
    using decimal_digits(1) [of n] assms
    by (cases s) (auto simp: takeWhile_append list_all_iff)
  then show ?thesis using decimal_digits [of n] by (simp add: scan_nat_def scan_set_def Let_def)
qed

lemma digit_no_space: "isdigit c \<Longrightarrow> \<not> isspace c \<and> c \<noteq> CHR ''-'' \<and> c \<noteq> CHR ''+''"
  by (auto simp: isdigit_def isspace_def)

lemma scan_int_decimal:
  assumes "s = [] \<or> \<not> isdigit (hd s)" and "n < 2 ^ 31"
  shows "scan_int (decimal n @ s) = Some (int n, s)" "scan_int (CHR '' '' # decimal n @ s) = Some (int n, s)"
proof -
  obtain c r where d: "decimal n = c # r" using decimal_digits(3) by (cases "decimal n") auto
  then have "isdigit c" using decimal_digits(1) [of n] by simp
  with d digit_no_space [OF this] scan_nat_decimal [OF assms(1), of n] assms(2)
  show "scan_int (decimal n @ s) = Some (int n, s)" "scan_int (CHR '' '' # decimal n @ s) = Some (int n, s)"
    by (simp_all add: scan_int_def skip_space_def isspace_def clamp_int_id int_range_def)
qed

lemma scan_word_first:
  assumes "w \<noteq> []" and "list_all (\<lambda>c. \<not> isspace c) w" and "length w \<le> n" and "s = [] \<or> isspace (hd s)"
  shows "scan_word n (w @ s) = Some (w, s)" "scan_word n (CHR '' '' # w @ s) = Some (w, s)"
proof -
  have tw: "takeWhile (\<lambda>c. \<not> isspace c) (w @ s) = w"
    using assms(2,4) by (cases s) (auto simp: takeWhile_append list_all_iff)
  moreover have "skip_space (w @ s) = w @ s"
    using assms(1,2) by (cases w) (simp_all add: skip_space_def)
  moreover have "skip_space (CHR '' '' # w @ s) = skip_space (w @ s)"
    by (simp add: skip_space_def isspace_def)
  ultimately show "scan_word n (w @ s) = Some (w, s)" "scan_word n (CHR '' '' # w @ s) = Some (w, s)"
    using assms(1,3) by (simp_all add: scan_word_def scan_set_def Let_def)
qed

subsection \<open>Lengths\<close>

lemma length_dec_digits: "n < 10 ^ m \<Longrightarrow> 0 < m \<Longrightarrow> length (dec_digits k n) \<le> m"
proof (induction k arbitrary: n m)
  case (Suc k)
  show ?case
  proof (cases "n < 10")
    case False
    then obtain m' where m: "m = Suc m'" "0 < m'" using Suc.prems by (cases m; cases "m - 1") auto
    with Suc.prems have "n div 10 < 10 ^ m'" by (simp add: less_mult_imp_div_less mult.commute)
    with Suc.IH [OF this m(2)] m show ?thesis by simp
  qed (use Suc.prems in simp)
qed simp

lemma length_decimal: "n < 10 ^ m \<Longrightarrow> 0 < m \<Longrightarrow> length (decimal n) \<le> m"
  by (simp add: decimal_def length_dec_digits del: dec_digits.simps)

lemma length_decimal_int: "int_range i \<Longrightarrow> length (decimal_int i) \<le> 11"
proof -
  assume "int_range i"
  then have "nat i < 10 ^ 10" "nat (- i) < 10 ^ 10" by (auto simp: int_range_def)
  with length_decimal [of "nat i" 10] length_decimal [of "nat (- i)" 10] show ?thesis
    by (simp add: decimal_int_def)
qed

end
