(* ===== verification/RtmpClient.thy ===== *)
theory RtmpClient
  imports RtmpServer FrameManager CStrings "HOL-Library.Monad_Syntax"
begin

text \<open>
  The connection layer of the RTMP client (\<open>modules/rtmp_client/rtmp_client.c\<close>): its state, reading and
  writing through a plain socket or TLS (OpenSSL backend), acknowledgements, and cutting a message into
  chunks. A call that does not return is \<open>None\<close>.
\<close>

section \<open>State\<close>

datatype rtmp_client_state =
  RTMP_CLIENT_STATE_DISCONNECTED | RTMP_CLIENT_STATE_CONNECTING |
  RTMP_CLIENT_STATE_HANDSHAKE_C0_SENT | RTMP_CLIENT_STATE_HANDSHAKE_C1_SENT |
  RTMP_CLIENT_STATE_HANDSHAKE_C2_SENT | RTMP_CLIENT_STATE_HANDSHAKE_DONE |
  RTMP_CLIENT_STATE_CONNECTED | RTMP_CLIENT_STATE_STREAM_CREATED |
  RTMP_CLIENT_STATE_PUBLISHING | RTMP_CLIENT_STATE_ERROR

text \<open>What \<open>SSL_get_error\<close> says of a failed write.\<close>

datatype ssl_failure = SslSyscall | SslProtocol | SslZeroReturn | SslOther

text \<open>
  \<open>rtmp_client_connection_t\<close>; each field has the name of the C field behind \<open>rc_\<close>. The stream id is the
  64 bit pattern of a \<open>double\<close>. \<open>rc_io\<close> is the kernel's side of \<open>rc_socket_fd\<close>, with TLS what
  \<open>SSL_read\<close> and \<open>SSL_write\<close> find: an empty segment is a shutdown (\<open>close_notify\<close>). \<open>rc_ssl_errors\<close> says what
  kind each further failing \<open>SSL_write\<close> has, \<open>rc_would_block\<close> whether each further failing \<open>recv\<close> of a
  non-blocking read fails with \<open>EAGAIN\<close>; after these scripts they are \<open>SslSyscall\<close> and \<open>EAGAIN\<close>.
  \<open>rc_ssl_live\<close> counts the TLS sessions that were created and not freed, and \<open>rc_closed_fds\<close> collects the
  descriptors that were closed; the C structure has neither. The fields that the
  code only writes (\<open>chunk_size_in\<close>, \<open>last_retry_time\<close>, the mbedTLS contexts) are left out.
\<close>

record rtmp_client_connection =
  rc_name :: string
  rc_url :: string
  rc_stream_key :: string
  rc_use_tls :: bool
  rc_host :: string
  rc_port :: c_int
  rc_app :: string
  rc_stream :: string
  rc_avc_header_sent :: bool
  rc_avc_wait_start_us :: u32
  rc_frames_without_keyframe :: c_int
  rc_cached_sps :: "bytes option"
  rc_cached_pps :: "bytes option"
  rc_socket_fd :: c_int
  rc_state :: rtmp_client_state
  rc_ssl_context :: bool
  rc_thread_running :: bool
  rc_chunk_size_out :: u32
  rc_window_ack_size :: u32
  rc_stream_id :: u64
  rc_bytes_received :: u32
  rc_last_ack_sent :: u32
  rc_c1_s1_data :: bytes
  rc_c2_s2_data :: bytes
  rc_bytes_sent :: u64
  rc_frames_sent :: u64
  rc_connected_time :: c_int
  rc_last_frame_time :: c_int
  rc_retry_count :: c_int
  rc_io :: sock
  rc_ssl_errors :: "ssl_failure list"
  rc_would_block :: "bool list"
  rc_ssl_live :: nat
  rc_closed_fds :: "c_int list"

text \<open>The order of the enumeration, which one guard compares.\<close>

primrec state_rank :: "rtmp_client_state \<Rightarrow> nat" where
  "state_rank RTMP_CLIENT_STATE_DISCONNECTED = 0"
| "state_rank RTMP_CLIENT_STATE_CONNECTING = 1"
| "state_rank RTMP_CLIENT_STATE_HANDSHAKE_C0_SENT = 2"
| "state_rank RTMP_CLIENT_STATE_HANDSHAKE_C1_SENT = 3"
| "state_rank RTMP_CLIENT_STATE_HANDSHAKE_C2_SENT = 4"
| "state_rank RTMP_CLIENT_STATE_HANDSHAKE_DONE = 5"
| "state_rank RTMP_CLIENT_STATE_CONNECTED = 6"
| "state_rank RTMP_CLIENT_STATE_STREAM_CREATED = 7"
| "state_rank RTMP_CLIENT_STATE_PUBLISHING = 8"
| "state_rank RTMP_CLIENT_STATE_ERROR = 9"

text \<open>
  \<open>(uint32_t)\<close> of a \<open>double\<close> that is positive and below 1000, and these two tests, on its bit pattern: positive
  doubles are ordered as their patterns, and \<open>0x408F400000000000\<close> is 1000.
\<close>

definition double_below_1000 :: "u64 \<Rightarrow> bool" where
  "double_below_1000 b \<longleftrightarrow> 0 < b \<and> b < 0x408F400000000000"

definition double_to_u32 :: "u64 \<Rightarrow> u32" where
  "double_to_u32 b =
     (let e = unat (drop_bit 52 b) in
      if e < 1023 then 0
      else ucast (drop_bit (1075 - e) (0x10000000000000 OR (b AND mask 52))))"

section \<open>Reading and writing\<close>

definition rtmp_client_read_bytes ::
  "nat \<Rightarrow> rtmp_client_connection \<Rightarrow> c_int \<times> bytes \<times> rtmp_client_connection" where
  "rtmp_client_read_bytes n c =
     (case rtmp_read_bytes (rc_io c) n of (r, bs, s) \<Rightarrow> (r, bs, c\<lparr>rc_io := s\<rparr>))"

definition rtmp_client_write_bytes ::
  "rtmp_client_connection \<Rightarrow> bytes \<Rightarrow> c_int \<times> rtmp_client_connection" where
  "rtmp_client_write_bytes c bs =
     (case rtmp_write_bytes (rc_io c) bs of (r, s) \<Rightarrow> (r, c\<lparr>rc_io := s\<rparr>))"

text \<open>The loop over \<open>SSL_read\<close> is the loop over \<open>recv\<close>, but a shutdown returns what has come so far.\<close>

definition rtmp_client_tls_read_bytes ::
  "nat \<Rightarrow> rtmp_client_connection \<Rightarrow> c_int \<times> bytes \<times> rtmp_client_connection" where
  "rtmp_client_tls_read_bytes n c =
     (if n = 0 then (-1, [], c)
      else if \<not> rc_use_tls c \<or> \<not> rc_ssl_context c then rtmp_client_read_bytes n c
      else (case read_loop (rx (rc_io c)) n [] of
              (r, got, es) \<Rightarrow>
                (if r = 0 then int (length got) else r, got, c\<lparr>rc_io := (rc_io c)\<lparr>rx := es\<rparr>\<rparr>)))"

text \<open>
  Sending and reading are mutually recursive: a failed write reads what the peer may have said, reading counts
  the bytes and may send an acknowledgement, which may fail to write. The recursion is closed below over
  the loop that writes the chunks of a message; here that loop is an argument.
\<close>

type_synonym send_loop =
  "rtmp_chunk_header \<Rightarrow> nat \<Rightarrow> bool \<Rightarrow> bytes \<Rightarrow> rtmp_client_connection \<Rightarrow>
     (c_int \<times> rtmp_client_connection) option"

definition send_chunked_with ::
  "send_loop \<Rightarrow> rtmp_client_connection \<Rightarrow> u8 \<Rightarrow> u8 \<Rightarrow> u32 \<Rightarrow> bytes \<Rightarrow> (c_int \<times> rtmp_client_connection) option" where
  "send_chunked_with L c cs ty ts data =
     (if data = [] then Some (-1, c)
      else L \<lparr>fmt = 0, chunk_stream_id = ucast cs, timestamp = ts,
              message_length = word_of_nat (length data), message_type_id = ty,
              message_stream_id = double_to_u32 (rc_stream_id c)\<rparr>
             (unat (rc_chunk_size_out c)) True data c)"

definition send_acknowledgement_with ::
  "send_loop \<Rightarrow> rtmp_client_connection \<Rightarrow> u32 \<Rightarrow> (c_int \<times> rtmp_client_connection) option" where
  "send_acknowledgement_with L c n =
     (if state_rank (rc_state c) < state_rank RTMP_CLIENT_STATE_CONNECTED then Some (-1, c)
      else do {
        (r, c1) \<leftarrow> send_chunked_with L c 2 3 0 (be32 n);
        Some (r, if r = 0 then c1\<lparr>rc_last_ack_sent := n\<rparr> else c1)
      })"

definition check_and_send_ack_with ::
  "send_loop \<Rightarrow> rtmp_client_connection \<Rightarrow> (c_int \<times> rtmp_client_connection) option" where
  "check_and_send_ack_with L c =
     (if rc_window_ack_size c = 0 then Some (0, c)
      else if rc_window_ack_size c \<le> rc_bytes_received c - rc_last_ack_sent c
      then send_acknowledgement_with L c (rc_bytes_received c)
      else Some (0, c))"

text \<open>The bytes that came are counted, and acknowledged if the window is full.\<close>

definition count_received_with ::
  "send_loop \<Rightarrow> c_int \<Rightarrow> bytes \<Rightarrow> rtmp_client_connection \<Rightarrow>
     (c_int \<times> bytes \<times> rtmp_client_connection) option" where
  "count_received_with L r bs c = do {
     (a, c1) \<leftarrow> check_and_send_ack_with L (c\<lparr>rc_bytes_received := rc_bytes_received c + word_of_int r\<rparr>);
     Some (r, bs, c1)
   }"

definition connection_read_bytes_with ::
  "send_loop \<Rightarrow> nat \<Rightarrow> rtmp_client_connection \<Rightarrow> (c_int \<times> bytes \<times> rtmp_client_connection) option" where
  "connection_read_bytes_with L n c =
     (case (if rc_use_tls c then rtmp_client_tls_read_bytes n c else rtmp_client_read_bytes n c) of
        (r, bs, c1) \<Rightarrow> if 0 < r then count_received_with L r bs c1 else Some (r, bs, c1))"

definition recv_now :: "nat \<Rightarrow> rtmp_client_connection \<Rightarrow> c_int \<times> bytes \<times> rtmp_client_connection" where
  "recv_now n c =
     (case recv (rx (rc_io c)) n of
        (r, bs, es) \<Rightarrow>
          (let c1 = c\<lparr>rc_io := (rc_io c)\<lparr>rx := es\<rparr>\<rparr> in
           if r < 0 then
             (case rc_would_block c of
                [] \<Rightarrow> (0, [], c1)
              | b # left \<Rightarrow> (if b then 0 else -1, [], c1\<lparr>rc_would_block := left\<rparr>))
           else (r, bs, c1)))"

definition read_available_with ::
  "send_loop \<Rightarrow> nat \<Rightarrow> rtmp_client_connection \<Rightarrow> (c_int \<times> bytes \<times> rtmp_client_connection) option" where
  "read_available_with L n c =
     (case (if rc_use_tls c then rtmp_client_tls_read_bytes n c else recv_now n c) of
        (r, bs, c1) \<Rightarrow> if 0 < r then count_received_with L r bs c1 else Some (r, bs, c1))"

text \<open>After a failed \<open>SSL_write\<close>: what the peer may have said is read, at most twice.\<close>

definition pop_ssl_error :: "rtmp_client_connection \<Rightarrow> ssl_failure \<times> rtmp_client_connection" where
  "pop_ssl_error c =
     (case rc_ssl_errors c of [] \<Rightarrow> (SslSyscall, c) | e # es \<Rightarrow> (e, c\<lparr>rc_ssl_errors := es\<rparr>))"

definition tls_write_failed_with ::
  "send_loop \<Rightarrow> rtmp_client_connection \<Rightarrow> (c_int \<times> rtmp_client_connection) option" where
  "tls_write_failed_with L c =
     (let (e, c1) = pop_ssl_error c in do {
        (n, bs, c2) \<leftarrow> read_available_with L 1024 c1;
        (m, bs', c3) \<leftarrow> (if 0 < n then Some (n, bs, c2) else read_available_with L 512 c2);
        Some (-1, if e = SslOther then c3 else c3\<lparr>rc_state := RTMP_CLIENT_STATE_DISCONNECTED\<rparr>)
      })"

definition tls_write_bytes_with ::
  "send_loop \<Rightarrow> rtmp_client_connection \<Rightarrow> bytes \<Rightarrow> (c_int \<times> rtmp_client_connection) option" where
  "tls_write_bytes_with L c bs =
     (if bs = [] then Some (-1, c)
      else if \<not> rc_use_tls c \<or> \<not> rc_ssl_context c then Some (rtmp_client_write_bytes c bs)
      else (case rtmp_client_write_bytes c bs of
              (r, c1) \<Rightarrow> if r < 0 then tls_write_failed_with L c1 else Some (r, c1)))"

definition connection_write_bytes_with ::
  "send_loop \<Rightarrow> rtmp_client_connection \<Rightarrow> bytes \<Rightarrow> (c_int \<times> rtmp_client_connection) option" where
  "connection_write_bytes_with L c bs =
     (if rc_use_tls c then tls_write_bytes_with L c bs else Some (rtmp_client_write_bytes c bs))"

text \<open>A failed write of a message ends it; twice the code also looks for an answer of the peer.\<close>

definition give_up_with ::
  "send_loop \<Rightarrow> rtmp_client_connection \<Rightarrow> (c_int \<times> rtmp_client_connection) option" where
  "give_up_with L c = do { (n, bs, c1) \<leftarrow> read_available_with L 512 c; Some (-1, c1) }"

definition type0_header :: "rtmp_chunk_header \<Rightarrow> bytes" where
  "type0_header h =
     be24 (timestamp h) @ be24 (message_length h) @ [message_type_id h] @ le32 (message_stream_id h)"

subsection \<open>The recursion\<close>

text \<open>The operations above are monotone in the loop, so the loop may be defined in terms of them.\<close>

lemma send_chunked_mono [partial_function_mono]:
  "(\<And>h n b d c. mono_option (\<lambda>f. L f h n b d c)) \<Longrightarrow>
     mono_option (\<lambda>f. send_chunked_with (L f) c cs ty ts data)"
  unfolding send_chunked_with_def by (intro partial_function_mono)

lemma send_ack_mono [partial_function_mono]:
  "(\<And>h n b d c. mono_option (\<lambda>f. L f h n b d c)) \<Longrightarrow>
     mono_option (\<lambda>f. send_acknowledgement_with (L f) c w)"
  unfolding send_acknowledgement_with_def case_prod_beta Let_def by (intro partial_function_mono)

lemma check_ack_mono [partial_function_mono]:
  "(\<And>h n b d c. mono_option (\<lambda>f. L f h n b d c)) \<Longrightarrow>
     mono_option (\<lambda>f. check_and_send_ack_with (L f) c)"
  unfolding check_and_send_ack_with_def case_prod_beta Let_def by (intro partial_function_mono)

lemma count_received_mono [partial_function_mono]:
  "(\<And>h n b d c. mono_option (\<lambda>f. L f h n b d c)) \<Longrightarrow>
     mono_option (\<lambda>f. count_received_with (L f) r bs c)"
  unfolding count_received_with_def case_prod_beta Let_def by (intro partial_function_mono)

lemma read_available_mono [partial_function_mono]:
  "(\<And>h n b d c. mono_option (\<lambda>f. L f h n b d c)) \<Longrightarrow>
     mono_option (\<lambda>f. read_available_with (L f) n c)"
  unfolding read_available_with_def case_prod_beta Let_def by (intro partial_function_mono)

lemma tls_failed_mono [partial_function_mono]:
  "(\<And>h n b d c. mono_option (\<lambda>f. L f h n b d c)) \<Longrightarrow>
     mono_option (\<lambda>f. tls_write_failed_with (L f) c)"
  unfolding tls_write_failed_with_def Let_def case_prod_beta Let_def by (intro partial_function_mono)

lemma write_bytes_mono [partial_function_mono]:
  "(\<And>h n b d c. mono_option (\<lambda>f. L f h n b d c)) \<Longrightarrow>
     mono_option (\<lambda>f. connection_write_bytes_with (L f) c bs)"
  unfolding connection_write_bytes_with_def tls_write_bytes_with_def case_prod_beta Let_def by (intro partial_function_mono)

lemma give_up_mono [partial_function_mono]:
  "(\<And>h n b d c. mono_option (\<lambda>f. L f h n b d c)) \<Longrightarrow> mono_option (\<lambda>f. give_up_with (L f) c)"
  unfolding give_up_with_def case_prod_beta Let_def by (intro partial_function_mono)

text \<open>
  The loop: \<open>first\<close> is the first chunk, \<open>rest\<close> what is left to send; chunk size and stream id are read
  once before it. With a chunk size of 0 it writes basic headers for ever.
\<close>

partial_function (option) chunk_loop ::
  "rtmp_chunk_header \<Rightarrow> nat \<Rightarrow> bool \<Rightarrow> bytes \<Rightarrow> rtmp_client_connection \<Rightarrow>
     (c_int \<times> rtmp_client_connection) option" where
  "chunk_loop h cz first rest c =
     (if rest = [] then Some (0, c)
      else if chunk_stream_id h < 2 \<or> 63 < chunk_stream_id h then Some (-1, c)
      else
        Option.bind
          (connection_write_bytes_with (\<lambda>h n b d c. chunk_loop h n b d c) c
             [push_bit 6 (if first then 0 else 3) OR ucast (chunk_stream_id h)])
          (\<lambda>(r, c1).
             if r \<noteq> 1 then give_up_with (\<lambda>h n b d c. chunk_loop h n b d c) c1
             else
               Option.bind
                 (if first then connection_write_bytes_with (\<lambda>h n b d c. chunk_loop h n b d c) c1 (type0_header h)
                  else Some (11, c1))
                 (\<lambda>(q, c2).
                    if q \<noteq> 11 then Some (-1, c2)
                    else
                      (let block = take cz rest in
                       Option.bind
                         (connection_write_bytes_with (\<lambda>h n b d c. chunk_loop h n b d c) c2 block)
                         (\<lambda>(w, c3).
                            if w \<noteq> int (length block)
                            then give_up_with (\<lambda>h n b d c. chunk_loop h n b d c) c3
                            else chunk_loop h cz False (drop cz rest) c3)))))"

declare chunk_loop.simps [code]

definition rtmp_client_send_chunked_message ::
  "rtmp_client_connection \<Rightarrow> u8 \<Rightarrow> u8 \<Rightarrow> u32 \<Rightarrow> bytes \<Rightarrow> (c_int \<times> rtmp_client_connection) option" where
  "rtmp_client_send_chunked_message = send_chunked_with chunk_loop"

definition rtmp_client_send_acknowledgement ::
  "rtmp_client_connection \<Rightarrow> u32 \<Rightarrow> (c_int \<times> rtmp_client_connection) option" where
  "rtmp_client_send_acknowledgement = send_acknowledgement_with chunk_loop"

definition rtmp_client_check_and_send_ack ::
  "rtmp_client_connection \<Rightarrow> (c_int \<times> rtmp_client_connection) option" where
  "rtmp_client_check_and_send_ack = check_and_send_ack_with chunk_loop"

definition rtmp_client_connection_write_bytes ::
  "rtmp_client_connection \<Rightarrow> bytes \<Rightarrow> (c_int \<times> rtmp_client_connection) option" where
  "rtmp_client_connection_write_bytes = connection_write_bytes_with chunk_loop"

definition rtmp_client_connection_read_bytes ::
  "nat \<Rightarrow> rtmp_client_connection \<Rightarrow> (c_int \<times> bytes \<times> rtmp_client_connection) option" where
  "rtmp_client_connection_read_bytes = connection_read_bytes_with chunk_loop"

definition rtmp_client_connection_read_available ::
  "nat \<Rightarrow> rtmp_client_connection \<Rightarrow> (c_int \<times> bytes \<times> rtmp_client_connection) option" where
  "rtmp_client_connection_read_available = read_available_with chunk_loop"

definition rtmp_client_tls_write_bytes ::
  "rtmp_client_connection \<Rightarrow> bytes \<Rightarrow> (c_int \<times> rtmp_client_connection) option" where
  "rtmp_client_tls_write_bytes = tls_write_bytes_with chunk_loop"

section \<open>What goes out\<close>

text \<open>A write on a socket that accepts everything in the end.\<close>

lemma connection_write_ok [wire]:
  assumes "tx_ok (rc_io c)" and "bs \<noteq> []"
  shows "connection_write_bytes_with L c bs = Some (int (length bs), c\<lparr>rc_io := after_write (rc_io c) bs\<rparr>)"
  using assms
  by (simp add: connection_write_bytes_with_def tls_write_bytes_with_def rtmp_client_write_bytes_def
      rtmp_write_bytes_ok)

text \<open>The bytes of the chunks: only the first block has the message header.\<close>

fun client_chunks :: "rtmp_chunk_header \<Rightarrow> bool \<Rightarrow> bytes list \<Rightarrow> bytes" where
  "client_chunks h first [] = []"
| "client_chunks h first (b # bs) =
     (push_bit 6 (if first then 0 else 3) OR ucast (chunk_stream_id h)) #
     (if first then type0_header h else []) @ b @ client_chunks h False bs"

lemma length_type0_header [simp]: "length (type0_header h) = 11"
  by (simp add: type0_header_def)

lemma chunk_loop_ok:
  assumes "tx_ok (rc_io c)" and "0 < cz" and "2 \<le> chunk_stream_id h" and "chunk_stream_id h \<le> 63"
  shows "\<exists>s. chunk_loop h cz first rest c = Some (0, c\<lparr>rc_io := s\<rparr>) \<and> tx_ok s \<and> rx s = rx (rc_io c) \<and>
    tx s = tx (rc_io c) @ client_chunks h first (blocks cz rest)"
  using assms
proof (induction "length rest" arbitrary: first rest c rule: less_induct)
  case less
  show ?case
  proof (cases "rest = []")
    case True
    with less.prems show ?thesis by (intro exI [of _ "rc_io c"]) (simp add: chunk_loop.simps)
  next
    case False
    let ?b0 = "[push_bit 6 (if first then 0 else 3) OR ucast (chunk_stream_id h)] :: bytes"
    let ?b1 = "if first then type0_header h else []"
    have h: "type0_header h \<noteq> []" by (simp add: type0_header_def be24_def)
    have t: "take cz rest \<noteq> []" using False less.prems by simp
    have cs: "\<not> (chunk_stream_id h < 2 \<or> 63 < chunk_stream_id h)" using less.prems by auto
    obtain s1 where s1: "tx_ok s1" "rx s1 = rx (rc_io c)" "tx s1 = tx (rc_io c) @ ?b0 @ ?b1 @ take cz rest"
      and step: "chunk_loop h cz first rest c = chunk_loop h cz False (drop cz rest) (c\<lparr>rc_io := s1\<rparr>)"
    proof -
      let ?s = "after_write (if first then after_write (after_write (rc_io c) ?b0) (type0_header h)
          else after_write (rc_io c) ?b0) (take cz rest)"
      have "chunk_loop h cz first rest c = chunk_loop h cz False (drop cz rest) (c\<lparr>rc_io := ?s\<rparr>)"
        by (subst chunk_loop.simps)
          (use False t h cs less.prems in \<open>simp add: connection_write_ok rtmp_write_bytes_ok\<close>)
      moreover have "tx_ok ?s" "rx ?s = rx (rc_io c)" "tx ?s = tx (rc_io c) @ ?b0 @ ?b1 @ take cz rest"
        using less.prems by (simp_all add: rtmp_write_bytes_ok)
      ultimately show thesis using that by blast
    qed
    have "length (drop cz rest) < length rest" using False less.prems by simp
    from less.hyps [OF this, of "c\<lparr>rc_io := s1\<rparr>" False] s1 less.prems False show ?thesis
      by (auto simp: step blocks_step)
  qed
qed

lemma unat_u8_u32 [simp]: "unat (ucast (b :: u8) :: u32) = unat b"
  by (simp add: unsigned_ucast_eq take_bit_nat_eq_self order_less_trans [OF unat_u8_less])

text \<open>The header and the bytes of a message.\<close>

definition message_header :: "rtmp_client_connection \<Rightarrow> u8 \<Rightarrow> u8 \<Rightarrow> u32 \<Rightarrow> bytes \<Rightarrow> rtmp_chunk_header" where
  "message_header c cs ty ts data =
     \<lparr>fmt = 0, chunk_stream_id = ucast cs, timestamp = ts, message_length = word_of_nat (length data),
      message_type_id = ty, message_stream_id = double_to_u32 (rc_stream_id c)\<rparr>"

definition message_wire :: "rtmp_client_connection \<Rightarrow> u8 \<Rightarrow> u8 \<Rightarrow> u32 \<Rightarrow> bytes \<Rightarrow> bytes" where
  "message_wire c cs ty ts data =
     client_chunks (message_header c cs ty ts data) True (blocks (unat (rc_chunk_size_out c)) data)"

lemma send_chunked_ok:
  assumes "tx_ok (rc_io c)" and "0 < rc_chunk_size_out c" and "2 \<le> cs" and "cs \<le> 63" and "data \<noteq> []"
  shows "\<exists>s. rtmp_client_send_chunked_message c cs ty ts data = Some (0, c\<lparr>rc_io := s\<rparr>) \<and> tx_ok s \<and>
    rx s = rx (rc_io c) \<and> tx s = tx (rc_io c) @ message_wire c cs ty ts data"
proof -
  have "0 < unat (rc_chunk_size_out c)" using assms(2) by (simp add: word_less_nat_alt)
  moreover have "2 \<le> (ucast cs :: u32)" "(ucast cs :: u32) \<le> 63"
    using assms(3,4) by (simp_all add: word_le_nat_alt)
  ultimately show ?thesis
    using assms(1,5) unfolding rtmp_client_send_chunked_message_def send_chunked_with_def message_wire_def message_header_def
    by (simp add: chunk_loop_ok)
qed

section \<open>Every message comes to an end\<close>

text \<open>
  The nesting of writes in reads in writes is bounded by what the peer sent: every level has consumed
  at least one byte of it.
\<close>

definition rx_load :: "rtmp_client_connection \<Rightarrow> nat" where
  "rx_load c = script_load (rx (rc_io c))"

text \<open>
  Reading and writing change only the socket, the counters of received bytes and, when TLS breaks, the state.
\<close>

definition same_session :: "rtmp_client_connection \<Rightarrow> rtmp_client_connection \<Rightarrow> bool" where
  "same_session c c1 \<longleftrightarrow>
     (rc_state c1 = rc_state c \<or> rc_state c1 = RTMP_CLIENT_STATE_DISCONNECTED) \<and>
     rc_name c1 = rc_name c \<and>
     rc_url c1 = rc_url c \<and>
     rc_stream_key c1 = rc_stream_key c \<and>
     rc_use_tls c1 = rc_use_tls c \<and>
     rc_host c1 = rc_host c \<and>
     rc_port c1 = rc_port c \<and>
     rc_app c1 = rc_app c \<and>
     rc_stream c1 = rc_stream c \<and>
     rc_avc_header_sent c1 = rc_avc_header_sent c \<and>
     rc_avc_wait_start_us c1 = rc_avc_wait_start_us c \<and>
     rc_frames_without_keyframe c1 = rc_frames_without_keyframe c \<and>
     rc_cached_sps c1 = rc_cached_sps c \<and>
     rc_cached_pps c1 = rc_cached_pps c \<and>
     rc_socket_fd c1 = rc_socket_fd c \<and>
     rc_ssl_context c1 = rc_ssl_context c \<and>
     rc_thread_running c1 = rc_thread_running c \<and>
     rc_chunk_size_out c1 = rc_chunk_size_out c \<and>
     rc_window_ack_size c1 = rc_window_ack_size c \<and>
     rc_stream_id c1 = rc_stream_id c \<and>
     rc_c1_s1_data c1 = rc_c1_s1_data c \<and>
     rc_c2_s2_data c1 = rc_c2_s2_data c \<and>
     rc_bytes_sent c1 = rc_bytes_sent c \<and>
     rc_frames_sent c1 = rc_frames_sent c \<and>
     rc_connected_time c1 = rc_connected_time c \<and>
     rc_last_frame_time c1 = rc_last_frame_time c \<and>
     rc_retry_count c1 = rc_retry_count c \<and>
     rc_ssl_live c1 = rc_ssl_live c \<and>
     rc_closed_fds c1 = rc_closed_fds c"

lemma same_session_refl [simp]: "same_session c c"
  by (simp add: same_session_def)

lemma same_session_trans: "same_session c c1 \<Longrightarrow> same_session c1 c2 \<Longrightarrow> same_session c c2"
  unfolding same_session_def by metis

lemma same_session_update [simp]:
  "same_session c (c1\<lparr>rc_io := io\<rparr>) = same_session c c1"
  "same_session c (c1\<lparr>rc_ssl_errors := es\<rparr>) = same_session c c1"
  "same_session c (c1\<lparr>rc_would_block := wb\<rparr>) = same_session c c1"
  "same_session c (c1\<lparr>rc_bytes_received := n\<rparr>) = same_session c c1"
  "same_session c (c1\<lparr>rc_last_ack_sent := n\<rparr>) = same_session c c1"
  by (simp_all add: same_session_def)

lemma same_session_broken [simp]:
  "same_session c c1 \<Longrightarrow> same_session c (c1\<lparr>rc_state := RTMP_CLIENT_STATE_DISCONNECTED\<rparr>)"
  by (simp add: same_session_def)

definition ends_below :: "rtmp_client_connection \<Rightarrow> rtmp_client_connection \<Rightarrow> bool" where
  "ends_below c c1 \<longleftrightarrow>
     rx_load c1 \<le> rx_load c \<and> rc_chunk_size_out c1 = rc_chunk_size_out c \<and> same_session c c1"

lemma ends_below_refl [simp]: "ends_below c c"
  by (simp add: ends_below_def)

lemma ends_below_trans [trans]: "ends_below c c1 \<Longrightarrow> ends_below c1 c2 \<Longrightarrow> ends_below c c2"
  by (auto simp: ends_below_def intro: same_session_trans)

lemma tls_read_load:
  assumes "rtmp_client_tls_read_bytes n c = (r, bs, c1)"
  shows "ends_below c c1 \<and> (0 < r \<longrightarrow> rx_load c1 < rx_load c)"
proof -
  obtain q got es where "read_loop (rx (rc_io c)) n [] = (q, got, es)" by (metis prod_cases3)
  with read_loop_load [OF this] assms show ?thesis
    by (auto simp: rtmp_client_tls_read_bytes_def rtmp_client_read_bytes_def rtmp_read_bytes_def
        ends_below_def rx_load_def length_greater_0_conv [symmetric] simp del: length_greater_0_conv
        split: if_splits)
qed

lemma recv_now_load:
  assumes "recv_now n c = (r, bs, c1)"
  shows "ends_below c c1 \<and> (0 < r \<longrightarrow> rx_load c1 < rx_load c)"
proof -
  obtain q got es where rc: "recv (rx (rc_io c)) n = (q, got, es)" by (metis prod_cases3)
  have "0 < q \<longrightarrow> 0 < length got"
    using rc by (cases "(rx (rc_io c), n)" rule: recv.cases) (auto split: if_splits)
  with recv_load [OF rc] rc assms show ?thesis
    by (auto simp: recv_now_def ends_below_def rx_load_def Let_def length_greater_0_conv [symmetric]
        simp del: length_greater_0_conv split: if_splits list.splits)
qed

lemma write_load: "rtmp_client_write_bytes c bs = (r, c1) \<Longrightarrow> ends_below c c1"
  by (auto simp: rtmp_client_write_bytes_def rtmp_write_bytes_def ends_below_def rx_load_def
      split: prod.splits)

text \<open>
  One level: if the loop returns wherever fewer bytes are to come, then every operation that reads
  or writes returns here.
\<close>

definition loop_returns :: "send_loop \<Rightarrow> nat \<Rightarrow> bool" where
  "loop_returns L m \<longleftrightarrow>
     (\<forall>h cz b d c. rx_load c < m \<longrightarrow> 0 < cz \<longrightarrow> 0 < rc_chunk_size_out c \<longrightarrow>
        (\<exists>r c1. L h cz b d c = Some (r, c1) \<and> ends_below c c1))"

definition yields :: "rtmp_client_connection \<Rightarrow> (c_int \<times> rtmp_client_connection) option \<Rightarrow> bool" where
  "yields c y \<longleftrightarrow> (\<exists>r c1. y = Some (r, c1) \<and> ends_below c c1)"

definition yields_bytes ::
  "rtmp_client_connection \<Rightarrow> (c_int \<times> bytes \<times> rtmp_client_connection) option \<Rightarrow> bool" where
  "yields_bytes c y \<longleftrightarrow> (\<exists>r bs c1. y = Some (r, bs, c1) \<and> ends_below c c1)"

lemma yields_bind:
  "yields c x \<Longrightarrow> (\<And>r c1. ends_below c c1 \<Longrightarrow> yields c1 (f r c1)) \<Longrightarrow>
     yields c (Option.bind x (\<lambda>(r, c1). f r c1))"
  unfolding yields_def by (fastforce intro: ends_below_trans)

lemma yields_bytes_bind:
  "yields_bytes c x \<Longrightarrow> (\<And>r bs c1. ends_below c c1 \<Longrightarrow> yields c1 (f r bs c1)) \<Longrightarrow>
     yields c (Option.bind x (\<lambda>(r, bs, c1). f r bs c1))"
  unfolding yields_def yields_bytes_def by (fastforce intro: ends_below_trans)

lemma yields_Some: "ends_below c c1 \<Longrightarrow> yields c (Some (r, c1))"
  by (simp add: yields_def)

lemma send_chunked_yields:
  assumes "loop_returns L m" and "rx_load c < m" and "0 < rc_chunk_size_out c"
  shows "yields c (send_chunked_with L c cs ty ts data)"
proof -
  have "0 < unat (rc_chunk_size_out c)" using assms(3) by (simp add: word_less_nat_alt)
  with assms show ?thesis
    by (cases "data = []") (auto simp: send_chunked_with_def loop_returns_def yields_def)
qed

lemma ack_yields:
  assumes "loop_returns L m" and "rx_load c < m" and "0 < rc_chunk_size_out c"
  shows "yields c (check_and_send_ack_with L c)"
proof -
  have "yields c (send_acknowledgement_with L c n)" for n
    unfolding send_acknowledgement_with_def
    by (auto intro!: yields_bind send_chunked_yields [OF assms] yields_Some)
      (simp_all add: ends_below_def rx_load_def)
  then show ?thesis by (auto simp: check_and_send_ack_with_def intro: yields_Some)
qed

lemma count_received_yields:
  assumes "loop_returns L m" and "rx_load c < m" and "0 < rc_chunk_size_out c"
  shows "yields_bytes c (count_received_with L r bs c)"
proof -
  let ?c = "c\<lparr>rc_bytes_received := rc_bytes_received c + word_of_int r\<rparr>"
  have "ends_below c ?c" by (simp add: rx_load_def ends_below_def)
  moreover have "yields ?c (check_and_send_ack_with L ?c)"
    using assms by (intro ack_yields) (simp_all add: rx_load_def)
  ultimately show ?thesis
    by (auto simp: count_received_with_def yields_def yields_bytes_def dest: ends_below_trans)
qed

lemma read_available_yields:
  assumes "loop_returns L m" and "rx_load c \<le> m" and "0 < rc_chunk_size_out c"
  shows "yields_bytes c (read_available_with L n c)"
proof -
  obtain r bs c1 where
    rd: "(if rc_use_tls c then rtmp_client_tls_read_bytes n c else recv_now n c) = (r, bs, c1)"
    by (metis prod_cases3)
  then have e: "ends_below c c1" and lt: "0 < r \<Longrightarrow> rx_load c1 < rx_load c"
    using tls_read_load [of n c r bs c1] recv_now_load [of n c r bs c1] by (auto split: if_splits)
  show ?thesis
  proof (cases "0 < r")
    case True
    with e lt assms(2,3) have "rx_load c1 < m" "0 < rc_chunk_size_out c1" by (auto simp: ends_below_def)
    from count_received_yields [OF assms(1) this, of r bs] e rd True show ?thesis
      by (auto simp: read_available_with_def yields_bytes_def intro: ends_below_trans)
  next
    case False
    with e rd show ?thesis by (simp add: read_available_with_def yields_bytes_def)
  qed
qed

lemma give_up_yields:
  assumes "loop_returns L m" and "rx_load c \<le> m" and "0 < rc_chunk_size_out c"
  shows "yields c (give_up_with L c)"
  unfolding give_up_with_def
  by (rule yields_bytes_bind [OF read_available_yields [OF assms]]) (rule yields_Some, simp)

lemma tls_write_failed_yields:
  assumes L: "loop_returns L m" and "rx_load c \<le> m" and "0 < rc_chunk_size_out c"
  shows "yields c (tls_write_failed_with L c)"
proof -
  obtain e c1 where p: "pop_ssl_error c = (e, c1)" by (metis prod.exhaust)
  then have c1: "rx_load c1 = rx_load c" "rc_chunk_size_out c1 = rc_chunk_size_out c" "ends_below c c1"
    by (auto simp: pop_ssl_error_def rx_load_def ends_below_def split: list.splits)
  have 2: "yields_bytes c2 (if 0 < n then Some (n, bs, c2) else read_available_with L 512 c2)"
    if "ends_below c1 c2" for n bs c2
    using that read_available_yields [OF L, of c2 512] assms(2,3) c1
    by (simp add: ends_below_def) (simp add: yields_bytes_def)
  have "yields c1 (read_available_with L 1024 c1 \<bind> (\<lambda>(n, bs, c2).
      (if 0 < n then Some (n, bs, c2) else read_available_with L 512 c2) \<bind> (\<lambda>(m, bs', c3).
       Some (-1, if e = SslOther then c3 else c3\<lparr>rc_state := RTMP_CLIENT_STATE_DISCONNECTED\<rparr>))))"
    by (intro yields_bytes_bind read_available_yields [OF L] 2 yields_Some)
      (use c1 assms in \<open>auto simp: ends_below_def rx_load_def\<close>)
  with c1(3) show ?thesis
    by (auto simp: tls_write_failed_with_def p yields_def intro: ends_below_trans)
qed

lemma connection_write_yields:
  assumes L: "loop_returns L m" and "rx_load c \<le> m" and "0 < rc_chunk_size_out c"
  shows "yields c (connection_write_bytes_with L c bs)"
proof -
  obtain r c1 where w: "rtmp_client_write_bytes c bs = (r, c1)" by (metis prod.exhaust)
  from write_load [OF w] have e: "ends_below c c1" .
  with assms(2,3) have "yields c1 (tls_write_failed_with L c1)"
    by (intro tls_write_failed_yields [OF L]) (auto simp: ends_below_def)
  with e show ?thesis
    by (auto simp: connection_write_bytes_with_def tls_write_bytes_with_def w yields_def
        intro: ends_below_trans)
qed

lemma chunk_loop_returns: "loop_returns chunk_loop m"
proof (induction m)
  case 0
  then show ?case by (simp add: loop_returns_def)
next
  case (Suc m)
  have "yields c (chunk_loop h cz first rest c)"
    if "rx_load c \<le> m" "0 < cz" "0 < rc_chunk_size_out c" for h cz first rest c
    using that
  proof (induction "length rest" arbitrary: first rest c rule: less_induct)
    case less
    note keep = ends_below_def
    have next_block: "yields c1 (chunk_loop h cz False (drop cz rest) c1)"
      if "rx_load c1 \<le> rx_load c" "rc_chunk_size_out c1 = rc_chunk_size_out c" "rest \<noteq> []" for c1
      using that less.prems by (intro less.hyps) auto
    show ?case
      by (subst chunk_loop.simps)
        (use less.prems next_block in \<open>auto simp: keep Let_def intro!: yields_Some yields_bind
          connection_write_yields [OF Suc.IH] give_up_yields [OF Suc.IH] intro: same_session_trans\<close>)
  qed
  then show ?case by (simp add: loop_returns_def yields_def less_Suc_eq_le)
qed

text \<open>With chunk size 0 the loop makes no progress on a plain socket that takes everything.\<close>

lemma chunk_loop_stuck:
  assumes "chunk_loop h cz first rest c = Some y"
  shows "\<not> (cz = 0 \<and> rest \<noteq> [] \<and> \<not> rc_use_tls c \<and> tx_ok (rc_io c) \<and>
    2 \<le> chunk_stream_id h \<and> chunk_stream_id h \<le> 63)"
proof (rule chunk_loop.raw_induct
    [where P = "\<lambda>h cz first rest c y. \<not> (cz = 0 \<and> rest \<noteq> [] \<and> \<not> rc_use_tls c \<and> tx_ok (rc_io c) \<and>
    2 \<le> chunk_stream_id h \<and> chunk_stream_id h \<le> 63)", OF _ assms], goal_cases)
  case (1 loop h cz first rest c y)
  show ?case
  proof
    assume a: "cz = 0 \<and> rest \<noteq> [] \<and> \<not> rc_use_tls c \<and> tx_ok (rc_io c) \<and>
      2 \<le> chunk_stream_id h \<and> chunk_stream_id h \<le> 63"
    let ?b0 = "[push_bit 6 (if first then 0 else 3) OR ucast (chunk_stream_id h)] :: bytes"
    let ?s = "after_write (if first then after_write (after_write (rc_io c) ?b0) (type0_header h)
        else after_write (rc_io c) ?b0) []"
    have cs: "\<not> (chunk_stream_id h < 2 \<or> 63 < chunk_stream_id h)" using a by auto
    have "loop h cz False rest (c\<lparr>rc_io := ?s\<rparr>) = Some y"
      using 1(2) a cs
      by (auto simp: connection_write_bytes_with_def rtmp_client_write_bytes_def rtmp_write_bytes_ok
          split: if_splits)
    from 1(1) [OF this] a show False by (auto simp: rtmp_write_bytes_ok)
  qed
qed

section \<open>A receiver\<close>

text \<open>
  What a receiver that follows the specification makes of the bytes: a type 0 header with a one byte
  basic header and an extended timestamp if the field is \<open>0xFFFFFF\<close>, then the payload in blocks of the
  chunk size, each further one behind a type 3 basic header of the same chunk stream.
\<close>

function gather :: "u8 \<Rightarrow> nat \<Rightarrow> nat \<Rightarrow> bytes \<Rightarrow> (bytes \<times> bytes) option" where
  "gather b cz n bs =
     (if n \<le> cz \<or> cz = 0 then (if length bs < n then None else Some (take n bs, drop n bs))
      else if length bs \<le> cz \<or> bs ! cz \<noteq> b then None
      else map_option (\<lambda>(d, r). (take cz bs @ d, r)) (gather b cz (n - cz) (drop (cz + 1) bs)))"
  by pat_completeness auto
termination by (relation "measure (\<lambda>(b, cz, n, bs). n)") auto

declare gather.simps [simp del]

definition receive_message :: "nat \<Rightarrow> bytes \<Rightarrow> (rtmp_chunk_header \<times> bytes \<times> bytes) option" where
  "receive_message cz bs =
     (if length bs < 12 \<or> 63 < bs ! 0 \<or> bs ! 0 < 2 then None
      else
        (let ts = de24 (bs ! 1) (bs ! 2) (bs ! 3);
             len = de24 (bs ! 4) (bs ! 5) (bs ! 6);
             ext = (ts = 0xFFFFFF);
             h = \<lparr>fmt = 0, chunk_stream_id = ucast (bs ! 0),
                  timestamp = (if ext then de32 (bs ! 12) (bs ! 13) (bs ! 14) (bs ! 15) else ts),
                  message_length = len, message_type_id = bs ! 7,
                  message_stream_id = de32 (bs ! 11) (bs ! 10) (bs ! 9) (bs ! 8)\<rparr>
         in map_option (\<lambda>(d, r). (h, d, r))
              (gather (0xC0 OR bs ! 0) cz (unat len) (drop (if ext then 16 else 12) bs))))"

lemma gather_blocks:
  assumes "0 < cz" and "chunk_stream_id h \<le> 63" and "data \<noteq> []"
  shows "gather (0xC0 OR ucast (chunk_stream_id h)) cz (length data)
      (hd (blocks cz data) @ client_chunks h False (tl (blocks cz data)) @ rest) = Some (data, rest)"
  using assms(3)
proof (induction "length data" arbitrary: data rule: less_induct)
  case less
  let ?b = "0xC0 OR ucast (chunk_stream_id h) :: u8"
  show ?case
  proof (cases "length data \<le> cz")
    case True
    with less.prems assms(1) show ?thesis by (simp add: blocks_single gather.simps)
  next
    case False
    let ?d = "drop cz data"
    have d: "?d \<noteq> []" "length ?d < length data" "blocks cz data = take cz data # blocks cz ?d"
      using False assms(1) less.prems by (simp_all add: blocks_step)
    then have ne: "blocks cz ?d = hd (blocks cz ?d) # tl (blocks cz ?d)"
      using assms(1) by (simp add: blocks_step)
    let ?w = "hd (blocks cz ?d) @ client_chunks h False (tl (blocks cz ?d)) @ rest"
    have "client_chunks h False (blocks cz ?d) @ rest = ?b # ?w"
      by (subst ne) simp
    with d have w: "hd (blocks cz data) @ client_chunks h False (tl (blocks cz data)) @ rest =
        take cz data @ ?b # ?w" by simp
    have "gather ?b cz (length data) (take cz data @ ?b # ?w) =
        map_option (\<lambda>(d, r). (take cz data @ d, r)) (gather ?b cz (length ?d) ?w)"
      using False assms(1) by (subst gather.simps) (simp add: nth_append)
    also have "\<dots> = Some (data, rest)" using less.hyps [OF d(2,1)] by simp
    finally show ?thesis by (simp only: w)
  qed
qed

lemma receive_client_chunks:
  assumes "0 < cz" and "2 \<le> chunk_stream_id h" and "chunk_stream_id h \<le> 63" and "fmt h = 0"
    and "timestamp h AND mask 24 \<noteq> 0xFFFFFF" and "message_length h = word_of_nat (length data)"
    and "data \<noteq> []" and "length data < 0x1000000"
  shows "receive_message cz (client_chunks h True (blocks cz data) @ rest) =
    Some (h\<lparr>timestamp := timestamp h AND mask 24\<rparr>, data, rest)"
proof -
  let ?b = "ucast (chunk_stream_id h) :: u8"
  have len: "unat (message_length h) = length data" "unat (message_length h) < 0x1000000"
    using assms(6,8) by (simp_all add: unat_of_nat take_bit_nat_eq_self)
  have b: "ucast ?b = chunk_stream_id h" "\<not> 63 < ?b" "\<not> ?b < 2"
  proof -
    have u: "unat (chunk_stream_id h) < 256" "2 \<le> unat (chunk_stream_id h)" "unat (chunk_stream_id h) \<le> 63"
      using assms(2,3) by (simp_all add: word_le_nat_alt)
    then have v: "unat ?b = unat (chunk_stream_id h)" by (simp add: unsigned_ucast_eq take_bit_nat_eq_self)
    then show "ucast ?b = chunk_stream_id h" by (simp add: word_unat_eq_iff)
    from u v show "\<not> 63 < ?b" "\<not> ?b < 2" by (simp_all add: word_less_nat_alt)
  qed
  have ne: "blocks cz data = hd (blocks cz data) # tl (blocks cz data)"
    using assms(1,7) by (simp add: blocks_step)
  let ?w = "hd (blocks cz data) @ client_chunks h False (tl (blocks cz data)) @ rest"
  have wire: "client_chunks h True (blocks cz data) @ rest = ?b # type0_header h @ ?w"
    by (subst ne) simp
  from gather_blocks [OF assms(1,3,7), of rest]
  have g: "gather (0xC0 OR ?b) cz (unat (message_length h)) ?w = Some (data, rest)" by (simp add: len)
  have bytes: "type0_header h =
      [ucast (drop_bit 16 (timestamp h)), ucast (drop_bit 8 (timestamp h)), ucast (timestamp h),
       ucast (drop_bit 16 (message_length h)), ucast (drop_bit 8 (message_length h)), ucast (message_length h),
       message_type_id h, ucast (message_stream_id h), ucast (drop_bit 8 (message_stream_id h)),
       ucast (drop_bit 16 (message_stream_id h)), ucast (drop_bit 24 (message_stream_id h))]"
    by (simp add: type0_header_def be24_def le32_def)
  have m: "message_length h AND mask 24 = message_length h"
    using len(2) by (intro less_mask_eq) (simp add: word_less_nat_alt)
  have eq: "\<lparr>fmt = 0, chunk_stream_id = chunk_stream_id h, timestamp = timestamp h AND mask 24,
      message_length = message_length h, message_type_id = message_type_id h,
      message_stream_id = message_stream_id h\<rparr> = h\<lparr>timestamp := timestamp h AND mask 24\<rparr>"
    by (simp add: assms(4) rtmp_chunk_header.equality)
  show ?thesis
    using b g assms(5) unfolding wire receive_message_def bytes
    by (simp add: Let_def de24_be24_mask m eq)
qed

lemma client_chunks_server:
  assumes "chunk_stream_id h \<le> 63" and "timestamp h < 0xFFFFFF" and "data \<noteq> []" and "0 < cz"
  shows "\<exists>w. client_chunks h True (blocks cz data) = header_bytes h 0 @ take cz data @ w \<and>
    (length data \<le> cz \<longrightarrow> w = [])"
proof -
  have "chunk_stream_id h < 64" using assms(1) by unat_arith
  moreover have "\<not> 0xFFFFFF \<le> timestamp h" using assms(2) by simp
  ultimately have "header_bytes h 0 = ucast (chunk_stream_id h) # type0_header h"
    by (simp add: header_bytes_def basic_bytes_def msg_header_def ts_field_def type0_header_def)
  with assms(3,4) show ?thesis by (simp add: blocks_step)
qed

lemma receive_message_wire:
  assumes "0 < rc_chunk_size_out c" and "2 \<le> cs" and "cs \<le> 63"
    and "data \<noteq> []" and "length data < 0x1000000" and "ts AND mask 24 \<noteq> 0xFFFFFF"
  shows "receive_message (unat (rc_chunk_size_out c)) (message_wire c cs ty ts data @ rest) =
    Some ((message_header c cs ty ts data)\<lparr>timestamp := ts AND mask 24\<rparr>, data, rest)"
proof -
  let ?h = "message_header c cs ty ts data"
  have "0 < unat (rc_chunk_size_out c)" "2 \<le> chunk_stream_id ?h" "chunk_stream_id ?h \<le> 63"
    using assms(1-3) by (simp_all add: message_header_def word_less_nat_alt word_le_nat_alt)
  from receive_client_chunks [OF this, of data rest] assms(4-6) show ?thesis
    by (simp add: message_wire_def) (simp add: message_header_def)
qed

section \<open>Properties\<close>

text \<open>
  C11. A message of any length that fits the 24 bit length field, sent on a socket that accepts everything in
  the end, arrives whole at a receiver that follows the specification and knows the chunk size: with its type,
  its stream and exactly its payload, and with the timestamp modulo \<open>2^24\<close>, as the client never
  writes an extended timestamp.
\<close>

theorem client_message_received:
  assumes "tx_ok (rc_io c)" and "0 < rc_chunk_size_out c" and "2 \<le> cs" and "cs \<le> 63"
    and "data \<noteq> []" and "length data < 0x1000000" and "ts AND mask 24 \<noteq> 0xFFFFFF"
  shows "\<exists>s wire. rtmp_client_send_chunked_message c cs ty ts data = Some (0, c\<lparr>rc_io := s\<rparr>) \<and>
    tx s = tx (rc_io c) @ wire \<and>
    receive_message (unat (rc_chunk_size_out c)) (wire @ rest) =
      Some (\<lparr>fmt = 0, chunk_stream_id = ucast cs, timestamp = ts AND mask 24,
              message_length = word_of_nat (length data), message_type_id = ty,
              message_stream_id = double_to_u32 (rc_stream_id c)\<rparr>, data, rest)"
  using send_chunked_ok [OF assms(1-5), of ty ts] receive_message_wire [OF assms(2-7), of ty rest]
  by (fastforce simp: message_header_def)

text \<open>
  What the RTMP server of the same program makes of a message of its client, if both use the same chunk
  size and the timestamp is below \<open>0xFFFFFF\<close>: a message that fits one chunk is complete, of a longer one the
  server only ever takes the first chunk and reports a partial message.
\<close>

theorem client_message_at_server:
  assumes "tx_ok (rc_io c)" and "0 < rc_chunk_size_out c" and "2 \<le> cs" and "cs \<le> 63"
    and "data \<noteq> []" and "length data < 0x1000000" and "ts < 0xFFFFFF"
    and "chunk_size_in r = rc_chunk_size_out c" and "mok (length data)"
    and "rtmp_client_send_chunked_message c cs ty ts data = Some (code, c1)"
    and "pending (socket r) = drop (length (tx (rc_io c))) (tx (rc_io c1))"
  shows "code = 0 \<and>
    (\<exists>res lasts1 r1 m. rtmp_chunk_read mok lasts r m0 = (res, m, lasts1, r1) \<and>
       header m = \<lparr>fmt = 0, chunk_stream_id = ucast cs, timestamp = ts,
         message_length = word_of_nat (length data), message_type_id = ty,
         message_stream_id = double_to_u32 (rc_stream_id c)\<rparr> \<and>
       payload m = Some (take (unat (rc_chunk_size_out c)) data) \<and>
       res = (if length data \<le> unat (rc_chunk_size_out c) then 1 else 2))"
proof -
  let ?h = "\<lparr>fmt = 0, chunk_stream_id = ucast cs, timestamp = ts, message_length = word_of_nat (length data),
    message_type_id = ty, message_stream_id = double_to_u32 (rc_stream_id c)\<rparr>"
  let ?cz = "unat (rc_chunk_size_out c)"
  have cz: "0 < ?cz" and cs: "chunk_stream_id ?h \<le> 63" and cs2: "2 \<le> chunk_stream_id ?h"
    using assms(2-4) by (simp_all add: word_less_nat_alt word_le_nat_alt)
  have cs3: "chunk_stream_id ?h < 65600" using cs by (rule order_le_less_trans) simp
  have len: "unat (message_length ?h) = length data"
    using assms(6) by (simp add: unat_of_nat take_bit_nat_eq_self)
  then have lt: "message_length ?h < 0x1000000" using assms(6) by (simp add: word_less_nat_alt)
  have "timestamp ?h < 0xFFFFFF" using assms(7) by simp
  from client_chunks_server [OF cs this assms(5) cz] obtain w where
    w: "client_chunks ?h True (blocks ?cz data) = header_bytes ?h 0 @ take ?cz data @ w" by blast
  from send_chunked_ok [OF assms(1-5), of ty ts] assms(10)
  have code: "code = 0" and "tx (rc_io c1) = tx (rc_io c) @ client_chunks ?h True (blocks ?cz data)"
    by (auto simp: message_wire_def message_header_def)
  then have p: "pending (socket r) = header_bytes ?h 0 @ take ?cz data @ w" using assms(11) w by simp
  have blk: "length (take ?cz data) = min (unat (chunk_size_in r)) (unat (message_length ?h))"
    and mem: "mok (unat (message_length ?h))"
    using len assms(8,9) by (simp_all add: min.commute)
  from rtmp_chunk_read_type0 [where mok = mok, OF p cs2 cs3 lt blk mem, of lasts m0] obtain s1 where
    "rtmp_chunk_read mok lasts r m0 =
      (if message_length ?h \<le> word_of_nat (length (take ?cz data)) then 1 else 2,
       \<lparr>header = ?h\<lparr>fmt := 0\<rparr>, payload = Some (take ?cz data), payload_size = message_length ?h,
        bytes_read = word_of_nat (length (take ?cz data))\<rparr>,
       snd (inherit_header lasts (?h\<lparr>fmt := 0\<rparr>)), r\<lparr>socket := s1\<rparr>)" by blast
  moreover have "message_length ?h \<le> word_of_nat (length (take ?cz data)) \<longleftrightarrow> length data \<le> ?cz"
    using assms(6) by (simp add: word_le_nat_alt unat_of_nat take_bit_nat_eq_self min_def)
  ultimately show ?thesis using code by simp
qed

text \<open>
  C17. Whatever the sockets do (short writes, failures, time-outs, anything the peer sends in between, with or
  without TLS), sending a message returns if the chunk size is not 0: acknowledgements nested inside failed
  writes come to an end, as each level has read something. With chunk size 0 the client writes headers
  for ever to a plain socket that accepts everything.
\<close>

theorem client_send_returns:
  assumes "2 \<le> cs" and "cs \<le> 63" and "data \<noteq> []"
  shows "(0 < rc_chunk_size_out c \<longrightarrow>
      (\<exists>r c1. rtmp_client_send_chunked_message c cs ty ts data = Some (r, c1) \<and>
         rx_load c1 \<le> rx_load c \<and> rc_chunk_size_out c1 = rc_chunk_size_out c)) \<and>
    (rc_chunk_size_out c = 0 \<and> \<not> rc_use_tls c \<and> tx_ok (rc_io c) \<longrightarrow>
      rtmp_client_send_chunked_message c cs ty ts data = None)"
proof (intro conjI impI)
  assume "0 < rc_chunk_size_out c"
  with send_chunked_yields [OF chunk_loop_returns, of c "Suc (rx_load c)" cs ty ts data]
  show "\<exists>r c1. rtmp_client_send_chunked_message c cs ty ts data = Some (r, c1) \<and>
         rx_load c1 \<le> rx_load c \<and> rc_chunk_size_out c1 = rc_chunk_size_out c"
    by (auto simp: rtmp_client_send_chunked_message_def yields_def ends_below_def)
next
  assume "rc_chunk_size_out c = 0 \<and> \<not> rc_use_tls c \<and> tx_ok (rc_io c)"
  moreover have "2 \<le> (ucast cs :: u32)" "(ucast cs :: u32) \<le> 63"
    using assms(1,2) by (simp_all add: word_le_nat_alt)
  ultimately have "rtmp_client_send_chunked_message c cs ty ts data \<noteq> Some y" for y
    unfolding rtmp_client_send_chunked_message_def send_chunked_with_def
    using assms(3) by (auto dest: chunk_loop_stuck)
  then show "rtmp_client_send_chunked_message c cs ty ts data = None"
    by (metis option.exhaust)
qed

section \<open>Examples\<close>

definition sample_client :: rtmp_client_connection where
  "sample_client =
     \<lparr>rc_name = ''tube'', rc_url = ''rtmp://h/live'', rc_stream_key = ''k1'', rc_use_tls = False,
      rc_host = ''h'', rc_port = 1935, rc_app = ''live'', rc_stream = [], rc_avc_header_sent = True,
      rc_avc_wait_start_us = 0, rc_frames_without_keyframe = 0, rc_cached_sps = None,
      rc_cached_pps = None, rc_socket_fd = 5, rc_state = RTMP_CLIENT_STATE_PUBLISHING,
      rc_ssl_context = False, rc_thread_running = True, rc_chunk_size_out = 3,
      rc_window_ack_size = 2500000, rc_stream_id = 0x3FF0000000000000, rc_bytes_received = 0,
      rc_last_ack_sent = 0, rc_c1_s1_data = [], rc_c2_s2_data = [], rc_bytes_sent = 0,
      rc_frames_sent = 0, rc_connected_time = 0, rc_last_frame_time = 0, rc_retry_count = 0,
      rc_io = \<lparr>rx = [], tx_plan = [1, 5], tx = [9]\<rparr>, rc_ssl_errors = [], rc_would_block = [],
      rc_ssl_live = 0, rc_closed_fds = []\<rparr>"

lemma sample_client_send:
  "rtmp_client_send_chunked_message sample_client 6 9 7 [1, 2, 3, 4, 5] =
     Some (0, sample_client\<lparr>rc_io := \<lparr>rx = [], tx_plan = [],
       tx = [9, 6, 0, 0, 7, 0, 0, 5, 9, 1, 0, 0, 0, 1, 2, 3, 0xC6, 4, 5]\<rparr>\<rparr>)"
  by code_simp

theorem client_message_received_witness:
  "receive_message 3 [6, 0, 0, 7, 0, 0, 5, 9, 1, 0, 0, 0, 1, 2, 3, 0xC6, 4, 5, 77] =
     Some (\<lparr>fmt = 0, chunk_stream_id = 6, timestamp = 7, message_length = 5, message_type_id = 9,
            message_stream_id = 1\<rparr>, [1, 2, 3, 4, 5], [77])"
proof -
  have "tx_ok (rc_io sample_client)" "0 < rc_chunk_size_out sample_client"
    "unat (rc_chunk_size_out sample_client) = 3" "tx (rc_io sample_client) = [9]"
    "double_to_u32 (rc_stream_id sample_client) = 1"
    by (simp_all add: sample_client_def tx_ok_def double_to_u32_def mask_eq_exp_minus_1)
  with client_message_received [of sample_client 6 "[1, 2, 3, 4, 5]" 7 9 "[77]"] obtain s wire where
    s: "rtmp_client_send_chunked_message sample_client 6 9 7 [1, 2, 3, 4, 5] =
        Some (0, sample_client\<lparr>rc_io := s\<rparr>)" "tx s = [9] @ wire" and
    r: "receive_message 3 (wire @ [77]) =
      Some (\<lparr>fmt = 0, chunk_stream_id = 6, timestamp = 7 AND mask 24, message_length = 5, message_type_id = 9,
            message_stream_id = 1\<rparr>, [1, 2, 3, 4, 5], [77])"
    by (auto simp: mask_eq_exp_minus_1)
  have "s = \<lparr>rx = [], tx_plan = [],
       tx = [9, 6, 0, 0, 7, 0, 0, 5, 9, 1, 0, 0, 0, 1, 2, 3, 0xC6, 4, 5]\<rparr>"
    using s(1) unfolding sample_client_send by (simp add: sample_client_def)
  with s(2) have "wire = [6, 0, 0, 7, 0, 0, 5, 9, 1, 0, 0, 0, 1, 2, 3, 0xC6, 4, 5]" by simp
  from r [unfolded this] show ?thesis by (simp add: mask_eq_exp_minus_1)
qed

theorem client_message_at_server_witness:
  "\<exists>lasts1 r1 m. rtmp_chunk_read (\<lambda>n. n < 100) (replicate 64 zero_header)
      (sample_reader\<lparr>chunk_size_in := 3,
         socket := \<lparr>rx = [RxData [6, 0, 0, 7, 0, 0, 5, 9, 1, 0], RxData [0, 0, 1, 2, 3, 0xC6, 4, 5]],
                    tx_plan = [], tx = []\<rparr>\<rparr>) zero_message = (2, m, lasts1, r1) \<and>
     payload m = Some [1, 2, 3]"
proof -
  let ?r = "sample_reader\<lparr>chunk_size_in := 3,
         socket := \<lparr>rx = [RxData [6, 0, 0, 7, 0, 0, 5, 9, 1, 0], RxData [0, 0, 1, 2, 3, 0xC6, 4, 5]],
                    tx_plan = [], tx = []\<rparr>\<rparr>"
  have "tx_ok (rc_io sample_client)" "0 < rc_chunk_size_out sample_client"
    "rc_chunk_size_out sample_client = 3" "tx (rc_io sample_client) = [9]"
    by (simp_all add: sample_client_def tx_ok_def)
  with client_message_at_server [OF _ _ _ _ _ _ _ _ _ sample_client_send, of ?r "\<lambda>n. n < 100"
      "replicate 64 zero_header" zero_message]
  show ?thesis by (auto simp: pending_def)
qed

theorem client_send_returns_witness:
  "(\<exists>r c1. rtmp_client_send_chunked_message sample_client 6 9 7 [1] = Some (r, c1) \<and> rx_load c1 \<le> rx_load sample_client) \<and>
   rtmp_client_send_chunked_message (sample_client\<lparr>rc_chunk_size_out := 0\<rparr>) 6 9 7 [1] = None"
  using client_send_returns [of 6 "[1]" sample_client 9 7]
    client_send_returns [of 6 "[1]" "sample_client\<lparr>rc_chunk_size_out := 0\<rparr>" 9 7]
  by (auto simp: sample_client_def tx_ok_def)

end
