(* ===== verification/RtmpClientSession.thy ===== *)
theory RtmpClientSession
  imports RtmpClient
begin

text \<open>
  Opening a publishing session of the RTMP client (\<open>rtmp_client.c\<close>): handshake, the AMF0 encoders with
  their fixed buffers, the commands connect, createStream and publish, and the URL.
\<close>

section \<open>Handshake\<close>

text \<open>\<open>if (write(...) != n) return -1;\<close> and the same for reading.\<close>

definition client_write_or ::
  "bytes \<Rightarrow> rtmp_client_connection \<Rightarrow> (rtmp_client_connection \<Rightarrow> (c_int \<times> rtmp_client_connection) option) \<Rightarrow>
     (c_int \<times> rtmp_client_connection) option" where
  "client_write_or bs c k = do {
     (r, c1) \<leftarrow> rtmp_client_connection_write_bytes c bs;
     if r \<noteq> int (length bs) then Some (-1, c1) else k c1
   }"

definition client_read_or ::
  "nat \<Rightarrow> rtmp_client_connection \<Rightarrow>
     (bytes \<Rightarrow> rtmp_client_connection \<Rightarrow> (c_int \<times> rtmp_client_connection) option) \<Rightarrow>
     (c_int \<times> rtmp_client_connection) option" where
  "client_read_or n c k = do {
     (r, bs, c1) \<leftarrow> rtmp_client_connection_read_bytes n c;
     if r \<noteq> int n then Some (-1, c1) else k bs c1
   }"

text \<open>
  \<open>now\<close> is the time, \<open>rn\<close> the bytes from \<open>rand()\<close>; the block has the layout of the server's. When
  reading S2 fails, \<open>c2_s2_data\<close> is left as it was: nothing reads it.
\<close>

definition rtmp_client_handshake_process ::
  "u32 \<Rightarrow> bytes \<Rightarrow> rtmp_client_connection \<Rightarrow> (c_int \<times> rtmp_client_connection) option" where
  "rtmp_client_handshake_process now rn c =
     client_write_or [3] c (\<lambda>c.
     client_write_or (s1_block now rn) (c\<lparr>rc_state := RTMP_CLIENT_STATE_HANDSHAKE_C0_SENT\<rparr>) (\<lambda>c.
     client_read_or 1 (c\<lparr>rc_c1_s1_data := s1_block now rn, rc_state := RTMP_CLIENT_STATE_HANDSHAKE_C1_SENT\<rparr>)
       (\<lambda>s0 c.
     if s0 ! 0 \<noteq> 3 then Some (-1, c)
     else
     client_read_or RTMP_HANDSHAKE_SIZE c (\<lambda>s1 c.
     client_read_or RTMP_HANDSHAKE_SIZE c (\<lambda>s2 c.
     client_write_or s1 (c\<lparr>rc_c2_s2_data := s2\<rparr>) (\<lambda>c.
     Some (0, c\<lparr>rc_state := RTMP_CLIENT_STATE_HANDSHAKE_DONE\<rparr>)))))))"

section \<open>AMF0 into a fixed buffer\<close>

text \<open>
  The encoders append to the first \<open>pos\<close> bytes of a buffer of \<open>cap\<close> bytes, here the bytes so far; the result
  -1 is \<open>None\<close>. \<open>strlen\<close> is truncated to 16 bits.
\<close>

definition rtmp_client_encode_string :: "nat \<Rightarrow> bytes option \<Rightarrow> bytes \<Rightarrow> bytes option" where
  "rtmp_client_encode_string cap str buf =
     (case str of
        None \<Rightarrow> if cap < length buf + 1 then None else Some (buf @ [5])
      | Some s \<Rightarrow>
          (let len = (word_of_nat (length s) :: u16) in
           if cap < length buf + 3 + unat len then None
           else Some (buf @ [2] @ be16 len @ take (unat len) s)))"

definition rtmp_client_encode_number :: "nat \<Rightarrow> u64 \<Rightarrow> bytes \<Rightarrow> bytes option" where
  "rtmp_client_encode_number cap w buf =
     (if cap < length buf + 9 then None else Some (buf @ [0] @ be64 w))"

definition rtmp_client_encode_object_start :: "nat \<Rightarrow> bytes \<Rightarrow> bytes option" where
  "rtmp_client_encode_object_start cap buf = (if cap < length buf + 1 then None else Some (buf @ [3]))"

definition rtmp_client_encode_object_property :: "nat \<Rightarrow> bytes \<Rightarrow> amf_value \<Rightarrow> bytes \<Rightarrow> bytes option" where
  "rtmp_client_encode_object_property cap nm v buf =
     (let len = (word_of_nat (length nm) :: u16) in
      if cap < length buf + 2 + unat len then None
      else
        (let buf1 = buf @ be16 len @ take (unat len) nm in
         case v of
           AmfString s \<Rightarrow> rtmp_client_encode_string cap (Some s) buf1
         | AmfNumber w \<Rightarrow> rtmp_client_encode_number cap w buf1
         | AmfBoolean b \<Rightarrow> if cap < length buf1 + 2 then None else Some (buf1 @ [1, if b then 1 else 0])
         | _ \<Rightarrow> None))"

definition rtmp_client_encode_object_end :: "nat \<Rightarrow> bytes \<Rightarrow> bytes option" where
  "rtmp_client_encode_object_end cap buf = (if cap < length buf + 3 then None else Some (buf @ [0, 0, 9]))"

definition encode_null :: "nat \<Rightarrow> bytes \<Rightarrow> bytes option" where
  "encode_null cap buf = (if cap < length buf + 1 then None else Some (buf @ [5]))"

section \<open>Commands\<close>

text \<open>One chunk with a type 0 header and timestamp 0, whatever the chunk size.\<close>

definition rtmp_client_write_chunk ::
  "rtmp_client_connection \<Rightarrow> u8 \<Rightarrow> u8 \<Rightarrow> u32 \<Rightarrow> bytes \<Rightarrow> (c_int \<times> rtmp_client_connection) option" where
  "rtmp_client_write_chunk c cs ty sid data =
     client_write_or [cs] c (\<lambda>c.
     client_write_or (be24 0 @ be24 (word_of_nat (length data)) @ [ty] @ le32 sid) c (\<lambda>c.
     client_write_or data c (\<lambda>c. Some (0, c))))"

text \<open>The patterns of 1.0 and 2.0.\<close>

definition double_1 :: u64 where "double_1 = 0x3FF0000000000000"
definition double_2 :: u64 where "double_2 = 0x4000000000000000"

definition tc_url :: "rtmp_client_connection \<Rightarrow> string" where
  "tc_url c = fit 512 (''rtmp://'' @ rc_host c @ '':'' @ decimal_int (rc_port c) @ ''/'' @ rc_app c)"

definition connect_payload :: "rtmp_client_connection \<Rightarrow> bytes option" where
  "connect_payload c = do {
     b \<leftarrow> rtmp_client_encode_string 1024 (Some (ascii ''connect'')) [];
     b \<leftarrow> rtmp_client_encode_number 1024 double_1 b;
     b \<leftarrow> rtmp_client_encode_object_start 1024 b;
     b \<leftarrow> rtmp_client_encode_object_property 1024 (ascii ''app'') (AmfString (ascii (rc_app c))) b;
     b \<leftarrow> rtmp_client_encode_object_property 1024 (ascii ''type'') (AmfString (ascii ''nonprivate'')) b;
     b \<leftarrow> rtmp_client_encode_object_property 1024 (ascii ''flashVer'') (AmfString (ascii ''FMLE/3.0'')) b;
     b \<leftarrow> rtmp_client_encode_object_property 1024 (ascii ''tcUrl'') (AmfString (ascii (tc_url c))) b;
     rtmp_client_encode_object_end 1024 b
   }"

definition rtmp_client_connect ::
  "rtmp_client_connection \<Rightarrow> (c_int \<times> rtmp_client_connection) option" where
  "rtmp_client_connect c =
     (case connect_payload c of
        None \<Rightarrow> Some (-1, c)
      | Some d \<Rightarrow> do {
          (r, c1) \<leftarrow> rtmp_client_write_chunk c 3 20 0 d;
          if r \<noteq> 0 then Some (-1, c1)
          else do {
            (n, bs, c2) \<leftarrow> rtmp_client_connection_read_available 2048 c1;
            if n < 0 then Some (-1, c2)
            else Some (0, c2\<lparr>rc_state := RTMP_CLIENT_STATE_CONNECTED\<rparr>)
          }
        })"

definition create_stream_payload :: "bytes option" where
  "create_stream_payload = do {
     b \<leftarrow> rtmp_client_encode_string 256 (Some (ascii ''createStream'')) [];
     b \<leftarrow> rtmp_client_encode_number 256 double_2 b;
     encode_null 256 b
   }"

text \<open>
  The stream id is taken from the eight bytes behind the last zero byte that has eight bytes behind it,
  as if that byte were the marker of a number.
\<close>

definition last_number_pos :: "bytes \<Rightarrow> nat option" where
  "last_number_pos bs = find (\<lambda>i. bs ! i = 0) (rev [0..<length bs - 8])"

definition extract_stream_id :: "bytes \<Rightarrow> u64" where
  "extract_stream_id bs =
     (if 20 \<le> length bs then
        (case last_number_pos bs of
           None \<Rightarrow> double_1
         | Some i \<Rightarrow>
             (let v = de64 (drop (i + 1) bs) in if double_below_1000 v then v else double_1))
      else double_1)"

definition rtmp_client_create_stream ::
  "rtmp_client_connection \<Rightarrow> (c_int \<times> rtmp_client_connection) option" where
  "rtmp_client_create_stream c =
     (case create_stream_payload of
        None \<Rightarrow> Some (-1, c)
      | Some d \<Rightarrow> do {
          (r, c1) \<leftarrow> rtmp_client_write_chunk c 3 20 0 d;
          if r \<noteq> 0 then Some (-1, c1)
          else do {
            (n, bs, c2) \<leftarrow> rtmp_client_connection_read_available 2048 c1;
            if n < 0 then Some (-1, c2)
            else Some (0, c2\<lparr>rc_stream_id := if n = 0 then double_1 else extract_stream_id bs,
                             rc_state := RTMP_CLIENT_STATE_STREAM_CREATED\<rparr>)
          }
        })"

definition publish_name :: "rtmp_client_connection \<Rightarrow> string" where
  "publish_name c = (if rc_stream c \<noteq> [] then rc_stream c else rc_stream_key c)"

definition publish_payload :: "string \<Rightarrow> bytes option" where
  "publish_payload nm = do {
     b \<leftarrow> rtmp_client_encode_string 512 (Some (ascii ''publish'')) [];
     b \<leftarrow> rtmp_client_encode_number 512 0 b;
     b \<leftarrow> encode_null 512 b;
     b \<leftarrow> rtmp_client_encode_string 512 (Some (ascii nm)) b;
     rtmp_client_encode_string 512 (Some (ascii ''live'')) b
   }"

text \<open>The answer is only logged; without one the client looks a second time.\<close>

definition rtmp_client_publish ::
  "rtmp_client_connection \<Rightarrow> (c_int \<times> rtmp_client_connection) option" where
  "rtmp_client_publish c =
     (if publish_name c = [] then Some (-1, c)
      else
        (case publish_payload (publish_name c) of
           None \<Rightarrow> Some (-1, c)
         | Some d \<Rightarrow> do {
             (r, c1) \<leftarrow> rtmp_client_write_chunk c 8 20 (double_to_u32 (rc_stream_id c)) d;
             if r \<noteq> 0 then Some (-1, c1)
             else do {
               (n, bs, c2) \<leftarrow> rtmp_client_connection_read_available 2048 c1;
               if n < 0 then Some (-1, c2)
               else if n = 0 then do {
                 (m, bs', c3) \<leftarrow> rtmp_client_connection_read_available 2048 c2;
                 Some (0, c3)
               }
               else Some (0, c2)
             }
           }))"

section \<open>URL\<close>

text \<open>\<open>UrlOverflow\<close>: a part is copied into a buffer of 256 bytes that is too small for it.\<close>

datatype url_result = UrlError | UrlOverflow | Url string c_int string string bool

definition url_parts :: "bool \<Rightarrow> string \<Rightarrow> string \<Rightarrow> url_result" where
  "url_parts tls host_port path =
     (let (h, p) = (case strchr host_port CHR '':'' of
                      Some i \<Rightarrow> (take i host_port, atoi (drop (i + 1) host_port))
                    | None \<Rightarrow> (host_port, if tls then 443 else 1935));
          (a, st) = (case strchr path CHR ''/'' of
                       Some i \<Rightarrow> (take i path, drop (i + 1) path)
                     | None \<Rightarrow> (path, []))
      in if 256 \<le> length a \<or> 256 \<le> length st then UrlOverflow else Url h p a st tls)"

definition rtmp_client_parse_url :: "string \<Rightarrow> url_result" where
  "rtmp_client_parse_url url =
     (let go = (\<lambda>tls part.
          case strchr part CHR ''/'' of
            None \<Rightarrow> UrlError
          | Some n \<Rightarrow> if 256 \<le> n then UrlOverflow
                      else url_parts tls (take n part) (drop (n + 1) part))
      in if starts_with ''rtmp://'' url then go False (drop 7 url)
         else if starts_with ''rtmps://'' url then go True (drop 8 url)
         else UrlError)"

section \<open>What the commands say\<close>

named_theorems encode "an encoder whose output fits appends the format of the value"

lemma encode_string [encode]:
  "length s < 65536 \<Longrightarrow> length buf + 3 + length s \<le> cap \<Longrightarrow>
     rtmp_client_encode_string cap (Some s) buf = Some (buf @ amf_bytes (AmfString s))"
  by (simp add: rtmp_client_encode_string_def Let_def u16_length)

lemma encode_number [encode]:
  "length buf + 9 \<le> cap \<Longrightarrow> rtmp_client_encode_number cap w buf = Some (buf @ amf_bytes (AmfNumber w))"
  by (simp add: rtmp_client_encode_number_def)

lemma encode_null_bytes [encode]: "length buf + 1 \<le> cap \<Longrightarrow> encode_null cap buf = Some (buf @ amf_bytes AmfNull)"
  by (simp add: encode_null_def)

lemma encode_object_start [encode]:
  "length buf + 1 \<le> cap \<Longrightarrow> rtmp_client_encode_object_start cap buf = Some (buf @ [3])"
  by (simp add: rtmp_client_encode_object_start_def)

lemma encode_object_end [encode]:
  "length buf + 3 \<le> cap \<Longrightarrow> rtmp_client_encode_object_end cap buf = Some (buf @ [0, 0, 9])"
  by (simp add: rtmp_client_encode_object_end_def)

lemma encode_property [encode]:
  "length nm < 65536 \<Longrightarrow> length s < 65536 \<Longrightarrow> length buf + 5 + length nm + length s \<le> cap \<Longrightarrow>
     rtmp_client_encode_object_property cap nm (AmfString s) buf =
       Some (buf @ be16 (word_of_nat (length nm)) @ nm @ amf_bytes (AmfString s))"
  by (simp add: rtmp_client_encode_object_property_def Let_def u16_length encode_string)

text \<open>A command as the peer parses it.\<close>

definition connect_command :: "rtmp_client_connection \<Rightarrow> rtmp_command" where
  "connect_command c =
     \<lparr>command_name = Some (ascii ''connect''), transaction_id = double_1,
      command_object = AmfObject
        [(ascii ''app'', AmfString (ascii (rc_app c))),
         (ascii ''type'', AmfString (ascii ''nonprivate'')),
         (ascii ''flashVer'', AmfString (ascii ''FMLE/3.0'')),
         (ascii ''tcUrl'', AmfString (ascii (tc_url c)))],
      arguments = []\<rparr>"

definition create_stream_command :: rtmp_command where
  "create_stream_command =
     \<lparr>command_name = Some (ascii ''createStream''), transaction_id = double_2, command_object = AmfNull,
      arguments = []\<rparr>"

definition publish_command :: "string \<Rightarrow> rtmp_command" where
  "publish_command nm =
     \<lparr>command_name = Some (ascii ''publish''), transaction_id = 0, command_object = AmfNull,
      arguments = [AmfString (ascii nm), AmfString (ascii ''live'')]\<rparr>"

definition command_bytes :: "rtmp_command \<Rightarrow> bytes" where
  "command_bytes cmd =
     amf_bytes (AmfString (the (command_name cmd))) @ amf_bytes (AmfNumber (transaction_id cmd)) @
     amf_bytes (command_object cmd) @ concat (map amf_bytes (arguments cmd))"

lemma length_ascii [simp]: "length (ascii s) = length s"
  by (simp add: ascii_def)

lemma tc_url_length: "length (tc_url c) \<le> 511"
  by (simp add: tc_url_def fit_def)

lemma connect_payload_bytes:
  assumes "length (rc_app c) < 256"
  shows "connect_payload c = Some (command_bytes (connect_command c))"
  using assms tc_url_length [of c]
  by (simp add: connect_payload_def encode command_bytes_def connect_command_def)

lemma create_stream_payload_bytes: "create_stream_payload = Some (command_bytes create_stream_command)"
  by (simp add: create_stream_payload_def encode command_bytes_def create_stream_command_def)

lemma publish_payload_bytes:
  assumes "length nm < 256"
  shows "publish_payload nm = Some (command_bytes (publish_command nm))"
  using assms by (simp add: publish_payload_def encode command_bytes_def publish_command_def)

lemma parse_command_bytes:
  assumes "command_name cmd = Some name" and "length name < 65536" and "0 \<notin> set name"
    and "amf_wf (command_object cmd)" and "list_all amf_wf (arguments cmd)"
  shows "rtmp_command_parse (\<lambda>n. True) True (command_bytes cmd) = Some cmd"
  using rtmp_command_parse_bytes [OF assms(2-5), of "transaction_id cmd"] assms(1)
  by (cases cmd) (simp add: command_bytes_def)

section \<open>What goes over the wire\<close>

lemma client_write_or_ok [wire]:
  "tx_ok (rc_io c) \<Longrightarrow> bs \<noteq> [] \<Longrightarrow> client_write_or bs c k = k (c\<lparr>rc_io := after_write (rc_io c) bs\<rparr>)"
  by (simp add: client_write_or_def rtmp_client_connection_write_bytes_def connection_write_ok)

lemma write_chunk_ok:
  assumes "tx_ok (rc_io c)" and "data \<noteq> []"
  shows "\<exists>s. rtmp_client_write_chunk c cs ty sid data = Some (0, c\<lparr>rc_io := s\<rparr>) \<and> tx_ok s \<and> rx s = rx (rc_io c) \<and>
    tx s = tx (rc_io c) @ [cs] @ be24 0 @ be24 (word_of_nat (length data)) @ [ty] @ le32 sid @ data"
proof -
  let ?h = "be24 0 @ be24 (word_of_nat (length data)) @ [ty] @ le32 sid"
  have "?h \<noteq> []" by simp
  with assms show ?thesis
    by (intro exI [of _ "after_write (after_write (after_write (rc_io c) [cs]) ?h) data"])
      (simp add: rtmp_client_write_chunk_def client_write_or_ok rtmp_write_bytes_ok)
qed

text \<open>
  Reading before the connection is open: the bytes are counted, no acknowledgement is due. The loop over
  \<open>SSL_read\<close> takes them as the one over \<open>recv\<close> does.
\<close>

lemma read_ok:
  assumes "n \<le> length (pending (rc_io c))" and "0 < n"
  shows "(if rc_use_tls c then rtmp_client_tls_read_bytes n c else rtmp_client_read_bytes n c) =
    (int n, take n (pending (rc_io c)), c\<lparr>rc_io := after_read (rc_io c) n\<rparr>)"
proof -
  note rd = rtmp_read_bytes_enough(1) [OF assms(1)]
  obtain r got es where l: "read_loop (rx (rc_io c)) n [] = (r, got, es)" by (metis prod_cases3)
  with rd have "r = int n" "got = take n (pending (rc_io c))" "after_read (rc_io c) n = (rc_io c)\<lparr>rx := es\<rparr>"
    by (auto simp: rtmp_read_bytes_def after_read_def)
  with l rd assms(2) show ?thesis
    by (auto simp: rtmp_client_read_bytes_def rtmp_client_tls_read_bytes_def)
qed

definition after_receive :: "rtmp_client_connection \<Rightarrow> nat \<Rightarrow> rtmp_client_connection" where
  "after_receive c n =
     c\<lparr>rc_io := after_read (rc_io c) n, rc_bytes_received := rc_bytes_received c + word_of_nat n\<rparr>"

lemma client_read_or_ok [wire]:
  assumes "n \<le> length (pending (rc_io c))" and "0 < n" and "state_rank (rc_state c) < 6"
  shows "client_read_or n c k = k (take n (pending (rc_io c))) (after_receive c n)"
  using assms read_ok [OF assms(1,2)]
  by (simp add: client_read_or_def rtmp_client_connection_read_bytes_def connection_read_bytes_with_def
      count_received_with_def check_and_send_ack_with_def send_acknowledgement_with_def after_receive_def)

lemma after_receive_frame [simp]:
  "rc_state (after_receive c n) = rc_state c" "rc_io (after_receive c n) = after_read (rc_io c) n"
  "rc_use_tls (after_receive c n) = rc_use_tls c"
  by (simp_all add: after_receive_def)

lemma after_read_load:
  assumes "n \<le> length (pending s)"
  shows "script_load (rx (after_read s n)) + n \<le> script_load (rx s)"
proof -
  obtain r got es where l: "read_loop (rx s) n [] = (r, got, es)" by (metis prod_cases3)
  with rtmp_read_bytes_enough(1) [OF assms] assms have "length got = n" "rx (after_read s n) = es"
    by (auto simp: rtmp_read_bytes_def after_read_def)
  with read_loop_load [OF l] show ?thesis by simp
qed

lemma handshake_ok:
  assumes "tx_ok (rc_io c)" and "pending (rc_io c) = [3] @ s1 @ s2 @ rest"
    and "length s1 = 1536" and "length s2 = 1536" and "length rn \<ge> 1528"
  shows "\<exists>s. rtmp_client_handshake_process now rn c =
      Some (0, c\<lparr>rc_c1_s1_data := s1_block now rn, rc_c2_s2_data := s2, rc_bytes_received := rc_bytes_received c + 3073,
                 rc_state := RTMP_CLIENT_STATE_HANDSHAKE_DONE, rc_io := s\<rparr>) \<and>
    tx s = tx (rc_io c) @ [3] @ s1_block now rn @ s1 \<and> pending s = rest \<and> tx_ok s \<and>
    script_load (rx s) + 3073 \<le> script_load (rx (rc_io c))"
proof -
  have ne: "s1_block now rn \<noteq> []" by (simp add: s1_block_def)
  have s1: "s1 \<noteq> []" using assms(3) by auto
  let ?w = "after_write (after_write (rc_io c) [3]) (s1_block now rn)"
  have w: "tx_ok ?w" "pending ?w = [3] @ s1 @ s2 @ rest" "tx ?w = tx (rc_io c) @ [3] @ s1_block now rn"
    using assms(1,2) by (simp_all add: rtmp_write_bytes_ok)
  let ?r1 = "after_read ?w 1" let ?r2 = "after_read ?r1 1536" let ?r3 = "after_read ?r2 1536"
  have r1: "pending ?r1 = s1 @ s2 @ rest" using rtmp_read_bytes_enough(2) [of 1 ?w] w by simp
  have r2: "pending ?r2 = s2 @ rest" using rtmp_read_bytes_enough(2) [of 1536 ?r1] r1 assms(3) by simp
  have r3: "pending ?r3 = rest" using rtmp_read_bytes_enough(2) [of 1536 ?r2] r2 assms(4) by simp
  have r: "length (pending ?w) \<ge> 1" "length (pending ?r1) \<ge> 1536" "length (pending ?r2) \<ge> 1536"
    "take 1 (pending ?w) ! 0 = 3" "take 1536 (pending ?r1) = s1" "take 1536 (pending ?r2) = s2"
    "pending (after_write ?r3 s1) = rest"
    using w r1 r2 r3 assms(3,4) by simp_all
  have "script_load (rx ?r3) + 3073 \<le> script_load (rx (rc_io c))"
    using after_read_load [OF r(1)] after_read_load [OF r(2)] after_read_load [OF r(3)] by simp
  then show ?thesis
    using assms(1) w(1,3) r ne s1
    by (intro exI [of _ "after_write ?r3 s1"])
      (simp add: rtmp_client_handshake_process_def client_write_or_ok client_read_or_ok
        RTMP_HANDSHAKE_SIZE_def rtmp_write_bytes_ok after_receive_def del: after_write_frame(2))
qed

section \<open>Properties\<close>

text \<open>
  C22. The client's handshake against the server's: each side sends what the other expects, both reach the
  state after the handshake, and the client gets its own block back.
\<close>

theorem client_server_handshake:
  assumes "tx_ok (rc_io c)" and "tx_ok (socket r)" and "tx (rc_io c) = []" and "tx (socket r) = []"
    and "length rn \<ge> 1528" and "length rs \<ge> 1528"
    and "pending (rc_io c) = [3] @ s1_block t rs @ s1_block now rn"
    and "pending (socket r) = [3] @ s1_block now rn @ s1_block t rs"
  shows "\<exists>c1 r1. rtmp_client_handshake_process now rn c = Some (0, c1) \<and>
    rtmp_handshake_process t rs r = (0, r1) \<and>
    tx (rc_io c1) = pending (socket r) \<and> tx (socket r1) = pending (rc_io c) \<and>
    rc_state c1 = RTMP_CLIENT_STATE_HANDSHAKE_DONE \<and> conn_state r1 = RTMP_STATE_HANDSHAKE_DONE \<and>
    rc_c2_s2_data c1 = rc_c1_s1_data c1"
proof -
  have len: "length (s1_block now rn) = 1536" "length (s1_block t rs) = 1536"
    using assms(5,6) by (simp_all add: s1_block_def RTMP_HANDSHAKE_SIZE_def)
  have s1: "s1_block t rs = be32 t @ [0, 0, 0, 0] @ take 1528 rs" by (simp add: s1_block_def RTMP_HANDSHAKE_SIZE_def)
  have p: "pending (rc_io c) = [3] @ s1_block t rs @ s1_block now rn @ []"
    "pending (socket r) = [3] @ s1_block now rn @ s1_block t rs @ []" using assms(7,8) by simp_all
  from handshake_ok [OF assms(1) p(1) len(2,1) assms(5), of now]
  obtain s where cl: "rtmp_client_handshake_process now rn c =
      Some (0, c\<lparr>rc_c1_s1_data := s1_block now rn, rc_c2_s2_data := s1_block now rn, rc_bytes_received := rc_bytes_received c + 3073,
                 rc_state := RTMP_CLIENT_STATE_HANDSHAKE_DONE, rc_io := s\<rparr>)"
    "tx s = [3] @ s1_block now rn @ s1_block t rs" using assms(3) by auto
  have "\<exists>s'. rtmp_handshake_process t rs r =
      (0, r\<lparr>c0_s0_version := 3, c1_s1_data := s1_block now rn, c2_s2_data := s1_block t rs,
               conn_state := RTMP_STATE_HANDSHAKE_DONE, socket := s'\<rparr>) \<and>
    tx s' = [3] @ s1_block t rs @ s1_block now rn"
    using server_handshake [OF assms(2) p(2) len(1,2) assms(6), of t] assms(4) s1 by auto
  with cl assms(7,8) show ?thesis by auto
qed

text \<open>
  The payloads of connect, createStream and publish fit the client's buffers whenever the parts of the URL
  fit theirs, and the server's parser reads each back as exactly the command the client meant, with the
  application name where the server looks for it.
\<close>

theorem client_commands_understood:
  assumes "length (rc_app c) < 256" and "length nm < 256"
  shows "map_option (rtmp_command_parse (\<lambda>n. True) True) (connect_payload c) = Some (Some (connect_command c)) \<and>
    map_option (rtmp_command_parse (\<lambda>n. True) True) create_stream_payload = Some (Some create_stream_command) \<and>
    map_option (rtmp_command_parse (\<lambda>n. True) True) (publish_payload nm) = Some (Some (publish_command nm)) \<and>
    app_name (connect_app (command_object (connect_command c)) conn) = copy255 (ascii (rc_app c)) \<and>
    stream_argument (publish_command nm) = Some (ascii nm)"
proof (intro conjI)
  have n: "0 \<notin> set (ascii ''connect'')" "0 \<notin> set (ascii ''createStream'')" "0 \<notin> set (ascii ''publish'')"
    by code_simp+
  show "map_option (rtmp_command_parse (\<lambda>n. True) True) (connect_payload c) = Some (Some (connect_command c))"
    using parse_command_bytes [of "connect_command c"] assms tc_url_length [of c] n
    by (simp add: connect_payload_bytes) (simp add: connect_command_def)
  show "map_option (rtmp_command_parse (\<lambda>n. True) True) create_stream_payload = Some (Some create_stream_command)"
    using parse_command_bytes [of create_stream_command] n
    by (simp add: create_stream_payload_bytes) (simp add: create_stream_command_def)
  show "map_option (rtmp_command_parse (\<lambda>n. True) True) (publish_payload nm) = Some (Some (publish_command nm))"
    using parse_command_bytes [of "publish_command nm"] assms n
    by (simp add: publish_payload_bytes) (simp add: publish_command_def)
  have "c_str (ascii ''app'') = ascii ''app''" by code_simp
  then show "app_name (connect_app (command_object (connect_command c)) conn) = copy255 (ascii (rc_app c))"
    by (simp add: connect_command_def connect_app_def)
  show "stream_argument (publish_command nm) = Some (ascii nm)"
    by (simp add: publish_command_def stream_argument_def)
qed

text \<open>
  C21. A command the client writes is one chunk, and the server, if its incoming chunk size is not smaller, reads
  it as one complete command message on the same message stream and parses it into the command.
\<close>

theorem client_command_at_server:
  assumes "tx_ok (rc_io c)" and "2 \<le> cs" and "cs < 64"
    and "command_name cmd = Some name" and "length name < 65536" and "0 \<notin> set name"
    and "amf_wf (command_object cmd)" and "list_all amf_wf (arguments cmd)"
    and "length (command_bytes cmd) < 0x1000000"
    and "length (command_bytes cmd) \<le> unat (chunk_size_in r)"
    and "rtmp_client_write_chunk c cs 20 sid (command_bytes cmd) = Some (code, c1)"
    and "pending (socket r) = drop (length (tx (rc_io c))) (tx (rc_io c1)) @ rest"
  shows "code = 0 \<and>
    (\<exists>m lasts1 s. rtmp_chunk_read (\<lambda>n. True) lasts r m0 = (1, m, lasts1, r\<lparr>socket := s\<rparr>) \<and>
       message_type_id (header m) = 20 \<and> message_stream_id (header m) = sid \<and> pending s = rest \<and>
       map_option (rtmp_command_parse (\<lambda>n. True) True) (payload m) = Some (Some cmd))"
proof -
  let ?d = "command_bytes cmd"
  let ?h = "\<lparr>fmt = 0, chunk_stream_id = ucast cs, timestamp = 0, message_length = word_of_nat (length ?d),
    message_type_id = 20, message_stream_id = sid\<rparr>"
  have ne: "?d \<noteq> []" by (simp add: command_bytes_def)
  have cs: "2 \<le> chunk_stream_id ?h" "chunk_stream_id ?h < 65600" "chunk_stream_id ?h < 64"
    using assms(2,3) by (simp_all add: word_le_nat_alt word_less_nat_alt)
  have len: "unat (message_length ?h) = length ?d"
    using assms(9) by (simp add: unat_of_nat take_bit_nat_eq_self)
  then have lt: "message_length ?h < 0x1000000" using assms(9) by (simp add: word_less_nat_alt)
  have "(ucast (ucast cs :: u32) :: u8) = cs"
    by (rule bit_word_eqI) (auto simp: bit_simps)
  then have "header_bytes ?h 0 = [cs] @ be24 0 @ be24 (message_length ?h) @ [20] @ le32 sid"
    using cs(3) by (simp add: header_bytes_def basic_bytes_def msg_header_def ts_field_def)
  with write_chunk_ok [OF assms(1) ne, of cs 20 sid] assms(11,12)
  have code: "code = 0" and p: "pending (socket r) = header_bytes ?h 0 @ ?d @ rest" by auto
  have blk: "length ?d = min (unat (chunk_size_in r)) (unat (message_length ?h))"
    using len assms(10) by simp
  from rtmp_chunk_read_type0 [where mok = "\<lambda>n. True", OF p cs(1,2) lt blk TrueI, of lasts m0]
  show ?thesis using code parse_command_bytes [OF assms(4-8)] by auto
qed

lemma parse_scheme:
  assumes "CHR ''/'' \<notin> set hp" and "length hp < 256"
  shows "rtmp_client_parse_url ((if tls then ''rtmps://'' else ''rtmp://'') @ hp @ CHR ''/'' # path) =
    url_parts tls hp path"
  using assms strchr_append [of "CHR ''/''" hp path]
  by (cases tls) (simp_all add: rtmp_client_parse_url_def starts_with_def Let_def)

text \<open>
  A URL with scheme rtmp or rtmps, host, optional port, application and optional stream is taken
  apart into exactly these, the port defaulting to 1935 and 443.
\<close>

theorem client_url_roundtrip:
  assumes "CHR '':'' \<notin> set hst" and "CHR ''/'' \<notin> set hst" and "CHR ''/'' \<notin> set ap"
    and "length hst + length (decimal p) < 255" and "length ap < 256" and "length st < 256" and "p < 2 ^ 31"
  shows "rtmp_client_parse_url
      ((if tls then ''rtmps://'' else ''rtmp://'') @ hst @
       (if with_port then '':'' @ decimal p else []) @ ''/'' @ ap @ (if with_stream then ''/'' @ st else [])) =
    Url hst (if with_port then int p else if tls then 443 else 1935) ap (if with_stream then st else []) tls"
proof -
  let ?hp = "hst @ (if with_port then '':'' @ decimal p else [])"
  let ?path = "ap @ (if with_stream then ''/'' @ st else [])"
  have dig: "CHR ''/'' \<notin> set (decimal p)"
    using decimal_digits(1) [of p] by (auto simp: list_all_iff isdigit_def)
  have at: "atoi (decimal p) = int p"
    using scan_int_decimal(1) [of "[]" p] assms(7) by (simp add: atoi_def)
  have col: "strchr ?hp CHR '':'' = (if with_port then Some (length hst) else None)"
    using assms(1) strchr_append [of "CHR '':''" hst "decimal p"] by simp
  have sl: "strchr ?path CHR ''/'' = (if with_stream then Some (length ap) else None)"
    using assms(3) strchr_append [of "CHR ''/''" ap st] by simp
  have parts: "url_parts tls ?hp ?path =
      Url hst (if with_port then int p else if tls then 443 else 1935) ap (if with_stream then st else []) tls"
    using assms(5,6) at unfolding url_parts_def col sl by simp
  have ns: "CHR ''/'' \<notin> set ?hp" using assms(2) dig by auto
  have "length ?hp < 256" using assms(4) by simp
  from parse_scheme [OF ns this, of tls ?path] parts show ?thesis by (simp split del: if_split)
qed

text \<open>A peer that has said something and now waits: the loop over \<open>SSL_read\<close> ends with the time-out.\<close>

lemma read_loop_starved:
  "[] \<notin> set segs \<Longrightarrow> length got + length (concat segs) < n \<Longrightarrow>
     read_loop (map RxData segs @ RxError # later) n got = (-1, got @ concat segs, later)"
proof (induction segs arbitrary: got)
  case Nil
  then show ?case by (subst read_loop.simps) simp
next
  case (Cons b segs)
  then have "b \<noteq> []" "length b < n - length got" "length got < n" by auto
  moreover from this have "take (n - length got) b = b" by simp
  ultimately have "read_loop (map RxData (b # segs) @ RxError # later) n got =
      read_loop (map RxData segs @ RxError # later) n (got @ b)"
    by (subst read_loop.simps) simp
  with Cons show ?case by simp
qed

lemma count_received_early:
  "state_rank (rc_state c) < 6 \<Longrightarrow>
     count_received_with L r bs c = Some (r, bs, c\<lparr>rc_bytes_received := rc_bytes_received c + word_of_int r\<rparr>)"
  by (simp add: count_received_with_def check_and_send_ack_with_def send_acknowledgement_with_def)

lemma read_available_plain:
  assumes "\<not> rc_use_tls c" and "state_rank (rc_state c) < 6" and "rx (rc_io c) = RxData b # es" and "b \<noteq> []" and "0 < n"
  shows "\<exists>c1. rtmp_client_connection_read_available n c = Some (int (min n (length b)), take n b, c1)"
  using assms
  by (auto simp: rtmp_client_connection_read_available_def read_available_with_def recv_now_def
      count_received_early)

text \<open>
  Over TLS the read of an answer is not the non-blocking read it is over a plain socket: it waits
  for the whole buffer of 2048 bytes. To a server that answers connect with less and then waits for the next
  command, connect fails after the time-out, while with the same answer over a plain socket it succeeds.
\<close>

theorem rtmps_connect_starves:
  assumes "tx_ok (rc_io c)" and "length (rc_app c) < 256" and "rc_state c = RTMP_CLIENT_STATE_HANDSHAKE_DONE"
    and "rx (rc_io c) = map RxData segs @ RxError # later" and "[] \<notin> set segs" and "segs \<noteq> []"
    and "length (concat segs) < 2048"
  shows "(rc_use_tls c \<and> rc_ssl_context c \<longrightarrow> (\<exists>c1. rtmp_client_connect c = Some (-1, c1))) \<and>
    (\<not> rc_use_tls c \<longrightarrow> (\<exists>c1. rtmp_client_connect c = Some (0, c1) \<and> rc_state c1 = RTMP_CLIENT_STATE_CONNECTED))"
proof -
  let ?d = "command_bytes (connect_command c)"
  have "?d \<noteq> []" by (simp add: command_bytes_def)
  from write_chunk_ok [OF assms(1) this, of 3 20 0] obtain s where
    w: "rtmp_client_write_chunk c 3 20 0 ?d = Some (0, c\<lparr>rc_io := s\<rparr>)" and s: "rx s = rx (rc_io c)" by blast
  have tls: "rtmp_client_connection_read_available 2048 (c\<lparr>rc_io := s\<rparr>) = Some (-1, concat segs, c\<lparr>rc_io := s\<lparr>rx := later\<rparr>\<rparr>)"
    if "rc_use_tls c" "rc_ssl_context c"
    using that read_loop_starved [of segs "[]" 2048 later] assms(4,5,7) s
    by (simp add: rtmp_client_connection_read_available_def read_available_with_def rtmp_client_tls_read_bytes_def)
  obtain b rest where b: "segs = b # rest" "b \<noteq> []" using assms(5,6) by (cases segs) auto
  have plain: "\<exists>c1. rtmp_client_connection_read_available 2048 (c\<lparr>rc_io := s\<rparr>) = Some (int (min 2048 (length b)), take 2048 b, c1)"
    if "\<not> rc_use_tls c"
    using that b assms(3,4) s
    by (intro read_available_plain [where es = "map RxData rest @ RxError # later"]) simp_all
  show ?thesis
    using tls plain w by (auto simp: rtmp_client_connect_def connect_payload_bytes [OF assms(2)])
qed

text \<open>
  The stream id the client takes from an answer to createStream is the number the answer ends with,
  if it is a number between 0 and 1000; in particular the one the server of this program sends.
\<close>

lemma last_number_at_end:
  assumes "length (be64 v) = 8"
  shows "last_number_pos (pre @ [0] @ be64 v) = Some (length pre)"
proof -
  have "[0..<length (pre @ [0] @ be64 v) - 8] = [0..<length pre] @ [length pre]" by simp
  then show ?thesis by (simp add: last_number_pos_def nth_append)
qed

theorem client_stream_id:
  assumes "double_below_1000 v" and "20 \<le> length (pre @ [0] @ be64 v)"
  shows "extract_stream_id (pre @ [0] @ be64 v) = v"
  using assms last_number_at_end [of v pre] de64_be64 [of v "[]"]
  by (simp add: extract_stream_id_def)

section \<open>Examples\<close>

theorem client_server_handshake_witness:
  "\<exists>c1 r1. rtmp_client_handshake_process 7 (replicate 1528 2)
      (sample_client\<lparr>rc_io := \<lparr>rx = [RxData ([3] @ s1_block 5 (replicate 1528 1) @ s1_block 7 (replicate 1528 2))],
         tx_plan = [1, 700], tx = []\<rparr>\<rparr>) = Some (0, c1) \<and>
    rtmp_handshake_process 5 (replicate 1528 1)
      (fresh_connection \<lparr>rx = [RxData ([3] @ s1_block 7 (replicate 1528 2) @ s1_block 5 (replicate 1528 1))],
         tx_plan = [], tx = []\<rparr>) = (0, r1) \<and>
    rc_state c1 = RTMP_CLIENT_STATE_HANDSHAKE_DONE \<and> conn_state r1 = RTMP_STATE_HANDSHAKE_DONE"
  using client_server_handshake [of "sample_client\<lparr>rc_io := \<lparr>rx = [RxData ([3] @ s1_block 5 (replicate 1528 1) @
      s1_block 7 (replicate 1528 2))], tx_plan = [1, 700], tx = []\<rparr>\<rparr>"
      "fresh_connection \<lparr>rx = [RxData ([3] @ s1_block 7 (replicate 1528 2) @ s1_block 5 (replicate 1528 1))],
         tx_plan = [], tx = []\<rparr>" "replicate 1528 2" "replicate 1528 1" 5 7]
  by (auto simp: tx_ok_def fresh_connection_def pending_def)

theorem client_commands_understood_witness:
  "map_option (rtmp_command_parse (\<lambda>n. True) True) (connect_payload sample_client) =
     Some (Some (connect_command sample_client)) \<and>
   rc_app sample_client = ''live'' \<and>
   map_option (rtmp_command_parse (\<lambda>n. True) True) (publish_payload ''k1'') = Some (Some (publish_command ''k1''))"
  using client_commands_understood [of sample_client "''k1''" sample_conn] by (simp add: sample_client_def)

lemma sample_publish_write:
  "rtmp_client_write_chunk sample_client 8 20 1 (command_bytes (publish_command ''k1'')) =
     Some (0, sample_client\<lparr>rc_io := \<lparr>rx = [], tx_plan = [],
       tx = [9, 8, 0, 0, 0, 0, 0, 32, 20, 1, 0, 0, 0] @ command_bytes (publish_command ''k1'')\<rparr>\<rparr>)"
  by code_simp

theorem client_command_at_server_witness:
  "\<exists>m lasts1 s. rtmp_chunk_read (\<lambda>n. True) (replicate 64 zero_header)
      (fresh_connection \<lparr>rx = [RxData ([8, 0, 0, 0, 0, 0, 32, 20, 1, 0, 0, 0] @ command_bytes (publish_command ''k1'') @ [77])],
         tx_plan = [], tx = []\<rparr>) zero_message = (1, m, lasts1, fresh_connection s) \<and> pending s = [77] \<and>
     map_option (rtmp_command_parse (\<lambda>n. True) True) (payload m) = Some (Some (publish_command ''k1''))"
proof -
  let ?s = "\<lparr>rx = [RxData ([8, 0, 0, 0, 0, 0, 32, 20, 1, 0, 0, 0] @ command_bytes (publish_command ''k1'') @ [77])],
         tx_plan = [], tx = []\<rparr> :: sock"
  have l: "length (command_bytes (publish_command ''k1'')) = 32" by code_simp
  have p: "pending (socket (fresh_connection ?s)) = drop (length (tx (rc_io sample_client)))
      (tx (rc_io (sample_client\<lparr>rc_io := \<lparr>rx = [], tx_plan = [],
       tx = [9, 8, 0, 0, 0, 0, 0, 32, 20, 1, 0, 0, 0] @ command_bytes (publish_command ''k1'')\<rparr>\<rparr>))) @ [77]"
    by (simp add: fresh_connection_def pending_def sample_client_def)
  have "command_name (publish_command ''k1'') = Some (ascii ''publish'')" "0 \<notin> set (ascii ''publish'')"
    "command_object (publish_command ''k1'') = AmfNull"
    by code_simp+
  with client_command_at_server [OF _ _ _ _ _ _ _ _ _ _ sample_publish_write p, of "ascii ''publish''" "replicate 64 zero_header" zero_message] l
  show ?thesis
    by (auto simp: sample_client_def tx_ok_def publish_command_def fresh_connection_def)
qed

theorem client_url_roundtrip_witness:
  "rtmp_client_parse_url ''rtmp://h:1936/live/s'' = Url ''h'' 1936 ''live'' ''s'' False"
proof -
  have d: "decimal 1936 = ''1936''" by code_simp
  from client_url_roundtrip [of "''h''" "''live''" 1936 "''s''" False True True] show ?thesis
    by (simp add: d)
qed

theorem rtmps_connect_starves_witness:
  "(\<exists>c1. rtmp_client_connect (sample_client\<lparr>rc_use_tls := True, rc_ssl_context := True,
       rc_state := RTMP_CLIENT_STATE_HANDSHAKE_DONE,
       rc_io := \<lparr>rx = [RxData [2, 0], RxData [1], RxError], tx_plan = [], tx = []\<rparr>\<rparr>) = Some (-1, c1)) \<and>
   (\<exists>c1. rtmp_client_connect (sample_client\<lparr>rc_state := RTMP_CLIENT_STATE_HANDSHAKE_DONE,
       rc_io := \<lparr>rx = [RxData [2, 0], RxData [1], RxError], tx_plan = [], tx = []\<rparr>\<rparr>) = Some (0, c1))"
  using rtmps_connect_starves [of "sample_client\<lparr>rc_use_tls := True, rc_ssl_context := True,
       rc_state := RTMP_CLIENT_STATE_HANDSHAKE_DONE,
       rc_io := \<lparr>rx = [RxData [2, 0], RxData [1], RxError], tx_plan = [], tx = []\<rparr>\<rparr>" "[[2, 0], [1]]" "[]"]
    rtmps_connect_starves [of "sample_client\<lparr>rc_state := RTMP_CLIENT_STATE_HANDSHAKE_DONE,
       rc_io := \<lparr>rx = [RxData [2, 0], RxData [1], RxError], tx_plan = [], tx = []\<rparr>\<rparr>" "[[2, 0], [1]]" "[]"]
  by (auto simp: sample_client_def tx_ok_def)

theorem client_stream_id_witness:
  "extract_stream_id (replicate 12 1 @ [0] @ be64 0x4008000000000000) = 0x4008000000000000"
  using client_stream_id [of "0x4008000000000000" "replicate 12 1"] by (simp add: double_below_1000_def)

end
