(* ===== verification/RtmpClientMedia.thy ===== *)
theory RtmpClientMedia
  imports RtmpClientSession
begin

text \<open>
  Media of the RTMP client (\<open>rtmp_client.c\<close>): from an encoded frame to video messages, the AVC sequence
  header that has to come first, silent audio, and the distribution of a frame to all connections. \<open>None\<close> is a
  call that does not return, or undefined behaviour: a read behind the frame or the parameter sets. The
  lengths are \<open>uint32_t\<close> and \<open>size_t\<close> of 32 bits. Memory is a predicate \<open>mok\<close>.
\<close>

section \<open>Looking into a frame\<close>

text \<open>
  The static variable of \<open>rtmp_client_send_video_frame\<close>, which all connections share, and the number of
  times a key frame was requested from the encoder (recorded here only).
\<close>

record client_statics =
  last_audio_timestamp :: u32
  idr_requests :: nat

text \<open>The scan for NAL types behind four byte start codes; its bound \<open>frame_size - 4\<close> is unsigned.\<close>

definition found_nal :: "u8 \<Rightarrow> bytes \<Rightarrow> bool" where
  "found_nal t d \<longleftrightarrow> list_ex (\<lambda>i. start4 d i \<and> d ! (i + 4) AND 0x1F = t) [0..<length d - 4]"

definition client_is_keyframe :: "bytes \<Rightarrow> bool" where
  "client_is_keyframe d =
     (let sps = found_nal 7 d; pps = found_nal 8 d; idr = found_nal 5 d in
      if sps \<or> pps \<or> idr then (if sps \<and> pps \<and> idr then True else idr) else False)"

definition video_frame_type :: "bytes \<Rightarrow> u8" where
  "video_frame_type d = (if client_is_keyframe d then 1 else 2)"

text \<open>The end of a NAL unit that starts at \<open>s\<close>: the next four byte start code, or the end of the frame.\<close>

definition nal_end4 :: "bytes \<Rightarrow> nat \<Rightarrow> nat" where
  "nal_end4 d s = (case find (start4 d) [s..<length d - 3] of None \<Rightarrow> length d | Some j \<Rightarrow> j)"

lemma nal_end4_ge: "s \<le> length d \<Longrightarrow> s \<le> nal_end4 d s"
  by (auto simp: nal_end4_def find_Some_iff split: option.split)

lemma nal_end4_le: "nal_end4 d s \<le> length d"
  by (auto simp: nal_end4_def find_Some_iff split: option.split)

lemma nal_end4_progress: "off + 4 \<le> length d \<Longrightarrow> length d - nal_end4 d (off + 4) < length d - off"
  using nal_end4_ge [of "off + 4" d] by linarith

section \<open>From Annex B to AVCC\<close>

text \<open>
  \<open>AvccOverflow\<close> is the error of the size check against the \<open>frame_size + 16\<close> bytes of the buffer;
  \<open>AvccUndefined\<close> the read of a NAL type behind a frame that ends with a start code.
\<close>

datatype avcc_result = AvccDone bytes | AvccOverflow | AvccUndefined

function avcc_loop :: "bytes \<Rightarrow> nat \<Rightarrow> bytes \<Rightarrow> avcc_result" where
  "avcc_loop d pos msg =
     (if pos < length d then
        if pos + 4 \<le> length d \<and> start4 d pos then
          (let s = pos + 4; e = nal_end4 d s; nal = take (e - s) (drop s d) in
           if s = length d then AvccUndefined
           else if d ! s AND 0x1F = 7 \<or> d ! s AND 0x1F = 8 then avcc_loop d e msg
           else if length d + 16 < length msg + 4 + length nal then AvccOverflow
           else avcc_loop d e (msg @ be32 (word_of_nat (length nal)) @ nal))
        else avcc_loop d (pos + 1) msg
      else AvccDone msg)"
  by pat_completeness auto
termination
proof (relation "measure (\<lambda>(d, pos, msg). length d - pos)", goal_cases)
  case (2 d pos msg s e nal)
  with nal_end4_progress [of pos d] show ?case by simp
next
  case (3 d pos msg s e nal)
  with nal_end4_progress [of pos d] show ?case by simp
qed auto

declare avcc_loop.simps [simp del]

text \<open>The FLV tag of a NAL unit message: frame type and AVC, packet type 1, composition time 0.\<close>

definition video_tag :: "u8 \<Rightarrow> bytes" where
  "video_tag frame_type = [push_bit 4 frame_type OR 7, 1, 0, 0, 0]"

section \<open>The AVC sequence header\<close>

definition avc_sequence_header :: "bytes \<Rightarrow> bytes \<Rightarrow> bytes" where
  "avc_sequence_header sps pps =
     [0x17, 0, 0, 0, 0, 1, sps ! 1, sps ! 2, sps ! 3, 0xFF, 0xE1] @
     be16 (word_of_nat (length sps)) @ sps @ [1] @ be16 (word_of_nat (length pps)) @ pps"

text \<open>From the frame manager's parameter sets. Three bytes of the SPS are read unchecked.\<close>

definition send_cached_avc_sequence_header ::
  "(nat \<Rightarrow> bool) \<Rightarrow> rtmp_client_connection \<Rightarrow> bytes option \<Rightarrow> bytes option \<Rightarrow>
     (c_int \<times> rtmp_client_connection) option" where
  "send_cached_avc_sequence_header mok c sps_opt pps_opt =
     (case (sps_opt, pps_opt) of
        (Some sps, Some pps) \<Rightarrow>
          if \<not> mok (5 + 6 + 2 + length sps + 3 + length pps) then Some (-1, c)
          else if length sps < 4 then None
          else rtmp_client_send_chunked_message c 6 9 0 (avc_sequence_header sps pps)
      | _ \<Rightarrow> Some (-1, c))"

text \<open>From the frame itself: the first SPS and the first PPS behind four byte start codes.\<close>

function param_scan :: "bytes \<Rightarrow> nat \<Rightarrow> bytes option \<Rightarrow> bytes option \<Rightarrow> bytes option \<times> bytes option" where
  "param_scan d off sps pps =
     (if off < length d - 4 then
        if start4 d off then
          (let s = off + 4; e = nal_end4 d s; nal = take (e - s) (drop s d); t = d ! s AND 0x1F in
           if t = 7 \<and> sps = None then param_scan d e (Some nal) pps
           else if t = 8 \<and> pps = None then param_scan d e sps (Some nal)
           else param_scan d e sps pps)
        else param_scan d (off + 1) sps pps
      else (sps, pps))"
  by pat_completeness auto
termination
proof (relation "measure (\<lambda>(d, off, sps, pps). length d - off)", goal_cases)
  case (2 d off sps pps s e nal t)
  with nal_end4_progress [of off d] show ?case by simp
next
  case (3 d off sps pps s e nal t)
  with nal_end4_progress [of off d] show ?case by simp
next
  case (4 d off sps pps s e nal t)
  with nal_end4_progress [of off d] show ?case by simp
qed auto

declare param_scan.simps [simp del]

text \<open>
  The buffer is allocated two bytes too small for what is written into it (\<open>from_frame_header_size\<close>); the model
  goes on as if the memory behind it could be written.
\<close>

definition from_frame_header_size :: "bytes \<Rightarrow> bytes \<Rightarrow> nat" where
  "from_frame_header_size sps pps = 5 + 6 + length sps + 3 + length pps"

definition send_avc_sequence_header_from_frame ::
  "(nat \<Rightarrow> bool) \<Rightarrow> rtmp_client_connection \<Rightarrow> bytes \<Rightarrow> (c_int \<times> rtmp_client_connection) option" where
  "send_avc_sequence_header_from_frame mok c d =
     (if length d < 4 then None
      else
        (case param_scan d 0 None None of
           (Some sps, Some pps) \<Rightarrow>
             if \<not> mok (from_frame_header_size sps pps) \<or> length sps < 4 then Some (-1, c)
             else do {
               (r, c1) \<leftarrow> rtmp_client_send_chunked_message c 6 9 0 (avc_sequence_header sps pps);
               Some (if r < 0 then -1 else 0, c1)
             }
         | _ \<Rightarrow> Some (-1, c)))"

definition send_aac_config ::
  "rtmp_client_connection \<Rightarrow> (c_int \<times> rtmp_client_connection) option" where
  "send_aac_config c = do {
     (r, c1) \<leftarrow> rtmp_client_send_chunked_message c 4 8 0 [0xAF, 0, 0x12, 0x10];
     Some (if r < 0 then -1 else 0, c1)
   }"

section \<open>Audio\<close>

definition silent_aac_frame :: bytes where
  "silent_aac_frame = [0xAF, 1, 0x12, 0x10, 0x56, 0xE5, 0, 0, 0, 0, 0]"

definition rtmp_client_send_silent_audio_frame ::
  "rtmp_client_connection \<Rightarrow> u32 \<Rightarrow> (c_int \<times> rtmp_client_connection) option" where
  "rtmp_client_send_silent_audio_frame c ts =
     (if rc_state c \<noteq> RTMP_CLIENT_STATE_PUBLISHING \<or> rc_socket_fd c < 0 then Some (0, c)
      else rtmp_client_send_chunked_message c 4 8 ts silent_aac_frame)"

definition rtmp_client_send_audio_frame ::
  "(nat \<Rightarrow> bool) \<Rightarrow> rtmp_client_connection \<Rightarrow> bytes \<Rightarrow> u32 \<Rightarrow> (c_int \<times> rtmp_client_connection) option" where
  "rtmp_client_send_audio_frame mok c d ts =
     (if d = [] then Some (-1, c)
      else if rc_state c \<noteq> RTMP_CLIENT_STATE_PUBLISHING then Some (0, c)
      else if rc_socket_fd c < 0 then Some (0, c)
      else if \<not> mok (length d + 16) then Some (-1, c)
      else do {
        (r, c1) \<leftarrow> rtmp_client_send_chunked_message c 4 8 ts ([0xAF, 1] @ d);
        Some (r, if r = 0 then c1 else c1\<lparr>rc_state := RTMP_CLIENT_STATE_DISCONNECTED\<rparr>)
      })"

section \<open>Video\<close>

text \<open>
  The connection keeps a copy of the parameter sets, which nothing reads. When one of the two allocations
  fails the sizes stay and the contents are undefined; here the fields are cleared then.
\<close>

definition cache_parameter_sets ::
  "(nat \<Rightarrow> bool) \<Rightarrow> bytes \<Rightarrow> bytes \<Rightarrow> rtmp_client_connection \<Rightarrow> rtmp_client_connection" where
  "cache_parameter_sets mok sps pps c =
     (if mok (length sps) \<and> mok (length pps) then c\<lparr>rc_cached_sps := Some sps, rc_cached_pps := Some pps\<rparr>
      else c\<lparr>rc_cached_sps := None, rc_cached_pps := None\<rparr>)"

definition cache_params ::
  "(nat \<Rightarrow> bool) \<Rightarrow> stream_params \<Rightarrow> rtmp_client_connection \<Rightarrow> rtmp_client_connection" where
  "cache_params mok sp c =
     (case (sps_data sp, pps_data sp) of
        (Some sps, Some pps) \<Rightarrow> cache_parameter_sets mok sps pps c
      | _ \<Rightarrow> c)"

text \<open>Five seconds after publishing started a frame may go out without a header.\<close>

definition waited_enough :: "u32 \<Rightarrow> rtmp_client_connection \<Rightarrow> bool" where
  "waited_enough now c \<longleftrightarrow> 5000000 < now - rc_avc_wait_start_us c"

text \<open>Before a key frame, and before any other frame; the flag tells whether the frame is to be sent.\<close>

definition before_keyframe ::
  "(nat \<Rightarrow> bool) \<Rightarrow> stream_params \<Rightarrow> u32 \<Rightarrow> bytes \<Rightarrow> rtmp_client_connection \<Rightarrow>
     (bool \<times> rtmp_client_connection) option" where
  "before_keyframe mok sp now d c =
     (let c = c\<lparr>rc_frames_without_keyframe := 0\<rparr> in
      if rc_avc_header_sent c then Some (True, c)
      else if params_available sp then do {
        (r, c1) \<leftarrow> send_cached_avc_sequence_header mok c (sps_data sp) (pps_data sp);
        Some (True, if r = 0 then cache_params mok sp (c1\<lparr>rc_avc_header_sent := True\<rparr>) else c1)
      }
      else do {
        (r, c1) \<leftarrow> send_avc_sequence_header_from_frame mok c d;
        Some (if r = 0 then (True, c1\<lparr>rc_avc_header_sent := True\<rparr>)
              else if waited_enough now c1 then (True, c1\<lparr>rc_avc_header_sent := True\<rparr>)
              else (False, c1))
      })"

definition before_other_frame ::
  "(nat \<Rightarrow> bool) \<Rightarrow> stream_params \<Rightarrow> u32 \<Rightarrow> rtmp_client_connection \<Rightarrow>
     (bool \<times> rtmp_client_connection) option" where
  "before_other_frame mok sp now c =
     (if rc_avc_header_sent c then Some (True, c)
      else if params_available sp then do {
        (r, c1) \<leftarrow> send_cached_avc_sequence_header mok c (sps_data sp) (pps_data sp);
        Some (if r = 0 then (True, cache_params mok sp (c1\<lparr>rc_avc_header_sent := True\<rparr>)) else (False, c1))
      }
      else Some (if waited_enough now c then (True, c\<lparr>rc_avc_header_sent := True\<rparr>) else (False, c)))"

text \<open>The message itself, and silent audio every 40 milliseconds of any connection.\<close>

definition send_video_message ::
  "bytes \<Rightarrow> u32 \<Rightarrow> rtmp_client_connection \<Rightarrow> client_statics \<Rightarrow>
     (c_int \<times> rtmp_client_connection \<times> client_statics) option" where
  "send_video_message msg ts c st = do {
     (r, c1) \<leftarrow> rtmp_client_send_chunked_message c 6 9 ts msg;
     if r = 0 then
       if 40 \<le> ts - last_audio_timestamp st then do {
         (a, c2) \<leftarrow> rtmp_client_send_silent_audio_frame c1 ts;
         Some (0, c2, st\<lparr>last_audio_timestamp := ts\<rparr>)
       }
       else Some (0, c1, st)
     else Some (r, c1\<lparr>rc_state := RTMP_CLIENT_STATE_DISCONNECTED\<rparr>, st)
   }"

definition before_frame ::
  "(nat \<Rightarrow> bool) \<Rightarrow> stream_params \<Rightarrow> u32 \<Rightarrow> bytes \<Rightarrow> rtmp_client_connection \<Rightarrow> client_statics \<Rightarrow>
     (bool \<times> rtmp_client_connection \<times> client_statics) option" where
  "before_frame mok sp now d c st =
     (if client_is_keyframe d then map_option (\<lambda>(go, c1). (go, c1, st)) (before_keyframe mok sp now d c)
      else
        (let n = rc_frames_without_keyframe c + 1;
             st1 = (if 30 < n then st\<lparr>idr_requests := idr_requests st + 1\<rparr> else st)
         in map_option (\<lambda>(go, c1). (go, c1, st1))
              (before_other_frame mok sp now (c\<lparr>rc_frames_without_keyframe := n\<rparr>))))"

definition rtmp_client_send_video_frame ::
  "(nat \<Rightarrow> bool) \<Rightarrow> stream_params \<Rightarrow> u32 \<Rightarrow> rtmp_client_connection \<Rightarrow> client_statics \<Rightarrow> bytes \<Rightarrow> u32 \<Rightarrow>
     (c_int \<times> rtmp_client_connection \<times> client_statics) option" where
  "rtmp_client_send_video_frame mok sp now c st d ts =
     (if d = [] then Some (-1, c, st)
      else if rc_state c \<noteq> RTMP_CLIENT_STATE_PUBLISHING then Some (0, c, st)
      else if rc_socket_fd c < 0 then Some (0, c, st)
      else if \<not> mok (length d + 16) then Some (-1, c, st)
      else if length d < 4 then None
      else do {
        (go, c1, st1) \<leftarrow> before_frame mok sp now d c st;
        if \<not> go then Some (0, c1, st1)
        else (case avcc_loop d 0 (video_tag (video_frame_type d)) of
                AvccDone msg \<Rightarrow> send_video_message msg ts c1 st1
              | AvccOverflow \<Rightarrow> Some (-1, c1, st1)
              | AvccUndefined \<Rightarrow> None)
      })"

section \<open>All connections\<close>

text \<open>
  The parameter sets are those of channel 0, whatever channel is streamed. \<open>now\<close> is the monotonic time,
  \<open>clock\<close> the wall clock.
\<close>

fun send_to_clients ::
  "(nat \<Rightarrow> bool) \<Rightarrow> frame_manager \<Rightarrow> u32 \<Rightarrow> c_int \<Rightarrow> bytes \<Rightarrow> u32 \<Rightarrow> rtmp_client_connection list \<Rightarrow> client_statics \<Rightarrow>
     (c_int \<times> rtmp_client_connection list \<times> client_statics) option" where
  "send_to_clients mok fm now clock d ts [] st = Some (0, [], st)"
| "send_to_clients mok fm now clock d ts (c # cs) st = do {
     (n, c1, st1) \<leftarrow>
       (if rc_state c = RTMP_CLIENT_STATE_PUBLISHING \<and> rc_thread_running c then
          map_option (\<lambda>(r, c1, st1).
              if r = 0
              then (1, c1\<lparr>rc_frames_sent := rc_frames_sent c1 + 1,
                         rc_bytes_sent := rc_bytes_sent c1 + word_of_nat (length d),
                         rc_last_frame_time := clock\<rparr>, st1)
              else (0, c1, st1))
            (rtmp_client_send_video_frame mok (frame_manager_get_stream_params fm 0) now c st d ts)
        else Some (0, c, st));
     (m, cs1, st2) \<leftarrow> send_to_clients mok fm now clock d ts cs st1;
     Some (n + m, c1 # cs1, st2)
   }"

definition rtmp_client_send_frame ::
  "(nat \<Rightarrow> bool) \<Rightarrow> frame_manager \<Rightarrow> u32 \<Rightarrow> c_int \<Rightarrow> rtmp_client_connection list \<Rightarrow> client_statics \<Rightarrow> bytes \<Rightarrow> int \<times> int \<Rightarrow>
     (c_int \<times> rtmp_client_connection list \<times> client_statics) option" where
  "rtmp_client_send_frame mok fm now clock cs st d tv =
     (if d = [] then Some (0, cs, st)
      else send_to_clients mok fm now clock d (rtmp_timestamp tv) cs st)"

section \<open>Frames of NAL units\<close>

lemma no_code_between:
  assumes "nal_unit n" and "length pre < i" and "i < length pre + 4 + length n"
  shows "\<not> start4 (pre @ [0, 0, 0, 1] @ n @ rest) i"
proof (cases "i < length pre + 4")
  case True
  with assms(2) consider "i = length pre + 1" | "i = length pre + 2" | "i = length pre + 3" by linarith
  then show ?thesis
    by cases (simp_all add: start4_def nth_append numeral_eq_Suc)
next
  case False
  then obtain k where "i = length pre + 4 + k" using le_Suc_ex [of "length pre + 4" i] by auto
  with assms(3) inside_no_code(1) [OF assms(1), of k "pre @ [0, 0, 0, 1]" rest]
  show ?thesis by (simp add: numeral_eq_Suc)
qed

lemma start4_here: "start4 (pre @ [0, 0, 0, 1] @ rest) (length pre)"
  by (simp add: start4_def nth_append)

lemma found_nal_from:
  "list_all nal_unit ns \<Longrightarrow>
     (\<exists>i. length pre \<le> i \<and> i < length (pre @ annex_b ns) - 4 \<and> start4 (pre @ annex_b ns) i \<and>
        (pre @ annex_b ns) ! (i + 4) AND 0x1F = t) \<longleftrightarrow>
     (\<exists>n \<in> set ns. hd n AND 0x1F = t)"
proof (induction ns arbitrary: pre)
  case (Cons n ns)
  let ?d = "pre @ [0, 0, 0, 1] @ n @ annex_b ns"
  let ?hit = "\<lambda>i. i < length ?d - 4 \<and> start4 ?d i \<and> ?d ! (i + 4) AND 0x1F = t"
  from Cons.prems have n: "nal_unit n" "n \<noteq> []" by (simp_all add: nal_unit_def)
  have ih: "(\<exists>i \<ge> length pre + 4 + length n. ?hit i) \<longleftrightarrow> (\<exists>n \<in> set ns. hd n AND 0x1F = t)"
    using Cons.IH [of "pre @ [0, 0, 0, 1] @ n"] Cons.prems by (simp add: ac_simps numeral_eq_Suc)
  have here: "?hit (length pre) \<longleftrightarrow> hd n AND 0x1F = t"
  proof -
    have "?d ! (length pre + 4) = hd n" using n(2) by (simp add: nth_append hd_conv_nth)
    moreover have "length pre < length ?d - 4" using n(2) by (cases n) simp_all
    ultimately show ?thesis using start4_here [of pre "n @ annex_b ns"] by simp
  qed
  define hit where "hit = ?hit"
  have "hit i \<Longrightarrow> length pre < i \<Longrightarrow> length pre + 4 + length n \<le> i" for i
    using no_code_between [OF n(1), of pre i "annex_b ns"] by (auto simp: hit_def not_less [symmetric])
  then have "(\<exists>i \<ge> length pre. hit i) \<longleftrightarrow> hit (length pre) \<or> (\<exists>i \<ge> length pre + 4 + length n. hit i)"
    by (metis add_leD1 order_le_less order_refl)
  then have "(\<exists>i \<ge> length pre. ?hit i) \<longleftrightarrow> hd n AND 0x1F = t \<or> (\<exists>n \<in> set ns. hd n AND 0x1F = t)"
    unfolding hit_def here ih .
  then show ?case by simp
qed auto

lemma found_nal_annex_b:
  assumes "list_all nal_unit ns"
  shows "found_nal t (annex_b ns) \<longleftrightarrow> (\<exists>n \<in> set ns. hd n AND 0x1F = t)"
  using found_nal_from [OF assms, of "[]" t] by (auto simp: found_nal_def list_ex_iff)

lemma keyframe_annex_b:
  assumes "list_all nal_unit ns"
  shows "client_is_keyframe (annex_b ns) \<longleftrightarrow> (\<exists>n \<in> set ns. hd n AND 0x1F = 5)"
  using assms by (auto simp: client_is_keyframe_def found_nal_annex_b Let_def)

lemma nal_end4_unit:
  assumes "nal_unit n"
  shows "nal_end4 (pre @ [0, 0, 0, 1] @ n @ annex_b ns) (length pre + 4) = length pre + 4 + length n"
proof -
  let ?d = "pre @ [0, 0, 0, 1] @ n @ annex_b ns"
  have no: "\<not> start4 ?d i" if "length pre + 4 \<le> i" "i < length pre + 4 + length n" for i
    using no_code_between [OF assms, of pre i "annex_b ns"] that by simp
  show ?thesis
  proof (cases ns)
    case Nil
    then have "find (start4 ?d) [length pre + 4..<length ?d - 3] = None"
      using no by (auto simp: find_None_iff)
    with Nil show ?thesis by (simp add: nal_end4_def)
  next
    case (Cons n' ns')
    then have "start4 ?d (length pre + 4 + length n)"
      using start4_here [of "pre @ [0, 0, 0, 1] @ n" "n' @ annex_b ns'"] by (simp add: ac_simps numeral_eq_Suc)
    with no Cons have "find (start4 ?d) [length pre + 4..<length ?d - 3] = Some (length pre + 4 + length n)"
      by (intro find_first) auto
    then show ?thesis by (simp add: nal_end4_def)
  qed
qed

text \<open>The loop never runs out of its buffer: a length prefix is as long as the start code it stands for.\<close>

lemma avcc_loop_bounds:
  "length msg \<le> pos + 5 \<Longrightarrow> pos \<le> length d \<Longrightarrow>
     (case avcc_loop d pos msg of
        AvccDone m \<Rightarrow> length m \<le> length d + 5
      | AvccOverflow \<Rightarrow> False
      | AvccUndefined \<Rightarrow> 4 \<le> length d \<and> start4 d (length d - 4))"
proof (induction d pos msg rule: avcc_loop.induct)
  case (1 d pos msg)
  let ?e = "nal_end4 d (pos + 4)"
  consider "\<not> pos < length d" | "pos < length d" "\<not> (pos + 4 \<le> length d \<and> start4 d pos)"
    | "pos < length d" "pos + 4 \<le> length d \<and> start4 d pos" by blast
  then show ?case
  proof cases
    case 1
    with "1.prems" have "pos = length d" by simp
    with "1.prems" show ?thesis by (simp add: avcc_loop.simps [of d "length d" msg])
  next
    case 2
    then have "avcc_loop d pos msg = avcc_loop d (pos + 1) msg" by (subst avcc_loop.simps) auto
    with "1.IH"(3) [OF 2] "1.prems" 2 show ?thesis by simp
  next
    case 3
    then have "pos + 4 \<le> ?e" "?e \<le> length d" using nal_end4_ge [of "pos + 4" d] nal_end4_le [of d] by auto
    moreover from this "1.prems" have "\<not> length d + 16 < length msg + ?e - pos" by arith
    moreover have "pos + 4 = length d \<longrightarrow> start4 d (length d - 4)" using 3 by (metis add_diff_cancel_right')
    ultimately show ?thesis
      using 3 "1.IH"(1,2) [OF 3 refl refl refl] "1.prems"
      by (simp add: avcc_loop.simps [of d pos msg] Let_def split: if_splits)
  qed
qed

definition is_parameter_nal :: "bytes \<Rightarrow> bool" where
  "is_parameter_nal n \<longleftrightarrow> hd n AND 0x1F = 7 \<or> hd n AND 0x1F = 8"

fun avcc :: "bytes list \<Rightarrow> bytes" where
  "avcc [] = []"
| "avcc (n # ns) = be32 (word_of_nat (length n)) @ n @ avcc ns"

lemma avcc_loop_annex_b:
  "list_all nal_unit ns \<Longrightarrow> length msg \<le> length pre + 5 \<Longrightarrow>
     avcc_loop (pre @ annex_b ns) (length pre) msg = AvccDone (msg @ avcc (filter (\<lambda>n. \<not> is_parameter_nal n) ns))"
proof (induction ns arbitrary: pre msg)
  case Nil
  then show ?case by (simp add: avcc_loop.simps)
next
  case (Cons n ns)
  let ?d = "pre @ [0, 0, 0, 1] @ n @ annex_b ns"
  from Cons.prems have n: "nal_unit n" "n \<noteq> []" by (simp_all add: nal_unit_def)
  have hd: "?d ! (length pre + 4) = hd n" using n(2) by (simp add: nth_append hd_conv_nth)
  have tk: "take (length n) (drop (length pre + 4) ?d) = n" by simp
  have ih: "avcc_loop ?d (length pre + 4 + length n) m =
      AvccDone (m @ avcc (filter (\<lambda>n. \<not> is_parameter_nal n) ns))"
    if "length m \<le> length pre + 4 + length n + 5" for m
    using Cons.IH [of m "pre @ [0, 0, 0, 1] @ n"] Cons.prems that
    by (simp add: ac_simps numeral_eq_Suc)
  have st: "avcc_loop ?d (length pre) msg =
      (if is_parameter_nal n then avcc_loop ?d (length pre + 4 + length n) msg
       else avcc_loop ?d (length pre + 4 + length n) (msg @ be32 (word_of_nat (length n)) @ n))"
    using start4_here [of pre "n @ annex_b ns"] hd tk n(2) nal_end4_unit [OF n(1), of pre ns] Cons.prems(2)
    by (subst avcc_loop.simps) (simp add: Let_def is_parameter_nal_def)
  show ?case
  proof (cases "is_parameter_nal n")
    case True
    with st ih [of msg] Cons.prems show ?thesis by simp
  next
    case False
    with st ih [of "msg @ be32 (word_of_nat (length n)) @ n"] Cons.prems show ?thesis by simp
  qed
qed

text \<open>What a decoder takes the payload apart into: units behind four byte lengths.\<close>

function avcc_units :: "bytes \<Rightarrow> bytes list option" where
  "avcc_units bs =
     (if bs = [] then Some []
      else if length bs < 4 then None
      else
        (let n = unat (de32 (bs ! 0) (bs ! 1) (bs ! 2) (bs ! 3)) in
         if length bs < 4 + n then None
         else map_option ((#) (take n (drop 4 bs))) (avcc_units (drop (4 + n) bs))))"
  by pat_completeness auto
termination by (relation "measure length") auto

declare avcc_units.simps [simp del]

lemma avcc_units_avcc:
  "list_all (\<lambda>n. length n < 2 ^ 32) ns \<Longrightarrow> avcc_units (avcc ns) = Some ns"
proof (induction ns)
  case Nil
  then show ?case by (simp add: avcc_units.simps)
next
  case (Cons n ns)
  have u: "unat (word_of_nat (length n) :: u32) = length n"
    using Cons.prems by (simp add: unat_of_nat take_bit_nat_eq_self)
  let ?w = "word_of_nat (length n) :: u32"
  let ?bs = "be32 ?w @ n @ avcc ns"
  have "de32 (?bs ! 0) (?bs ! 1) (?bs ! 2) (?bs ! 3) = ?w" by (simp add: be32_def)
  moreover have "be32 ?w \<noteq> []" by (simp add: be32_def)
  ultimately have "avcc_units ?bs = map_option ((#) n) (avcc_units (avcc ns))"
    using u by (subst avcc_units.simps) (simp add: Let_def)
  with Cons show ?case by simp
qed

section \<open>A frame on the wire\<close>

text \<open>A publishing connection whose socket accepts everything in the end.\<close>

definition can_send :: "rtmp_client_connection \<Rightarrow> bool" where
  "can_send c \<longleftrightarrow> rc_state c = RTMP_CLIENT_STATE_PUBLISHING \<and> 0 \<le> rc_socket_fd c \<and> tx_ok (rc_io c) \<and>
     0 < rc_chunk_size_out c"

lemma send_ok:
  assumes "can_send c" and "2 \<le> cs" and "cs \<le> 63" and "data \<noteq> []"
  shows "\<exists>s. rtmp_client_send_chunked_message c cs ty ts data = Some (0, c\<lparr>rc_io := s\<rparr>) \<and>
    can_send (c\<lparr>rc_io := s\<rparr>) \<and> tx s = tx (rc_io c) @ message_wire c cs ty ts data"
  using send_chunked_ok [of c cs data ty ts] assms by (auto simp: can_send_def)

lemma message_wire_io [simp]: "message_wire (c\<lparr>rc_io := s\<rparr>) = message_wire c"
  by (simp add: message_wire_def message_header_def fun_eq_iff)

text \<open>The wire of a frame: the message, and silent audio if it is due.\<close>

definition frame_wire :: "rtmp_client_connection \<Rightarrow> client_statics \<Rightarrow> u32 \<Rightarrow> bytes \<Rightarrow> bytes" where
  "frame_wire c st ts msg =
     message_wire c 6 9 ts msg @
     (if 40 \<le> ts - last_audio_timestamp st then message_wire c 4 8 ts silent_aac_frame else [])"

definition after_frame :: "u32 \<Rightarrow> client_statics \<Rightarrow> client_statics" where
  "after_frame ts st = (if 40 \<le> ts - last_audio_timestamp st then st\<lparr>last_audio_timestamp := ts\<rparr> else st)"

lemma send_video_message_ok:
  assumes "can_send c" and "msg \<noteq> []"
  shows "\<exists>s. send_video_message msg ts c st = Some (0, c\<lparr>rc_io := s\<rparr>, after_frame ts st) \<and>
    tx s = tx (rc_io c) @ frame_wire c st ts msg"
proof -
  obtain s where s: "rtmp_client_send_chunked_message c 6 9 ts msg = Some (0, c\<lparr>rc_io := s\<rparr>)"
    "can_send (c\<lparr>rc_io := s\<rparr>)" "tx s = tx (rc_io c) @ message_wire c 6 9 ts msg"
    using send_ok [OF assms(1) _ _ assms(2), of 6 9 ts] by auto
  have "silent_aac_frame \<noteq> []" by (simp add: silent_aac_frame_def)
  with send_ok [OF s(2), of 4 silent_aac_frame 8 ts] obtain s2 where
    "rtmp_client_send_chunked_message (c\<lparr>rc_io := s\<rparr>) 4 8 ts silent_aac_frame = Some (0, c\<lparr>rc_io := s2\<rparr>)"
    "tx s2 = tx s @ message_wire c 4 8 ts silent_aac_frame" by auto
  with s show ?thesis
    by (auto simp: send_video_message_def rtmp_client_send_silent_audio_frame_def can_send_def
        frame_wire_def after_frame_def)
qed

lemma annex_b_length: "ns \<noteq> [] \<Longrightarrow> 4 \<le> length (annex_b ns)"
  by (cases ns) simp_all

definition video_payload :: "bytes list \<Rightarrow> bytes" where
  "video_payload ns =
     video_tag (if \<exists>n \<in> set ns. hd n AND 0x1F = 5 then 1 else 2) @
     avcc (filter (\<lambda>n. \<not> is_parameter_nal n) ns)"

lemma video_message_bytes:
  assumes "list_all nal_unit ns"
  shows "avcc_loop (annex_b ns) 0 (video_tag (video_frame_type (annex_b ns))) = AvccDone (video_payload ns)"
  using avcc_loop_annex_b [OF assms, of "video_tag (video_frame_type (annex_b ns))" "[]"]
  by (simp add: video_tag_def video_payload_def video_frame_type_def keyframe_annex_b [OF assms])

text \<open>
  The preparation leaves what the messages depend on: the connection can send, the headers are the same,
  and the time of the last silent audio is.
\<close>

definition prepared :: "rtmp_client_connection \<Rightarrow> client_statics \<Rightarrow> rtmp_client_connection \<Rightarrow> client_statics \<Rightarrow> bool" where
  "prepared c st c1 st1 \<longleftrightarrow> can_send c1 \<and> rc_avc_header_sent c1 \<and>
     rc_chunk_size_out c1 = rc_chunk_size_out c \<and> rc_stream_id c1 = rc_stream_id c \<and>
     last_audio_timestamp st1 = last_audio_timestamp st"

lemma prepared_wire: "prepared c st c1 st1 \<Longrightarrow> frame_wire c1 st1 ts msg = frame_wire c st ts msg"
  by (simp add: prepared_def frame_wire_def message_wire_def message_header_def)

lemma send_video_frame_ok:
  assumes "can_send c" and "before_frame mok sp now (annex_b ns) c st = Some (True, c1, st1)"
    and "prepared c st c1 st1" and "list_all nal_unit ns" and "ns \<noteq> []" and "mok (length (annex_b ns) + 16)"
  shows "\<exists>s. rtmp_client_send_video_frame mok sp now c st (annex_b ns) ts =
      Some (0, c1\<lparr>rc_io := s\<rparr>, after_frame ts st1) \<and>
    tx s = tx (rc_io c1) @ frame_wire c st ts (video_payload ns)"
proof -
  have d: "annex_b ns \<noteq> []" "\<not> length (annex_b ns) < 4" using annex_b_length [OF assms(5)] by auto
  have ne: "video_payload ns \<noteq> []" by (simp add: video_payload_def video_tag_def)
  have "can_send c1" using assms(3) by (simp add: prepared_def)
  from send_video_message_ok [OF this ne, of ts st1] obtain s where
    "send_video_message (video_payload ns) ts c1 st1 = Some (0, c1\<lparr>rc_io := s\<rparr>, after_frame ts st1)"
    "tx s = tx (rc_io c1) @ frame_wire c st ts (video_payload ns)"
    using prepared_wire [OF assms(3)] by auto
  with assms(1,2,6) d show ?thesis
    by (intro exI [of _ s]) (simp add: rtmp_client_send_video_frame_def can_send_def video_message_bytes [OF assms(4)])
qed

lemma before_frame_sent:
  assumes "can_send c" and "rc_avc_header_sent c"
  shows "\<exists>c1 st1. before_frame mok sp now d c st = Some (True, c1, st1) \<and> prepared c st c1 st1 \<and>
    rc_io c1 = rc_io c"
  using assms
  by (auto simp: before_frame_def before_keyframe_def before_other_frame_def prepared_def can_send_def Let_def)

lemma avcc_filter_length: "length (avcc (filter P ns)) \<le> length (annex_b ns)"
  by (induction ns) auto

lemma video_payload_length: "length (video_payload ns) \<le> length (annex_b ns) + 5"
  using avcc_filter_length [of "\<lambda>n. \<not> is_parameter_nal n" ns] by (simp add: video_payload_def video_tag_def)

lemma unit_of_frame: "n \<in> set ns \<Longrightarrow> length n \<le> length (annex_b ns)"
  by (induction ns) auto

lemma units_of_payload:
  assumes "length (annex_b ns) < 2 ^ 32"
  shows "avcc_units (drop 5 (video_payload ns)) = Some (filter (\<lambda>n. \<not> is_parameter_nal n) ns)"
proof -
  have "list_all (\<lambda>n. length n < 2 ^ 32) (filter (\<lambda>n. \<not> is_parameter_nal n) ns)"
    unfolding list_all_iff using unit_of_frame [of _ ns] assms order_le_less_trans by auto
  from avcc_units_avcc [OF this] show ?thesis by (simp add: video_payload_def video_tag_def)
qed


text \<open>
  A receiver's view of the AVC sequence header: after the tag an AVCDecoderConfigurationRecord with one SPS
  and one PPS; profile, compatibility and level are repeated from the SPS.
\<close>

definition parse_avc_config :: "bytes \<Rightarrow> (bytes \<times> bytes) option" where
  "parse_avc_config bs =
     (if length bs < 13 \<or> take 6 bs \<noteq> [0x17, 0, 0, 0, 0, 1] \<or> bs ! 9 \<noteq> 0xFF \<or> bs ! 10 \<noteq> 0xE1 then None
      else
        (let n = unat (de16 (bs ! 11) (bs ! 12)); sps = take n (drop 13 bs); rest = drop (13 + n) bs in
         if length bs < 13 + n \<or> length rest < 3 \<or> rest ! 0 \<noteq> 1 \<or> take 3 (drop 6 bs) \<noteq> take 3 (drop 1 sps) then None
         else
           (let m = unat (de16 (rest ! 1) (rest ! 2)) in
            if length rest = 3 + m then Some (sps, drop 3 rest) else None)))"

lemma parse_avc_sequence_header:
  assumes "4 \<le> length sps" and "length sps < 2 ^ 16" and "length pps < 2 ^ 16"
  shows "parse_avc_config (avc_sequence_header sps pps) = Some (sps, pps)"
proof -
  obtain a b c d s where sps: "sps = a # b # c # d # s"
    using assms(1) by (auto simp: numeral_eq_Suc Suc_le_length_iff)
  have "unat (word_of_nat (length sps) :: u16) = length sps" "unat (word_of_nat (length pps) :: u16) = length pps"
    using assms(2,3) by (simp_all add: unat_of_nat take_bit_nat_eq_self)
  then show ?thesis
    unfolding parse_avc_config_def avc_sequence_header_def
    by (simp add: be16_def Let_def nth_append sps) (simp add: numeral_eq_Suc)
qed

text \<open>Before the first frame: the header from the parameter sets of the frame manager.\<close>

lemma cache_params_same [simp]:
  "rc_io (cache_params mok sp c) = rc_io c" "rc_state (cache_params mok sp c) = rc_state c"
  "rc_socket_fd (cache_params mok sp c) = rc_socket_fd c"
  "rc_chunk_size_out (cache_params mok sp c) = rc_chunk_size_out c"
  "rc_stream_id (cache_params mok sp c) = rc_stream_id c"
  "rc_avc_header_sent (cache_params mok sp c) = rc_avc_header_sent c"
  by (simp_all add: cache_params_def cache_parameter_sets_def split: option.split)


lemma cached_header_ok:
  assumes "can_send c" and "4 \<le> length sps" and "mok (5 + 6 + 2 + length sps + 3 + length pps)"
  shows "\<exists>s. send_cached_avc_sequence_header mok c (Some sps) (Some pps) = Some (0, c\<lparr>rc_io := s\<rparr>) \<and>
    can_send (c\<lparr>rc_io := s\<rparr>) \<and> tx s = tx (rc_io c) @ message_wire c 6 9 0 (avc_sequence_header sps pps)"
proof -
  have "avc_sequence_header sps pps \<noteq> []" by (simp add: avc_sequence_header_def)
  with send_ok [OF assms(1), of 6 "avc_sequence_header sps pps" 9 0] assms(2,3) show ?thesis
    by (auto simp: send_cached_avc_sequence_header_def)
qed

lemma before_frame_first:
  assumes "can_send c" and "\<not> rc_avc_header_sent c"
    and "params_available sp" and "sps_data sp = Some sps" and "pps_data sp = Some pps" and "4 \<le> length sps"
    and "mok (5 + 6 + 2 + length sps + 3 + length pps)"
  shows "\<exists>c1 st1. before_frame mok sp now d c st = Some (True, c1, st1) \<and> prepared c st c1 st1 \<and>
    tx (rc_io c1) = tx (rc_io c) @ message_wire c 6 9 0 (avc_sequence_header sps pps)"
proof -
  let ?c = "\<lambda>n. c\<lparr>rc_frames_without_keyframe := n\<rparr>"
  have ok: "can_send (?c n)" and w: "message_wire (?c n) = message_wire c" for n
    using assms(1) by (auto simp: can_send_def message_wire_def message_header_def fun_eq_iff)
  have h: "\<exists>s. send_cached_avc_sequence_header mok (?c n) (Some sps) (Some pps) = Some (0, (?c n)\<lparr>rc_io := s\<rparr>) \<and>
    can_send ((?c n)\<lparr>rc_io := s\<rparr>) \<and> tx s = tx (rc_io c) @ message_wire c 6 9 0 (avc_sequence_header sps pps)" for n
    using cached_header_ok [of "?c n" sps mok pps] ok [of n] assms(6,7) w by simp
  show ?thesis
  proof (cases "client_is_keyframe d")
    case True
    from h [of 0] obtain s where s: "send_cached_avc_sequence_header mok (?c 0) (Some sps) (Some pps) =
        Some (0, (?c 0)\<lparr>rc_io := s\<rparr>)" "can_send ((?c 0)\<lparr>rc_io := s\<rparr>)"
      "tx s = tx (rc_io c) @ message_wire c 6 9 0 (avc_sequence_header sps pps)" by blast
    let ?c1 = "cache_params mok sp ((?c 0)\<lparr>rc_io := s, rc_avc_header_sent := True\<rparr>)"
    show ?thesis
      using True s assms(2-5)
      by (intro exI [of _ ?c1] exI [of _ st])
        (simp add: before_frame_def before_keyframe_def prepared_def can_send_def Let_def)
  next
    case False
    let ?n = "rc_frames_without_keyframe c + 1"
    let ?st = "if 30 < ?n then st\<lparr>idr_requests := idr_requests st + 1\<rparr> else st"
    from h [of ?n] obtain s where s: "send_cached_avc_sequence_header mok (?c ?n) (Some sps) (Some pps) =
        Some (0, (?c ?n)\<lparr>rc_io := s\<rparr>)" "can_send ((?c ?n)\<lparr>rc_io := s\<rparr>)"
      "tx s = tx (rc_io c) @ message_wire c 6 9 0 (avc_sequence_header sps pps)" by blast
    let ?c1 = "cache_params mok sp ((?c ?n)\<lparr>rc_io := s, rc_avc_header_sent := True\<rparr>)"
    show ?thesis
      using False s assms(2-5)
      by (intro exI [of _ ?c1] exI [of _ ?st])
        (simp add: before_frame_def before_other_frame_def prepared_def can_send_def Let_def)
  qed
qed

lemma after_header_wire:
  assumes "can_send c" and "\<not> rc_avc_header_sent c" and "list_all nal_unit ns" and "ns \<noteq> []"
    and "mok (length (annex_b ns) + 16)"
    and "params_available sp" and "sps_data sp = Some sps" and "pps_data sp = Some pps" and "4 \<le> length sps"
    and "mok (5 + 6 + 2 + length sps + 3 + length pps)"
  shows "\<exists>c1 st1. rtmp_client_send_video_frame mok sp now c st (annex_b ns) ts = Some (0, c1, st1) \<and>
    rc_avc_header_sent c1 \<and> 
    tx (rc_io c1) = tx (rc_io c) @ message_wire c 6 9 0 (avc_sequence_header sps pps) @
      frame_wire c st ts (video_payload ns)"
proof -
  from before_frame_first [of c sp sps pps mok now "annex_b ns" st] assms(1,2,6-10) obtain c1 st1 where
    b: "before_frame mok sp now (annex_b ns) c st = Some (True, c1, st1)" "prepared c st c1 st1"
    and t: "tx (rc_io c1) = tx (rc_io c) @ message_wire c 6 9 0 (avc_sequence_header sps pps)" by blast
  from send_video_frame_ok [OF assms(1) b assms(3-5)] t b(2) show ?thesis
    by (fastforce simp: prepared_def)
qed

text \<open>Without parameter sets anywhere nothing goes out until the time is up.\<close>

lemma before_frame_waits:
  assumes "\<not> rc_avc_header_sent c" and "\<not> params_available sp" and "\<not> waited_enough now c"
    and "4 \<le> length d" and "fst (param_scan d 0 None None) = None \<or> snd (param_scan d 0 None None) = None"
  shows "\<exists>c1 st1. before_frame mok sp now d c st = Some (False, c1, st1) \<and> rc_io c1 = rc_io c \<and>
    \<not> rc_avc_header_sent c1"
proof -
  obtain a b where p: "param_scan d 0 None None = (a, b)" by fastforce
  have "send_avc_sequence_header_from_frame mok c' d = Some (-1, c')" for c'
    using assms(4,5) p by (auto simp: send_avc_sequence_header_from_frame_def split: option.split)
  with assms(1-3) show ?thesis
    by (auto simp: before_frame_def before_keyframe_def before_other_frame_def waited_enough_def Let_def)
qed


lemma ready_client_sends:
  assumes "can_send c" and "rc_avc_header_sent c" and "list_all nal_unit ns" and "ns \<noteq> []"
    and "mok (length (annex_b ns) + 16)"
  shows "\<exists>c1 st1. rtmp_client_send_video_frame mok sp now c st (annex_b ns) ts = Some (0, c1, st1) \<and>
    tx (rc_io c1) = tx (rc_io c) @ frame_wire c st ts (video_payload ns) \<and>
    last_audio_timestamp st1 = (if 40 \<le> ts - last_audio_timestamp st then ts else last_audio_timestamp st)"
proof -
  from before_frame_sent [OF assms(1,2), of mok sp now "annex_b ns" st] obtain c1 st1 where
    b: "before_frame mok sp now (annex_b ns) c st = Some (True, c1, st1)" "prepared c st c1 st1" "rc_io c1 = rc_io c"
    by blast
  with send_video_frame_ok [of c mok sp now ns st c1 st1 ts] assms(1,3-5) show ?thesis
    by (fastforce simp: prepared_def after_frame_def)
qed

section \<open>Properties\<close>

text \<open>
  C3. The NAL units of a frame survive: what a connection that has sent its sequence header writes for an
  Annex B frame is received as one video message with the timestamp of the frame, flagged as key frame exactly if
  one of the units is an IDR slice, whose payload a decoder takes apart into the same units in the same
  order, without the parameter sets.
\<close>

theorem client_video_units:
  assumes "can_send c" and "rc_avc_header_sent c" and "list_all nal_unit ns" and "ns \<noteq> []"
    and "length (annex_b ns) < 0xFFFFF0" and "mok (length (annex_b ns) + 16)"
    and "ts AND mask 24 \<noteq> 0xFFFFFF"
  shows "\<exists>c1 st1 wire h key p rest. rtmp_client_send_video_frame mok sp now c st (annex_b ns) ts = Some (0, c1, st1) \<and>
    tx (rc_io c1) = tx (rc_io c) @ wire \<and>
    receive_message (unat (rc_chunk_size_out c)) wire = Some (h, [key, 1, 0, 0, 0] @ p, rest) \<and>
    message_type_id h = 9 \<and> timestamp h = ts AND mask 24 \<and>
    key = (if \<exists>n \<in> set ns. hd n AND 0x1F = 5 then 0x17 else 0x27) \<and>
    avcc_units p = Some (filter (\<lambda>n. hd n AND 0x1F \<noteq> 7 \<and> hd n AND 0x1F \<noteq> 8) ns)"
proof -
  let ?key = "if \<exists>n \<in> set ns. hd n AND 0x1F = 5 then 0x17 else 0x27 :: u8"
  let ?p = "drop 5 (video_payload ns)"
  define audio where "audio = (if 40 \<le> ts - last_audio_timestamp st then message_wire c 4 8 ts silent_aac_frame else [])"
  from before_frame_sent [OF assms(1,2), of mok sp now "annex_b ns" st] obtain c1 st1 where
    b: "before_frame mok sp now (annex_b ns) c st = Some (True, c1, st1)" "prepared c st c1 st1" "rc_io c1 = rc_io c"
    by blast
  from send_video_frame_ok [of c mok sp now ns st c1 st1 ts] b(1,2) assms(1,3,4,6) obtain s where
    sent: "rtmp_client_send_video_frame mok sp now c st (annex_b ns) ts = Some (0, c1\<lparr>rc_io := s\<rparr>, after_frame ts st1)"
      "tx s = tx (rc_io c) @ message_wire c 6 9 ts (video_payload ns) @ audio"
    using b(3) by (auto simp: frame_wire_def audio_def)
  have "length (video_payload ns) < 0x1000000" "0 < rc_chunk_size_out c" "video_payload ns \<noteq> []"
    using video_payload_length [of ns] assms(1,5) by (simp_all add: can_send_def video_payload_def video_tag_def)
  then have "receive_message (unat (rc_chunk_size_out c)) (message_wire c 6 9 ts (video_payload ns) @ audio) =
    Some ((message_header c 6 9 ts (video_payload ns))\<lparr>timestamp := ts AND mask 24\<rparr>, video_payload ns, audio)"
    by (intro receive_message_wire assms(7)) simp_all
  moreover have "video_payload ns = [?key, 1, 0, 0, 0] @ ?p" by (simp add: video_payload_def video_tag_def)
  moreover have "avcc_units ?p = Some (filter (\<lambda>n. hd n AND 0x1F \<noteq> 7 \<and> hd n AND 0x1F \<noteq> 8) ns)"
    using units_of_payload [of ns] assms(5) by (simp add: is_parameter_nal_def)
  ultimately show ?thesis
    using sent by (intro exI conjI) (assumption | simp add: message_header_def)+
qed

text \<open>
  Rewriting a frame for AVCC stays within the buffer that was allocated for it, for any bytes: the size check
  never fires, and at most \<open>frame_size + 5\<close> of the \<open>frame_size + 16\<close> bytes are used. Only a frame that ends with a
  start code is read past its end.
\<close>

theorem client_avcc_in_bounds:
  "case avcc_loop d 0 (video_tag t) of
     AvccDone msg \<Rightarrow> length msg \<le> length d + 5
   | AvccOverflow \<Rightarrow> False
   | AvccUndefined \<Rightarrow> 4 \<le> length d \<and> start4 d (length d - 4)"
  by (rule avcc_loop_bounds) (simp_all add: video_tag_def)

text \<open>
  The first frame of a connection, key frame or not, goes out behind the AVC sequence header, when the
  frame manager knows the parameter sets: the first message received is a video message from which a decoder reads
  back exactly these parameter sets, and what follows are the messages of the frame.
\<close>

theorem client_first_frame:
  assumes "can_send c" and "\<not> rc_avc_header_sent c" and "list_all nal_unit ns" and "ns \<noteq> []"
    and "mok (length (annex_b ns) + 16)"
    and "params_available sp" and "sps_data sp = Some sps" and "pps_data sp = Some pps"
    and "4 \<le> length sps" and "length sps < 2 ^ 16" and "length pps < 2 ^ 16"
    and "mok (5 + 6 + 2 + length sps + 3 + length pps)"
  shows "\<exists>c1 st1 wire h msg. rtmp_client_send_video_frame mok sp now c st (annex_b ns) ts = Some (0, c1, st1) \<and>
    rc_avc_header_sent c1 \<and> tx (rc_io c1) = tx (rc_io c) @ wire \<and>
    receive_message (unat (rc_chunk_size_out c)) wire = Some (h, msg, frame_wire c st ts (video_payload ns)) \<and>
    message_type_id h = 9 \<and> parse_avc_config msg = Some (sps, pps)"
proof -
  let ?h = "avc_sequence_header sps pps" and ?rest = "frame_wire c st ts (video_payload ns)"
  from after_header_wire [of c ns mok sp sps pps now st ts] assms obtain c1 st1 where
    s: "rtmp_client_send_video_frame mok sp now c st (annex_b ns) ts = Some (0, c1, st1)" "rc_avc_header_sent c1"
      "tx (rc_io c1) = tx (rc_io c) @ message_wire c 6 9 0 ?h @ ?rest" by blast
  have "?h \<noteq> []" "length ?h < 0x1000000"
    using assms(10,11) by (simp_all add: avc_sequence_header_def)
  moreover have "0 < rc_chunk_size_out c" using assms(1) by (simp add: can_send_def)
  ultimately have "receive_message (unat (rc_chunk_size_out c)) (message_wire c 6 9 0 ?h @ ?rest) =
      Some ((message_header c 6 9 0 ?h)\<lparr>timestamp := 0 AND mask 24\<rparr>, ?h, ?rest)"
    by (intro receive_message_wire) simp_all
  with s show ?thesis
    by (intro exI conjI) (auto simp: message_header_def parse_avc_sequence_header [OF assms(9-11)])
qed

text \<open>
  Nothing is sent before a sequence header can be: as long as neither the frame manager nor the frame
  itself has both parameter sets and the five seconds are not over, a frame of any kind is dropped, the call
  reports success, and the header is still due.
\<close>

theorem client_waits_for_header:
  assumes "\<not> rc_avc_header_sent c" and "\<not> params_available sp" and "\<not> waited_enough now c"
    and "4 \<le> length d" and "fst (param_scan d 0 None None) = None \<or> snd (param_scan d 0 None None) = None"
    and "mok (length d + 16)"
  shows "\<exists>c1 st1. rtmp_client_send_video_frame mok sp now c st d ts = Some (0, c1, st1) \<and>
    rc_io c1 = rc_io c \<and> \<not> rc_avc_header_sent c1"
proof -
  from before_frame_waits [OF assms(1-5)] obtain c1 st1 where
    b: "before_frame mok sp now d c st = Some (False, c1, st1)" "rc_io c1 = rc_io c" "\<not> rc_avc_header_sent c1" by blast
  have "d \<noteq> []" "\<not> length d < 4" using assms(4) by auto
  with b assms(1,6) show ?thesis
    by (cases "rc_state c = RTMP_CLIENT_STATE_PUBLISHING \<and> 0 \<le> rc_socket_fd c")
      (auto simp: rtmp_client_send_video_frame_def)
qed


text \<open>
  Silent audio is due once for all connections: of two publishing connections that are given the same
  frame, the first gets video and silent audio, the second the video only, whatever the times, as the time
  of the last audio frame is one static variable.
\<close>

theorem silent_audio_once:
  assumes "can_send c" and "rc_avc_header_sent c" and "rc_thread_running c"
    and "can_send c'" and "rc_avc_header_sent c'" and "rc_thread_running c'"
    and "list_all nal_unit ns" and "ns \<noteq> []" and "mok (length (annex_b ns) + 16)"
  shows "\<exists>c1 c1' st1. send_to_clients mok fm now wall (annex_b ns) ts [c, c'] st = Some (2, [c1, c1'], st1) \<and>
    tx (rc_io c1) = tx (rc_io c) @ frame_wire c st ts (video_payload ns) \<and>
    tx (rc_io c1') = tx (rc_io c') @ message_wire c' 6 9 ts (video_payload ns)"
proof -
  let ?sp = "frame_manager_get_stream_params fm 0"
  from ready_client_sends [of c ns mok ?sp now st ts] assms(1,2,7-9) obtain d st1 where
    1: "rtmp_client_send_video_frame mok ?sp now c st (annex_b ns) ts = Some (0, d, st1)"
    "tx (rc_io d) = tx (rc_io c) @ frame_wire c st ts (video_payload ns)"
    "last_audio_timestamp st1 = (if 40 \<le> ts - last_audio_timestamp st then ts else last_audio_timestamp st)" by blast
  from ready_client_sends [of c' ns mok ?sp now st1 ts] assms(4,5,7-9) obtain d' st2 where
    2: "rtmp_client_send_video_frame mok ?sp now c' st1 (annex_b ns) ts = Some (0, d', st2)"
    "tx (rc_io d') = tx (rc_io c') @ frame_wire c' st1 ts (video_payload ns)" by blast
  have "frame_wire c' st1 ts (video_payload ns) = message_wire c' 6 9 ts (video_payload ns)"
    using 1(3) by (simp add: frame_wire_def)
  with 1 2 assms(1,3,4,6) show ?thesis by (auto simp: can_send_def Let_def)
qed

section \<open>Examples\<close>

text \<open>A frame of an SPS, a PPS and an IDR slice.\<close>

definition sample_units :: "bytes list" where
  "sample_units = [[0x67, 66, 0, 30], [0x68, 0xCE], [0x65, 7, 9]]"

definition sample_params :: stream_params where
  "sample_params = \<lparr>sps_data = Some [0x67, 66, 0, 30], pps_data = Some [0x68, 0xCE], params_available = True\<rparr>"

lemma sample_can_send: "can_send sample_client" "can_send (sample_client\<lparr>rc_avc_header_sent := False\<rparr>)"
  by (simp_all add: can_send_def sample_client_def tx_ok_def)

lemma sample_units_nal: "list_all nal_unit sample_units" "sample_units \<noteq> []" "length (annex_b sample_units) = 21"
  by code_simp+

theorem client_video_units_witness:
  "\<exists>c1 st1 wire h p rest.
     rtmp_client_send_video_frame (\<lambda>n. n < 100) sample_params 0 sample_client
       \<lparr>last_audio_timestamp = 0, idr_requests = 0\<rparr> (annex_b sample_units) 50 = Some (0, c1, st1) \<and>
     tx (rc_io c1) = [9] @ wire \<and> receive_message 3 wire = Some (h, [0x17, 1, 0, 0, 0] @ p, rest) \<and>
     timestamp h = 50 \<and> avcc_units p = Some [[0x65, 7, 9]]"
proof -
  have s: "tx (rc_io sample_client) = [9]" "unat (rc_chunk_size_out sample_client) = 3" "rc_avc_header_sent sample_client"
    "filter (\<lambda>n. hd n AND 0x1F \<noteq> 7 \<and> hd n AND 0x1F \<noteq> 8) sample_units = [[0x65, 7, 9]]"
    "\<exists>n \<in> set sample_units. hd n AND 0x1F = 5"
    by (simp_all add: sample_client_def sample_units_def)
  have "(50 :: u32) AND mask 24 = 50" by (simp add: mask_eq_exp_minus_1)
  with client_video_units [OF sample_can_send(1) s(3) sample_units_nal(1,2), of "\<lambda>n. n < 100" 50 sample_params 0
      "\<lparr>last_audio_timestamp = 0, idr_requests = 0\<rparr>"]
  show ?thesis unfolding s sample_units_nal(3) by (simp add: s(5)) blast
qed

theorem client_first_frame_witness:
  "\<exists>c1 st1 wire h msg rest.
     rtmp_client_send_video_frame (\<lambda>n. n < 100) sample_params 0 (sample_client\<lparr>rc_avc_header_sent := False\<rparr>)
       \<lparr>last_audio_timestamp = 0, idr_requests = 0\<rparr> (annex_b sample_units) 50 = Some (0, c1, st1) \<and>
     tx (rc_io c1) = [9] @ wire \<and> receive_message 3 wire = Some (h, msg, rest) \<and>
     parse_avc_config msg = Some ([0x67, 66, 0, 30], [0x68, 0xCE])"
proof -
  have s: "tx (rc_io sample_client) = [9]" "unat (rc_chunk_size_out sample_client) = 3"
    by (simp_all add: sample_client_def)
  from client_first_frame [OF sample_can_send(2) _ sample_units_nal(1,2), of "\<lambda>n. n < 100" sample_params
      "[0x67, 66, 0, 30]" "[0x68, 0xCE]" 0 "\<lparr>last_audio_timestamp = 0, idr_requests = 0\<rparr>" 50]
  show ?thesis by (simp add: s sample_units_nal(3) sample_params_def) blast
qed

theorem client_waits_for_header_witness:
  "\<exists>c1 st1.
     rtmp_client_send_video_frame (\<lambda>n. n < 100) (sample_params\<lparr>params_available := False\<rparr>) 4000000
       (sample_client\<lparr>rc_avc_header_sent := False\<rparr>) \<lparr>last_audio_timestamp = 0, idr_requests = 0\<rparr>
       [0, 0, 0, 1, 0x65, 7, 9] 50 = Some (0, c1, st1) \<and>
     rc_io c1 = rc_io sample_client \<and> \<not> rc_avc_header_sent c1"
proof -
  have "param_scan [0, 0, 0, 1, 0x65, 7, 9] 0 None None = (None, None)" by code_simp
  with client_waits_for_header [of "sample_client\<lparr>rc_avc_header_sent := False\<rparr>"
      "sample_params\<lparr>params_available := False\<rparr>" 4000000 "[0, 0, 0, 1, 0x65, 7, 9]" "\<lambda>n. n < 100"
      "\<lparr>last_audio_timestamp = 0, idr_requests = 0\<rparr>" 50]
  show ?thesis by (simp add: sample_params_def sample_client_def waited_enough_def)
qed

lemma header_buffer_short:
  "length (avc_sequence_header sps pps) = from_frame_header_size sps pps + 2"
  by (simp add: avc_sequence_header_def from_frame_header_size_def)


theorem silent_audio_once_witness:
  "\<exists>c1 c1' st1. send_to_clients (\<lambda>n. n < 100) initial_manager 0 0 (annex_b sample_units) 50 [sample_client, sample_client]
       \<lparr>last_audio_timestamp = 0, idr_requests = 0\<rparr> = Some (2, [c1, c1'], st1) \<and>
     tx (rc_io c1) = tx (rc_io c1') @ message_wire sample_client 4 8 50 silent_aac_frame"
proof -
  have s: "rc_avc_header_sent sample_client" "rc_thread_running sample_client" by (simp_all add: sample_client_def)
  from silent_audio_once [OF sample_can_send(1) s sample_can_send(1) s sample_units_nal(1,2), of "\<lambda>n. n < 100"
      initial_manager 0 0 50 "\<lparr>last_audio_timestamp = 0, idr_requests = 0\<rparr>"]
  obtain c1 c1' st1 where
    "send_to_clients (\<lambda>n. n < 100) initial_manager 0 0 (annex_b sample_units) 50 [sample_client, sample_client]
       \<lparr>last_audio_timestamp = 0, idr_requests = 0\<rparr> = Some (2, [c1, c1'], st1)"
    "tx (rc_io c1) = tx (rc_io c1') @ message_wire sample_client 4 8 50 silent_aac_frame"
    by (auto simp: frame_wire_def sample_units_nal(3) simp del: send_to_clients.simps)
  then show ?thesis by blast
qed

end
