(* ===== verification/RtmpClientThread.thy ===== *)
theory RtmpClientThread
  imports RtmpClientMedia
begin

text \<open>
  Life of one connection of the RTMP client (\<open>rtmp_client.c\<close>): how it is made and taken down, its TLS session, and its
  thread as a step function over the places where it can be, interleaved with the frames other threads
  send on the connection and with a request to stop. What the system calls answer is an argument of a
  step.
\<close>

section \<open>Targets\<close>

record rtmp_stream_target =
  target_name :: string
  target_enabled :: bool
  target_url :: string
  target_stream_key :: string
  target_retry_interval :: c_int
  target_max_retries :: c_int
  target_connection_timeout :: c_int

definition RTMP_DEFAULT_CHUNK_SIZE :: nat where "RTMP_DEFAULT_CHUNK_SIZE = 4096"

section \<open>Connections\<close>

text \<open>\<open>strncpy(dst, src, sizeof(dst) - 1)\<close> into a zeroed field.\<close>

definition rtmp_client_connection_create ::
  "bool \<Rightarrow> rtmp_stream_target \<Rightarrow> rtmp_client_connection option" where
  "rtmp_client_connection_create allocated t =
     (if \<not> allocated then None
      else Some
        \<lparr>rc_name = take 63 (target_name t), rc_url = take 511 (target_url t),
         rc_stream_key = take 255 (target_stream_key t), rc_use_tls = False, rc_host = [], rc_port = 0,
         rc_app = [], rc_stream = [], rc_avc_header_sent = False, rc_avc_wait_start_us = 0,
         rc_frames_without_keyframe = 0, rc_cached_sps = None, rc_cached_pps = None, rc_socket_fd = -1,
         rc_state = RTMP_CLIENT_STATE_DISCONNECTED, rc_ssl_context = False, rc_thread_running = False,
         rc_chunk_size_out = word_of_nat RTMP_DEFAULT_CHUNK_SIZE, rc_window_ack_size = 2500000, rc_stream_id = 0,
         rc_bytes_received = 0, rc_last_ack_sent = 0, rc_c1_s1_data = [], rc_c2_s2_data = [],
         rc_bytes_sent = 0, rc_frames_sent = 0, rc_connected_time = 0, rc_last_frame_time = 0,
         rc_retry_count = 0, rc_io = \<lparr>rx = [], tx_plan = [], tx = []\<rparr>, rc_ssl_errors = [],
         rc_would_block = [], rc_ssl_live = 0, rc_closed_fds = []\<rparr>)"

definition close_client_socket :: "rtmp_client_connection \<Rightarrow> rtmp_client_connection" where
  "close_client_socket c =
     (if 0 \<le> rc_socket_fd c
      then c\<lparr>rc_closed_fds := rc_closed_fds c @ [rc_socket_fd c], rc_socket_fd := -1\<rparr> else c\<lparr>rc_socket_fd := -1\<rparr>)"

definition rtmp_client_connection_start ::
  "bool \<Rightarrow> rtmp_client_connection \<Rightarrow> c_int \<times> rtmp_client_connection" where
  "rtmp_client_connection_start thread_created c =
     (if rc_thread_running c then (0, c)
      else if \<not> thread_created then (-1, c)
      else (0, c\<lparr>rc_thread_running := True\<rparr>))"

text \<open>
  Stopping signals the thread and waits for it: \<open>join\<close> is what becomes of the connection while it does.
\<close>

definition signal_stop :: "rtmp_client_connection \<Rightarrow> rtmp_client_connection" where
  "signal_stop c =
     (let c = c\<lparr>rc_thread_running := False\<rparr> in if 0 \<le> rc_socket_fd c then close_client_socket c else c)"

definition rtmp_client_connection_stop ::
  "(rtmp_client_connection \<Rightarrow> rtmp_client_connection) \<Rightarrow> rtmp_client_connection \<Rightarrow> rtmp_client_connection" where
  "rtmp_client_connection_stop join c = (if \<not> rc_thread_running c then c else join (signal_stop c))"

subsection \<open>TLS sessions\<close>

text \<open>A new session replaces the pointer to one that was left behind.\<close>

definition rtmp_client_tls_setup ::
  "bool \<Rightarrow> bool \<Rightarrow> rtmp_client_connection \<Rightarrow> c_int \<times> rtmp_client_connection" where
  "rtmp_client_tls_setup ctx_ok ssl_ok c =
     (if \<not> ctx_ok then (-1, c)
      else if \<not> ssl_ok then (-1, c)
      else (0, c\<lparr>rc_ssl_context := True, rc_ssl_live := rc_ssl_live c + 1\<rparr>))"

definition rtmp_client_tls_cleanup :: "rtmp_client_connection \<Rightarrow> rtmp_client_connection" where
  "rtmp_client_tls_cleanup c =
     (if rc_ssl_context c then c\<lparr>rc_ssl_context := False, rc_ssl_live := rc_ssl_live c - 1\<rparr> else c)"

definition rtmp_client_tls_handshake :: "bool \<Rightarrow> rtmp_client_connection \<Rightarrow> c_int" where
  "rtmp_client_tls_handshake connected c = (if \<not> rc_ssl_context c then -1 else if \<not> connected then -1 else 0)"

definition rtmp_client_connection_destroy ::
  "(rtmp_client_connection \<Rightarrow> rtmp_client_connection) \<Rightarrow> rtmp_client_connection \<Rightarrow> rtmp_client_connection" where
  "rtmp_client_connection_destroy join c =
     (let c = (if rc_thread_running c then rtmp_client_connection_stop join c else c);
          c = (if 0 \<le> rc_socket_fd c then close_client_socket c else c)
      in (rtmp_client_tls_cleanup c)\<lparr>rc_cached_sps := None, rc_cached_pps := None\<rparr>)"

section \<open>The thread of a connection\<close>

text \<open>
  Where the thread is: at its start, at the head of its loop, before each of the calls of an attempt,
  between publishing and the announcement of the chunk size, between that and the new chunk size being in force,
  before the audio configuration, watching, after the connection was lost, and at its end.
\<close>

datatype thread_place =
    AtStart | AtLoop | AtHandshake | AtConnect | AtCreateStream | AtPublish
  | AtPublished | AtAnnounced | AtAudioConfig | AtWatch | AtLost | AtEnd

text \<open>What the system calls of a step answer; \<open>w_chunk_size\<close> is the configured chunk size.\<close>

record world =
  w_socket :: c_int
  w_resolved :: bool
  w_connected :: bool
  w_io :: sock
  w_ssl_ctx :: bool
  w_ssl_new :: bool
  w_ssl_connect :: bool
  w_time :: u32
  w_random :: bytes
  w_clock :: c_int
  w_monotonic :: u32
  w_chunk_size :: u32
  w_socket_error :: bool

definition attempt_failed :: "rtmp_client_connection \<Rightarrow> thread_place \<times> rtmp_client_connection" where
  "attempt_failed c = (AtLoop, close_client_socket c)"

text \<open>A new socket, up to the TLS handshake.\<close>

definition open_connection :: "world \<Rightarrow> rtmp_client_connection \<Rightarrow> thread_place \<times> rtmp_client_connection" where
  "open_connection w c =
     (let c = c\<lparr>rc_state := RTMP_CLIENT_STATE_CONNECTING, rc_socket_fd := w_socket w, rc_io := w_io w\<rparr> in
      if rc_socket_fd c < 0 then (AtLoop, c)
      else if \<not> w_resolved w then attempt_failed c
      else if \<not> w_connected w then attempt_failed c
      else if rc_use_tls c then
        (let (r, c1) = rtmp_client_tls_setup (w_ssl_ctx w) (w_ssl_new w) c in
         if r \<noteq> 0 then attempt_failed c1
         else if rtmp_client_tls_handshake (w_ssl_connect w) c1 \<noteq> 0 then attempt_failed c1
         else (AtHandshake, c1))
      else (AtHandshake, c))"

text \<open>One call of the attempt, then the next place or a new attempt.\<close>

definition attempt ::
  "thread_place \<Rightarrow> (c_int \<times> rtmp_client_connection) option \<Rightarrow> (thread_place \<times> rtmp_client_connection) option" where
  "attempt next_place y = map_option (\<lambda>(r, c1). if r \<noteq> 0 then attempt_failed c1 else (next_place, c1)) y"

definition start_publishing :: "world \<Rightarrow> rtmp_client_connection \<Rightarrow> rtmp_client_connection" where
  "start_publishing w c =
     c\<lparr>rc_state := RTMP_CLIENT_STATE_PUBLISHING, rc_connected_time := w_clock w, rc_retry_count := 0,
       rc_avc_wait_start_us := w_monotonic w\<rparr>"

definition announce_failed :: "rtmp_client_connection \<Rightarrow> thread_place \<times> rtmp_client_connection" where
  "announce_failed c = (AtEnd, c\<lparr>rc_state := RTMP_CLIENT_STATE_ERROR\<rparr>)"

definition connection_lost :: "rtmp_client_connection \<Rightarrow> rtmp_client_connection" where
  "connection_lost c =
     (let c = (if rc_use_tls c then rtmp_client_tls_cleanup c else c);
          c = (if 0 \<le> rc_socket_fd c then close_client_socket c else c)
      in c\<lparr>rc_state := RTMP_CLIENT_STATE_DISCONNECTED\<rparr>)"

text \<open>A URL that cannot be parsed ends the thread; \<open>None\<close> is an overflow or a call that never returns.\<close>

primrec rtmp_client_connection_thread ::
  "thread_place \<Rightarrow> world \<Rightarrow> rtmp_client_connection \<Rightarrow> (thread_place \<times> rtmp_client_connection) option" where
  "rtmp_client_connection_thread AtStart w c =
     (case rtmp_client_parse_url (rc_url c) of
        UrlError \<Rightarrow> Some (AtEnd, c)
      | UrlOverflow \<Rightarrow> None
      | Url h p a s t \<Rightarrow>
          Some (AtLoop, c\<lparr>rc_host := h, rc_port := p, rc_app := a, rc_stream := s, rc_use_tls := t\<rparr>))"
| "rtmp_client_connection_thread AtLoop w c =
     Some (if \<not> rc_thread_running c then (AtEnd, c) else open_connection w c)"
| "rtmp_client_connection_thread AtHandshake w c =
     attempt AtConnect (rtmp_client_handshake_process (w_time w) (w_random w) c)"
| "rtmp_client_connection_thread AtConnect w c = attempt AtCreateStream (rtmp_client_connect c)"
| "rtmp_client_connection_thread AtCreateStream w c = attempt AtPublish (rtmp_client_create_stream c)"
| "rtmp_client_connection_thread AtPublish w c =
     map_option (\<lambda>(p, c1). (p, if p = AtPublished then start_publishing w c1 else c1))
       (attempt AtPublished (rtmp_client_publish c))"
| "rtmp_client_connection_thread AtPublished w c =
     map_option (\<lambda>(r, c1). if r < 0 then announce_failed c1 else (AtAnnounced, c1))
       (rtmp_client_send_chunked_message c 2 1 0 (be32 (w_chunk_size w)))"
| "rtmp_client_connection_thread AtAnnounced w c = Some (AtAudioConfig, c\<lparr>rc_chunk_size_out := w_chunk_size w\<rparr>)"
| "rtmp_client_connection_thread AtAudioConfig w c =
     map_option (\<lambda>(r, c1). if r < 0 then announce_failed c1 else (AtWatch, c1)) (send_aac_config c)"
| "rtmp_client_connection_thread AtWatch w c =
     Some (if rc_thread_running c \<and> rc_state c = RTMP_CLIENT_STATE_PUBLISHING \<and> \<not> w_socket_error w
           then (AtWatch, c) else (AtLost, c))"
| "rtmp_client_connection_thread AtLost w c = Some (AtLoop, connection_lost c)"
| "rtmp_client_connection_thread AtEnd w c = Some (AtEnd, c)"


section \<open>Every call of an attempt returns\<close>

text \<open>
  What no call of the session layer touches: the target, the media state, the descriptor, the chunk size and the
  TLS session; none of them starts publishing.
\<close>

definition same_target :: "rtmp_client_connection \<Rightarrow> rtmp_client_connection \<Rightarrow> bool" where
  "same_target c c1 \<longleftrightarrow>
     (rc_state c1 = RTMP_CLIENT_STATE_PUBLISHING \<longrightarrow> rc_state c = RTMP_CLIENT_STATE_PUBLISHING) \<and>
     rc_name c1 = rc_name c \<and> rc_url c1 = rc_url c \<and> rc_use_tls c1 = rc_use_tls c \<and>
     rc_avc_header_sent c1 = rc_avc_header_sent c \<and> rc_socket_fd c1 = rc_socket_fd c \<and>
     rc_ssl_context c1 = rc_ssl_context c \<and> rc_thread_running c1 = rc_thread_running c \<and>
     rc_chunk_size_out c1 = rc_chunk_size_out c \<and> rc_ssl_live c1 = rc_ssl_live c \<and>
     rc_closed_fds c1 = rc_closed_fds c"

lemma same_target_refl [simp]: "same_target c c"
  by (simp add: same_target_def)

lemma same_target_trans: "same_target c c1 \<Longrightarrow> same_target c1 c2 \<Longrightarrow> same_target c c2"
  unfolding same_target_def by simp

lemma same_session_target: "same_session c c1 \<Longrightarrow> same_target c c1"
  unfolding same_session_def same_target_def by auto

definition settles :: "rtmp_client_connection \<Rightarrow> (c_int \<times> rtmp_client_connection) option \<Rightarrow> bool" where
  "settles c y \<longleftrightarrow> (\<exists>r c1. y = Some (r, c1) \<and> same_target c c1)"

lemma settles_Some: "same_target c c1 \<Longrightarrow> settles c (Some (r, c1))"
  by (simp add: settles_def)

lemma settles_from: "settles c1 y \<Longrightarrow> same_target c c1 \<Longrightarrow> settles c y"
  unfolding settles_def by (blast intro: same_target_trans)

lemma yields_settles: "yields c y \<Longrightarrow> settles c y"
  unfolding yields_def settles_def ends_below_def by (blast intro: same_session_target)

lemma settles_bind:
  "settles c x \<Longrightarrow> (\<And>r c1. same_target c c1 \<Longrightarrow> settles c (f r c1)) \<Longrightarrow> settles c (Option.bind x (\<lambda>(r, c1). f r c1))"
  by (auto simp: settles_def)

lemma reading_settles:
  assumes "0 < rc_chunk_size_out c"
  shows "\<exists>r bs c1. rtmp_client_connection_read_bytes n c = Some (r, bs, c1) \<and> same_target c c1"
    and "\<exists>r bs c1. rtmp_client_connection_read_available n c = Some (r, bs, c1) \<and> same_target c c1"
proof -
  obtain r bs c1 where
    rd: "(if rc_use_tls c then rtmp_client_tls_read_bytes n c else rtmp_client_read_bytes n c) = (r, bs, c1)"
    by (metis prod_cases3)
  have e: "ends_below c c1"
    using tls_read_load [of n c r bs c1] tls_read_load [of n "c\<lparr>rc_ssl_context := False\<rparr>" r bs c1] rd
    by (cases "rc_use_tls c")
      (auto simp: rtmp_client_read_bytes_def rtmp_read_bytes_def ends_below_def rx_load_def
        dest: read_loop_load split: prod.splits)
  with assms have "0 < rc_chunk_size_out c1" by (simp add: ends_below_def)
  from count_received_yields [OF chunk_loop_returns, of c1 "Suc (rx_load c1)" r bs] this e rd
  show "\<exists>r bs c1. rtmp_client_connection_read_bytes n c = Some (r, bs, c1) \<and> same_target c c1"
    by (auto simp: rtmp_client_connection_read_bytes_def connection_read_bytes_with_def yields_bytes_def ends_below_def
        intro: same_session_target same_session_target [OF same_session_trans])
  show "\<exists>r bs c1. rtmp_client_connection_read_available n c = Some (r, bs, c1) \<and> same_target c c1"
    using read_available_yields [OF chunk_loop_returns order_refl assms, of n]
    by (auto simp: rtmp_client_connection_read_available_def yields_bytes_def ends_below_def
        intro: same_session_target)
qed

lemma same_target_chunk_size: "same_target c c1 \<Longrightarrow> rc_chunk_size_out c1 = rc_chunk_size_out c"
  by (simp add: same_target_def)

lemma same_target_update:
  "same_target c c1 \<Longrightarrow> s \<noteq> RTMP_CLIENT_STATE_PUBLISHING \<Longrightarrow> same_target c (c1\<lparr>rc_state := s\<rparr>)"
  "same_target c c1 \<Longrightarrow> same_target c (c1\<lparr>rc_c1_s1_data := d\<rparr>)"
  "same_target c c1 \<Longrightarrow> same_target c (c1\<lparr>rc_c2_s2_data := d\<rparr>)"
  "same_target c c1 \<Longrightarrow> same_target c (c1\<lparr>rc_stream_id := sid\<rparr>)"
  by (simp_all add: same_target_def)

text \<open>The calls, anywhere in an operation that started with \<open>c\<close>.\<close>

lemma write_or_settles:
  assumes "0 < rc_chunk_size_out c" and "same_target c c0" and "\<And>c1. same_target c c1 \<Longrightarrow> settles c (k c1)"
  shows "settles c (client_write_or bs c0 k)"
proof -
  have "settles c0 (rtmp_client_connection_write_bytes c0 bs)"
    using connection_write_yields [OF chunk_loop_returns, of c0 "rx_load c0" bs] assms(1,2)
    by (simp add: rtmp_client_connection_write_bytes_def yields_settles same_target_chunk_size)
  from settles_from [OF this assms(2)] show ?thesis
    unfolding client_write_or_def using assms(3) by (intro settles_bind) (auto intro: settles_Some)
qed

lemma read_or_settles:
  assumes "0 < rc_chunk_size_out c" and "same_target c c0" and "\<And>bs c1. same_target c c1 \<Longrightarrow> settles c (k bs c1)"
  shows "settles c (client_read_or n c0 k)"
proof -
  obtain r bs c1 where "rtmp_client_connection_read_bytes n c0 = Some (r, bs, c1)" "same_target c c1"
    using reading_settles(1) [of c0 n] assms(1,2) same_target_chunk_size [OF assms(2)]
    by (auto intro: same_target_trans)
  with assms(3) show ?thesis by (simp add: client_read_or_def settles_Some)
qed

lemma read_available_settles:
  assumes "0 < rc_chunk_size_out c" and "same_target c c0" and "\<And>n bs c1. same_target c c1 \<Longrightarrow> settles c (f n bs c1)"
  shows "settles c (Option.bind (rtmp_client_connection_read_available m c0) (\<lambda>(n, bs, c1). f n bs c1))"
proof -
  obtain r bs c1 where "rtmp_client_connection_read_available m c0 = Some (r, bs, c1)" "same_target c c1"
    using reading_settles(2) [of c0 m] assms(1,2) same_target_chunk_size [OF assms(2)]
    by (auto intro: same_target_trans)
  with assms(3) show ?thesis by simp
qed

lemmas session_calls = write_or_settles read_or_settles read_available_settles settles_bind settles_Some same_target_update

lemma handshake_settles: "0 < rc_chunk_size_out c \<Longrightarrow> settles c (rtmp_client_handshake_process now rn c)"
  unfolding rtmp_client_handshake_process_def by (auto intro!: session_calls)

lemma write_chunk_settles: "0 < rc_chunk_size_out c \<Longrightarrow> settles c (rtmp_client_write_chunk c cs ty sid data)"
  unfolding rtmp_client_write_chunk_def by (auto intro!: session_calls)

lemma connect_settles: "0 < rc_chunk_size_out c \<Longrightarrow> settles c (rtmp_client_connect c)"
  unfolding rtmp_client_connect_def
  by (auto intro!: session_calls write_chunk_settles split: option.split)

lemma create_stream_settles: "0 < rc_chunk_size_out c \<Longrightarrow> settles c (rtmp_client_create_stream c)"
  unfolding rtmp_client_create_stream_def
  by (auto intro!: session_calls write_chunk_settles split: option.split)

lemma publish_settles: "0 < rc_chunk_size_out c \<Longrightarrow> settles c (rtmp_client_publish c)"
  unfolding rtmp_client_publish_def
  by (auto intro!: session_calls write_chunk_settles split: option.split)

lemma send_chunked_settles:
  "0 < rc_chunk_size_out c \<Longrightarrow> settles c (rtmp_client_send_chunked_message c cs ty ts data)"
  using send_chunked_yields [OF chunk_loop_returns, of c "Suc (rx_load c)"]
  by (simp add: rtmp_client_send_chunked_message_def yields_settles)


section \<open>Frames, and a request to stop\<close>

text \<open>A frame leaves the line as it is; it may break the connection and may mark the header as sent.\<close>

definition same_line :: "rtmp_client_connection \<Rightarrow> rtmp_client_connection \<Rightarrow> bool" where
  "same_line c c1 \<longleftrightarrow>
     (rc_state c1 = RTMP_CLIENT_STATE_PUBLISHING \<longrightarrow> rc_state c = RTMP_CLIENT_STATE_PUBLISHING) \<and>
     rc_name c1 = rc_name c \<and> rc_url c1 = rc_url c \<and> rc_use_tls c1 = rc_use_tls c \<and>
     (rc_avc_header_sent c \<longrightarrow> rc_avc_header_sent c1) \<and> rc_socket_fd c1 = rc_socket_fd c \<and>
     rc_thread_running c1 = rc_thread_running c \<and> rc_chunk_size_out c1 = rc_chunk_size_out c"

lemma same_line_refl [simp]: "same_line c c"
  by (simp add: same_line_def)

lemma same_line_trans [trans]: "same_line c c1 \<Longrightarrow> same_line c1 c2 \<Longrightarrow> same_line c c2"
  unfolding same_line_def by simp

lemma same_target_line: "same_target c c1 \<Longrightarrow> same_line c c1"
  by (simp add: same_target_def same_line_def)

lemma same_line_update:
  "same_line c c1 \<Longrightarrow> same_line c (c1\<lparr>rc_avc_header_sent := True\<rparr>)"
  "same_line c c1 \<Longrightarrow> same_line c (c1\<lparr>rc_frames_without_keyframe := n\<rparr>)"
  "same_line c c1 \<Longrightarrow> same_line c (c1\<lparr>rc_state := RTMP_CLIENT_STATE_DISCONNECTED\<rparr>)"
  "same_line c c1 \<Longrightarrow> same_line c (cache_params mok sp c1)"
  by (auto simp: same_line_def cache_params_def cache_parameter_sets_def split: option.splits)

lemma chunked_line:
  assumes "rtmp_client_send_chunked_message c cs ty ts data = Some (r, c1)" and "0 < rc_chunk_size_out c"
  shows "same_line c c1"
  using send_chunked_settles [OF assms(2), of cs ty ts data] assms(1)
  by (auto simp: settles_def intro: same_target_line)

lemma same_line_chunk_size: "same_line c c1 \<Longrightarrow> rc_chunk_size_out c1 = rc_chunk_size_out c"
  by (simp add: same_line_def)

lemma cached_header_line:
  "send_cached_avc_sequence_header mok c a b = Some (r, c1) \<Longrightarrow> 0 < rc_chunk_size_out c \<Longrightarrow> same_line c c1"
  by (auto simp: send_cached_avc_sequence_header_def split: option.splits if_splits intro: chunked_line)

lemma frame_header_line:
  "send_avc_sequence_header_from_frame mok c d = Some (r, c1) \<Longrightarrow> 0 < rc_chunk_size_out c \<Longrightarrow> same_line c c1"
  by (auto simp: send_avc_sequence_header_from_frame_def bind_eq_Some_conv split: prod.splits option.splits if_splits
      intro: chunked_line)

lemma before_keyframe_line:
  assumes "before_keyframe mok sp now d c = Some (go, c1)" and "0 < rc_chunk_size_out c"
  shows "same_line c c1"
proof -
  let ?c = "c\<lparr>rc_frames_without_keyframe := 0\<rparr>"
  have c: "same_line c ?c" "0 < rc_chunk_size_out ?c" using assms(2) by (simp_all add: same_line_def)
  show ?thesis
    using assms(1) c
    by (auto simp: before_keyframe_def Let_def bind_eq_Some_conv split: if_splits
        intro!: same_line_update dest!: cached_header_line frame_header_line intro: same_line_trans)
qed

lemma before_other_frame_line:
  assumes "before_other_frame mok sp now c = Some (go, c1)" and "0 < rc_chunk_size_out c"
  shows "same_line c c1"
  using assms
  by (auto simp: before_other_frame_def bind_eq_Some_conv split: if_splits
      intro!: same_line_update dest!: cached_header_line)

lemma before_frame_line:
  assumes "before_frame mok sp now d c st = Some (go, c1, st1)" and "0 < rc_chunk_size_out c"
  shows "same_line c c1"
proof -
  let ?c = "c\<lparr>rc_frames_without_keyframe := rc_frames_without_keyframe c + 1\<rparr>"
  have c: "same_line c ?c" "0 < rc_chunk_size_out ?c" using assms(2) by (simp_all add: same_line_def)
  show ?thesis
    using assms c before_keyframe_line before_other_frame_line [OF _ c(2)]
    by (auto simp: before_frame_def Let_def split: if_splits intro: same_line_trans)
qed

lemma silent_audio_line:
  assumes "rtmp_client_send_silent_audio_frame c ts = Some (r, c1)" and "0 < rc_chunk_size_out c"
  shows "same_line c c1"
  using assms by (auto simp: rtmp_client_send_silent_audio_frame_def split: if_splits intro: chunked_line)

lemma video_message_line:
  assumes "send_video_message msg ts c st = Some (r, c1, st1)" and "0 < rc_chunk_size_out c"
  shows "same_line c c1"
proof -
  from assms(1) obtain q c2 where s: "rtmp_client_send_chunked_message c 6 9 ts msg = Some (q, c2)"
    by (auto simp: send_video_message_def bind_eq_Some_conv)
  from chunked_line [OF this assms(2)] have l: "same_line c c2" .
  with assms(2) have "0 < rc_chunk_size_out c2" by (simp add: same_line_def)
  with assms(1) s l silent_audio_line [of c2 ts] show ?thesis
    by (auto simp: send_video_message_def bind_eq_Some_conv split: if_splits intro: same_line_update same_line_trans)
qed

lemma video_frame_line:
  assumes "rtmp_client_send_video_frame mok sp now c st d ts = Some (r, c1, st1)" and "0 < rc_chunk_size_out c"
  shows "same_line c c1"
proof (cases "c1 = c")
  case False
  with assms(1) obtain go c2 st2 where b: "before_frame mok sp now d c st = Some (go, c2, st2)"
    by (auto simp: rtmp_client_send_video_frame_def bind_eq_Some_conv split: if_splits)
  from before_frame_line [OF this assms(2)] have l: "same_line c c2" .
  with assms(2) have "0 < rc_chunk_size_out c2" by (simp add: same_line_def)
  with assms(1) b l False video_message_line [of _ ts c2 st2 r c1 st1] show ?thesis
    by (auto simp: rtmp_client_send_video_frame_def split: if_splits avcc_result.splits intro: same_line_trans)
qed simp


text \<open>
  The connection while three threads work on it: its own, the one that delivers frames, which looks at
  the state first, and the one that stops it.
\<close>

inductive client_step :: "thread_place \<times> rtmp_client_connection \<Rightarrow> thread_place \<times> rtmp_client_connection \<Rightarrow> bool" where
  thread: "0 < w_chunk_size w \<Longrightarrow> rtmp_client_connection_thread p w c = Some (p1, c1) \<Longrightarrow> client_step (p, c) (p1, c1)"
| frame: "rc_state c = RTMP_CLIENT_STATE_PUBLISHING \<Longrightarrow> rc_thread_running c \<Longrightarrow>
    rtmp_client_send_video_frame mok sp now c st d ts = Some (r, c1, st1) \<Longrightarrow> client_step (p, c) (p, c1)"
| stop: "rc_thread_running c \<Longrightarrow> client_step (p, c) (p, signal_stop c)"

inductive_cases client_stepE: "client_step (p, c) (p1, c1)"

text \<open>The places behind the call that publishes.\<close>

primrec published_place :: "thread_place \<Rightarrow> bool" where
  "published_place AtStart = False" | "published_place AtLoop = False"
| "published_place AtHandshake = False" | "published_place AtConnect = False"
| "published_place AtCreateStream = False" | "published_place AtPublish = False"
| "published_place AtPublished = True" | "published_place AtAnnounced = True"
| "published_place AtAudioConfig = True" | "published_place AtWatch = True"
| "published_place AtLost = True" | "published_place AtEnd = False"

text \<open>The places where the thread holds a socket.\<close>

definition line_place :: "thread_place \<Rightarrow> bool" where
  "line_place p \<longleftrightarrow> p \<noteq> AtStart \<and> p \<noteq> AtLoop \<and> p \<noteq> AtEnd"

definition thread_inv :: "thread_place \<times> rtmp_client_connection \<Rightarrow> bool" where
  "thread_inv x \<longleftrightarrow>
     (case x of (p, c) \<Rightarrow>
        0 < rc_chunk_size_out c \<and>
        (rc_state c = RTMP_CLIENT_STATE_PUBLISHING \<longrightarrow> published_place p) \<and>
        (line_place p \<and> rc_thread_running c \<longrightarrow> 0 \<le> rc_socket_fd c) \<and>
        (p = AtStart \<or> p = AtLoop \<longrightarrow> rc_socket_fd c < 0) \<and>
        (p = AtEnd \<and> rc_state c \<noteq> RTMP_CLIENT_STATE_ERROR \<longrightarrow> rc_socket_fd c < 0))"

lemma close_client_socket_same [simp]:
  "rc_socket_fd (close_client_socket c) = -1" "rc_state (close_client_socket c) = rc_state c"
  "rc_thread_running (close_client_socket c) = rc_thread_running c"
  "rc_chunk_size_out (close_client_socket c) = rc_chunk_size_out c"
  "rc_avc_header_sent (close_client_socket c) = rc_avc_header_sent c"
  "rc_use_tls (close_client_socket c) = rc_use_tls c" "rc_url (close_client_socket c) = rc_url c"
  "rc_ssl_context (close_client_socket c) = rc_ssl_context c" "rc_ssl_live (close_client_socket c) = rc_ssl_live c"
  "rc_name (close_client_socket c) = rc_name c"
  by (simp_all add: close_client_socket_def)

lemma tls_cleanup_same [simp]:
  "rc_socket_fd (rtmp_client_tls_cleanup c) = rc_socket_fd c" "rc_state (rtmp_client_tls_cleanup c) = rc_state c"
  "rc_thread_running (rtmp_client_tls_cleanup c) = rc_thread_running c"
  "rc_chunk_size_out (rtmp_client_tls_cleanup c) = rc_chunk_size_out c"
  "rc_avc_header_sent (rtmp_client_tls_cleanup c) = rc_avc_header_sent c"
  "rc_use_tls (rtmp_client_tls_cleanup c) = rc_use_tls c" "rc_url (rtmp_client_tls_cleanup c) = rc_url c"
  "\<not> rc_ssl_context (rtmp_client_tls_cleanup c)"
  "rc_name (rtmp_client_tls_cleanup c) = rc_name c"
  by (simp_all add: rtmp_client_tls_cleanup_def)

text \<open>
  One step of the thread: what it needs, what it leaves. The first of the places behind publishing is
  reached only through a publish command that was sent.
\<close>

lemmas open_connection_simps = open_connection_def rtmp_client_tls_setup_def attempt_failed_def Let_def

lemma open_connection_same [simp]:
  "rc_avc_header_sent (snd (open_connection w c)) = rc_avc_header_sent c"
  "rc_thread_running (snd (open_connection w c)) = rc_thread_running c"
  "rc_chunk_size_out (snd (open_connection w c)) = rc_chunk_size_out c"
  "rc_state (snd (open_connection w c)) = RTMP_CLIENT_STATE_CONNECTING"
  "rc_name (snd (open_connection w c)) = rc_name c"
  "rc_use_tls (snd (open_connection w c)) = rc_use_tls c"
  by (simp_all add: open_connection_simps)

lemma open_connection_place:
  "fst (open_connection w c) = AtLoop \<and> rc_socket_fd (snd (open_connection w c)) < 0 \<or>
   fst (open_connection w c) = AtHandshake \<and> 0 \<le> rc_socket_fd (snd (open_connection w c))"
  by (simp add: open_connection_simps)

lemma attempt_facts:
  assumes "attempt q y = Some (p1, c1)" and "settles c y"
  shows "(p1 = AtLoop \<and> rc_socket_fd c1 = -1 \<or> p1 = q \<and> rc_socket_fd c1 = rc_socket_fd c) \<and>
    (rc_state c1 = RTMP_CLIENT_STATE_PUBLISHING \<longrightarrow> rc_state c = RTMP_CLIENT_STATE_PUBLISHING) \<and>
    rc_avc_header_sent c1 = rc_avc_header_sent c \<and> rc_thread_running c1 = rc_thread_running c \<and>
    rc_chunk_size_out c1 = rc_chunk_size_out c \<and> rc_ssl_live c1 = rc_ssl_live c \<and> rc_use_tls c1 = rc_use_tls c \<and>
    rc_name c1 = rc_name c"
proof -
  from assms(2) obtain r c2 where y: "y = Some (r, c2)" "same_target c c2" by (auto simp: settles_def)
  with assms(1) have "(p1, c1) = (if r \<noteq> 0 then attempt_failed c2 else (q, c2))" by (simp add: attempt_def)
  with y(2) show ?thesis by (simp add: attempt_failed_def same_target_def split: if_split_asm)
qed


lemma start_publishing_same [simp]:
  "rc_socket_fd (start_publishing w c) = rc_socket_fd c" "rc_state (start_publishing w c) = RTMP_CLIENT_STATE_PUBLISHING"
  "rc_thread_running (start_publishing w c) = rc_thread_running c"
  "rc_chunk_size_out (start_publishing w c) = rc_chunk_size_out c"
  "rc_avc_header_sent (start_publishing w c) = rc_avc_header_sent c" "rc_name (start_publishing w c) = rc_name c"
  by (simp_all add: start_publishing_def)

lemma connection_lost_same [simp]:
  "rc_socket_fd (connection_lost c) < 0" "rc_state (connection_lost c) = RTMP_CLIENT_STATE_DISCONNECTED"
  "rc_thread_running (connection_lost c) = rc_thread_running c"
  "rc_chunk_size_out (connection_lost c) = rc_chunk_size_out c"
  "rc_avc_header_sent (connection_lost c) = rc_avc_header_sent c" "rc_name (connection_lost c) = rc_name c"
  by (simp_all add: connection_lost_def Let_def)

lemma aac_settles: "0 < rc_chunk_size_out c \<Longrightarrow> settles c (send_aac_config c)"
  unfolding send_aac_config_def by (auto intro!: session_calls send_chunked_settles)

text \<open>
  A step of the thread: either an attempt that goes on or fails, or one of the other steps. \<open>goes_on\<close> is
  what they have in common.
\<close>

definition goes_on :: "thread_place \<Rightarrow> rtmp_client_connection \<Rightarrow> thread_place \<Rightarrow> rtmp_client_connection \<Rightarrow> bool" where
  "goes_on p c p1 c1 \<longleftrightarrow>
     rc_avc_header_sent c1 = rc_avc_header_sent c \<and> rc_thread_running c1 = rc_thread_running c \<and>
     rc_name c1 = rc_name c \<and> 0 < rc_chunk_size_out c1 \<and>
     (rc_state c1 = RTMP_CLIENT_STATE_PUBLISHING \<longrightarrow>
        rc_state c = RTMP_CLIENT_STATE_PUBLISHING \<and> (published_place p \<longrightarrow> published_place p1) \<or> p1 = AtPublished) \<and>
     (line_place p1 \<longrightarrow> 0 \<le> rc_socket_fd c1 \<or> line_place p \<and> rc_socket_fd c1 = rc_socket_fd c) \<and>
     (p1 = AtLoop \<longrightarrow> rc_socket_fd c1 < 0 \<or> p = AtStart \<and> rc_socket_fd c1 = rc_socket_fd c) \<and>
     (p1 = AtEnd \<longrightarrow> rc_state c1 = RTMP_CLIENT_STATE_ERROR \<or>
        (p = AtStart \<or> p = AtLoop \<or> p = AtEnd) \<and> rc_socket_fd c1 = rc_socket_fd c \<and> rc_state c1 = rc_state c) \<and>
     p1 \<noteq> AtStart"

lemma attempt_goes_on:
  assumes "attempt q y = Some (p1, c1)" and "settles c y" and "0 < rc_chunk_size_out c"
    and "line_place q" and "line_place p" and "\<not> published_place p"
  shows "goes_on p c p1 c1"
  using attempt_facts [OF assms(1,2)] assms(3-) by (auto simp: goes_on_def line_place_def)

lemma announce_goes_on:
  assumes "map_option (\<lambda>(r, c1). if r < 0 then announce_failed c1 else (q, c1)) y = Some (p1, c1)"
    and "settles c y" and "0 < rc_chunk_size_out c" and "published_place q" and "line_place p" and "line_place q"
  shows "goes_on p c p1 c1"
proof -
  from assms(2) obtain r c2 where y: "y = Some (r, c2)" "same_target c c2" by (auto simp: settles_def)
  with assms(1) have "(p1, c1) = (if r < 0 then announce_failed c2 else (q, c2))" by simp
  with y(2) assms(3-6) show ?thesis
    by (simp add: announce_failed_def same_target_def goes_on_def line_place_def split: if_split_asm)
qed

lemma thread_goes_on:
  assumes "rtmp_client_connection_thread p w c = Some (p1, c1)" and "0 < rc_chunk_size_out c" and "0 < w_chunk_size w"
  shows "goes_on p c p1 c1"
proof (cases p)
  case AtStart
  with assms show ?thesis by (auto simp: goes_on_def line_place_def split: url_result.splits)
next
  case AtLoop
  with assms(1) have "p1 = (if rc_thread_running c then fst (open_connection w c) else AtEnd)"
    "c1 = (if rc_thread_running c then snd (open_connection w c) else c)" by (auto split: if_splits)
  with AtLoop assms(2) open_connection_place [of w c] show ?thesis
    by (auto simp: goes_on_def line_place_def)
next
  case AtHandshake
  with assms show ?thesis
    by (intro attempt_goes_on [OF _ handshake_settles, of AtConnect]) (auto simp: line_place_def)
next
  case AtConnect
  with assms show ?thesis
    by (intro attempt_goes_on [OF _ connect_settles, of AtCreateStream]) (auto simp: line_place_def)
next
  case AtCreateStream
  with assms show ?thesis
    by (intro attempt_goes_on [OF _ create_stream_settles, of AtPublish]) (auto simp: line_place_def)
next
  case AtPublish
  with assms(1) obtain c2 where a: "attempt AtPublished (rtmp_client_publish c) = Some (p1, c2)"
    "c1 = (if p1 = AtPublished then start_publishing w c2 else c2)" by auto
  from attempt_facts [OF a(1) publish_settles [OF assms(2)]] a(2) AtPublish assms(2) show ?thesis
    by (auto simp: goes_on_def line_place_def)
next
  case AtPublished
  with assms send_chunked_settles [OF assms(2), of 2 1 0 "be32 (w_chunk_size w)"] show ?thesis
    by (intro announce_goes_on [where q = AtAnnounced]) (simp_all add: line_place_def)
next
  case AtAudioConfig
  with assms aac_settles [OF assms(2)] show ?thesis
    by (intro announce_goes_on [where q = AtWatch]) (simp_all add: line_place_def)
next
  case AtLost
  with assms(1,2) connection_lost_same [of c] show ?thesis by (auto simp: goes_on_def line_place_def)
qed (use assms in \<open>auto simp: goes_on_def line_place_def split: if_splits\<close>)

lemma goes_on_inv:
  assumes "goes_on p c p1 c1" and "thread_inv (p, c)"
  shows "thread_inv (p1, c1)"
proof -
  have g: "rc_thread_running c1 = rc_thread_running c" "0 < rc_chunk_size_out c1"
    "rc_state c1 = RTMP_CLIENT_STATE_PUBLISHING \<Longrightarrow>
       rc_state c = RTMP_CLIENT_STATE_PUBLISHING \<and> (published_place p \<longrightarrow> published_place p1) \<or> p1 = AtPublished"
    "line_place p1 \<Longrightarrow> 0 \<le> rc_socket_fd c1 \<or> line_place p \<and> rc_socket_fd c1 = rc_socket_fd c"
    "p1 = AtLoop \<Longrightarrow> rc_socket_fd c1 < 0 \<or> p = AtStart \<and> rc_socket_fd c1 = rc_socket_fd c"
    "p1 = AtEnd \<Longrightarrow> rc_state c1 = RTMP_CLIENT_STATE_ERROR \<or>
        (p = AtStart \<or> p = AtLoop \<or> p = AtEnd) \<and> rc_socket_fd c1 = rc_socket_fd c \<and> rc_state c1 = rc_state c"
    "p1 \<noteq> AtStart"
    using assms(1) by (simp_all add: goes_on_def)
  have i: "rc_state c = RTMP_CLIENT_STATE_PUBLISHING \<Longrightarrow> published_place p"
    "line_place p \<Longrightarrow> rc_thread_running c \<Longrightarrow> 0 \<le> rc_socket_fd c"
    "p = AtStart \<or> p = AtLoop \<Longrightarrow> rc_socket_fd c < 0"
    "p = AtEnd \<Longrightarrow> rc_state c \<noteq> RTMP_CLIENT_STATE_ERROR \<Longrightarrow> rc_socket_fd c < 0"
    using assms(2) by (auto simp: thread_inv_def)
  have "rc_state c1 = RTMP_CLIENT_STATE_PUBLISHING \<Longrightarrow> published_place p1" using g(3) i(1) by auto
  moreover have "line_place p1 \<Longrightarrow> rc_thread_running c1 \<Longrightarrow> 0 \<le> rc_socket_fd c1" using g(1,4) i(2) by auto
  moreover have "p1 = AtStart \<or> p1 = AtLoop \<Longrightarrow> rc_socket_fd c1 < 0" using g(5,7) i(3) by auto
  moreover have "p1 = AtEnd \<Longrightarrow> rc_state c1 \<noteq> RTMP_CLIENT_STATE_ERROR \<Longrightarrow> rc_socket_fd c1 < 0"
    using g(6) i(3,4) by auto
  ultimately show ?thesis using g(2) by (simp add: thread_inv_def)
qed

text \<open>Everything else that happens keeps the invariant, too.\<close>

lemma client_step_inv:
  assumes "client_step x y" and "thread_inv x"
  shows "thread_inv y"
  using assms(1)
proof cases
  case (thread w p c p1 c1)
  with assms(2) have "0 < rc_chunk_size_out c" by (simp add: thread_inv_def)
  from thread_goes_on [OF thread(4) this thread(3)] assms(2) thread(1,2) show ?thesis
    by (auto intro: goes_on_inv)
next
  case (frame c mok sp now st d ts r c1 st1 p)
  with assms(2) have "0 < rc_chunk_size_out c" by (simp add: thread_inv_def)
  from video_frame_line [OF frame(5) this] assms(2) frame(1-4) show ?thesis
    by (auto simp: thread_inv_def same_line_def)
next
  case (stop c p)
  with assms(2) show ?thesis by (simp add: thread_inv_def signal_stop_def Let_def)
qed

lemma client_step_keeps:
  "client_step (p, c) (p1, c1) \<Longrightarrow> 0 < rc_chunk_size_out c \<Longrightarrow> rc_name c1 = rc_name c \<and> 0 < rc_chunk_size_out c1"
  by (elim client_stepE)
    (auto simp: goes_on_def same_line_def signal_stop_def Let_def dest: thread_goes_on video_frame_line)

lemma reachable_inv: "client_step\<^sup>*\<^sup>* x y \<Longrightarrow> thread_inv x \<Longrightarrow> thread_inv y"
  by (induction rule: rtranclp_induct) (auto intro: client_step_inv)

lemma created_inv:
  "rtmp_client_connection_create True t = Some c \<Longrightarrow> thread_inv (AtStart, snd (rtmp_client_connection_start ok c))"
  by (auto simp: rtmp_client_connection_create_def rtmp_client_connection_start_def thread_inv_def
      line_place_def RTMP_DEFAULT_CHUNK_SIZE_def)

text \<open>No step of the thread hangs: all of them return, a start with a URL that overflows its buffers apart.\<close>

lemma settles_map: "settles c y \<Longrightarrow> map_option f y \<noteq> None"
  by (auto simp: settles_def)

lemma thread_returns:
  assumes "0 < rc_chunk_size_out c" and "p \<noteq> AtStart"
  shows "rtmp_client_connection_thread p w c \<noteq> None"
  using settles_map [OF handshake_settles [OF assms(1)]] settles_map [OF connect_settles [OF assms(1)]]
    settles_map [OF create_stream_settles [OF assms(1)]] settles_map [OF publish_settles [OF assms(1)]]
    settles_map [OF send_chunked_settles [OF assms(1)]] settles_map [OF aac_settles [OF assms(1)]] assms(2)
  by (cases p) (simp_all add: attempt_def option.map_comp)


section \<open>Runs of the thread\<close>

fun run_thread ::
  "world list \<Rightarrow> thread_place \<times> rtmp_client_connection \<Rightarrow> (thread_place \<times> rtmp_client_connection) option" where
  "run_thread [] x = Some x"
| "run_thread (w # ws) (p, c) = Option.bind (rtmp_client_connection_thread p w c) (run_thread ws)"

lemma run_thread_append: "run_thread (us @ ws) x = Option.bind (run_thread us x) (run_thread ws)"
  by (induction us x rule: run_thread.induct) (auto split: bind_splits)

text \<open>The steps that are left to a thread that was told to stop.\<close>

primrec steps_left :: "thread_place \<Rightarrow> nat" where
  "steps_left AtEnd = 0" | "steps_left AtLoop = 1" | "steps_left AtStart = 2" | "steps_left AtLost = 2"
| "steps_left AtWatch = 3" | "steps_left AtAudioConfig = 4" | "steps_left AtAnnounced = 5"
| "steps_left AtPublished = 6" | "steps_left AtPublish = 7" | "steps_left AtCreateStream = 8"
| "steps_left AtConnect = 9" | "steps_left AtHandshake = 10"

lemma thread_place_after:
  assumes "rtmp_client_connection_thread p w c = Some (p1, c1)" and "\<not> rc_thread_running c"
  shows "steps_left p1 \<le> steps_left p - 1"
  using assms
  by (cases p)
    (auto simp: attempt_def attempt_failed_def announce_failed_def split: if_splits url_result.splits)

lemma run_stopped:
  assumes "\<not> rc_thread_running c" and "0 < rc_chunk_size_out c" and "p = AtStart \<Longrightarrow> rtmp_client_parse_url (rc_url c) \<noteq> UrlOverflow"
    and "list_all (\<lambda>w. 0 < w_chunk_size w) ws" and "steps_left p \<le> length ws"
  shows "\<exists>c1. run_thread ws (p, c) = Some (AtEnd, c1)"
  using assms
proof (induction ws arbitrary: p c)
  case Nil
  then show ?case by (cases p) simp_all
next
  case (Cons w ws)
  have "rtmp_client_connection_thread p w c \<noteq> None"
    using thread_returns [OF Cons.prems(2), of p w] Cons.prems(3)
    by (cases "p = AtStart") (auto split: url_result.splits)
  then obtain p1 c1 where s: "rtmp_client_connection_thread p w c = Some (p1, c1)" by auto
  from thread_goes_on [OF s Cons.prems(2)] Cons.prems(1,4)
  have "\<not> rc_thread_running c1" "0 < rc_chunk_size_out c1" "p1 \<noteq> AtStart" by (simp_all add: goes_on_def)
  moreover have "steps_left p1 \<le> length ws"
    using thread_place_after [OF s Cons.prems(1)] Cons.prems(5) by simp
  ultimately show ?case using Cons.IH [of c1 p1] Cons.prems(4) s by simp
qed

lemma run_keeps:
  assumes "run_thread ws (p, c) = Some (p1, c1)" and "0 < rc_chunk_size_out c"
    and "list_all (\<lambda>w. 0 < w_chunk_size w) ws"
  shows "rc_avc_header_sent c1 = rc_avc_header_sent c \<and> rc_name c1 = rc_name c \<and>
    rc_thread_running c1 = rc_thread_running c \<and> 0 < rc_chunk_size_out c1 \<and>
    (thread_inv (p, c) \<longrightarrow> thread_inv (p1, c1))"
  using assms
proof (induction ws arbitrary: p c)
  case (Cons w ws)
  from Cons.prems(1) obtain p2 c2 where s: "rtmp_client_connection_thread p w c = Some (p2, c2)"
    "run_thread ws (p2, c2) = Some (p1, c1)" by (auto simp: bind_eq_Some_conv)
  from thread_goes_on [OF s(1) Cons.prems(2)] Cons.prems(3) have g: "goes_on p c p2 c2" by simp
  then have k: "rc_avc_header_sent c2 = rc_avc_header_sent c" "rc_name c2 = rc_name c"
    "rc_thread_running c2 = rc_thread_running c" "0 < rc_chunk_size_out c2" by (simp_all add: goes_on_def)
  from Cons.IH [OF s(2) k(4)] Cons.prems(3) k goes_on_inv [OF g] show ?case by simp
qed auto


section \<open>A whole attempt\<close>

text \<open>
  A plain socket that accepts everything in the end and whose failures to receive are those of an empty one, and a
  window of acknowledgement that what the server still sends does not fill.
\<close>

definition calm_line :: "rtmp_client_connection \<Rightarrow> bool" where
  "calm_line c \<longleftrightarrow> \<not> rc_use_tls c \<and> tx_ok (rc_io c) \<and> list_all id (rc_would_block c) \<and>
     unat (rc_bytes_received c - rc_last_ack_sent c) + script_load (rx (rc_io c)) < unat (rc_window_ack_size c)"

text \<open>Reading an answer: nothing but the socket and the count of bytes changes, and no acknowledgement is due.\<close>

lemma unat_count: "unat (x + word_of_int r - y :: u32) \<le> unat (x - y) + nat r" if "0 \<le> r"
proof -
  have e: "x + word_of_int r - y = (x - y) + (word_of_nat (nat r) :: u32)" using that by simp
  have "unat (x + word_of_int r - y) = (unat (x - y) + unat (word_of_nat (nat r) :: u32)) mod 2 ^ LENGTH(32)"
    by (simp only: e unat_word_ariths(1))
  also have "\<dots> \<le> unat (x - y) + unat (word_of_nat (nat r) :: u32)" by (rule mod_less_eq_dividend)
  also have "unat (word_of_nat (nat r) :: u32) \<le> nat r" by (simp add: unat_of_nat)
  finally show ?thesis by simp
qed

lemma read_available_calm:
  assumes "calm_line c"
  shows "\<exists>r bs es wb b. rtmp_client_connection_read_available n c =
      Some (r, bs, c\<lparr>rc_io := (rc_io c)\<lparr>rx := es\<rparr>, rc_would_block := wb, rc_bytes_received := b\<rparr>) \<and> 0 \<le> r \<and>
    calm_line (c\<lparr>rc_io := (rc_io c)\<lparr>rx := es\<rparr>, rc_would_block := wb, rc_bytes_received := b\<rparr>) \<and>
    script_load es \<le> script_load (rx (rc_io c)) \<and> (script_load (rx (rc_io c)) = 0 \<longrightarrow> r = 0)"
proof -
  obtain r bs es where r: "recv (rx (rc_io c)) n = (r, bs, es)" by (metis prod_cases3)
  note load = recv_load [OF r]
  have pos: "0 \<le> r \<Longrightarrow> r = int (length bs)" using r by (cases "(rx (rc_io c), n)" rule: recv.cases) (auto split: if_splits)
  have zero: "rc_bytes_received c = rc_bytes_received (c\<lparr>rc_io := (rc_io c)\<lparr>rx := es\<rparr>\<rparr>)" by simp
  consider "r < 0" "rc_would_block c = []" | b wb where "r < 0" "rc_would_block c = b # wb" | "r = 0" | "0 < r"
    using linorder_less_linear [of r 0] by (cases "rc_would_block c") auto
  then show ?thesis
  proof cases
    case 1
    with r load assms show ?thesis
      by (intro exI [of _ 0] exI [of _ "[]"] exI [of _ es] exI [of _ "[]"] exI [of _ "rc_bytes_received c"])
        (auto simp: rtmp_client_connection_read_available_def read_available_with_def recv_now_def calm_line_def tx_ok_def Let_def)
  next
    case (2 b wb)
    with r load assms show ?thesis
      by (intro exI [of _ 0] exI [of _ "[]"] exI [of _ es] exI [of _ wb] exI [of _ "rc_bytes_received c"])
        (auto simp: rtmp_client_connection_read_available_def read_available_with_def recv_now_def calm_line_def tx_ok_def Let_def)
  next
    case 3
    with r load assms show ?thesis
      by (intro exI [of _ 0] exI [of _ bs] exI [of _ es] exI [of _ "rc_would_block c"] exI [of _ "rc_bytes_received c"])
        (auto simp: rtmp_client_connection_read_available_def read_available_with_def recv_now_def calm_line_def tx_ok_def Let_def)
  next
    case 4
    let ?b = "rc_bytes_received c + word_of_int r"
    have "unat (?b - rc_last_ack_sent c) + script_load es < unat (rc_window_ack_size c)"
      using unat_count [of r "rc_bytes_received c" "rc_last_ack_sent c"] 4 pos load assms by (simp add: calm_line_def)
    moreover have some: "0 < script_load (rx (rc_io c))" using 4 pos load by (cases bs) auto
    ultimately have w: "\<not> rc_window_ack_size c \<le> ?b - rc_last_ack_sent c" by (simp add: word_le_nat_alt)
    with 4 r load pos assms some \<open>unat (?b - rc_last_ack_sent c) + script_load es < unat (rc_window_ack_size c)\<close> show ?thesis
      by (intro exI [of _ r] exI [of _ bs] exI [of _ es] exI [of _ "rc_would_block c"] exI [of _ ?b])
        (auto simp: rtmp_client_connection_read_available_def read_available_with_def recv_now_def calm_line_def tx_ok_def
          Let_def count_received_with_def check_and_send_ack_with_def some)
  qed
qed

text \<open>A command as it goes out.\<close>

definition command_chunk :: "u8 \<Rightarrow> u32 \<Rightarrow> bytes \<Rightarrow> bytes" where
  "command_chunk cs sid data = [cs] @ be24 0 @ be24 (word_of_nat (length data)) @ [20] @ le32 sid @ data"

lemma read_after_write_calm:
  assumes "calm_line (c\<lparr>rc_io := s\<rparr>)"
  shows "\<exists>r bs es wb b. rtmp_client_connection_read_available n (c\<lparr>rc_io := s\<rparr>) =
      Some (r, bs, c\<lparr>rc_io := s\<lparr>rx := es\<rparr>, rc_would_block := wb, rc_bytes_received := b\<rparr>) \<and> 0 \<le> r \<and>
    calm_line (c\<lparr>rc_io := s\<lparr>rx := es\<rparr>, rc_would_block := wb, rc_bytes_received := b\<rparr>) \<and>
    script_load es \<le> script_load (rx s) \<and> (script_load (rx s) = 0 \<longrightarrow> r = 0)"
  using read_available_calm [OF assms, of n] by simp

lemma read_again_calm:
  assumes "calm_line (c\<lparr>rc_io := s, rc_would_block := wb, rc_bytes_received := b\<rparr>)"
  shows "\<exists>r bs es2 wb2 b2. rtmp_client_connection_read_available n
      (c\<lparr>rc_io := s, rc_would_block := wb, rc_bytes_received := b\<rparr>) =
      Some (r, bs, c\<lparr>rc_io := s\<lparr>rx := es2\<rparr>, rc_would_block := wb2, rc_bytes_received := b2\<rparr>) \<and>
    calm_line (c\<lparr>rc_io := s\<lparr>rx := es2\<rparr>, rc_would_block := wb2, rc_bytes_received := b2\<rparr>)"
  using read_available_calm [OF assms, of n] by - (simp, elim exE conjE, intro exI conjI, assumption+)

lemma calm_write_chunk:
  assumes "calm_line c" and "data \<noteq> []"
  shows "\<exists>s. rtmp_client_write_chunk c cs 20 sid data = Some (0, c\<lparr>rc_io := s\<rparr>) \<and> calm_line (c\<lparr>rc_io := s\<rparr>) \<and>
    tx s = tx (rc_io c) @ command_chunk cs sid data \<and> rx s = rx (rc_io c)"
proof -
  from assms(1) have "tx_ok (rc_io c)" by (simp add: calm_line_def)
  from write_chunk_ok [OF this assms(2), of cs 20 sid] assms(1) show ?thesis
    by (auto simp: calm_line_def command_chunk_def)
qed

text \<open>A command on a calm line: it is sent, and the client goes on with whatever comes back, or nothing.\<close>

lemma command_calm:
  assumes "calm_line c" and "data \<noteq> []"
  shows "\<exists>s r bs es wb b. rtmp_client_write_chunk c cs 20 sid data = Some (0, c\<lparr>rc_io := s\<rparr>) \<and>
    rtmp_client_connection_read_available 2048 (c\<lparr>rc_io := s\<rparr>) =
      Some (r, bs, c\<lparr>rc_io := s\<lparr>rx := es\<rparr>, rc_would_block := wb, rc_bytes_received := b\<rparr>) \<and> 0 \<le> r \<and>
    calm_line (c\<lparr>rc_io := s\<lparr>rx := es\<rparr>, rc_would_block := wb, rc_bytes_received := b\<rparr>) \<and>
    tx s = tx (rc_io c) @ command_chunk cs sid data \<and> script_load es \<le> script_load (rx (rc_io c)) \<and>
    (script_load (rx (rc_io c)) = 0 \<longrightarrow> r = 0)"
proof -
  from calm_write_chunk [OF assms, of cs sid] obtain s where
    s: "rtmp_client_write_chunk c cs 20 sid data = Some (0, c\<lparr>rc_io := s\<rparr>)" "calm_line (c\<lparr>rc_io := s\<rparr>)"
      "tx s = tx (rc_io c) @ command_chunk cs sid data" "rx s = rx (rc_io c)" by blast
  obtain r bs es wb b where
    "rtmp_client_connection_read_available 2048 (c\<lparr>rc_io := s\<rparr>) =
      Some (r, bs, c\<lparr>rc_io := s\<lparr>rx := es\<rparr>, rc_would_block := wb, rc_bytes_received := b\<rparr>)" "0 \<le> r"
    "calm_line (c\<lparr>rc_io := s\<lparr>rx := es\<rparr>, rc_would_block := wb, rc_bytes_received := b\<rparr>)"
    "script_load es \<le> script_load (rx s)" "script_load (rx s) = 0 \<longrightarrow> r = 0"
    using read_after_write_calm [OF s(2), of 2048] by - (elim exE conjE, rule that, assumption+)
  with s show ?thesis
    by (intro exI [of _ s] exI [of _ r] exI [of _ bs] exI [of _ es] exI [of _ wb] exI [of _ b]) simp
qed

lemma connect_calm:
  assumes "calm_line c" and "length (rc_app c) < 256"
  shows "\<exists>s wb b. rtmp_client_connect c =
      Some (0, c\<lparr>rc_io := s, rc_would_block := wb, rc_bytes_received := b, rc_state := RTMP_CLIENT_STATE_CONNECTED\<rparr>) \<and>
    calm_line (c\<lparr>rc_io := s, rc_would_block := wb, rc_bytes_received := b\<rparr>) \<and>
    tx s = tx (rc_io c) @ command_chunk 3 0 (command_bytes (connect_command c)) \<and>
    script_load (rx s) \<le> script_load (rx (rc_io c))"
proof -
  have "command_bytes (connect_command c) \<noteq> []" by (simp add: command_bytes_def)
  from command_calm [OF assms(1) this, of 3 0] obtain s r bs es wb b where
    s: "rtmp_client_write_chunk c 3 20 0 (command_bytes (connect_command c)) = Some (0, c\<lparr>rc_io := s\<rparr>)"
      "rtmp_client_connection_read_available 2048 (c\<lparr>rc_io := s\<rparr>) =
        Some (r, bs, c\<lparr>rc_io := s\<lparr>rx := es\<rparr>, rc_would_block := wb, rc_bytes_received := b\<rparr>)" "0 \<le> r"
      "calm_line (c\<lparr>rc_io := s\<lparr>rx := es\<rparr>, rc_would_block := wb, rc_bytes_received := b\<rparr>)"
      "tx s = tx (rc_io c) @ command_chunk 3 0 (command_bytes (connect_command c))"
      "script_load es \<le> script_load (rx (rc_io c))" by blast
  then show ?thesis
    by (intro exI [of _ "s\<lparr>rx := es\<rparr>"] exI [of _ wb] exI [of _ b])
      (simp add: rtmp_client_connect_def connect_payload_bytes [OF assms(2)])
qed

text \<open>The stream id is that of the answer, or 1 if the server has nothing to say.\<close>

lemma create_stream_calm:
  assumes "calm_line c"
  shows "\<exists>s wb b i. rtmp_client_create_stream c =
      Some (0, c\<lparr>rc_io := s, rc_would_block := wb, rc_bytes_received := b, rc_stream_id := i,
                 rc_state := RTMP_CLIENT_STATE_STREAM_CREATED\<rparr>) \<and>
    calm_line (c\<lparr>rc_io := s, rc_would_block := wb, rc_bytes_received := b\<rparr>) \<and>
    tx s = tx (rc_io c) @ command_chunk 3 0 (command_bytes create_stream_command) \<and>
    (script_load (rx (rc_io c)) = 0 \<longrightarrow> i = double_1)"
proof -
  have "command_bytes create_stream_command \<noteq> []" by (simp add: command_bytes_def)
  from command_calm [OF assms(1) this, of 3 0] obtain s r bs es wb b where
    s: "rtmp_client_write_chunk c 3 20 0 (command_bytes create_stream_command) = Some (0, c\<lparr>rc_io := s\<rparr>)"
      "rtmp_client_connection_read_available 2048 (c\<lparr>rc_io := s\<rparr>) =
        Some (r, bs, c\<lparr>rc_io := s\<lparr>rx := es\<rparr>, rc_would_block := wb, rc_bytes_received := b\<rparr>)" "0 \<le> r"
      "calm_line (c\<lparr>rc_io := s\<lparr>rx := es\<rparr>, rc_would_block := wb, rc_bytes_received := b\<rparr>)"
      "tx s = tx (rc_io c) @ command_chunk 3 0 (command_bytes create_stream_command)"
      "script_load (rx (rc_io c)) = 0 \<longrightarrow> r = 0" by - (elim exE conjE, rule that, assumption+)
  then show ?thesis
    by (intro exI [of _ "s\<lparr>rx := es\<rparr>"] exI [of _ wb] exI [of _ b] exI [of _ "if r = 0 then double_1 else extract_stream_id bs"])
      (simp add: rtmp_client_create_stream_def create_stream_payload_bytes)
qed


lemma publish_calm:
  assumes "calm_line c" and "publish_name c \<noteq> []" and "length (publish_name c) < 256"
  shows "\<exists>s wb b. rtmp_client_publish c = Some (0, c\<lparr>rc_io := s, rc_would_block := wb, rc_bytes_received := b\<rparr>) \<and>
    calm_line (c\<lparr>rc_io := s, rc_would_block := wb, rc_bytes_received := b\<rparr>) \<and>
    tx s = tx (rc_io c) @
      command_chunk 8 (double_to_u32 (rc_stream_id c)) (command_bytes (publish_command (publish_name c)))"
proof -
  let ?d = "command_bytes (publish_command (publish_name c))" and ?id = "double_to_u32 (rc_stream_id c)"
  have "?d \<noteq> []" by (simp add: command_bytes_def)
  from command_calm [OF assms(1) this, of 8 ?id] obtain s r bs es wb b where
    s: "rtmp_client_write_chunk c 8 20 ?id ?d = Some (0, c\<lparr>rc_io := s\<rparr>)"
      "rtmp_client_connection_read_available 2048 (c\<lparr>rc_io := s\<rparr>) =
        Some (r, bs, c\<lparr>rc_io := s\<lparr>rx := es\<rparr>, rc_would_block := wb, rc_bytes_received := b\<rparr>)" "0 \<le> r"
      "calm_line (c\<lparr>rc_io := s\<lparr>rx := es\<rparr>, rc_would_block := wb, rc_bytes_received := b\<rparr>)"
      "tx s = tx (rc_io c) @ command_chunk 8 ?id ?d" by blast
  note pub = rtmp_client_publish_def publish_payload_bytes [OF assms(3)]
  show ?thesis
  proof (cases "r = 0")
    case False
    with s assms(2) show ?thesis
      by (intro exI [of _ "s\<lparr>rx := es\<rparr>"] exI [of _ wb] exI [of _ b]) (simp add: pub)
  next
    case True
    obtain r2 bs2 es2 wb2 b2 where
      "rtmp_client_connection_read_available 2048 (c\<lparr>rc_io := s\<lparr>rx := es\<rparr>, rc_would_block := wb, rc_bytes_received := b\<rparr>) =
        Some (r2, bs2, c\<lparr>rc_io := s\<lparr>rx := es, rx := es2\<rparr>, rc_would_block := wb2, rc_bytes_received := b2\<rparr>)"
      "calm_line (c\<lparr>rc_io := s\<lparr>rx := es, rx := es2\<rparr>, rc_would_block := wb2, rc_bytes_received := b2\<rparr>)"
      using read_again_calm [OF s(4), of 2048] by - (elim exE conjE, rule that, assumption+)
    with s assms(2) True show ?thesis
      by (intro exI [of _ "s\<lparr>rx := es2\<rparr>"] exI [of _ wb2] exI [of _ b2]) (simp add: pub)
  qed
qed

text \<open>What a connection writes from the handshake to its audio configuration; \<open>s1\<close> is the server's block, \<open>stream\<close> the id of the stream.\<close>

definition session_bytes :: "rtmp_client_connection \<Rightarrow> u32 \<Rightarrow> bytes \<Rightarrow> bytes \<Rightarrow> u64 \<Rightarrow> bytes" where
  "session_bytes c now rn s1 stream =
     [3] @ s1_block now rn @ s1 @ command_chunk 3 0 (command_bytes (connect_command c)) @
     command_chunk 3 0 (command_bytes create_stream_command) @
     command_chunk 8 (double_to_u32 stream) (command_bytes (publish_command (publish_name c)))"

lemma double_1_u32: "double_to_u32 double_1 = 1"
  by (simp add: double_to_u32_def double_1_def mask_eq_exp_minus_1)

lemma handshake_calm:
  assumes "calm_line c" and "pending (rc_io c) = [3] @ s1 @ s2 @ rest" and "length s1 = 1536" and "length s2 = 1536"
    and "length rn \<ge> 1528"
  shows "\<exists>s. rtmp_client_handshake_process now rn c =
      Some (0, c\<lparr>rc_c1_s1_data := s1_block now rn, rc_c2_s2_data := s2, rc_bytes_received := rc_bytes_received c + 3073,
                 rc_state := RTMP_CLIENT_STATE_HANDSHAKE_DONE, rc_io := s\<rparr>) \<and>
    calm_line (c\<lparr>rc_bytes_received := rc_bytes_received c + 3073, rc_io := s\<rparr>) \<and>
    tx s = tx (rc_io c) @ [3] @ s1_block now rn @ s1 \<and> script_load (rx s) + 3073 \<le> script_load (rx (rc_io c))"
proof -
  have "tx_ok (rc_io c)" using assms(1) by (simp add: calm_line_def)
  from handshake_ok [OF this assms(2-5), of now] obtain s where
    s: "rtmp_client_handshake_process now rn c =
      Some (0, c\<lparr>rc_c1_s1_data := s1_block now rn, rc_c2_s2_data := s2, rc_bytes_received := rc_bytes_received c + 3073,
                 rc_state := RTMP_CLIENT_STATE_HANDSHAKE_DONE, rc_io := s\<rparr>)"
    "tx s = tx (rc_io c) @ [3] @ s1_block now rn @ s1" "tx_ok s" "script_load (rx s) + 3073 \<le> script_load (rx (rc_io c))"
    by blast
  then have "calm_line (c\<lparr>rc_bytes_received := rc_bytes_received c + 3073, rc_io := s\<rparr>)"
    using assms(1) unat_count [of 3073 "rc_bytes_received c" "rc_last_ack_sent c"] by (simp add: calm_line_def)
  with s show ?thesis by blast
qed


text \<open>The part of an attempt up to publishing, call by call.\<close>

lemma attempt_calm:
  assumes "calm_line c" and "pending (rc_io c) = [3] @ s1 @ s2 @ rest" and "length s1 = 1536" and "length s2 = 1536"
    and "length (w_random w) \<ge> 1528"
    and "length (rc_app c) < 256" and "publish_name c \<noteq> []" and "length (publish_name c) < 256"
  shows "\<exists>c1. run_thread [w, w, w, w] (AtHandshake, c) = Some (AtPublished, start_publishing w c1) \<and> calm_line c1 \<and>
    same_target (c\<lparr>rc_state := RTMP_CLIENT_STATE_PUBLISHING\<rparr>) c1 \<and>
    tx (rc_io c1) = tx (rc_io c) @ session_bytes c (w_time w) (w_random w) s1 (rc_stream_id c1) \<and>
    (script_load (rx (rc_io c)) = 3073 \<longrightarrow> rc_stream_id c1 = double_1)"
proof -
  from handshake_calm [OF assms(1-5), of "w_time w"] obtain sa where
    a: "rtmp_client_handshake_process (w_time w) (w_random w) c =
      Some (0, c\<lparr>rc_c1_s1_data := s1_block (w_time w) (w_random w), rc_c2_s2_data := s2,
                 rc_bytes_received := rc_bytes_received c + 3073, rc_state := RTMP_CLIENT_STATE_HANDSHAKE_DONE, rc_io := sa\<rparr>)"
    "calm_line (c\<lparr>rc_bytes_received := rc_bytes_received c + 3073, rc_io := sa\<rparr>)"
    "tx sa = tx (rc_io c) @ [3] @ s1_block (w_time w) (w_random w) @ s1"
    "script_load (rx sa) + 3073 \<le> script_load (rx (rc_io c))" by blast
  define ca where "ca = c\<lparr>rc_c1_s1_data := s1_block (w_time w) (w_random w), rc_c2_s2_data := s2,
                 rc_bytes_received := rc_bytes_received c + 3073, rc_state := RTMP_CLIENT_STATE_HANDSHAKE_DONE, rc_io := sa\<rparr>"
  have qa: "calm_line ca" "rc_app ca = rc_app c" using a(2) by (simp_all add: ca_def calm_line_def)
  obtain sb wb xb where b: "rtmp_client_connect ca =
      Some (0, ca\<lparr>rc_io := sb, rc_would_block := wb, rc_bytes_received := xb, rc_state := RTMP_CLIENT_STATE_CONNECTED\<rparr>)"
    "calm_line (ca\<lparr>rc_io := sb, rc_would_block := wb, rc_bytes_received := xb\<rparr>)"
    "tx sb = tx (rc_io ca) @ command_chunk 3 0 (command_bytes (connect_command ca))"
    "script_load (rx sb) \<le> script_load (rx (rc_io ca))"
    using connect_calm [OF qa(1)] assms(6) qa(2) by auto
  define cb where "cb = ca\<lparr>rc_io := sb, rc_would_block := wb, rc_bytes_received := xb, rc_state := RTMP_CLIENT_STATE_CONNECTED\<rparr>"
  have qb: "calm_line cb" using b(2) by (simp add: cb_def calm_line_def)
  obtain sc wc xc i where d: "rtmp_client_create_stream cb =
      Some (0, cb\<lparr>rc_io := sc, rc_would_block := wc, rc_bytes_received := xc, rc_stream_id := i,
                 rc_state := RTMP_CLIENT_STATE_STREAM_CREATED\<rparr>)"
    "calm_line (cb\<lparr>rc_io := sc, rc_would_block := wc, rc_bytes_received := xc\<rparr>)"
    "tx sc = tx (rc_io cb) @ command_chunk 3 0 (command_bytes create_stream_command)"
    "script_load (rx (rc_io cb)) = 0 \<longrightarrow> i = double_1"
    using create_stream_calm [OF qb] by - (elim exE conjE, rule that, assumption+)
  define cc where "cc = cb\<lparr>rc_io := sc, rc_would_block := wc, rc_bytes_received := xc, rc_stream_id := i,
                 rc_state := RTMP_CLIENT_STATE_STREAM_CREATED\<rparr>"
  have qc: "calm_line cc" "rc_stream_id cc = i" using d(2) by (simp_all add: cc_def calm_line_def)
  have pn: "publish_name cc = publish_name c" by (simp add: cc_def cb_def ca_def publish_name_def)
  obtain sd wd xd where e: "rtmp_client_publish cc = Some (0, cc\<lparr>rc_io := sd, rc_would_block := wd, rc_bytes_received := xd\<rparr>)"
    "calm_line (cc\<lparr>rc_io := sd, rc_would_block := wd, rc_bytes_received := xd\<rparr>)"
    "tx sd = tx (rc_io cc) @ command_chunk 8 (double_to_u32 i) (command_bytes (publish_command (publish_name c)))"
    using publish_calm [OF qc(1)] assms(7,8) pn qc(2) by auto
  have "tx sd = tx (rc_io c) @ session_bytes c (w_time w) (w_random w) s1 i"
    using e(3) d(3) b(3) a(3)
    by (simp add: cc_def cb_def ca_def session_bytes_def connect_command_def tc_url_def)
  moreover have "script_load (rx (rc_io c)) = 3073 \<longrightarrow> i = double_1"
    using d(4) b(4) a(4) by (simp add: cb_def ca_def)
  moreover have "run_thread [w, w, w, w] (AtHandshake, c) =
      Some (AtPublished, start_publishing w (cc\<lparr>rc_io := sd, rc_would_block := wd, rc_bytes_received := xd\<rparr>))"
    using a(1) b(1) d(1) e(1) by (simp add: attempt_def flip: ca_def cb_def cc_def)
  ultimately show ?thesis
    using e(2) by (intro exI [of _ "cc\<lparr>rc_io := sd, rc_would_block := wd, rc_bytes_received := xd\<rparr>"])
      (simp add: same_target_def cc_def cb_def ca_def)
qed


lemma attempt_publishes:
  assumes "rc_thread_running c" and "\<not> rc_use_tls c" and "0 < rc_chunk_size_out c"
    and "0 \<le> w_socket w" and "w_resolved w" and "w_connected w" and "0 < w_chunk_size w" and "length (w_random w) \<ge> 1528"
    and "tx_ok (w_io w)" and "pending (w_io w) = [3] @ s1 @ s2 @ rest" and "tx (w_io w) = []"
    and "length s1 = 1536" and "length s2 = 1536" and "list_all id (rc_would_block c)"
    and "unat (rc_bytes_received c - rc_last_ack_sent c) + script_load (rx (w_io w)) < unat (rc_window_ack_size c)"
    and "length (rc_app c) < 256" and "publish_name c \<noteq> []" and "length (publish_name c) < 256"
  shows "\<exists>c1. run_thread (replicate 8 w) (AtLoop, c) = Some (AtWatch, c1) \<and>
    can_send c1 \<and> rc_socket_fd c1 = w_socket w \<and> rc_chunk_size_out c1 = w_chunk_size w \<and>
    tx (rc_io c1) = session_bytes c (w_time w) (w_random w) s1 (rc_stream_id c1) @
      message_wire (c1\<lparr>rc_chunk_size_out := rc_chunk_size_out c\<rparr>) 2 1 0 (be32 (w_chunk_size w)) @
      message_wire c1 4 8 0 [0xAF, 0, 0x12, 0x10] \<and>
    (script_load (rx (w_io w)) = 3073 \<longrightarrow> rc_stream_id c1 = double_1)"
proof -
  define c0 where "c0 = c\<lparr>rc_state := RTMP_CLIENT_STATE_CONNECTING, rc_socket_fd := w_socket w, rc_io := w_io w\<rparr>"
  have 0: "open_connection w c = (AtHandshake, c0)"
    using assms(2,4-6) by (simp add: open_connection_def Let_def c0_def)
  have n: "publish_name c0 = publish_name c" "rc_app c0 = rc_app c" "session_bytes c0 = session_bytes c"
    by (simp_all add: c0_def publish_name_def session_bytes_def connect_command_def tc_url_def fun_eq_iff)
  have calm: "calm_line c0" using assms(2,9,14,15) by (simp add: calm_line_def c0_def)
  obtain cp where p: "run_thread [w, w, w, w] (AtHandshake, c0) = Some (AtPublished, start_publishing w cp)" "calm_line cp"
      "same_target (c0\<lparr>rc_state := RTMP_CLIENT_STATE_PUBLISHING\<rparr>) cp"
      "tx (rc_io cp) = session_bytes c (w_time w) (w_random w) s1 (rc_stream_id cp)"
      "script_load (rx (w_io w)) = 3073 \<longrightarrow> rc_stream_id cp = double_1"
    using attempt_calm [OF calm, of s1 s2 rest w] assms(8,10-13,16-18) n by (auto simp: c0_def)
  define cq where "cq = start_publishing w cp"
  have q: "tx_ok (rc_io cq)" "rc_chunk_size_out cq = rc_chunk_size_out c" "rc_socket_fd cq = w_socket w"
    "tx (rc_io cq) = session_bytes c (w_time w) (w_random w) s1 (rc_stream_id cp)"
    "rc_state cq = RTMP_CLIENT_STATE_PUBLISHING" "rc_stream_id cq = rc_stream_id cp"
    using p(2-4) by (simp_all add: cq_def start_publishing_def calm_line_def same_target_def c0_def)
  obtain s where s: "rtmp_client_send_chunked_message cq 2 1 0 (be32 (w_chunk_size w)) = Some (0, cq\<lparr>rc_io := s\<rparr>)"
      "tx_ok s" "tx s = tx (rc_io cq) @ message_wire cq 2 1 0 (be32 (w_chunk_size w))"
    using send_chunked_ok [of cq 2 "be32 (w_chunk_size w)" 1 0] q assms(3) by (auto simp: be32_def)
  define cr where "cr = cq\<lparr>rc_io := s, rc_chunk_size_out := w_chunk_size w\<rparr>"
  obtain t where t: "rtmp_client_send_chunked_message cr 4 8 0 [0xAF, 0, 0x12, 0x10] = Some (0, cr\<lparr>rc_io := t\<rparr>)"
      "tx t = tx (rc_io cr) @ message_wire cr 4 8 0 [0xAF, 0, 0x12, 0x10]" "tx_ok t"
    using send_chunked_ok [of cr 4 "[0xAF, 0, 0x12, 0x10]" 8 0] s assms(7) by (auto simp: cr_def)
  have aac: "send_aac_config cr = Some (0, cr\<lparr>rc_io := t\<rparr>)" by (simp add: send_aac_config_def t)
  have "replicate 8 w = [w] @ [w, w, w, w] @ [w, w, w]" by (simp add: numeral_eq_Suc)
  moreover have "run_thread [w] (AtLoop, c) = Some (AtHandshake, c0)" using assms(1) 0 by simp
  ultimately have "run_thread (replicate 8 w) (AtLoop, c) = run_thread [w, w, w] (AtPublished, cq)"
    using p(1) by (simp only: run_thread_append cq_def bind.bind_lunit)
  also have "\<dots> = Some (AtWatch, cr\<lparr>rc_io := t\<rparr>)"
    using s(1) aac by (simp flip: cr_def)
  finally have "run_thread (replicate 8 w) (AtLoop, c) = Some (AtWatch, cr\<lparr>rc_io := t\<rparr>)" .
  moreover have "message_wire (cr\<lparr>rc_io := t, rc_chunk_size_out := rc_chunk_size_out c\<rparr>) = message_wire cq"
    using q(2) by (simp add: cr_def message_wire_def message_header_def fun_eq_iff)
  ultimately show ?thesis
    using q s(3) t(2,3) assms(4,7) p(5)
    by (intro exI [of _ "cr\<lparr>rc_io := t\<rparr>"]) (simp add: cr_def message_wire_def message_header_def can_send_def)
qed


section \<open>Properties\<close>

text \<open>
  C9. An attempt over a plain socket that accepts everything, to a server that completes the handshake and answers
  the commands with anything or nothing, in any segments, or closes: as long as it does not send so much that an
  acknowledgement is due and no receive fails other than for want of data, in eight steps the thread is where it
  watches the connection, publishing with the configured chunk size, and has written the handshake, the commands
  connect, createStream and publish, the last for the stream id it then holds (1 if the server sent nothing), the
  announcement of the chunk size and the audio configuration, and nothing else.
\<close>

theorem client_attempt_publishes:
  assumes "rc_thread_running c" and "\<not> rc_use_tls c" and "0 < rc_chunk_size_out c"
    and "0 \<le> w_socket w" and "w_resolved w" and "w_connected w" and "0 < w_chunk_size w" and "length (w_random w) \<ge> 1528"
    and "tx_ok (w_io w)" and "pending (w_io w) = [3] @ s1 @ s2 @ rest" and "tx (w_io w) = []"
    and "length s1 = 1536" and "length s2 = 1536" and "list_all id (rc_would_block c)"
    and "unat (rc_bytes_received c - rc_last_ack_sent c) + script_load (rx (w_io w)) < unat (rc_window_ack_size c)"
    and "length (rc_app c) < 256" and "publish_name c \<noteq> []" and "length (publish_name c) < 256"
  shows "\<exists>c1. run_thread (replicate 8 w) (AtLoop, c) = Some (AtWatch, c1) \<and>
    rc_state c1 = RTMP_CLIENT_STATE_PUBLISHING \<and> rc_socket_fd c1 = w_socket w \<and> rc_chunk_size_out c1 = w_chunk_size w \<and>
    tx (rc_io c1) = session_bytes c (w_time w) (w_random w) s1 (rc_stream_id c1) @
      message_wire (c1\<lparr>rc_chunk_size_out := rc_chunk_size_out c\<rparr>) 2 1 0 (be32 (w_chunk_size w)) @
      message_wire c1 4 8 0 [0xAF, 0, 0x12, 0x10] \<and>
    (script_load (rx (w_io w)) = 3073 \<longrightarrow> rc_stream_id c1 = double_1)"
  using attempt_publishes [OF assms] by (auto simp: can_send_def)

text \<open>
  C7. Whatever the system calls answer, whatever the peer sends and however frames and a request to stop come in
  between: a connection of a target is in the publishing state only behind a publish command that was sent;
  while it is not told to stop its thread holds a descriptor at every place between opening and losing the
  connection; and when the thread is at the head of its loop, or has ended other than in the error state, the descriptor is closed.
\<close>

theorem client_thread_invariant:
  assumes "rtmp_client_connection_create True t = Some c0" and "rtmp_client_connection_start ok c0 = (r, c1)"
    and "client_step\<^sup>*\<^sup>* (AtStart, c1) (p, c)"
  shows "(rc_state c = RTMP_CLIENT_STATE_PUBLISHING \<longrightarrow> published_place p) \<and>
    (line_place p \<and> rc_thread_running c \<longrightarrow> 0 \<le> rc_socket_fd c) \<and>
    (p = AtLoop \<or> p = AtEnd \<and> rc_state c \<noteq> RTMP_CLIENT_STATE_ERROR \<longrightarrow> rc_socket_fd c < 0) \<and>
    0 < rc_chunk_size_out c"
proof -
  have "thread_inv (AtStart, c1)" using created_inv [OF assms(1), of ok] assms(2) by simp
  from reachable_inv [OF assms(3) this] show ?thesis by (auto simp: thread_inv_def)
qed

text \<open>
  C15. Stopping a connection comes to an end: wherever the thread is, at its start with a URL that does not overflow
  its buffers, once it is told to stop it ends within ten of its steps, each of which returns, whatever the peer
  does and for any configured chunk size but 0; its descriptor is closed then, unless it ended in the error state.
\<close>

theorem client_stop_ends_thread:
  assumes "thread_inv (p, c)" and "p = AtStart \<longrightarrow> rtmp_client_parse_url (rc_url c) \<noteq> UrlOverflow" and "10 \<le> length ws" and "list_all (\<lambda>w. 0 < w_chunk_size w) ws"
  shows "\<exists>c1. run_thread ws (p, signal_stop c) = Some (AtEnd, c1) \<and>
    (rc_state c1 = RTMP_CLIENT_STATE_ERROR \<or> rc_socket_fd c1 < 0)"
proof -
  let ?c = "signal_stop c"
  have c: "\<not> rc_thread_running ?c" "0 < rc_chunk_size_out ?c" "thread_inv (p, ?c)"
    using assms(1) by (auto simp: signal_stop_def thread_inv_def Let_def)
  have u: "p = AtStart \<Longrightarrow> rtmp_client_parse_url (rc_url ?c) \<noteq> UrlOverflow"
    using assms(2) by (simp add: signal_stop_def close_client_socket_def Let_def)
  have "steps_left p \<le> length ws" using assms(3) by (cases p) simp_all
  from run_stopped [OF c(1,2) u assms(4) this] obtain c1 where r: "run_thread ws (p, ?c) = Some (AtEnd, c1)" by blast
  from run_keeps [OF r c(2) assms(4)] c(3) r show ?thesis by (auto simp: thread_inv_def)
qed

text \<open>
  TLS sessions leak: every attempt whose TLS handshake fails leaves a session behind that nothing frees any
  more; taking the connection down afterwards frees the last one only.
\<close>

theorem client_tls_leak:
  assumes "rc_thread_running c" and "rc_use_tls c"
    and "list_all (\<lambda>w. 0 \<le> w_socket w \<and> w_resolved w \<and> w_connected w \<and> w_ssl_ctx w \<and> w_ssl_new w \<and> \<not> w_ssl_connect w) ws"
    and "ws \<noteq> []"
  shows "\<exists>c1. run_thread ws (AtLoop, c) = Some (AtLoop, c1) \<and>
    rc_ssl_live c1 = rc_ssl_live c + length ws \<and>
    rc_ssl_live (rtmp_client_connection_destroy id (signal_stop c1)) = rc_ssl_live c + length ws - 1"
proof -
  have "\<exists>c1. run_thread ws (AtLoop, c) = Some (AtLoop, c1) \<and> rc_ssl_live c1 = rc_ssl_live c + length ws \<and>
      rc_ssl_context c1 = (rc_ssl_context c \<or> ws \<noteq> [])"
    using assms(1-3)
  proof (induction ws arbitrary: c)
    case (Cons w ws)
    let ?c = "snd (open_connection w c)"
    have "rtmp_client_connection_thread AtLoop w c = Some (AtLoop, ?c)"
      and "rc_ssl_live ?c = rc_ssl_live c + 1" and "rc_ssl_context ?c"
      using Cons.prems by (simp_all add: open_connection_simps rtmp_client_tls_handshake_def)
    with Cons.IH [of ?c] Cons.prems show ?case by auto
  qed simp
  with assms(4) show ?thesis
    by (auto simp: rtmp_client_connection_destroy_def signal_stop_def Let_def rtmp_client_tls_cleanup_def)
qed

text \<open>
  After a reconnection the sequence header is not sent again: if a connection that has sent its header is lost and
  established anew, the first bytes of the next frame on the new line are the message of the frame itself,
  although its server and every player behind it have seen no parameter sets.
\<close>

theorem client_reconnect_skips_header:
  assumes "run_thread ws (AtLost, c) = Some (AtWatch, c1)" and "0 < rc_chunk_size_out c"
    and "list_all (\<lambda>w. 0 < w_chunk_size w) ws" and "rc_avc_header_sent c" and "can_send c1"
    and "list_all nal_unit ns" and "ns \<noteq> []" and "mok (length (annex_b ns) + 16)"
  shows "\<exists>c2 st1. rtmp_client_send_video_frame mok sp now c1 st (annex_b ns) ts = Some (0, c2, st1) \<and>
    tx (rc_io c2) = tx (rc_io c1) @ frame_wire c1 st ts (video_payload ns)"
proof -
  have "rc_avc_header_sent c1" using run_keeps [OF assms(1-3)] assms(4) by simp
  from ready_client_sends [of c1 ns mok sp now st ts] this assms(5-8) show ?thesis by blast
qed


section \<open>Examples\<close>

text \<open>
  A world in which every call succeeds; the server shakes hands, sends two bytes when asked to connect and a result
  with a stream id when asked for a stream.
\<close>

definition sample_answer :: bytes where
  "sample_answer = [3, 0, 0, 0, 0, 0, 29, 20, 0, 0, 0, 0] @ amf_bytes (AmfString (ascii ''_result'')) @
     amf_bytes (AmfNumber double_2) @ amf_bytes AmfNull @ amf_bytes (AmfNumber double_1)"

definition sample_world :: world where
  "sample_world =
     \<lparr>w_socket = 7, w_resolved = True, w_connected = True,
      w_io = \<lparr>rx = [RxData ([3] @ replicate 1536 1 @ replicate 1536 2), RxData [3, 0], RxData sample_answer],
              tx_plan = [1, 900], tx = []\<rparr>,
      w_ssl_ctx = True, w_ssl_new = True, w_ssl_connect = False, w_time = 9, w_random = replicate 1528 5,
      w_clock = 100, w_monotonic = 200, w_chunk_size = 4096, w_socket_error = False\<rparr>"

lemma sample_world_calm:
  "pending (w_io sample_world) = [3] @ replicate 1536 1 @ replicate 1536 2 @ [3, 0] @ sample_answer"
  "tx_ok (w_io sample_world)" "script_load (rx (w_io sample_world)) < 4000" "tx (w_io sample_world) = []"
proof -
  have "length sample_answer < 100" "sample_answer \<noteq> []" by code_simp+
  then show "pending (w_io sample_world) = [3] @ replicate 1536 1 @ replicate 1536 2 @ [3, 0] @ sample_answer"
    "script_load (rx (w_io sample_world)) < 4000"
    by (simp_all add: sample_world_def pending_def)
qed (simp_all add: sample_world_def tx_ok_def)

lemma sample_world_fields [simp]:
  "w_socket sample_world = 7" "w_resolved sample_world" "w_connected sample_world" "w_ssl_ctx sample_world"
  "w_ssl_new sample_world" "\<not> w_ssl_connect sample_world" "w_random sample_world = replicate 1528 5"
  "w_chunk_size sample_world = 4096"
  by (simp_all add: sample_world_def)

lemma sample_client_fields [simp]:
  "rc_thread_running sample_client" "\<not> rc_use_tls sample_client" "rc_chunk_size_out sample_client = 3"
  "rc_app sample_client = ''live''" "publish_name sample_client = ''k1''" "rc_would_block sample_client = []"
  "rc_state sample_client = RTMP_CLIENT_STATE_PUBLISHING" "rc_socket_fd sample_client = 5"
  "rc_avc_header_sent sample_client" "rc_ssl_live sample_client = 0" "rc_bytes_received sample_client = 0"
  "rc_last_ack_sent sample_client = 0" "rc_window_ack_size sample_client = 2500000"
  by (simp_all add: sample_client_def publish_name_def)

theorem client_attempt_publishes_witness:
  "\<exists>c1. run_thread (replicate 8 sample_world) (AtLoop, sample_client) = Some (AtWatch, c1) \<and>
     rc_state c1 = RTMP_CLIENT_STATE_PUBLISHING \<and> rc_socket_fd c1 = 7 \<and> rc_chunk_size_out c1 = 4096"
  using client_attempt_publishes [OF _ _ _ _ _ _ _ _ sample_world_calm(2,1,4), of sample_client] sample_world_calm(3)
  by auto

definition sample_target :: rtmp_stream_target where
  "sample_target = \<lparr>target_name = ''tube'', target_enabled = True, target_url = ''rtmp://h/live'', target_stream_key = ''k1'',
     target_retry_interval = 30, target_max_retries = 3, target_connection_timeout = 10\<rparr>"

theorem client_thread_invariant_witness:
  "\<exists>c0 c. rtmp_client_connection_create True sample_target = Some c0 \<and>
     client_step\<^sup>*\<^sup>* (AtStart, snd (rtmp_client_connection_start True c0)) (AtLoop, c) \<and> rc_app c = ''live'' \<and> rc_socket_fd c < 0"
proof -
  obtain c0 where c0: "rtmp_client_connection_create True sample_target = Some c0" "rc_url c0 = ''rtmp://h/live''"
    by (simp add: rtmp_client_connection_create_def sample_target_def)
  obtain r c1 where c1: "rtmp_client_connection_start True c0 = (r, c1)" "rc_url c1 = ''rtmp://h/live''"
    using c0 that by (cases "rtmp_client_connection_start True c0")
      (auto simp: rtmp_client_connection_start_def split: if_splits)
  have u: "rtmp_client_parse_url ''rtmp://h/live'' = Url ''h'' 1935 ''live'' [] False" by code_simp
  define c where "c = c1\<lparr>rc_host := ''h'', rc_port := 1935, rc_app := ''live'', rc_stream := [], rc_use_tls := False\<rparr>"
  have "client_step (AtStart, c1) (AtLoop, c)"
    using u c1(2) by (intro client_step.thread [of sample_world]) (simp_all add: c_def)
  then have st: "client_step\<^sup>*\<^sup>* (AtStart, c1) (AtLoop, c)" by blast
  from client_thread_invariant [OF c0(1) c1(1) st] have "rc_socket_fd c < 0" by simp
  moreover have "rc_app c = ''live''" by (simp add: c_def)
  ultimately show ?thesis using st c0(1) c1(1) by (intro exI [of _ c0] exI [of _ c]) simp
qed

theorem client_stop_ends_thread_witness:
  "\<exists>c1. run_thread (replicate 10 sample_world) (AtWatch, signal_stop sample_client) = Some (AtEnd, c1) \<and>
     (rc_state c1 = RTMP_CLIENT_STATE_ERROR \<or> rc_socket_fd c1 < 0)"
  using client_stop_ends_thread [of AtWatch sample_client "replicate 10 sample_world"]
  by (simp add: thread_inv_def line_place_def list_all_iff)

theorem client_tls_leak_witness:
  "\<exists>c1. run_thread [sample_world, sample_world, sample_world] (AtLoop, sample_client\<lparr>rc_use_tls := True\<rparr>) = Some (AtLoop, c1) \<and>
     rc_ssl_live c1 = 3 \<and> rc_ssl_live (rtmp_client_connection_destroy id (signal_stop c1)) = 2"
  using client_tls_leak [of "sample_client\<lparr>rc_use_tls := True\<rparr>" "[sample_world, sample_world, sample_world]"]
  by (simp add: numeral_3_eq_3 numeral_2_eq_2 del: run_thread.simps)

theorem client_reconnect_skips_header_witness:
  "\<exists>c1 c2 st1. run_thread (replicate 9 sample_world) (AtLost, sample_client) = Some (AtWatch, c1) \<and>
     rtmp_client_send_video_frame (\<lambda>n. n < 100) sample_params 0 c1 \<lparr>last_audio_timestamp = 0, idr_requests = 0\<rparr>
       (annex_b sample_units) 50 = Some (0, c2, st1) \<and>
     tx (rc_io c2) = tx (rc_io c1) @ frame_wire c1 \<lparr>last_audio_timestamp = 0, idr_requests = 0\<rparr> 50 (video_payload sample_units)"
proof -
  let ?w = sample_world and ?l = "connection_lost sample_client"
  have l: "rc_thread_running ?l" "\<not> rc_use_tls ?l" "0 < rc_chunk_size_out ?l" "rc_app ?l = ''live''"
    "publish_name ?l = ''k1''" "list_all id (rc_would_block ?l)"
    "rc_bytes_received ?l = 0" "rc_last_ack_sent ?l = 0" "rc_window_ack_size ?l = 2500000"
    by (simp_all add: connection_lost_def Let_def close_client_socket_def publish_name_def)
      (simp_all add: sample_client_def)
  have "\<exists>c1. run_thread (replicate 8 ?w) (AtLoop, ?l) = Some (AtWatch, c1) \<and> can_send c1"
    using attempt_publishes [OF l(1-3) _ _ _ _ _ sample_world_calm(2,1,4) _ _ l(6)] l(4,5,7-9) sample_world_calm(3)
    by auto
  then obtain c1 where c1: "run_thread (replicate 8 ?w) (AtLoop, ?l) = Some (AtWatch, c1)" "can_send c1" by blast
  have "replicate 9 ?w = ?w # replicate 8 ?w" by (simp add: numeral_eq_Suc)
  with c1(1) have r: "run_thread (replicate 9 ?w) (AtLost, sample_client) = Some (AtWatch, c1)" by simp
  have "list_all (\<lambda>w. 0 < w_chunk_size w) (replicate 9 ?w)" by (simp add: list_all_iff)
  from client_reconnect_skips_header [OF r _ this _ c1(2) sample_units_nal(1,2), of "\<lambda>n. n < 100" sample_params 0
      "\<lparr>last_audio_timestamp = 0, idr_requests = 0\<rparr>" 50] r
  show ?thesis unfolding sample_units_nal(3) by simp
qed

end
