(* ===== verification/JsonConfig.thy ===== *)
theory JsonConfig
  imports CStrings Complex_Main
begin

text \<open>
  What the configuration parsers of the modules share: the values of a \<open>float\<close> and a \<open>double\<close> with the
  conversions, the sum and the comparisons the program uses, and the accessors of json-c, which is not
  part of the repository and stays a parameter.
\<close>

section \<open>Floating point\<close>

text \<open>
  \<open>Fin m e\<close> is the number \<open>m * 2 ^ e\<close>; every finite \<open>float\<close> and \<open>double\<close> is one. The sign of a zero is
  left out: no operation of the program shows it.
\<close>

datatype cfloat = NaN | Inf bool | Fin int int

fun bit_length :: "nat \<Rightarrow> nat" where
  "bit_length n = (if n = 0 then 0 else Suc (bit_length (n div 2)))"

declare bit_length.simps [simp del]

lemma bit_length_eval [simp]:
  "bit_length 0 = 0" "bit_length (Suc 0) = 1"
  "bit_length (numeral (Num.Bit0 k)) = Suc (bit_length (numeral k))"
  "bit_length (numeral (Num.Bit1 k)) = Suc (bit_length (numeral k))"
  "bit_length (numeral Num.One) = 1"
  by (simp_all add: bit_length.simps)

text \<open>The quotient by \<open>2 ^ k\<close>, rounded to the nearest integer, and half-way to an even one.\<close>

definition div_nearest :: "nat \<Rightarrow> nat \<Rightarrow> nat" where
  "div_nearest a k =
     (let q = a div 2 ^ k; r = 2 * (a mod 2 ^ k)
      in if 2 ^ k < r \<or> (r = 2 ^ k \<and> odd q) then q + 1 else q)"

text \<open>
  The \<open>float\<close> nearest to \<open>m * 2 ^ e\<close>: 24 bits, no unit below \<open>2 ^ -149\<close>, infinite from \<open>2 ^ 128\<close> on.
\<close>

definition float_bounded :: "int \<Rightarrow> int \<Rightarrow> cfloat" where
  "float_bounded m e = (if 0 \<le> e \<and> 2 ^ 128 \<le> \<bar>m\<bar> * 2 ^ nat e then Inf (m < 0) else Fin m e)"

definition float_round :: "int \<Rightarrow> int \<Rightarrow> cfloat" where
  "float_round m e =
     (let a = nat \<bar>m\<bar>; s = max (int (bit_length a) - 24) (- 149 - e)
      in if m = 0 then Fin 0 0
         else if s \<le> 0 then float_bounded m e
         else float_bounded (sgn m * int (div_nearest a (nat s))) (e + s))"

definition to_float :: "cfloat \<Rightarrow> cfloat" where
  "to_float x = (case x of Fin m e \<Rightarrow> float_round m e | _ \<Rightarrow> x)"

definition float_of_int :: "int \<Rightarrow> cfloat" where
  "float_of_int i = float_round i 0"

text \<open>\<open>(int)x\<close>; out of the range of \<open>int\<close> C leaves the result open, and it is \<open>ub\<close> here.\<close>

definition int_of_float :: "int \<Rightarrow> cfloat \<Rightarrow> int" where
  "int_of_float ub x =
     (case x of
        Fin m e \<Rightarrow>
          (let v = (if 0 \<le> e then m * 2 ^ nat e else sgn m * (\<bar>m\<bar> div 2 ^ nat (- e)))
           in if int_range v then v else ub)
      | _ \<Rightarrow> ub)"

fun float_add :: "cfloat \<Rightarrow> cfloat \<Rightarrow> cfloat" where
  "float_add (Fin m e) (Fin n f) =
     (let k = min e f in float_round (m * 2 ^ nat (e - k) + n * 2 ^ nat (f - k)) k)"
| "float_add (Inf a) (Inf b) = (if a = b then Inf a else NaN)"
| "float_add (Inf a) (Fin n f) = Inf a"
| "float_add (Fin m e) (Inf b) = Inf b"
| "float_add NaN y = NaN"
| "float_add x NaN = NaN"

fun float_less :: "cfloat \<Rightarrow> cfloat \<Rightarrow> bool" where
  "float_less (Fin m e) (Fin n f) =
     (let k = min e f in m * 2 ^ nat (e - k) < n * 2 ^ nat (f - k))"
| "float_less (Inf a) (Inf b) = (a \<and> \<not> b)"
| "float_less (Inf a) (Fin n f) = a"
| "float_less (Fin m e) (Inf b) = (\<not> b)"
| "float_less NaN y = False"
| "float_less x NaN = False"

definition float_le :: "cfloat \<Rightarrow> cfloat \<Rightarrow> bool" where
  "float_le x y \<longleftrightarrow> x \<noteq> NaN \<and> y \<noteq> NaN \<and> \<not> float_less y x"

subsection \<open>The order\<close>

fun valuation :: "cfloat \<Rightarrow> real" where
  "valuation (Fin m e) = of_int m * 2 powi e"
| "valuation x = 0"

lemma scaled:
  assumes "k \<le> e"
  shows "real_of_int (m * 2 ^ nat (e - k)) * 2 powi k = valuation (Fin m e)"
proof -
  have "(2 :: real) ^ nat (e - k) * 2 powi k = 2 powi e"
    using assms by (simp add: power_int_def [symmetric] flip: power_int_of_nat power_int_add)
  then show ?thesis by simp
qed

lemma float_less_valuation:
  "float_less (Fin m e) (Fin n f) \<longleftrightarrow> valuation (Fin m e) < valuation (Fin n f)"
proof -
  let ?k = "min e f"
  have "valuation (Fin m e) < valuation (Fin n f) \<longleftrightarrow>
      real_of_int (m * 2 ^ nat (e - ?k)) * 2 powi ?k < real_of_int (n * 2 ^ nat (f - ?k)) * 2 powi ?k"
    by (simp only: scaled min.cobounded1 min.cobounded2)
  also have "\<dots> \<longleftrightarrow> float_less (Fin m e) (Fin n f)"
    by (simp add: Let_def del: of_int_mult of_int_power)
  finally show ?thesis by simp
qed

lemma float_less_trans:
  "float_less x y \<Longrightarrow> float_less y z \<Longrightarrow> float_less x z"
  by (cases x; cases y; cases z) (auto simp: float_less_valuation simp del: float_less.simps(1) valuation.simps)

lemma float_less_irrefl [simp]: "\<not> float_less x x"
  by (cases x) auto

lemma float_less_le_trans: "float_less x y \<Longrightarrow> float_le y z \<Longrightarrow> float_less x z"
  by (cases x; cases y; cases z)
    (auto simp: float_le_def float_less_valuation simp del: float_less.simps(1) valuation.simps)

lemma float_le_less_trans: "float_le x y \<Longrightarrow> float_less y z \<Longrightarrow> float_less x z"
  by (cases x; cases y; cases z)
    (auto simp: float_le_def float_less_valuation simp del: float_less.simps(1) valuation.simps)

subsection \<open>Integers\<close>

lemma bit_length_le: "a < 2 ^ n \<Longrightarrow> bit_length a \<le> n"
proof (induction n arbitrary: a)
  case (Suc n)
  from Suc.prems have "a div 2 < 2 ^ n" by simp
  from Suc.IH [OF this] show ?case by (subst bit_length.simps) simp
qed (simp add: bit_length.simps)

lemma less_bit_length: "a < 2 ^ bit_length a"
proof (induction a rule: less_induct)
  case (less a)
  show ?case
  proof (cases "a = 0")
    case False
    then have "a div 2 < 2 ^ bit_length (a div 2)" by (intro less) simp
    then have "a < 2 * 2 ^ bit_length (a div 2)" by simp
    with False show ?thesis by (subst bit_length.simps) simp
  qed (simp add: bit_length.simps)
qed

lemma div_nearest_exact: "2 ^ k dvd a \<Longrightarrow> div_nearest a k = a div 2 ^ k"
  by (auto simp: div_nearest_def Let_def dvd_eq_mod_eq_0)

lemma div_nearest_le: "div_nearest a k \<le> a div 2 ^ k + 1"
  by (simp add: div_nearest_def Let_def)

lemma quotient_bits: "n \<le> bit_length a \<Longrightarrow> a div 2 ^ (bit_length a - n) < 2 ^ n"
  using less_bit_length [of a] by (simp add: less_mult_imp_div_less flip: power_add)

lemma quotient_scaled: "n \<le> bit_length a \<Longrightarrow> div_nearest a (bit_length a - n) * 2 ^ (bit_length a - n) \<le> 2 ^ bit_length a"
proof -
  assume n: "n \<le> bit_length a"
  have "div_nearest a (bit_length a - n) \<le> 2 ^ n"
    using div_nearest_le [of a "bit_length a - n"] quotient_bits [OF n] by simp
  then have "div_nearest a (bit_length a - n) * 2 ^ (bit_length a - n) \<le> 2 ^ n * 2 ^ (bit_length a - n)"
    by simp
  with n show ?thesis by (simp flip: power_add)
qed

text \<open>An integer is converted to a multiple of a power of two, with up to 24 bits exactly.\<close>

lemma float_of_int_form:
  assumes "a < 2 ^ 100"
  shows "float_of_int (int a) =
    (if bit_length a \<le> 24 then Fin (int a) 0
     else Fin (int (div_nearest a (bit_length a - 24))) (int (bit_length a - 24)))"
proof -
  consider "a = 0" | "0 < a" "bit_length a \<le> 24" | "0 < a" "24 < bit_length a" by linarith
  then show ?thesis
  proof cases
    case 2
    with assms show ?thesis by (simp add: float_of_int_def float_round_def float_bounded_def Let_def)
  next
    case 3
    let ?k = "bit_length a - 24"
    have le: "bit_length a \<le> 100" using assms by (rule bit_length_le)
    have "div_nearest a ?k * 2 ^ ?k \<le> 2 ^ bit_length a" using 3(2) by (intro quotient_scaled) simp
    also have "\<dots> \<le> 2 ^ 100" using le by (rule power_increasing) simp
    finally have "int (div_nearest a ?k * 2 ^ ?k) \<le> int (2 ^ 100)" by (simp only: of_nat_le_iff)
    then have b: "int (div_nearest a ?k) * 2 ^ ?k < 2 ^ 128" by simp
    have s: "max (int (bit_length a) - 24) (- 149 - 0) = int ?k" using 3 by simp
    have "float_of_int (int a) = float_bounded (sgn (int a) * int (div_nearest a ?k)) (int ?k)"
      using 3(1) unfolding float_of_int_def float_round_def Let_def abs_of_nat nat_int s
      using 3(2) by simp
    with 3 b show ?thesis by (simp add: float_bounded_def del: of_nat_diff)
  qed (simp add: bit_length.simps float_of_int_def float_round_def)
qed

lemma bit_length_scaled: "a < 2 ^ n \<Longrightarrow> bit_length (a * 2 ^ k) \<le> n + k"
  by (rule bit_length_le) (simp add: power_add)

text \<open>A number of 24 bits with zeros behind it is converted exactly.\<close>

lemma float_of_int_exact:
  assumes "a = q * 2 ^ k" and "q < 2 ^ 24" and "a < 2 ^ 100"
  shows "\<exists>m e. float_of_int (int a) = Fin (int m) (int e) \<and> m * 2 ^ e = a"
proof -
  let ?s = "bit_length a - 24"
  have "?s \<le> k" using bit_length_scaled [OF assms(2), of k] assms(1) by simp
  then have dvd: "2 ^ ?s dvd a" by (simp add: assms(1) dvd_mult le_imp_power_dvd)
  have "float_of_int (int a) = Fin (int a) (int 0) \<and> a * 2 ^ 0 = a \<or>
      float_of_int (int a) = Fin (int (a div 2 ^ ?s)) (int ?s) \<and> a div 2 ^ ?s * 2 ^ ?s = a"
    using float_of_int_form [OF assms(3)] dvd by (cases "bit_length a \<le> 24") (simp_all add: div_nearest_exact)
  then show ?thesis by blast
qed

text \<open>Every number up to \<open>2 ^ 30\<close> becomes an integral \<open>float\<close>, which \<open>(int)\<close> reads back.\<close>

lemma float_of_int_integral:
  assumes "0 \<le> i" and "i < 2 ^ 30"
  shows "valuation (float_of_int (int_of_float ub (float_of_int i))) = valuation (float_of_int i)"
    and "\<exists>m e. float_of_int (int_of_float ub (float_of_int i)) = Fin m e"
    and "\<exists>m e. float_of_int i = Fin m e"
proof -
  let ?a = "nat i"
  let ?b = "bit_length ?a"
  have a: "?a < 2 ^ 30" "int ?a = i" using assms by simp_all
  then have a100: "?a < 2 ^ 100" by simp
  have b: "?b \<le> 30" using a(1) by (rule bit_length_le)
  define q where "q = (if ?b \<le> 24 then ?a else div_nearest ?a (?b - 24))"
  define k where "k = (if ?b \<le> 24 then 0 else ?b - 24)"
  have form: "float_of_int i = Fin (int q) (int k)"
    using float_of_int_form [OF a100] a(2) by (simp add: q_def k_def)
  have q: "q \<le> 2 ^ 24"
  proof (cases "?b \<le> 24")
    case True
    then have "(2 :: nat) ^ ?b \<le> 2 ^ 24" by (rule power_increasing) simp
    with less_bit_length [of ?a] have "?a \<le> 2 ^ 24" by (rule order.strict_implies_order [OF less_le_trans])
    with True show ?thesis by (simp only: q_def if_True)
  next
    case False
    with div_nearest_le [of ?a "?b - 24"] quotient_bits [of 24 ?a] show ?thesis by (simp add: q_def)
  qed
  have "q * 2 ^ k \<le> 2 ^ ?b \<or> q * 2 ^ k \<le> 2 ^ 30"
    using quotient_scaled [of 24 ?a] a(1) by (auto simp: q_def k_def)
  moreover have "(2 :: nat) ^ ?b \<le> 2 ^ 30" using b by (rule power_increasing) simp
  ultimately have n30: "q * 2 ^ k \<le> 2 ^ 30" by (auto intro: order_trans)
  then have n: "q * 2 ^ k < 2 ^ 31" "q * 2 ^ k < 2 ^ 100" by simp_all
  have "- 2147483648 \<le> int q * 2 ^ k" by (rule order_trans [of _ 0]) simp_all
  with n(1) have int: "int_of_float ub (float_of_int i) = int (q * 2 ^ k)"
    by (simp add: form int_of_float_def int_range_def Let_def flip: of_nat_less_iff [where 'a = int])
  have "\<exists>m e. float_of_int (int (q * 2 ^ k)) = Fin (int m) (int e) \<and> m * 2 ^ e = q * 2 ^ k"
  proof (cases "q = 2 ^ 24")
    case True
    then have "q * 2 ^ k = 1 * 2 ^ (24 + k)" by (simp add: power_add)
    from float_of_int_exact [OF this _ n(2)] show ?thesis by simp
  next
    case False
    with q have "q < 2 ^ 24" by simp
    from float_of_int_exact [OF refl this n(2)] show ?thesis .
  qed
  then obtain m e where me: "float_of_int (int (q * 2 ^ k)) = Fin (int m) (int e)" "m * 2 ^ e = q * 2 ^ k"
    by blast
  then have "real (m * 2 ^ e) = real (q * 2 ^ k)" by (simp only:)
  moreover have "float_of_int (int_of_float ub (float_of_int i)) = Fin (int m) (int e)"
    by (simp only: int me)
  ultimately show "valuation (float_of_int (int_of_float ub (float_of_int i))) = valuation (float_of_int i)"
    and "\<exists>m e. float_of_int (int_of_float ub (float_of_int i)) = Fin m e"
    by (simp_all add: form)
  show "\<exists>m e. float_of_int i = Fin m e" using form by blast
qed

lemma truncation_keeps_order:
  assumes "0 \<le> i" and "i < 2 ^ 30"
  shows "float_less (float_of_int (int_of_float ub (float_of_int i))) x \<longleftrightarrow> float_less (float_of_int i) x"
proof -
  from float_of_int_integral(2) [OF assms, of ub] float_of_int_integral(3) [OF assms] obtain m e n f where
    "float_of_int (int_of_float ub (float_of_int i)) = Fin m e" "float_of_int i = Fin n f"
    by blast
  with float_of_int_integral(1) [OF assms, of ub] show ?thesis
    by (cases x) (simp_all add: float_less_valuation del: float_less.simps(1) valuation.simps)
qed

section \<open>JSON documents\<close>

text \<open>
  The accessors of json-c the parsers call: the member of an object, whatever its value (a JSON null is
  an object here, as in the library a null pointer is found), and the conversions of a value.
  \<open>json_array\<close> is the list of the elements of an array and \<open>None\<close> for any other value; an element that is
  null is \<open>None\<close>. \<open>json_string\<close> is \<open>None\<close> where the library returns a null pointer, as it does for a JSON
  null.
\<close>

record 'j json_c =
  json_get :: "'j \<Rightarrow> string \<Rightarrow> 'j option"
  json_boolean :: "'j \<Rightarrow> bool"
  json_int :: "'j \<Rightarrow> c_int"
  json_double :: "'j \<Rightarrow> cfloat"
  json_string :: "'j \<Rightarrow> string option"
  json_array :: "'j \<Rightarrow> 'j option list option"

text \<open>\<open>if (json_object_object_get_ex(json, key, &obj)) ...\<close>\<close>

definition if_member :: "'j json_c \<Rightarrow> 'j \<Rightarrow> string \<Rightarrow> ('j \<Rightarrow> 'c \<Rightarrow> 'c) \<Rightarrow> 'c \<Rightarrow> 'c" where
  "if_member J j key f c = (case json_get J j key of None \<Rightarrow> c | Some v \<Rightarrow> f v c)"

text \<open>\<open>strncpy\<close> and a terminator, unless the library has no string for the value.\<close>

definition text_member :: "'j json_c \<Rightarrow> 'j \<Rightarrow> string \<Rightarrow> nat \<Rightarrow> (string \<Rightarrow> 'c \<Rightarrow> 'c) \<Rightarrow> 'c \<Rightarrow> 'c" where
  "text_member J j key n store c =
     if_member J j key (\<lambda>v c. case json_string J v of None \<Rightarrow> c | Some s \<Rightarrow> store (fit n s) c) c"

lemma if_member_inv: "P c \<Longrightarrow> (\<And>v c. P c \<Longrightarrow> P (f v c)) \<Longrightarrow> P (if_member J j key f c)"
  by (simp add: if_member_def split: option.split)

lemma text_member_inv:
  "P c \<Longrightarrow> 0 < n \<Longrightarrow> (\<And>s c. P c \<Longrightarrow> length s < n \<Longrightarrow> P (store s c)) \<Longrightarrow> P (text_member J j key n store c)"
  unfolding text_member_def by (rule if_member_inv) (auto simp: fit_length split: option.split)

text \<open>A document for the examples: numbers, strings, lists and objects.\<close>

datatype sample_json =
  JNull | JBool bool | JInt int | JDouble int int | JText string | JList "sample_json list" |
  JObject "(string \<times> sample_json) list"

definition sample_json_c :: "sample_json json_c" where
  "sample_json_c =
     \<lparr>json_get = (\<lambda>j key. case j of JObject ms \<Rightarrow> map_of ms key | _ \<Rightarrow> None),
      json_boolean = (\<lambda>j. case j of JBool b \<Rightarrow> b | JInt i \<Rightarrow> i \<noteq> 0 | JDouble m e \<Rightarrow> m \<noteq> 0
         | JText s \<Rightarrow> s \<noteq> [] | _ \<Rightarrow> False),
      json_int = (\<lambda>j. case j of JInt i \<Rightarrow> clamp_int i | JBool b \<Rightarrow> if b then 1 else 0 | _ \<Rightarrow> 0),
      json_double = (\<lambda>j. case j of JInt i \<Rightarrow> Fin i 0 | JDouble m e \<Rightarrow> Fin m e | _ \<Rightarrow> Fin 0 0),
      json_string = (\<lambda>j. case j of JText s \<Rightarrow> Some s | _ \<Rightarrow> None),
      json_array = (\<lambda>j. case j of JList js \<Rightarrow> Some (map (\<lambda>x. if x = JNull then None else Some x) js)
         | _ \<Rightarrow> None)\<rparr>"

end

