(* ===== verification/RtmpClientManager.thy ===== *)
theory RtmpClientManager
  imports RtmpClientThread JsonConfig
begin

text \<open>
  The RTMP client as a whole (\<open>rtmp_client.c\<close>): configuration and its check, the manager that creates a
  connection for every enabled target, the life cycle of the module, and the frame callback.
\<close>

section \<open>Configuration\<close>

record rtmp_client_config =
  client_enabled :: bool
  client_targets :: "rtmp_stream_target list"
  client_channel :: c_int
  client_bitrate_limit :: c_int
  client_fps_limit :: c_int
  client_timeout :: c_int
  client_chunk_size :: c_int
  client_keepalive_interval :: c_int

definition target_valid :: "rtmp_stream_target \<Rightarrow> bool" where
  "target_valid t \<longleftrightarrow> target_name t \<noteq> [] \<and> target_url t \<noteq> [] \<and>
     \<not> (target_retry_interval t < 5 \<or> 300 < target_retry_interval t) \<and>
     \<not> (target_max_retries t < 0 \<or> 100 < target_max_retries t)"

definition rtmp_client_module_config_validate :: "rtmp_client_config option \<Rightarrow> c_int" where
  "rtmp_client_module_config_validate config =
     (case config of
        None \<Rightarrow> -1
      | Some g \<Rightarrow>
          if client_channel g < 0 \<or> int FS_CHN_NUM \<le> client_channel g then -1
          else if client_bitrate_limit g \<le> 0 then -1
          else if client_fps_limit g \<le> 0 then -1
          else if client_timeout g < 5 \<or> 300 < client_timeout g then -1
          else if client_chunk_size g < 128 \<or> 65536 < client_chunk_size g then -1
          else if list_all target_valid (client_targets g) then 0 else -1)"

definition rtmp_client_module_set_defaults :: rtmp_client_config where
  "rtmp_client_module_set_defaults =
     \<lparr>client_enabled = False, client_targets = [], client_channel = -1, client_bitrate_limit = 0,
      client_fps_limit = 0, client_timeout = 30, client_chunk_size = int RTMP_DEFAULT_CHUNK_SIZE,
      client_keepalive_interval = 60\<rparr>"


text \<open>
  The parser. A string member whose value is not a string for the library, a JSON null for instance, gives
  \<open>strncpy\<close> a null pointer: that is the outer \<open>None\<close>.
\<close>

definition string_member ::
  "'j json_c \<Rightarrow> 'j \<Rightarrow> string \<Rightarrow> nat \<Rightarrow> (string \<Rightarrow> 'c \<Rightarrow> 'c) \<Rightarrow> 'c \<Rightarrow> 'c option" where
  "string_member J j key n store c =
     (case json_get J j key of
        None \<Rightarrow> Some c
      | Some v \<Rightarrow> map_option (\<lambda>s. store (take (n - 1) s) c) (json_string J v))"

definition zero_target :: rtmp_stream_target where
  "zero_target =
     \<lparr>target_name = [], target_enabled = False, target_url = [], target_stream_key = [],
      target_retry_interval = 0, target_max_retries = 0, target_connection_timeout = 0\<rparr>"

definition parse_target :: "'j json_c \<Rightarrow> 'j \<Rightarrow> rtmp_stream_target option" where
  "parse_target J j =
     (case string_member J j ''name'' 64 (\<lambda>s t. t\<lparr>target_name := s\<rparr>) zero_target of
        None \<Rightarrow> None
      | Some t1 \<Rightarrow>
          (let t2 = if_member J j ''enabled'' (\<lambda>v t. t\<lparr>target_enabled := json_boolean J v\<rparr>) t1
           in case string_member J j ''url'' 512 (\<lambda>s t. t\<lparr>target_url := s\<rparr>) t2 of
                None \<Rightarrow> None
              | Some t3 \<Rightarrow>
                  (case string_member J j ''stream_key'' 256 (\<lambda>s t. t\<lparr>target_stream_key := s\<rparr>) t3 of
                     None \<Rightarrow> None
                   | Some t4 \<Rightarrow>
                       (let t5 = if_member J j ''retry_interval'' (\<lambda>v t. t\<lparr>target_retry_interval := json_int J v\<rparr>) t4
                        in Some (if_member J j ''max_retries'' (\<lambda>v t. t\<lparr>target_max_retries := json_int J v\<rparr>) t5)))))"

text \<open>The elements that are null are skipped.\<close>

fun parse_targets :: "'j json_c \<Rightarrow> 'j option list \<Rightarrow> rtmp_stream_target list option" where
  "parse_targets J [] = Some []"
| "parse_targets J (None # js) = parse_targets J js"
| "parse_targets J (Some j # js) =
     (case parse_target J j of
        None \<Rightarrow> None
      | Some t \<Rightarrow> map_option ((#) t) (parse_targets J js))"

definition parse_settings :: "'j json_c \<Rightarrow> 'j \<Rightarrow> rtmp_client_config \<Rightarrow> rtmp_client_config" where
  "parse_settings J j c =
     (let c1 = if_member J j ''video'' (\<lambda>v.
                 if_member J v ''fps_limit'' (\<lambda>x c. c\<lparr>client_fps_limit := json_int J x\<rparr>) \<circ>
                 if_member J v ''bitrate_limit'' (\<lambda>x c. c\<lparr>client_bitrate_limit := json_int J x\<rparr>) \<circ>
                 if_member J v ''channel'' (\<lambda>x c. c\<lparr>client_channel := json_int J x\<rparr>)) c
      in if_member J j ''connection'' (\<lambda>v.
           if_member J v ''chunk_size'' (\<lambda>x c. c\<lparr>client_chunk_size := json_int J x\<rparr>) \<circ>
           if_member J v ''timeout'' (\<lambda>x c. c\<lparr>client_timeout := json_int J x\<rparr>)) c1)"

text \<open>
  A list of streams that is missing, no array or empty leaves the targets as they were. If there is no
  memory for them the parser gives up with what it has so far.
\<close>

definition rtmp_client_module_config_parse ::
  "'j json_c \<Rightarrow> (nat \<Rightarrow> bool) \<Rightarrow> 'j option \<Rightarrow> rtmp_client_config option \<Rightarrow>
     (c_int \<times> rtmp_client_config option) option" where
  "rtmp_client_module_config_parse J mok json config =
     (case (json, config) of
        (Some j, Some c) \<Rightarrow>
          (let c1 = if_member J j ''enabled'' (\<lambda>v c. c\<lparr>client_enabled := json_boolean J v\<rparr>) c;
               streams = (case json_get J j ''streams'' of
                            None \<Rightarrow> []
                          | Some v \<Rightarrow> (case json_array J v of None \<Rightarrow> [] | Some vs \<Rightarrow> vs))
           in if streams \<noteq> [] \<and> \<not> mok (length streams) then Some (-1, Some c1)
              else (case (if streams = [] then Some (client_targets c1) else parse_targets J streams) of
                      None \<Rightarrow> None
                    | Some ts \<Rightarrow>
                        Some (0, Some (parse_settings J j (c1\<lparr>client_targets := ts\<rparr>)))))
      | _ \<Rightarrow> Some (-1, config))"

section \<open>The client and its manager\<close>

text \<open>
  A connection together with the place of its thread is what the manager's list holds; here only the
  connections are listed, newest first.
\<close>

record rtmp_client =
  rcl_running :: bool
  rcl_connections :: "rtmp_client_connection list"
  rcl_config :: rtmp_client_config

text \<open>
  One target in a pass of the manager: \<open>allocated\<close> and \<open>thread_created\<close> are what \<open>malloc\<close> and \<open>pthread_create\<close>
  answer. The result of starting the connection is ignored.
\<close>

definition manage_target ::
  "bool \<Rightarrow> bool \<Rightarrow> rtmp_stream_target \<Rightarrow> rtmp_client_connection list \<Rightarrow> rtmp_client_connection list" where
  "manage_target allocated thread_created t cs =
     (if \<not> target_enabled t then cs
      else if list_ex (\<lambda>c. rc_name c = target_name t) cs then cs
      else (case rtmp_client_connection_create allocated t of
              None \<Rightarrow> cs
            | Some c \<Rightarrow> snd (rtmp_client_connection_start thread_created c) # cs))"

fun manage_targets ::
  "(nat \<Rightarrow> bool) \<Rightarrow> (nat \<Rightarrow> bool) \<Rightarrow> nat \<Rightarrow> rtmp_stream_target list \<Rightarrow> rtmp_client_connection list \<Rightarrow>
     rtmp_client_connection list" where
  "manage_targets mok tok i [] cs = cs"
| "manage_targets mok tok i (t # ts) cs = manage_targets mok tok (i + 1) ts (manage_target (mok i) (tok i) t cs)"

definition rtmp_client_manager_thread :: "(nat \<Rightarrow> bool) \<Rightarrow> (nat \<Rightarrow> bool) \<Rightarrow> rtmp_client \<Rightarrow> rtmp_client" where
  "rtmp_client_manager_thread mok tok g =
     (if \<not> rcl_running g then g
      else g\<lparr>rcl_connections := manage_targets mok tok 0 (client_targets (rcl_config g)) (rcl_connections g)\<rparr>)"

section \<open>The module\<close>

record rtmp_client_module_state =
  rcm_initialized :: bool
  rcm_running :: bool
  rcm_config :: "rtmp_client_config option"
  rcm_client :: "rtmp_client option"

definition rtmp_client_create ::
  "bool \<Rightarrow> bool \<Rightarrow> bool \<Rightarrow> rtmp_client_config \<Rightarrow> rtmp_client option \<Rightarrow> c_int \<times> rtmp_client option" where
  "rtmp_client_create allocated mutex_ok thread_created config existing =
     (case existing of
        Some g \<Rightarrow> (0, Some g)
      | None \<Rightarrow>
          if \<not> allocated then (-1, None)
          else if \<not> mutex_ok then (-1, None)
          else if \<not> thread_created then (-1, None)
          else (0, Some \<lparr>rcl_running = True, rcl_connections = [], rcl_config = config\<rparr>))"

text \<open>What is left of the connections is returned, as the memory itself is freed.\<close>

definition rtmp_client_destroy ::
  "(rtmp_client_connection \<Rightarrow> rtmp_client_connection) \<Rightarrow> rtmp_client option \<Rightarrow>
     rtmp_client option \<times> rtmp_client_connection list" where
  "rtmp_client_destroy join existing =
     (case existing of
        None \<Rightarrow> (None, [])
      | Some g \<Rightarrow>
          (None, map (\<lambda>c. rtmp_client_connection_destroy join (rtmp_client_connection_stop join c)) (rcl_connections g)))"

definition rtmp_client_module_init ::
  "rtmp_client_config option \<Rightarrow> rtmp_client_module_state \<Rightarrow> c_int \<times> rtmp_client_module_state" where
  "rtmp_client_module_init config s =
     (if rcm_initialized s then (0, s)
      else if config = None then (-1, s)
      else
        (let s = s\<lparr>rcm_config := config\<rparr> in
         if rtmp_client_module_config_validate (rcm_config s) \<noteq> 0 then (-1, s)
         else (0, s\<lparr>rcm_initialized := True\<rparr>)))"

definition rtmp_client_module_start ::
  "bool \<Rightarrow> bool \<Rightarrow> bool \<Rightarrow> rtmp_client_module_state \<Rightarrow> c_int \<times> rtmp_client_module_state" where
  "rtmp_client_module_start allocated mutex_ok thread_created s =
     (if \<not> rcm_initialized s then (-1, s)
      else if rcm_running s then (0, s)
      else
        (case rcm_config s of
           None \<Rightarrow> (0, s)
         | Some g \<Rightarrow>
             if \<not> client_enabled g then (0, s)
             else
               (let (r, cl) = rtmp_client_create allocated mutex_ok thread_created g (rcm_client s) in
                if r \<noteq> 0 then (-1, s\<lparr>rcm_client := cl\<rparr>)
                else (0, s\<lparr>rcm_client := cl, rcm_running := True\<rparr>))))"

definition rtmp_client_module_stop ::
  "(rtmp_client_connection \<Rightarrow> rtmp_client_connection) \<Rightarrow> rtmp_client_module_state \<Rightarrow>
     c_int \<times> rtmp_client_module_state \<times> rtmp_client_connection list" where
  "rtmp_client_module_stop join s =
     (if \<not> rcm_running s then (0, s, [])
      else (case rtmp_client_destroy join (rcm_client s) of
              (cl, cs) \<Rightarrow> (0, s\<lparr>rcm_client := cl, rcm_running := False\<rparr>, cs)))"

definition rtmp_client_module_cleanup ::
  "(rtmp_client_connection \<Rightarrow> rtmp_client_connection) \<Rightarrow> rtmp_client_module_state \<Rightarrow>
     c_int \<times> rtmp_client_module_state \<times> rtmp_client_connection list" where
  "rtmp_client_module_cleanup join s =
     (case (if rcm_running s then rtmp_client_module_stop join s else (0, s, [])) of
        (r, s, cs) \<Rightarrow>
          if \<not> rcm_initialized s then (0, s, cs)
          else (0, s\<lparr>rcm_initialized := False, rcm_running := False, rcm_config := None\<rparr>, cs))"

section \<open>Frames\<close>

definition active_connections :: "rtmp_client_connection list \<Rightarrow> c_int" where
  "active_connections cs =
     int (length (filter (\<lambda>c. rc_state c = RTMP_CLIENT_STATE_PUBLISHING \<and> rc_thread_running c) cs))"

definition rtmp_client_get_active_connection_count :: "rtmp_client_module_state \<Rightarrow> c_int" where
  "rtmp_client_get_active_connection_count s =
     (if \<not> rcm_running s then 0
      else (case rcm_client s of None \<Rightarrow> 0 | Some g \<Rightarrow> active_connections (rcl_connections g)))"

text \<open>\<open>chn_ok\<close>: whether a channel is enabled and not JPEG.\<close>

definition rtmp_client_module_rtsp_frame_callback ::
  "(nat \<Rightarrow> bool) \<Rightarrow> frame_manager \<Rightarrow> (c_int \<Rightarrow> bool) \<Rightarrow> u32 \<Rightarrow> c_int \<Rightarrow> c_int \<Rightarrow> bytes \<Rightarrow> int \<times> int \<Rightarrow>
     rtmp_client_module_state \<Rightarrow> client_statics \<Rightarrow>
     (c_int \<times> rtmp_client_module_state \<times> client_statics) option" where
  "rtmp_client_module_rtsp_frame_callback mok fm chn_ok now wall channel d tv s st =
     (case (rcm_running s, rcm_client s, rcm_config s) of
        (True, Some g, Some config) \<Rightarrow>
          if d = [] then Some (0, s, st)
          else if active_connections (rcl_connections g) = 0 then Some (0, s, st)
          else if channel \<noteq> client_channel config then Some (0, s, st)
          else if \<not> chn_ok channel then Some (0, s, st)
          else map_option
            (\<lambda>(r, cs, st1). (r, s\<lparr>rcm_client := Some (g\<lparr>rcl_connections := cs\<rparr>)\<rparr>, st1))
            (rtmp_client_send_frame mok fm now wall (rcl_connections g) st d tv)
      | _ \<Rightarrow> Some (0, s, st))"


section \<open>One connection for every target\<close>

text \<open>Names as the configuration parser leaves them: at most 63 characters.\<close>

definition names_fit :: "rtmp_stream_target list \<Rightarrow> bool" where
  "names_fit ts \<longleftrightarrow> list_all (\<lambda>t. length (target_name t) < 64) ts"

lemma created_name:
  assumes "rtmp_client_connection_create b t = Some c" and "length (target_name t) < 64"
  shows "rc_name (snd (rtmp_client_connection_start ok c)) = target_name t"
  using assms by (auto simp: rtmp_client_connection_create_def rtmp_client_connection_start_def split: if_splits)

lemma name_listed: "list_ex (\<lambda>c. rc_name c = n) cs \<longleftrightarrow> n \<in> rc_name ` set cs"
  by (auto simp: list_ex_iff)

lemma manage_target_new:
  assumes "length (target_name t) < 64"
  shows "\<exists>new. manage_target a b t cs = new @ cs \<and> distinct (map rc_name new) \<and>
    (\<forall>c \<in> set new. target_enabled t \<and> rc_name c = target_name t \<and> target_name t \<notin> rc_name ` set cs) \<and>
    (a \<and> target_enabled t \<longrightarrow> target_name t \<in> rc_name ` set (new @ cs))"
proof (cases "target_enabled t \<and> target_name t \<notin> rc_name ` set cs \<and> a")
  case True
  then obtain c where c: "rtmp_client_connection_create a t = Some c"
    by (simp add: rtmp_client_connection_create_def)
  with True have "manage_target a b t cs = [snd (rtmp_client_connection_start b c)] @ cs"
    by (simp add: manage_target_def name_listed)
  with True created_name [OF c assms, of b] show ?thesis by (intro exI [of _ "[snd (rtmp_client_connection_start b c)]"]) auto
next
  case False
  then have "manage_target a b t cs = [] @ cs"
    by (auto simp: manage_target_def name_listed rtmp_client_connection_create_def)
  with False show ?thesis by (intro exI [of _ "[]"]) auto
qed

lemma manage_targets_new:
  assumes "names_fit ts"
  shows "\<exists>new. manage_targets mok tok i ts cs = new @ cs \<and> distinct (map rc_name new) \<and>
    rc_name ` set new \<inter> rc_name ` set cs = {} \<and>
    rc_name ` set new \<subseteq> target_name ` {t \<in> set ts. target_enabled t} \<and>
    ((\<forall>j. mok j) \<longrightarrow> target_name ` {t \<in> set ts. target_enabled t} \<subseteq> rc_name ` set (new @ cs))"
  using assms
proof (induction ts arbitrary: i cs)
  case (Cons t ts)
  from manage_target_new [of t "mok i" "tok i" cs] Cons.prems obtain n1 where
    1: "manage_target (mok i) (tok i) t cs = n1 @ cs" "distinct (map rc_name n1)"
      "\<forall>c \<in> set n1. target_enabled t \<and> rc_name c = target_name t \<and> target_name t \<notin> rc_name ` set cs"
      "mok i \<and> target_enabled t \<longrightarrow> target_name t \<in> rc_name ` set (n1 @ cs)"
    by (auto simp: names_fit_def)
  from Cons.IH [of "i + 1" "n1 @ cs"] Cons.prems obtain n2 where
    2: "manage_targets mok tok (i + 1) ts (n1 @ cs) = n2 @ n1 @ cs" "distinct (map rc_name n2)"
      "rc_name ` set n2 \<inter> rc_name ` set (n1 @ cs) = {}"
      "rc_name ` set n2 \<subseteq> target_name ` {t \<in> set ts. target_enabled t}"
      "(\<forall>j. mok j) \<longrightarrow> target_name ` {t \<in> set ts. target_enabled t} \<subseteq> rc_name ` set (n2 @ n1 @ cs)"
    by (auto simp: names_fit_def)
  have "distinct (map rc_name (n2 @ n1))" using 1(2) 2(2,3) by auto
  moreover have "rc_name ` set (n2 @ n1) \<inter> rc_name ` set cs = {}" using 1(3) 2(3) by auto
  moreover have "rc_name ` set (n2 @ n1) \<subseteq> target_name ` {u \<in> set (t # ts). target_enabled u}" using 1(3) 2(4) by auto
  moreover have "(\<forall>j. mok j) \<longrightarrow> target_name ` {u \<in> set (t # ts). target_enabled u} \<subseteq> rc_name ` set ((n2 @ n1) @ cs)"
    using 1(4) 2(5) by auto
  ultimately show ?case using 1(1) 2(1) by (intro exI [of _ "n2 @ n1"]) simp
qed simp

text \<open>What a configuration that was accepted guarantees.\<close>

lemma validate_chunk_size:
  assumes "rtmp_client_module_config_validate (Some g) = 0"
  shows "128 \<le> (word_of_int (client_chunk_size g) :: u32) \<and> (word_of_int (client_chunk_size g) :: u32) \<le> 65536"
proof -
  from assms have "128 \<le> client_chunk_size g" "client_chunk_size g \<le> 65536"
    by (auto simp: rtmp_client_module_config_validate_def split: if_splits)
  moreover from this have "uint (word_of_int (client_chunk_size g) :: u32) = client_chunk_size g"
    by (simp add: uint_word_of_int_eq take_bit_int_eq_self)
  ultimately show ?thesis by (simp add: word_le_def)
qed


section \<open>The module at work\<close>

text \<open>
  Everything that happens to the module's state: its life cycle, passes of the manager, steps of connections. The names
  of targets fit their arrays of 64 characters.
\<close>

inductive module_step :: "rtmp_client_module_state \<Rightarrow> rtmp_client_module_state \<Rightarrow> bool" where
  init: "rtmp_client_module_init config s = (r, s1) \<Longrightarrow> (\<And>g. config = Some g \<Longrightarrow> names_fit (client_targets g)) \<Longrightarrow>
    module_step s s1"
| start: "rtmp_client_module_start a m t s = (r, s1) \<Longrightarrow> module_step s s1"
| stop: "rtmp_client_module_stop join s = (r, s1, cs) \<Longrightarrow> module_step s s1"
| cleanup: "rtmp_client_module_cleanup join s = (r, s1, cs) \<Longrightarrow> module_step s s1"
| manage: "rcm_client s = Some g \<Longrightarrow>
    module_step s (s\<lparr>rcm_client := Some (rtmp_client_manager_thread mok tok g)\<rparr>)"
| connection: "rcm_client s = Some g \<Longrightarrow> rcl_connections g = us @ c # vs \<Longrightarrow> client_step (p, c) (p1, c1) \<Longrightarrow>
    module_step s (s\<lparr>rcm_client := Some (g\<lparr>rcl_connections := us @ c1 # vs\<rparr>)\<rparr>)"

definition zero_module :: rtmp_client_module_state where
  "zero_module = \<lparr>rcm_initialized = False, rcm_running = False, rcm_config = None, rcm_client = None\<rparr>"

definition client_wf :: "rtmp_client_config \<Rightarrow> rtmp_client \<Rightarrow> bool" where
  "client_wf config g \<longleftrightarrow> rcl_running g \<and> rcl_config g = config \<and> distinct (map rc_name (rcl_connections g)) \<and>
     list_all (\<lambda>c. 0 < rc_chunk_size_out c) (rcl_connections g)"

definition module_wf :: "rtmp_client_module_state \<Rightarrow> bool" where
  "module_wf s \<longleftrightarrow>
     (rcm_running s \<longrightarrow> rcm_initialized s) \<and> (rcm_running s \<longleftrightarrow> rcm_client s \<noteq> None) \<and>
     (\<forall>config. rcm_config s = Some config \<longrightarrow> names_fit (client_targets config)) \<and>
     (rcm_initialized s \<longrightarrow> rcm_config s \<noteq> None \<and> rtmp_client_module_config_validate (rcm_config s) = 0) \<and>
     (\<forall>g. rcm_client s = Some g \<longrightarrow> (\<exists>config. rcm_config s = Some config \<and> client_wf config g))"

lemma manage_targets_wf:
  assumes "names_fit ts" and "distinct (map rc_name cs)" and "list_all (\<lambda>c. 0 < rc_chunk_size_out c) cs"
  shows "distinct (map rc_name (manage_targets mok tok i ts cs)) \<and>
    list_all (\<lambda>c. 0 < rc_chunk_size_out c) (manage_targets mok tok i ts cs)"
  using assms
proof (induction ts arbitrary: i cs)
  case (Cons t ts)
  from Cons.prems(1) manage_target_new [of t "mok i" "tok i" cs] obtain new where
    n: "manage_target (mok i) (tok i) t cs = new @ cs" "distinct (map rc_name new)"
      "\<forall>c \<in> set new. target_enabled t \<and> rc_name c = target_name t \<and> target_name t \<notin> rc_name ` set cs"
    by (auto simp: names_fit_def)
  have "list_all (\<lambda>c. 0 < rc_chunk_size_out c) (manage_target (mok i) (tok i) t cs)"
    using Cons.prems(3)
    by (auto simp: manage_target_def rtmp_client_connection_create_def rtmp_client_connection_start_def RTMP_DEFAULT_CHUNK_SIZE_def)
  moreover have "distinct (map rc_name (manage_target (mok i) (tok i) t cs))" using n Cons.prems(2) by auto
  ultimately show ?case using Cons.IH Cons.prems(1) by (simp add: names_fit_def)
qed simp

lemma manager_wf:
  assumes "client_wf config g" and "names_fit (client_targets config)"
  shows "client_wf config (rtmp_client_manager_thread mok tok g)"
  using assms manage_targets_wf [of "client_targets config" "rcl_connections g" mok tok 0]
  by (auto simp: client_wf_def rtmp_client_manager_thread_def)

lemma connection_wf:
  assumes "client_wf config g" and "rcl_connections g = us @ c # vs" and "client_step (p, c) (p1, c1)"
  shows "client_wf config (g\<lparr>rcl_connections := us @ c1 # vs\<rparr>)"
  using assms client_step_keeps [OF assms(3)] by (auto simp: client_wf_def)

lemma module_stop_wf:
  assumes "module_wf s" and "rtmp_client_module_stop join s = (r, s1, cs)"
  shows "module_wf s1"
  using assms by (auto simp: rtmp_client_module_stop_def rtmp_client_destroy_def module_wf_def split: if_splits option.splits)

lemma module_step_wf:
  assumes "module_step s s1" and "module_wf s"
  shows "module_wf s1"
  using assms(1)
proof cases
  case (init config r)
  with assms(2) show ?thesis by (auto simp: rtmp_client_module_init_def module_wf_def Let_def split: if_splits)
next
  case (start a m t r)
  with assms(2) show ?thesis
    by (auto simp: rtmp_client_module_start_def rtmp_client_create_def module_wf_def client_wf_def
        split: if_splits option.splits)
next
  case (stop join r cs)
  from module_stop_wf [OF assms(2) this] show ?thesis .
next
  case (cleanup join r cs)
  obtain r2 s2 cs2 where s2: "rtmp_client_module_stop join s = (r2, s2, cs2)" by (metis prod_cases3)
  have "\<not> rcm_running s2"
    using s2 by (auto simp: rtmp_client_module_stop_def split: if_splits prod.splits)
  with cleanup s2 module_stop_wf [OF assms(2) s2] assms(2) show ?thesis
    by (auto simp: rtmp_client_module_cleanup_def module_wf_def split: if_splits)
next
  case (manage g mok tok)
  with assms(2) manager_wf show ?thesis by (fastforce simp: module_wf_def)
next
  case (connection g us c vs p p1 c1)
  with assms(2) connection_wf show ?thesis by (fastforce simp: module_wf_def)
qed


section \<open>Properties\<close>

text \<open>
  A pass of the manager puts new connections in front of the ones there are, which it does not touch: one
  for each enabled target without a connection, as far as memory goes, none for any other target, and never two of
  one name.
\<close>

theorem client_manager_pass:
  assumes "rcl_running g" and "names_fit (client_targets (rcl_config g))" and "distinct (map rc_name (rcl_connections g))"
  shows "\<exists>new. rcl_connections (rtmp_client_manager_thread mok tok g) = new @ rcl_connections g \<and>
    distinct (map rc_name (new @ rcl_connections g)) \<and>
    rc_name ` set new \<subseteq> target_name ` {t \<in> set (client_targets (rcl_config g)). target_enabled t} \<and>
    ((\<forall>j. mok j) \<longrightarrow> target_name ` {t \<in> set (client_targets (rcl_config g)). target_enabled t} \<subseteq>
       rc_name ` set (new @ rcl_connections g))"
  using manage_targets_new [OF assms(2), of mok tok 0 "rcl_connections g"] assms(1,3)
  by (auto simp: rtmp_client_manager_thread_def)

text \<open>
  C26. The module's state is well formed whatever is called in whatever order: it runs only when initialised, has a
  client exactly while it runs, an initialised module has a configuration that passed the check, the client has
  this configuration, no two of its connections have the same name, and no connection has chunk size 0, with which
  sending would not return.
\<close>

theorem client_module_wf:
  assumes "module_step\<^sup>*\<^sup>* zero_module s"
  shows "(rcm_running s \<longrightarrow> rcm_initialized s) \<and> (rcm_running s \<longleftrightarrow> rcm_client s \<noteq> None) \<and>
    (rcm_initialized s \<longrightarrow> rcm_config s \<noteq> None \<and> rtmp_client_module_config_validate (rcm_config s) = 0) \<and>
    (\<forall>g. rcm_client s = Some g \<longrightarrow> rcm_config s = Some (rcl_config g) \<and>
       distinct (map rc_name (rcl_connections g)) \<and> (\<forall>c \<in> set (rcl_connections g). 0 < rc_chunk_size_out c))"
proof -
  have "module_wf zero_module" by (simp add: module_wf_def zero_module_def)
  with assms have "module_wf s" by (induction rule: rtranclp_induct) (auto intro: module_step_wf)
  then show ?thesis by (auto simp: module_wf_def client_wf_def list_all_iff)
qed

text \<open>
  A target whose connection fails while the chunk size is announced is given up: unlike after any
  other failure, the thread ends, in the error state, with its descriptor open and marked as running; it never
  takes another step, and no pass of the manager replaces the connection.
\<close>

theorem client_target_given_up:
  assumes "rtmp_client_send_chunked_message c 2 1 0 (be32 (w_chunk_size w)) = Some (r, c1)" and "r < 0"
    and "0 < rc_chunk_size_out c" and "rc_thread_running c" and "0 \<le> rc_socket_fd c"
    and "c2 = c1\<lparr>rc_state := RTMP_CLIENT_STATE_ERROR\<rparr>" and "c2 \<in> set (rcl_connections g)" and "rc_name c2 = target_name t"
  shows "run_thread (w # ws) (AtPublished, c) = Some (AtEnd, c2) \<and> rc_thread_running c2 \<and> 0 \<le> rc_socket_fd c2 \<and>
    c2 \<in> set (rcl_connections (rtmp_client_manager_thread mok tok g)) \<and>
    manage_target a b t (rcl_connections (rtmp_client_manager_thread mok tok g)) =
      rcl_connections (rtmp_client_manager_thread mok tok g)"
proof -
  have e: "run_thread ws (AtEnd, c2) = Some (AtEnd, c2)" by (induction ws) simp_all
  have kept: "c2 \<in> set (manage_targets mok tok i ts cs)" if "c2 \<in> set cs" for i ts cs
    using that
    by (induction ts arbitrary: i cs)
      (auto simp: manage_target_def split: option.split)
  have k: "c2 \<in> set (rcl_connections (rtmp_client_manager_thread mok tok g))"
    using kept [OF assms(7)] assms(7) by (simp add: rtmp_client_manager_thread_def)
  then have "list_ex (\<lambda>c. rc_name c = target_name t) (rcl_connections (rtmp_client_manager_thread mok tok g))"
    using assms(8) by (auto simp: list_ex_iff)
  then have m: "manage_target a b t (rcl_connections (rtmp_client_manager_thread mok tok g)) =
      rcl_connections (rtmp_client_manager_thread mok tok g)" by (simp add: manage_target_def)
  have "same_target c c1" using send_chunked_settles [OF assms(3), of 2 1 0 "be32 (w_chunk_size w)"] assms(1) by (auto simp: settles_def)
  then have "rc_thread_running c2" "0 \<le> rc_socket_fd c2" using assms(4-6) by (simp_all add: same_target_def)
  with assms(1,2,6) e k m show ?thesis by (simp add: announce_failed_def)
qed

text \<open>
  Destroying the client leaves no descriptor open and no TLS session in use, whatever the threads do
  between being told to stop and their end.
\<close>

theorem client_destroy_closes:
  assumes "rtmp_client_module_stop join s = (r, s1, cs)" and "module_wf s" and "rcm_running s"
  shows "r = 0 \<and> rcm_client s1 = None \<and> \<not> rcm_running s1 \<and>
    length cs = length (rcl_connections (the (rcm_client s))) \<and>
    (\<forall>c \<in> set cs. rc_socket_fd c < 0 \<and> \<not> rc_ssl_context c)"
proof -
  from assms(2,3) obtain g where g: "rcm_client s = Some g" by (auto simp: module_wf_def)
  have "rc_socket_fd (rtmp_client_connection_destroy join c) < 0 \<and> \<not> rc_ssl_context (rtmp_client_connection_destroy join c)" for c
    by (simp add: rtmp_client_connection_destroy_def Let_def)
  with assms(1,3) g show ?thesis by (auto simp: rtmp_client_module_stop_def rtmp_client_destroy_def)
qed


section \<open>Examples\<close>

definition sample_config :: rtmp_client_config where
  "sample_config =
     \<lparr>client_enabled = True,
      client_targets = [sample_target, sample_target\<lparr>target_name := ''other''\<rparr>, sample_target\<lparr>target_name := ''off'', target_enabled := False\<rparr>],
      client_channel = 0, client_bitrate_limit = 2000, client_fps_limit = 25, client_timeout = 30,
      client_chunk_size = 4096, client_keepalive_interval = 60\<rparr>"

definition sample_manager :: rtmp_client where
  "sample_manager = \<lparr>rcl_running = True, rcl_connections = [sample_client], rcl_config = sample_config\<rparr>"

lemma sample_config_valid: "rtmp_client_module_config_validate (Some sample_config) = 0" "names_fit (client_targets sample_config)"
  by code_simp+

theorem client_manager_pass_witness:
  "map rc_name (rcl_connections (rtmp_client_manager_thread (\<lambda>i. True) (\<lambda>i. True) sample_manager)) = [''other'', ''tube''] \<and>
   (\<exists>new. rcl_connections (rtmp_client_manager_thread (\<lambda>i. True) (\<lambda>i. True) sample_manager) = new @ [sample_client] \<and>
     ''other'' \<in> rc_name ` set (new @ [sample_client]))"
proof -
  have "map rc_name (rcl_connections (rtmp_client_manager_thread (\<lambda>i. True) (\<lambda>i. True) sample_manager)) = [''other'', ''tube'']"
    by code_simp
  moreover have "''other'' \<in> target_name ` {t \<in> set (client_targets sample_config). target_enabled t}"
    by (rule image_eqI [of _ _ "sample_target\<lparr>target_name := ''other''\<rparr>"])
      (simp_all add: sample_config_def sample_target_def)
  ultimately show ?thesis
    using client_manager_pass [of sample_manager "\<lambda>i. True" "\<lambda>i. True"] sample_config_valid(2)
    by (auto simp: sample_manager_def)
qed

theorem client_module_wf_witness:
  "\<exists>s. module_step\<^sup>*\<^sup>* zero_module s \<and> rcm_running s \<and> rcm_client s \<noteq> None"
proof -
  let ?s1 = "zero_module\<lparr>rcm_config := Some sample_config, rcm_initialized := True\<rparr>"
  let ?g = "\<lparr>rcl_running = True, rcl_connections = [], rcl_config = sample_config\<rparr>"
  let ?s2 = "?s1\<lparr>rcm_client := Some ?g, rcm_running := True\<rparr>"
  have "rtmp_client_module_init (Some sample_config) zero_module = (0, ?s1)"
    by (simp add: rtmp_client_module_init_def zero_module_def sample_config_valid)
  then have 1: "module_step zero_module ?s1" by (rule module_step.init) (simp add: sample_config_valid)
  have "rtmp_client_module_start True True True ?s1 = (0, ?s2)"
    by (simp add: rtmp_client_module_start_def rtmp_client_create_def zero_module_def) (simp add: sample_config_def)
  then have 2: "module_step ?s1 ?s2" by (rule module_step.start)
  from 1 2 have r: "module_step\<^sup>*\<^sup>* zero_module ?s2" by (meson converse_rtranclp_into_rtranclp r_into_rtranclp)
  from client_module_wf [OF r] r show ?thesis by (intro exI [of _ ?s2]) simp
qed

text \<open>A connection whose socket fails with the next write.\<close>

definition broken_client :: rtmp_client_connection where
  "broken_client = sample_client\<lparr>rc_io := \<lparr>rx = [], tx_plan = [-1], tx = []\<rparr>\<rparr>"

theorem client_target_given_up_witness:
  "\<exists>c2. run_thread [sample_world, sample_world] (AtPublished, broken_client) = Some (AtEnd, c2) \<and> rc_thread_running c2 \<and>
     rc_socket_fd c2 = 5 \<and>
     c2 \<in> set (rcl_connections (rtmp_client_manager_thread (\<lambda>i. True) (\<lambda>i. True) (sample_manager\<lparr>rcl_connections := [c2]\<rparr>)))"
proof -
  let ?c1 = "broken_client\<lparr>rc_io := \<lparr>rx = [], tx_plan = [], tx = []\<rparr>\<rparr>"
  let ?c2 = "?c1\<lparr>rc_state := RTMP_CLIENT_STATE_ERROR\<rparr>"
  have s: "rtmp_client_send_chunked_message broken_client 2 1 0 (be32 (w_chunk_size sample_world)) = Some (-1, ?c1)"
    by code_simp
  have "rc_name ?c2 = target_name sample_target" "rc_socket_fd ?c2 = 5" "rc_thread_running broken_client"
    "rc_chunk_size_out broken_client = 3" "rc_socket_fd broken_client = 5"
    by (simp_all add: broken_client_def) (simp add: sample_client_def sample_target_def)
  with client_target_given_up [OF s, of ?c2 "sample_manager\<lparr>rcl_connections := [?c2]\<rparr>" sample_target "[sample_world]" "\<lambda>i. True" "\<lambda>i. True"]
  show ?thesis by (intro exI [of _ ?c2]) (simp del: run_thread.simps)
qed

theorem client_destroy_closes_witness:
  "\<exists>cs. rtmp_client_module_stop id \<lparr>rcm_initialized = True, rcm_running = True, rcm_config = Some sample_config,
       rcm_client = Some sample_manager\<rparr> =
     (0, \<lparr>rcm_initialized = True, rcm_running = False, rcm_config = Some sample_config, rcm_client = None\<rparr>, cs) \<and>
     length cs = 1 \<and> (\<forall>c \<in> set cs. rc_socket_fd c < 0)"
proof -
  let ?s = "\<lparr>rcm_initialized = True, rcm_running = True, rcm_config = Some sample_config, rcm_client = Some sample_manager\<rparr>"
  let ?s1 = "\<lparr>rcm_initialized = True, rcm_running = False, rcm_config = Some sample_config, rcm_client = None\<rparr>"
  obtain cs where stop: "rtmp_client_module_stop id ?s = (0, ?s1, cs)"
    by (simp add: rtmp_client_module_stop_def rtmp_client_destroy_def)
  have "module_wf ?s"
    by (simp add: module_wf_def sample_config_valid client_wf_def sample_manager_def)
  from client_destroy_closes [OF stop this] stop show ?thesis by (auto simp: sample_manager_def)
qed

section \<open>What the parser hands on\<close>

lemma if_member_keeps: "(\<And>v c. f (g v c) = f c) \<Longrightarrow> f (if_member J j key g c) = f c"
  by (simp add: if_member_def split: option.split)

lemma string_member_keeps:
  "string_member J j key n g c = Some c1 \<Longrightarrow> (\<And>s c. f (g s c) = f c) \<Longrightarrow> f c1 = f c"
  by (auto simp: string_member_def split: option.splits)

lemma parse_settings_targets [simp]: "client_targets (parse_settings J j c) = client_targets c"
  by (simp add: parse_settings_def if_member_def split: option.split)

lemma parse_target_fits: "parse_target J j = Some t \<Longrightarrow> length (target_name t) < 64"
proof -
  assume "parse_target J j = Some t"
  then obtain t1 t3 t4 where
    name: "string_member J j ''name'' 64 (\<lambda>s t. t\<lparr>target_name := s\<rparr>) zero_target = Some t1" and
    url: "string_member J j ''url'' 512 (\<lambda>s t. t\<lparr>target_url := s\<rparr>)
      (if_member J j ''enabled'' (\<lambda>v t. t\<lparr>target_enabled := json_boolean J v\<rparr>) t1) = Some t3" and
    key: "string_member J j ''stream_key'' 256 (\<lambda>s t. t\<lparr>target_stream_key := s\<rparr>) t3 = Some t4" and
    t: "t = if_member J j ''max_retries'' (\<lambda>v t. t\<lparr>target_max_retries := json_int J v\<rparr>)
      (if_member J j ''retry_interval'' (\<lambda>v t. t\<lparr>target_retry_interval := json_int J v\<rparr>) t4)"
    by (auto simp: parse_target_def Let_def split: option.splits)
  have "target_name t = target_name t1"
    using string_member_keeps [OF key, of target_name] string_member_keeps [OF url, of target_name]
    by (simp add: t if_member_keeps [of target_name])
  moreover have "length (target_name t1) < 64"
    using name by (auto simp: string_member_def zero_target_def split: option.splits)
  ultimately show ?thesis by simp
qed

lemma parse_targets_fit: "parse_targets J js = Some ts \<Longrightarrow> names_fit ts"
  by (induction J js arbitrary: ts rule: parse_targets.induct)
    (auto simp: names_fit_def parse_target_fits split: option.splits)

text \<open>
  Whatever document the parser of the client is given, the names of the targets it hands on fit the 64 bytes
  of the configuration, which the life cycle of the module relies on; a document without members leaves
  the configuration as it was.
\<close>

theorem client_config_parsed:
  assumes "rtmp_client_module_config_parse J mok (Some j) (Some c) = Some (r, c1)"
    and "names_fit (client_targets c)"
  shows "(\<exists>g. c1 = Some g \<and> names_fit (client_targets g)) \<and> (r = 0 \<or> r = -1) \<and>
    ((\<forall>key. json_get J j key = None) \<longrightarrow> r = 0 \<and> c1 = Some c)"
proof -
  let ?c1 = "if_member J j ''enabled'' (\<lambda>v c. c\<lparr>client_enabled := json_boolean J v\<rparr>) c"
  have keep: "client_targets ?c1 = client_targets c" by (rule if_member_keeps) simp
  have empty: "r = 0 \<and> c1 = Some c" if "\<forall>key. json_get J j key = None"
    using assms(1) that by (simp add: rtmp_client_module_config_parse_def if_member_def parse_settings_def)
  define streams where "streams = (case json_get J j ''streams'' of None \<Rightarrow> []
      | Some v \<Rightarrow> (case json_array J v of None \<Rightarrow> [] | Some vs \<Rightarrow> vs))"
  consider "r = -1" "c1 = Some ?c1"
    | ts where "(if streams = [] then Some (client_targets ?c1) else parse_targets J streams) = Some ts" "r = 0"
        "c1 = Some (parse_settings J j (?c1\<lparr>client_targets := ts\<rparr>))"
    using assms(1) unfolding rtmp_client_module_config_parse_def Let_def option.case prod.case
      streams_def [symmetric]
    by (cases "streams \<noteq> [] \<and> \<not> mok (length streams)") (simp_all split: option.splits)
  then have "(\<exists>g. c1 = Some g \<and> names_fit (client_targets g)) \<and> (r = 0 \<or> r = -1)"
  proof cases
    case (2 ts)
    then have "names_fit ts" using assms(2) keep by (auto split: if_splits intro: parse_targets_fit)
    with 2 show ?thesis by auto
  qed (use assms(2) keep in auto)
  with empty show ?thesis by blast
qed

definition sample_document :: sample_json where
  "sample_document =
     JObject [(''enabled'', JBool True),
       (''streams'', JList [JNull, JObject [(''name'', JText (replicate 70 CHR ''x'')), (''url'', JText ''rtmp://a/b'')]]),
       (''video'', JObject [(''channel'', JInt 1)])]"

theorem client_config_parsed_witness:
  "\<exists>g. rtmp_client_module_config_parse sample_json_c (\<lambda>n. True) (Some sample_document)
      (Some rtmp_client_module_set_defaults) = Some (0, Some g) \<and> names_fit (client_targets g) \<and>
    client_channel g = 1 \<and> map target_url (client_targets g) = [''rtmp://a/b'']"
proof -
  obtain g where g: "rtmp_client_module_config_parse sample_json_c (\<lambda>n. True) (Some sample_document)
      (Some rtmp_client_module_set_defaults) = Some (0, Some g)" "client_channel g = 1"
      "map target_url (client_targets g) = [''rtmp://a/b'']"
    by (simp add: rtmp_client_module_config_parse_def sample_document_def sample_json_c_def if_member_def
        parse_target_def string_member_def zero_target_def parse_settings_def clamp_int_def Let_def)
  with client_config_parsed [OF g(1)] show ?thesis
    by (auto simp: rtmp_client_module_set_defaults_def names_fit_def)
qed

text \<open>A name that is null makes the parser copy from a null pointer.\<close>

lemma client_null_name_crashes:
  "rtmp_client_module_config_parse sample_json_c (\<lambda>n. True)
     (Some (JObject [(''streams'', JList [JObject [(''name'', JNull)]])])) (Some c) = None"
  by (simp add: rtmp_client_module_config_parse_def sample_json_c_def if_member_def parse_target_def string_member_def)

end
