(* ===== verification/HttpRouter.thy ===== *)
theory HttpRouter
  imports CStrings
begin

text \<open>
  \<open>modules/http/http_router.c\<close>: the route table, dispatching a request to a handler, the method
  names and the endpoint list. A handler is its address; calling it is returned as the call made.
\<close>

section \<open>State\<close>

datatype http_method =
  HTTP_METHOD_GET | HTTP_METHOD_POST | HTTP_METHOD_PUT | HTTP_METHOD_DELETE | HTTP_METHOD_COUNT

record http_route =
  path :: string
  route_method :: http_method
  handler :: nat
  route_module :: string
  description :: "string option"

record http_router =
  routes :: "http_route list"
  router_initialized :: bool

definition MAX_ROUTES :: nat where
  "MAX_ROUTES = 128"

definition method_strings :: "http_method \<Rightarrow> string" where
  "method_strings m =
     (case m of HTTP_METHOD_GET \<Rightarrow> ''GET'' | HTTP_METHOD_POST \<Rightarrow> ''POST''
      | HTTP_METHOD_PUT \<Rightarrow> ''PUT'' | HTTP_METHOD_DELETE \<Rightarrow> ''DELETE'' | HTTP_METHOD_COUNT \<Rightarrow> [])"

definition http_router_init :: "http_router \<Rightarrow> c_int \<times> http_router" where
  "http_router_init r =
     (if router_initialized r then (0, r) else (0, \<lparr>routes = [], router_initialized = True\<rparr>))"

definition http_router_cleanup :: "http_router \<Rightarrow> http_router" where
  "http_router_cleanup r = r\<lparr>routes := [], router_initialized := False\<rparr>"

section \<open>Registration\<close>

fun override_route ::
  "http_route list \<Rightarrow> string \<Rightarrow> http_method \<Rightarrow> nat \<Rightarrow> string \<Rightarrow> string option \<Rightarrow>
     http_route list option" where
  "override_route [] p m h modname descr = None"
| "override_route (r # rs) p m h modname descr =
     (if route_method r = m \<and> path r = p
      then Some (r\<lparr>handler := h, route_module := modname, description := descr\<rparr> # rs)
      else map_option ((#) r) (override_route rs p m h modname descr))"

text \<open>The pointer arguments are \<open>None\<close> for NULL.\<close>

definition http_router_register_route ::
  "http_router \<Rightarrow> string option \<Rightarrow> http_method \<Rightarrow> nat option \<Rightarrow> string option \<Rightarrow> string option \<Rightarrow>
     c_int \<times> http_router" where
  "http_router_register_route r p m h modname descr =
     (if \<not> router_initialized r then (-1, r)
      else case (p, h, modname) of
        (Some p', Some h', Some n') \<Rightarrow>
          if MAX_ROUTES \<le> length (routes r) then (-1, r)
          else if m = HTTP_METHOD_COUNT then (-1, r)
          else (case override_route (routes r) p' m h' n' descr of
                  Some rs \<Rightarrow> (0, r\<lparr>routes := rs\<rparr>)
                | None \<Rightarrow> (0, r\<lparr>routes := routes r @ [\<lparr>path = p', route_method = m, handler = h',
                                  route_module = n', description = descr\<rparr>]\<rparr>))
      | _ \<Rightarrow> (-1, r))"

fun register_route_list :: "http_router \<Rightarrow> http_route list \<Rightarrow> c_int \<times> http_router" where
  "register_route_list r [] = (0, r)"
| "register_route_list r (x # xs) =
     (case http_router_register_route r (Some (path x)) (route_method x) (Some (handler x))
             (Some (route_module x)) (description x) of
        (ret, r1) \<Rightarrow> if ret < 0 then (ret, r1) else register_route_list r1 xs)"

definition http_router_register_routes ::
  "http_router \<Rightarrow> http_route list option \<Rightarrow> c_int \<times> http_router" where
  "http_router_register_routes r xs =
     (case xs of None \<Rightarrow> (-1, r) | Some l \<Rightarrow> register_route_list r l)"

section \<open>Dispatch\<close>

definition extract_method :: "string \<Rightarrow> http_method" where
  "extract_method req =
     (if starts_with ''GET '' req then HTTP_METHOD_GET
      else if starts_with ''POST '' req then HTTP_METHOD_POST
      else if starts_with ''PUT '' req then HTTP_METHOD_PUT
      else if starts_with ''DELETE '' req then HTTP_METHOD_DELETE
      else HTTP_METHOD_COUNT)"

text \<open>\<open>None\<close> is -1; the query is looked for in all of the rest of the request.\<close>

definition extract_path :: "string \<Rightarrow> nat \<Rightarrow> string option" where
  "extract_path req buffer_size =
     (case strchr req CHR '' '' of
        None \<Rightarrow> None
      | Some i \<Rightarrow>
          (let start = drop (i + 1) req in
           case strchr start CHR '' '' of
             None \<Rightarrow> None
           | Some path_len \<Rightarrow>
               if buffer_size \<le> path_len then None
               else (case strchr start CHR ''?'' of
                       Some q \<Rightarrow> Some (take (if q < path_len then q else path_len) start)
                     | None \<Rightarrow> Some (take path_len start))))"

definition find_route :: "http_route list \<Rightarrow> string \<Rightarrow> http_method \<Rightarrow> http_route option" where
  "find_route rs p m = find (\<lambda>r. route_method r = m \<and> path r = p) rs"

text \<open>The result code and the handler called, if any, with the socket and the request.\<close>

definition http_router_dispatch ::
  "http_router \<Rightarrow> string option \<Rightarrow> int \<Rightarrow> c_int \<times> (nat \<times> int \<times> string) option" where
  "http_router_dispatch r request sock =
     (if \<not> router_initialized r then (-1, None)
      else case request of
        None \<Rightarrow> (-1, None)
      | Some req \<Rightarrow>
          (let m = extract_method req in
           if m = HTTP_METHOD_COUNT then (-1, None)
           else case extract_path req 256 of
             None \<Rightarrow> (-1, None)
           | Some p \<Rightarrow>
               (case find_route (routes r) p m of
                  Some rt \<Rightarrow> (0, Some (handler rt, sock, req))
                | None \<Rightarrow> (-1, None))))"

section \<open>Names and lists\<close>

definition http_method_to_string :: "http_method \<Rightarrow> string" where
  "http_method_to_string m = (if m \<noteq> HTTP_METHOD_COUNT then method_strings m else ''UNKNOWN'')"

definition http_method_from_string :: "string option \<Rightarrow> http_method" where
  "http_method_from_string s =
     (case s of
        None \<Rightarrow> HTTP_METHOD_COUNT
      | Some t \<Rightarrow>
          (case find (\<lambda>m. t = method_strings m)
                  [HTTP_METHOD_GET, HTTP_METHOD_POST, HTTP_METHOD_PUT, HTTP_METHOD_DELETE] of
             Some m \<Rightarrow> m | None \<Rightarrow> HTTP_METHOD_COUNT))"

definition http_router_get_route_count :: "http_router \<Rightarrow> nat" where
  "http_router_get_route_count r = length (routes r)"

definition http_router_get_route :: "http_router \<Rightarrow> nat \<Rightarrow> http_route option" where
  "http_router_get_route r i = (if length (routes r) \<le> i then None else Some (routes r ! i))"

text \<open>
  \<open>snprintf(buffer + len, buffer_size - len, ...)\<close> in the list generator, with \<open>size_t\<close> of 32
  bits: the new \<open>len\<close>, which counts what was cut off, too, and the stores made, each with its
  position. A store of \<open>n\<close> characters is followed by a NUL.
\<close>

definition put_text :: "u32 \<Rightarrow> u32 \<Rightarrow> string \<Rightarrow> (nat \<times> string) list \<Rightarrow> u32 \<times> (nat \<times> string) list" where
  "put_text buffer_size len s out =
     (let room = unat (buffer_size - len) in
      (len + word_of_nat (length s), if room = 0 then out else out @ [(unat len, fit room s)]))"

fun endpoint_loop ::
  "u32 \<Rightarrow> http_route list \<Rightarrow> bool \<Rightarrow> u32 \<Rightarrow> (nat \<times> string) list \<Rightarrow> u32 \<times> (nat \<times> string) list" where
  "endpoint_loop buffer_size [] first len out = (len, out)"
| "endpoint_loop buffer_size (r # rs) first len out =
     (if buffer_size - 20 \<le> len then (len, out)
      else
        (let (len1, out1) = (if first then (len, out) else put_text buffer_size len '','' out);
             (len2, out2) = put_text buffer_size len1 (CHR 0x22 # path r @ [CHR 0x22]) out1
         in endpoint_loop buffer_size rs False len2 out2))"

text \<open>\<open>None\<close> is -1; otherwise the length returned and the stores made, in order.\<close>

definition http_router_generate_endpoint_list ::
  "http_router \<Rightarrow> bool \<Rightarrow> u32 \<Rightarrow> (c_int \<times> (nat \<times> string) list) option" where
  "http_router_generate_endpoint_list r null_buffer buffer_size =
     (if null_buffer \<or> buffer_size = 0 then None
      else (case endpoint_loop buffer_size (routes r) True 0 [] of
              (len, out) \<Rightarrow> Some (sint len, out)))"

section \<open>The table\<close>

definition route_key :: "http_route \<Rightarrow> string \<times> http_method" where
  "route_key r = (path r, route_method r)"

definition router_inv :: "http_router \<Rightarrow> bool" where
  "router_inv r \<longleftrightarrow>
     length (routes r) \<le> MAX_ROUTES \<and> distinct (map route_key (routes r)) \<and>
     HTTP_METHOD_COUNT \<notin> route_method ` set (routes r)"

text \<open>What a route does, apart from its key.\<close>

type_synonym route_target = "nat \<times> string \<times> string option"

definition route_lookup :: "http_router \<Rightarrow> string \<times> http_method \<Rightarrow> route_target option" where
  "route_lookup r k =
     map_option (\<lambda>rt. (handler rt, route_module rt, description rt)) (find_route (routes r) (fst k) (snd k))"

definition route_add ::
  "http_router \<Rightarrow> string \<times> http_method \<Rightarrow> route_target \<Rightarrow> c_int \<times> http_router" where
  "route_add r k v =
     http_router_register_route r (Some (fst k)) (snd k) (Some (fst v)) (Some (fst (snd v))) (snd (snd v))"

lemma find_route_simps [simp]:
  "find_route [] p m = None"
  "find_route (r # rs) p m = (if route_key r = (p, m) then Some r else find_route rs p m)"
  by (auto simp: find_route_def route_key_def)

lemma find_route_append:
  "find_route (rs @ [r]) p m =
     (case find_route rs p m of Some x \<Rightarrow> Some x | None \<Rightarrow> if route_key r = (p, m) then Some r else None)"
  by (induction rs) auto

lemma find_route_None: "find_route rs p m = None \<longleftrightarrow> (p, m) \<notin> route_key ` set rs"
  by (induction rs) auto

lemma find_route_Some: "find_route rs p m = Some rt \<Longrightarrow> rt \<in> set rs \<and> route_key rt = (p, m)"
  by (induction rs) (auto split: if_splits)

lemma override_None: "override_route rs p m h n d = None \<longleftrightarrow> find_route rs p m = None"
  by (induction rs) (auto simp: route_key_def)

lemma override_keys: "override_route rs p m h n d = Some rs' \<Longrightarrow> map route_key rs' = map route_key rs"
  by (induction rs arbitrary: rs') (auto simp: route_key_def split: if_splits)

lemma override_find:
  "override_route rs p m h n d = Some rs' \<Longrightarrow>
     map_option (\<lambda>rt. (handler rt, route_module rt, description rt)) (find_route rs' p' m') =
     (if (p', m') = (p, m) then Some (h, n, d)
      else map_option (\<lambda>rt. (handler rt, route_module rt, description rt)) (find_route rs p' m'))"
  by (induction rs arbitrary: rs') (auto simp: route_key_def split: if_splits)

lemma methods_of_keys: "route_method ` set rs = snd ` set (map route_key rs)"
  by (auto simp: route_key_def image_iff)

lemma route_add_inv:
  assumes "router_inv r" and "route_add r k v = (c, r')"
  shows "router_inv r'"
proof (cases "override_route (routes r) (fst k) (snd k) (fst v) (fst (snd v)) (snd (snd v))")
  case None
  then have "k \<notin> set (map route_key (routes r))"
    by (cases k) (simp add: override_None find_route_None)
  with assms None show ?thesis
    by (auto simp: route_add_def http_router_register_route_def router_inv_def route_key_def
        split: if_splits)
next
  case (Some rs)
  from override_keys [OF this] have keys: "map route_key rs = map route_key (routes r)" .
  then have "length rs = length (routes r)" by (rule map_eq_imp_length_eq)
  moreover from keys have "route_method ` set rs = route_method ` set (routes r)"
    by (simp only: methods_of_keys)
  ultimately show ?thesis
    using assms Some keys
    by (auto simp: route_add_def http_router_register_route_def router_inv_def split: if_splits)
qed

lemma route_add_ok:
  assumes "route_add r k v = (0, r')"
  shows "route_lookup r' = (route_lookup r)(k \<mapsto> v)"
proof
  fix k'
  show "route_lookup r' k' = ((route_lookup r)(k \<mapsto> v)) k'"
  proof (cases "override_route (routes r) (fst k) (snd k) (fst v) (fst (snd v)) (snd (snd v))")
    case None
    then have "find_route (routes r) (fst k) (snd k) = None" by (simp add: override_None)
    with assms None show ?thesis
      by (cases k; cases k'; cases v)
        (auto simp: route_add_def http_router_register_route_def route_lookup_def find_route_append
          route_key_def split: if_splits option.splits)
  next
    case (Some rs)
    from override_find [OF this, of "fst k'" "snd k'"] assms Some show ?thesis
      by (cases k; cases k'; cases v)
        (auto simp: route_add_def http_router_register_route_def route_lookup_def split: if_splits)
  qed
qed

lemma route_add_code: "route_add r k v = (c, r') \<Longrightarrow> (c = 0 \<or> c = -1) \<and> (c \<noteq> 0 \<longrightarrow> r' = r) \<and>
    router_initialized r' = router_initialized r"
  by (auto simp: route_add_def http_router_register_route_def split: if_splits option.splits)

interpretation router: registry route_lookup route_add "\<lambda>k v. v" router_inv
  by unfold_locales (use route_add_ok route_add_code route_add_inv in blast)+

text \<open>Registering a list of routes is the list registration of the interface.\<close>

lemma register_route_list_add:
  "register_route_list r xs =
     router.add_list r (map (\<lambda>x. (route_key x, (handler x, route_module x, description x))) xs)"
proof (induction xs arbitrary: r)
  case Nil
  then show ?case by simp
next
  case (Cons x xs)
  obtain c r1 where a: "route_add r (route_key x) (handler x, route_module x, description x) = (c, r1)"
    by (metis prod.exhaust)
  then have "http_router_register_route r (Some (path x)) (route_method x) (Some (handler x))
      (Some (route_module x)) (description x) = (c, r1)"
    by (simp add: route_add_def route_key_def)
  with a route_add_code [OF a] Cons.IH show ?case by auto
qed

lemma register_route_list_initialized:
  assumes "register_route_list r xs = (c, r')"
  shows "router_initialized r' = router_initialized r"
    and "c = 0 \<Longrightarrow> xs \<noteq> [] \<Longrightarrow> router_initialized r'"
proof -
  show a: "router_initialized r' = router_initialized r"
    using assms
    by (induction r xs rule: register_route_list.induct)
      (auto simp: http_router_register_route_def split: if_splits option.splits prod.splits)
  assume "c = 0" "xs \<noteq> []"
  with assms have "router_initialized r"
    by (cases xs) (auto simp: http_router_register_route_def split: if_splits)
  with a show "router_initialized r'" by simp
qed

section \<open>Requests\<close>

lemma extract_method_of:
  "m \<noteq> HTTP_METHOD_COUNT \<Longrightarrow> extract_method (method_strings m @ CHR '' '' # s) = m"
  by (cases m) (simp_all add: extract_method_def starts_with_def method_strings_def)

lemma extract_path_of:
  assumes "CHR '' '' \<notin> set m" and "CHR '' '' \<notin> set p" and "CHR ''?'' \<notin> set p"
    and "CHR '' '' \<notin> set q" and "length (p @ q) < n" and "q = [] \<or> hd q = CHR ''?''"
  shows "extract_path (m @ CHR '' '' # p @ q @ CHR '' '' # rest) n = Some p"
proof -
  let ?s = "p @ q @ CHR '' '' # rest"
  have a: "strchr (m @ CHR '' '' # ?s) CHR '' '' = Some (length m)"
    using assms(1) by (rule strchr_append)
  have b: "strchr ?s CHR '' '' = Some (length (p @ q))"
    using strchr_append [of "CHR '' ''" "p @ q" rest] assms(2,4) by simp
  have q: "strchr ?s CHR ''?'' = Some (length p)" if "q \<noteq> []"
  proof -
    from that assms(6) obtain q' where "q = CHR ''?'' # q'" by (cases q) auto
    with strchr_append [OF assms(3)] show ?thesis by simp
  qed
  show ?thesis
  proof (cases "q = []")
    case False
    then have "length p < length (p @ q)" by simp
    with a b q False assms(5) show ?thesis by (simp add: extract_path_def Let_def)
  next
    case True
    with strchr_skip [OF assms(3), of "CHR '' '' # rest"] a b assms(5) show ?thesis
      by (auto simp: extract_path_def Let_def split: option.splits)
  qed
qed

section \<open>Operations in any order\<close>

datatype router_event =
  RouterInit | RouterCleanup
| RouterRegister "string option" http_method "nat option" "string option" "string option"
| RouterRegisterList "http_route list option"

definition router_step :: "http_router \<Rightarrow> router_event \<Rightarrow> http_router" where
  "router_step r e =
     (case e of
        RouterInit \<Rightarrow> snd (http_router_init r)
      | RouterCleanup \<Rightarrow> http_router_cleanup r
      | RouterRegister p m h n d \<Rightarrow> snd (http_router_register_route r p m h n d)
      | RouterRegisterList xs \<Rightarrow> snd (http_router_register_routes r xs))"

lemma register_route_inv:
  assumes "router_inv r"
  shows "router_inv (snd (http_router_register_route r p m h n d))"
proof (cases "\<exists>p' h' n'. (p, h, n) = (Some p', Some h', Some n')")
  case True
  then obtain p' h' n' where "p = Some p'" "h = Some h'" "n = Some n'" by auto
  with route_add_inv [OF assms, of "(p', m)" "(h', n', d)"] show ?thesis
    by (simp add: route_add_def prod_eq_iff)
next
  case False
  then have "snd (http_router_register_route r p m h n d) = r"
    by (auto simp: http_router_register_route_def split: option.splits)
  with assms show ?thesis by simp
qed

lemma register_routes_inv:
  assumes "router_inv r"
  shows "router_inv (snd (http_router_register_routes r xs))"
proof (cases xs)
  case (Some l)
  obtain c r' where "register_route_list r l = (c, r')" by (metis prod.exhaust)
  with router.add_list_inv [OF assms] Some show ?thesis
    by (simp add: http_router_register_routes_def register_route_list_add)
qed (use assms in \<open>simp add: http_router_register_routes_def\<close>)

interpretation router_life:
  event_machine "\<lambda>r. routes r = []" router_step router_inv
proof
  fix r e assume "router_inv r"
  then show "router_inv (router_step r e)"
    by (cases e)
      (auto simp: router_step_def http_router_init_def http_router_cleanup_def
        intro: register_route_inv register_routes_inv, simp_all add: router_inv_def)
qed (simp add: router_inv_def)

section \<open>Properties\<close>

text \<open>
  Any sequence of initialisations, clean-ups and registrations, failed ones included, keeps
  the route table within its 128 entries, with at most one route for a path and a method.
\<close>

theorem router_table_invariant:
  "length (routes (foldl router_step \<lparr>routes = [], router_initialized = False\<rparr> es)) \<le> 128 \<and>
   distinct (map route_key (routes (foldl router_step \<lparr>routes = [], router_initialized = False\<rparr> es)))"
  using router_life.inv_reached [of "\<lparr>routes = [], router_initialized = False\<rparr>" es]
  by (simp add: router_inv_def MAX_ROUTES_def)

text \<open>
  C29. A module that registered its routes, with distinct keys, without an error is reached by
  every request for one of them: dispatching a request line with the route's method and path,
  and any query behind the path, calls its handler with the socket and the request.
\<close>

theorem router_dispatch_registered:
  assumes "router_inv r" and "http_router_register_routes r (Some xs) = (0, r')"
    and "distinct (map route_key xs)" and "x \<in> set xs"
    and "CHR '' '' \<notin> set (path x)" and "CHR ''?'' \<notin> set (path x)" and "CHR '' '' \<notin> set query"
    and "query = [] \<or> hd query = CHR ''?''" and "length (path x @ query) < 256"
    and "req = method_strings (route_method x) @ CHR '' '' # path x @ query @ CHR '' '' # rest"
  shows "http_router_dispatch r' (Some req) sock = (0, Some (handler x, sock, req))"
proof -
  let ?kvs = "map (\<lambda>x. (route_key x, (handler x, route_module x, description x))) xs"
  have add: "router.add_list r ?kvs = (0, r')"
    using assms(2) by (simp add: http_router_register_routes_def register_route_list_add)
  have "map fst ?kvs = map route_key xs" by (induction xs) auto
  then have "distinct (map fst ?kvs)" using assms(3) by (simp only:)
  from router.add_list_finds [OF assms(1) add this, of "route_key x"] assms(4)
  have found: "route_lookup r' (route_key x) = Some (handler x, route_module x, description x)"
    by (auto simp: image_iff)
  then obtain rt where rt: "find_route (routes r') (path x) (route_method x) = Some rt"
    "handler rt = handler x"
    by (auto simp: route_lookup_def route_key_def)
  have "xs \<noteq> []" using assms(4) by auto
  with assms(2) register_route_list_initialized [of r xs 0 r'] have init: "router_initialized r'"
    by (auto simp: http_router_register_routes_def)
  have "router_inv r'" using router.add_list_inv [OF assms(1) add] .
  with rt(1) have m: "route_method x \<noteq> HTTP_METHOD_COUNT"
    by (force simp: router_inv_def route_key_def dest: find_route_Some)
  then have "extract_method req = route_method x" by (simp add: assms(10) extract_method_of)
  moreover have "CHR '' '' \<notin> set (method_strings (route_method x))"
    by (cases "route_method x") (simp_all add: method_strings_def)
  then have "extract_path req 256 = Some (path x)"
    unfolding assms(10) using assms(5-9) by (intro extract_path_of) simp_all
  ultimately show ?thesis using rt init m by (simp add: http_router_dispatch_def)
qed

definition sample_routes :: "http_route list" where
  "sample_routes =
     [\<lparr>path = ''/image0.jpg'', route_method = HTTP_METHOD_GET, handler = 7, route_module = ''grab'',
       description = None\<rparr>,
      \<lparr>path = ''/api'', route_method = HTTP_METHOD_POST, handler = 8, route_module = ''http'',
       description = None\<rparr>]"

theorem router_dispatch_registered_witness:
  "http_router_dispatch
     (snd (http_router_register_routes \<lparr>routes = [], router_initialized = True\<rparr> (Some sample_routes)))
     (Some ''POST /api?x=1 HTTP/1.1'') 4 = (0, Some (8, 4, ''POST /api?x=1 HTTP/1.1''))"
proof -
  let ?r = "\<lparr>routes = [], router_initialized = True\<rparr>"
  have inv: "router_inv ?r" by (simp add: router_inv_def)
  have reg: "http_router_register_routes ?r (Some sample_routes) =
      (0, \<lparr>routes = sample_routes, router_initialized = True\<rparr>)"
    by code_simp
  have "distinct (map route_key sample_routes)" by (simp add: sample_routes_def route_key_def)
  moreover have "sample_routes ! 1 \<in> set sample_routes" by (simp add: sample_routes_def)
  ultimately show ?thesis
    using router_dispatch_registered [OF inv reg, of "sample_routes ! 1" "''?x=1''" _ "''HTTP/1.1''" 4,
        OF _ _ _ _ _ _ _ refl]
    by (simp add: reg) (simp add: sample_routes_def method_strings_def)
qed

text \<open>
  Method names: the name of a method is read back as that method, and only the four names
  are read as a method.
\<close>

theorem http_method_roundtrip:
  "http_method_from_string (Some (http_method_to_string m)) = m \<and>
   (http_method_from_string (Some s) = HTTP_METHOD_COUNT) = (s \<notin> {''GET'', ''POST'', ''PUT'', ''DELETE''})"
  by (cases m) (auto simp: http_method_from_string_def http_method_to_string_def method_strings_def)

section \<open>The endpoint list\<close>

definition inside :: "u32 \<Rightarrow> nat \<times> string \<Rightarrow> bool" where
  "inside buffer_size st \<longleftrightarrow> fst st + length (snd st) + 1 \<le> unat buffer_size"

lemma put_text_inside:
  assumes "len \<le> buffer_size" and "list_all (inside buffer_size) out"
  shows "list_all (inside buffer_size) (snd (put_text buffer_size len s out))"
proof (cases "unat (buffer_size - len) = 0")
  case False
  have "unat (buffer_size - len) = unat buffer_size - unat len"
    using assms(1) by (simp add: unat_sub)
  with False fit_length [of "unat (buffer_size - len)" s] assms show ?thesis
    by (auto simp: put_text_def Let_def inside_def word_le_nat_alt)
qed (use assms in \<open>simp add: put_text_def\<close>)

lemma endpoint_loop_inside:
  "20 \<le> buffer_size \<Longrightarrow> list_all (inside buffer_size) out \<Longrightarrow>
     list_all (inside buffer_size) (snd (endpoint_loop buffer_size rs first len out))"
proof (induction buffer_size rs first len out rule: endpoint_loop.induct)
  case (2 buffer_size r rs first len out)
  show ?case
  proof (cases "buffer_size - 20 \<le> len")
    case False
    obtain len1 out1 where p1:
      "(if first then (len, out) else put_text buffer_size len '','' out) = (len1, out1)"
      by (metis prod.exhaust)
    obtain len2 out2 where p2:
      "put_text buffer_size len1 (CHR 0x22 # path r @ [CHR 0x22]) out1 = (len2, out2)"
      by (metis prod.exhaust)
    have le: "len \<le> buffer_size" "len1 \<le> buffer_size"
      using False "2.prems"(1) p1 by (auto simp: put_text_def Let_def split: if_splits) unat_arith+
    have "list_all (inside buffer_size) out1"
      using p1 put_text_inside [OF le(1) "2.prems"(2), of "'',''"] "2.prems"(2)
      by (auto split: if_splits)
    from put_text_inside [OF le(2) this] p2 have "list_all (inside buffer_size) out2"
      by (metis snd_conv)
    with "2.IH" [OF False p1 [symmetric] refl p2 [symmetric] refl] "2.prems"(1) False p1 p2
    show ?thesis by (simp only: endpoint_loop.simps Let_def prod.case if_False)
  qed (use "2.prems" in simp)
qed simp

text \<open>
  With a buffer of at least 20 bytes the endpoint list generator stores nothing outside its
  buffer, whatever the routes, NULs included.
\<close>

theorem endpoint_list_in_bounds:
  assumes "20 \<le> buffer_size"
    and "http_router_generate_endpoint_list r null_buffer buffer_size = Some (n, stores)"
  shows "list_all (\<lambda>(pos, s). pos + length s + 1 \<le> unat buffer_size) stores"
proof -
  from assms(2) have "stores = snd (endpoint_loop buffer_size (routes r) True 0 [])"
    by (auto simp: http_router_generate_endpoint_list_def split: if_splits prod.splits)
  with endpoint_loop_inside [OF assms(1), of "[]" "routes r" True 0]
  have "list_all (inside buffer_size) stores" by simp
  then show ?thesis by (auto simp: inside_def list_all_iff)
qed

theorem endpoint_list_in_bounds_witness:
  "http_router_generate_endpoint_list \<lparr>routes = sample_routes, router_initialized = True\<rparr> False 24 =
     Some (13, [(0, CHR 0x22 # ''/image0.jpg'' @ [CHR 0x22])]) \<and>
   list_all (\<lambda>(pos, s). pos + length s + 1 \<le> (24 :: nat)) [(0, CHR 0x22 # ''/image0.jpg'' @ [CHR 0x22])]"
proof -
  have e: "http_router_generate_endpoint_list \<lparr>routes = sample_routes, router_initialized = True\<rparr> False 24 =
     Some (13, [(0, CHR 0x22 # ''/image0.jpg'' @ [CHR 0x22])])"
    by code_simp
  from endpoint_list_in_bounds [OF _ e] e show ?thesis by simp
qed

text \<open>
  Below 20 bytes the guard \<open>buffer_size - 20\<close> wraps around, and with two routes the generator
  stores behind a buffer of 16 bytes.
\<close>

lemma endpoint_list_small_buffer:
  "http_router_generate_endpoint_list
     \<lparr>routes = sample_routes @ sample_routes, router_initialized = True\<rparr> False 16 =
   Some (41, [(0, CHR 0x22 # ''/image0.jpg'' @ [CHR 0x22]), (13, '',''), (14, [CHR 0x22]),
      (20, '',''), (21, CHR 0x22 # ''/image0.jpg'' @ [CHR 0x22]), (34, '',''),
      (35, CHR 0x22 # ''/api'' @ [CHR 0x22])])"
  by (simp add: http_router_generate_endpoint_list_def sample_routes_def put_text_def fit_def Let_def)

end
