(* ===== verification/AuthUtils.thy ===== *)
theory AuthUtils
  imports CStrings
begin

text \<open>
  \<open>auth_utils.c\<close>: Base64, Basic authentication for HTTP and RTSP, the WS-Security token of ONVIF.
  Strings are C strings without their NUL; decoded credentials are bytes. A result of \<open>None\<close>
  where an outer option is written out is undefined behaviour (a write behind a buffer, the
  difference to a NULL pointer). The API's NULL pointers are \<open>None\<close> arguments.
\<close>

section \<open>Data\<close>

datatype auth_result =
  AUTH_RESULT_SUCCESS | AUTH_RESULT_REQUIRED | AUTH_RESULT_INVALID | AUTH_RESULT_ERROR

record auth_config =
  auth_enabled :: bool
  localhost_bypass :: bool
  auth_username :: string
  auth_password :: string

record client_info =
  client_fd :: int
  client_addr :: u32
  is_localhost :: bool
  ip_string :: string

section \<open>Who is asking\<close>

text \<open>The address in host byte order.\<close>

definition auth_is_localhost :: "u32 option \<Rightarrow> bool" where
  "auth_is_localhost addr =
     (case addr of None \<Rightarrow> False | Some ip \<Rightarrow> drop_bit 24 ip = 127 \<or> ip = 0)"

definition dotted :: "u32 \<Rightarrow> string" where
  "dotted ip =
     decimal (unat (drop_bit 24 ip)) @ ''.'' @ decimal (unat (drop_bit 16 ip AND 255)) @ ''.'' @
     decimal (unat (drop_bit 8 ip AND 255)) @ ''.'' @ decimal (unat (ip AND 255))"

text \<open>\<open>peer\<close> is what \<open>getpeername\<close> finds.\<close>

definition auth_get_client_info :: "(int \<Rightarrow> u32 option) \<Rightarrow> int \<Rightarrow> client_info option" where
  "auth_get_client_info peer fd =
     (case peer fd of
        None \<Rightarrow> None
      | Some ip \<Rightarrow> Some \<lparr>client_fd = fd, client_addr = ip,
                         is_localhost = auth_is_localhost (Some ip), ip_string = dotted ip\<rparr>)"

definition auth_is_required :: "auth_config option \<Rightarrow> client_info option \<Rightarrow> bool" where
  "auth_is_required config client =
     (case (config, client) of
        (Some c, Some i) \<Rightarrow>
          if \<not> auth_enabled c then False
          else if localhost_bypass c \<and> is_localhost i then False
          else True
      | _ \<Rightarrow> True)"

section \<open>Base64\<close>

definition base64_chars :: string where
  "base64_chars = ''ABCDEFGHIJKLMNOPQRSTUVWXYZabcdefghijklmnopqrstuvwxyz0123456789+/''"

definition base64_char :: "u32 \<Rightarrow> char" where
  "base64_char w = base64_chars ! unat (w AND 63)"

function encode_loop :: "bytes \<Rightarrow> nat \<Rightarrow> string" where
  "encode_loop inp i =
     (if i < length inp then
        (let octet_a = ucast (inp ! i) :: u32;
             octet_b = (if i + 1 < length inp then ucast (inp ! (i + 1)) else 0) :: u32;
             octet_c = (if i + 2 < length inp then ucast (inp ! (i + 2)) else 0) :: u32;
             triple = push_bit 16 octet_a + push_bit 8 octet_b + octet_c
         in [base64_char (drop_bit 18 triple), base64_char (drop_bit 12 triple),
             if i + 1 < length inp then base64_char (drop_bit 6 triple) else CHR ''='',
             if i + 2 < length inp then base64_char triple else CHR ''=''] @ encode_loop inp (i + 3))
      else [])"
  by pat_completeness auto
termination
  by (relation "measure (\<lambda>(inp, i). length inp - i)") auto

declare encode_loop.simps [simp del]

definition auth_base64_encode :: "bytes option \<Rightarrow> c_int \<times> string" where
  "auth_base64_encode input =
     (case input of None \<Rightarrow> (-1, []) | Some b \<Rightarrow> (int (length (encode_loop b 0)), encode_loop b 0))"

text \<open>The value of a character; \<open>None\<close>: \<open>strchr\<close> returns NULL, from which the table is subtracted.\<close>

definition sextet :: "char \<Rightarrow> u32 option" where
  "sextet c = (if c = CHR ''='' then Some 0 else map_option word_of_nat (strchr base64_chars c))"

function decode_loop :: "string \<Rightarrow> nat \<Rightarrow> bytes option" where
  "decode_loop inp i =
     (if i < length inp then
        (case (sextet (inp ! i), sextet (inp ! (i + 1)), sextet (inp ! (i + 2)), sextet (inp ! (i + 3))) of
           (Some a, Some b, Some c, Some d) \<Rightarrow>
             (let triple = push_bit 18 a + push_bit 12 b + push_bit 6 c + d
              in map_option
                   ((@) (ucast (drop_bit 16 triple AND 255) #
                         (if inp ! (i + 2) \<noteq> CHR ''='' then [ucast (drop_bit 8 triple AND 255)] else []) @
                         (if inp ! (i + 3) \<noteq> CHR ''='' then [ucast (triple AND 255)] else [])))
                   (decode_loop inp (i + 4)))
         | _ \<Rightarrow> None)
      else Some [])"
  by pat_completeness auto
termination
  by (relation "measure (\<lambda>(inp, i). length inp - i)") auto

declare decode_loop.simps [simp del]

text \<open>The result code and the bytes written.\<close>

definition auth_base64_decode :: "string option \<Rightarrow> (c_int \<times> bytes) option" where
  "auth_base64_decode input =
     (case input of
        None \<Rightarrow> Some (-1, [])
      | Some s \<Rightarrow>
          if length s mod 4 \<noteq> 0 then Some (-1, [])
          else map_option (\<lambda>b. (int (length b), b)) (decode_loop s 0))"

section \<open>Basic authentication\<close>

text \<open>
  User name and password, \<open>None\<close> for -1, or undefined behaviour: the decoded bytes and a NUL go into a
  buffer of 128 bytes, whatever the length of the header.
\<close>

definition auth_parse_basic_header :: "string option \<Rightarrow> (string \<times> string) option option" where
  "auth_parse_basic_header auth_header =
     (case auth_header of
        None \<Rightarrow> Some None
      | Some h \<Rightarrow>
          if \<not> starts_with ''Basic '' h then Some None
          else (case auth_base64_decode (Some (drop 6 h)) of
                  None \<Rightarrow> None
                | Some (r, decoded) \<Rightarrow>
                    if r < 0 then Some None
                    else if 128 \<le> length decoded then None
                    else (let text = takeWhile (\<lambda>c. c \<noteq> CHR 0x00) (map byte_char decoded) in
                          case strchr text CHR '':'' of
                            None \<Rightarrow> Some None
                          | Some i \<Rightarrow> Some (Some (take 63 (take i text), take 63 (drop (i + 1) text))))))"

definition auth_validate_basic :: "string option \<Rightarrow> auth_config option \<Rightarrow> auth_result option" where
  "auth_validate_basic auth_header config =
     (case config of
        None \<Rightarrow> Some AUTH_RESULT_ERROR
      | Some c \<Rightarrow>
          (case auth_header of
             None \<Rightarrow> Some AUTH_RESULT_REQUIRED
           | Some h \<Rightarrow>
               (case auth_parse_basic_header (Some h) of
                  None \<Rightarrow> None
                | Some None \<Rightarrow> Some AUTH_RESULT_INVALID
                | Some (Some (u, p)) \<Rightarrow>
                    if u = auth_username c \<and> p = auth_password c then Some AUTH_RESULT_SUCCESS
                    else Some AUTH_RESULT_INVALID)))"

definition auth_encode_basic_credentials :: "string option \<Rightarrow> string option \<Rightarrow> c_int \<times> string" where
  "auth_encode_basic_credentials username password =
     (case (username, password) of
        (Some u, Some p) \<Rightarrow> auth_base64_encode (Some (map char_byte (fit 128 (u @ '':'' @ p))))
      | _ \<Rightarrow> (-1, []))"

definition auth_generate_www_authenticate_header :: "string option \<Rightarrow> c_int \<times> string" where
  "auth_generate_www_authenticate_header realm =
     (case realm of
        None \<Rightarrow> (-1, [])
      | Some r \<Rightarrow> (0, fit 256 (''WWW-Authenticate: Basic realm='' @ [CHR 0x22] @ r @ [CHR 0x22])))"

section \<open>Requests\<close>

abbreviation CRLF :: string where
  "CRLF \<equiv> [CHR 0x0D, CHR 0x0A]"

definition extract_auth_header :: "string option \<Rightarrow> string option" where
  "extract_auth_header request =
     (case request of
        None \<Rightarrow> None
      | Some req \<Rightarrow>
          (case (case strstr req ''Authorization:'' of
                   Some i \<Rightarrow> Some i | None \<Rightarrow> strstr req ''authorization:'') of
             None \<Rightarrow> None
           | Some i \<Rightarrow>
               (let auth_line = dropWhile (\<lambda>c. c = CHR '' '') (drop (i + 14) req) in
                case (case strstr auth_line CRLF of
                        Some n \<Rightarrow> Some n | None \<Rightarrow> strstr auth_line [CHR 0x0A]) of
                  None \<Rightarrow> Some auth_line
                | Some len \<Rightarrow> Some (take (if 256 \<le> len then 255 else len) auth_line))))"

definition auth_check_http_request ::
  "string option \<Rightarrow> auth_config option \<Rightarrow> client_info option \<Rightarrow> auth_result option" where
  "auth_check_http_request request config client =
     (if config = None \<or> client = None then Some AUTH_RESULT_ERROR
      else if \<not> auth_is_required config client then Some AUTH_RESULT_SUCCESS
      else auth_validate_basic (extract_auth_header request) config)"

definition auth_check_rtsp_request ::
  "string option \<Rightarrow> auth_config option \<Rightarrow> client_info option \<Rightarrow> auth_result option" where
  "auth_check_rtsp_request request config client = auth_check_http_request request config client"

text \<open>The user name, or \<open>None\<close> for -1; the password is always empty.\<close>

definition parse_ws_security_token :: "string \<Rightarrow> string option" where
  "parse_ws_security_token request =
     (let plain = strstr request ''<Username>''; ns = strstr request ''<wsse:Username>'';
          start = (if ns \<noteq> None \<and> (plain = None \<or> the ns < the plain) then map_option ((+) 15) ns
                   else map_option ((+) 10) plain)
      in case start of
           None \<Rightarrow> None
         | Some i \<Rightarrow>
             (let rest = drop i request;
                  e = strstr rest ''</Username>''; ns_e = strstr rest ''</wsse:Username>'';
                  e' = (if ns_e \<noteq> None \<and> (e = None \<or> the ns_e < the e) then ns_e else e)
              in map_option (\<lambda>len. take (if 64 \<le> len then 63 else len) rest) e'))"

definition auth_check_onvif_request ::
  "string \<Rightarrow> auth_config option \<Rightarrow> client_info option \<Rightarrow> auth_result option" where
  "auth_check_onvif_request request config client =
     (case (config, client) of
        (Some c, Some i) \<Rightarrow>
          if \<not> auth_is_required config client then Some AUTH_RESULT_SUCCESS
          else if (strstr request ''<Security'' \<noteq> None \<or> strstr request ''<wsse:Security'' \<noteq> None) \<and>
                  (strstr request ''<UsernameToken'' \<noteq> None \<or> strstr request ''<wsse:UsernameToken'' \<noteq> None)
          then (case parse_ws_security_token request of
                  Some u \<Rightarrow> if u = auth_username c then Some AUTH_RESULT_SUCCESS
                            else Some AUTH_RESULT_INVALID
                | None \<Rightarrow> auth_check_http_request (Some request) config client)
          else auth_check_http_request (Some request) config client
      | _ \<Rightarrow> Some AUTH_RESULT_ERROR)"

section \<open>Base64 text\<close>

text \<open>What Base64 prescribes, by groups of three bytes.\<close>

definition triple_of :: "u8 \<Rightarrow> u8 \<Rightarrow> u8 \<Rightarrow> u32" where
  "triple_of a b c = push_bit 16 (ucast a) + push_bit 8 (ucast b) + ucast c"

fun base64_text :: "bytes \<Rightarrow> string" where
  "base64_text [] = []"
| "base64_text [a] =
     [base64_char (drop_bit 18 (triple_of a 0 0)), base64_char (drop_bit 12 (triple_of a 0 0)),
      CHR ''='', CHR ''='']"
| "base64_text [a, b] =
     [base64_char (drop_bit 18 (triple_of a b 0)), base64_char (drop_bit 12 (triple_of a b 0)),
      base64_char (drop_bit 6 (triple_of a b 0)), CHR ''='']"
| "base64_text (a # b # c # bs) =
     [base64_char (drop_bit 18 (triple_of a b c)), base64_char (drop_bit 12 (triple_of a b c)),
      base64_char (drop_bit 6 (triple_of a b c)), base64_char (triple_of a b c)] @ base64_text bs"

lemma encode_loop_text: "encode_loop (pre @ bs) (length pre) = base64_text bs"
proof (induction bs arbitrary: pre rule: base64_text.induct)
  case (4 a b c bs)
  from 4 [of "pre @ [a, b, c]"] show ?case
    by (simp add: encode_loop.simps [of _ "length pre"] nth_append triple_of_def Let_def numeral_3_eq_3)
qed (simp_all add: encode_loop.simps [of _ "length _"] encode_loop.simps [of _ "length _ + 3"]
  nth_append triple_of_def Let_def)

lemma base64_text_length: "length (base64_text bs) = 4 * ((length bs + 2) div 3)"
proof (induction bs rule: base64_text.induct)
  case (4 a b c bs)
  have "(5 + length bs) div 3 = Suc ((2 + length bs) div 3)" by simp
  with 4 show ?case by simp
qed simp_all

lemma base64_encode_text:
  "auth_base64_encode (Some bs) = (int (4 * ((length bs + 2) div 3)), base64_text bs)"
  using encode_loop_text [of "[]" bs]
  by (simp add: auth_base64_encode_def base64_text_length)

lemma length_base64_chars: "length base64_chars = 64"
  by (simp add: base64_chars_def)

lemma distinct_base64_chars: "distinct base64_chars"
  by (simp add: base64_chars_def)

lemma strchr_nth: "distinct s \<Longrightarrow> n < length s \<Longrightarrow> strchr s (s ! n) = Some n"
proof -
  assume d: "distinct s" and n: "n < length s"
  then have "s = take n s @ s ! n # drop (Suc n) s" by (simp add: id_take_nth_drop)
  moreover from d n have "s ! n \<notin> set (take n s)"
    by (auto simp: in_set_conv_nth distinct_conv_nth)
  ultimately have "strchr s (s ! n) = Some (length (take n s))" by (metis strchr_append)
  with n show ?thesis by simp
qed

lemma sextet_less: "unat (w AND 63 :: u32) < 64"
  using and_mask_less' [of 6 w] by (simp add: mask_eq_exp_minus_1 word_less_nat_alt)

lemma base64_char_no_pad: "base64_char w \<noteq> CHR ''=''"
proof -
  have "base64_char w \<in> set base64_chars"
    using sextet_less [of w] by (simp add: base64_char_def length_base64_chars)
  moreover have "CHR ''='' \<notin> set base64_chars" by (simp add: base64_chars_def)
  ultimately show ?thesis by auto
qed

lemma sextet_base64_char [simp]: "sextet (base64_char w) = Some (w AND 63)"
  using base64_char_no_pad [of w] strchr_nth [OF distinct_base64_chars, of "unat (w AND 63)"] sextet_less [of w]
  by (simp add: sextet_def base64_char_def length_base64_chars)

lemma sextet_pad [simp]: "sextet (CHR ''='') = Some 0"
  by (simp add: sextet_def)

text \<open>Taking a triple apart into four sextets and putting it together again.\<close>

lemma and63: "w AND 63 = take_bit 6 (w :: u32)"
  by (simp add: take_bit_eq_mask mask_eq_exp_minus_1)

lemma and255: "w AND 255 = take_bit 8 (w :: u32)"
  by (simp add: take_bit_eq_mask mask_eq_exp_minus_1)

lemma triple_or: "triple_of a b c = push_bit 16 (ucast a) OR push_bit 8 (ucast b) OR ucast c"
proof -
  have "push_bit 16 (ucast a :: u32) AND push_bit 8 (ucast b) = 0"
    by (rule bit_word_eqI) (auto simp: bit_simps dest!: byte_bit_less)
  moreover have "(push_bit 16 (ucast a :: u32) OR push_bit 8 (ucast b)) AND ucast c = 0"
    by (rule bit_word_eqI) (auto simp: bit_simps dest!: byte_bit_less)
  ultimately show ?thesis by (simp add: triple_of_def disjunctive_add_eq_or or.assoc)
qed

definition join4 :: "u32 \<Rightarrow> u32 \<Rightarrow> u32 \<Rightarrow> u32 \<Rightarrow> u32" where
  "join4 a b c d = push_bit 18 a + push_bit 12 b + push_bit 6 c + d"

lemma join4_or:
  "join4 (take_bit 6 a) (take_bit 6 b) (take_bit 6 c) (take_bit 6 d) =
     push_bit 18 (take_bit 6 a) OR push_bit 12 (take_bit 6 b) OR push_bit 6 (take_bit 6 c) OR take_bit 6 d"
proof -
  have "push_bit 18 (take_bit 6 a) AND push_bit 12 (take_bit 6 b) = 0"
    by (rule bit_word_eqI) (auto simp: bit_simps)
  moreover have "(push_bit 18 (take_bit 6 a) OR push_bit 12 (take_bit 6 b)) AND push_bit 6 (take_bit 6 c) = 0"
    by (rule bit_word_eqI) (auto simp: bit_simps)
  moreover have "(push_bit 18 (take_bit 6 a) OR push_bit 12 (take_bit 6 b) OR push_bit 6 (take_bit 6 c)) AND
      take_bit 6 d = 0"
    by (rule bit_word_eqI) (auto simp: bit_simps)
  ultimately show ?thesis by (simp add: join4_def disjunctive_add_eq_or or.assoc)
qed

lemma triple_high: "24 \<le> n \<Longrightarrow> \<not> bit (triple_of a b c) n"
  by (auto simp: triple_or bit_simps dest!: byte_bit_less)

lemma join4_triple:
  "join4 (take_bit 6 (drop_bit 18 (triple_of a b c))) (take_bit 6 (drop_bit 12 (triple_of a b c)))
     (take_bit 6 (drop_bit 6 (triple_of a b c))) (take_bit 6 (triple_of a b c)) = triple_of a b c"
  unfolding join4_or
proof (rule bit_word_eqI, goal_cases)
  case (1 n)
  then show ?case
    using triple_high [of n a b c]
    by (cases "n < 6"; cases "n < 12"; cases "n < 18"; cases "n < 24") (auto simp: bit_simps)
qed

lemma triple_bytes:
  "ucast (take_bit 8 (drop_bit 16 (triple_of a b c))) = a"
  "ucast (take_bit 8 (drop_bit 8 (triple_of a b c))) = b"
  "ucast (take_bit 8 (triple_of a b c)) = c"
  unfolding triple_or
  by (rule bit_word_eqI; auto simp: bit_simps dest: byte_bit_less)+

lemma decode_loop_step:
  "decode_loop (pre @ [a, b, c, d] @ rest) (length pre) =
     (case (sextet a, sextet b, sextet c, sextet d) of
        (Some a', Some b', Some c', Some d') \<Rightarrow>
          map_option
            ((@) (ucast (take_bit 8 (drop_bit 16 (join4 a' b' c' d'))) #
                  (if c \<noteq> CHR ''='' then [ucast (take_bit 8 (drop_bit 8 (join4 a' b' c' d')))] else []) @
                  (if d \<noteq> CHR ''='' then [ucast (take_bit 8 (join4 a' b' c' d'))] else [])))
            (decode_loop (pre @ [a, b, c, d] @ rest) (length pre + 4))
      | _ \<Rightarrow> None)"
  by (subst decode_loop.simps; cases "sextet a"; cases "sextet b"; cases "sextet c"; cases "sextet d")
    (simp_all add: nth_append join4_def and255 Let_def)

lemma decode_loop_end: "length s \<le> i \<Longrightarrow> decode_loop s i = Some []"
  by (subst decode_loop.simps) simp

lemma triple_low: "take_bit 6 (triple_of a b 0) = 0" "take_bit 6 (drop_bit 6 (triple_of a 0 0)) = 0"
  unfolding triple_or by (rule bit_word_eqI; simp add: bit_simps)+

lemma decode_loop_text: "decode_loop (pre @ base64_text bs) (length pre) = Some bs"
proof (induction bs arbitrary: pre rule: base64_text.induct)
  case 1
  then show ?case by (simp add: decode_loop_end)
next
  case (2 a)
  have "decode_loop (pre @ base64_text [a] @ []) (length pre) = Some [a]"
    using join4_triple [of a 0 0]
    by (simp only: base64_text.simps decode_loop_step)
      (simp add: and63 triple_low triple_bytes base64_char_no_pad decode_loop_end)
  then show ?case by simp
next
  case (3 a b)
  have "decode_loop (pre @ base64_text [a, b] @ []) (length pre) = Some [a, b]"
    using join4_triple [of a b 0]
    by (simp only: base64_text.simps decode_loop_step)
      (simp add: and63 triple_low triple_bytes base64_char_no_pad decode_loop_end)
  then show ?case by simp
next
  case (4 a b c bs)
  let ?q = "[base64_char (drop_bit 18 (triple_of a b c)), base64_char (drop_bit 12 (triple_of a b c)),
    base64_char (drop_bit 6 (triple_of a b c)), base64_char (triple_of a b c)]"
  have "decode_loop (pre @ ?q @ base64_text bs) (length pre + 4) = Some bs"
    using 4 [of "pre @ ?q"] by (simp add: eval_nat_numeral)
  then show ?case
    using join4_triple [of a b c]
    by (simp only: base64_text.simps decode_loop_step)
      (simp add: and63 triple_bytes base64_char_no_pad)
qed

lemma base64_decode_text: "auth_base64_decode (Some (base64_text bs)) = Some (int (length bs), bs)"
  using decode_loop_text [of "[]" bs]
  by (simp add: auth_base64_decode_def base64_text_length)

section \<open>Credentials in a request\<close>

lemma strstr_skip:
  "c \<notin> set x \<Longrightarrow> strstr (x @ s) (c # p) = map_option ((+) (length x)) (strstr s (c # p))"
proof (induction x)
  case (Cons a x)
  then show ?case by (cases "strstr s (c # p)") (auto simp: starts_with_def)
next
  case Nil
  show ?case by (cases "strstr s (c # p)") auto
qed

lemma strstr_here: "starts_with (c # p) s \<Longrightarrow> strstr s (c # p) = Some 0"
  by (cases s) (auto simp: starts_with_def)

lemma base64_char_in: "base64_char w \<in> set base64_chars"
  using sextet_less [of w] by (simp add: base64_char_def length_base64_chars)

lemma base64_text_alphabet: "set (base64_text bs) \<subseteq> insert (CHR ''='') (set base64_chars)"
  by (induction bs rule: base64_text.induct) (auto simp: base64_char_in)

lemma base64_text_no_CR: "CHR 0x0D \<notin> set (base64_text bs)"
proof -
  have "CHR 0x0D \<notin> insert (CHR ''='') (set base64_chars)" by (simp add: base64_chars_def)
  with base64_text_alphabet [of bs] show ?thesis by blast
qed

lemma parse_basic_text:
  "auth_parse_basic_header (Some (''Basic '' @ base64_text bs)) =
     (if 128 \<le> length bs then None
      else (let text = takeWhile (\<lambda>c. c \<noteq> CHR 0x00) (map byte_char bs) in
            case strchr text CHR '':'' of
              None \<Rightarrow> Some None
            | Some i \<Rightarrow> Some (Some (take 63 (take i text), take 63 (drop (i + 1) text)))))"
  by (simp add: auth_parse_basic_header_def starts_with_def base64_decode_text)

lemma parse_credentials:
  assumes "CHR '':'' \<notin> set u" and "CHR 0x00 \<notin> set (u @ p)" and "length u \<le> 63" and "length p \<le> 63"
  shows "auth_parse_basic_header (Some (''Basic '' @ base64_text (map char_byte (u @ '':'' @ p)))) =
    Some (Some (u, p))"
proof -
  have plain: "takeWhile (\<lambda>c. c \<noteq> CHR 0x00) (map byte_char (map char_byte (u @ '':'' @ p))) = u @ '':'' @ p"
    unfolding map_byte_char_byte takeWhile_eq_all_conv using assms(2) by auto
  have "strchr (u @ '':'' @ p) CHR '':'' = Some (length u)"
    using strchr_append [OF assms(1)] by simp
  moreover have "length (map char_byte (u @ '':'' @ p)) < 128" using assms(3,4) by simp
  ultimately show ?thesis
    using assms(3,4) by (simp only: parse_basic_text plain Let_def not_le [symmetric] if_False) simp
qed

lemma encode_credentials:
  assumes "length u \<le> 63" and "length p \<le> 63"
  shows "snd (auth_encode_basic_credentials (Some u) (Some p)) = base64_text (map char_byte (u @ '':'' @ p))"
  using assms by (simp add: auth_encode_basic_credentials_def base64_encode_text fit_id)

lemma extract_basic:
  assumes "strstr (pre @ ''Authorization: '' @ ''Basic '' @ e @ CRLF @ post) ''Authorization:'' = Some (length pre)"
    and "CHR 0x0D \<notin> set e" and "length e < 250"
  shows "extract_auth_header (Some (pre @ ''Authorization: '' @ ''Basic '' @ e @ CRLF @ post)) =
    Some (''Basic '' @ e)"
proof -
  have "strstr ((''Basic '' @ e) @ CRLF @ post) CRLF = Some (length (''Basic '' @ e))"
    using assms(2) by (subst strstr_skip) (simp_all add: starts_with_def)
  with assms show ?thesis
    by (simp add: extract_auth_header_def Let_def)
qed

lemma check_credentials:
  assumes "auth_is_required (Some c) (Some i)"
    and "CHR '':'' \<notin> set u" and "CHR 0x00 \<notin> set (u @ p)" and "length u \<le> 63" and "length p \<le> 63"
    and "req = pre @ ''Authorization: '' @ ''Basic '' @
                snd (auth_encode_basic_credentials (Some u) (Some p)) @ CRLF @ post"
    and "strstr req ''Authorization:'' = Some (length pre)"
  shows "auth_check_http_request (Some req) (Some c) (Some i) =
    Some (if u = auth_username c \<and> p = auth_password c then AUTH_RESULT_SUCCESS else AUTH_RESULT_INVALID)"
proof -
  let ?e = "base64_text (map char_byte (u @ '':'' @ p))"
  have "length ?e \<le> 172"
    using assms(4,5) by (simp add: base64_text_length)
  then have "extract_auth_header (Some req) = Some (''Basic '' @ ?e)"
    using extract_basic [of pre ?e post] assms(6,7) base64_text_no_CR encode_credentials [OF assms(4,5)]
    by simp
  moreover have "auth_validate_basic (Some (''Basic '' @ ?e)) (Some c) =
      Some (if u = auth_username c \<and> p = auth_password c then AUTH_RESULT_SUCCESS else AUTH_RESULT_INVALID)"
    by (simp only: auth_validate_basic_def option.case parse_credentials [OF assms(2-5)]) simp
  ultimately show ?thesis
    using assms(1) by (simp add: auth_check_http_request_def)
qed

section \<open>Properties\<close>

text \<open>
  Base64: decoding what was encoded gives the bytes back, with their number, for every input;
  the text is as long as four characters for every three bytes begun.
\<close>

theorem base64_roundtrip:
  "auth_base64_decode (Some (snd (auth_base64_encode (Some bs)))) = Some (int (length bs), bs) \<and>
   fst (auth_base64_encode (Some bs)) = int (4 * ((length bs + 2) div 3))"
  by (simp add: base64_encode_text base64_decode_text)

text \<open>
  C28. A request whose first \<open>Authorization\<close> header carries encoded credentials is accepted exactly
  if they are the configured ones, and refused as invalid otherwise, over HTTP and RTSP alike.
\<close>

theorem basic_auth_decides:
  assumes "auth_is_required (Some c) (Some i)"
    and "CHR '':'' \<notin> set u" and "CHR 0x00 \<notin> set (u @ p)" and "length u \<le> 63" and "length p \<le> 63"
    and "req = pre @ ''Authorization: '' @ ''Basic '' @
                snd (auth_encode_basic_credentials (Some u) (Some p)) @ CRLF @ post"
    and "strstr req ''Authorization:'' = Some (length pre)"
  shows "auth_check_rtsp_request (Some req) (Some c) (Some i) =
    Some (if u = auth_username c \<and> p = auth_password c then AUTH_RESULT_SUCCESS else AUTH_RESULT_INVALID)"
  unfolding auth_check_rtsp_request_def by (rule check_credentials [OF assms])

definition sample_auth :: auth_config where
  "sample_auth = \<lparr>auth_enabled = True, localhost_bypass = True,
     auth_username = ''admin'', auth_password = ''s3:cret''\<rparr>"

definition sample_client :: client_info where
  "sample_client = the (auth_get_client_info (\<lambda>fd. Some 0xC0A80105) 9)"

lemma sample_auth_required: "auth_is_required (Some sample_auth) (Some sample_client)"
  by (simp add: auth_is_required_def sample_auth_def sample_client_def auth_get_client_info_def
      auth_is_localhost_def)

theorem basic_auth_decides_witness:
  "auth_check_rtsp_request (Some (''OPTIONS * '' @ ''Authorization: '' @ ''Basic '' @
      snd (auth_encode_basic_credentials (Some ''admin'') (Some ''s3:cret'')) @ CRLF @ []))
     (Some sample_auth) (Some sample_client) = Some AUTH_RESULT_SUCCESS"
  using basic_auth_decides [OF sample_auth_required _ _ _ _ refl, of "''admin''" "''s3:cret''" "''OPTIONS * ''" "[]"]
  by (simp add: sample_auth_def starts_with_def)

text \<open>
  Where authentication is required, a request is accepted only if its \<open>Authorization\<close> value is
  \<open>Basic\<close> and Base64 text whose bytes up to the first NUL are exactly the configured user name, a
  colon and the configured password (both shorter than their fields).
\<close>

theorem basic_auth_sound:
  assumes "auth_is_required (Some c) (Some i)" and "length (auth_username c) < 63" and "length (auth_password c) < 63"
    and "auth_check_http_request (Some req) (Some c) (Some i) = Some AUTH_RESULT_SUCCESS"
  shows "\<exists>h bs. extract_auth_header (Some req) = Some (''Basic '' @ h) \<and>
    auth_base64_decode (Some h) = Some (int (length bs), bs) \<and>
    takeWhile (\<lambda>c. c \<noteq> CHR 0x00) (map byte_char bs) = auth_username c @ '':'' @ auth_password c"
proof -
  from assms(1,4) obtain hd where hd: "extract_auth_header (Some req) = Some hd"
    and "auth_parse_basic_header (Some hd) = Some (Some (auth_username c, auth_password c))"
    by (auto simp: auth_check_http_request_def auth_validate_basic_def split: option.splits if_splits)
  then obtain r bs n where bs: "auth_base64_decode (Some (drop 6 hd)) = Some (r, bs)" "0 \<le> r"
    and pre: "starts_with ''Basic '' hd"
    and n: "strchr (takeWhile (\<lambda>c. c \<noteq> CHR 0x00) (map byte_char bs)) CHR '':'' = Some n"
      "take 63 (take n (takeWhile (\<lambda>c. c \<noteq> CHR 0x00) (map byte_char bs))) = auth_username c"
      "take 63 (drop (n + 1) (takeWhile (\<lambda>c. c \<noteq> CHR 0x00) (map byte_char bs))) = auth_password c"
    by (auto simp: auth_parse_basic_header_def Let_def not_less split: option.splits if_splits prod.splits)
  let ?t = "takeWhile (\<lambda>c. c \<noteq> CHR 0x00) (map byte_char bs)"
  have whole: "take 63 x = y \<Longrightarrow> length y < 63 \<Longrightarrow> x = y" for x y :: string
    by (cases "length x < 63") auto
  have "take n ?t = auth_username c" "drop (n + 1) ?t = auth_password c"
    using whole [OF n(2) assms(2)] whole [OF n(3) assms(3)] by simp_all
  with strchr_bound [OF n(1)] id_take_nth_drop [of n ?t]
  have "?t = auth_username c @ '':'' @ auth_password c" by simp
  moreover have "take 6 hd = ''Basic ''" using pre by (simp add: starts_with_def numeral_eq_Suc)
  then have "hd = ''Basic '' @ drop 6 hd" by (metis append_take_drop_id)
  moreover have "r = int (length bs)"
    using bs by (auto simp: auth_base64_decode_def split: if_splits option.splits)
  ultimately show ?thesis using hd bs(1) by metis
qed

theorem basic_auth_sound_witness:
  "\<exists>h bs. extract_auth_header (Some (''OPTIONS * '' @ ''Authorization: '' @ ''Basic '' @
      snd (auth_encode_basic_credentials (Some ''admin'') (Some ''s3:cret'')) @ CRLF @ [])) = Some (''Basic '' @ h) \<and>
    auth_base64_decode (Some h) = Some (int (length bs), bs) \<and>
    takeWhile (\<lambda>c. c \<noteq> CHR 0x00) (map byte_char bs) = ''admin:s3:cret''"
proof -
  have "auth_check_http_request (Some (''OPTIONS * '' @ ''Authorization: '' @ ''Basic '' @
      snd (auth_encode_basic_credentials (Some ''admin'') (Some ''s3:cret'')) @ CRLF @ []))
      (Some sample_auth) (Some sample_client) = Some AUTH_RESULT_SUCCESS"
    using check_credentials [OF sample_auth_required _ _ _ _ refl, of "''admin''" "''s3:cret''" "''OPTIONS * ''" "[]"]
    by (simp add: sample_auth_def starts_with_def)
  from basic_auth_sound [OF sample_auth_required _ _ this] show ?thesis
    by (simp add: sample_auth_def)
qed

text \<open>
  Parsing credentials overruns the buffer for the decoded bytes exactly if there are 128 or
  more of them.
\<close>

theorem basic_header_overrun:
  "(auth_parse_basic_header (Some (''Basic '' @ snd (auth_base64_encode (Some bs)))) = None) =
     (128 \<le> length bs)"
  by (simp only: base64_encode_text parse_basic_text snd_conv) (auto simp: Let_def split: option.split)

text \<open>
  ONVIF: a WS-Security token with the configured user name is accepted whatever follows the
  user name, so with any password or digest or none; with another user name it is refused.
\<close>

theorem onvif_password_ignored:
  assumes "auth_is_required (Some c) (Some i)"
    and "CHR ''<'' \<notin> set pre" and "CHR ''<'' \<notin> set u" and "length u \<le> 63"
  shows "auth_check_onvif_request (pre @ ''<Security><UsernameToken><Username>'' @ u @ ''</Username>'' @ rest)
      (Some c) (Some i) =
    Some (if u = auth_username c then AUTH_RESULT_SUCCESS else AUTH_RESULT_INVALID)"
proof -
  define tail where "tail = u @ ''</Username>'' @ rest"
  define req where "req = pre @ ''<Security><UsernameToken><Username>'' @ tail"
  have sec: "strstr req ''<Security'' \<noteq> None" "strstr req ''<UsernameToken'' \<noteq> None"
    by (simp_all add: req_def strstr_skip assms(2) starts_with_def)
  have start: "strstr req ''<Username>'' = Some (length pre + 25)"
    by (simp add: req_def strstr_skip assms(2) starts_with_def)
  have ns: "strstr req ''<wsse:Username>'' =
      map_option (\<lambda>k. length pre + 35 + k) (strstr tail ''<wsse:Username>'')"
    by (simp add: req_def strstr_skip assms(2) starts_with_def option.map_comp o_def numeral_eq_Suc)
  have stop: "strstr tail ''</Username>'' = Some (length u)"
    by (simp add: tail_def strstr_skip assms(3) starts_with_def)
  have ns_stop: "strstr tail ''</wsse:Username>'' =
      map_option (\<lambda>k. length u + 11 + k) (strstr rest ''</wsse:Username>'')"
    by (simp add: tail_def strstr_skip assms(3) starts_with_def option.map_comp o_def numeral_eq_Suc)
  have "drop (35 + length pre) req = tail" "take (length u) tail = u"
    by (simp_all add: req_def tail_def)
  then have "parse_ws_security_token req = Some u"
    using assms(4) unfolding parse_ws_security_token_def start ns Let_def
    by (cases "strstr tail ''<wsse:Username>''"; cases "strstr rest ''</wsse:Username>''")
      (simp_all add: stop ns_stop)
  with assms(1) sec have "auth_check_onvif_request req (Some c) (Some i) =
      Some (if u = auth_username c then AUTH_RESULT_SUCCESS else AUTH_RESULT_INVALID)"
    by (simp add: auth_check_onvif_request_def)
  then show ?thesis by (simp only: req_def tail_def)
qed

theorem onvif_password_ignored_witness:
  "auth_check_onvif_request (''POST'' @ ''<Security><UsernameToken><Username>'' @ ''admin'' @ ''</Username>'' @
      ''<Password>guess</Password></UsernameToken></Security>'') (Some sample_auth) (Some sample_client) =
    Some AUTH_RESULT_SUCCESS"
  using onvif_password_ignored [OF sample_auth_required, of "''POST''" "''admin''"
      "''<Password>guess</Password></UsernameToken></Security>''"]
  by (simp add: sample_auth_def)

end
