(* ===== verification/HttpResponses.thy ===== *)
theory HttpResponses
  imports HttpRouter AuthUtils FrameManager
begin

text \<open>
  What the HTTP module sends (\<open>http_module.c\<close>): responses with their headers, binary data, the API
  overview, the JSON endpoints, snapshots and MJPEG streams. A client socket is what its \<open>send\<close> calls
  answer, what has been sent and what lies on the stack behind the header buffer of the function that sends;
  encoder, clock and file system come as parameters.
\<close>

section \<open>The client socket\<close>

text \<open>
  The answers of the coming \<open>send\<close> calls: at most so many bytes are taken, the call would block, or it
  fails. After the script every call takes all it is given. \<open>out_stack\<close> is the memory behind the buffer of 512
  bytes a header is composed in, as far as it can be read.
\<close>

datatype send_result = SendTakes nat | SendAgain | SendFails

record http_out =
  out_script :: "send_result list"
  out_text :: string
  out_stack :: string

text \<open>\<open>send\<close>: the bytes taken, or \<open>None\<close> for -1, in both cases that give it.\<close>

definition http_send :: "string \<Rightarrow> http_out \<Rightarrow> nat option \<times> http_out" where
  "http_send s o1 =
     (case out_script o1 of
        [] \<Rightarrow> (Some (length s), o1\<lparr>out_text := out_text o1 @ s\<rparr>)
      | SendTakes n # r \<Rightarrow>
          (Some (min n (length s)), o1\<lparr>out_script := r, out_text := out_text o1 @ take n s\<rparr>)
      | _ # r \<Rightarrow> (None, o1\<lparr>out_script := r\<rparr>))"

section \<open>Responses\<close>

definition http_get_status_text :: "c_int \<Rightarrow> string" where
  "http_get_status_text n =
     (if n = 200 then ''OK'' else if n = 201 then ''Created'' else if n = 204 then ''No Content''
      else if n = 400 then ''Bad Request'' else if n = 401 then ''Unauthorized''
      else if n = 403 then ''Forbidden'' else if n = 404 then ''Not Found''
      else if n = 405 then ''Method Not Allowed'' else if n = 500 then ''Internal Server Error''
      else if n = 501 then ''Not Implemented'' else if n = 503 then ''Service Unavailable''
      else ''Unknown'')"

text \<open>
  The header as \<open>snprintf\<close> composes it, and what the code sends of it: as many bytes as \<open>snprintf\<close> returns, which
  is the length before truncation, from a buffer of 512. A header that does not fit is sent truncated, with the
  NUL and the memory behind the buffer; \<open>http_headers_fit\<close> has the content types for which it fits.
\<close>

definition sent_buffer :: "nat \<Rightarrow> string \<Rightarrow> string \<Rightarrow> string" where
  "sent_buffer n s behind =
     (if length s < n then s else fit n s @ CHR 0x00 # take (length s - n) behind)"

definition response_header :: "c_int \<Rightarrow> string option \<Rightarrow> nat \<Rightarrow> string" where
  "response_header status content_type body_len =
     ''HTTP/1.1 '' @ decimal_int status @ '' '' @ http_get_status_text status @ CRLF @
     ''Content-Type: '' @ (case content_type of Some t \<Rightarrow> t | None \<Rightarrow> ''text/plain'') @ CRLF @
     ''Content-Length: '' @ decimal body_len @ CRLF @
     ''Connection: close'' @ CRLF @ ''Cache-Control: no-cache'' @ CRLF @ CRLF"

definition http_send_response ::
  "c_int \<Rightarrow> string option \<Rightarrow> string option \<Rightarrow> http_out \<Rightarrow> http_out" where
  "http_send_response status content_type body o1 =
     (let b = (case body of Some s \<Rightarrow> s | None \<Rightarrow> [])
      in case http_send (sent_buffer 512 (response_header status content_type (length b)) (out_stack o1)) o1 of
           (None, o2) \<Rightarrow> o2
         | (Some n, o2) \<Rightarrow> if b \<noteq> [] then snd (http_send b o2) else o2)"

definition http_send_error :: "c_int \<Rightarrow> string option \<Rightarrow> http_out \<Rightarrow> http_out" where
  "http_send_error status message o1 =
     http_send_response status (Some ''text/plain'')
       (Some (fit 512 (case message of Some m \<Rightarrow> m | None \<Rightarrow> http_get_status_text status))) o1"

definition http_send_json :: "string \<Rightarrow> http_out \<Rightarrow> http_out" where
  "http_send_json json_body o1 = http_send_response 200 (Some ''application/json'') (Some json_body) o1"

text \<open>
  The loop of \<open>http_send_binary\<close>: a call that would block is repeated at once, one that takes nothing ends
  the loop, one that fails ends the function, which is \<open>False\<close>.
\<close>

fun send_loop :: "send_result list \<Rightarrow> string \<Rightarrow> string \<Rightarrow> bool \<times> send_result list \<times> string" where
  "send_loop [] todo sent = (True, [], sent @ todo)"
| "send_loop (r # rs) todo sent =
     (if todo = [] then (True, r # rs, sent)
      else case r of
        SendFails \<Rightarrow> (False, rs, sent)
      | SendAgain \<Rightarrow> send_loop rs todo sent
      | SendTakes n \<Rightarrow> if n = 0 then (True, rs, sent) else send_loop rs (drop n todo) (sent @ take n todo))"

definition send_all :: "string \<Rightarrow> http_out \<Rightarrow> bool \<times> http_out" where
  "send_all s o1 =
     (case send_loop (out_script o1) s [] of
        (ok, rs, sent) \<Rightarrow> (ok, o1\<lparr>out_script := rs, out_text := out_text o1 @ sent\<rparr>))"

definition binary_header :: "string option \<Rightarrow> nat \<Rightarrow> string" where
  "binary_header content_type data_size =
     ''HTTP/1.1 '' @ decimal_int 200 @ '' '' @ http_get_status_text 200 @ CRLF @
     ''Content-Type: '' @ (case content_type of Some t \<Rightarrow> t | None \<Rightarrow> ''application/octet-stream'') @ CRLF @
     ''Content-Length: '' @ decimal data_size @ CRLF @
     ''Connection: close'' @ CRLF @
     ''Cache-Control: no-cache, no-store, must-revalidate'' @ CRLF @
     ''Pragma: no-cache'' @ CRLF @ ''Expires: 0'' @ CRLF @ ''Accept-Ranges: bytes'' @ CRLF @
     ''Access-Control-Allow-Origin: *'' @ CRLF @ ''X-Content-Type-Options: nosniff'' @ CRLF @
     ''Transfer-Encoding: identity'' @ CRLF @ CRLF"

definition http_send_binary :: "string option \<Rightarrow> bytes \<Rightarrow> http_out \<Rightarrow> http_out" where
  "http_send_binary content_type data o1 =
     (case send_all (sent_buffer 512 (binary_header content_type (length data)) (out_stack o1)) o1 of
        (False, o2) \<Rightarrow> o2
      | (True, o2) \<Rightarrow> if data \<noteq> [] then snd (send_all (map byte_char data) o2) else o2)"

definition mjpeg_boundary :: string where
  "mjpeg_boundary = ''--thingino_streamer_mjpeg_boundary''"

definition mjpeg_stream_header :: string where
  "mjpeg_stream_header =
     ''HTTP/1.1 '' @ decimal_int 200 @ '' '' @ http_get_status_text 200 @ CRLF @
     ''Content-Type: multipart/x-mixed-replace; boundary='' @ mjpeg_boundary @ CRLF @
     ''Cache-Control: no-cache, no-store, must-revalidate'' @ CRLF @
     ''Pragma: no-cache'' @ CRLF @ ''Expires: 0'' @ CRLF @ ''Connection: close'' @ CRLF @
     ''Access-Control-Allow-Origin: *'' @ CRLF @ CRLF"

definition http_send_mjpeg_stream_header :: "http_out \<Rightarrow> c_int \<times> http_out" where
  "http_send_mjpeg_stream_header o1 =
     (case http_send mjpeg_stream_header o1 of (r, o2) \<Rightarrow> (if r = None then -1 else 0, o2))"

definition mjpeg_frame_header :: "nat \<Rightarrow> string" where
  "mjpeg_frame_header jpeg_size =
     mjpeg_boundary @ CRLF @ ''Content-Type: image/jpeg'' @ CRLF @
     ''Content-Length: '' @ decimal jpeg_size @ CRLF @ CRLF"

definition http_send_mjpeg_frame_header :: "nat \<Rightarrow> http_out \<Rightarrow> c_int \<times> http_out" where
  "http_send_mjpeg_frame_header jpeg_size o1 =
     (case http_send (mjpeg_frame_header jpeg_size) o1 of (r, o2) \<Rightarrow> (if r = None then -1 else 0, o2))"

section \<open>The API overview\<close>

text \<open>
  \<open>safe_append_html\<close>: the text in the buffer, which \<open>current_len\<close> is the length of. The text to append is
  the format: \<open>None\<close> is a format with a \<open>%\<close>, which makes \<open>vsnprintf\<close> look for arguments that are not there.
\<close>

definition safe_append_html :: "nat \<Rightarrow> string \<Rightarrow> string \<Rightarrow> string option" where
  "safe_append_html buffer_size buffer format =
     (if buffer_size - 1 \<le> length buffer then Some buffer
      else if CHR ''%'' \<in> set format then None
      else Some (buffer @ fit (buffer_size - length buffer) format))"

definition route_html :: "http_route \<Rightarrow> string" where
  "route_html r =
     fit 256
       (if route_method r = HTTP_METHOD_GET
        then ''<li><a href='' @ [CHR 0x22] @ path r @ [CHR 0x22] @ ''>'' @ http_method_to_string (route_method r) @
             '' '' @ path r @ ''</a> - '' @ (case description r of Some d \<Rightarrow> d | None \<Rightarrow> ''No description'') @
             '' ('' @ route_module r @ '')</li>''
        else ''<li>'' @ http_method_to_string (route_method r) @ '' '' @ path r @ '' - '' @
             (case description r of Some d \<Rightarrow> d | None \<Rightarrow> ''No description'') @
             '' ('' @ route_module r @ '')</li>'')"

fun append_routes :: "http_route list \<Rightarrow> string \<Rightarrow> string option" where
  "append_routes [] buffer = Some buffer"
| "append_routes (r # rs) buffer =
     (case safe_append_html 8192 buffer (route_html r) of
        None \<Rightarrow> None
      | Some b \<Rightarrow> if length b = length buffer then Some b else append_routes rs b)"

definition overview_head :: string where
  "overview_head =
     ''<!DOCTYPE html><html><head><title>Thingino Streamer API</title></head><body>'' @
     ''<h1>Thingino Streamer HTTP API</h1><h2>Available Endpoints</h2><ul>''"

definition overview_html :: "http_router \<Rightarrow> string option" where
  "overview_html rt =
     (case safe_append_html 8192 [] overview_head of
        None \<Rightarrow> None
      | Some b0 \<Rightarrow>
          (case append_routes (routes rt) b0 of
             None \<Rightarrow> None
           | Some b1 \<Rightarrow> safe_append_html 8192 b1 ''</ul></body></html>''))"

definition handle_api_overview_request :: "http_router \<Rightarrow> http_out \<Rightarrow> http_out option" where
  "handle_api_overview_request rt o1 =
     map_option (\<lambda>html. http_send_response 200 (Some ''text/html'') (Some html) o1) (overview_html rt)"

section \<open>The JSON endpoints\<close>

text \<open>
  The part of the configuration the endpoint shows. \<open>json_streams\<close> is empty if there are no streams or no
  pointer to them.
\<close>

record json_stream =
  js_enabled :: bool
  js_width :: c_int
  js_height :: c_int
  js_bitrate :: c_int
  js_format :: string
  js_endpoint :: string

record json_config =
  json_loglevel :: string
  json_streams :: "json_stream list"
  json_fps :: c_int
  json_jpeg_enabled :: bool
  json_jpeg_quality :: c_int
  json_jpeg_channel :: c_int
  json_jpeg_path :: string

text \<open>The text that a list of stores leaves in a zeroed buffer.\<close>

definition buffer_text :: "(nat \<times> string) list \<Rightarrow> string" where
  "buffer_text stores = foldl (\<lambda>b (pos, s). take pos b @ s) [] stores"

definition endpoint_text :: "http_router \<Rightarrow> u32 \<Rightarrow> string" where
  "endpoint_text rt buffer_size =
     (case http_router_generate_endpoint_list rt False buffer_size of
        None \<Rightarrow> [] | Some (n, stores) \<Rightarrow> buffer_text stores)"

text \<open>A text in quotation marks, and a member of an object without the comma behind it.\<close>

definition quoted :: "string \<Rightarrow> string" where
  "quoted s = CHR 0x22 # s @ [CHR 0x22]"

definition json_bool :: "bool \<Rightarrow> string" where
  "json_bool b = (if b then ''true'' else ''false'')"

definition json_stream_text :: "nat \<Rightarrow> c_int \<Rightarrow> json_stream \<Rightarrow> string" where
  "json_stream_text i frame_rate st =
     ''{'' @ quoted ''id'' @ '':'' @ decimal i @ '','' @ quoted ''enabled'' @ '':'' @ json_bool (js_enabled st) @ '','' @
     quoted ''resolution'' @ '':'' @ quoted (decimal_int (js_width st) @ ''x'' @ decimal_int (js_height st)) @ '','' @
     quoted ''fps'' @ '':'' @ decimal_int frame_rate @ '','' @
     quoted ''bitrate_kbps'' @ '':'' @ decimal_int (js_bitrate st) @ '','' @
     quoted ''format'' @ '':'' @ quoted (js_format st) @ '','' @
     quoted ''rtsp_endpoint'' @ '':'' @ quoted (js_endpoint st) @ ''}''"

text \<open>
  The \<open>snprintf\<close> calls that compose the configuration document, one after the other into the static buffer
  of 2048 bytes, each with \<open>len\<close> and the stores so far.
\<close>

type_synonym json_buffer = "u32 \<times> (nat \<times> string) list"

definition json_put :: "string \<Rightarrow> json_buffer \<Rightarrow> json_buffer" where
  "json_put s b = put_text 2048 (fst b) s (snd b)"

fun json_put_streams :: "nat \<Rightarrow> c_int \<Rightarrow> json_stream list \<Rightarrow> json_buffer \<Rightarrow> json_buffer" where
  "json_put_streams i frame_rate [] b = b"
| "json_put_streams i frame_rate (st # sts) b =
     json_put_streams (i + 1) frame_rate sts
       (json_put (json_stream_text i frame_rate st) (if 0 < i then json_put '','' b else b))"

definition json_put_config :: "http_router \<Rightarrow> c_int \<Rightarrow> json_config \<Rightarrow> json_buffer" where
  "json_put_config rt port g =
     json_put (quoted ''http_api'' @ '':{'' @ quoted ''port'' @ '':'' @ decimal_int port @ '','' @ quoted ''endpoints'' @ '':['' @
               endpoint_text rt 1024 @ '']}}'')
       (json_put (quoted ''jpeg'' @ '':{'' @ quoted ''enabled'' @ '':'' @ json_bool (json_jpeg_enabled g) @ '','' @
                  quoted ''quality'' @ '':'' @ decimal_int (json_jpeg_quality g) @ '','' @
                  quoted ''channel'' @ '':'' @ decimal_int (json_jpeg_channel g) @ '','' @
                  quoted ''path'' @ '':'' @ quoted (json_jpeg_path g) @ ''},'')
       (json_put ''],''
       (json_put_streams 0 (json_fps g) (take 2 (json_streams g))
       (json_put (quoted ''streams'' @ '':['')
       (json_put (''{'' @ quoted ''general'' @ '':{'' @ quoted ''log_level'' @ '':'' @ quoted (json_loglevel g) @ ''},'')
       (0, []))))))"

text \<open>\<open>now\<close> is the time, \<open>uptime\<close> the whole seconds of \<open>/proc/uptime\<close>, 0 if it cannot be read.\<close>

definition json_document ::
  "http_router \<Rightarrow> c_int \<Rightarrow> json_config option \<Rightarrow> int \<Rightarrow> nat \<Rightarrow> string \<Rightarrow> string" where
  "json_document rt port config now uptime endpoint =
     (if endpoint = ''status'' then
        fit 2048 (''{'' @ quoted ''status'' @ '':'' @ quoted ''ok'' @ '','' @ quoted ''message'' @ '':'' @
          quoted ''HTTP module active'' @ '','' @ quoted ''timestamp'' @ '':'' @ decimal_int now @ '','' @
          quoted ''endpoints'' @ '':['' @ endpoint_text rt 512 @ '']}'')
      else if endpoint = ''config'' then
        (case config of
           None \<Rightarrow> ''{'' @ quoted ''error'' @ '': '' @ quoted ''Configuration not available'' @ ''}''
         | Some g \<Rightarrow>
             if json_streams g = [] then ''{'' @ quoted ''error'' @ '': '' @ quoted ''Configuration not available'' @ ''}''
             else buffer_text (snd (json_put_config rt port g)))
      else if endpoint = ''info'' then
        fit 2048 (''{'' @ quoted ''info'' @ '':'' @ quoted ''thingino-streamer'' @ '','' @ quoted ''version'' @ '':'' @
          quoted ''modular'' @ '','' @ quoted ''http_module'' @ '':'' @ quoted ''active'' @ '','' @
          quoted ''timestamp'' @ '':'' @ decimal_int now @ ''}'')
      else if endpoint = ''health'' then
        fit 512 (''{'' @ quoted ''health'' @ '':'' @ quoted ''ok'' @ '','' @ quoted ''http_server'' @ '':'' @ quoted ''running'' @
          '','' @ quoted ''timestamp'' @ '':'' @ decimal_int now @ '','' @ quoted ''uptime_seconds'' @ '':'' @
          decimal uptime @ ''}'')
      else ''{'' @ quoted ''error'' @ '': '' @ quoted ''Unknown endpoint'' @ ''}'')"

definition handle_json_request ::
  "http_router \<Rightarrow> c_int \<Rightarrow> json_config option \<Rightarrow> int \<Rightarrow> nat \<Rightarrow> string \<Rightarrow> http_out \<Rightarrow> http_out" where
  "handle_json_request rt port config now uptime endpoint o1 =
     http_send_json (json_document rt port config now uptime endpoint) o1"

section \<open>Snapshots\<close>

text \<open>
  What a snapshot meets: whether the channel is enabled, the payload of the JPEG encoder and whether its
  quality can be set, the results of starting, polling and getting the stream, and of \<open>malloc\<close>.
\<close>

record snapshot_env =
  channel_enabled :: bool
  jpeg_attr :: "bool option"
  has_jpeg_qp :: bool
  enc_start_ok :: bool
  poll_ok :: bool
  jpeg_stream :: "hal_stream option"
  snapshot_malloc_ok :: "nat \<Rightarrow> bool"

datatype hal_call =
  HalGetAttr c_int | HalSetQp c_int int | HalStart c_int | HalPoll c_int | HalGet c_int
| HalRelease c_int | HalStop c_int | HalMalloc nat

text \<open>
  The result code, the data and the calls of the encoder layer; \<open>None\<close> if the sum of the pack lengths
  wraps around, when the packs are copied behind the end of the buffer.
\<close>

definition capture_snapshot ::
  "snapshot_env \<Rightarrow> c_int \<Rightarrow> (c_int \<times> bytes \<times> hal_call list) option" where
  "capture_snapshot env channel =
     (if channel < 0 \<or> int FS_CHN_NUM \<le> channel \<or> \<not> channel_enabled env then Some (-1, [], [])
      else
        (let jc = int FS_CHN_NUM + channel;
             c0 = [HalGetAttr jc] @
               (if jpeg_attr env = Some True \<and> has_jpeg_qp env then [HalSetQp jc 25] else []) @ [HalStart jc]
         in if \<not> enc_start_ok env then Some (-1, [], c0)
            else if \<not> poll_ok env then Some (-1, [], c0 @ [HalPoll jc, HalStop jc])
            else (case jpeg_stream env of
                    None \<Rightarrow> Some (-1, [], c0 @ [HalPoll jc, HalGet jc, HalStop jc])
                  | Some hs \<Rightarrow>
                      (let c1 = c0 @ [HalPoll jc, HalGet jc];
                           n = hal_stream_pack_count hs;
                           total = sum_list (map (hal_stream_pack_length hs) [0..<n]);
                           data = concat (map (hal_stream_copy_pack hs) [0..<n])
                       in if 2 ^ 32 \<le> total then None
                          else if total = 0 then Some (-1, [], c1 @ [HalRelease jc, HalStop jc])
                          else if \<not> snapshot_malloc_ok env total
                            then Some (-1, [], c1 @ [HalMalloc total, HalRelease jc, HalStop jc])
                          else Some (0, data, c1 @ [HalMalloc total, HalRelease jc, HalStop jc])))))"

definition handle_snapshot_request :: "snapshot_env \<Rightarrow> c_int \<Rightarrow> http_out \<Rightarrow> http_out option" where
  "handle_snapshot_request env channel o1 =
     (case capture_snapshot env channel of
        None \<Rightarrow> None
      | Some (r, data, calls) \<Rightarrow>
          Some (if r < 0 then http_send_error 500 (Some ''Failed to capture snapshot'') o1
                else http_send_binary (Some ''image/jpeg'') data o1))"

text \<open>
  \<open>handle_mp4_request\<close> answers that it is switched off. The test file: its size as \<open>ftell\<close> gives it and what
  \<open>fread\<close> reads; \<open>None\<close> if it cannot be opened.
\<close>

definition handle_mp4_request :: "c_int \<Rightarrow> http_out \<Rightarrow> http_out" where
  "handle_mp4_request channel o1 =
     http_send_error 503
       (Some ''H.264 segment capture temporarily disabled to prevent main video stream conflicts'') o1"

definition handle_test_jpg :: "(int \<times> bytes) option \<Rightarrow> bool \<Rightarrow> http_out \<Rightarrow> http_out" where
  "handle_test_jpg file malloc_ok o1 =
     (case file of
        None \<Rightarrow> http_send_error 404 (Some ''Test file not found'') o1
      | Some (file_size, data) \<Rightarrow>
          if file_size \<le> 0 then http_send_error 500 (Some ''Invalid test file'') o1
          else if \<not> malloc_ok then http_send_error 500 (Some ''Memory allocation error'') o1
          else if length data \<noteq> nat file_size then http_send_error 500 (Some ''File read error'') o1
          else http_send_binary (Some ''image/jpeg'') data o1)"

section \<open>MJPEG streams\<close>

text \<open>
  One round of the streaming thread: whether the server is still running and what the snapshot meets. The
  loop ends after 3000 frames or five failures in a row.
\<close>

record mjpeg_round =
  server_running :: bool
  round_env :: snapshot_env

text \<open>The three calls that send a frame, up to the first that fails, which is \<open>False\<close>.\<close>

definition send_mjpeg_frame :: "bytes \<Rightarrow> http_out \<Rightarrow> bool \<times> http_out" where
  "send_mjpeg_frame data o1 =
     (case http_send_mjpeg_frame_header (length data) o1 of (r, o2) \<Rightarrow>
        if r < 0 then (False, o2)
        else (case http_send (map byte_char data) o2 of
                (None, o3) \<Rightarrow> (False, o3)
              | (Some n, o3) \<Rightarrow> (case http_send CRLF o3 of (x, o4) \<Rightarrow> (x \<noteq> None, o4))))"

text \<open>Frames sent, failures in a row, the socket; \<open>None\<close> as for a snapshot.\<close>

function mjpeg_loop ::
  "c_int \<Rightarrow> (nat \<Rightarrow> mjpeg_round) \<Rightarrow> nat \<Rightarrow> nat \<Rightarrow> nat \<Rightarrow> http_out \<Rightarrow> (nat \<times> nat \<times> http_out) option" where
  "mjpeg_loop channel env i frame_count consecutive_errors o1 =
     (if server_running (env i) \<and> frame_count < 3000 \<and> consecutive_errors < 5 then
        (case capture_snapshot (round_env (env i)) channel of
           None \<Rightarrow> None
         | Some (r, data, calls) \<Rightarrow>
             if r < 0 then mjpeg_loop channel env (i + 1) frame_count (consecutive_errors + 1) o1
             else (case send_mjpeg_frame data o1 of (ok, o2) \<Rightarrow>
                     if ok then mjpeg_loop channel env (i + 1) (frame_count + 1) 0 o2
                     else Some (frame_count, 0, o2)))
      else Some (frame_count, consecutive_errors, o1))"
  by pat_completeness auto
termination
  by (relation "measure (\<lambda>(channel, env, i, f, e, o1). 6 * (3000 - f) + (5 - e))") auto

declare mjpeg_loop.simps [simp del]

text \<open>The thread: the socket is closed at the end, whatever happened.\<close>

definition mjpeg_stream_thread :: "c_int \<Rightarrow> (nat \<Rightarrow> mjpeg_round) \<Rightarrow> http_out \<Rightarrow> http_out option" where
  "mjpeg_stream_thread channel env o1 =
     (case http_send_mjpeg_stream_header o1 of (r, o2) \<Rightarrow>
        if r < 0 then Some o2 else map_option (snd \<circ> snd) (mjpeg_loop channel env 0 0 0 o2))"

text \<open>The request: \<open>True\<close> if a thread was started, which then owns the socket.\<close>

definition handle_mjpeg_stream :: "bool \<Rightarrow> bool \<Rightarrow> bool \<Rightarrow> c_int \<Rightarrow> http_out \<Rightarrow> bool \<times> http_out" where
  "handle_mjpeg_stream enabled malloc_ok thread_ok channel o1 =
     (if channel < 0 \<or> int FS_CHN_NUM \<le> channel \<or> \<not> enabled
      then (False, http_send_error 404 (Some ''Channel not enabled'') o1)
      else if \<not> malloc_ok then (False, http_send_error 500 (Some ''Memory allocation error'') o1)
      else if \<not> thread_ok then (False, http_send_error 500 (Some ''Thread creation error'') o1)
      else (True, o1))"

section \<open>What is sent\<close>

lemma send_loop_prefix:
  "send_loop rs todo sent = (ok, rs', sent') \<Longrightarrow> \<exists>n \<le> length todo. sent' = sent @ take n todo"
proof (induction rs todo sent rule: send_loop.induct)
  case (1 todo sent)
  then show ?case by auto
next
  case (2 r rs todo sent)
  show ?case
  proof (cases "todo = []")
    case False
    show ?thesis
    proof (cases r)
      case (SendTakes n)
      show ?thesis
      proof (cases "n = 0")
        case True
        with "2.prems" False SendTakes show ?thesis by (intro exI [of _ 0]) simp
      next
        case pos: False
        with "2.IH"(1) [OF False SendTakes pos] "2.prems" False SendTakes obtain m where
          "sent' = (sent @ take n todo) @ take m (drop n todo)" by auto
        then have "sent' = sent @ take (n + m) todo" by (simp add: take_add)
        then show ?thesis by (intro exI [of _ "min (n + m) (length todo)"]) (simp add: min_def)
      qed
    next
      case SendAgain
      with "2.IH"(2) [OF False SendAgain] "2.prems" False show ?thesis by simp
    next
      case SendFails
      with "2.prems" False show ?thesis by (intro exI [of _ 0]) simp
    qed
  qed (use "2.prems" in auto)
qed

text \<open>If no call fails and none takes nothing, everything is sent.\<close>

definition accepting :: "send_result \<Rightarrow> bool" where
  "accepting r \<longleftrightarrow> (case r of SendTakes n \<Rightarrow> 0 < n | SendAgain \<Rightarrow> True | SendFails \<Rightarrow> False)"

lemma send_loop_accepting:
  "list_all accepting rs \<Longrightarrow> send_loop rs todo sent = (ok, rs', sent') \<Longrightarrow>
     ok \<and> sent' = sent @ todo \<and> list_all accepting rs'"
proof (induction rs todo sent rule: send_loop.induct)
  case (2 r rs todo sent)
  then show ?case by (cases r; cases "todo = []") (auto simp: accepting_def)
qed auto

lemma send_all_accepting:
  assumes "list_all accepting (out_script o1)" and "send_all s o1 = (ok, o2)"
  shows "ok \<and> out_text o2 = out_text o1 @ s \<and> list_all accepting (out_script o2)"
proof -
  obtain ok' rs sent where l: "send_loop (out_script o1) s [] = (ok', rs, sent)" by (metis prod.exhaust)
  from send_loop_accepting [OF assms(1) l] assms(2) l show ?thesis by (auto simp: send_all_def)
qed

lemma send_all_prefix:
  assumes "send_all s o1 = (ok, o2)"
  shows "\<exists>n \<le> length s. out_text o2 = out_text o1 @ take n s"
proof -
  obtain ok' rs sent where l: "send_loop (out_script o1) s [] = (ok', rs, sent)" by (metis prod.exhaust)
  from send_loop_prefix [OF l] assms l show ?thesis by (auto simp: send_all_def)
qed

lemma http_send_prefix:
  assumes "http_send s o1 = (r, o2)"
  shows "\<exists>n \<le> length s. out_text o2 = out_text o1 @ take n s \<and> (\<forall>k. r = Some k \<longrightarrow> k = n)"
proof (cases "out_script o1")
  case Nil
  with assms show ?thesis by (intro exI [of _ "length s"]) (auto simp: http_send_def)
next
  case (Cons x xs)
  show ?thesis
  proof (cases x)
    case (SendTakes n)
    with assms Cons show ?thesis
      by (intro exI [of _ "min n (length s)"]) (auto simp: http_send_def min_def)
  qed (use assms Cons in \<open>auto simp: http_send_def\<close>)
qed

lemma http_send_empty_script [simp]:
  "out_script o1 = [] \<Longrightarrow> http_send s o1 = (Some (length s), o1\<lparr>out_text := out_text o1 @ s\<rparr>)"
  by (simp add: http_send_def)

section \<open>A response as the receiver reads it\<close>

text \<open>
  A receiver that looks for the length and for the end of the headers the way the server of this module
  does: the body is what follows the headers, as long as they say.
\<close>

definition read_response :: "string \<Rightarrow> (int \<times> string) option" where
  "read_response s =
     (case (strstr s ''Content-Length: '', strstr s (CRLF @ CRLF)) of
        (Some i, Some j) \<Rightarrow> Some (atoi (drop (i + 16) s), drop (j + 4) s)
      | _ \<Rightarrow> None)"

lemma decimal_no: "\<not> isdigit c \<Longrightarrow> c \<notin> set (decimal n)"
  using decimal_digits(1) [of n] by (auto simp: list_all_iff)

lemma decimal_int_no: "\<not> isdigit c \<Longrightarrow> c \<noteq> CHR ''-'' \<Longrightarrow> c \<notin> set (decimal_int i)"
  by (simp add: decimal_int_def decimal_no)

lemma strstr_line:
  assumes "CHR 0x0D \<notin> set line" and "c \<noteq> CHR 0x0D"
  shows "strstr (line @ CRLF @ c # s) (CRLF @ CRLF) =
    map_option ((+) (length line + 2)) (strstr (c # s) (CRLF @ CRLF))"
proof -
  have "strstr (CRLF @ c # s) (CRLF @ CRLF) = map_option ((+) 2) (strstr (c # s) (CRLF @ CRLF))"
    using assms(2) by (simp add: starts_with_def option.map_comp comp_def numeral_2_eq_2)
  with strstr_skip [OF assms(1), of "CRLF @ c # s" "CHR 0x0A # CRLF"] show ?thesis
    by (cases "strstr (c # s) (CRLF @ CRLF)") simp_all
qed

lemma atoi_decimal: "n < 2 ^ 31 \<Longrightarrow> s = [] \<or> \<not> isdigit (hd s) \<Longrightarrow> atoi (decimal n @ s) = int n"
  using scan_int_decimal(1) [of s n] by (auto simp: atoi_def)

lemma read_headers:
  assumes "CHR ''C'' \<notin> set status \<and> CHR 0x0D \<notin> set status" and "CHR ''C'' \<notin> set ctype \<and> CHR 0x0D \<notin> set ctype"
    and "n < 2 ^ 31" and "strstr (m # ms @ CRLF @ CRLF @ body) (CRLF @ CRLF) = Some (length (m # ms))"
    and "m \<noteq> CHR 0x0D"
  shows "read_response (status @ CRLF @ ''Content-Type: '' @ ctype @ CRLF @ ''Content-Length: '' @ decimal n @ CRLF @
      m # ms @ CRLF @ CRLF @ body) = Some (int n, body)"
proof -
  let ?l3 = "''Content-Length: '' @ decimal n @ CRLF @ m # ms @ CRLF @ CRLF @ body"
  let ?l2 = "''Content-Type: '' @ ctype @ CRLF @ ?l3"
  let ?s = "status @ CRLF @ ?l2"
  have len3: "strstr ?l3 ''Content-Length: '' = Some 0" by (rule strstr_here) (simp add: starts_with_def)
  have "strstr (ctype @ CRLF @ ?l3) ''Content-Length: '' = Some (length ctype + 2)"
    using strstr_skip [of "CHR ''C''" "ctype @ CRLF" ?l3 "''ontent-Length: ''"] assms(2) len3 by simp
  then have len2: "strstr ?l2 ''Content-Length: '' = Some (length ctype + 16)"
    by (simp add: starts_with_def)
  have i: "strstr ?s ''Content-Length: '' = Some (length status + length ctype + 18)"
    using strstr_skip [of "CHR ''C''" "status @ CRLF" ?l2 "''ontent-Length: ''"] assms(1) len2 by simp
  have "CHR 0x0D \<notin> set (''Content-Length: '' @ decimal n)" by (simp add: decimal_no isdigit_def)
  then have j3: "strstr ?l3 (CRLF @ CRLF) = Some (18 + length (decimal n) + length (m # ms))"
    using strstr_line [of "''Content-Length: '' @ decimal n" m "ms @ CRLF @ CRLF @ body"] assms(4,5) by simp
  have j2: "strstr ?l2 (CRLF @ CRLF) = Some (16 + length ctype + (18 + length (decimal n) + length (m # ms)))"
    using strstr_line [of "''Content-Type: '' @ ctype" "CHR ''C''" "tl ?l3"] assms(2) j3 by simp
  have j: "strstr ?s (CRLF @ CRLF) =
      Some (length status + 2 + (16 + length ctype + (18 + length (decimal n) + length (m # ms))))"
    using strstr_line [of status "CHR ''C''" "tl ?l2"] assms(1) j2 by simp
  have "drop (length status + length ctype + 18 + 16)
      ((status @ CRLF @ ''Content-Type: '' @ ctype @ CRLF @ ''Content-Length: '') @
        decimal n @ CRLF @ m # ms @ CRLF @ CRLF @ body) = decimal n @ CRLF @ m # ms @ CRLF @ CRLF @ body"
    by (rule drop_append_exact) simp
  then have "drop (length status + length ctype + 18 + 16) ?s = decimal n @ CRLF @ m # ms @ CRLF @ CRLF @ body"
    by (simp only: append_assoc append_Cons append_Nil)
  moreover have "atoi (decimal n @ CRLF @ m # ms @ CRLF @ CRLF @ body) = int n"
    using assms(3) by (intro atoi_decimal) (simp_all add: isdigit_def)
  moreover have "drop (length status + 2 + (16 + length ctype + (18 + length (decimal n) + length (m # ms))) + 4)
      ((status @ CRLF @ ''Content-Type: '' @ ctype @ CRLF @ ''Content-Length: '' @ decimal n @ CRLF @
        m # ms @ CRLF @ CRLF) @ body) = body"
    by (rule drop_append_exact) simp
  then have "drop (length status + 2 + (16 + length ctype + (18 + length (decimal n) + length (m # ms))) + 4) ?s = body"
    by (simp only: append_assoc append_Cons append_Nil)
  ultimately show ?thesis by (simp only: read_response_def i j prod.case option.case)
qed

lemma status_text_clean:
  "status \<noteq> 201 \<Longrightarrow> status \<noteq> 204 \<Longrightarrow> CHR ''C'' \<notin> set (http_get_status_text status)"
  "CHR 0x0D \<notin> set (http_get_status_text status)"
  by (simp_all add: http_get_status_text_def)

lemma status_line_clean:
  assumes "status \<noteq> 201" and "status \<noteq> 204"
  shows "CHR ''C'' \<notin> set (''HTTP/1.1 '' @ decimal_int status @ '' '' @ http_get_status_text status) \<and>
    CHR 0x0D \<notin> set (''HTTP/1.1 '' @ decimal_int status @ '' '' @ http_get_status_text status)"
  using status_text_clean [of status] assms by (simp add: decimal_int_no isdigit_def)

lemma read_response_text:
  assumes "status \<noteq> 201" and "status \<noteq> 204" and "CHR ''C'' \<notin> set t" and "CHR 0x0D \<notin> set t" and "n < 2 ^ 31"
  shows "read_response (response_header status (Some t) n @ body) = Some (int n, body)"
  using read_headers [OF status_line_clean [OF assms(1,2)], of t n "CHR ''C''"
      "''onnection: close'' @ CRLF @ ''Cache-Control: no-cache''" body] assms(3-5)
  by (simp add: response_header_def starts_with_def)

lemma read_binary_text:
  assumes "CHR ''C'' \<notin> set t" and "CHR 0x0D \<notin> set t" and "n < 2 ^ 31"
  shows "read_response (binary_header (Some t) n @ body) = Some (int n, body)"
  using read_headers [OF status_line_clean [of 200], of t n "CHR ''C''"
      "''onnection: close'' @ CRLF @ ''Cache-Control: no-cache, no-store, must-revalidate'' @ CRLF @
       ''Pragma: no-cache'' @ CRLF @ ''Expires: 0'' @ CRLF @ ''Accept-Ranges: bytes'' @ CRLF @
       ''Access-Control-Allow-Origin: *'' @ CRLF @ ''X-Content-Type-Options: nosniff'' @ CRLF @
       ''Transfer-Encoding: identity''" body] assms
  by (simp add: binary_header_def starts_with_def)

lemma http_send_response_text:
  assumes "out_script o1 = []"
  shows "out_text (http_send_response status t (Some b) o1) =
    out_text o1 @ sent_buffer 512 (response_header status t (length b)) (out_stack o1) @ b"
  using assms by (simp add: http_send_response_def Let_def)

lemma http_send_binary_text:
  assumes "list_all accepting (out_script o1)"
  shows "out_text (http_send_binary t data o1) =
    out_text o1 @ sent_buffer 512 (binary_header t (length data)) (out_stack o1) @ map byte_char data"
proof -
  obtain ok o2 where a: "send_all (sent_buffer 512 (binary_header t (length data)) (out_stack o1)) o1 = (ok, o2)"
    by (metis prod.exhaust)
  obtain ok3 o3 where b: "send_all (map byte_char data) o2 = (ok3, o3)" by (metis prod.exhaust)
  note f = send_all_accepting [OF assms a]
  then have "list_all accepting (out_script o2)" by simp
  from send_all_accepting [OF this b] f a b show ?thesis by (simp add: http_send_binary_def)
qed

text \<open>
  The headers fit their buffer of 512 bytes for every content type of at most 100 characters, so that the
  \<open>send\<close> of as many bytes as \<open>snprintf\<close> returns stays inside.
\<close>

lemma length_status_text: "length (http_get_status_text status) \<le> 21"
  by (simp add: http_get_status_text_def)

lemma http_headers_fit:
  assumes "int_range status" and "n < 2 ^ 32" and "\<And>t. content_type = Some t \<Longrightarrow> length t \<le> 100"
  shows "length (response_header status content_type n) < 512 \<and> length (binary_header content_type n) < 512"
proof -
  have "length (decimal n) \<le> 10" using length_decimal [of n 10] assms(2) by simp
  moreover have "length (decimal_int 200) \<le> 11" by (rule length_decimal_int) (simp add: int_range_def)
  ultimately show ?thesis
    using length_decimal_int [OF assms(1)] length_status_text [of status] length_status_text [of 200] assms(3)
    by (cases content_type) (fastforce simp: response_header_def binary_header_def)+
qed

text \<open>A longer content type: the client gets the NUL and what lies behind the buffer, and the end of the headers not.\<close>

lemma long_content_type_leaks:
  assumes "out_script o1 = []" and "512 \<le> length (response_header status t (length b))"
    and "h = response_header status t (length b)"
  shows "out_text (http_send_response status t (Some b) o1) =
    out_text o1 @ take 511 h @ CHR 0x00 # take (length h - 512) (out_stack o1) @ b"
  using assms by (simp add: http_send_response_text sent_buffer_def fit_def)

section \<open>Properties of the responses\<close>

text \<open>
  C24. A receiver gets from a response the body that was sent: the length in the headers is the length of the
  body and the body follows the headers, for texts, when \<open>send\<close> takes what it is given, and for binary data
  however often \<open>send\<close> takes a part of it or would block. The headers have to fit their buffer, as they do for
  content types of at most 100 characters (\<open>http_headers_fit\<close>); \<open>long_content_type_leaks\<close> is what happens otherwise.
\<close>

theorem http_response_framed:
  assumes "status \<noteq> 201" and "status \<noteq> 204" and "CHR ''C'' \<notin> set t" and "CHR 0x0D \<notin> set t"
    and "CHR ''C'' \<notin> set u" and "CHR 0x0D \<notin> set u" and "length body < 2 ^ 31" and "length data < 2 ^ 31"
    and "out_script o1 = []" and "out_text o1 = []" and "list_all accepting (out_script o2)" and "out_text o2 = []"
    and "length (response_header status (Some t) (length body)) < 512"
    and "length (binary_header (Some u) (length data)) < 512"
  shows "read_response (out_text (http_send_response status (Some t) (Some body) o1)) =
      Some (int (length body), body) \<and>
    read_response (out_text (http_send_binary (Some u) data o2)) =
      Some (int (length data), map byte_char data)"
  using http_send_response_text [OF assms(9), of status "Some t" body]
    http_send_binary_text [OF assms(11), of "Some u" data]
    read_response_text [OF assms(1-4,7)] read_binary_text [OF assms(5,6,8)] assms(10,12-14)
  by (simp add: sent_buffer_def)

theorem http_response_framed_witness:
  "read_response (out_text (http_send_response 403 (Some ''text/html'') (Some ''<p>no</p>'')
      \<lparr>out_script = [], out_text = [], out_stack = []\<rparr>)) = Some (9, ''<p>no</p>'') \<and>
   read_response (out_text (http_send_binary (Some ''image/jpeg'') [0xFF, 0xD8, 0xFF, 0xD9]
      \<lparr>out_script = [SendTakes 7, SendAgain, SendTakes 500, SendTakes 3], out_text = [], out_stack = []\<rparr>)) =
     Some (4, map byte_char [0xFF, 0xD8, 0xFF, 0xD9])"
  using http_response_framed [of 403 "''text/html''" "''image/jpeg''" "''<p>no</p>''" "[0xFF, 0xD8, 0xFF, 0xD9]"
      "\<lparr>out_script = [], out_text = [], out_stack = []\<rparr>"
      "\<lparr>out_script = [SendTakes 7, SendAgain, SendTakes 500, SendTakes 3], out_text = [], out_stack = []\<rparr>"]
    http_headers_fit [of 403 "length ''<p>no</p>''" "Some ''text/html''"]
    http_headers_fit [of 200 "length [0xFF, 0xD8, 0xFF, 0xD9 :: u8]" "Some ''image/jpeg''"]
  by (simp add: accepting_def int_range_def)

text \<open>
  Every path of a snapshot leaves the encoder as it was: once receiving was started it is stopped as the
  last thing, and the stream that was got is released before. A snapshot that succeeds is the packs of the
  stream one after the other, not empty.
\<close>

theorem snapshot_balanced:
  assumes "capture_snapshot env channel = Some (r, data, calls)"
  shows "(HalStart (4 + channel) \<in> set calls \<and> enc_start_ok env \<longrightarrow>
      last calls = HalStop (4 + channel) \<and> length (filter (\<lambda>c. c = HalStop (4 + channel)) calls) = 1) \<and>
    (HalRelease (4 + channel) \<in> set calls \<longleftrightarrow>
      HalGet (4 + channel) \<in> set calls \<and> jpeg_stream env \<noteq> None) \<and>
    (r = 0 \<longrightarrow> (\<exists>hs. jpeg_stream env = Some hs \<and>
       data = concat (map (hal_stream_copy_pack hs) [0..<hal_stream_pack_count hs])))"
  using assms
  by (auto simp: capture_snapshot_def FS_CHN_NUM_def Let_def split: if_splits option.splits)

definition sample_snapshot :: snapshot_env where
  "sample_snapshot =
     \<lparr>channel_enabled = True, jpeg_attr = Some True, has_jpeg_qp = True, enc_start_ok = True, poll_ok = True,
      jpeg_stream = Some \<lparr>ring = [0xFF, 0xD8, 0xFF, 0xD9], packs = [(0, 2, 0), (2, 2, 0)]\<rparr>,
      snapshot_malloc_ok = (\<lambda>n. True)\<rparr>"

lemma sample_snapshot_captured:
  "capture_snapshot sample_snapshot 1 =
     Some (0, [0xFF, 0xD8, 0xFF, 0xD9], [HalGetAttr 5, HalSetQp 5 25, HalStart 5, HalPoll 5, HalGet 5, HalMalloc 4,
       HalRelease 5, HalStop 5])"
  by (simp add: capture_snapshot_def sample_snapshot_def FS_CHN_NUM_def hal_stream_pack_count_def
      hal_stream_pack_length_def hal_stream_copy_pack_def Let_def upt_rec)

theorem snapshot_balanced_witness:
  "last [HalGetAttr 5, HalSetQp 5 25, HalStart 5, HalPoll 5, HalGet 5, HalMalloc 4, HalRelease 5, HalStop 5] = HalStop 5 \<and>
   HalRelease 5 \<in> set [HalGetAttr 5, HalSetQp 5 25, HalStart 5, HalPoll 5, HalGet 5, HalMalloc 4, HalRelease 5, HalStop 5]"
  using snapshot_balanced [OF sample_snapshot_captured] by (simp add: sample_snapshot_def)

text \<open>A part of an MJPEG stream.\<close>

definition mjpeg_part :: "bytes \<Rightarrow> string" where
  "mjpeg_part data = mjpeg_frame_header (length data) @ map byte_char data @ CRLF"

lemma send_mjpeg_frame_ok:
  "out_script o1 = [] \<Longrightarrow>
     send_mjpeg_frame data o1 = (True, o1\<lparr>out_text := out_text o1 @ mjpeg_part data\<rparr>)"
  by (simp add: send_mjpeg_frame_def http_send_mjpeg_frame_header_def mjpeg_part_def)

definition captured :: "c_int \<Rightarrow> (nat \<Rightarrow> mjpeg_round) \<Rightarrow> nat \<Rightarrow> bytes option" where
  "captured channel env k =
     (case capture_snapshot (round_env (env k)) channel of
        None \<Rightarrow> None
      | Some (r, data, calls) \<Rightarrow> if r < 0 then None else Some data)"

definition captures :: "c_int \<Rightarrow> (nat \<Rightarrow> mjpeg_round) \<Rightarrow> nat \<Rightarrow> nat \<Rightarrow> bytes list" where
  "captures channel env i n = List.map_filter (captured channel env) [i..<n]"

lemma captures_step:
  "i < n \<Longrightarrow> captures channel env i n =
     (case captured channel env i of None \<Rightarrow> [] | Some d \<Rightarrow> [d]) @ captures channel env (i + 1) n"
  by (simp add: captures_def upt_conv_Cons map_filter_simps split: option.split)

lemma mjpeg_loop_parts:
  assumes "mjpeg_loop channel env i f e o1 = Some (f1, e1, o2)" and "out_script o1 = []" and "f \<le> 3000" and "e \<le> 5"
    and "e \<le> i" and "\<forall>k \<in> {i - e..<i}. captured channel env k = None"
  shows "\<exists>n \<ge> i. out_text o2 = out_text o1 @ concat (map mjpeg_part (captures channel env i n)) \<and>
    f1 = f + length (captures channel env i n) \<and> f1 \<le> 3000 \<and>
    (\<not> server_running (env n) \<or> f1 = 3000 \<or> 5 \<le> n \<and> (\<forall>k \<in> {n - 5..<n}. captured channel env k = None))"
  using assms
proof (induction channel env i f e o1 rule: mjpeg_loop.induct)
  case (1 channel env i f e o1)
  show ?case
  proof (cases "server_running (env i) \<and> f < 3000 \<and> e < 5")
    case False
    with "1.prems" have "f1 = f" "e1 = e" "o2 = o1" by (simp_all add: mjpeg_loop.simps [of channel env i])
    with False "1.prems"(3-6) show ?thesis by (intro exI [of _ i]) (auto simp: captures_def map_filter_simps)
  next
    case True
    then obtain r data calls where cap: "capture_snapshot (round_env (env i)) channel = Some (r, data, calls)"
      using "1.prems"(1) by (auto simp: mjpeg_loop.simps [of channel env i] split: option.splits)
    show ?thesis
    proof (cases "r < 0")
      case neg: True
      with True cap "1.prems"(1) have "mjpeg_loop channel env (i + 1) f (e + 1) o1 = Some (f1, e1, o2)"
        by (simp add: mjpeg_loop.simps [of channel env i])
      moreover have none: "captured channel env i = None" using cap neg by (simp add: captured_def)
      then have "\<forall>k \<in> {i + 1 - (e + 1)..<i + 1}. captured channel env k = None"
        using "1.prems"(6) by (auto simp: less_Suc_eq)
      ultimately obtain n where n: "i + 1 \<le> n"
        "out_text o2 = out_text o1 @ concat (map mjpeg_part (captures channel env (i + 1) n))"
        "f1 = f + length (captures channel env (i + 1) n)" "f1 \<le> 3000"
        "\<not> server_running (env n) \<or> f1 = 3000 \<or> 5 \<le> n \<and> (\<forall>k \<in> {n - 5..<n}. captured channel env k = None)"
        using "1.IH"(1) [OF True cap refl refl neg _ "1.prems"(2,3)] True "1.prems"(5) by auto
      with none show ?thesis by (intro exI [of _ n]) (simp add: captures_step [of i n])
    next
      case False
      let ?o = "o1\<lparr>out_text := out_text o1 @ mjpeg_part data\<rparr>"
      note s = send_mjpeg_frame_ok [OF "1.prems"(2), of data]
      with True cap False "1.prems"(1) have l: "mjpeg_loop channel env (i + 1) (f + 1) 0 ?o = Some (f1, e1, o2)"
        by (simp add: mjpeg_loop.simps [of channel env i])
      from "1.IH"(2) [OF True cap refl refl False s [symmetric] TrueI l] "1.prems"(2) True
      obtain n where n: "i + 1 \<le> n"
        "out_text o2 = out_text ?o @ concat (map mjpeg_part (captures channel env (i + 1) n))"
        "f1 = f + 1 + length (captures channel env (i + 1) n)" "f1 \<le> 3000"
        "\<not> server_running (env n) \<or> f1 = 3000 \<or> 5 \<le> n \<and> (\<forall>k \<in> {n - 5..<n}. captured channel env k = None)"
        by auto
      moreover have "captured channel env i = Some data" using cap False by (simp add: captured_def)
      ultimately show ?thesis by (intro exI [of _ n]) (simp add: captures_step [of i n])
    qed
  qed
qed

text \<open>
  C20. What an MJPEG client receives is the stream header and then, in their order, one part for each snapshot
  that succeeded, at most 3000, if \<open>send\<close> takes what it is given. The thread always ends: when the server
  stops, after 3000 frames, or after five failures in a row.
\<close>

theorem mjpeg_stream_parts:
  assumes "mjpeg_stream_thread channel env o1 = Some o2" and "out_script o1 = []"
  shows "\<exists>n. out_text o2 = out_text o1 @ mjpeg_stream_header @ concat (map mjpeg_part (captures channel env 0 n)) \<and>
    length (captures channel env 0 n) \<le> 3000 \<and>
    (\<not> server_running (env n) \<or> length (captures channel env 0 n) = 3000 \<or>
     5 \<le> n \<and> (\<forall>k \<in> {n - 5..<n}. captured channel env k = None))"
proof -
  let ?o = "o1\<lparr>out_text := out_text o1 @ mjpeg_stream_header\<rparr>"
  have "http_send_mjpeg_stream_header o1 = (0, ?o)"
    using assms(2) by (simp add: http_send_mjpeg_stream_header_def)
  with assms(1) obtain f1 e1 where "mjpeg_loop channel env 0 0 0 ?o = Some (f1, e1, o2)"
    by (auto simp: mjpeg_stream_thread_def)
  from mjpeg_loop_parts [OF this] assms(2) show ?thesis by auto
qed

theorem mjpeg_stream_parts_witness:
  "\<exists>n o2. mjpeg_stream_thread 1 (\<lambda>k. \<lparr>server_running = k < 3, round_env = sample_snapshot\<lparr>poll_ok := k \<noteq> 1\<rparr>\<rparr>)
      \<lparr>out_script = [], out_text = [], out_stack = []\<rparr> = Some o2 \<and>
    out_text o2 = mjpeg_stream_header @ concat (map mjpeg_part
      (captures 1 (\<lambda>k. \<lparr>server_running = k < 3, round_env = sample_snapshot\<lparr>poll_ok := k \<noteq> 1\<rparr>\<rparr>) 0 n))"
proof -
  let ?env = "\<lambda>k. \<lparr>server_running = k < 3, round_env = sample_snapshot\<lparr>poll_ok := k \<noteq> 1\<rparr>\<rparr>"
  have c: "capture_snapshot (sample_snapshot\<lparr>poll_ok := True\<rparr>) 1 = Some (0, [0xFF, 0xD8, 0xFF, 0xD9],
      [HalGetAttr 5, HalSetQp 5 25, HalStart 5, HalPoll 5, HalGet 5, HalMalloc 4, HalRelease 5, HalStop 5])"
    using sample_snapshot_captured by (simp add: sample_snapshot_def)
  have d: "capture_snapshot (sample_snapshot\<lparr>poll_ok := False\<rparr>) 1 =
      Some (-1, [], [HalGetAttr 5, HalSetQp 5 25, HalStart 5, HalPoll 5, HalStop 5])"
    by (simp add: capture_snapshot_def sample_snapshot_def FS_CHN_NUM_def)
  have "\<exists>o2. mjpeg_stream_thread 1 ?env \<lparr>out_script = [], out_text = [], out_stack = []\<rparr> = Some o2"
    by (simp add: mjpeg_stream_thread_def http_send_mjpeg_stream_header_def mjpeg_loop.simps c d send_mjpeg_frame_ok)
  then obtain o2 where o2: "mjpeg_stream_thread 1 ?env \<lparr>out_script = [], out_text = [], out_stack = []\<rparr> = Some o2" by blast
  from mjpeg_stream_parts [OF this] o2 show ?thesis by auto
qed

section \<open>The JSON buffer\<close>

lemma buffer_text_snoc: "buffer_text (stores @ [(pos, s)]) = take pos (buffer_text stores) @ s"
  by (simp add: buffer_text_def)

lemma buffer_text_length:
  assumes "list_all (inside n) stores" and "0 < n"
  shows "length (buffer_text stores) < unat n"
proof (cases stores rule: rev_cases)
  case Nil
  with assms(2) show ?thesis by (simp add: buffer_text_def word_less_nat_alt)
next
  case (snoc xs x)
  then obtain pos s where x: "x = (pos, s)" by (cases x) auto
  with snoc assms(1) have "pos + length s + 1 \<le> unat n" by (simp add: inside_def)
  with snoc x show ?thesis by (simp add: buffer_text_snoc)
qed

lemma endpoint_text_length:
  assumes "20 \<le> n"
  shows "length (endpoint_text rt n) < unat n"
proof -
  have n: "0 < n" using assms by (cases "n = 0") (simp_all add: word_gt_0)
  obtain len stores where l: "endpoint_loop n (routes rt) True 0 [] = (len, stores)" by (metis prod.exhaust)
  have "list_all (inside n) stores" using endpoint_loop_inside [OF assms, of "[]" "routes rt" True 0] l by simp
  then have "length (buffer_text stores) < unat n" using n by (rule buffer_text_length)
  moreover have "endpoint_text rt n = buffer_text stores"
    using l n by (simp add: endpoint_text_def http_router_generate_endpoint_list_def word_gt_0)
  ultimately show ?thesis by simp
qed

text \<open>The buffer holds the whole text so far, and the counter is its length.\<close>

definition json_holds :: "json_buffer \<Rightarrow> string \<Rightarrow> bool" where
  "json_holds b t \<longleftrightarrow> fst b = word_of_nat (length t) \<and> length t < 2048 \<and> buffer_text (snd b) = t \<and>
     list_all (inside 2048) (snd b)"

lemma json_put_holds:
  assumes "json_holds b t" and "length t + length s < 2048"
  shows "json_holds (json_put s b) (t @ s)"
proof -
  obtain len stores where b: "b = (len, stores)" by (cases b) auto
  have len: "unat len = length t" using assms by (simp add: b json_holds_def unat_of_nat take_bit_nat_eq_self)
  then have "len \<le> 2048" using assms(2) by (simp add: word_le_nat_alt)
  then have room: "unat (2048 - len) = 2048 - length t" by (simp add: unat_sub len)
  have "fit (2048 - length t) s = s" using assms(2) by (intro fit_id) simp
  then have "json_put s b = (len + word_of_nat (length s), stores @ [(length t, s)])"
    using assms(2) by (simp add: json_put_def put_text_def b room len)
  with assms b show ?thesis by (simp add: json_holds_def buffer_text_snoc inside_def)
qed

definition json_stream_ok :: "json_stream \<Rightarrow> bool" where
  "json_stream_ok st \<longleftrightarrow> int_range (js_width st) \<and> int_range (js_height st) \<and> int_range (js_bitrate st) \<and>
     length (js_format st) \<le> 15 \<and> length (js_endpoint st) \<le> 63"

text \<open>The fields of the configuration are numbers of type \<open>int\<close> and texts that fit their arrays.\<close>

definition json_config_ok :: "json_config \<Rightarrow> bool" where
  "json_config_ok g \<longleftrightarrow> length (json_loglevel g) \<le> 15 \<and> list_all json_stream_ok (json_streams g) \<and>
     int_range (json_fps g) \<and> int_range (json_jpeg_quality g) \<and> int_range (json_jpeg_channel g) \<and>
     length (json_jpeg_path g) \<le> 255"

fun json_streams_text :: "nat \<Rightarrow> c_int \<Rightarrow> json_stream list \<Rightarrow> string" where
  "json_streams_text i frame_rate [] = []"
| "json_streams_text i frame_rate (st # sts) =
     (if 0 < i then '','' else []) @ json_stream_text i frame_rate st @ json_streams_text (i + 1) frame_rate sts"

lemma json_stream_text_length:
  assumes "json_stream_ok st" and "int_range frame_rate" and "i < 10"
  shows "length (json_stream_text i frame_rate st) \<le> 217"
proof -
  have "length (decimal i) \<le> 1" using length_decimal [of i 1] assms(3) by simp
  moreover have "length (json_bool b) \<le> 5" for b by (simp add: json_bool_def)
  note this [of "js_enabled st"]
  ultimately show ?thesis
    using assms(1,2) length_decimal_int [of "js_width st"] length_decimal_int [of "js_height st"]
      length_decimal_int [of "js_bitrate st"] length_decimal_int [of frame_rate]
    by (simp add: json_stream_text_def json_stream_ok_def quoted_def)
qed

lemma json_put_streams_holds:
  assumes "json_holds b t" and "list_all json_stream_ok sts" and "int_range frame_rate"
    and "i + length sts \<le> 10" and "length t + 218 * length sts < 2048"
  shows "json_holds (json_put_streams i frame_rate sts b) (t @ json_streams_text i frame_rate sts) \<and>
    length (json_streams_text i frame_rate sts) \<le> 218 * length sts"
  using assms
proof (induction sts arbitrary: i b t)
  case (Cons st sts)
  let ?c = "if 0 < i then '','' else []" and ?s = "json_stream_text i frame_rate st"
  let ?b = "json_put ?s (if 0 < i then json_put '','' b else b)"
  have s: "length ?s \<le> 217" using Cons.prems(2-4) by (intro json_stream_text_length) simp_all
  have "json_holds (if 0 < i then json_put '','' b else b) (t @ ?c)"
    using Cons.prems(1,5) json_put_holds [of b t "'',''"] by simp
  then have h: "json_holds ?b ((t @ ?c) @ ?s)"
    by (rule json_put_holds) (use s Cons.prems(5) in auto)
  have "length ((t @ ?c) @ ?s) \<le> length t + 218" using s by auto
  with Cons.IH [OF h, of "i + 1"] Cons.prems(2-5) s show ?case by simp
qed (simp add: json_holds_def)

lemma json_document_holds:
  assumes "length p \<le> 43" and "length q \<le> 11" and "length j \<le> 334" and "length h \<le> 1071"
    and "list_all json_stream_ok sts" and "int_range frame_rate" and "length sts \<le> 2"
  shows "json_holds (json_put h (json_put j (json_put ''],'' (json_put_streams 0 frame_rate sts
      (json_put q (json_put p (0, [])))))))
    (p @ q @ json_streams_text 0 frame_rate sts @ ''],'' @ j @ h)"
proof -
  let ?t = "json_streams_text 0 frame_rate sts"
  have "json_holds (0, []) []" by (simp add: json_holds_def buffer_text_def)
  from json_put_holds [OF this, of p] assms(1) have a: "json_holds (json_put p (0, [])) p" by simp
  from json_put_holds [OF a, of q] assms(1,2) have b: "json_holds (json_put q (json_put p (0, []))) (p @ q)" by simp
  from json_put_streams_holds [OF b assms(5,6), of 0] assms(1,2,7)
  have c: "json_holds (json_put_streams 0 frame_rate sts (json_put q (json_put p (0, [])))) ((p @ q) @ ?t)"
    and t: "length ?t \<le> 436" by simp_all
  from json_put_holds [OF c, of "''],''"] assms(1,2) t
  have d: "json_holds (json_put ''],'' (json_put_streams 0 frame_rate sts (json_put q (json_put p (0, [])))))
      (((p @ q) @ ?t) @ ''],'')" by simp
  from json_put_holds [OF d, of j] assms(1-3) t have e: "json_holds (json_put j (json_put ''],''
      (json_put_streams 0 frame_rate sts (json_put q (json_put p (0, [])))))) ((((p @ q) @ ?t) @ ''],'') @ j)" by simp
  from json_put_holds [OF e, of h] assms(1-4) t show ?thesis by simp
qed

definition json_config_text :: "http_router \<Rightarrow> c_int \<Rightarrow> json_config \<Rightarrow> string" where
  "json_config_text rt port g =
     (''{'' @ quoted ''general'' @ '':{'' @ quoted ''log_level'' @ '':'' @ quoted (json_loglevel g) @ ''},'') @
     (quoted ''streams'' @ '':['') @ json_streams_text 0 (json_fps g) (take 2 (json_streams g)) @ ''],'' @
     (quoted ''jpeg'' @ '':{'' @ quoted ''enabled'' @ '':'' @ json_bool (json_jpeg_enabled g) @ '','' @
      quoted ''quality'' @ '':'' @ decimal_int (json_jpeg_quality g) @ '','' @
      quoted ''channel'' @ '':'' @ decimal_int (json_jpeg_channel g) @ '','' @
      quoted ''path'' @ '':'' @ quoted (json_jpeg_path g) @ ''},'') @
     (quoted ''http_api'' @ '':{'' @ quoted ''port'' @ '':'' @ decimal_int port @ '','' @ quoted ''endpoints'' @ '':['' @
      endpoint_text rt 1024 @ '']}}'')"

text \<open>
  The configuration document always fits its buffer of 2048 bytes: with the texts as long as their
  arrays allow, at most two streams and whatever routes there are, no call writes outside, none cuts anything
  off, \<open>sizeof(json_buffer) - len\<close> does not wrap around, and the buffer holds the whole document.
\<close>

theorem json_config_fits:
  assumes "json_config_ok g" and "int_range port"
  shows "buffer_text (snd (json_put_config rt port g)) = json_config_text rt port g \<and>
    length (json_config_text rt port g) < 2048 \<and>
    (\<forall>(pos, s) \<in> set (snd (json_put_config rt port g)). pos + length s + 1 \<le> 2048)"
proof -
  have sts: "list_all json_stream_ok (take 2 (json_streams g))"
    using assms(1) by (auto simp: json_config_ok_def list_all_iff dest: in_set_takeD)
  have "json_holds (json_put_config rt port g) (json_config_text rt port g)"
    unfolding json_put_config_def json_config_text_def
    using assms length_decimal_int [of "json_jpeg_quality g"] length_decimal_int [of "json_jpeg_channel g"]
      length_decimal_int [of port] endpoint_text_length [of 1024 rt] sts
    by (intro json_document_holds) (simp_all add: json_config_ok_def quoted_def json_bool_def)
  then show ?thesis by (auto simp: json_holds_def list_all_iff inside_def)
qed

definition sample_json_config :: json_config where
  "sample_json_config =
     \<lparr>json_loglevel = ''INFO'', json_streams = [\<lparr>js_enabled = True, js_width = 1920, js_height = 1080,
        js_bitrate = 3000, js_format = ''H264'', js_endpoint = ''ch0''\<rparr>], json_fps = 25, json_jpeg_enabled = False,
      json_jpeg_quality = 75, json_jpeg_channel = 0, json_jpeg_path = ''/tmp/snap.jpg''\<rparr>"

theorem json_config_fits_witness:
  "length (json_config_text \<lparr>routes = sample_routes, router_initialized = True\<rparr> 8080 sample_json_config) < 2048"
  using json_config_fits [of sample_json_config 8080 "\<lparr>routes = sample_routes, router_initialized = True\<rparr>"]
  by (simp add: sample_json_config_def json_config_ok_def json_stream_ok_def int_range_def)

section \<open>The overview\<close>

lemma safe_append_fits:
  "safe_append_html n b f = Some b1 \<Longrightarrow> 0 < n \<Longrightarrow> length b < n \<Longrightarrow>
     length b1 < n \<and> (\<exists>m. b1 = b @ take m f)"
  by (auto simp: safe_append_html_def fit_def split: if_splits intro: exI [of _ 0])

lemma append_routes_fit: "append_routes rs b = Some b1 \<Longrightarrow> length b < 8192 \<Longrightarrow> length b1 < 8192"
  by (induction rs arbitrary: b) (auto split: option.splits if_splits dest: safe_append_fits)

lemma safe_append_defined: "CHR ''%'' \<notin> set f \<Longrightarrow> safe_append_html n b f \<noteq> None"
  by (simp add: safe_append_html_def)

lemma append_routes_defined:
  "(\<And>r. r \<in> set rs \<Longrightarrow> CHR ''%'' \<notin> set (route_html r)) \<Longrightarrow> append_routes rs b \<noteq> None"
proof (induction rs arbitrary: b)
  case (Cons r rs)
  then obtain b1 where "safe_append_html 8192 b (route_html r) = Some b1"
    using safe_append_defined [of "route_html r" 8192 b] by auto
  with Cons show ?case by simp
qed simp

text \<open>
  The overview never exceeds its buffer of 8192 bytes, and it can be made whenever no route has a per cent
  sign in its entry; with one, the entry is a format that makes \<open>vsnprintf\<close> read arguments that are not there.
\<close>

theorem overview_in_bounds:
  "(\<forall>html. overview_html rt = Some html \<longrightarrow> length html < 8192) \<and>
   ((\<forall>r \<in> set (routes rt). CHR ''%'' \<notin> set (route_html r)) \<longrightarrow> overview_html rt \<noteq> None)"
proof -
  have head: "safe_append_html 8192 [] overview_head = Some overview_head"
    by (simp add: safe_append_html_def overview_head_def fit_def)
  have h: "length overview_head < 8192" by (simp add: overview_head_def)
  have tail: "safe_append_html 8192 b ''</ul></body></html>'' \<noteq> None" for b
    by (rule safe_append_defined) simp
  have "length html < 8192" if "overview_html rt = Some html" for html
  proof -
    from that obtain b where "append_routes (routes rt) overview_head = Some b"
      "safe_append_html 8192 b ''</ul></body></html>'' = Some html"
      by (auto simp: overview_html_def head split: option.splits)
    with append_routes_fit [OF this(1) h] show ?thesis by (auto dest: safe_append_fits)
  qed
  moreover have "overview_html rt \<noteq> None" if "\<forall>r \<in> set (routes rt). CHR ''%'' \<notin> set (route_html r)"
  proof -
    from that append_routes_defined [of "routes rt" overview_head] obtain b where
      "append_routes (routes rt) overview_head = Some b" by blast
    with tail [of b] show ?thesis by (simp add: overview_html_def head)
  qed
  ultimately show ?thesis by blast
qed

lemma overview_percent:
  "overview_html \<lparr>routes = [\<lparr>path = ''/p'', route_method = HTTP_METHOD_GET, handler = 1, route_module = ''m'',
     description = Some ''50% size''\<rparr>], router_initialized = True\<rparr> = None"
  by (simp add: overview_html_def safe_append_html_def overview_head_def fit_def route_html_def
      http_method_to_string_def method_strings_def)

end
