(* ===== verification/HttpServer.thy ===== *)
theory HttpServer
  imports HttpResponses JsonConfig NetIO
begin

text \<open>
  The HTTP module as a server (\<open>http_module.c\<close>): its configuration, the requests its thread reads and
  answers, the routes it registers, and its life cycle. Modules that register routes of their own, the clock
  and the encoder are parameters.
\<close>

section \<open>Configuration\<close>

record http_module_config =
  http_enabled :: bool
  http_port :: c_int
  max_connections :: c_int
  request_timeout_ms :: c_int
  ep_snapshots :: bool
  ep_mjpeg_streams :: bool
  ep_json_api :: bool
  ep_metrics :: bool
  ep_onvif :: bool
  ep_api_overview :: bool
  http_auth :: auth_config
  allowed_origins :: string
  http_buffer_size :: c_int
  snapshot_buffer_size :: c_int
  keep_alive :: bool
  keep_alive_timeout :: c_int

definition zero_http_config :: http_module_config where
  "zero_http_config =
     \<lparr>http_enabled = False, http_port = 0, max_connections = 0, request_timeout_ms = 0, ep_snapshots = False,
      ep_mjpeg_streams = False, ep_json_api = False, ep_metrics = False, ep_onvif = False,
      ep_api_overview = False,
      http_auth = \<lparr>auth_enabled = False, localhost_bypass = False, auth_username = [], auth_password = []\<rparr>,
      allowed_origins = [], http_buffer_size = 0, snapshot_buffer_size = 0, keep_alive = False,
      keep_alive_timeout = 0\<rparr>"

definition http_module_set_defaults :: http_module_config where
  "http_module_set_defaults =
     \<lparr>http_enabled = True, http_port = 8080, max_connections = 10, request_timeout_ms = 30000,
      ep_snapshots = True, ep_mjpeg_streams = True, ep_json_api = True, ep_metrics = True, ep_onvif = True,
      ep_api_overview = True,
      http_auth = \<lparr>auth_enabled = False, localhost_bypass = True, auth_username = ''admin'',
                   auth_password = ''admin''\<rparr>,
      allowed_origins = ''*'', http_buffer_size = 4096, snapshot_buffer_size = 1024 * 1024,
      keep_alive = False, keep_alive_timeout = 30\<rparr>"

text \<open>A text of at most 63 characters; a value that is no string for the library is skipped.\<close>

definition credential :: "'j json_c \<Rightarrow> 'j \<Rightarrow> string \<Rightarrow> string" where
  "credential J v old = (case json_string J v of None \<Rightarrow> old | Some s \<Rightarrow> fit 64 s)"

definition parse_endpoints :: "'j json_c \<Rightarrow> 'j \<Rightarrow> http_module_config \<Rightarrow> http_module_config" where
  "parse_endpoints J e c =
     (let c1 = if_member J e ''snapshots'' (\<lambda>v c. c\<lparr>ep_snapshots := json_boolean J v\<rparr>) c;
          c2 = if_member J e ''mjpeg_streams'' (\<lambda>v c. c\<lparr>ep_mjpeg_streams := json_boolean J v\<rparr>) c1;
          c3 = if_member J e ''json_api'' (\<lambda>v c. c\<lparr>ep_json_api := json_boolean J v\<rparr>) c2;
          c4 = if_member J e ''metrics'' (\<lambda>v c. c\<lparr>ep_metrics := json_boolean J v\<rparr>) c3;
          c5 = if_member J e ''onvif'' (\<lambda>v c. c\<lparr>ep_onvif := json_boolean J v\<rparr>) c4
      in if_member J e ''api_overview'' (\<lambda>v c. c\<lparr>ep_api_overview := json_boolean J v\<rparr>) c5)"

definition parse_http_auth :: "'j json_c \<Rightarrow> 'j \<Rightarrow> auth_config \<Rightarrow> auth_config" where
  "parse_http_auth J e a =
     (let a1 = if_member J e ''enabled'' (\<lambda>v a. a\<lparr>auth_enabled := json_boolean J v\<rparr>) a;
          a2 = if_member J e ''localhost_bypass'' (\<lambda>v a. a\<lparr>localhost_bypass := json_boolean J v\<rparr>) a1;
          a3 = if_member J e ''username'' (\<lambda>v a. a\<lparr>auth_username := credential J v (auth_username a)\<rparr>) a2
      in if_member J e ''password'' (\<lambda>v a. a\<lparr>auth_password := credential J v (auth_password a)\<rparr>) a3)"

definition parse_performance :: "'j json_c \<Rightarrow> 'j \<Rightarrow> http_module_config \<Rightarrow> http_module_config" where
  "parse_performance J e c =
     (let c1 = if_member J e ''buffer_size'' (\<lambda>v c. c\<lparr>http_buffer_size := json_int J v\<rparr>) c;
          c2 = if_member J e ''snapshot_buffer_size'' (\<lambda>v c. c\<lparr>snapshot_buffer_size := json_int J v\<rparr>) c1;
          c3 = if_member J e ''keep_alive'' (\<lambda>v c. c\<lparr>keep_alive := json_boolean J v\<rparr>) c2
      in if_member J e ''keep_alive_timeout'' (\<lambda>v c. c\<lparr>keep_alive_timeout := json_int J v\<rparr>) c3)"

definition http_module_config_parse ::
  "'j json_c \<Rightarrow> 'j option \<Rightarrow> http_module_config option \<Rightarrow> c_int \<times> http_module_config option" where
  "http_module_config_parse J json config =
     (case (json, config) of
        (Some j, Some c) \<Rightarrow>
          (let c1 = if_member J j ''enabled'' (\<lambda>v c. c\<lparr>http_enabled := json_boolean J v\<rparr>) c;
               c2 = if_member J j ''port'' (\<lambda>v c. c\<lparr>http_port := json_int J v\<rparr>) c1;
               c3 = if_member J j ''max_connections'' (\<lambda>v c. c\<lparr>max_connections := json_int J v\<rparr>) c2;
               c4 = if_member J j ''request_timeout_ms'' (\<lambda>v c. c\<lparr>request_timeout_ms := json_int J v\<rparr>) c3;
               c5 = if_member J j ''endpoints'' (parse_endpoints J) c4;
               c6 = if_member J j ''auth'' (\<lambda>v c. c\<lparr>http_auth := parse_http_auth J v (http_auth c)\<rparr>) c5
           in (0, Some (if_member J j ''performance'' (parse_performance J) c6)))
      | _ \<Rightarrow> (-1, config))"

section \<open>Requests\<close>

text \<open>The text a buffer of bytes holds, up to its first NUL.\<close>

definition c_text :: "bytes \<Rightarrow> string" where
  "c_text bs = takeWhile (\<lambda>c. c \<noteq> CHR 0x00) (map byte_char bs)"

text \<open>The rest of the body, into the buffer of 8192 bytes.\<close>

function read_body ::
  "rx_event list \<Rightarrow> bytes \<Rightarrow> int \<Rightarrow> int \<Rightarrow> bytes \<times> rx_event list" where
  "read_body es request body_received content_length =
     (if body_received < content_length \<and> length request < 8191 then
        (case recv es (8191 - length request) of (r, bs, es1) \<Rightarrow>
           if r \<le> 0 then (request, es1)
           else read_body es1 (request @ bs) (body_received + r) content_length)
      else (request, es))"
  by pat_completeness auto
termination
proof (relation "measure (\<lambda>(es, request, b, c). 8191 - length request)", goal_cases)
  case (2 es request b c r y bs es1)
  from 2(2,3) have "recv es (8191 - length request) = (r, bs, es1)" by simp
  from recv_positive [OF this] 2(1,4) have "bs \<noteq> []" by auto
  with 2(1) show ?case by (auto simp: length_greater_0_conv [symmetric] simp del: length_greater_0_conv)
qed simp

declare read_body.simps [simp del]

text \<open>What the server reads of a connection; nothing is an empty request.\<close>

definition read_request :: "rx_event list \<Rightarrow> bytes \<times> rx_event list" where
  "read_request es =
     (case recv es 8191 of (r, bs, es1) \<Rightarrow>
        if r \<le> 0 then ([], es1)
        else (let req = c_text bs
              in case strstr req ''Content-Length: '' of
                   None \<Rightarrow> (bs, es1)
                 | Some i \<Rightarrow>
                     (let content_length = atoi (drop (i + 16) req)
                      in case strstr req (CRLF @ CRLF) of
                           None \<Rightarrow> (bs, es1)
                         | Some j \<Rightarrow> read_body es1 bs (int (length bs) - int (j + 4)) content_length)))"

section \<open>Routes\<close>

definition core_route :: "string \<Rightarrow> nat \<Rightarrow> string \<Rightarrow> http_route" where
  "core_route p h d = \<lparr>path = p, route_method = HTTP_METHOD_GET, handler = h, route_module = ''http_core'',
     description = Some d\<rparr>"

definition core_routes :: "http_route list" where
  "core_routes =
     [core_route ''/'' 0 ''API overview page'',
      core_route ''/status.json'' 1 ''System status (JSON)'',
      core_route ''/config.json'' 2 ''Configuration (JSON)'',
      core_route ''/info.json'' 3 ''Hardware info (JSON)'',
      core_route ''/health.json'' 4 ''Health check (JSON)'',
      core_route ''/snap0.jpg'' 5 ''Channel 0 snapshot'',
      core_route ''/snap1.jpg'' 6 ''Channel 1 snapshot'',
      core_route ''/snap2.jpg'' 7 ''Channel 2 snapshot'',
      core_route ''/snap3.jpg'' 8 ''Channel 3 snapshot'',
      core_route ''/test.jpg'' 9 ''Static test file'',
      core_route ''/stream0.mjpeg'' 10 ''Channel 0 MJPEG stream'',
      core_route ''/stream1.mjpeg'' 11 ''Channel 1 MJPEG stream'',
      core_route ''/stream2.mjpeg'' 12 ''Channel 2 MJPEG stream'',
      core_route ''/stream3.mjpeg'' 13 ''Channel 3 MJPEG stream'',
      core_route ''/stream0.h264'' 14 ''Channel 0 H.264 stream'',
      core_route ''/stream1.h264'' 15 ''Channel 1 H.264 stream'',
      core_route ''/stream2.h264'' 16 ''Channel 2 H.264 stream'',
      core_route ''/stream3.h264'' 17 ''Channel 3 H.264 stream'',
      core_route ''/stream0.mp4'' 14 ''Channel 0 MP4 stream'',
      core_route ''/stream1.mp4'' 15 ''Channel 1 MP4 stream'',
      core_route ''/stream2.mp4'' 16 ''Channel 2 MP4 stream'',
      core_route ''/stream3.mp4'' 17 ''Channel 3 MP4 stream'']"

text \<open>The handlers of the table by number, 18 for the fallback of the image grabber.\<close>

definition fallback_route :: "string \<Rightarrow> string \<Rightarrow> http_route" where
  "fallback_route p d = \<lparr>path = p, route_method = HTTP_METHOD_GET, handler = 18, route_module = ''http_fallback'',
     description = Some d\<rparr>"

definition fallback_routes :: "http_route list" where
  "fallback_routes =
     [fallback_route ''/image0.jpg'' ''Channel 0 fallback (PNG as JPEG)'',
      fallback_route ''/image1.jpg'' ''Channel 1 fallback (PNG as JPEG)'',
      fallback_route ''/image0.nv12'' ''Channel 0 NV12 fallback (PNG)'',
      fallback_route ''/image1.nv12'' ''Channel 1 NV12 fallback (PNG)'',
      fallback_route ''/image0.yuyv422'' ''Channel 0 YUYV422 fallback (PNG)'',
      fallback_route ''/image1.yuyv422'' ''Channel 1 YUYV422 fallback (PNG)'']"

definition http_register_core_routes :: "http_router \<Rightarrow> c_int \<times> http_router" where
  "http_register_core_routes rt =
     (case http_router_register_routes rt (Some core_routes) of (ret, rt1) \<Rightarrow> if ret < 0 then (ret, rt1) else (0, rt1))"

definition http_register_image_grab_fallback_routes :: "http_router \<Rightarrow> c_int \<times> http_router" where
  "http_register_image_grab_fallback_routes rt =
     (case http_router_register_routes rt (Some fallback_routes) of (ret, rt1) \<Rightarrow> if ret < 0 then (ret, rt1) else (0, rt1))"

definition minimal_1080p_strip_png :: bytes where
  "minimal_1080p_strip_png =
    [0x89, 0x50, 0x4E, 0x47, 0x0D, 0x0A, 0x1A, 0x0A, 0x00, 0x00, 0x00, 0x0D, 0x49, 0x48, 0x44, 0x52,
     0x00, 0x00, 0x07, 0x80, 0x00, 0x00, 0x04, 0x38, 0x01, 0x00, 0x00, 0x00, 0x00, 0xC0, 0xA8, 0xFC,
     0xEE, 0x00, 0x00, 0x01, 0x13, 0x49, 0x44, 0x41, 0x54, 0x78, 0xDA, 0xED, 0xC1, 0x01, 0x0D, 0x00,
     0x00, 0x00, 0xC2, 0xA0, 0xF7, 0x4F, 0x6D, 0x0F, 0x07, 0x14] @
    replicate 251 0 @
    [0xC0, 0xA7, 0x01, 0xF8, 0xE5, 0x00, 0x01, 0xFC, 0xE1, 0x8F, 0xFE, 0x00, 0x00, 0x00, 0x00, 0x49,
     0x45, 0x4E, 0x44, 0xAE, 0x42, 0x60, 0x82]"

definition fallback_header :: string where
  "fallback_header =
     ''HTTP/1.1 200 OK'' @ CRLF @ ''Content-Type: image/png'' @ CRLF @ ''Content-Length: '' @ decimal 332 @ CRLF @
     ''Connection: close'' @ CRLF @ ''Cache-Control: no-cache'' @ CRLF @ ''X-Image-Source: fallback'' @ CRLF @
     ''X-Image-Dimensions: 1920x1080'' @ CRLF @ CRLF"

definition handle_image_grab_fallback :: "http_out \<Rightarrow> http_out" where
  "handle_image_grab_fallback o1 =
     (case http_send fallback_header o1 of
        (None, o2) \<Rightarrow> o2
      | (Some n, o2) \<Rightarrow> snd (http_send (map byte_char (take 332 minimal_1080p_strip_png)) o2))"

text \<open>
  What the handlers meet: the encoder, by channel; whether a streaming thread can be started; the clock, the
  configuration, the test file; and the handlers of other modules.
\<close>

record http_env =
  env_snapshot :: "nat \<Rightarrow> snapshot_env"
  env_malloc_ok :: bool
  env_thread_ok :: bool
  env_now :: int
  env_uptime :: nat
  env_config :: "json_config option"
  env_file :: "(int \<times> bytes) option"
  env_foreign :: "nat \<Rightarrow> string \<Rightarrow> http_out \<Rightarrow> http_out"

text \<open>A handler: whether a streaming thread has taken over the socket, and what was sent.\<close>

definition http_handler ::
  "http_env \<Rightarrow> http_router \<Rightarrow> c_int \<Rightarrow> nat \<Rightarrow> string \<Rightarrow> http_out \<Rightarrow> (bool \<times> http_out) option" where
  "http_handler env rt port h req o1 =
     (let json = (\<lambda>endpoint. Some (False, handle_json_request rt port (env_config env) (env_now env) (env_uptime env)
                                            endpoint o1))
      in if h = 0 then map_option (\<lambda>o2. (False, o2)) (handle_api_overview_request rt o1)
         else if h = 1 then json ''status'' else if h = 2 then json ''config''
         else if h = 3 then json ''info'' else if h = 4 then json ''health''
         else if h \<le> 8 then map_option (\<lambda>o2. (False, o2)) (handle_snapshot_request (env_snapshot env (h - 5)) (int (h - 5)) o1)
         else if h = 9 then Some (False, handle_test_jpg (env_file env) (env_malloc_ok env) o1)
         else if h \<le> 13 then
           Some (handle_mjpeg_stream (channel_enabled (env_snapshot env (h - 10))) (env_malloc_ok env) (env_thread_ok env)
                   (int (h - 10)) o1)
         else if h \<le> 17 then Some (False, handle_mp4_request (int (h - 14)) o1)
         else if h = 18 then Some (False, handle_image_grab_fallback o1)
         else Some (False, env_foreign env h req o1))"

section \<open>Answering a request\<close>

definition unauthorized_html :: string where
  "unauthorized_html =
     ''<!DOCTYPE html><html><head><title>401 Unauthorized</title></head><body>'' @
     ''<h1>401 - Unauthorized</h1><p>Authentication required.</p></body></html>''"

definition unauthorized_response :: string where
  "unauthorized_response =
     fit 1024 (''HTTP/1.1 401 Unauthorized'' @ CRLF @
       snd (auth_generate_www_authenticate_header (Some ''Thingino Streamer'')) @ CRLF @
       ''Content-Type: text/html'' @ CRLF @ ''Content-Length: '' @ decimal (length unauthorized_html) @ CRLF @
       ''Connection: close'' @ CRLF @ CRLF @ unauthorized_html)"

definition forbidden_html :: string where
  "forbidden_html =
     ''<!DOCTYPE html><html><head><title>403 Forbidden</title></head><body>'' @
     ''<h1>403 - Forbidden</h1><p>Invalid credentials.</p></body></html>''"

definition not_found_html :: string where
  "not_found_html =
     ''<!DOCTYPE html><html><head><title>404 Not Found</title></head><body>'' @
     ''<h1>404 - Not Found</h1><p>The requested path was not found.</p><p><a href='' @ [CHR 0x22] @ ''/'' @ [CHR 0x22] @
     ''>View API documentation</a></p></body></html>''"

text \<open>A connection that was accepted, and what has become of it after its request.\<close>

record http_conn =
  hc_fd :: int
  hc_rx :: "rx_event list"
  hc_peer :: "u32 option"
  hc_out :: http_out

datatype conn_fate = ConnClosed | ConnOpen | ConnStreaming

record http_outcome =
  oc_fate :: conn_fate
  oc_out :: http_out
  oc_handler :: "nat option"

text \<open>\<open>strstr(request, "/onvif/") != NULL\<close>\<close>

definition is_onvif_request :: "string \<Rightarrow> bool" where
  "is_onvif_request req \<longleftrightarrow> strstr req ''/onvif/'' \<noteq> None"

text \<open>
  The request goes to its handler or is answered with 404; \<open>None\<close> is undefined behaviour, of the handler or,
  below, of the check of the credentials.
\<close>

definition left_open :: "http_out \<Rightarrow> http_outcome" where
  "left_open o1 = \<lparr>oc_fate = ConnOpen, oc_out = o1, oc_handler = None\<rparr>"

definition route_request ::
  "http_env \<Rightarrow> http_module_config \<Rightarrow> http_router \<Rightarrow> http_conn \<Rightarrow> string \<Rightarrow> http_outcome option" where
  "route_request env cfg rt c req =
     (case http_router_dispatch rt (Some req) (hc_fd c) of
        (ret, called) \<Rightarrow>
          if ret = 0 then
            (case called of
               None \<Rightarrow> Some (left_open (hc_out c))
             | Some (h, fd, r) \<Rightarrow>
                 map_option (\<lambda>(streaming, o2).
                     \<lparr>oc_fate = (if streaming then ConnStreaming else ConnOpen), oc_out = o2, oc_handler = Some h\<rparr>)
                   (http_handler env rt (http_port cfg) h r (hc_out c)))
          else Some (left_open (http_send_response 404 (Some ''text/html'') (Some not_found_html) (hc_out c))))"

definition http_serve ::
  "http_env \<Rightarrow> http_module_config \<Rightarrow> http_router \<Rightarrow> http_conn \<Rightarrow> http_outcome option" where
  "http_serve env cfg rt c =
     (let closed = \<lparr>oc_fate = ConnClosed, oc_out = hc_out c, oc_handler = None\<rparr>;
          request = fst (read_request (hc_rx c)); req = c_text request
      in if request = [] then Some closed
         else (case auth_get_client_info (\<lambda>fd. hc_peer c) (hc_fd c) of
                 None \<Rightarrow> Some closed
               | Some client \<Rightarrow>
                   (case (if is_onvif_request req then Some AUTH_RESULT_SUCCESS
                          else auth_check_http_request (Some req) (Some (http_auth cfg)) (Some client)) of
                      None \<Rightarrow> None
                    | Some AUTH_RESULT_REQUIRED \<Rightarrow>
                        Some (left_open (snd (http_send unauthorized_response (hc_out c))))
                    | Some AUTH_RESULT_INVALID \<Rightarrow>
                        Some (left_open (http_send_response 403 (Some ''text/html'') (Some forbidden_html) (hc_out c)))
                    | Some AUTH_RESULT_SUCCESS \<Rightarrow> route_request env cfg rt c req
                    | Some AUTH_RESULT_ERROR \<Rightarrow>
                        Some (left_open (http_send_error 500 (Some ''Authentication system error'') (hc_out c))))))"

text \<open>
  The accept loop over the connections that come: the descriptors that neither the loop has closed nor a
  streaming thread has taken over.
\<close>

fun accept_loop ::
  "http_env \<Rightarrow> http_module_config \<Rightarrow> http_router \<Rightarrow> http_conn list \<Rightarrow> int list option" where
  "accept_loop env cfg rt [] = Some []"
| "accept_loop env cfg rt (c # cs) =
     (case http_serve env cfg rt c of
        None \<Rightarrow> None
      | Some oc \<Rightarrow> map_option (\<lambda>fds. if oc_fate oc = ConnOpen then hc_fd c # fds else fds) (accept_loop env cfg rt cs))"

section \<open>Life cycle\<close>

text \<open>
  The module's state with the router, the flag the streaming threads watch, and the descriptors that have been
  closed, in order. \<open>hm_thread\<close> is a thread in its accept loop.
\<close>

record http_state =
  hm_initialized :: bool
  hm_running :: bool
  hm_config :: http_module_config
  hm_thread :: bool
  hm_exit :: bool
  hm_socket :: int
  hm_router :: http_router
  hm_server_running :: bool
  hm_closed :: "int list"

definition zero_http :: http_state where
  "zero_http =
     \<lparr>hm_initialized = False, hm_running = False, hm_config = zero_http_config, hm_thread = False, hm_exit = False,
      hm_socket = 0, hm_router = \<lparr>routes = [], router_initialized = False\<rparr>, hm_server_running = False,
      hm_closed = []\<rparr>"

definition http_module_init :: "http_module_config option \<Rightarrow> http_state \<Rightarrow> c_int \<times> http_state" where
  "http_module_init config s =
     (if hm_initialized s then (0, s)
      else case config of
        None \<Rightarrow> (-1, s)
      | Some c \<Rightarrow> (0, s\<lparr>hm_config := c, hm_socket := -1, hm_exit := False, hm_initialized := True\<rparr>))"

text \<open>The routes of the modules compiled in, each list registered in turn up to the first error.\<close>

fun register_all :: "http_router \<Rightarrow> http_route list list \<Rightarrow> c_int \<times> http_router" where
  "register_all rt [] = (0, rt)"
| "register_all rt (xs # xss) =
     (case http_router_register_routes rt (Some xs) of
        (ret, rt1) \<Rightarrow> if ret < 0 then (-1, rt1) else register_all rt1 xss)"

definition set_router :: "http_router \<Rightarrow> http_state \<Rightarrow> http_state" where
  "set_router rt s = s\<lparr>hm_router := rt\<rparr>"

definition http_module_start ::
  "bool \<Rightarrow> http_route list list \<Rightarrow> bool \<Rightarrow> http_state \<Rightarrow> c_int \<times> http_state" where
  "http_module_start grab_disabled others thread_ok s =
     (if \<not> hm_initialized s then (-1, s)
      else if hm_running s then (0, s)
      else if \<not> http_enabled (hm_config s) then (0, s)
      else
        (let (r0, rt0) = http_router_init (hm_router s) in
         if r0 < 0 then (-1, set_router rt0 s)
         else
           (let (r1, rt1) = http_register_core_routes rt0 in
            if r1 < 0 then (-1, set_router (http_router_cleanup rt1) s)
            else
              (let (r2, rt2) = (if grab_disabled then http_register_image_grab_fallback_routes rt1 else (0, rt1)) in
               if r2 < 0 then (-1, set_router (http_router_cleanup rt2) s)
               else
                 (let (r3, rt3) = register_all rt2 others in
                  if r3 < 0 then (-1, set_router (http_router_cleanup rt3) s)
                  else if \<not> thread_ok then (-1, set_router rt3 (s\<lparr>hm_exit := False\<rparr>))
                  else (0, set_router rt3
                             (s\<lparr>hm_exit := False, hm_running := True, hm_server_running := True,
                               hm_thread := True\<rparr>)))))))"

text \<open>
  The beginning of the thread, with the descriptor \<open>socket\<close> returns: a socket that cannot be bound or listen is
  closed, but its number stays in the state.
\<close>

definition http_thread_open :: "int \<Rightarrow> bool \<Rightarrow> bool \<Rightarrow> http_state \<Rightarrow> http_state" where
  "http_thread_open fd bind_ok listen_ok s =
     (let s1 = s\<lparr>hm_socket := fd\<rparr>
      in if fd < 0 then s1\<lparr>hm_thread := False\<rparr>
         else if \<not> bind_ok then s1\<lparr>hm_closed := hm_closed s1 @ [fd], hm_thread := False\<rparr>
         else if \<not> listen_ok then s1\<lparr>hm_closed := hm_closed s1 @ [fd], hm_thread := False\<rparr>
         else s1)"

text \<open>The end of the thread, when it has seen the flag.\<close>

definition http_thread_end :: "http_state \<Rightarrow> http_state" where
  "http_thread_end s =
     (if hm_thread s then s\<lparr>hm_closed := hm_closed s @ [hm_socket s], hm_thread := False\<rparr> else s)"

definition http_module_stop :: "bool \<Rightarrow> http_state \<Rightarrow> c_int \<times> http_state" where
  "http_module_stop join_ok s =
     (if \<not> hm_running s then (0, s)
      else
        (let s1 = s\<lparr>hm_exit := True\<rparr>;
             s2 = (if 0 \<le> hm_socket s1 then s1\<lparr>hm_closed := hm_closed s1 @ [hm_socket s1], hm_socket := -1\<rparr> else s1);
             s3 = http_thread_end s2
         in if \<not> join_ok then (-1, s3)
            else (0, s3\<lparr>hm_running := False, hm_router := http_router_cleanup (hm_router s3),
                        hm_server_running := False\<rparr>)))"

definition http_module_cleanup :: "bool \<Rightarrow> http_state \<Rightarrow> c_int \<times> http_state" where
  "http_module_cleanup join_ok s =
     (let s1 = (if hm_running s then snd (http_module_stop join_ok s) else s)
      in if \<not> hm_initialized s1 then (0, s1)
         else
           (let s2 = (if 0 \<le> hm_socket s1 then s1\<lparr>hm_closed := hm_closed s1 @ [hm_socket s1]\<rparr> else s1)
            in (0, zero_http\<lparr>hm_router := hm_router s2, hm_server_running := hm_server_running s2,
                             hm_closed := hm_closed s2\<rparr>)))"

section \<open>Reading requests\<close>

lemma read_body_bound: "length request \<le> 8191 \<Longrightarrow> length (fst (read_body es request b n)) \<le> 8191"
proof (induction es request b n rule: read_body.induct)
  case (1 es request b n)
  show ?case
  proof (cases "b < n \<and> length request < 8191")
    case True
    obtain r bs es1 where r: "recv es (8191 - length request) = (r, bs, es1)" by (metis prod.exhaust)
    show ?thesis
    proof (cases "r \<le> 0")
      case False
      with recv_positive [OF r] True have "length (request @ bs) \<le> 8191" by auto
      from "1.IH" [OF True r [symmetric] refl False this] True r False show ?thesis
        by (subst read_body.simps) simp
    qed (use True r "1.prems" in \<open>simp add: read_body.simps [of es]\<close>)
  next
    case False
    then have "read_body es request b n = (request, es)" by (subst read_body.simps) (rule if_not_P)
    with "1.prems" show ?thesis by simp
  qed
qed

text \<open>
  If what is still to come is what the length says, all of it is read, in whatever pieces it comes.
\<close>

lemma read_body_whole:
  assumes "int (length (avail es)) = n - b" and "length request + length (avail es) \<le> 8191"
  shows "fst (read_body es request b n) = request @ avail es"
  using assms
proof (induction es request b n rule: read_body.induct)
  case (1 es request b n)
  show ?case
  proof (cases "b < n")
    case True
    with "1.prems" have room: "b < n \<and> length request < 8191" by auto
    obtain r bs es1 where r: "recv es (8191 - length request) = (r, bs, es1)" by (metis prod.exhaust)
    have pos: "\<not> r \<le> 0"
    proof
      assume "r \<le> 0"
      with recv_nonpositive [OF r] room have "avail es = []" by simp
      with "1.prems"(1) True show False by simp
    qed
    with recv_positive [OF r] room have a: "r = int (length bs)" "avail es = bs @ avail es1" by auto
    have "fst (read_body es1 (request @ bs) (b + r) n) = (request @ bs) @ avail es1"
      using "1.IH" [OF room r [symmetric] refl pos] "1.prems" a by simp
    with room r pos a show ?thesis by (subst read_body.simps) simp
  next
    case False
    with "1.prems"(1) have "int (length (avail es)) \<le> 0" by linarith
    then have "avail es = []" by simp
    with False show ?thesis by (simp add: read_body.simps [of es])
  qed
qed

lemma read_request_bound: "length (fst (read_request es)) \<le> 8191"
proof -
  obtain r bs es1 where r: "recv es 8191 = (r, bs, es1)" by (metis prod.exhaust)
  show ?thesis
  proof (cases "r \<le> 0")
    case False
    with recv_positive [OF r] have "length bs \<le> 8191" by auto
    with read_body_bound [of bs es1] r False show ?thesis
      by (auto simp: read_request_def Let_def split: option.split)
  qed (use r in \<open>simp add: read_request_def\<close>)
qed

lemma strstr_extend:
  assumes "strstr s p = Some i"
  shows "strstr (s @ t) p = Some i"
proof -
  from strstr_bound [OF assms] have i: "i \<le> length s" "starts_with p (drop i s)" by auto
  then have "length (take (length p) (drop i s)) = length p" by (simp add: starts_with_def)
  with i have fits: "i + length p \<le> length s" by simp
  from i fits have "starts_with p (drop i (s @ t))" by (simp add: starts_with_def)
  from strstr_found [OF this] obtain m where m: "m \<le> i" "strstr (s @ t) p = Some m" by blast
  have "\<not> m < i"
  proof
    assume less: "m < i"
    from strstr_bound [OF m(2)] fits less have "starts_with p (drop m s)"
      by (simp add: starts_with_def)
    with strstr_first [OF assms less] show False by simp
  qed
  with m show ?thesis by simp
qed

text \<open>
  A request of a head, which ends at its first empty line, and the body its length field counts, is read
  whole, if the head comes in the first segment.
\<close>

lemma map_byte_char_byte_id: "map byte_char (map char_byte s) = s"
  by (induction s) simp_all

lemma c_text_whole: "CHR 0x00 \<notin> set s \<Longrightarrow> c_text (map char_byte s) = s"
  unfolding c_text_def map_byte_char_byte_id takeWhile_eq_all_conv by metis

text \<open>
  C19. What the server reads of a connection does not depend on how TCP cuts it: a request whose head comes in the
  first segment, with a \<open>Content-Length\<close> field that counts its body, is read whole, in whatever pieces the
  rest of the body arrives, as long as it fits the buffer of 8192 bytes with its terminator.
\<close>

theorem http_request_read:
  assumes "es = RxData (map char_byte (head @ CRLF @ CRLF @ body0)) # es2"
    and "avail es = map char_byte (head @ CRLF @ CRLF @ body)"
    and "CHR 0x00 \<notin> set (head @ body)"
    and "strstr (head @ CRLF @ CRLF) (CRLF @ CRLF) = Some (length head)"
    and "head = pre @ ''Content-Length: '' @ decimal (length body) @ post"
    and "strstr head ''Content-Length: '' = Some (length pre)"
    and "post = [] \<or> \<not> isdigit (hd post)"
    and "length (head @ CRLF @ CRLF @ body) \<le> 8191"
  shows "c_text (fst (read_request es)) = head @ CRLF @ CRLF @ body"
proof -
  let ?first = "head @ CRLF @ CRLF @ body0"
  have ne: "map char_byte ?first \<noteq> []" by simp
  with assms(1,2) have rest: "map char_byte body0 @ avail es2 = map char_byte body" by simp
  then have l: "length body0 + length (avail es2) = length body"
    by (metis length_append length_map)
  have "set (map char_byte body0) \<subseteq> set (map char_byte body)" by (metis rest Un_upper1 set_append)
  then have "set (map byte_char (map char_byte body0)) \<subseteq> set (map byte_char (map char_byte body))"
    by (metis image_mono set_map)
  then have "set body0 \<subseteq> set body" unfolding map_byte_char_byte_id .
  with assms(3) have "CHR 0x00 \<notin> set ?first" by (auto)
  then have req: "c_text (map char_byte ?first) = ?first" by (rule c_text_whole)
  have ends: "strstr ?first (CRLF @ CRLF) = Some (length head)"
    using strstr_extend [OF assms(4), of body0] by simp
  have len: "strstr ?first ''Content-Length: '' = Some (length pre)"
    using strstr_extend [OF assms(6)] by simp
  have "drop (length pre + 16) ?first = decimal (length body) @ (post @ CRLF @ CRLF @ body0)"
    by (simp add: assms(5))
  moreover have "length body < 2 ^ 31" using assms(8) by simp
  moreover have "\<not> isdigit (hd (post @ CRLF @ CRLF @ body0))"
    using assms(7) by (cases post) (auto simp: isdigit_def)
  ultimately have n: "atoi (drop (length pre + 16) ?first) = int (length body)"
    using atoi_decimal [of "length body" "post @ CRLF @ CRLF @ body0"] by simp
  have rc: "recv es 8191 = (int (length ?first), map char_byte ?first, es2)"
    using assms(1,8) l ne by simp
  have "fst (read_request es) = fst (read_body es2 (map char_byte ?first) (int (length ?first) - int (length head + 4))
                                        (int (length body)))"
    using rc ne by (simp only: read_request_def prod.case Let_def req ends len n option.case length_map) simp
  also have "\<dots> = map char_byte ?first @ avail es2"
    using l assms(8) by (intro read_body_whole) (simp_all)
  also have "\<dots> = map char_byte (head @ CRLF @ CRLF @ body)" using rest by simp
  finally have "fst (read_request es) = map char_byte (head @ CRLF @ CRLF @ body)" .
  moreover have "CHR 0x00 \<notin> set (head @ CRLF @ CRLF @ body)" using assms(3) by simp
  then have "c_text (map char_byte (head @ CRLF @ CRLF @ body)) = head @ CRLF @ CRLF @ body" by (rule c_text_whole)
  ultimately show ?thesis by (simp only:)
qed


definition sample_head :: string where
  "sample_head = ''POST /x HTTP/1.1'' @ CRLF @ ''Content-Length: 5''"

theorem http_request_read_witness:
  "c_text (fst (read_request
     [RxData (map char_byte (sample_head @ CRLF @ CRLF @ ''he'')), RxData (map char_byte ''l''),
      RxData (map char_byte ''lo'')])) = sample_head @ CRLF @ CRLF @ ''hello''"
proof (rule http_request_read [of _ sample_head "''he''" _ "''hello''" "''POST /x HTTP/1.1'' @ CRLF" "[]"])
  show "avail [RxData (map char_byte (sample_head @ CRLF @ CRLF @ ''he'')), RxData (map char_byte ''l''),
      RxData (map char_byte ''lo'')] = map char_byte (sample_head @ CRLF @ CRLF @ ''hello'')"
    by simp
  show "CHR 0x00 \<notin> set (sample_head @ ''hello'')" by (simp add: sample_head_def)
  show "strstr (sample_head @ CRLF @ CRLF) (CRLF @ CRLF) = Some (length sample_head)" by code_simp
  show "strstr sample_head ''Content-Length: '' = Some (length (''POST /x HTTP/1.1'' @ CRLF))" by code_simp
  show "sample_head = (''POST /x HTTP/1.1'' @ CRLF) @ ''Content-Length: '' @ decimal (length ''hello'') @ []"
    by code_simp
qed (simp_all add: sample_head_def)

section \<open>Who is served\<close>

text \<open>What becomes of a connection, whatever is asked for.\<close>

lemma handler_streaming:
  "http_handler env rt port h req o1 = Some (streaming, o2) \<Longrightarrow> streaming \<Longrightarrow> 10 \<le> h \<and> h \<le> 13"
  by (auto simp: http_handler_def Let_def split: if_splits)

lemma routed:
  assumes "route_request env cfg rt c req = Some oc"
  shows "oc_fate oc \<noteq> ConnClosed"
    and "oc_fate oc = ConnStreaming \<Longrightarrow> \<exists>h. oc_handler oc = Some h \<and> 10 \<le> h \<and> h \<le> 13"
    and "oc_handler oc = Some h \<Longrightarrow>
      \<exists>p r. extract_path req 256 = Some p \<and> find_route (routes rt) p (extract_method req) = Some r \<and> handler r = h"
proof -
  show "oc_fate oc \<noteq> ConnClosed"
    using assms by (auto simp: route_request_def left_open_def split: prod.splits if_splits option.splits)
  show "oc_fate oc = ConnStreaming \<Longrightarrow> \<exists>h. oc_handler oc = Some h \<and> 10 \<le> h \<and> h \<le> 13"
    using assms by (auto simp: route_request_def left_open_def dest: handler_streaming
        split: prod.splits if_splits option.splits)
  show "oc_handler oc = Some h \<Longrightarrow>
      \<exists>p r. extract_path req 256 = Some p \<and> find_route (routes rt) p (extract_method req) = Some r \<and> handler r = h"
    using assms by (auto simp: route_request_def left_open_def http_router_dispatch_def Let_def
        split: prod.splits if_splits option.splits)
qed

lemma left_open_simps [simp]:
  "oc_fate (left_open o1) = ConnOpen" "oc_out (left_open o1) = o1" "oc_handler (left_open o1) = None"
  by (simp_all add: left_open_def)

text \<open>The ways a connection is served, for case distinctions.\<close>

lemma http_serve_cases:
  assumes "http_serve env cfg rt c = Some oc"
  obtains (closed) "fst (read_request (hc_rx c)) = [] \<or> hc_peer c = None"
      "oc = \<lparr>oc_fate = ConnClosed, oc_out = hc_out c, oc_handler = None\<rparr>"
  | (refused) o2 where "fst (read_request (hc_rx c)) \<noteq> []" "hc_peer c \<noteq> None" "oc = left_open o2"
      "o2 \<in> {snd (http_send unauthorized_response (hc_out c)),
              http_send_response 403 (Some ''text/html'') (Some forbidden_html) (hc_out c),
              http_send_error 500 (Some ''Authentication system error'') (hc_out c)}"
  | (routed) i where "fst (read_request (hc_rx c)) \<noteq> []" "auth_get_client_info (\<lambda>fd. hc_peer c) (hc_fd c) = Some i"
      "is_onvif_request (c_text (fst (read_request (hc_rx c)))) \<or>
        auth_check_http_request (Some (c_text (fst (read_request (hc_rx c))))) (Some (http_auth cfg)) (Some i) =
          Some AUTH_RESULT_SUCCESS"
      "route_request env cfg rt c (c_text (fst (read_request (hc_rx c)))) = Some oc"
proof (cases "fst (read_request (hc_rx c)) = [] \<or> hc_peer c = None")
  case True
  with assms closed show ?thesis
    by (auto simp: http_serve_def Let_def auth_get_client_info_def split: if_splits)
next
  case False
  then obtain i where i: "auth_get_client_info (\<lambda>fd. hc_peer c) (hc_fd c) = Some i"
    by (auto simp: auth_get_client_info_def)
  let ?req = "c_text (fst (read_request (hc_rx c)))"
  let ?a = "if is_onvif_request ?req then Some AUTH_RESULT_SUCCESS
      else auth_check_http_request (Some ?req) (Some (http_auth cfg)) (Some i)"
  from assms False i obtain a where a: "?a = Some a"
    by (cases ?a) (simp_all add: http_serve_def Let_def)
  have out: "\<exists>o2. oc = left_open o2 \<and> o2 \<in> {snd (http_send unauthorized_response (hc_out c)),
        http_send_response 403 (Some ''text/html'') (Some forbidden_html) (hc_out c),
        http_send_error 500 (Some ''Authentication system error'') (hc_out c)}" if "a \<noteq> AUTH_RESULT_SUCCESS"
    using that assms False i a by (cases a) (simp_all add: http_serve_def Let_def, blast+)
  show ?thesis
  proof (cases "a = AUTH_RESULT_SUCCESS")
    case True
    with assms False i a have "route_request env cfg rt c ?req = Some oc" by (simp add: http_serve_def Let_def)
    moreover from a True have "is_onvif_request ?req \<or>
        auth_check_http_request (Some ?req) (Some (http_auth cfg)) (Some i) = Some AUTH_RESULT_SUCCESS"
      by (auto split: if_splits)
    ultimately show ?thesis using routed False i by blast
  qed (use out False refused in blast)
qed

lemma http_serve_fate:
  assumes "http_serve env cfg rt c = Some oc"
  shows "oc_fate oc = ConnClosed \<longleftrightarrow> fst (read_request (hc_rx c)) = [] \<or> hc_peer c = None"
    and "oc_fate oc = ConnStreaming \<Longrightarrow> \<exists>h. oc_handler oc = Some h \<and> 10 \<le> h \<and> h \<le> 13"
  using assms
  by (cases rule: http_serve_cases; auto simp: auth_get_client_info_def dest: routed split: option.splits)+

text \<open>
  A handler is called only for a request whose method and path are a route, and only if the request contains
  \<open>/onvif/\<close>, or is one that needs no credentials, or carries the configured ones.
\<close>

lemma http_serve_handler:
  assumes "http_serve env cfg rt c = Some oc" and "oc_handler oc = Some h"
    and "req = c_text (fst (read_request (hc_rx c)))"
  obtains i p r where "auth_get_client_info (\<lambda>fd. hc_peer c) (hc_fd c) = Some i"
    and "is_onvif_request req \<or> auth_check_http_request (Some req) (Some (http_auth cfg)) (Some i) = Some AUTH_RESULT_SUCCESS"
    and "extract_path req 256 = Some p" and "find_route (routes rt) p (extract_method req) = Some r" and "handler r = h"
  using assms(1)
proof (cases rule: http_serve_cases)
  case (routed i)
  from HttpServer.routed(3) [OF routed(4) assms(2)] that routed(2,3) assms(3) show ?thesis by blast
qed (use assms(2) in auto)


text \<open>
  A dispatch of what is written as a request line.
\<close>

lemma dispatch_found:
  assumes "router_initialized rt" and "find_route (routes rt) p HTTP_METHOD_GET = Some r"
    and "CHR '' '' \<notin> set p" and "CHR ''?'' \<notin> set p" and "CHR '' '' \<notin> set q" and "q = [] \<or> hd q = CHR ''?''"
    and "length (p @ q) < 256"
  shows "http_router_dispatch rt (Some (''GET '' @ p @ q @ CHR '' '' # rest)) fd =
    (0, Some (handler r, fd, ''GET '' @ p @ q @ CHR '' '' # rest))"
proof -
  have e: "''GET '' @ p @ q @ CHR '' '' # rest = method_strings HTTP_METHOD_GET @ CHR '' '' # p @ q @ CHR '' '' # rest"
    by (simp add: method_strings_def)
  have "extract_path (''GET'' @ CHR '' '' # p @ q @ CHR '' '' # rest) 256 = Some p"
    using assms by (intro extract_path_of) simp_all
  then have "extract_path (''GET '' @ p @ q @ CHR '' '' # rest) 256 = Some p" by simp
  moreover have "extract_method (''GET '' @ p @ q @ CHR '' '' # rest) = HTTP_METHOD_GET"
    unfolding e by (rule extract_method_of) simp
  ultimately show ?thesis using assms(1,2) by (simp add: http_router_dispatch_def Let_def)
qed

lemma strstr_any: "strstr (s @ p @ t) p \<noteq> None"
  using strstr_found [of p "length s" "s @ p @ t"] by auto

section \<open>Sample requests\<close>

definition sample_http_env :: http_env where
  "sample_http_env =
     \<lparr>env_snapshot = (\<lambda>channel. sample_snapshot), env_malloc_ok = True, env_thread_ok = True, env_now = 1700000000,
      env_uptime = 60, env_config = None, env_file = None, env_foreign = (\<lambda>h req o1. o1)\<rparr>"

definition sample_http_config :: http_module_config where
  "sample_http_config = http_module_set_defaults\<lparr>http_auth := sample_auth\<rparr>"

definition sample_http_router :: http_router where
  "sample_http_router = \<lparr>routes = fallback_routes, router_initialized = True\<rparr>"

definition sample_conn :: "int \<Rightarrow> u32 option \<Rightarrow> string \<Rightarrow> http_conn" where
  "sample_conn fd peer req = \<lparr>hc_fd = fd, hc_rx = [RxData (map char_byte req)], hc_peer = peer,
     hc_out = \<lparr>out_script = [], out_text = [], out_stack = []\<rparr>\<rparr>"

lemma read_request_plain:
  assumes "req \<noteq> []" and "length req \<le> 8191" and "CHR 0x00 \<notin> set req" and "strstr req ''Content-Length: '' = None"
  shows "fst (read_request (hc_rx (sample_conn fd peer req))) = map char_byte req"
  using assms c_text_whole [OF assms(3)] by (simp add: read_request_def sample_conn_def Let_def)

lemma sample_route:
  "find_route (routes sample_http_router) ''/image0.jpg'' HTTP_METHOD_GET =
     Some (fallback_route ''/image0.jpg'' ''Channel 0 fallback (PNG as JPEG)'')"
  by (simp add: sample_http_router_def fallback_routes_def find_route_def fallback_route_def)

lemma sample_handled:
  "http_handler sample_http_env sample_http_router n (handler (fallback_route p d)) req o1 =
     Some (False, handle_image_grab_fallback o1)"
  by (simp add: http_handler_def fallback_route_def Let_def)

lemma sample_local:
  "http_serve sample_http_env sample_http_config sample_http_router
     (sample_conn 4 (Some 0x7F000001) ''GET /image0.jpg HTTP/1.1'') =
   Some \<lparr>oc_fate = ConnOpen, oc_out = handle_image_grab_fallback \<lparr>out_script = [], out_text = [], out_stack = []\<rparr>,
         oc_handler = Some 18\<rparr>"
proof -
  let ?c = "sample_conn 4 (Some 0x7F000001) ''GET /image0.jpg HTTP/1.1''"
  have req: "fst (read_request (hc_rx ?c)) = map char_byte ''GET /image0.jpg HTTP/1.1''"
    by (rule read_request_plain) code_simp+
  have plain: "c_text (map char_byte ''GET /image0.jpg HTTP/1.1'') = ''GET /image0.jpg HTTP/1.1''"
    by (rule c_text_whole) simp
  have "http_router_dispatch sample_http_router (Some ''GET /image0.jpg HTTP/1.1'') 4 =
      (0, Some (18, 4, ''GET /image0.jpg HTTP/1.1''))"
    using dispatch_found [OF _ sample_route, of "[]" "''HTTP/1.1''" 4]
    by (simp add: sample_http_router_def fallback_route_def)
  then have "route_request sample_http_env sample_http_config sample_http_router ?c ''GET /image0.jpg HTTP/1.1'' =
      Some \<lparr>oc_fate = ConnOpen, oc_out = handle_image_grab_fallback \<lparr>out_script = [], out_text = [], out_stack = []\<rparr>,
            oc_handler = Some 18\<rparr>"
    using sample_handled [of _ "[]" "[]"] by (simp add: route_request_def sample_conn_def fallback_route_def)
  moreover have "auth_get_client_info (\<lambda>fd. hc_peer ?c) (hc_fd ?c) =
      Some \<lparr>client_fd = 4, client_addr = 0x7F000001, is_localhost = True, ip_string = dotted 0x7F000001\<rparr>"
    by (simp add: auth_get_client_info_def sample_conn_def auth_is_localhost_def)
  moreover have "\<not> auth_is_required (Some (http_auth sample_http_config)) (Some
      \<lparr>client_fd = 4, client_addr = 0x7F000001, is_localhost = True, ip_string = dotted 0x7F000001\<rparr>)"
    by (simp add: auth_is_required_def sample_http_config_def http_module_set_defaults_def sample_auth_def)
  ultimately show ?thesis
    by (simp only: http_serve_def Let_def req plain) (simp add: auth_check_http_request_def)
qed

section \<open>Entitlement\<close>

text \<open>
  C5. A handler is called only for a request whose method and path are one of the routes, and only for a client
  that is entitled to it: authentication is off, or bypassed for a client on the same host, or the request
  carries the configured user name and password in Base64, or it contains the string \<open>/onvif/\<close>. User name and
  password are shorter than 63 characters.
\<close>

theorem http_serves_authorised:
  assumes "http_serve env cfg rt c = Some oc" and "oc_handler oc = Some h"
    and "length (auth_username (http_auth cfg)) < 63" and "length (auth_password (http_auth cfg)) < 63"
    and "req = c_text (fst (read_request (hc_rx c)))"
  shows "(\<exists>p r. extract_path req 256 = Some p \<and> find_route (routes rt) p (extract_method req) = Some r \<and> handler r = h) \<and>
    (is_onvif_request req \<or> \<not> auth_enabled (http_auth cfg) \<or>
     (localhost_bypass (http_auth cfg) \<and> auth_is_localhost (hc_peer c)) \<or>
     (\<exists>b bs. extract_auth_header (Some req) = Some (''Basic '' @ b) \<and>
        auth_base64_decode (Some b) = Some (int (length bs), bs) \<and>
        takeWhile (\<lambda>c. c \<noteq> CHR 0x00) (map byte_char bs) =
          auth_username (http_auth cfg) @ '':'' @ auth_password (http_auth cfg)))"
proof -
  from http_serve_handler [OF assms(1,2,5)] obtain i p r where i: "auth_get_client_info (\<lambda>fd. hc_peer c) (hc_fd c) = Some i"
    and ok: "is_onvif_request req \<or>
      auth_check_http_request (Some req) (Some (http_auth cfg)) (Some i) = Some AUTH_RESULT_SUCCESS"
    and r: "extract_path req 256 = Some p" "find_route (routes rt) p (extract_method req) = Some r" "handler r = h"
    by blast
  from i have "is_localhost i = auth_is_localhost (hc_peer c)"
    by (auto simp: auth_get_client_info_def split: option.splits)
  then have "auth_is_required (Some (http_auth cfg)) (Some i) \<or> \<not> auth_enabled (http_auth cfg) \<or>
      (localhost_bypass (http_auth cfg) \<and> auth_is_localhost (hc_peer c))"
    by (auto simp: auth_is_required_def)
  with ok basic_auth_sound [OF _ assms(3,4), of i req] r show ?thesis by blast
qed

theorem http_serves_authorised_witness:
  "\<exists>p r. extract_path ''GET /image0.jpg HTTP/1.1'' 256 = Some p \<and>
     find_route (routes sample_http_router) p (extract_method ''GET /image0.jpg HTTP/1.1'') = Some r \<and> handler r = 18"
proof -
  have "fst (read_request (hc_rx (sample_conn 4 (Some 0x7F000001) ''GET /image0.jpg HTTP/1.1''))) =
      map char_byte ''GET /image0.jpg HTTP/1.1''"
    by (rule read_request_plain) code_simp+
  moreover have "c_text (map char_byte ''GET /image0.jpg HTTP/1.1'') = ''GET /image0.jpg HTTP/1.1''"
    by (rule c_text_whole) simp
  ultimately have "''GET /image0.jpg HTTP/1.1'' =
      c_text (fst (read_request (hc_rx (sample_conn 4 (Some 0x7F000001) ''GET /image0.jpg HTTP/1.1''))))"
    by (simp only:)
  from http_serves_authorised [OF sample_local _ _ _ this, of 18] show ?thesis
    by (simp add: sample_http_config_def http_module_set_defaults_def sample_auth_def)
qed

text \<open>
  The exception is wider than the ONVIF routes: a query of \<open>?/onvif/\<close> behind the path of any route, an
  administrative one included, gives every client the handler without credentials, whatever the
  configuration.
\<close>

theorem http_onvif_bypass:
  assumes "c_text (fst (read_request (hc_rx c))) = ''GET '' @ p @ ''?/onvif/ '' @ rest"
    and "router_initialized rt" and "find_route (routes rt) p HTTP_METHOD_GET = Some r"
    and "CHR '' '' \<notin> set p" and "CHR ''?'' \<notin> set p" and "length p < 248" and "hc_peer c = Some ip"
    and "http_handler env rt (http_port cfg) (handler r) (''GET '' @ p @ ''?/onvif/ '' @ rest) (hc_out c) =
      Some (streaming, o2)"
  shows "http_serve env cfg rt c =
    Some \<lparr>oc_fate = (if streaming then ConnStreaming else ConnOpen), oc_out = o2, oc_handler = Some (handler r)\<rparr>"
proof -
  have ne: "fst (read_request (hc_rx c)) \<noteq> []" using assms(1) by (auto simp: c_text_def)
  have onvif: "is_onvif_request (''GET '' @ p @ ''?/onvif/ '' @ rest)"
    using strstr_any [of "''GET '' @ p @ ''?''" "''/onvif/''" "CHR '' '' # rest"]
    by (simp only: is_onvif_request_def append_assoc append_Cons append_Nil not_False_eq_True)
  have "http_router_dispatch rt (Some (''GET '' @ p @ ''?/onvif/ '' @ rest)) (hc_fd c) =
      (0, Some (handler r, hc_fd c, ''GET '' @ p @ ''?/onvif/ '' @ rest))"
    using dispatch_found [OF assms(2-5), of "''?/onvif/''" rest "hc_fd c"] assms(6) by simp
  with assms(8) have "route_request env cfg rt c (''GET '' @ p @ ''?/onvif/ '' @ rest) =
      Some \<lparr>oc_fate = (if streaming then ConnStreaming else ConnOpen), oc_out = o2, oc_handler = Some (handler r)\<rparr>"
    by (simp add: route_request_def)
  with ne onvif assms(1,7) show ?thesis by (simp add: http_serve_def Let_def auth_get_client_info_def)
qed

theorem http_onvif_bypass_witness:
  "http_serve sample_http_env sample_http_config sample_http_router
     (sample_conn 4 (Some 0xC0A80007) ''GET /image0.jpg?/onvif/ HTTP/1.1'') =
   Some \<lparr>oc_fate = (if False then ConnStreaming else ConnOpen),
         oc_out = handle_image_grab_fallback \<lparr>out_script = [], out_text = [], out_stack = []\<rparr>,
         oc_handler = Some (handler (fallback_route ''/image0.jpg'' ''Channel 0 fallback (PNG as JPEG)''))\<rparr>"
proof (rule http_onvif_bypass [of _ "''/image0.jpg''" "''HTTP/1.1''"])
  have req: "fst (read_request (hc_rx (sample_conn 4 (Some 0xC0A80007) ''GET /image0.jpg?/onvif/ HTTP/1.1''))) =
      map char_byte ''GET /image0.jpg?/onvif/ HTTP/1.1''"
    by (rule read_request_plain) code_simp+
  have "c_text (map char_byte ''GET /image0.jpg?/onvif/ HTTP/1.1'') = ''GET /image0.jpg?/onvif/ HTTP/1.1''"
    by (rule c_text_whole) simp
  then show "c_text (fst (read_request (hc_rx (sample_conn 4 (Some 0xC0A80007) ''GET /image0.jpg?/onvif/ HTTP/1.1'')))) =
      ''GET '' @ ''/image0.jpg'' @ ''?/onvif/ '' @ ''HTTP/1.1''"
    by (simp only: req append_Cons append_Nil)
  show "hc_peer (sample_conn 4 (Some 0xC0A80007) ''GET /image0.jpg?/onvif/ HTTP/1.1'') = Some 0xC0A80007"
    by (simp add: sample_conn_def)
  show "http_handler sample_http_env sample_http_router (http_port sample_http_config)
      (handler (fallback_route ''/image0.jpg'' ''Channel 0 fallback (PNG as JPEG)''))
      (''GET '' @ ''/image0.jpg'' @ ''?/onvif/ '' @ ''HTTP/1.1'')
      (hc_out (sample_conn 4 (Some 0xC0A80007) ''GET /image0.jpg?/onvif/ HTTP/1.1'')) =
    Some (False, handle_image_grab_fallback \<lparr>out_script = [], out_text = [], out_stack = []\<rparr>)"
    by (simp add: sample_handled sample_conn_def)
qed (use sample_route in \<open>simp_all add: sample_http_router_def\<close>)

text \<open>
  The thread never closes the socket of a request it has answered: of the connections it accepts, only those
  that send nothing or whose peer is unknown are closed; with no MJPEG route in the table every other one
  stays open, so that as many descriptors are lost as requests are answered.
\<close>

theorem http_descriptors_leak:
  assumes "accept_loop env cfg rt cs = Some fds" and "\<forall>r \<in> set (routes rt). handler r < 10 \<or> 13 < handler r"
  shows "fds = map hc_fd (filter (\<lambda>c. fst (read_request (hc_rx c)) \<noteq> [] \<and> hc_peer c \<noteq> None) cs)"
  using assms(1)
proof (induction cs arbitrary: fds)
  case (Cons c cs)
  then obtain oc fds1 where oc: "http_serve env cfg rt c = Some oc" "accept_loop env cfg rt cs = Some fds1"
    and fds: "fds = (if oc_fate oc = ConnOpen then hc_fd c # fds1 else fds1)"
    by (auto split: option.splits)
  have "oc_fate oc \<noteq> ConnStreaming"
  proof
    assume "oc_fate oc = ConnStreaming"
    with http_serve_fate(2) [OF oc(1)] obtain h where h: "oc_handler oc = Some h" "10 \<le> h" "h \<le> 13" by blast
    from http_serve_handler [OF oc(1) h(1) refl] obtain p r where "find_route (routes rt) p (extract_method
        (c_text (fst (read_request (hc_rx c))))) = Some r" "handler r = h" by blast
    with find_route_Some assms(2) h(2,3) show False by fastforce
  qed
  with http_serve_fate(1) [OF oc(1)] have "oc_fate oc = ConnOpen \<longleftrightarrow>
      fst (read_request (hc_rx c)) \<noteq> [] \<and> hc_peer c \<noteq> None"
    by (cases "oc_fate oc") auto
  with Cons.IH [OF oc(2)] fds show ?case by simp
qed simp


lemma sample_silent:
  "http_serve env cfg rt \<lparr>hc_fd = fd, hc_rx = [], hc_peer = peer, hc_out = o1\<rparr> =
     Some \<lparr>oc_fate = ConnClosed, oc_out = o1, oc_handler = None\<rparr>"
  by (simp add: http_serve_def read_request_def)

theorem http_descriptors_leak_witness:
  "accept_loop sample_http_env sample_http_config sample_http_router
     [sample_conn 4 (Some 0x7F000001) ''GET /image0.jpg HTTP/1.1'',
      \<lparr>hc_fd = 5, hc_rx = [], hc_peer = Some 0x7F000001, hc_out = \<lparr>out_script = [], out_text = [], out_stack = []\<rparr>\<rparr>] = Some [4] \<and>
   [4] = map hc_fd (filter (\<lambda>c. fst (read_request (hc_rx c)) \<noteq> [] \<and> hc_peer c \<noteq> None)
     [sample_conn 4 (Some 0x7F000001) ''GET /image0.jpg HTTP/1.1'',
      \<lparr>hc_fd = 5, hc_rx = [], hc_peer = Some 0x7F000001, hc_out = \<lparr>out_script = [], out_text = [], out_stack = []\<rparr>\<rparr>])"
proof -
  have a: "accept_loop sample_http_env sample_http_config sample_http_router
     [sample_conn 4 (Some 0x7F000001) ''GET /image0.jpg HTTP/1.1'',
      \<lparr>hc_fd = 5, hc_rx = [], hc_peer = Some 0x7F000001, hc_out = \<lparr>out_script = [], out_text = [], out_stack = []\<rparr>\<rparr>] = Some [4]"
    by (simp add: sample_local sample_silent) (simp add: sample_conn_def)
  have "\<forall>r \<in> set (routes sample_http_router). handler r < 10 \<or> 13 < handler r"
    by (simp add: sample_http_router_def fallback_routes_def fallback_route_def)
  from http_descriptors_leak [OF a this] a show ?thesis by (rule conjI [OF _ , rotated])
qed

text \<open>A text that is an answer with a status: its line, and a body, not empty, that the length field counts.\<close>

definition answers_with :: "c_int \<Rightarrow> string \<Rightarrow> bool" where
  "answers_with status s \<longleftrightarrow>
     starts_with (''HTTP/1.1 '' @ decimal_int status @ '' '' @ http_get_status_text status @ CRLF) s \<and>
     (case read_response s of None \<Rightarrow> False | Some (n, body) \<Rightarrow> body \<noteq> [] \<and> n = int (length body))"

lemma response_answers:
  assumes "out_script o1 = []" and "out_text o1 = []" and "status \<noteq> 201" and "status \<noteq> 204"
    and "CHR ''C'' \<notin> set t" and "CHR 0x0D \<notin> set t" and "length b < 2 ^ 31" and "b \<noteq> []"
    and "0 \<le> status" and "status < 1000" and "length t \<le> 100"
  shows "answers_with status (out_text (http_send_response status (Some t) (Some b) o1))"
proof -
  have e: "out_text (http_send_response status (Some t) (Some b) o1) = response_header status (Some t) (length b) @ b"
    using http_send_response_text [OF assms(1)] assms(2) http_headers_fit [of status "length b" "Some t"] assms(7,9-11)
    by (simp add: sent_buffer_def int_range_def)
  have "\<exists>r. response_header status (Some t) (length b) @ b =
      (''HTTP/1.1 '' @ decimal_int status @ '' '' @ http_get_status_text status @ CRLF) @ r"
    unfolding response_header_def append_assoc by blast
  then have "starts_with (''HTTP/1.1 '' @ decimal_int status @ '' '' @ http_get_status_text status @ CRLF)
      (response_header status (Some t) (length b) @ b)"
    by (metis starts_with_append)
  then show ?thesis
    unfolding e answers_with_def read_response_text [OF assms(3-7)] using assms(8) by simp
qed

lemma unauthorized_answers: "answers_with 401 unauthorized_response"
  by code_simp

lemma short_pages: "length forbidden_html < 2 ^ 31 \<and> forbidden_html \<noteq> []" "length not_found_html < 2 ^ 31 \<and> not_found_html \<noteq> []"
  by (simp_all add: forbidden_html_def not_found_html_def)

text \<open>
  A client that is refused gets a complete answer that says why: whenever a connection is answered without a
  handler, what is sent is a response with status 401, 403, 404 or 500 whose length field counts its body.
\<close>

theorem http_refusal_framed:
  assumes "http_serve env cfg rt c = Some oc" and "oc_handler oc = None" and "oc_fate oc \<noteq> ConnClosed"
    and "hc_out c = \<lparr>out_script = [], out_text = [], out_stack = []\<rparr>"
  shows "\<exists>status \<in> {401, 403, 404, 500}. answers_with status (out_text (oc_out oc))"
  using assms(1)
proof (cases rule: http_serve_cases)
  case (refused o2)
  have "http_send_error 500 (Some ''Authentication system error'') (hc_out c) =
      http_send_response 500 (Some ''text/plain'') (Some ''Authentication system error'') (hc_out c)"
    by (simp add: http_send_error_def fit_id)
  with refused(3,4) assms(4) unauthorized_answers short_pages(1)
    response_answers [of "hc_out c" 403 "''text/html''" forbidden_html]
    response_answers [of "hc_out c" 500 "''text/plain''" "''Authentication system error''"]
  show ?thesis by auto
next
  case (routed i)
  then have "oc = left_open (http_send_response 404 (Some ''text/html'') (Some not_found_html) (hc_out c))"
    using assms(2) by (auto simp: route_request_def http_router_dispatch_def Let_def
        split: prod.splits if_splits option.splits)
  with assms(4) short_pages(2) response_answers [of "hc_out c" 404 "''text/html''" not_found_html]
  show ?thesis by auto
qed (use assms(3) in simp)


lemma sample_refused:
  "http_serve sample_http_env sample_http_config sample_http_router
     (sample_conn 4 (Some 0xC0A80007) ''GET /image0.jpg HTTP/1.1'') =
   Some (left_open \<lparr>out_script = [], out_text = unauthorized_response, out_stack = []\<rparr>)"
proof -
  let ?c = "sample_conn 4 (Some 0xC0A80007) ''GET /image0.jpg HTTP/1.1''"
  have req: "fst (read_request (hc_rx ?c)) = map char_byte ''GET /image0.jpg HTTP/1.1''"
    by (rule read_request_plain) code_simp+
  have plain: "c_text (map char_byte ''GET /image0.jpg HTTP/1.1'') = ''GET /image0.jpg HTTP/1.1''"
    by (rule c_text_whole) simp
  have "\<not> is_onvif_request ''GET /image0.jpg HTTP/1.1''" "extract_auth_header (Some ''GET /image0.jpg HTTP/1.1'') = None"
    by code_simp+
  then show ?thesis
    by (simp only: http_serve_def Let_def req plain)
      (simp add: auth_get_client_info_def sample_conn_def auth_is_localhost_def auth_check_http_request_def
        auth_is_required_def auth_validate_basic_def sample_http_config_def http_module_set_defaults_def sample_auth_def)
qed

theorem http_refusal_framed_witness:
  "\<exists>status \<in> {401, 403, 404, 500}. answers_with status unauthorized_response"
  using http_refusal_framed [OF sample_refused] by (simp add: sample_conn_def)

section \<open>The life of the module\<close>

text \<open>Everything that happens to the module, in any order.\<close>

datatype http_event =
  HttpInit "http_module_config option" | HttpStart bool "http_route list list" bool | HttpOpen int bool bool
| HttpStop bool | HttpCleanup bool

definition http_step :: "http_state \<Rightarrow> http_event \<Rightarrow> http_state" where
  "http_step s e =
     (case e of
        HttpInit c \<Rightarrow> snd (http_module_init c s)
      | HttpStart grab_disabled others thread_ok \<Rightarrow> snd (http_module_start grab_disabled others thread_ok s)
      | HttpOpen fd bind_ok listen_ok \<Rightarrow> (if hm_thread s then http_thread_open fd bind_ok listen_ok s else s)
      | HttpStop join_ok \<Rightarrow> snd (http_module_stop join_ok s)
      | HttpCleanup join_ok \<Rightarrow> snd (http_module_cleanup join_ok s))"

text \<open>A router that knows a list of routes by their paths and methods.\<close>

definition knows :: "http_router \<Rightarrow> http_route list \<Rightarrow> bool" where
  "knows rt xs \<longleftrightarrow> router_initialized rt \<and> route_key ` set xs \<subseteq> dom (route_lookup rt)"

definition http_inv :: "http_state \<Rightarrow> bool" where
  "http_inv s \<longleftrightarrow>
     router_inv (hm_router s) \<and> (hm_thread s \<longrightarrow> hm_running s) \<and>
     (hm_running s \<longrightarrow> hm_initialized s \<and> hm_server_running s \<and> http_enabled (hm_config s) \<and>
        knows (hm_router s) core_routes)"

lemma register_grows:
  assumes "router_inv rt" and "http_router_register_routes rt (Some xs) = (ret, rt1)"
  shows "router_inv rt1" and "knows rt ys \<Longrightarrow> knows rt1 ys"
proof -
  let ?kvs = "map (\<lambda>x. (route_key x, (handler x, route_module x, description x))) xs"
  have add: "router.add_list rt ?kvs = (ret, rt1)"
    using assms(2) by (simp add: http_router_register_routes_def register_route_list_add)
  from router.add_list_inv [OF assms(1) add] show "router_inv rt1" .
  have "router_initialized rt1 = router_initialized rt"
    using assms(2) by (intro register_route_list_initialized(1)) (simp add: http_router_register_routes_def)
  with router.add_list_grows [OF assms(1) add] show "knows rt ys \<Longrightarrow> knows rt1 ys"
    unfolding knows_def by blast
qed

lemma register_code: "http_router_register_routes rt (Some xs) = (ret, rt1) \<Longrightarrow> ret = 0 \<or> ret < 0"
  unfolding http_router_register_routes_def option.case
  by (induction rt xs rule: register_route_list.induct) (auto split: prod.splits if_splits)

lemma register_all_grows:
  "router_inv rt \<Longrightarrow> register_all rt xss = (ret, rt1) \<Longrightarrow> router_inv rt1 \<and> (knows rt ys \<longrightarrow> knows rt1 ys)"
proof (induction rt xss rule: register_all.induct)
  case (2 rt xs xss)
  obtain r rt2 where r: "http_router_register_routes rt (Some xs) = (r, rt2)" by (metis prod.exhaust)
  note grows = register_grows [OF "2.prems"(1) r]
  with 2 r show ?case by (auto split: if_splits)
qed simp

lemma core_routes_distinct: "distinct (map route_key core_routes)"
  by code_simp

lemma core_registered:
  assumes "router_inv rt" and "http_register_core_routes rt = (ret, rt1)"
  shows "router_inv rt1" and "\<not> ret < 0 \<Longrightarrow> knows rt1 core_routes"
proof -
  obtain r rt2 where r: "http_router_register_routes rt (Some core_routes) = (r, rt2)" by (metis prod.exhaust)
  with assms(2) have "rt1 = rt2" "ret < 0 \<longleftrightarrow> r < 0"
    by (auto simp: http_register_core_routes_def split: if_splits)
  with register_grows(1) [OF assms(1) r] show "router_inv rt1" by simp
  let ?kvs = "map (\<lambda>x. (route_key x, (handler x, route_module x, description x))) core_routes"
  assume "\<not> ret < 0"
  with register_code [OF r] \<open>ret < 0 \<longleftrightarrow> r < 0\<close> r have r0: "http_router_register_routes rt (Some core_routes) = (0, rt2)"
    by auto
  then have add: "router.add_list rt ?kvs = (0, rt2)"
    by (simp add: http_router_register_routes_def register_route_list_add)
  have "map fst ?kvs = map route_key core_routes" by (simp add: comp_def)
  then have d: "distinct (map fst ?kvs)" using core_routes_distinct by (simp only:)
  have "route_key x \<in> dom (route_lookup rt2)" if "x \<in> set core_routes" for x
  proof -
    from that have "(route_key x, (handler x, route_module x, description x)) \<in> set ?kvs" by auto
    from router.add_list_finds [OF assms(1) add d this] show ?thesis by blast
  qed
  moreover have "router_initialized rt2"
    using r0 by (intro register_route_list_initialized(2) [of rt core_routes 0])
      (simp_all add: http_router_register_routes_def core_routes_def)
  ultimately show "knows rt1 core_routes" using \<open>rt1 = rt2\<close> unfolding knows_def by blast
qed


lemma router_inv_init: "router_inv rt \<Longrightarrow> router_inv (snd (http_router_init rt))"
  by (simp add: http_router_init_def router_inv_def)

lemma router_inv_cleanup: "router_inv (http_router_cleanup rt)"
  by (simp add: http_router_cleanup_def router_inv_def)

lemma http_state_routed [simp]:
  "hm_router (set_router rt s) = rt" "hm_running (set_router rt s) = hm_running s"
  "hm_initialized (set_router rt s) = hm_initialized s" "hm_thread (set_router rt s) = hm_thread s"
  "hm_server_running (set_router rt s) = hm_server_running s" "hm_config (set_router rt s) = hm_config s"
  by (simp_all add: set_router_def)

lemma inv_stopped:
  "\<not> hm_running s \<Longrightarrow> http_inv s \<longleftrightarrow> router_inv (hm_router s) \<and> \<not> hm_thread s"
  by (auto simp: http_inv_def)

lemma start_inv:
  assumes "http_inv s"
  shows "http_inv (snd (http_module_start g others t s))"
proof (cases "hm_initialized s \<and> \<not> hm_running s \<and> http_enabled (hm_config s)")
  case True
  with assms have inv: "router_inv (hm_router s)" "\<not> hm_thread s" by (simp_all add: inv_stopped)
  obtain rt0 where r0: "http_router_init (hm_router s) = (0, rt0)"
    by (cases "router_initialized (hm_router s)") (simp_all add: http_router_init_def)
  with router_inv_init [OF inv(1)] have i0: "router_inv rt0" by simp
  obtain r1 rt1 where r1: "http_register_core_routes rt0 = (r1, rt1)" by (metis prod.exhaust)
  note core = core_registered [OF i0 r1]
  obtain r2 rt2 where r2: "(if g then http_register_image_grab_fallback_routes rt1 else (0, rt1)) = (r2, rt2)"
    by (metis prod.exhaust)
  obtain r rt' where r: "http_router_register_routes rt1 (Some fallback_routes) = (r, rt')" by (metis prod.exhaust)
  from register_grows [OF core(1) r] r r2 core(1) have fb: "router_inv rt2" "knows rt1 core_routes \<Longrightarrow> knows rt2 core_routes"
    by (auto simp: http_register_image_grab_fallback_routes_def split: if_splits)
  obtain r3 rt3 where r3: "register_all rt2 others = (r3, rt3)" by (metis prod.exhaust)
  from register_all_grows [OF fb(1) r3, of core_routes]
  have rest: "router_inv rt3" "knows rt2 core_routes \<Longrightarrow> knows rt3 core_routes" by simp_all
  consider "r1 < 0" | "\<not> r1 < 0" "r2 < 0" | "\<not> r1 < 0" "\<not> r2 < 0" "r3 < 0"
    | "\<not> r1 < 0" "\<not> r2 < 0" "\<not> r3 < 0" "\<not> t" | "\<not> r1 < 0" "\<not> r2 < 0" "\<not> r3 < 0" "t" by blast
  then show ?thesis
  proof cases
    case 5
    then have "knows rt3 core_routes" using core(2) fb(2) rest(2) by blast
    with 5 True r0 r1 r2 r3 rest(1) show ?thesis
      by (simp add: http_module_start_def Let_def http_inv_def set_router_def)
  qed (use True r0 r1 r2 r3 rest inv(2) in
      \<open>simp_all add: http_module_start_def Let_def inv_stopped router_inv_cleanup set_router_def\<close>)
next
  case False
  with assms show ?thesis by (auto simp: http_module_start_def)
qed

lemma thread_end_simps [simp]:
  "hm_thread (http_thread_end s) = False" "hm_router (http_thread_end s) = hm_router s"
  "hm_running (http_thread_end s) = hm_running s" "hm_initialized (http_thread_end s) = hm_initialized s"
  "hm_server_running (http_thread_end s) = hm_server_running s" "hm_config (http_thread_end s) = hm_config s"
  by (simp_all add: http_thread_end_def)

lemma stop_inv:
  assumes "http_inv s"
  shows "http_inv (snd (http_module_stop join_ok s))"
proof (cases "hm_running s \<and> join_ok")
  case True
  then show ?thesis
    by (simp add: http_module_stop_def Let_def inv_stopped router_inv_cleanup)
next
  case False
  with assms show ?thesis by (auto simp: http_module_stop_def Let_def http_inv_def)
qed

lemma step_inv:
  assumes "http_inv s"
  shows "http_inv (http_step s e)"
proof (cases e)
  case (HttpInit c)
  with assms show ?thesis
    by (cases c) (auto simp: http_step_def http_module_init_def http_inv_def)
next
  case (HttpStart g others t)
  with start_inv [OF assms] show ?thesis by (simp add: http_step_def)
next
  case (HttpOpen fd b l)
  with assms show ?thesis by (simp add: http_step_def http_thread_open_def Let_def http_inv_def)
next
  case (HttpStop j)
  with stop_inv [OF assms] show ?thesis by (simp add: http_step_def)
next
  case (HttpCleanup j)
  define s1 where "s1 = (if hm_running s then snd (http_module_stop j s) else s)"
  have inv: "http_inv s1" using stop_inv [OF assms] assms by (simp add: s1_def)
  then have "router_inv (hm_router s1)" by (simp add: http_inv_def)
  then have "http_inv (zero_http\<lparr>hm_router := hm_router s1, hm_server_running := b, hm_closed := fds\<rparr>)" for b fds
    by (simp add: http_inv_def zero_http_def)
  with inv HttpCleanup show ?thesis
    by (simp add: http_step_def http_module_cleanup_def Let_def s1_def [symmetric])
qed

interpretation http_life: event_machine "\<lambda>s. s = zero_http" http_step http_inv
  by unfold_locales (simp_all add: step_inv, simp add: http_inv_def zero_http_def router_inv_def)


text \<open>
  While the module runs, after whatever sequence of initialisations, starts (with other modules' routes, a
  failing registration or thread creation), opened sockets, stops and clean-ups, it is initialised and enabled
  and every one of the 22 core routes is answered by a handler.
\<close>

theorem http_core_routes_served:
  assumes "s = foldl http_step zero_http es" and "hm_running s" and "x \<in> set core_routes"
  shows "hm_initialized s \<and> http_enabled (hm_config s) \<and>
    (\<exists>h. http_router_dispatch (hm_router s) (Some (''GET '' @ path x @ '' HTTP/1.1'' @ rest)) fd =
       (0, Some (h, fd, ''GET '' @ path x @ '' HTTP/1.1'' @ rest)))"
proof -
  have "http_inv s" unfolding assms(1) by (rule http_life.inv_reached) (rule refl)
  with assms(2) have s: "hm_initialized s" "http_enabled (hm_config s)" "knows (hm_router s) core_routes"
    by (simp_all add: http_inv_def)
  have "list_all (\<lambda>x. route_method x = HTTP_METHOD_GET \<and> CHR '' '' \<notin> set (path x) \<and> CHR ''?'' \<notin> set (path x) \<and>
      length (path x) < 256) core_routes"
    by code_simp
  with assms(3) have x: "route_method x = HTTP_METHOD_GET" "CHR '' '' \<notin> set (path x)" "CHR ''?'' \<notin> set (path x)"
    "length (path x) < 256"
    by (auto simp: list_all_iff)
  from s(3) assms(3) x(1) have "(path x, HTTP_METHOD_GET) \<in> dom (route_lookup (hm_router s))" "router_initialized (hm_router s)"
    by (auto simp: knows_def route_key_def)
  then obtain r where "find_route (routes (hm_router s)) (path x) HTTP_METHOD_GET = Some r"
    by (auto simp: route_lookup_def)
  from dispatch_found [OF \<open>router_initialized (hm_router s)\<close> this x(2,3), of "[]" "''HTTP/1.1'' @ rest" fd] x(4) s
  show ?thesis by simp
qed

definition sample_started :: http_state where
  "sample_started =
     foldl http_step zero_http [HttpInit (Some http_module_set_defaults), HttpStart True [sample_routes] True]"

theorem http_core_routes_served_witness:
  "\<exists>h. http_router_dispatch (hm_router sample_started) (Some ''GET /snap1.jpg HTTP/1.1'') 7 =
     (0, Some (h, 7, ''GET /snap1.jpg HTTP/1.1''))"
proof -
  have "hm_running sample_started" by code_simp
  moreover have "core_routes ! 6 \<in> set core_routes" "path (core_routes ! 6) = ''/snap1.jpg''" by code_simp+
  ultimately show ?thesis
    using http_core_routes_served [OF sample_started_def, of "core_routes ! 6" "[]" 7] by simp
qed

text \<open>
  A socket that cannot be bound is closed by the thread, and its descriptor, by then possibly another file's,
  closed again when the module is stopped.
\<close>

lemma failed_bind_closes_twice:
  assumes "hm_running s" and "hm_thread s" and "0 \<le> fd"
  shows "hm_closed (snd (http_module_stop join_ok (http_thread_open fd False listen_ok s))) = hm_closed s @ [fd, fd]"
  using assms by (cases join_ok) (simp_all add: http_module_stop_def http_thread_open_def Let_def http_thread_end_def)

text \<open>
  The defaults of the module are never applied: with a document that has no member the parser leaves the zeroed
  configuration, and a module started with it does nothing and reports success.
\<close>

lemma empty_document_disables:
  assumes "\<forall>k. json_get J j k = None" and "http_module_config_parse J (Some j) (Some zero_http_config) = (r, c)"
  shows "(r, c) = (0, Some zero_http_config) \<and>
    http_module_start g others t (snd (http_module_init c zero_http)) = (0, snd (http_module_init c zero_http))"
proof -
  have "http_module_config_parse J (Some j) (Some zero_http_config) = (0, Some zero_http_config)"
    using assms(1) by (simp add: http_module_config_parse_def if_member_def)
  with assms(2) show ?thesis
    by (auto simp: http_module_init_def zero_http_def http_module_start_def zero_http_config_def)
qed

text \<open>The picture of the fallback is the 332 bytes its header counts.\<close>

lemma fallback_framed:
  "out_text (handle_image_grab_fallback \<lparr>out_script = [], out_text = [], out_stack = []\<rparr>) =
     fallback_header @ map byte_char minimal_1080p_strip_png \<and> length minimal_1080p_strip_png = 332"
proof -
  have "length minimal_1080p_strip_png = 332" by (simp add: minimal_1080p_strip_png_def)
  then show ?thesis by (simp add: handle_image_grab_fallback_def)
qed

end
