(* ===== verification/Photosensing.thy ===== *)
theory Photosensing
  imports JsonConfig
begin

text \<open>
  \<open>photosensing_module.c\<close>: the module that switches between day and night by the exposure the image
  signal processor reports, its configuration, its life cycle and the control of the IR cut filter through
  GPIO files. The vendor library is a parameter: what its calls report comes with each poll as a
  \<open>reading\<close>, what is asked of it is recorded, and its running mode is the one set last, by this module or
  by other code. Brightness values and gains are unsigned integers that the code converts to \<open>float\<close>.
\<close>

section \<open>Configuration\<close>

record photosensing_module_config =
  ps_enabled :: bool
  night_iso_threshold :: cfloat
  night_count_threshold :: c_int
  day_iso_threshold :: cfloat
  day_gb_gain_offset :: cfloat
  day_gb_gain_threshold :: cfloat
  day_iso_secondary_threshold :: cfloat
  day_count_threshold :: c_int
  polling_interval_ms :: c_int
  ircut_enabled :: bool
  ircut_day_state :: c_int
  ircut_night_state :: c_int
  ircut_gpio1 :: c_int
  ircut_gpio2 :: c_int
  gb_gain_record_init :: cfloat
  gr_gain_record_init :: cfloat
  debug_logging :: bool

definition photosensing_defaults :: photosensing_module_config where
  "photosensing_defaults =
     \<lparr>ps_enabled = True, night_iso_threshold = float_of_int 1900000, night_count_threshold = 5,
      day_iso_threshold = float_of_int 479832, day_gb_gain_offset = float_of_int 15,
      day_gb_gain_threshold = float_of_int 145, day_iso_secondary_threshold = float_of_int 361880,
      day_count_threshold = 3, polling_interval_ms = 1000, ircut_enabled = True, ircut_day_state = 1,
      ircut_night_state = 0, ircut_gpio1 = -1, ircut_gpio2 = -1, gb_gain_record_init = float_of_int 200,
      gr_gain_record_init = float_of_int 200, debug_logging = False\<rparr>"

text \<open>A null pointer for the document or the buffer is -1.\<close>

definition photosensing_module_config_parse ::
  "'j json_c \<Rightarrow> 'j option \<Rightarrow> bool \<Rightarrow> c_int \<times> photosensing_module_config option" where
  "photosensing_module_config_parse J json config =
     (case json of
        None \<Rightarrow> (-1, None)
      | Some j \<Rightarrow>
          if \<not> config then (-1, None)
          else
            (let c0 = photosensing_defaults;
                 c1 = if_member J j ''enabled'' (\<lambda>v c. c\<lparr>ps_enabled := json_boolean J v\<rparr>) c0;
                 c2 = if_member J j ''night_iso_threshold''
                        (\<lambda>v c. c\<lparr>night_iso_threshold := to_float (json_double J v)\<rparr>) c1;
                 c3 = if_member J j ''night_count_threshold'' (\<lambda>v c. c\<lparr>night_count_threshold := json_int J v\<rparr>) c2;
                 c4 = if_member J j ''day_iso_threshold''
                        (\<lambda>v c. c\<lparr>day_iso_threshold := to_float (json_double J v)\<rparr>) c3;
                 c5 = if_member J j ''day_gb_gain_offset''
                        (\<lambda>v c. c\<lparr>day_gb_gain_offset := to_float (json_double J v)\<rparr>) c4;
                 c6 = if_member J j ''day_gb_gain_threshold''
                        (\<lambda>v c. c\<lparr>day_gb_gain_threshold := to_float (json_double J v)\<rparr>) c5;
                 c7 = if_member J j ''day_iso_secondary_threshold''
                        (\<lambda>v c. c\<lparr>day_iso_secondary_threshold := to_float (json_double J v)\<rparr>) c6;
                 c8 = if_member J j ''day_count_threshold'' (\<lambda>v c. c\<lparr>day_count_threshold := json_int J v\<rparr>) c7;
                 c9 = if_member J j ''polling_interval_ms'' (\<lambda>v c. c\<lparr>polling_interval_ms := json_int J v\<rparr>) c8;
                 c10 = if_member J j ''ircut_enabled'' (\<lambda>v c. c\<lparr>ircut_enabled := json_boolean J v\<rparr>) c9;
                 c11 = if_member J j ''ircut_day_state'' (\<lambda>v c. c\<lparr>ircut_day_state := json_int J v\<rparr>) c10;
                 c12 = if_member J j ''ircut_night_state'' (\<lambda>v c. c\<lparr>ircut_night_state := json_int J v\<rparr>) c11;
                 c13 = if_member J j ''ircut_gpio1'' (\<lambda>v c. c\<lparr>ircut_gpio1 := json_int J v\<rparr>) c12;
                 c14 = if_member J j ''ircut_gpio2'' (\<lambda>v c. c\<lparr>ircut_gpio2 := json_int J v\<rparr>) c13;
                 c15 = if_member J j ''gb_gain_record_init''
                         (\<lambda>v c. c\<lparr>gb_gain_record_init := to_float (json_double J v)\<rparr>) c14;
                 c16 = if_member J j ''gr_gain_record_init''
                         (\<lambda>v c. c\<lparr>gr_gain_record_init := to_float (json_double J v)\<rparr>) c15;
                 c17 = if_member J j ''debug_logging'' (\<lambda>v c. c\<lparr>debug_logging := json_boolean J v\<rparr>) c16
             in (0, Some c17)))"

definition photosensing_module_config_validate :: "photosensing_module_config option \<Rightarrow> c_int" where
  "photosensing_module_config_validate config =
     (case config of
        None \<Rightarrow> -1
      | Some c \<Rightarrow>
          if float_le (night_iso_threshold c) (float_of_int 0) \<or> float_le (day_iso_threshold c) (float_of_int 0) then -1
          else if night_count_threshold c \<le> 0 \<or> day_count_threshold c \<le> 0 then -1
          else if polling_interval_ms c \<le> 0 then -1
          else if ircut_enabled c \<and> (ircut_gpio1 c < 0 \<or> ircut_gpio2 c < 0) then -1
          else 0)"

section \<open>The IR cut filter\<close>

text \<open>
  What \<open>photosensing_set_ircut\<close> asks of the system, in order. A file is named by its path: each is open
  once at most. \<open>script\<close> tells whether \<open>/tmp/setir\<close> is there, \<open>opens\<close> which paths \<open>open\<close> succeeds on;
  the results of \<open>write\<close> and \<open>system\<close> are ignored by the code.
\<close>

datatype gpio_call =
  GpioSystem string | GpioOpen string | GpioWrite string string | GpioClose string | GpioSleep nat

record gpio_env =
  script :: bool
  opens :: "string \<Rightarrow> bool"

definition gpio_file :: "c_int \<Rightarrow> string \<Rightarrow> string" where
  "gpio_file n name = fit 64 (''/sys/class/gpio/gpio'' @ decimal_int n @ ''/'' @ name)"

definition gpio_export :: string where
  "gpio_export = ''/sys/class/gpio/export''"

text \<open>Opening the files of both pins, and closing the first again if the second fails.\<close>

definition open_pins :: "gpio_env \<Rightarrow> string \<Rightarrow> string \<Rightarrow> bool \<times> gpio_call list" where
  "open_pins env p1 p2 =
     (if \<not> opens env p1 then (False, [])
      else if \<not> opens env p2 then (False, [GpioOpen p1, GpioClose p1])
      else (True, [GpioOpen p1, GpioOpen p2]))"

definition close_pins :: "string \<Rightarrow> string \<Rightarrow> gpio_call list" where
  "close_pins p1 p2 = [GpioClose p1, GpioClose p2]"

text \<open>\<open>sprintf(on, "%d", enable)\<close> and \<open>sprintf(off, "%d", !enable)\<close>, into four bytes each.\<close>

definition ircut_on :: "c_int \<Rightarrow> string" where "ircut_on enable = decimal_int enable"

definition ircut_off :: "c_int \<Rightarrow> string" where "ircut_off enable = decimal_int (if enable = 0 then 1 else 0)"

definition photosensing_set_ircut ::
  "photosensing_module_config \<Rightarrow> gpio_env \<Rightarrow> c_int \<Rightarrow> c_int \<times> gpio_call list" where
  "photosensing_set_ircut c env enable =
     (let g1 = ircut_gpio1 c; g2 = ircut_gpio2 c;
          d1 = gpio_file g1 ''direction''; d2 = gpio_file g2 ''direction'';
          a1 = gpio_file g1 ''active_low''; a2 = gpio_file g2 ''active_low'';
          v1 = gpio_file g1 ''value''; v2 = gpio_file g2 ''value''
      in if g1 < 0 \<or> g2 < 0 then (-1, [])
         else if script env then
           (0, [GpioSystem (if enable \<noteq> 0 then ''/tmp/setir 0 1'' else ''/tmp/setir 1 0'')])
         else if \<not> opens env gpio_export then (-1, [])
         else
           (let w0 = [GpioOpen gpio_export, GpioWrite gpio_export (fit 8 (decimal_int g1)),
                      GpioWrite gpio_export (fit 8 (decimal_int g2)), GpioClose gpio_export];
                (ok1, w1) = open_pins env d1 d2
            in if \<not> ok1 then (-1, w0 @ w1)
               else
                 (let w2 = w0 @ w1 @ [GpioWrite d1 ''out'', GpioWrite d2 ''out''] @ close_pins d1 d2;
                      (ok2, w3) = open_pins env a1 a2
                  in if \<not> ok2 then (-1, w2 @ w3)
                     else
                       (let w4 = w2 @ w3 @ [GpioWrite a1 ''0'', GpioWrite a2 ''0''] @ close_pins a1 a2;
                            (ok3, w5) = open_pins env v1 v2
                        in if \<not> ok3 then (-1, w4 @ w5)
                           else
                             (0, w4 @ w5 @
                                [GpioWrite v1 ''0'', GpioSleep 10000, GpioWrite v1 (ircut_on enable),
                                 GpioWrite v2 (ircut_off enable)] @
                                (if enable = 0 then [GpioSleep 10000, GpioWrite v1 (ircut_off enable)] else []) @
                                close_pins v1 v2)))))"

section \<open>State\<close>

datatype photosensing_mode = PHOTOSENSING_MODE_DAY | PHOTOSENSING_MODE_NIGHT | PHOTOSENSING_MODE_UNKNOWN

datatype isp_running_mode = IMPISP_RUNNING_MODE_DAY | IMPISP_RUNNING_MODE_NIGHT

record photosensing_stats =
  mode_switches :: u32
  day_to_night_switches :: u32
  night_to_day_switches :: u32
  stats_mode :: photosensing_mode
  last_iso_value :: cfloat
  last_gb_gain :: cfloat
  last_gr_gain :: cfloat
  stats_day_count :: c_int
  stats_night_count :: c_int
  uptime_seconds :: u32

record photosensing_state =
  ps_config :: photosensing_module_config
  ps_initialized :: bool
  ps_running :: bool
  ps_thread_alive :: bool
  ps_mutex :: bool
  thread_should_exit :: bool
  current_mode :: photosensing_mode
  ircut_status :: bool
  day_count :: c_int
  night_count :: c_int
  gb_gain_record :: cfloat
  gr_gain_record :: cfloat
  ps_stats :: photosensing_stats
  start_time :: int

text \<open>What the module asks of the ISP library, the filter and the clock, and the running mode of the ISP.\<close>

datatype ps_call = IspSetMode isp_running_mode | Ircut gpio_call | Lock | Unlock | Usleep int

record ps_world =
  isp_mode :: isp_running_mode
  ps_trace :: "ps_call list"

definition zero_stats :: photosensing_stats where
  "zero_stats =
     \<lparr>mode_switches = 0, day_to_night_switches = 0, night_to_day_switches = 0,
      stats_mode = PHOTOSENSING_MODE_DAY, last_iso_value = Fin 0 0, last_gb_gain = Fin 0 0,
      last_gr_gain = Fin 0 0, stats_day_count = 0, stats_night_count = 0, uptime_seconds = 0\<rparr>"

definition zero_ps_config :: photosensing_module_config where
  "zero_ps_config =
     \<lparr>ps_enabled = False, night_iso_threshold = Fin 0 0, night_count_threshold = 0, day_iso_threshold = Fin 0 0,
      day_gb_gain_offset = Fin 0 0, day_gb_gain_threshold = Fin 0 0, day_iso_secondary_threshold = Fin 0 0,
      day_count_threshold = 0, polling_interval_ms = 0, ircut_enabled = False, ircut_day_state = 0,
      ircut_night_state = 0, ircut_gpio1 = 0, ircut_gpio2 = 0, gb_gain_record_init = Fin 0 0,
      gr_gain_record_init = Fin 0 0, debug_logging = False\<rparr>"

text \<open>\<open>static photosensing_module_state_t g_photosensing_state = {0}\<close>\<close>

definition zero_photosensing :: photosensing_state where
  "zero_photosensing =
     \<lparr>ps_config = zero_ps_config, ps_initialized = False, ps_running = False, ps_thread_alive = False, ps_mutex = False,
      thread_should_exit = False, current_mode = PHOTOSENSING_MODE_DAY, ircut_status = False, day_count = 0,
      night_count = 0, gb_gain_record = Fin 0 0, gr_gain_record = Fin 0 0, ps_stats = zero_stats,
      start_time = 0\<rparr>"

section \<open>Life cycle\<close>

definition setup_photosensing_defaults :: "photosensing_state \<Rightarrow> photosensing_state" where
  "setup_photosensing_defaults s =
     s\<lparr>current_mode := PHOTOSENSING_MODE_DAY, ircut_status := True, day_count := 0, night_count := 0,
       gb_gain_record := gb_gain_record_init (ps_config s), gr_gain_record := gr_gain_record_init (ps_config s),
       thread_should_exit := False\<rparr>"

definition photosensing_module_init ::
  "photosensing_module_config option \<Rightarrow> bool \<Rightarrow> int \<Rightarrow> photosensing_state \<Rightarrow> c_int \<times> photosensing_state" where
  "photosensing_module_init config mutex_ok now s =
     (case config of
        None \<Rightarrow> (-1, s)
      | Some c \<Rightarrow>
          if ps_initialized s then (0, s)
          else
            (let s1 = s\<lparr>ps_config := c\<rparr>
             in if \<not> ps_enabled c then (0, s1\<lparr>ps_initialized := True\<rparr>)
                else if \<not> mutex_ok then (-1, s1)
                else
                  (let s2 = setup_photosensing_defaults (s1\<lparr>ps_mutex := True\<rparr>)
                   in (0, s2\<lparr>ps_stats := zero_stats\<lparr>stats_mode := PHOTOSENSING_MODE_DAY\<rparr>,
                             start_time := now, ps_initialized := True\<rparr>))))"

text \<open>\<open>IMP_ISP_Tuning_SetISPRunningMode\<close> and the calls of the filter, as seen from the module.\<close>

definition ps_call :: "ps_call list \<Rightarrow> ps_world \<Rightarrow> ps_world" where
  "ps_call cs w = w\<lparr>ps_trace := ps_trace w @ cs\<rparr>"

definition isp_set :: "bool \<Rightarrow> isp_running_mode \<Rightarrow> ps_world \<Rightarrow> ps_world" where
  "isp_set ok m w = (if ok then ps_call [IspSetMode m] (w\<lparr>isp_mode := m\<rparr>) else ps_call [IspSetMode m] w)"

text \<open>Moving the filter and noting down its state, as the three places that do it have it.\<close>

definition move_ircut ::
  "gpio_env \<Rightarrow> c_int \<Rightarrow> photosensing_state \<Rightarrow> ps_world \<Rightarrow> photosensing_state \<times> ps_world" where
  "move_ircut env state s w =
     (if ircut_enabled (ps_config s)
      then (s\<lparr>ircut_status := (state = 0)\<rparr>,
            ps_call (map Ircut (snd (photosensing_set_ircut (ps_config s) env state))) w)
      else (s, w))"

definition photosensing_module_start ::
  "bool \<Rightarrow> gpio_env \<Rightarrow> bool \<Rightarrow> photosensing_state \<Rightarrow> ps_world \<Rightarrow> c_int \<times> photosensing_state \<times> ps_world" where
  "photosensing_module_start set_ok env thread_ok s w =
     (if \<not> ps_initialized s then (-1, s, w)
      else if \<not> ps_enabled (ps_config s) then (0, s, w)
      else if ps_running s then (0, s, w)
      else
        (let w1 = isp_set set_ok IMPISP_RUNNING_MODE_DAY w
         in if \<not> set_ok then (-1, s, w1)
            else
              (let (s2, w2) = move_ircut env (ircut_day_state (ps_config s)) s w1;
                   s3 = s2\<lparr>thread_should_exit := False\<rparr>
               in if \<not> thread_ok then (-1, s3, w2)
                  else (0, s3\<lparr>ps_thread_alive := True, ps_running := True\<rparr>, w2))))"

text \<open>\<open>pthread_join\<close> returns after the poll under way: the thread is gone then.\<close>

definition photosensing_module_stop :: "photosensing_state \<Rightarrow> c_int \<times> photosensing_state" where
  "photosensing_module_stop s =
     (if \<not> ps_running s then (0, s)
      else (0, s\<lparr>thread_should_exit := True, ps_thread_alive := False, ps_running := False\<rparr>))"

definition photosensing_module_cleanup :: "photosensing_state \<Rightarrow> c_int \<times> photosensing_state" where
  "photosensing_module_cleanup s =
     (if \<not> ps_initialized s then (0, s)
      else (let s1 = (if ps_running s then snd (photosensing_module_stop s) else s);
                s2 = s1\<lparr>ps_mutex := False\<rparr>
            in (0, zero_photosensing)))"

definition photosensing_module_get_stats ::
  "bool \<Rightarrow> int \<Rightarrow> photosensing_state \<Rightarrow> c_int \<times> photosensing_stats option \<times> photosensing_state" where
  "photosensing_module_get_stats buffer_ok now s =
     (if \<not> buffer_ok then (-1, None, s)
      else (let s1 = s\<lparr>ps_stats := (ps_stats s)\<lparr>uptime_seconds := word_of_int (now - start_time s)\<rparr>\<rparr>
            in (0, Some (ps_stats s1), s1)))"

definition photosensing_mode_to_string :: "photosensing_mode \<Rightarrow> string" where
  "photosensing_mode_to_string m =
     (case m of PHOTOSENSING_MODE_DAY \<Rightarrow> ''day'' | PHOTOSENSING_MODE_NIGHT \<Rightarrow> ''night''
      | PHOTOSENSING_MODE_UNKNOWN \<Rightarrow> ''unknown'')"

section \<open>The control thread\<close>

text \<open>
  What the vendor library reports in one round of the loop: the exposure value and the gains (red,
  blue), \<open>None\<close> if the call fails; the gains of the twenty samples; the running mode if other code has
  changed it since the last round; whether a running mode is accepted; the GPIO files; and what a
  conversion out of the range of \<open>int\<close> yields.
\<close>

record ps_reading =
  ev :: "int option"
  white_balance :: "(int \<times> int) option"
  samples :: "nat \<Rightarrow> int \<times> int"
  other_mode :: "isp_running_mode option"
  set_ok :: bool
  night_gpio :: gpio_env
  day_gpio :: gpio_env
  conversion_ub :: int

definition sample_min :: "(nat \<Rightarrow> int) \<Rightarrow> cfloat" where
  "sample_min g =
     foldl (\<lambda>b i. let x = float_of_int (g i) in if float_less x b then x else b) (float_of_int (g 0)) [0..<20]"

text \<open>A switch: the mode is set, the filter moved, and the change counted if the module was in the other mode.\<close>

definition switch_to_night :: "ps_reading \<Rightarrow> photosensing_state \<Rightarrow> ps_world \<Rightarrow> photosensing_state \<times> ps_world" where
  "switch_to_night r s w =
     (let (s1, w1) = move_ircut (night_gpio r) (ircut_night_state (ps_config s)) s
                       (isp_set (set_ok r) IMPISP_RUNNING_MODE_NIGHT w);
          st = (if current_mode s1 = PHOTOSENSING_MODE_DAY
                then (ps_stats s1)\<lparr>day_to_night_switches := day_to_night_switches (ps_stats s1) + 1,
                                   mode_switches := mode_switches (ps_stats s1) + 1\<rparr>
                else ps_stats s1)
      in (s1\<lparr>current_mode := PHOTOSENSING_MODE_NIGHT,
             ps_stats := st\<lparr>stats_mode := PHOTOSENSING_MODE_NIGHT\<rparr>\<rparr>, w1))"

definition switch_to_day :: "ps_reading \<Rightarrow> photosensing_state \<Rightarrow> ps_world \<Rightarrow> photosensing_state \<times> ps_world" where
  "switch_to_day r s w =
     (let (s1, w1) = move_ircut (day_gpio r) (ircut_day_state (ps_config s)) s
                       (isp_set (set_ok r) IMPISP_RUNNING_MODE_DAY w);
          st = (if current_mode s1 = PHOTOSENSING_MODE_NIGHT
                then (ps_stats s1)\<lparr>night_to_day_switches := night_to_day_switches (ps_stats s1) + 1,
                                   mode_switches := mode_switches (ps_stats s1) + 1\<rparr>
                else ps_stats s1)
      in (s1\<lparr>current_mode := PHOTOSENSING_MODE_DAY,
             ps_stats := st\<lparr>stats_mode := PHOTOSENSING_MODE_DAY\<rparr>\<rparr>, w1))"

definition is_dark :: "photosensing_module_config \<Rightarrow> cfloat \<Rightarrow> bool" where
  "is_dark c iso_buf \<longleftrightarrow> float_less (night_iso_threshold c) iso_buf"

text \<open>The night part of a round; the blue gain is that of the last sample if samples were taken.\<close>

definition night_detection ::
  "ps_reading \<Rightarrow> cfloat \<Rightarrow> cfloat \<Rightarrow> photosensing_state \<Rightarrow> ps_world \<Rightarrow>
     photosensing_state \<times> ps_world \<times> cfloat" where
  "night_detection r iso_buf gb s w =
     (if is_dark (ps_config s) iso_buf then
        (let s1 = s\<lparr>night_count := night_count s + 1\<rparr>
         in if night_count_threshold (ps_config s) < night_count s1 then
              (let (s2, w2) = (if isp_mode w \<noteq> IMPISP_RUNNING_MODE_NIGHT then switch_to_night r s1 w else (s1, w))
               in (s2\<lparr>gb_gain_record := sample_min (snd \<circ> samples r), gr_gain_record := sample_min (fst \<circ> samples r)\<rparr>,
                   ps_call (replicate 20 (Usleep 300000)) w2, float_of_int (snd (samples r 19))))
            else (s1, w, gb))
      else (s\<lparr>night_count := 0\<rparr>, w, gb))"

definition is_day_candidate :: "ps_reading \<Rightarrow> cfloat \<Rightarrow> cfloat \<Rightarrow> photosensing_state \<Rightarrow> bool" where
  "is_day_candidate r iso_buf gb s \<longleftrightarrow>
     float_less (float_of_int (int_of_float (conversion_ub r) iso_buf)) (day_iso_threshold (ps_config s)) \<and>
     ircut_status s \<and>
     float_less (float_add (gb_gain_record s) (day_gb_gain_offset (ps_config s))) gb"

definition is_bright :: "photosensing_module_config \<Rightarrow> cfloat \<Rightarrow> cfloat \<Rightarrow> bool" where
  "is_bright c iso_buf gb \<longleftrightarrow>
     float_less iso_buf (day_iso_secondary_threshold c) \<or> float_less (day_gb_gain_threshold c) gb"

definition day_detection ::
  "ps_reading \<Rightarrow> cfloat \<Rightarrow> cfloat \<Rightarrow> photosensing_state \<Rightarrow> ps_world \<Rightarrow> photosensing_state \<times> ps_world" where
  "day_detection r iso_buf gb s w =
     (if is_day_candidate r iso_buf gb s then
        (let s1 = s\<lparr>day_count := (if is_bright (ps_config s) iso_buf gb then day_count s + 1 else 0)\<rparr>
         in if day_count_threshold (ps_config s) < day_count s1 then
              (if isp_mode w \<noteq> IMPISP_RUNNING_MODE_DAY then switch_to_day r s1 w else (s1, w))
            else (s1, w))
      else (s\<lparr>day_count := 0\<rparr>, w))"

text \<open>One round of the loop, up to the sleep; \<open>False\<close> is the \<open>break\<close>.\<close>

definition photosensing_poll ::
  "photosensing_state \<Rightarrow> ps_world \<Rightarrow> ps_reading \<Rightarrow> bool \<times> photosensing_state \<times> ps_world" where
  "photosensing_poll s w r =
     (let w0 = (case other_mode r of None \<Rightarrow> w | Some m \<Rightarrow> w\<lparr>isp_mode := m\<rparr>)
      in case ev r of
           None \<Rightarrow> (False, s, w0)
         | Some e \<Rightarrow>
             (case white_balance r of
                None \<Rightarrow> (False, s, w0)
              | Some (rgain, bgain) \<Rightarrow>
                  (let iso_buf = float_of_int e; gr = float_of_int rgain; gb = float_of_int bgain;
                       s1 = s\<lparr>ps_stats := (ps_stats s)\<lparr>last_iso_value := iso_buf, last_gb_gain := gb,
                                last_gr_gain := gr, stats_day_count := day_count s,
                                stats_night_count := night_count s\<rparr>\<rparr>;
                       (s2, w2, gb2) = night_detection r iso_buf gb s1 (ps_call [Lock] w0);
                       (s3, w3) = day_detection r iso_buf gb2 s2 w2
                   in (True, s3, ps_call [Unlock, Usleep (polling_interval_ms (ps_config s3) * 1000)] w3))))"

definition photosensing_control_thread ::
  "photosensing_state \<Rightarrow> ps_world \<Rightarrow> ps_reading \<Rightarrow> photosensing_state \<times> ps_world" where
  "photosensing_control_thread s w r =
     (if \<not> ps_thread_alive s then (s, w)
      else if thread_should_exit s then (s\<lparr>ps_thread_alive := False\<rparr>, w)
      else (case photosensing_poll s w r of
              (go_on, s1, w1) \<Rightarrow> (if go_on then s1 else s1\<lparr>ps_thread_alive := False\<rparr>, w1)))"

section \<open>What the parts of a round keep\<close>

lemma ps_call_simps [simp]:
  "isp_mode (ps_call cs w) = isp_mode w" "ps_trace (ps_call cs w) = ps_trace w @ cs"
  by (simp_all add: ps_call_def)

lemma isp_set_simps [simp]:
  "isp_mode (isp_set ok m w) = (if ok then m else isp_mode w)"
  "ps_trace (isp_set ok m w) = ps_trace w @ [IspSetMode m]"
  by (simp_all add: isp_set_def)

lemma move_ircut_keeps:
  assumes "move_ircut env n s w = (s1, w1)"
  shows "s1 = s\<lparr>ircut_status := (if ircut_enabled (ps_config s) then n = 0 else ircut_status s)\<rparr>"
    and "isp_mode w1 = isp_mode w"
    and "\<exists>cs. ps_trace w1 = ps_trace w @ map Ircut cs"
  using assms by (auto simp: move_ircut_def split: if_splits intro: exI [of _ "[]"])

definition stats_ok :: "photosensing_state \<Rightarrow> bool" where
  "stats_ok s \<longleftrightarrow>
     current_mode s \<noteq> PHOTOSENSING_MODE_UNKNOWN \<and> stats_mode (ps_stats s) = current_mode s \<and>
     mode_switches (ps_stats s) = day_to_night_switches (ps_stats s) + night_to_day_switches (ps_stats s) \<and>
     day_to_night_switches (ps_stats s) =
       night_to_day_switches (ps_stats s) + (if current_mode s = PHOTOSENSING_MODE_NIGHT then 1 else 0)"

text \<open>The parts of the state that only the life cycle changes.\<close>

definition same_life :: "photosensing_state \<Rightarrow> photosensing_state \<Rightarrow> bool" where
  "same_life s s1 \<longleftrightarrow>
     ps_config s1 = ps_config s \<and> ps_initialized s1 = ps_initialized s \<and> ps_running s1 = ps_running s \<and>
     ps_thread_alive s1 = ps_thread_alive s \<and> ps_mutex s1 = ps_mutex s \<and>
     thread_should_exit s1 = thread_should_exit s \<and> start_time s1 = start_time s"

lemma switch_to_night_effect:
  assumes "switch_to_night r s w = (s1, w1)"
  shows "same_life s s1" "night_count s1 = night_count s" "day_count s1 = day_count s"
    "isp_mode w1 = (if set_ok r then IMPISP_RUNNING_MODE_NIGHT else isp_mode w)"
    "ircut_status s1 = (if ircut_enabled (ps_config s) then ircut_night_state (ps_config s) = 0 else ircut_status s)"
    "stats_ok s \<Longrightarrow> stats_ok s1"
    "\<exists>cs. ps_trace w1 = ps_trace w @ IspSetMode IMPISP_RUNNING_MODE_NIGHT # map Ircut cs"
proof -
  obtain s2 w2 where m: "move_ircut (night_gpio r) (ircut_night_state (ps_config s)) s
      (isp_set (set_ok r) IMPISP_RUNNING_MODE_NIGHT w) = (s2, w2)"
    by (metis prod.exhaust)
  note keeps = move_ircut_keeps [OF m]
  from assms m have w: "w1 = w2" by (simp add: switch_to_night_def Let_def)
  from keeps(3) w show "\<exists>cs. ps_trace w1 = ps_trace w @ IspSetMode IMPISP_RUNNING_MODE_NIGHT # map Ircut cs"
    by auto
  from keeps(2) w show "isp_mode w1 = (if set_ok r then IMPISP_RUNNING_MODE_NIGHT else isp_mode w)" by simp
  show "same_life s s1" "night_count s1 = night_count s" "day_count s1 = day_count s"
    "ircut_status s1 = (if ircut_enabled (ps_config s) then ircut_night_state (ps_config s) = 0 else ircut_status s)"
    using assms m keeps(1) by (auto simp: switch_to_night_def Let_def same_life_def)
  show "stats_ok s \<Longrightarrow> stats_ok s1"
    using assms m keeps(1) by (cases "current_mode s") (auto simp: switch_to_night_def Let_def stats_ok_def)
qed

lemma switch_to_day_effect:
  assumes "switch_to_day r s w = (s1, w1)"
  shows "same_life s s1" "night_count s1 = night_count s" "day_count s1 = day_count s"
    "isp_mode w1 = (if set_ok r then IMPISP_RUNNING_MODE_DAY else isp_mode w)"
    "stats_ok s \<Longrightarrow> stats_ok s1"
    "\<exists>cs. ps_trace w1 = ps_trace w @ IspSetMode IMPISP_RUNNING_MODE_DAY # map Ircut cs"
proof -
  obtain s2 w2 where m: "move_ircut (day_gpio r) (ircut_day_state (ps_config s)) s
      (isp_set (set_ok r) IMPISP_RUNNING_MODE_DAY w) = (s2, w2)"
    by (metis prod.exhaust)
  note keeps = move_ircut_keeps [OF m]
  from assms m have w: "w1 = w2" by (simp add: switch_to_day_def Let_def)
  from keeps(3) w show "\<exists>cs. ps_trace w1 = ps_trace w @ IspSetMode IMPISP_RUNNING_MODE_DAY # map Ircut cs"
    by auto
  from keeps(2) w show "isp_mode w1 = (if set_ok r then IMPISP_RUNNING_MODE_DAY else isp_mode w)" by simp
  show "same_life s s1" "night_count s1 = night_count s" "day_count s1 = day_count s"
    using assms m keeps(1) by (auto simp: switch_to_day_def Let_def same_life_def)
  show "stats_ok s \<Longrightarrow> stats_ok s1"
    using assms m keeps(1) by (cases "current_mode s") (auto simp: switch_to_day_def Let_def stats_ok_def)
qed

lemma same_life_trans: "same_life s s1 \<Longrightarrow> same_life s1 s2 \<Longrightarrow> same_life s s2"
  by (simp add: same_life_def)

text \<open>The night part: what it does to the counter and when it switches.\<close>

definition to_night :: "ps_reading \<Rightarrow> cfloat \<Rightarrow> photosensing_state \<Rightarrow> ps_world \<Rightarrow> bool" where
  "to_night r iso_buf s w \<longleftrightarrow>
     is_dark (ps_config s) iso_buf \<and> night_count_threshold (ps_config s) \<le> night_count s \<and>
     isp_mode w \<noteq> IMPISP_RUNNING_MODE_NIGHT"

lemma night_detection_effect:
  assumes "night_detection r iso_buf gb s w = (s1, w1, gb1)"
  shows "same_life s s1" "day_count s1 = day_count s"
    "night_count s1 = (if is_dark (ps_config s) iso_buf then night_count s + 1 else 0)"
    "isp_mode w1 = (if to_night r iso_buf s w \<and> set_ok r then IMPISP_RUNNING_MODE_NIGHT else isp_mode w)"
    "\<not> to_night r iso_buf s w \<Longrightarrow> ircut_status s1 = ircut_status s"
    "stats_ok s \<Longrightarrow> stats_ok s1"
    "\<exists>cs. ps_trace w1 = ps_trace w @ cs \<and> IspSetMode IMPISP_RUNNING_MODE_DAY \<notin> set cs \<and>
       (IspSetMode IMPISP_RUNNING_MODE_NIGHT \<in> set cs \<longleftrightarrow> to_night r iso_buf s w)"
proof -
  let ?s = "s\<lparr>night_count := night_count s + 1\<rparr>"
  let ?rec = "\<lambda>s. s\<lparr>gb_gain_record := sample_min (snd \<circ> samples r), gr_gain_record := sample_min (fst \<circ> samples r)\<rparr>"
  have life: "same_life s ?s" by (simp add: same_life_def)
  consider (low) "\<not> is_dark (ps_config s) iso_buf"
    | (count) "is_dark (ps_config s) iso_buf" "night_count s + 1 \<le> night_count_threshold (ps_config s)"
    | (sample) "is_dark (ps_config s) iso_buf" "night_count_threshold (ps_config s) \<le> night_count s"
        "isp_mode w = IMPISP_RUNNING_MODE_NIGHT"
    | (switch) "to_night r iso_buf s w"
    by (auto simp: to_night_def) linarith
  then have "same_life s s1 \<and> day_count s1 = day_count s \<and>
    night_count s1 = (if is_dark (ps_config s) iso_buf then night_count s + 1 else 0) \<and>
    isp_mode w1 = (if to_night r iso_buf s w \<and> set_ok r then IMPISP_RUNNING_MODE_NIGHT else isp_mode w) \<and>
    (\<not> to_night r iso_buf s w \<longrightarrow> ircut_status s1 = ircut_status s) \<and> (stats_ok s \<longrightarrow> stats_ok s1) \<and>
    (\<exists>cs. ps_trace w1 = ps_trace w @ cs \<and> IspSetMode IMPISP_RUNNING_MODE_DAY \<notin> set cs \<and>
       (IspSetMode IMPISP_RUNNING_MODE_NIGHT \<in> set cs \<longleftrightarrow> to_night r iso_buf s w))"
  proof cases
    case switch
    obtain s2 w2 where sw: "switch_to_night r ?s w = (s2, w2)" by (metis prod.exhaust)
    from switch have "s1 = ?rec s2" "w1 = ps_call (replicate 20 (Usleep 300000)) w2"
      using assms sw by (auto simp: night_detection_def to_night_def Let_def)
    with switch switch_to_night_effect [OF sw] show ?thesis
      by (auto simp: to_night_def same_life_def stats_ok_def)
  qed (use assms in \<open>auto simp: night_detection_def to_night_def same_life_def stats_ok_def Let_def\<close>)
  then show "same_life s s1" "day_count s1 = day_count s"
    "night_count s1 = (if is_dark (ps_config s) iso_buf then night_count s + 1 else 0)"
    "isp_mode w1 = (if to_night r iso_buf s w \<and> set_ok r then IMPISP_RUNNING_MODE_NIGHT else isp_mode w)"
    "\<not> to_night r iso_buf s w \<Longrightarrow> ircut_status s1 = ircut_status s"
    "stats_ok s \<Longrightarrow> stats_ok s1"
    "\<exists>cs. ps_trace w1 = ps_trace w @ cs \<and> IspSetMode IMPISP_RUNNING_MODE_DAY \<notin> set cs \<and>
       (IspSetMode IMPISP_RUNNING_MODE_NIGHT \<in> set cs \<longleftrightarrow> to_night r iso_buf s w)"
    by blast+
qed

text \<open>The day part likewise.\<close>

definition day_hit :: "ps_reading \<Rightarrow> cfloat \<Rightarrow> cfloat \<Rightarrow> photosensing_state \<Rightarrow> bool" where
  "day_hit r iso_buf gb s \<longleftrightarrow> is_day_candidate r iso_buf gb s \<and> is_bright (ps_config s) iso_buf gb"

definition count_day :: "ps_reading \<Rightarrow> cfloat \<Rightarrow> cfloat \<Rightarrow> photosensing_state \<Rightarrow> photosensing_state" where
  "count_day r iso_buf gb s = s\<lparr>day_count := (if day_hit r iso_buf gb s then day_count s + 1 else 0)\<rparr>"

lemma day_detection_alt:
  "day_detection r iso_buf gb s w =
     (if is_day_candidate r iso_buf gb s \<and> day_count_threshold (ps_config s) < day_count (count_day r iso_buf gb s) \<and>
         isp_mode w \<noteq> IMPISP_RUNNING_MODE_DAY
      then switch_to_day r (count_day r iso_buf gb s) w else (count_day r iso_buf gb s, w))"
proof (cases "is_day_candidate r iso_buf gb s")
  case True
  then have "count_day r iso_buf gb s =
      s\<lparr>day_count := (if is_bright (ps_config s) iso_buf gb then day_count s + 1 else 0)\<rparr>"
    by (simp add: count_day_def day_hit_def)
  with True show ?thesis by (simp add: day_detection_def Let_def)
qed (simp add: day_detection_def count_day_def day_hit_def)

lemma count_day_keeps [simp]:
  "same_life s (count_day r iso_buf gb s)" "night_count (count_day r iso_buf gb s) = night_count s"
  "ircut_status (count_day r iso_buf gb s) = ircut_status s"
  "stats_ok (count_day r iso_buf gb s) = stats_ok s"
  by (simp_all add: count_day_def same_life_def stats_ok_def)

lemma day_detection_effect:
  assumes "day_detection r iso_buf gb s w = (s1, w1)"
  shows "same_life s s1" "night_count s1 = night_count s" "day_count s1 = day_count (count_day r iso_buf gb s)"
    "\<not> is_day_candidate r iso_buf gb s \<Longrightarrow> isp_mode w1 = isp_mode w \<and> ircut_status s1 = ircut_status s"
    "stats_ok s \<Longrightarrow> stats_ok s1"
    "\<exists>cs. ps_trace w1 = ps_trace w @ cs \<and> IspSetMode IMPISP_RUNNING_MODE_NIGHT \<notin> set cs"
proof -
  let ?s = "count_day r iso_buf gb s"
  consider (switch) "is_day_candidate r iso_buf gb s" "switch_to_day r ?s w = (s1, w1)"
    | (stay) "s1 = ?s" "w1 = w"
    using assms unfolding day_detection_alt by (metis prod.inject)
  then have "same_life s s1 \<and> night_count s1 = night_count s \<and> day_count s1 = day_count ?s \<and>
    (\<not> is_day_candidate r iso_buf gb s \<longrightarrow> isp_mode w1 = isp_mode w \<and> ircut_status s1 = ircut_status s) \<and>
    (stats_ok s \<longrightarrow> stats_ok s1) \<and>
    (\<exists>cs. ps_trace w1 = ps_trace w @ cs \<and> IspSetMode IMPISP_RUNNING_MODE_NIGHT \<notin> set cs)"
  proof cases
    case switch
    note e = switch_to_day_effect [OF switch(2)]
    from e(1) have "same_life s s1" by (rule same_life_trans [rotated]) simp
    moreover from e(6) have "\<exists>cs. ps_trace w1 = ps_trace w @ cs \<and> IspSetMode IMPISP_RUNNING_MODE_NIGHT \<notin> set cs"
      by auto
    ultimately show ?thesis using e(2,3,5) switch(1) by simp
  next
    case stay
    then show ?thesis by simp
  qed
  then show "same_life s s1" "night_count s1 = night_count s" "day_count s1 = day_count (count_day r iso_buf gb s)"
    "\<not> is_day_candidate r iso_buf gb s \<Longrightarrow> isp_mode w1 = isp_mode w \<and> ircut_status s1 = ircut_status s"
    "stats_ok s \<Longrightarrow> stats_ok s1"
    "\<exists>cs. ps_trace w1 = ps_trace w @ cs \<and> IspSetMode IMPISP_RUNNING_MODE_NIGHT \<notin> set cs"
    by blast+
qed

section \<open>A round\<close>

definition good_reading :: "ps_reading \<Rightarrow> bool" where
  "good_reading r \<longleftrightarrow> ev r \<noteq> None \<and> white_balance r \<noteq> None"

definition reading_iso :: "ps_reading \<Rightarrow> cfloat" where
  "reading_iso r = float_of_int (the (ev r))"

definition reading_gb :: "ps_reading \<Rightarrow> cfloat" where
  "reading_gb r = float_of_int (snd (the (white_balance r)))"

text \<open>State and world at the night part of a round, and whether the round counts for the day.\<close>

definition mode_before :: "ps_reading \<Rightarrow> ps_world \<Rightarrow> ps_world" where
  "mode_before r w = (case other_mode r of None \<Rightarrow> w | Some m \<Rightarrow> w\<lparr>isp_mode := m\<rparr>)"

definition note_reading :: "ps_reading \<Rightarrow> photosensing_state \<Rightarrow> photosensing_state" where
  "note_reading r s =
     s\<lparr>ps_stats := (ps_stats s)\<lparr>last_iso_value := reading_iso r, last_gb_gain := reading_gb r,
         last_gr_gain := float_of_int (fst (the (white_balance r))), stats_day_count := day_count s,
         stats_night_count := night_count s\<rparr>\<rparr>"

definition poll_day_hit :: "photosensing_state \<Rightarrow> ps_world \<Rightarrow> ps_reading \<Rightarrow> bool" where
  "poll_day_hit s w r =
     (case night_detection r (reading_iso r) (reading_gb r) (note_reading r s) (ps_call [Lock] (mode_before r w)) of
        (s1, w1, gb) \<Rightarrow> day_hit r (reading_iso r) gb s1)"

lemma note_reading_keeps [simp]:
  "same_life s (note_reading r s)" "day_count (note_reading r s) = day_count s"
  "night_count (note_reading r s) = night_count s" "ps_config (note_reading r s) = ps_config s"
  "ircut_status (note_reading r s) = ircut_status s" "stats_ok (note_reading r s) = stats_ok s"
  by (simp_all add: note_reading_def same_life_def stats_ok_def)

lemma photosensing_poll_alt:
  assumes "good_reading r"
    and "night_detection r (reading_iso r) (reading_gb r) (note_reading r s) (ps_call [Lock] (mode_before r w)) = (s1, w1, gb)"
    and "day_detection r (reading_iso r) gb s1 w1 = (s2, w2)"
  shows "photosensing_poll s w r =
    (True, s2, ps_call [Unlock, Usleep (polling_interval_ms (ps_config s2) * 1000)] w2)"
  using assms
  by (auto simp: photosensing_poll_def good_reading_def reading_iso_def reading_gb_def note_reading_def
      mode_before_def Let_def split: prod.splits)

lemma poll_effect:
  assumes "good_reading r" and "photosensing_poll s w r = (go_on, s1, w1)"
  shows "go_on" "same_life s s1"
    "night_count s1 = (if is_dark (ps_config s) (reading_iso r) then night_count s + 1 else 0)"
    "day_count s1 = (if poll_day_hit s w r then day_count s + 1 else 0)"
    "stats_ok s \<Longrightarrow> stats_ok s1"
    "\<exists>new. ps_trace w1 = ps_trace w @ new \<and>
       (IspSetMode IMPISP_RUNNING_MODE_NIGHT \<in> set new \<longleftrightarrow> to_night r (reading_iso r) s (mode_before r w))"
    "(\<And>gb s'. ps_config s' = ps_config s \<Longrightarrow>
        \<not> to_night r (reading_iso r) s (mode_before r w) \<longrightarrow> ircut_status s' = ircut_status s \<Longrightarrow>
        \<not> is_day_candidate r (reading_iso r) gb s') \<Longrightarrow>
     isp_mode w1 = (if to_night r (reading_iso r) s (mode_before r w) \<and> set_ok r then IMPISP_RUNNING_MODE_NIGHT
                    else isp_mode (mode_before r w)) \<and>
     (\<not> to_night r (reading_iso r) s (mode_before r w) \<longrightarrow> ircut_status s1 = ircut_status s)"
proof -
  let ?n = "note_reading r s" and ?w = "ps_call [Lock] (mode_before r w)"
  obtain s2 w2 gb where n: "night_detection r (reading_iso r) (reading_gb r) ?n ?w = (s2, w2, gb)"
    by (metis prod.exhaust)
  obtain s3 w3 where d: "day_detection r (reading_iso r) gb s2 w2 = (s3, w3)" by (metis prod.exhaust)
  note ne = night_detection_effect [OF n] and de = day_detection_effect [OF d]
  have night: "to_night r (reading_iso r) ?n ?w = to_night r (reading_iso r) s (mode_before r w)"
    by (simp add: to_night_def)
  have trace: "ps_trace (mode_before r w) = ps_trace w" by (simp add: mode_before_def split: option.split)
  from photosensing_poll_alt [OF assms(1) n d] assms(2)
  have res: "go_on" "s1 = s3" "w1 = ps_call [Unlock, Usleep (polling_interval_ms (ps_config s3) * 1000)] w3"
    by simp_all
  show "go_on" by (rule res)
  have life: "same_life s s2" using ne(1) by (rule same_life_trans [rotated]) simp
  then show "same_life s s1" using de(1) res(2) by (metis same_life_trans)
  show "night_count s1 = (if is_dark (ps_config s) (reading_iso r) then night_count s + 1 else 0)"
    using ne(3) de(2) res(2) by simp
  show "day_count s1 = (if poll_day_hit s w r then day_count s + 1 else 0)"
    using ne(2) de(3) res(2) n by (simp add: poll_day_hit_def count_day_def)
  show "stats_ok s \<Longrightarrow> stats_ok s1" using ne(6) de(5) res(2) by simp
  from ne(7) de(6) obtain c1 c2 where "ps_trace w2 = ps_trace ?w @ c1" "ps_trace w3 = ps_trace w2 @ c2"
    "IspSetMode IMPISP_RUNNING_MODE_NIGHT \<in> set c1 \<longleftrightarrow> to_night r (reading_iso r) s (mode_before r w)"
    "IspSetMode IMPISP_RUNNING_MODE_NIGHT \<notin> set c2"
    unfolding night by blast
  then show "\<exists>new. ps_trace w1 = ps_trace w @ new \<and>
      (IspSetMode IMPISP_RUNNING_MODE_NIGHT \<in> set new \<longleftrightarrow> to_night r (reading_iso r) s (mode_before r w))"
    by (intro exI [of _ "[Lock] @ c1 @ c2 @ [Unlock, Usleep (polling_interval_ms (ps_config s3) * 1000)]"])
      (simp add: res trace)
  assume cand: "\<And>gb s'. ps_config s' = ps_config s \<Longrightarrow>
      \<not> to_night r (reading_iso r) s (mode_before r w) \<longrightarrow> ircut_status s' = ircut_status s \<Longrightarrow>
      \<not> is_day_candidate r (reading_iso r) gb s'"
  have "\<not> is_day_candidate r (reading_iso r) gb s2"
    using life ne(5) by (intro cand) (simp_all add: same_life_def night)
  with de(4) ne(4,5) night res show "isp_mode w1 = (if to_night r (reading_iso r) s (mode_before r w) \<and> set_ok r
      then IMPISP_RUNNING_MODE_NIGHT else isp_mode (mode_before r w)) \<and>
      (\<not> to_night r (reading_iso r) s (mode_before r w) \<longrightarrow> ircut_status s1 = ircut_status s)"
    by simp
qed

lemma poll_failed:
  assumes "\<not> good_reading r"
  shows "photosensing_poll s w r = (False, s, mode_before r w)"
  using assms by (auto simp: photosensing_poll_def good_reading_def mode_before_def split: option.split)

section \<open>The thread\<close>

text \<open>The thread over the readings of its rounds.\<close>

fun thread_run ::
  "photosensing_state \<Rightarrow> ps_world \<Rightarrow> ps_reading list \<Rightarrow> photosensing_state \<times> ps_world" where
  "thread_run s w [] = (s, w)"
| "thread_run s w (r # rs) =
     (case photosensing_control_thread s w r of (s1, w1) \<Rightarrow> thread_run s1 w1 rs)"

definition thread_live :: "photosensing_state \<Rightarrow> bool" where
  "thread_live s \<longleftrightarrow> ps_thread_alive s \<and> \<not> thread_should_exit s"

lemma same_life_live: "same_life s s1 \<Longrightarrow> thread_live s1 = thread_live s"
  by (simp add: same_life_def thread_live_def)

lemma thread_round:
  assumes "thread_live s" and "good_reading r" and "photosensing_poll s w r = (go_on, s1, w1)"
  shows "photosensing_control_thread s w r = (s1, w1)"
  using assms poll_effect(1) [OF assms(2,3)] by (simp add: photosensing_control_thread_def thread_live_def)

lemma thread_run_append:
  "thread_run s w (as @ bs) = (case thread_run s w as of (s1, w1) \<Rightarrow> thread_run s1 w1 bs)"
  by (induction s w as rule: thread_run.induct) (auto split: prod.split)

lemma thread_run_life:
  assumes "thread_live s" and "list_all good_reading rs" and "thread_run s w rs = (s1, w1)"
  shows "same_life s s1"
  using assms
proof (induction s w rs rule: thread_run.induct)
  case (1 s w)
  then show ?case by (simp add: same_life_def)
next
  case (2 s w r rs)
  obtain go_on s2 w2 where p: "photosensing_poll s w r = (go_on, s2, w2)" by (metis prod.exhaust)
  from "2.prems"(2) have g: "good_reading r" "list_all good_reading rs" by simp_all
  from thread_round [OF "2.prems"(1) g(1) p] have t: "photosensing_control_thread s w r = (s2, w2)" .
  from poll_effect(2) [OF g(1) p] have l: "same_life s s2" .
  with "2.prems"(1) have "thread_live s2" by (simp add: same_life_live)
  with "2.IH" [OF t [symmetric]] "2.prems"(3) g(2) t have "same_life s2 s1" by simp
  with l show ?case by (rule same_life_trans)
qed

text \<open>A counter that a flag increments and its absence resets.\<close>

definition count_flag :: "int \<Rightarrow> bool \<Rightarrow> int" where
  "count_flag n b = (if b then n + 1 else 0)"

lemma count_flags: "foldl count_flag 0 bs = int (length (takeWhile id (rev bs)))"
  by (induction bs rule: rev_induct) (simp_all add: count_flag_def)

fun day_hits :: "photosensing_state \<Rightarrow> ps_world \<Rightarrow> ps_reading list \<Rightarrow> bool list" where
  "day_hits s w [] = []"
| "day_hits s w (r # rs) =
     poll_day_hit s w r # (case photosensing_control_thread s w r of (s1, w1) \<Rightarrow> day_hits s1 w1 rs)"

lemma thread_counts:
  assumes "thread_live s" and "list_all good_reading rs" and "thread_run s w rs = (s1, w1)"
  shows "night_count s1 = foldl count_flag (night_count s) (map (\<lambda>r. is_dark (ps_config s) (reading_iso r)) rs) \<and>
    day_count s1 = foldl count_flag (day_count s) (day_hits s w rs)"
  using assms
proof (induction s w rs rule: thread_run.induct)
  case (2 s w r rs)
  obtain go_on s2 w2 where p: "photosensing_poll s w r = (go_on, s2, w2)" by (metis prod.exhaust)
  from "2.prems"(2) have g: "good_reading r" "list_all good_reading rs" by simp_all
  from thread_round [OF "2.prems"(1) g(1) p] have t: "photosensing_control_thread s w r = (s2, w2)" .
  note e = poll_effect [OF g(1) p]
  have "thread_live s2" "ps_config s2 = ps_config s"
    using "2.prems"(1) e(2) by (simp_all add: same_life_live, simp add: same_life_def)
  with "2.IH" [OF t [symmetric]] "2.prems"(3) g(2) t e(3,4) show ?case by (simp add: count_flag_def)
qed simp

section \<open>Properties of the control thread\<close>

text \<open>
  The two counters of the control thread are the lengths of the current runs: after any readings the night
  counter is the number of latest rounds in a row that were darker than the threshold, and the day counter
  the number of latest rounds in a row that met all the conditions for the day.
\<close>

theorem photosensing_counts:
  assumes "thread_live s" and "list_all good_reading rs" and "thread_run s w rs = (s1, w1)"
    and "night_count s = 0" and "day_count s = 0"
  shows "night_count s1 = int (length (takeWhile (\<lambda>r. is_dark (ps_config s) (reading_iso r)) (rev rs))) \<and>
    day_count s1 = int (length (takeWhile id (rev (day_hits s w rs))))"
  using thread_counts [OF assms(1-3)] assms(4,5)
  by (simp add: count_flags rev_map takeWhile_map comp_def)

text \<open>
  C12. The thread asks for the night mode in exactly the rounds in which the mode is not the night mode and
  this and the preceding readings, more of them than the threshold says, were all dark.
\<close>

theorem photosensing_night_switch:
  assumes "thread_live s" and "list_all good_reading rs" and "thread_run s w rs = (s1, w1)"
    and "night_count s = 0" and "good_reading r" and "photosensing_control_thread s1 w1 r = (s2, w2)"
  shows "\<exists>new. ps_trace w2 = ps_trace w1 @ new \<and>
    (IspSetMode IMPISP_RUNNING_MODE_NIGHT \<in> set new \<longleftrightarrow>
       isp_mode (mode_before r w1) \<noteq> IMPISP_RUNNING_MODE_NIGHT \<and>
       is_dark (ps_config s) (reading_iso r) \<and>
       night_count_threshold (ps_config s) <
         int (length (takeWhile (\<lambda>r. is_dark (ps_config s) (reading_iso r)) (rev (rs @ [r])))))"
proof -
  have life: "same_life s s1" using thread_run_life [OF assms(1-3)] .
  then have live: "thread_live s1" using assms(1) by (simp add: same_life_live)
  obtain go_on s3 w3 where p: "photosensing_poll s1 w1 r = (go_on, s3, w3)" by (metis prod.exhaust)
  have "w3 = w2" using thread_round [OF live assms(5) p] assms(6) by simp
  moreover have "night_count s1 = int (length (takeWhile (\<lambda>r. is_dark (ps_config s) (reading_iso r)) (rev rs)))"
    using thread_counts [OF assms(1-3)] assms(4) by (simp add: count_flags rev_map takeWhile_map comp_def)
  moreover have "ps_config s1 = ps_config s" using life by (simp add: same_life_def)
  ultimately show ?thesis using poll_effect(6) [OF assms(5) p] by (auto simp: to_night_def)
qed

lemma dark_is_no_candidate:
  assumes "float_le (day_iso_threshold c) (night_iso_threshold c)" and "ev r = Some e"
    and "0 \<le> e" and "e < 2 ^ 30" and "is_dark c (reading_iso r)" and "ps_config s' = c"
  shows "\<not> is_day_candidate r (reading_iso r) gb s'"
proof
  assume "is_day_candidate r (reading_iso r) gb s'"
  then have "float_less (reading_iso r) (day_iso_threshold c)"
    using assms(2,6) truncation_keeps_order [OF assms(3,4)] by (simp add: is_day_candidate_def reading_iso_def)
  with assms(1) have "float_less (reading_iso r) (night_iso_threshold c)" by (blast intro: float_less_le_trans)
  with assms(5) show False unfolding is_dark_def by (metis float_less_trans float_less_irrefl)
qed

text \<open>
  When it stays dark the camera ends up in the night mode: after more dark readings than the threshold
  says, whatever the state the thread started in, the ISP is in the night mode, provided the day threshold
  is not above the night threshold, brightness values are below \<open>2 ^ 30\<close> and nobody else sets the mode.
\<close>

theorem photosensing_night_reached:
  assumes "thread_live s" and "thread_run s w rs = (s1, w1)" and "0 \<le> night_count s"
    and "float_le (day_iso_threshold (ps_config s)) (night_iso_threshold (ps_config s))"
    and "\<And>r. r \<in> set rs \<Longrightarrow> good_reading r \<and> 0 \<le> the (ev r) \<and> the (ev r) < 2 ^ 30 \<and>
           is_dark (ps_config s) (reading_iso r) \<and> other_mode r = None \<and> set_ok r"
    and "night_count_threshold (ps_config s) < int (length rs)" and "rs \<noteq> []"
  shows "isp_mode w1 = IMPISP_RUNNING_MODE_NIGHT"
proof -
  let ?c = "ps_config s" and ?as = "butlast rs" and ?r = "last rs"
  have split: "rs = ?as @ [?r]" using assms(7) by simp
  obtain s2 w2 where run: "thread_run s w ?as = (s2, w2)" by (metis prod.exhaust)
  have good: "list_all good_reading ?as" using assms(5) by (auto simp: list_all_iff dest: in_set_butlastD)
  have r: "good_reading ?r" "0 \<le> the (ev ?r)" "the (ev ?r) < 2 ^ 30" "is_dark ?c (reading_iso ?r)"
    "other_mode ?r = None" "set_ok ?r"
    using assms(5) [of ?r] assms(7) by auto
  have life: "same_life s s2" using thread_run_life [OF assms(1) good run] .
  then have live: "thread_live s2" and c: "ps_config s2 = ?c"
    using assms(1) by (simp_all add: same_life_live) (simp add: same_life_def)
  have "foldl count_flag n (map (\<lambda>r. is_dark ?c (reading_iso r)) xs) = n + int (length xs)"
    if "\<And>r. r \<in> set xs \<Longrightarrow> is_dark ?c (reading_iso r)" for xs n
    using that by (induction xs arbitrary: n) (auto simp: count_flag_def)
  with thread_counts [OF assms(1) good run] assms(5)
  have "night_count s2 = night_count s + int (length ?as)" by (metis in_set_butlastD)
  then have cnt: "night_count_threshold ?c \<le> night_count s2" using assms(3,6,7) by (simp add: length_butlast)
  obtain go_on s3 w3 where p: "photosensing_poll s2 w2 ?r = (go_on, s3, w3)" by (metis prod.exhaust)
  have "thread_run s2 w2 [?r] = (s3, w3)" using thread_round [OF live r(1) p] by simp
  then have "w1 = w3" using assms(2) run by (subst (asm) split) (simp only: thread_run_append, simp)
  moreover from r(1) have "ev ?r = Some (the (ev ?r))" by (simp add: good_reading_def)
  note dark_is_no_candidate [OF assms(4) this r(2-4)]
  with poll_effect(7) [OF r(1) p] c r(4-6) cnt have "isp_mode w3 = IMPISP_RUNNING_MODE_NIGHT"
    by (auto simp: to_night_def mode_before_def)
  ultimately show ?thesis by simp
qed

text \<open>
  A camera that is in the night mode while the module does not take the filter to be out of the day position
  stays in the night mode however bright it becomes: the day part asks for \<open>ircut_status\<close>, which only a
  switch of this module changes. It comes to this when other code sets the night mode by day, and in any
  configuration with \<open>ircut_night_state\<close> other than 0, with the first switch to the night.
\<close>

theorem photosensing_stuck_at_night:
  assumes "isp_mode w = IMPISP_RUNNING_MODE_NIGHT" and "\<not> ircut_status s"
    and "\<And>r. r \<in> set rs \<Longrightarrow> other_mode r = None" and "thread_run s w rs = (s1, w1)"
  shows "isp_mode w1 = IMPISP_RUNNING_MODE_NIGHT \<and> \<not> ircut_status s1"
  using assms
proof (induction s w rs rule: thread_run.induct)
  case (2 s w r rs)
  have mode: "mode_before r w = w" using "2.prems"(3) [of r] by (simp add: mode_before_def)
  obtain s2 w2 where t: "photosensing_control_thread s w r = (s2, w2)" by (metis prod.exhaust)
  have "isp_mode w2 = IMPISP_RUNNING_MODE_NIGHT \<and> \<not> ircut_status s2"
  proof (cases "thread_live s \<and> good_reading r")
    case True
    obtain go_on s3 w3 where p: "photosensing_poll s w r = (go_on, s3, w3)" by (metis prod.exhaust)
    with True t have "(s3, w3) = (s2, w2)" using thread_round by metis
    moreover have "\<not> to_night r (reading_iso r) s (mode_before r w)" using "2.prems"(1) by (simp add: to_night_def mode)
    ultimately show ?thesis
      using poll_effect(7) [of r s w go_on s3 w3] True p "2.prems"(1,2) mode by (simp add: is_day_candidate_def)
  next
    case False
    with t "2.prems"(1,2) poll_failed [of r s w] mode show ?thesis
      by (auto simp: photosensing_control_thread_def thread_live_def split: if_splits)
  qed
  with "2.IH" [OF t [symmetric]] "2.prems"(3,4) t show ?case by simp
qed simp

section \<open>Life cycle\<close>

text \<open>The calls of the module system, of the thread and of the statistics, in any order.\<close>

datatype ps_event =
  PsInit "photosensing_module_config option" bool int
| PsStart bool gpio_env bool
| PsRound ps_reading
| PsStop
| PsCleanup
| PsStats bool int

fun ps_step :: "photosensing_state \<times> ps_world \<Rightarrow> ps_event \<Rightarrow> photosensing_state \<times> ps_world" where
  "ps_step (s, w) (PsInit c m t) = (snd (photosensing_module_init c m t s), w)"
| "ps_step (s, w) (PsStart a g t) = snd (photosensing_module_start a g t s w)"
| "ps_step (s, w) (PsRound r) = photosensing_control_thread s w r"
| "ps_step (s, w) PsStop = (snd (photosensing_module_stop s), w)"
| "ps_step (s, w) PsCleanup = (snd (photosensing_module_cleanup s), w)"
| "ps_step (s, w) (PsStats b t) = (snd (snd (photosensing_module_get_stats b t s)), w)"

definition ps_inv :: "photosensing_state \<Rightarrow> bool" where
  "ps_inv s \<longleftrightarrow>
     stats_ok s \<and> 0 \<le> day_count s \<and> 0 \<le> night_count s \<and>
     (ps_thread_alive s \<longrightarrow> ps_running s \<and> \<not> thread_should_exit s) \<and>
     (ps_running s \<longrightarrow> ps_initialized s \<and> ps_enabled (ps_config s)) \<and>
     (ps_initialized s \<and> ps_enabled (ps_config s) \<longrightarrow> ps_mutex s)"

lemma stats_ok_updates [simp]:
  "stats_ok (s\<lparr>ps_thread_alive := a\<rparr>) = stats_ok s" "stats_ok (s\<lparr>thread_should_exit := a\<rparr>) = stats_ok s"
  "stats_ok (s\<lparr>ps_running := a\<rparr>) = stats_ok s" "stats_ok (s\<lparr>ps_initialized := a\<rparr>) = stats_ok s"
  "stats_ok (s\<lparr>ps_config := c\<rparr>) = stats_ok s" "stats_ok (s\<lparr>ps_mutex := a\<rparr>) = stats_ok s"
  "stats_ok (s\<lparr>ircut_status := a\<rparr>) = stats_ok s"
  by (simp_all add: stats_ok_def)

lemma control_thread_inv:
  assumes "ps_inv s"
  shows "ps_inv (fst (photosensing_control_thread s w r))"
proof (cases "thread_live s \<and> good_reading r")
  case True
  obtain go_on s1 w1 where p: "photosensing_poll s w r = (go_on, s1, w1)" by (metis prod.exhaust)
  with True have t: "photosensing_control_thread s w r = (s1, w1)" by (intro thread_round) simp_all
  from True have g: "good_reading r" by simp
  note e = poll_effect(1-5) [OF g p]
  have "0 \<le> day_count s1 \<and> 0 \<le> night_count s1" using assms e(3,4) by (simp add: ps_inv_def)
  with assms e(2,5) t show ?thesis by (simp add: ps_inv_def same_life_def)
next
  case False
  then have "photosensing_control_thread s w r \<in> {(s, w), (s\<lparr>ps_thread_alive := False\<rparr>, w),
      (s\<lparr>ps_thread_alive := False\<rparr>, mode_before r w)}"
    using poll_failed [of r s w] by (auto simp: photosensing_control_thread_def thread_live_def)
  with assms show ?thesis by (auto simp: ps_inv_def stats_ok_def)
qed

lemma module_start_state:
  "fst (snd (photosensing_module_start a g t s w)) =
     (if ps_initialized s \<and> ps_enabled (ps_config s) \<and> \<not> ps_running s \<and> a
      then (let s2 = (fst (move_ircut g (ircut_day_state (ps_config s)) s (isp_set True IMPISP_RUNNING_MODE_DAY w)))
                       \<lparr>thread_should_exit := False\<rparr>
            in if t then s2\<lparr>ps_thread_alive := True, ps_running := True\<rparr> else s2)
      else s)"
  by (simp add: photosensing_module_start_def Let_def split: prod.split)

lemma module_start_inv:
  assumes "ps_inv s"
  shows "ps_inv (fst (snd (photosensing_module_start a g t s w)))"
proof -
  obtain s2 w2 where m: "move_ircut g (ircut_day_state (ps_config s)) s (isp_set True IMPISP_RUNNING_MODE_DAY w) = (s2, w2)"
    by (metis prod.exhaust)
  from move_ircut_keeps(1) [OF m] m assms show ?thesis
    unfolding module_start_state by (cases t) (auto simp: ps_inv_def Let_def)
qed

lemma module_init_inv:
  assumes "ps_inv s"
  shows "ps_inv (snd (photosensing_module_init c m t s))"
proof (cases "ps_initialized s")
  case True
  with assms show ?thesis by (simp add: photosensing_module_init_def split: option.split)
next
  case False
  with assms have "\<not> ps_running s" "\<not> ps_thread_alive s" "stats_ok s" by (auto simp: ps_inv_def)
  moreover have "stats_ok (setup_photosensing_defaults x\<lparr>ps_stats := zero_stats\<lparr>stats_mode := PHOTOSENSING_MODE_DAY\<rparr>,
      start_time := t, ps_initialized := True\<rparr>)" for x
    by (simp add: stats_ok_def setup_photosensing_defaults_def zero_stats_def)
  ultimately show ?thesis using False assms
    by (simp add: photosensing_module_init_def ps_inv_def Let_def split: option.split)
      (simp add: setup_photosensing_defaults_def)
qed

lemma module_stop_inv:
  assumes "ps_inv s"
  shows "ps_inv (snd (photosensing_module_stop s))"
  using assms by (cases "ps_running s") (simp_all add: photosensing_module_stop_def ps_inv_def)

lemma module_stats_inv:
  assumes "ps_inv s"
  shows "ps_inv (snd (snd (photosensing_module_get_stats b t s)))"
  using assms by (cases b) (simp_all add: photosensing_module_get_stats_def ps_inv_def stats_ok_def Let_def)

lemma zero_inv: "ps_inv zero_photosensing"
  by (simp add: ps_inv_def zero_photosensing_def stats_ok_def zero_stats_def)

interpretation photosensing:
  event_machine "\<lambda>(s, w). s = zero_photosensing" ps_step "\<lambda>(s, w). ps_inv s"
proof (unfold_locales; clarify)
  fix s w s1 w1 e
  assume inv: "ps_inv s" and step: "ps_step (s, w) e = (s1, w1)"
  show "ps_inv s1"
  proof (cases e)
    case (PsRound r)
    with control_thread_inv [OF inv, of w r] step show ?thesis by simp
  next
    case PsCleanup
    with inv step zero_inv show ?thesis by (auto simp: photosensing_module_cleanup_def split: if_splits)
  next
    case (PsStart a g t)
    with module_start_inv [OF inv, of a g t w] step show ?thesis by simp
  qed (use step module_init_inv [OF inv] module_stop_inv [OF inv] module_stats_inv [OF inv]
      in \<open>auto dest: arg_cong [where f = fst]\<close>)
qed (simp add: zero_inv)

text \<open>
  Whatever the module system, the thread and the statistics do, in any order: the mode in the statistics
  is the mode of the module, which is never unknown; the switches are those to the night and those to the
  day, and there is one more to the night exactly if the mode is the night mode; the counters are not
  negative; a live thread belongs to a running module that has not been told to stop; and a running module is
  initialised, enabled and has its mutex.
\<close>

theorem photosensing_invariant:
  assumes "foldl ps_step (zero_photosensing, w) es = (s, w1)"
  shows "stats_mode (ps_stats s) = current_mode s \<and> current_mode s \<noteq> PHOTOSENSING_MODE_UNKNOWN \<and>
    mode_switches (ps_stats s) = day_to_night_switches (ps_stats s) + night_to_day_switches (ps_stats s) \<and>
    day_to_night_switches (ps_stats s) =
      night_to_day_switches (ps_stats s) + (if current_mode s = PHOTOSENSING_MODE_NIGHT then 1 else 0) \<and>
    0 \<le> day_count s \<and> 0 \<le> night_count s \<and>
    (ps_thread_alive s \<longrightarrow> ps_running s \<and> \<not> thread_should_exit s) \<and>
    (ps_running s \<longrightarrow> ps_initialized s \<and> ps_enabled (ps_config s) \<and> ps_mutex s)"
  using photosensing.inv_reached [of "(zero_photosensing, w)" es] assms
  by (auto simp: ps_inv_def stats_ok_def)

section \<open>The filter and the configuration\<close>

text \<open>
  The files open after a sequence of calls, \<open>None\<close> if one not open is written or closed, and the value
  written to a file last.
\<close>

fun gpio_open :: "string list \<Rightarrow> gpio_call list \<Rightarrow> string list option" where
  "gpio_open ps [] = Some ps"
| "gpio_open ps (GpioOpen p # cs) = gpio_open (p # ps) cs"
| "gpio_open ps (GpioClose p # cs) = (if p \<in> set ps then gpio_open (remove1 p ps) cs else None)"
| "gpio_open ps (GpioWrite p v # cs) = (if p \<in> set ps then gpio_open ps cs else None)"
| "gpio_open ps (c # cs) = gpio_open ps cs"

fun level :: "string \<Rightarrow> gpio_call list \<Rightarrow> string option" where
  "level p [] = None"
| "level p (GpioWrite q v # cs) = (case level p cs of Some x \<Rightarrow> Some x | None \<Rightarrow> if q = p then Some v else None)"
| "level p (c # cs) = level p cs"

lemma gpio_open_append:
  "gpio_open ps (cs @ ds) = (case gpio_open ps cs of None \<Rightarrow> None | Some qs \<Rightarrow> gpio_open qs ds)"
  by (induction ps cs rule: gpio_open.induct) auto

lemma level_append: "level p (cs @ ds) = (case level p ds of Some x \<Rightarrow> Some x | None \<Rightarrow> level p cs)"
  by (induction p cs rule: level.induct) (auto split: option.splits)

lemma open_pins_files:
  "gpio_open ps (snd (open_pins env p q)) = Some (if fst (open_pins env p q) then q # p # ps else ps)"
  by (simp add: open_pins_def)

lemma use_pins:
  "gpio_open (q # p # ps) ([GpioWrite p a, GpioWrite q b] @ close_pins p q) = Some ps"
  "gpio_open (q # p # ps) ([GpioWrite p x, GpioSleep n, GpioWrite p a, GpioWrite q b] @
     (if z then [GpioSleep n, GpioWrite p c] else []) @ close_pins p q) = Some ps"
  by (auto simp: close_pins_def)

lemma ircut_off_level: "ircut_off enable = (if enable = 0 then ''1'' else ''0'')"
proof -
  have "ircut_off 0 = ''1''" "ircut_off 1 = ''0''" by code_simp+
  then show ?thesis by (simp add: ircut_off_def)
qed

text \<open>
  Moving the filter leaves no file open and writes to open files only, on every path; it does nothing
  when a pin is not configured, and opens nothing but the export file and the files of the two pins. If it
  succeeds without the script, the pins end with the level asked for on the first and its opposite on the
  second when the filter is enabled, but both at 1 when it is disabled.
\<close>

theorem photosensing_ircut_files:
  assumes "photosensing_set_ircut c env enable = (r, calls)"
  shows "gpio_open [] calls = Some [] \<and>
    (ircut_gpio1 c < 0 \<or> ircut_gpio2 c < 0 \<longrightarrow> r = -1 \<and> calls = []) \<and>
    (r = 0 \<and> \<not> script env \<and>
       gpio_file (ircut_gpio1 c) ''value'' \<noteq> gpio_file (ircut_gpio2 c) ''value'' \<longrightarrow>
     level (gpio_file (ircut_gpio1 c) ''value'') calls = Some (if enable = 0 then ''1'' else decimal_int enable) \<and>
     level (gpio_file (ircut_gpio2 c) ''value'') calls = Some (if enable = 0 then ''1'' else ''0''))"
proof -
  let ?g = "\<lambda>n. gpio_file (ircut_gpio1 c) n" and ?h = "\<lambda>n. gpio_file (ircut_gpio2 c) n"
  obtain ok1 w1 where o1: "open_pins env (?g ''direction'') (?h ''direction'') = (ok1, w1)" by (metis prod.exhaust)
  obtain ok2 w2 where o2: "open_pins env (?g ''active_low'') (?h ''active_low'') = (ok2, w2)" by (metis prod.exhaust)
  obtain ok3 w3 where o3: "open_pins env (?g ''value'') (?h ''value'') = (ok3, w3)" by (metis prod.exhaust)
  let ?w0 = "[GpioOpen gpio_export, GpioWrite gpio_export (fit 8 (decimal_int (ircut_gpio1 c))),
     GpioWrite gpio_export (fit 8 (decimal_int (ircut_gpio2 c))), GpioClose gpio_export]"
  let ?u1 = "[GpioWrite (?g ''direction'') ''out'', GpioWrite (?h ''direction'') ''out''] @
     close_pins (?g ''direction'') (?h ''direction'')"
  let ?u2 = "[GpioWrite (?g ''active_low'') ''0'', GpioWrite (?h ''active_low'') ''0''] @
     close_pins (?g ''active_low'') (?h ''active_low'')"
  let ?u3 = "[GpioWrite (?g ''value'') ''0'', GpioSleep 10000, GpioWrite (?g ''value'') (ircut_on enable),
     GpioWrite (?h ''value'') (ircut_off enable)] @
     (if enable = 0 then [GpioSleep 10000, GpioWrite (?g ''value'') (ircut_off enable)] else []) @
     close_pins (?g ''value'') (?h ''value'')"
  note opened = open_pins_files [of _ env "?g ''direction''" "?h ''direction''", unfolded o1 fst_conv snd_conv]
    open_pins_files [of _ env "?g ''active_low''" "?h ''active_low''", unfolded o2 fst_conv snd_conv]
    open_pins_files [of _ env "?g ''value''" "?h ''value''", unfolded o3 fst_conv snd_conv]
  consider (none) "calls = []" "r = -1"
    | (script) "script env" "gpio_open [] calls = Some []" "0 \<le> ircut_gpio1 c" "0 \<le> ircut_gpio2 c"
    | (first) "calls = ?w0 @ w1" "\<not> ok1" "r = -1" "0 \<le> ircut_gpio1 c" "0 \<le> ircut_gpio2 c"
    | (second) "calls = ?w0 @ w1 @ ?u1 @ w2" "ok1" "\<not> ok2" "r = -1" "0 \<le> ircut_gpio1 c" "0 \<le> ircut_gpio2 c"
    | (third) "calls = ?w0 @ w1 @ ?u1 @ w2 @ ?u2 @ w3" "ok1" "ok2" "\<not> ok3" "r = -1" "0 \<le> ircut_gpio1 c" "0 \<le> ircut_gpio2 c"
    | (all) "calls = ?w0 @ w1 @ ?u1 @ w2 @ ?u2 @ w3 @ ?u3" "ok1" "ok2" "ok3" "0 \<le> ircut_gpio1 c" "0 \<le> ircut_gpio2 c"
    using assms by (auto simp: photosensing_set_ircut_def o1 o2 o3 Let_def split: if_splits)
  note path = this
  have 1: "gpio_open [] calls = Some []"
    using path by cases (simp_all add: gpio_open_append opened close_pins_def)
  have 2: "r = -1 \<and> calls = []" if "ircut_gpio1 c < 0 \<or> ircut_gpio2 c < 0"
    using path that by cases auto
  have 3: "level (?g ''value'') calls = Some (if enable = 0 then ''1'' else decimal_int enable) \<and>
      level (?h ''value'') calls = Some (if enable = 0 then ''1'' else ''0'')"
    if "r = 0" "\<not> script env" "?g ''value'' \<noteq> ?h ''value''"
    using path
  proof cases
    case all
    have "level (?g ''value'') ?u3 = Some (if enable = 0 then ''1'' else decimal_int enable) \<and>
        level (?h ''value'') ?u3 = Some (if enable = 0 then ''1'' else ''0'')"
      using that(3) by (simp add: close_pins_def ircut_on_def ircut_off_level)
    then show ?thesis unfolding all(1) level_append by simp
  qed (use that in simp_all)
  from 1 2 3 show ?thesis by blast
qed

text \<open>
  The level is printed into four bytes: any state outside -99 and 999 overruns them, and the configuration
  check, which does not look at the states, lets one through.
\<close>

lemma ircut_state_overrun:
  "photosensing_module_config_validate
     (Some (photosensing_defaults\<lparr>ircut_gpio1 := 79, ircut_gpio2 := 80, ircut_day_state := 1000\<rparr>)) = 0 \<and>
   4 < length (ircut_on 1000) + 1"
proof
  show "4 < length (ircut_on 1000) + 1" by code_simp
qed (simp add: photosensing_module_config_validate_def photosensing_defaults_def float_of_int_def float_round_def
    float_bounded_def float_le_def Let_def)

text \<open>The defaults alone are rejected: the pins have to be configured.\<close>

lemma photosensing_defaults_rejected:
  "photosensing_module_config_validate (Some photosensing_defaults) = -1"
  by (simp add: photosensing_module_config_validate_def photosensing_defaults_def)

section \<open>Examples\<close>

definition ps_sample_config :: photosensing_module_config where
  "ps_sample_config = photosensing_defaults\<lparr>ircut_gpio1 := 79, ircut_gpio2 := 80, night_count_threshold := 1\<rparr>"

definition ps_sample :: photosensing_state where
  "ps_sample = zero_photosensing\<lparr>ps_config := ps_sample_config, ps_initialized := True, ps_running := True,
     ps_thread_alive := True, ps_mutex := True\<rparr>"

definition ps_sample_world :: ps_world where
  "ps_sample_world = \<lparr>isp_mode = IMPISP_RUNNING_MODE_DAY, ps_trace = []\<rparr>"

definition ps_reading_of :: "int \<Rightarrow> int \<Rightarrow> ps_reading" where
  "ps_reading_of e gain =
     \<lparr>ev = Some e, white_balance = Some (gain, gain), samples = (\<lambda>i. (gain, gain)), other_mode = None,
      set_ok = True, night_gpio = \<lparr>script = True, opens = (\<lambda>p. True)\<rparr>,
      day_gpio = \<lparr>script = False, opens = (\<lambda>p. True)\<rparr>, conversion_ub = 0\<rparr>"

lemma ps_sample_simps [simp]:
  "thread_live ps_sample" "night_count ps_sample = 0" "day_count ps_sample = 0" "\<not> ircut_status ps_sample"
  "ps_config ps_sample = ps_sample_config" "good_reading (ps_reading_of e gain)"
  "ev (ps_reading_of e gain) = Some e" "other_mode (ps_reading_of e gain) = None" "set_ok (ps_reading_of e gain)"
  "night_count_threshold ps_sample_config = 1"
  "night_iso_threshold ps_sample_config = float_of_int 1900000"
  "day_iso_threshold ps_sample_config = float_of_int 479832"
  "isp_mode ps_sample_world = IMPISP_RUNNING_MODE_DAY"
  by (simp_all add: ps_sample_def ps_sample_config_def photosensing_defaults_def zero_photosensing_def
      thread_live_def ps_reading_of_def good_reading_def ps_sample_world_def)

lemma ps_sample_dark [simp]:
  "is_dark ps_sample_config (reading_iso (ps_reading_of 2000000 gain))"
  "\<not> is_dark ps_sample_config (reading_iso (ps_reading_of 300000 gain))"
  by (simp_all add: is_dark_def reading_iso_def float_of_int_def float_round_def float_bounded_def Let_def)

theorem photosensing_counts_witness:
  "night_count (fst (thread_run ps_sample ps_sample_world
     [ps_reading_of 2000000 90, ps_reading_of 300000 90, ps_reading_of 2000000 90])) = 1"
  using photosensing_counts [of ps_sample "[ps_reading_of 2000000 90, ps_reading_of 300000 90, ps_reading_of 2000000 90]"
      ps_sample_world, OF _ _ surjective_pairing]
  by simp

text \<open>One dark reading is not enough.\<close>

lemma ps_first_dark:
  assumes "thread_run ps_sample ps_sample_world [ps_reading_of 2000000 90] = (s1, w1)"
  shows "isp_mode w1 = IMPISP_RUNNING_MODE_DAY"
proof -
  let ?r = "ps_reading_of 2000000 90"
  obtain go_on s3 w3 where p: "photosensing_poll ps_sample ps_sample_world ?r = (go_on, s3, w3)" by (metis prod.exhaust)
  have le: "float_le (day_iso_threshold ps_sample_config) (night_iso_threshold ps_sample_config)"
    by (simp add: float_le_def float_of_int_def float_round_def float_bounded_def Let_def)
  have "\<not> to_night ?r (reading_iso ?r) ps_sample (mode_before ?r ps_sample_world)" by (simp add: to_night_def)
  with poll_effect(7) [OF _ p] dark_is_no_candidate [OF le, of ?r 2000000]
  have "isp_mode w3 = IMPISP_RUNNING_MODE_DAY" by (simp add: mode_before_def)
  with thread_round [OF _ _ p] assms show ?thesis by simp
qed

theorem photosensing_night_switch_witness:
  "(\<exists>new. ps_trace (snd (thread_run ps_sample ps_sample_world [ps_reading_of 300000 90, ps_reading_of 2000000 90])) =
     ps_trace (snd (thread_run ps_sample ps_sample_world [ps_reading_of 300000 90])) @ new \<and>
     IspSetMode IMPISP_RUNNING_MODE_NIGHT \<notin> set new) \<and>
   (\<exists>new. ps_trace (snd (thread_run ps_sample ps_sample_world [ps_reading_of 2000000 90, ps_reading_of 2000000 90])) =
     ps_trace (snd (thread_run ps_sample ps_sample_world [ps_reading_of 2000000 90])) @ new \<and>
     IspSetMode IMPISP_RUNNING_MODE_NIGHT \<in> set new)"
proof -
  have step: "\<exists>s1 w1 s2 w2. thread_run ps_sample ps_sample_world [r] = (s1, w1) \<and>
      photosensing_control_thread s1 w1 r2 = (s2, w2) \<and> thread_run ps_sample ps_sample_world [r, r2] = (s2, w2)" for r r2
    using thread_run_append [of ps_sample ps_sample_world "[r]" "[r2]"] by (simp split: prod.split)
  obtain s1 w1 s2 w2 where a: "thread_run ps_sample ps_sample_world [ps_reading_of 300000 90] = (s1, w1)"
    "photosensing_control_thread s1 w1 (ps_reading_of 2000000 90) = (s2, w2)"
    "thread_run ps_sample ps_sample_world [ps_reading_of 300000 90, ps_reading_of 2000000 90] = (s2, w2)"
    using step by blast
  obtain s3 w3 s4 w4 where b: "thread_run ps_sample ps_sample_world [ps_reading_of 2000000 90] = (s3, w3)"
    "photosensing_control_thread s3 w3 (ps_reading_of 2000000 90) = (s4, w4)"
    "thread_run ps_sample ps_sample_world [ps_reading_of 2000000 90, ps_reading_of 2000000 90] = (s4, w4)"
    using step by blast
  have "isp_mode (mode_before (ps_reading_of 2000000 90) w3) \<noteq> IMPISP_RUNNING_MODE_NIGHT"
    using ps_first_dark [OF b(1)] by (simp add: mode_before_def)
  with photosensing_night_switch [OF _ _ a(1) _ _ a(2)] photosensing_night_switch [OF _ _ b(1) _ _ b(2)] a(1,3) b(1,3)
  show ?thesis by simp
qed

theorem photosensing_night_reached_witness:
  "isp_mode (snd (thread_run ps_sample ps_sample_world [ps_reading_of 2000000 90, ps_reading_of 2000000 90])) =
     IMPISP_RUNNING_MODE_NIGHT"
proof -
  have "float_le (float_of_int 479832) (float_of_int 1900000)"
    by (simp add: float_le_def float_of_int_def float_round_def float_bounded_def Let_def)
  then show ?thesis
    using photosensing_night_reached [of ps_sample ps_sample_world "[ps_reading_of 2000000 90, ps_reading_of 2000000 90]",
        OF _ surjective_pairing]
    by simp
qed

theorem photosensing_stuck_at_night_witness:
  "isp_mode (snd (thread_run ps_sample (ps_sample_world\<lparr>isp_mode := IMPISP_RUNNING_MODE_NIGHT\<rparr>)
     (replicate 100 (ps_reading_of 300000 250)))) = IMPISP_RUNNING_MODE_NIGHT"
  using photosensing_stuck_at_night [of "ps_sample_world\<lparr>isp_mode := IMPISP_RUNNING_MODE_NIGHT\<rparr>" ps_sample
      "replicate 100 (ps_reading_of 300000 250)", OF _ _ _ surjective_pairing]
  by simp

theorem photosensing_invariant_witness:
  "0 \<le> day_count (fst (foldl ps_step (zero_photosensing, ps_sample_world)
     [PsInit (Some ps_sample_config) True 5, PsStart True (day_gpio (ps_reading_of 0 0)) True,
      PsRound (ps_reading_of 2000000 90), PsStop]))"
  using photosensing_invariant [OF surjective_pairing] by blast

theorem photosensing_ircut_files_witness:
  "gpio_open [] (snd (photosensing_set_ircut ps_sample_config (day_gpio (ps_reading_of 0 0)) 0)) = Some []"
  using photosensing_ircut_files [OF surjective_pairing] by blast

text \<open>
  Starting again after a stop at night: the ISP is in the day mode, the module still counts as in the
  night mode, and the next switch to the night is not counted.
\<close>

lemma restart_keeps_night:
  assumes "ps_initialized s" and "ps_enabled (ps_config s)" and "\<not> ps_running s"
    and "current_mode s = PHOTOSENSING_MODE_NIGHT"
    and "photosensing_module_start True g t s w = (r, s1, w1)" and "switch_to_night x s1 w1 = (s2, w2)"
  shows "isp_mode w1 = IMPISP_RUNNING_MODE_DAY" "current_mode s1 = PHOTOSENSING_MODE_NIGHT"
    and "mode_switches (ps_stats s2) = mode_switches (ps_stats s1)"
proof -
  obtain s3 w3 where m: "move_ircut g (ircut_day_state (ps_config s)) s (isp_set True IMPISP_RUNNING_MODE_DAY w) = (s3, w3)"
    by (metis prod.exhaust)
  note k = move_ircut_keeps [OF m]
  have w: "w1 = w3" using assms(1-3,5) m by (cases t) (auto simp: photosensing_module_start_def Let_def)
  with k(2) show "isp_mode w1 = IMPISP_RUNNING_MODE_DAY" by simp
  have s1: "current_mode s1 = current_mode s3" 
    using assms(1-3,5) m by (cases t) (auto simp: photosensing_module_start_def Let_def)
  with k(1) assms(4) show c: "current_mode s1 = PHOTOSENSING_MODE_NIGHT" by simp
  obtain s4 w4 where n: "move_ircut (night_gpio x) (ircut_night_state (ps_config s1)) s1
      (isp_set (set_ok x) IMPISP_RUNNING_MODE_NIGHT w1) = (s4, w4)"
    by (metis prod.exhaust)
  with assms(6) c move_ircut_keeps(1) [OF n] show "mode_switches (ps_stats s2) = mode_switches (ps_stats s1)"
    by (auto simp: switch_to_night_def Let_def)
qed

text \<open>
  A round whose reading fails ends the thread, but the module goes on counting as running, so that starting
  it again does nothing.
\<close>

lemma failed_reading_ends_thread:
  assumes "thread_live s" and "\<not> good_reading r" and "ps_running s" and "ps_initialized s"
    and "photosensing_control_thread s w r = (s1, w1)"
  shows "\<not> ps_thread_alive s1" "photosensing_module_start a g t s1 w1 = (0, s1, w1)"
  using assms poll_failed [OF assms(2), of s w]
  by (auto simp: photosensing_control_thread_def thread_live_def photosensing_module_start_def)

end
