(* ===== verification/Motion.thy ===== *)
theory Motion
  imports JsonConfig FrameManager "HOL-Library.Signed_Division"
begin

text \<open>
  \<open>motion_module.c\<close>: the module that sets up the detection of the vendor library on zones of the picture,
  turns its results into motion events and runs a script when one begins and ends. The vendor library is a
  parameter: which of its calls succeed and what it reports. What is asked of it, and the scripts run, are
  recorded in order.
\<close>

section \<open>Configuration\<close>

record motion_zone =
  zone_id :: c_int
  zone_type :: string
  zone_x :: c_int
  zone_y :: c_int
  zone_width :: c_int
  zone_height :: c_int
  zone_name :: string

record motion_module_config =
  motion_enabled :: bool
  monitor_stream :: c_int
  sensitivity :: c_int
  skip_frame_count :: c_int
  ivs_polling_timeout :: c_int
  cooldown_time :: c_int
  debounce_time :: c_int
  init_time :: c_int
  min_time :: c_int
  post_time :: c_int
  frame_width :: c_int
  frame_height :: c_int
  zone_count :: c_int
  zones :: "motion_zone list"
  min_object_size :: c_int
  script_path :: string

definition MOTION_MAX_ROI_COUNT :: nat where
  "MOTION_MAX_ROI_COUNT = 4"

definition zero_zone :: motion_zone where
  "zero_zone = \<lparr>zone_id = 0, zone_type = [], zone_x = 0, zone_y = 0, zone_width = 0, zone_height = 0, zone_name = []\<rparr>"

text \<open>The zone that stands for the whole picture: its size is filled in by the initialisation.\<close>

definition full_frame :: motion_zone where
  "full_frame = zero_zone\<lparr>zone_id := 1, zone_type := ''include'', zone_name := ''full_frame''\<rparr>"

definition use_full_frame :: "motion_module_config \<Rightarrow> motion_module_config" where
  "use_full_frame c = c\<lparr>zone_count := 1, zones := (zones c)[0 := full_frame]\<rparr>"

definition motion_set_default_config :: motion_module_config where
  "motion_set_default_config =
     \<lparr>motion_enabled = False, monitor_stream = 1, sensitivity = 1, skip_frame_count = 5, ivs_polling_timeout = 1000,
      cooldown_time = 5, debounce_time = 0, init_time = 5, min_time = 1, post_time = 0, frame_width = 1920,
      frame_height = 1080, zone_count = 1, zones = full_frame # replicate (MOTION_MAX_ROI_COUNT - 1) zero_zone,
      min_object_size = 5, script_path = ''/usr/sbin/motion''\<rparr>"

definition motion_module_config_parse ::
  "'j json_c \<Rightarrow> 'j option \<Rightarrow> bool \<Rightarrow> c_int \<times> motion_module_config option" where
  "motion_module_config_parse J json config =
     (case json of
        None \<Rightarrow> (-1, None)
      | Some j \<Rightarrow>
          if \<not> config then (-1, None)
          else
            (let c0 = motion_set_default_config;
                 c1 = if_member J j ''enabled'' (\<lambda>v c. c\<lparr>motion_enabled := json_boolean J v\<rparr>) c0;
                 c2 = if_member J j ''monitor_stream'' (\<lambda>v c. c\<lparr>monitor_stream := json_int J v\<rparr>) c1;
                 c3 = if_member J j ''sensitivity'' (\<lambda>v c. c\<lparr>sensitivity := json_int J v\<rparr>) c2;
                 c4 = if_member J j ''skip_frame_count'' (\<lambda>v c. c\<lparr>skip_frame_count := json_int J v\<rparr>) c3;
                 c5 = if_member J j ''ivs_polling_timeout'' (\<lambda>v c. c\<lparr>ivs_polling_timeout := json_int J v\<rparr>) c4;
                 c6 = if_member J j ''cooldown_time'' (\<lambda>v c. c\<lparr>cooldown_time := json_int J v\<rparr>) c5;
                 c7 = if_member J j ''debounce_time'' (\<lambda>v c. c\<lparr>debounce_time := json_int J v\<rparr>) c6;
                 c8 = if_member J j ''init_time'' (\<lambda>v c. c\<lparr>init_time := json_int J v\<rparr>) c7;
                 c9 = if_member J j ''min_time'' (\<lambda>v c. c\<lparr>min_time := json_int J v\<rparr>) c8;
                 c10 = if_member J j ''post_time'' (\<lambda>v c. c\<lparr>post_time := json_int J v\<rparr>) c9
             in (0, Some (text_member J j ''script_path'' 256 (\<lambda>s c. c\<lparr>script_path := s\<rparr>) c10))))"

definition zone_valid :: "motion_zone \<Rightarrow> bool" where
  "zone_valid z \<longleftrightarrow>
     zone_width z = 0 \<and> zone_height z = 0 \<or>
     0 < zone_width z \<and> 0 < zone_height z \<and> 0 \<le> zone_x z \<and> 0 \<le> zone_y z \<and>
     (zone_type z = ''include'' \<or> zone_type z = ''exclude'')"

definition motion_module_config_validate :: "motion_module_config option \<Rightarrow> c_int" where
  "motion_module_config_validate config =
     (case config of
        None \<Rightarrow> -1
      | Some c \<Rightarrow>
          if sensitivity c < 0 \<or> 8 < sensitivity c then -1
          else if zone_count c < 1 \<or> int MOTION_MAX_ROI_COUNT < zone_count c then -1
          else if \<not> list_all zone_valid (take (nat (zone_count c)) (zones c)) then -1
          else 0)"

section \<open>Zones\<close>

definition parse_zone :: "'j json_c \<Rightarrow> 'j \<Rightarrow> motion_zone \<Rightarrow> motion_zone" where
  "parse_zone J j z =
     (let z1 = if_member J j ''id'' (\<lambda>v z. z\<lparr>zone_id := json_int J v\<rparr>) z;
          z2 = text_member J j ''type'' 16 (\<lambda>s z. z\<lparr>zone_type := s\<rparr>) z1;
          z3 = text_member J j ''name'' 64 (\<lambda>s z. z\<lparr>zone_name := s\<rparr>) z2;
          z4 = if_member J j ''x'' (\<lambda>v z. z\<lparr>zone_x := json_int J v\<rparr>) z3;
          z5 = if_member J j ''y'' (\<lambda>v z. z\<lparr>zone_y := json_int J v\<rparr>) z4;
          z6 = if_member J j ''width'' (\<lambda>v z. z\<lparr>zone_width := json_int J v\<rparr>) z5
      in if_member J j ''height'' (\<lambda>v z. z\<lparr>zone_height := json_int J v\<rparr>) z6)"

text \<open>The elements of the list and the zones of the array side by side; a null element is skipped.\<close>

fun parse_zones :: "'j json_c \<Rightarrow> 'j option list \<Rightarrow> motion_zone list \<Rightarrow> motion_zone list" where
  "parse_zones J (v # vs) (z # zs) =
     (case v of None \<Rightarrow> z | Some j \<Rightarrow> parse_zone J j z) # parse_zones J vs zs"
| "parse_zones J vs zs = zs"

text \<open>\<open>atoi(sens_str) / 10\<close>, limited to 0 to 8; the division of C rounds towards zero.\<close>

definition scaled_sensitivity :: "string \<Rightarrow> c_int" where
  "scaled_sensitivity s = (let q = atoi s sdiv 10 in if 8 < q then 8 else if q < 0 then 0 else q)"

definition parse_zone_settings :: "'j json_c \<Rightarrow> 'j \<Rightarrow> motion_module_config \<Rightarrow> motion_module_config" where
  "parse_zone_settings J j c =
     (let c1 = if_member J j ''sensitivity'' (\<lambda>v c. case json_string J v of
                 None \<Rightarrow> c | Some s \<Rightarrow> c\<lparr>sensitivity := scaled_sensitivity s\<rparr>) c
      in if_member J j ''minObjectSize'' (\<lambda>v c. case json_string J v of
           None \<Rightarrow> c | Some s \<Rightarrow> c\<lparr>min_object_size := atoi s\<rparr>) c1)"

definition parse_zone_config :: "'j json_c \<Rightarrow> 'j \<Rightarrow> motion_module_config \<Rightarrow> motion_module_config" where
  "parse_zone_config J j c =
     (case (case json_get J j ''zones'' of None \<Rightarrow> None | Some v \<Rightarrow> json_array J v) of
        None \<Rightarrow> use_full_frame c
      | Some vs \<Rightarrow>
          if_member J j ''settings'' (parse_zone_settings J)
            (c\<lparr>zone_count := int (min MOTION_MAX_ROI_COUNT (length vs)), zones := parse_zones J vs (zones c)\<rparr>))"

text \<open>
  What the two paths of the file yield, in order: a document, or \<open>None\<close> if there is no file, no memory or no
  document in it.
\<close>

definition load_roi_config :: "'j json_c \<Rightarrow> 'j option list \<Rightarrow> motion_module_config \<Rightarrow> motion_module_config" where
  "load_roi_config J files c =
     (case find (\<lambda>f. f \<noteq> None) files of
        Some (Some j) \<Rightarrow> parse_zone_config J j c
      | _ \<Rightarrow> (use_full_frame c)\<lparr>min_object_size := 5\<rparr>)"

text \<open>The channels of the frame source, as the configuration of the encoder has them.\<close>

record fs_channel =
  fs_enable :: bool
  fs_scaler :: "(c_int \<times> c_int) option"
  fs_picture :: "c_int \<times> c_int"

definition motion_get_channel_dimensions :: "fs_channel list \<Rightarrow> c_int \<Rightarrow> (c_int \<times> c_int) option" where
  "motion_get_channel_dimensions chn channel =
     (if channel < 0 \<or> int FS_CHN_NUM \<le> channel then None
      else if \<not> fs_enable (chn ! nat channel) then None
      else Some (case fs_scaler (chn ! nat channel) of Some d \<Rightarrow> d | None \<Rightarrow> fs_picture (chn ! nat channel)))"

definition fill_zone :: "c_int \<Rightarrow> c_int \<Rightarrow> motion_zone \<Rightarrow> motion_zone" where
  "fill_zone w h z =
     (if zone_width z = 0 \<and> zone_height z = 0 then z\<lparr>zone_width := w, zone_height := h\<rparr> else z)"

text \<open>The zones in use, the first \<open>zone_count\<close> of the array, with a function applied to each.\<close>

definition map_zones :: "(motion_zone \<Rightarrow> motion_zone) \<Rightarrow> motion_module_config \<Rightarrow> motion_module_config" where
  "map_zones f c =
     c\<lparr>zones := map f (take (nat (zone_count c)) (zones c)) @ drop (nat (zone_count c)) (zones c)\<rparr>"

definition fit_channel :: "fs_channel list \<Rightarrow> motion_module_config \<Rightarrow> motion_module_config" where
  "fit_channel chn c =
     (case motion_get_channel_dimensions chn (monitor_stream c) of
        None \<Rightarrow> c
      | Some (w, h) \<Rightarrow> map_zones (fill_zone w h) (c\<lparr>frame_width := w, frame_height := h\<rparr>))"


section \<open>State\<close>

text \<open>The rectangle of a region with its sensitivity, and what the vendor library is told of the detection.\<close>

record ivs_roi =
  roi_sense :: c_int
  roi_p0 :: "c_int \<times> c_int"
  roi_p1 :: "c_int \<times> c_int"

record ivs_param =
  param_width :: c_int
  param_height :: c_int
  param_skip :: c_int
  param_rois :: "ivs_roi list"

text \<open>
  The calls of the vendor library with their success, those that release an object apart, the scripts run,
  the failures to start one, and the calls of the on-screen display.
\<close>

datatype release_call =
  IvsStop | IvsUnBind c_int | IvsUnRegister | IvsDestroyChn | IvsDestroyInterface | IvsDestroyGroup

datatype motion_call =
  IvsCreateGroup bool | IvsCreateInterface ivs_param bool | IvsCreateChn bool | IvsRegisterChn bool
| IvsBind c_int bool | IvsStart bool | IvsRelease release_call bool
| MotionScript string | ForkFailed | OsdUpdateZones nat | OsdEnableZones nat bool

record motion_state =
  mo_initialized :: bool
  mo_running :: bool
  mo_config :: motion_module_config
  ivs_interface :: bool
  mo_thread :: bool
  mo_exit :: bool
  mo_mutex :: bool
  motion_detected :: bool
  motion_start_script_executed :: bool
  last_motion_time :: u32
  motion_start_time :: u32
  motion_events :: u32
  frames_processed :: u32
  mo_calls :: "motion_call list"

definition zero_motion_config :: motion_module_config where
  "zero_motion_config =
     \<lparr>motion_enabled = False, monitor_stream = 0, sensitivity = 0, skip_frame_count = 0, ivs_polling_timeout = 0,
      cooldown_time = 0, debounce_time = 0, init_time = 0, min_time = 0, post_time = 0, frame_width = 0,
      frame_height = 0, zone_count = 0, zones = replicate MOTION_MAX_ROI_COUNT zero_zone, min_object_size = 0,
      script_path = []\<rparr>"

definition zero_motion :: motion_state where
  "zero_motion =
     \<lparr>mo_initialized = False, mo_running = False, mo_config = zero_motion_config, ivs_interface = False,
      mo_thread = False, mo_exit = False, mo_mutex = False, motion_detected = False,
      motion_start_script_executed = False, last_motion_time = 0, motion_start_time = 0, motion_events = 0,
      frames_processed = 0, mo_calls = []\<rparr>"

definition note_calls :: "motion_call list \<Rightarrow> motion_state \<Rightarrow> motion_state" where
  "note_calls cs s = s\<lparr>mo_calls := mo_calls s @ cs\<rparr>"

section \<open>The detection of the vendor library\<close>

text \<open>
  Which calls succeed, and \<open>IMP_IVS_MOVE_MAX_ROI_CNT\<close>, a constant of the vendor library. Whether a call that
  releases an object succeeds may depend on the calls made before.
\<close>

record ivs_env =
  max_roi :: nat
  group_ok :: bool
  interface_ok :: bool
  create_chn_ok :: bool
  register_ok :: bool
  bind_ok :: bool
  start_ok :: bool
  teardown_ok :: "motion_call list \<Rightarrow> release_call \<Rightarrow> bool"

definition include_zones :: "nat \<Rightarrow> motion_module_config \<Rightarrow> motion_zone list" where
  "include_zones n c = take n (filter (\<lambda>z. zone_type z = ''include'') (take (nat (zone_count c)) (zones c)))"

definition zone_roi :: "motion_module_config \<Rightarrow> motion_zone \<Rightarrow> ivs_roi" where
  "zone_roi c z = \<lparr>roi_sense = sensitivity c, roi_p0 = (zone_x z, zone_y z),
     roi_p1 = (zone_x z + zone_width z, zone_y z + zone_height z)\<rparr>"

definition move_param :: "nat \<Rightarrow> motion_module_config \<Rightarrow> ivs_param" where
  "move_param n c =
     \<lparr>param_width = frame_width c, param_height = frame_height c, param_skip = skip_frame_count c,
      param_rois = map (zone_roi c) (include_zones n c)\<rparr>"

text \<open>A release call: its result, negative if it fails.\<close>

definition ivs_release :: "ivs_env \<Rightarrow> release_call \<Rightarrow> motion_state \<Rightarrow> c_int \<times> motion_state" where
  "ivs_release env x s =
     (let ok = teardown_ok env (mo_calls s) x in (if ok then 0 else -1, note_calls [IvsRelease x ok] s))"

text \<open>Release calls one after another, the result -1 as soon as one of them failed.\<close>

fun ivs_releases :: "ivs_env \<Rightarrow> release_call list \<Rightarrow> motion_state \<Rightarrow> c_int \<times> motion_state" where
  "ivs_releases env [] s = (0, s)"
| "ivs_releases env (x # xs) s =
     (case ivs_release env x s of (r, s1) \<Rightarrow>
        (case ivs_releases env xs s1 of (r2, s2) \<Rightarrow> (if r < 0 then -1 else r2, s2)))"

text \<open>The result of destroying the interface, which returns none, does not count.\<close>

definition motion_cleanup_ivs :: "ivs_env \<Rightarrow> motion_state \<Rightarrow> c_int \<times> motion_state" where
  "motion_cleanup_ivs env s =
     (case ivs_releases env [IvsStop, IvsUnBind (monitor_stream (mo_config s)), IvsUnRegister, IvsDestroyChn] s of
        (r1, s1) \<Rightarrow>
          (let s2 = (if ivs_interface s1
                     then (snd (ivs_release env IvsDestroyInterface s1))\<lparr>ivs_interface := False\<rparr> else s1)
           in (case ivs_release env IvsDestroyGroup s2 of (r3, s3) \<Rightarrow> (if r1 < 0 \<or> r3 < 0 then -1 else 0, s3))))"

definition motion_setup_ivs :: "ivs_env \<Rightarrow> motion_state \<Rightarrow> c_int \<times> motion_state" where
  "motion_setup_ivs env s =
     (let c = mo_config s; p = move_param (max_roi env) c; stream = monitor_stream c
      in if \<not> group_ok env then (-1, note_calls [IvsCreateGroup False] s)
         else
           (let s1 = note_calls [IvsCreateGroup True, IvsCreateInterface p (interface_ok env)]
                       (s\<lparr>ivs_interface := interface_ok env\<rparr>)
            in if \<not> interface_ok env then (-1, snd (ivs_releases env [IvsDestroyGroup] s1))
               else if \<not> create_chn_ok env then
                 (-1, snd (ivs_releases env [IvsDestroyInterface, IvsDestroyGroup]
                        (note_calls [IvsCreateChn False] s1)))
               else if \<not> register_ok env then
                 (-1, snd (ivs_releases env [IvsDestroyChn, IvsDestroyInterface, IvsDestroyGroup]
                        (note_calls [IvsCreateChn True, IvsRegisterChn False] s1)))
               else if \<not> bind_ok env then
                 (-1, snd (motion_cleanup_ivs env
                        (note_calls [IvsCreateChn True, IvsRegisterChn True, IvsBind stream False] s1)))
               else if \<not> start_ok env then
                 (-1, snd (motion_cleanup_ivs env (snd (ivs_releases env [IvsUnBind stream]
                        (note_calls [IvsCreateChn True, IvsRegisterChn True, IvsBind stream True, IvsStart False] s1)))))
               else
                 (0, note_calls [IvsCreateChn True, IvsRegisterChn True, IvsBind stream True, IvsStart True] s1)))"

section \<open>Results and scripts\<close>

text \<open>
  The script with its action, as the shell is given it; the program waits for it to end. If the process for it
  cannot be made no script runs and the result is -1.
\<close>

definition motion_execute_script :: "bool \<Rightarrow> string \<Rightarrow> motion_state \<Rightarrow> c_int \<times> motion_state" where
  "motion_execute_script fork_ok action s =
     (if script_path (mo_config s) = [] then (0, s)
      else if fork_ok then
        (0, note_calls [MotionScript (fit 512 (script_path (mo_config s) @ '' '' @ action))] s)
      else (-1, note_calls [ForkFailed] s))"

text \<open>Whether one of the regions of the include zones reports motion; \<open>ret_roi\<close> are the regions whose result is 1.\<close>

definition motion_in_any_roi :: "nat \<Rightarrow> motion_module_config \<Rightarrow> (nat \<Rightarrow> bool) \<Rightarrow> bool" where
  "motion_in_any_roi n c ret_roi \<longleftrightarrow> list_ex ret_roi [0..<length (include_zones n c)]"

definition in_cooldown :: "u32 \<Rightarrow> motion_state \<Rightarrow> bool" where
  "in_cooldown now s \<longleftrightarrow>
     0 < last_motion_time s \<and> now - last_motion_time s < word_of_int (cooldown_time (mo_config s))"

text \<open>A result at the second \<open>now\<close>.\<close>

definition new_event :: "u32 \<Rightarrow> motion_state \<Rightarrow> motion_state" where
  "new_event now s =
     (if motion_detected s then s
      else s\<lparr>motion_detected := True, motion_start_script_executed := False, motion_start_time := now,
             motion_events := motion_events s + 1\<rparr>)"

definition start_script :: "bool \<Rightarrow> motion_state \<Rightarrow> motion_state" where
  "start_script fork_ok s =
     (if \<not> motion_start_script_executed s \<and> script_path (mo_config s) \<noteq> []
      then snd (motion_execute_script fork_ok ''start'' (s\<lparr>motion_start_script_executed := True\<rparr>)) else s)"

text \<open>The results of the script are not looked at; a result runs one script at most.\<close>

definition motion_process_result ::
  "nat \<Rightarrow> u32 \<Rightarrow> (nat \<Rightarrow> bool) \<Rightarrow> bool \<Rightarrow> motion_state \<Rightarrow> motion_state" where
  "motion_process_result n now ret_roi fork_ok s =
     (if motion_in_any_roi n (mo_config s) ret_roi then
        (if in_cooldown now s then s else (start_script fork_ok (new_event now s))\<lparr>last_motion_time := now\<rparr>)
      else if motion_detected s \<and> word_of_int (min_time (mo_config s)) \<le> now - motion_start_time s
      then snd (motion_execute_script fork_ok ''stop'' (s\<lparr>motion_detected := False\<rparr>))
      else s)"

text \<open>
  A round of the thread: the library has no result in time or fails, has no data, or reports the regions with
  motion. The time is what \<open>get_monotonic_time_us\<close> returns, in microseconds; with it comes whether a process
  for a script can be made in this round.
\<close>

datatype motion_round = PollFailed | GetFailed | NoResult | MotionResult int "nat \<Rightarrow> bool" bool

definition motion_detection_thread :: "nat \<Rightarrow> motion_state \<Rightarrow> motion_round \<Rightarrow> motion_state" where
  "motion_detection_thread n s r =
     (if \<not> mo_thread s then s
      else if mo_exit s then s\<lparr>mo_thread := False\<rparr>
      else (case r of
              MotionResult us roi fork_ok \<Rightarrow>
                (let s1 = motion_process_result n (word_of_int (us div 1000000)) roi fork_ok s
                 in s1\<lparr>frames_processed := frames_processed s1 + 1\<rparr>)
            | NoResult \<Rightarrow> s\<lparr>frames_processed := frames_processed s + 1\<rparr>
            | _ \<Rightarrow> s))"

section \<open>Life cycle\<close>

definition motion_module_init ::
  "'j json_c \<Rightarrow> 'j option list \<Rightarrow> fs_channel list \<Rightarrow> bool \<Rightarrow> motion_module_config option \<Rightarrow> motion_state \<Rightarrow>
     c_int \<times> motion_state" where
  "motion_module_init J files chn mutex_ok config s =
     (if mo_initialized s then (0, s)
      else case config of
        None \<Rightarrow> (-1, s)
      | Some c \<Rightarrow>
          (let s1 = s\<lparr>mo_config := fit_channel chn (load_roi_config J files c)\<rparr>
           in if \<not> mutex_ok then (-1, s1)
              else (0, (note_calls [OsdUpdateZones 0, OsdUpdateZones 1] s1)\<lparr>mo_mutex := True,
                      motion_detected := False, motion_start_script_executed := False, last_motion_time := 0,
                      motion_start_time := 0, motion_events := 0, frames_processed := 0, mo_initialized := True\<rparr>)))"

definition motion_module_start :: "ivs_env \<Rightarrow> bool \<Rightarrow> motion_state \<Rightarrow> c_int \<times> motion_state" where
  "motion_module_start env thread_ok s =
     (if \<not> mo_initialized s then (-1, s)
      else if mo_running s then (0, s)
      else if \<not> motion_enabled (mo_config s) then (0, s)
      else (case motion_setup_ivs env s of (r, s1) \<Rightarrow>
              if r \<noteq> 0 then (-1, s1)
              else if \<not> thread_ok then (-1, snd (motion_cleanup_ivs env (s1\<lparr>mo_exit := False\<rparr>)))
              else (0, note_calls [OsdUpdateZones 0, OsdUpdateZones 1]
                         (s1\<lparr>mo_exit := False, mo_thread := True, mo_running := True\<rparr>))))"

text \<open>The thread, which sees the flag at the beginning of its next round, has ended when it is joined.\<close>

definition motion_module_stop :: "ivs_env \<Rightarrow> bool \<Rightarrow> motion_state \<Rightarrow> c_int \<times> motion_state" where
  "motion_module_stop env join_ok s =
     (if \<not> mo_running s then (0, s)
      else if \<not> join_ok then (-1, s\<lparr>mo_exit := True\<rparr>)
      else (0, (snd (motion_cleanup_ivs env (s\<lparr>mo_exit := True, mo_thread := False\<rparr>)))\<lparr>mo_running := False\<rparr>))"

definition motion_module_cleanup :: "ivs_env \<Rightarrow> bool \<Rightarrow> motion_state \<Rightarrow> c_int \<times> motion_state" where
  "motion_module_cleanup env join_ok s =
     (let s1 = (if mo_running s then snd (motion_module_stop env join_ok s) else s)
      in if \<not> mo_initialized s1 then (0, s1)
         else (0, zero_motion\<lparr>mo_thread := mo_thread s1, mo_calls := mo_calls s1\<rparr>))"

section \<open>What other modules ask for\<close>

definition motion_module_get_zones :: "motion_state \<Rightarrow> c_int \<times> c_int \<times> motion_zone list" where
  "motion_module_get_zones s =
     (if \<not> mo_initialized s then (-1, 0, [])
      else (0, zone_count (mo_config s), zones (mo_config s)))"

text \<open>\<open>ok\<close> tells for which streams the display can be switched.\<close>

definition motion_module_enable_zone_visualization ::
  "(nat \<Rightarrow> bool) \<Rightarrow> bool \<Rightarrow> motion_state \<Rightarrow> c_int \<times> motion_state" where
  "motion_module_enable_zone_visualization ok enabled s =
     (if \<not> mo_initialized s then (-1, s)
      else (if ok 0 \<or> ok 1 then 0 else -1,
            note_calls (concat (map (\<lambda>i. OsdEnableZones i enabled #
                (if ok i \<and> enabled then [OsdUpdateZones i] else [])) [0, 1])) s))"

definition motion_module_test_zone_visualization :: "(nat \<Rightarrow> bool) \<Rightarrow> motion_state \<Rightarrow> c_int \<times> motion_state" where
  "motion_module_test_zone_visualization ok s = motion_module_enable_zone_visualization ok True s"

text \<open>The getters lock the mutex, which is undefined before it is initialised: then they are \<open>None\<close>.\<close>

definition with_mutex :: "(motion_state \<Rightarrow> 'a) \<Rightarrow> motion_state \<Rightarrow> 'a option" where
  "with_mutex f s = (if mo_mutex s then Some (f s) else None)"

definition motion_module_is_motion_detected :: "motion_state \<Rightarrow> bool option" where
  "motion_module_is_motion_detected = with_mutex motion_detected"

definition motion_module_get_motion_events :: "motion_state \<Rightarrow> u32 option" where
  "motion_module_get_motion_events = with_mutex motion_events"

definition motion_module_get_frames_processed :: "motion_state \<Rightarrow> u32 option" where
  "motion_module_get_frames_processed = with_mutex frames_processed"


section \<open>The objects of the vendor library\<close>

record ivs_objects =
  has_group :: bool
  has_interface :: bool
  has_channel :: bool
  is_registered :: bool
  is_bound :: bool
  is_receiving :: bool

fun ivs_obtained :: "ivs_objects \<Rightarrow> motion_call \<Rightarrow> ivs_objects" where
  "ivs_obtained h (IvsCreateGroup ok) = h\<lparr>has_group := has_group h \<or> ok\<rparr>"
| "ivs_obtained h (IvsCreateInterface p ok) = h\<lparr>has_interface := has_interface h \<or> ok\<rparr>"
| "ivs_obtained h (IvsCreateChn ok) = h\<lparr>has_channel := has_channel h \<or> ok\<rparr>"
| "ivs_obtained h (IvsRegisterChn ok) = h\<lparr>is_registered := is_registered h \<or> ok\<rparr>"
| "ivs_obtained h (IvsBind stream ok) = h\<lparr>is_bound := is_bound h \<or> ok\<rparr>"
| "ivs_obtained h (IvsStart ok) = h\<lparr>is_receiving := is_receiving h \<or> ok\<rparr>"
| "ivs_obtained h _ = h"

fun ivs_without :: "release_call \<Rightarrow> ivs_objects \<Rightarrow> ivs_objects" where
  "ivs_without IvsStop h = h\<lparr>is_receiving := False\<rparr>"
| "ivs_without (IvsUnBind stream) h = h\<lparr>is_bound := False\<rparr>"
| "ivs_without IvsUnRegister h = h\<lparr>is_registered := False\<rparr>"
| "ivs_without IvsDestroyChn h = h\<lparr>has_channel := False\<rparr>"
| "ivs_without IvsDestroyInterface h = h\<lparr>has_interface := False\<rparr>"
| "ivs_without IvsDestroyGroup h = h\<lparr>has_group := False\<rparr>"

text \<open>
  What the program owes: the objects it obtained and has not asked the library to release. And what the
  library holds if a call to release something has an effect only when it succeeds.
\<close>

definition ivs_asked :: "ivs_objects \<Rightarrow> motion_call \<Rightarrow> ivs_objects" where
  "ivs_asked h c = (case c of IvsRelease x ok \<Rightarrow> ivs_without x h | _ \<Rightarrow> ivs_obtained h c)"

lemma ivs_asked_simps [simp]:
  "ivs_asked h (IvsCreateGroup ok) = ivs_obtained h (IvsCreateGroup ok)"
  "ivs_asked h (IvsCreateInterface p ok) = ivs_obtained h (IvsCreateInterface p ok)"
  "ivs_asked h (IvsCreateChn ok) = ivs_obtained h (IvsCreateChn ok)"
  "ivs_asked h (IvsRegisterChn ok) = ivs_obtained h (IvsRegisterChn ok)"
  "ivs_asked h (IvsBind stream ok) = ivs_obtained h (IvsBind stream ok)"
  "ivs_asked h (IvsStart ok) = ivs_obtained h (IvsStart ok)" "ivs_asked h (IvsRelease x ok) = ivs_without x h"
  "ivs_asked h (MotionScript a) = h" "ivs_asked h ForkFailed = h" "ivs_asked h (OsdUpdateZones i) = h"
  "ivs_asked h (OsdEnableZones i b) = h"
  by (simp_all add: ivs_asked_def)

definition ivs_effect :: "ivs_objects \<Rightarrow> motion_call \<Rightarrow> ivs_objects" where
  "ivs_effect h c = (case c of IvsRelease x ok \<Rightarrow> if ok then ivs_without x h else h | _ \<Rightarrow> ivs_obtained h c)"

definition ivs_all :: "bool \<Rightarrow> ivs_objects" where
  "ivs_all b = \<lparr>has_group = b, has_interface = b, has_channel = b, is_registered = b, is_bound = b, is_receiving = b\<rparr>"

definition ivs_owed :: "motion_state \<Rightarrow> ivs_objects" where
  "ivs_owed s = foldl ivs_asked (ivs_all False) (mo_calls s)"

definition ivs_held :: "motion_state \<Rightarrow> ivs_objects" where
  "ivs_held s = foldl ivs_effect (ivs_all False) (mo_calls s)"

text \<open>No call to release an object that exists fails.\<close>

fun releases_work :: "ivs_objects \<Rightarrow> motion_call list \<Rightarrow> bool" where
  "releases_work h [] \<longleftrightarrow> True"
| "releases_work h (c # cs) \<longleftrightarrow>
     (case c of IvsRelease x ok \<Rightarrow> ok \<or> ivs_without x h = h | _ \<Rightarrow> True) \<and> releases_work (ivs_effect h c) cs"

lemma working_effect:
  "releases_work h cs \<Longrightarrow> foldl ivs_effect h cs = foldl ivs_asked h cs"
proof (induction cs arbitrary: h)
  case (Cons c cs)
  then have "ivs_effect h c = ivs_asked h c"
    by (auto simp: ivs_effect_def ivs_asked_def split: motion_call.splits)
  with Cons show ?case by simp
qed simp

lemma releases_held: "releases_work (ivs_all False) (mo_calls s) \<Longrightarrow> ivs_held s = ivs_owed s"
  by (simp add: ivs_held_def ivs_owed_def working_effect)

lemma note_calls_simps [simp]:
  "mo_calls (note_calls cs s) = mo_calls s @ cs" "mo_config (note_calls cs s) = mo_config s"
  "mo_running (note_calls cs s) = mo_running s" "mo_initialized (note_calls cs s) = mo_initialized s"
  "mo_thread (note_calls cs s) = mo_thread s" "mo_exit (note_calls cs s) = mo_exit s"
  "mo_mutex (note_calls cs s) = mo_mutex s" "motion_detected (note_calls cs s) = motion_detected s"
  "motion_start_script_executed (note_calls cs s) = motion_start_script_executed s"
  "last_motion_time (note_calls cs s) = last_motion_time s" "motion_start_time (note_calls cs s) = motion_start_time s"
  "motion_events (note_calls cs s) = motion_events s" "ivs_interface (note_calls cs s) = ivs_interface s"
  by (simp_all add: note_calls_def)

lemma held_call [simp]: "ivs_owed (note_calls cs s) = foldl ivs_asked (ivs_owed s) cs"
  by (simp add: ivs_owed_def)

lemma held_frame:
  "mo_calls s1 = mo_calls s \<Longrightarrow> ivs_owed s1 = ivs_owed s"
  by (simp add: ivs_owed_def)

lemma release_simps [simp]:
  "ivs_owed (snd (ivs_release env x s)) = ivs_without x (ivs_owed s)"
  "mo_config (snd (ivs_release env x s)) = mo_config s" "mo_running (snd (ivs_release env x s)) = mo_running s"
  "mo_initialized (snd (ivs_release env x s)) = mo_initialized s" "mo_thread (snd (ivs_release env x s)) = mo_thread s"
  "mo_exit (snd (ivs_release env x s)) = mo_exit s" "mo_mutex (snd (ivs_release env x s)) = mo_mutex s"
  "ivs_interface (snd (ivs_release env x s)) = ivs_interface s"
  "motion_detected (snd (ivs_release env x s)) = motion_detected s"
  "MotionScript a \<in> set (mo_calls (snd (ivs_release env x s))) \<longleftrightarrow> MotionScript a \<in> set (mo_calls s)"
  by (auto simp: ivs_release_def Let_def ivs_asked_def)

lemma releases_simps [simp]:
  "ivs_owed (snd (ivs_releases env xs s)) = fold ivs_without xs (ivs_owed s)"
  "mo_config (snd (ivs_releases env xs s)) = mo_config s" "mo_running (snd (ivs_releases env xs s)) = mo_running s"
  "mo_initialized (snd (ivs_releases env xs s)) = mo_initialized s"
  "mo_thread (snd (ivs_releases env xs s)) = mo_thread s" "mo_exit (snd (ivs_releases env xs s)) = mo_exit s"
  "mo_mutex (snd (ivs_releases env xs s)) = mo_mutex s"
  "ivs_interface (snd (ivs_releases env xs s)) = ivs_interface s"
  "motion_detected (snd (ivs_releases env xs s)) = motion_detected s"
  "MotionScript a \<in> set (mo_calls (snd (ivs_releases env xs s))) \<longleftrightarrow> MotionScript a \<in> set (mo_calls s)"
  by (induction xs arbitrary: s) (simp_all add: case_prod_unfold)

declare ivs_releases.simps [simp del]

lemma cleanup_ivs_state:
  "snd (motion_cleanup_ivs env s) =
     (let s1 = snd (ivs_releases env [IvsStop, IvsUnBind (monitor_stream (mo_config s)), IvsUnRegister, IvsDestroyChn] s)
      in snd (ivs_release env IvsDestroyGroup
           (if ivs_interface s1 then (snd (ivs_release env IvsDestroyInterface s1))\<lparr>ivs_interface := False\<rparr> else s1)))"
  by (simp add: motion_cleanup_ivs_def case_prod_unfold Let_def)

lemma motion_teardown_held:
  assumes "has_interface (ivs_owed s) \<Longrightarrow> ivs_interface s"
  shows "ivs_owed (snd (motion_cleanup_ivs env s)) = ivs_all False"
proof -
  have "ivs_owed (t\<lparr>ivs_interface := False\<rparr>) = ivs_owed t" for t by (rule held_frame) simp
  with assms show ?thesis
    by (cases "ivs_owed s"; cases "ivs_interface s") (auto simp: cleanup_ivs_state Let_def ivs_all_def)
qed

text \<open>Setting up gets all of the objects, or fails and leaves none.\<close>

lemma motion_setup_held:
  assumes "ivs_owed s = ivs_all False" and "motion_setup_ivs env s = (r, s1)"
  shows "ivs_owed s1 = ivs_all (r = 0)" and "r = 0 \<Longrightarrow> ivs_interface s1" and "r = 0 \<or> r = -1"
proof -
  have h: "ivs_owed (s\<lparr>ivs_interface := b\<rparr>) = ivs_all False" for b
    using assms(1) held_frame [of "s\<lparr>ivs_interface := b\<rparr>" s] by simp
  consider "\<not> group_ok env" | "group_ok env" "\<not> interface_ok env"
    | "group_ok env" "interface_ok env" "\<not> create_chn_ok env"
    | "group_ok env" "interface_ok env" "create_chn_ok env" "\<not> register_ok env"
    | "group_ok env" "interface_ok env" "create_chn_ok env" "register_ok env" "\<not> bind_ok env"
    | "group_ok env" "interface_ok env" "create_chn_ok env" "register_ok env" "bind_ok env" "\<not> start_ok env"
    | "group_ok env" "interface_ok env" "create_chn_ok env" "register_ok env" "bind_ok env" "start_ok env"
    by blast
  note outcomes = this
  show "ivs_owed s1 = ivs_all (r = 0)"
    by (cases rule: outcomes) (use assms h in \<open>auto simp: motion_setup_ivs_def Let_def motion_teardown_held, simp_all add: ivs_all_def\<close>)
  show "r = 0 \<or> r = -1"
    by (cases rule: outcomes) (use assms(2) in \<open>auto simp: motion_setup_ivs_def Let_def\<close>)
  assume "r = 0"
  then show "ivs_interface s1"
    by (cases rule: outcomes) (use assms(2) in \<open>auto simp: motion_setup_ivs_def Let_def\<close>)
qed


section \<open>Results\<close>

lemma script_simps [simp]:
  "mo_config (snd (motion_execute_script fk a s)) = mo_config s" "mo_running (snd (motion_execute_script fk a s)) = mo_running s"
  "mo_initialized (snd (motion_execute_script fk a s)) = mo_initialized s" "mo_thread (snd (motion_execute_script fk a s)) = mo_thread s"
  "mo_exit (snd (motion_execute_script fk a s)) = mo_exit s" "mo_mutex (snd (motion_execute_script fk a s)) = mo_mutex s"
  "ivs_interface (snd (motion_execute_script fk a s)) = ivs_interface s"
  "motion_detected (snd (motion_execute_script fk a s)) = motion_detected s"
  "motion_start_script_executed (snd (motion_execute_script fk a s)) = motion_start_script_executed s"
  "last_motion_time (snd (motion_execute_script fk a s)) = last_motion_time s"
  "motion_start_time (snd (motion_execute_script fk a s)) = motion_start_time s"
  "motion_events (snd (motion_execute_script fk a s)) = motion_events s"
  "ivs_owed (snd (motion_execute_script fk a s)) = ivs_owed s"
  by (simp_all add: motion_execute_script_def)

lemma start_script_simps [simp]:
  "mo_config (start_script fk s) = mo_config s" "mo_running (start_script fk s) = mo_running s"
  "mo_initialized (start_script fk s) = mo_initialized s" "mo_thread (start_script fk s) = mo_thread s"
  "mo_exit (start_script fk s) = mo_exit s" "mo_mutex (start_script fk s) = mo_mutex s"
  "ivs_interface (start_script fk s) = ivs_interface s" "motion_detected (start_script fk s) = motion_detected s"
  "motion_start_time (start_script fk s) = motion_start_time s" "motion_events (start_script fk s) = motion_events s"
  "ivs_owed (start_script fk s) = ivs_owed s"
  "motion_start_script_executed (start_script fk s) \<longleftrightarrow>
     motion_start_script_executed s \<or> script_path (mo_config s) \<noteq> []"
proof -
  have "ivs_owed (s\<lparr>motion_start_script_executed := True\<rparr>) = ivs_owed s" by (rule held_frame) simp
  then show "ivs_owed (start_script fk s) = ivs_owed s" by (simp add: start_script_def)
qed (simp_all add: start_script_def)

lemma new_event_simps [simp]:
  "mo_config (new_event now s) = mo_config s" "mo_running (new_event now s) = mo_running s"
  "mo_initialized (new_event now s) = mo_initialized s" "mo_thread (new_event now s) = mo_thread s"
  "mo_exit (new_event now s) = mo_exit s" "mo_mutex (new_event now s) = mo_mutex s"
  "ivs_interface (new_event now s) = ivs_interface s" "motion_detected (new_event now s)"
  "mo_calls (new_event now s) = mo_calls s" "ivs_owed (new_event now s) = ivs_owed s"
  "motion_start_script_executed (new_event now s) \<longleftrightarrow> motion_detected s \<and> motion_start_script_executed s"
  by (simp_all add: new_event_def ivs_owed_def)

text \<open>What a result leaves alone.\<close>

definition same_module :: "motion_state \<Rightarrow> motion_state \<Rightarrow> bool" where
  "same_module s t \<longleftrightarrow> mo_config t = mo_config s \<and> mo_running t = mo_running s \<and>
     mo_initialized t = mo_initialized s \<and> mo_thread t = mo_thread s \<and> mo_exit t = mo_exit s \<and>
     mo_mutex t = mo_mutex s \<and> ivs_interface t = ivs_interface s \<and> ivs_owed t = ivs_owed s"

lemma motion_result_same: "same_module s (motion_process_result n now roi fk s)"
proof -
  have "ivs_owed (start_script fk (new_event now s)\<lparr>last_motion_time := now\<rparr>) = ivs_owed s"
    using held_frame [of "start_script fk (new_event now s)\<lparr>last_motion_time := now\<rparr>" "start_script fk (new_event now s)"] by simp
  moreover have "ivs_owed (snd (motion_execute_script fk a (s\<lparr>motion_detected := False\<rparr>))) = ivs_owed s" for a
    using held_frame [of "s\<lparr>motion_detected := False\<rparr>" s] by simp
  ultimately show ?thesis by (simp add: motion_process_result_def same_module_def)
qed

lemma motion_round_same:
  assumes "mo_thread s" and "\<not> mo_exit s"
  shows "same_module s (motion_detection_thread n s r)"
proof (cases r)
  case (MotionResult us roi fk)
  let ?t = "motion_process_result n (word_of_int (us div 1000000)) roi fk s"
  have "ivs_owed (?t\<lparr>frames_processed := frames_processed ?t + 1\<rparr>) = ivs_owed ?t" by (rule held_frame) simp
  with motion_result_same [of s n "word_of_int (us div 1000000)" roi fk] assms MotionResult show ?thesis
    by (simp add: motion_detection_thread_def same_module_def Let_def)
next
  case NoResult
  have "ivs_owed (s\<lparr>frames_processed := frames_processed s + 1\<rparr>) = ivs_owed s" by (rule held_frame) simp
  with assms NoResult show ?thesis by (simp add: motion_detection_thread_def same_module_def)
qed (use assms in \<open>simp_all add: motion_detection_thread_def same_module_def\<close>)

section \<open>The life of the module\<close>

datatype 'j motion_event =
  MotionInit "'j option list" "fs_channel list" bool "motion_module_config option"
| MotionStart ivs_env bool | MotionRound nat motion_round | MotionStop ivs_env bool | MotionCleanup ivs_env bool
| MotionShow "nat \<Rightarrow> bool" bool

definition motion_step :: "'j json_c \<Rightarrow> motion_state \<Rightarrow> 'j motion_event \<Rightarrow> motion_state option" where
  "motion_step J s e =
     Some (case e of
        MotionInit files chn mutex_ok c \<Rightarrow> snd (motion_module_init J files chn mutex_ok c s)
      | MotionStart env thread_ok \<Rightarrow> snd (motion_module_start env thread_ok s)
      | MotionRound n r \<Rightarrow> motion_detection_thread n s r
      | MotionStop env join_ok \<Rightarrow> snd (motion_module_stop env join_ok s)
      | MotionCleanup env join_ok \<Rightarrow> snd (motion_module_cleanup env join_ok s)
      | MotionShow ok b \<Rightarrow> snd (motion_module_enable_zone_visualization ok b s))"

text \<open>Joining a thread that was created does not fail.\<close>

definition joined :: "'j motion_event \<Rightarrow> bool" where
  "joined e \<longleftrightarrow> (case e of MotionStop env ok \<Rightarrow> ok | MotionCleanup env ok \<Rightarrow> ok | _ \<Rightarrow> True)"

definition motion_inv :: "motion_state \<Rightarrow> bool" where
  "motion_inv s \<longleftrightarrow>
     ivs_owed s = ivs_all (mo_running s) \<and> (mo_running s \<longrightarrow> ivs_interface s \<and> mo_thread s) \<and>
     (mo_thread s \<longrightarrow> mo_running s \<and> \<not> mo_exit s) \<and> (mo_running s \<longrightarrow> mo_initialized s \<and> motion_enabled (mo_config s)) \<and>
     (mo_initialized s \<longrightarrow> mo_mutex s) \<and> (mo_mutex s \<longrightarrow> mo_initialized s)"

lemma cleanup_ivs_simps [simp]:
  "mo_config (snd (motion_cleanup_ivs env s)) = mo_config s" "mo_running (snd (motion_cleanup_ivs env s)) = mo_running s"
  "mo_initialized (snd (motion_cleanup_ivs env s)) = mo_initialized s"
  "mo_thread (snd (motion_cleanup_ivs env s)) = mo_thread s" "mo_exit (snd (motion_cleanup_ivs env s)) = mo_exit s"
  "mo_mutex (snd (motion_cleanup_ivs env s)) = mo_mutex s"
  by (simp_all add: cleanup_ivs_state Let_def)

lemma motion_setup_simps:
  assumes "motion_setup_ivs env s = (r, s1)"
  shows "mo_config s1 = mo_config s \<and> mo_running s1 = mo_running s \<and> mo_initialized s1 = mo_initialized s \<and>
    mo_thread s1 = mo_thread s \<and> mo_exit s1 = mo_exit s \<and> mo_mutex s1 = mo_mutex s"
  using assms unfolding motion_setup_ivs_def Let_def by (auto split: if_splits)

lemma motion_start_inv:
  assumes "motion_inv s"
  shows "motion_inv (snd (motion_module_start env t s))"
proof (cases "mo_initialized s \<and> \<not> mo_running s \<and> motion_enabled (mo_config s)")
  case True
  obtain r s1 where ivs: "motion_setup_ivs env s = (r, s1)" by (metis prod.exhaust)
  from assms True have "ivs_owed s = ivs_all False" by (simp add: motion_inv_def)
  note held = motion_setup_held [OF this ivs]
  note frame = motion_setup_simps [OF ivs]
  have e: "ivs_owed (s1\<lparr>mo_exit := b\<rparr>) = ivs_owed s1" for b by (rule held_frame) simp
  have f: "ivs_owed (s1\<lparr>mo_exit := False, mo_thread := True, mo_running := True\<rparr>) = ivs_owed s1"
    by (rule held_frame) simp
  consider "r \<noteq> 0" | "r = 0" "\<not> t" | "r = 0" "t" by blast
  then show ?thesis
  proof cases
    case 2
    have "ivs_owed (snd (motion_cleanup_ivs env (s1\<lparr>mo_exit := False\<rparr>))) = ivs_all False"
      using held(2) 2 by (intro motion_teardown_held) simp
    with 2 True assms frame ivs show ?thesis by (simp add: motion_module_start_def motion_inv_def)
  next
    case 3
    have "ivs_owed (snd (motion_module_start env t s)) = ivs_all True"
      using 3 True ivs held(1) f by (simp add: motion_module_start_def)
    with 3 True assms frame ivs held(2) show ?thesis by (simp add: motion_module_start_def motion_inv_def)
  qed (use True assms frame ivs held in \<open>auto simp: motion_module_start_def motion_inv_def\<close>)
next
  case False
  with assms show ?thesis by (auto simp: motion_module_start_def)
qed

lemma motion_stop_inv:
  assumes "motion_inv s"
  shows "motion_inv (snd (motion_module_stop env True s))"
proof (cases "mo_running s")
  case True
  let ?t = "s\<lparr>mo_exit := True, mo_thread := False\<rparr>"
  have "ivs_owed ?t = ivs_owed s" by (rule held_frame) simp
  with assms True have "ivs_owed (snd (motion_cleanup_ivs env ?t)) = ivs_all False"
    by (intro motion_teardown_held) (simp add: motion_inv_def)
  moreover have "ivs_owed ((snd (motion_cleanup_ivs env ?t))\<lparr>mo_running := False\<rparr>) = ivs_owed (snd (motion_cleanup_ivs env ?t))"
    by (rule held_frame) simp
  ultimately show ?thesis using assms True by (simp add: motion_module_stop_def motion_inv_def)
qed (use assms in \<open>simp add: motion_module_stop_def\<close>)

lemma motion_stopped: "\<not> mo_running (snd (motion_module_stop env True s))"
  by (simp add: motion_module_stop_def)

lemma motion_init_inv:
  assumes "motion_inv s"
  shows "motion_inv (snd (motion_module_init J files chn m c s))"
proof (cases "mo_initialized s \<or> c = None")
  case False
  then obtain d where d: "c = Some d" "\<not> mo_initialized s" by auto
  let ?s = "s\<lparr>mo_config := fit_channel chn (load_roi_config J files d)\<rparr>"
  have h: "ivs_owed ?s = ivs_owed s" by (rule held_frame) simp
  have "ivs_owed ((note_calls [OsdUpdateZones 0, OsdUpdateZones 1] ?s)\<lparr>mo_mutex := True,
      motion_detected := False, motion_start_script_executed := False, last_motion_time := 0,
      motion_start_time := 0, motion_events := 0, frames_processed := 0, mo_initialized := True\<rparr>) =
      ivs_owed (note_calls [OsdUpdateZones 0, OsdUpdateZones 1] ?s)"
    by (rule held_frame) simp
  also have "\<dots> = ivs_owed s" by (simp add: h)
  finally have "ivs_owed (snd (motion_module_init J files chn m c s)) = ivs_owed s"
    using d h by (simp add: motion_module_init_def Let_def)
  with assms d show ?thesis by (auto simp: motion_module_init_def motion_inv_def Let_def)
qed (use assms in \<open>auto simp: motion_module_init_def split: option.splits\<close>)

lemma motion_round_inv:
  assumes "motion_inv s"
  shows "motion_inv (motion_detection_thread n s r)"
proof (cases "mo_thread s")
  case True
  with assms motion_round_same [of s n r] show ?thesis by (simp add: motion_inv_def same_module_def)
qed (use assms in \<open>simp add: motion_detection_thread_def\<close>)

lemma motion_osd_held: "foldl ivs_asked h (concat (map (\<lambda>i. OsdEnableZones i b # (if ok i \<and> b then [OsdUpdateZones i] else [])) xs)) = h"
  by (induction xs arbitrary: h) auto

lemma motion_step_inv:
  assumes "motion_inv s" and "joined e" and "motion_step J s e = Some s1"
  shows "motion_inv s1"
proof (cases e)
  case (MotionInit files chn m c)
  with motion_init_inv [OF assms(1)] assms(3) show ?thesis by (auto simp: motion_step_def)
next
  case (MotionStart env t)
  with motion_start_inv [OF assms(1)] assms(3) show ?thesis by (auto simp: motion_step_def)
next
  case (MotionRound n r)
  with motion_round_inv [OF assms(1)] assms(3) show ?thesis by (auto simp: motion_step_def)
next
  case (MotionStop env j)
  with motion_stop_inv [OF assms(1)] assms(2,3) show ?thesis by (auto simp: motion_step_def joined_def)
next
  case (MotionCleanup env j)
  define s2 where "s2 = (if mo_running s then snd (motion_module_stop env True s) else s)"
  have i: "motion_inv s2" and r: "\<not> mo_running s2"
    using motion_stop_inv [OF assms(1)] motion_stopped assms(1) by (auto simp: s2_def)
  then have "ivs_owed s2 = ivs_all False" "\<not> mo_thread s2"
      by (auto simp: motion_inv_def)
  then have "motion_inv (zero_motion\<lparr>mo_thread := mo_thread s2, mo_calls := mo_calls s2\<rparr>)"
    by (simp add: motion_inv_def ivs_owed_def zero_motion_def)
  with i MotionCleanup assms(2,3) show ?thesis
    by (auto simp: motion_step_def joined_def motion_module_cleanup_def Let_def s2_def [symmetric] split: if_splits)
next
  case (MotionShow ok b)
  with assms(1,3) show ?thesis
    by (auto simp: motion_step_def motion_module_enable_zone_visualization_def motion_inv_def
        motion_osd_held [of _ b ok "[0, 1]", simplified])
qed

interpretation motion_life: partial_machine "motion_step J" joined motion_inv
  by unfold_locales (rule motion_step_inv)


text \<open>
  C39. Whatever happened before and whichever calls of the vendor library failed, while the module does not run
  the library has been asked to release every object, group, interface, channel, registration, binding and
  reception, that the program obtained from it, and while it runs all six are obtained and none has been asked
  to be released. If no call to release an object that exists failed, then the library holds all of them while
  the module runs and none while it does not. The joins of the thread are taken to succeed: after a failed one
  the clean-up forgets what it holds.
\<close>

theorem motion_ivs_released:
  assumes "run_steps (motion_step J) zero_motion es = Some s" and "list_all joined es"
  shows "ivs_owed s = ivs_all (mo_running s) \<and> (mo_running s \<longleftrightarrow> mo_thread s) \<and>
    (releases_work (ivs_all False) (mo_calls s) \<longrightarrow> ivs_held s = ivs_all (mo_running s))"
proof -
  have "motion_inv zero_motion" by (simp add: motion_inv_def ivs_owed_def zero_motion_def)
  from motion_life.inv_run [OF this assms(2,1)] releases_held [of s] show ?thesis by (auto simp: motion_inv_def)
qed

text \<open>A failed join of the thread makes the clean-up forget the objects.\<close>

lemma failed_join_leaks:
  assumes "mo_running s" and "mo_initialized s" and "ivs_owed s = ivs_all True"
  shows "\<not> mo_running (snd (motion_module_cleanup env False s))"
    and "ivs_owed (snd (motion_module_cleanup env False s)) = ivs_all True"
  using assms by (simp_all add: motion_module_cleanup_def motion_module_stop_def zero_motion_def ivs_owed_def)

text \<open>A library in which every call works, except releasing something that does not exist.\<close>

definition sample_ivs :: ivs_env where
  "sample_ivs = \<lparr>max_roi = 52, group_ok = True, interface_ok = True, create_chn_ok = True, register_ok = True,
     bind_ok = True, start_ok = True, teardown_ok = (\<lambda>cs x. let h = foldl ivs_effect (ivs_all False) cs in ivs_without x h \<noteq> h)\<rparr>"

text \<open>A start in which the reception fails, then a start that works, a result and a stop.\<close>

definition sample_motion_events :: "sample_json motion_event list" where
  "sample_motion_events =
     [MotionInit [None, None] (replicate 4 \<lparr>fs_enable = True, fs_scaler = None, fs_picture = (640, 360)\<rparr>) True
        (Some (motion_set_default_config\<lparr>motion_enabled := True\<rparr>)),
      MotionStart (sample_ivs\<lparr>start_ok := False\<rparr>) True, MotionStart sample_ivs True,
      MotionRound 52 (MotionResult 9000000 (\<lambda>i. i = 0) True)]"

lemma motion_run_total: "\<exists>s. run_steps (motion_step J) s0 es = Some s"
  by (induction es arbitrary: s0) (simp_all add: motion_step_def)

theorem motion_ivs_released_witness:
  "\<exists>s. run_steps (motion_step sample_json_c) zero_motion sample_motion_events = Some s \<and> mo_running s \<and>
     IvsRelease (IvsUnBind 1) False \<in> set (mo_calls s) \<and> ivs_held s = ivs_all True \<and>
     (\<exists>t. run_steps (motion_step sample_json_c) zero_motion (sample_motion_events @ [MotionStop sample_ivs True]) =
        Some t \<and> \<not> mo_running t \<and> ivs_held t = ivs_all False)"
proof -
  let ?run = "run_steps (motion_step sample_json_c) zero_motion"
  obtain s where s: "?run sample_motion_events = Some s" using motion_run_total by blast
  obtain t where t: "?run (sample_motion_events @ [MotionStop sample_ivs True]) = Some t"
    using motion_run_total by blast
  have "map_option (\<lambda>s. mo_running s \<and> IvsRelease (IvsUnBind 1) False \<in> set (mo_calls s) \<and>
      releases_work (ivs_all False) (mo_calls s)) (?run sample_motion_events) = Some True"
    by code_simp
  moreover have "map_option (\<lambda>s. \<not> mo_running s \<and> releases_work (ivs_all False) (mo_calls s))
      (?run (sample_motion_events @ [MotionStop sample_ivs True])) = Some True"
    by code_simp
  ultimately show ?thesis
    using s t motion_ivs_released [OF s] motion_ivs_released [OF t] by (simp add: sample_motion_events_def joined_def)
qed

section \<open>Motion events\<close>

text \<open>The actions of the scripts of \<open>k\<close> changes: start and stop in turn.\<close>

definition motion_actions :: "nat \<Rightarrow> string list" where
  "motion_actions k = map (\<lambda>i. if even i then ''start'' else ''stop'') [0..<k]"

definition script_call :: "motion_state \<Rightarrow> string \<Rightarrow> bool \<Rightarrow> motion_call" where
  "script_call s a fork_ok =
     (if fork_ok then MotionScript (fit 512 (script_path (mo_config s) @ '' '' @ a)) else ForkFailed)"

lemma motion_actions_Suc:
  "motion_actions (Suc k) = motion_actions k @ [if even k then ''start'' else ''stop'']"
  by (simp add: motion_actions_def)

lemma execute_calls:
  "script_path (mo_config s) \<noteq> [] \<Longrightarrow> mo_calls (snd (motion_execute_script fk a s)) = mo_calls s @ [script_call s a fk]"
  by (simp add: motion_execute_script_def script_call_def)

text \<open>What a result does, by cases: nothing, or the beginning or the end of an event with its script.\<close>

lemma result_cases:
  assumes "script_path (mo_config s) \<noteq> []" and "motion_detected s \<longrightarrow> motion_start_script_executed s"
  obtains (same) "mo_calls (motion_process_result n now roi fk s) = mo_calls s"
      "motion_detected (motion_process_result n now roi fk s) = motion_detected s"
      "motion_events (motion_process_result n now roi fk s) = motion_events s"
      "motion_start_time (motion_process_result n now roi fk s) = motion_start_time s"
      "last_motion_time (motion_process_result n now roi fk s) \<in> {last_motion_time s, now}"
      "motion_detected s \<longrightarrow> motion_start_script_executed (motion_process_result n now roi fk s)"
  | (begins) "\<not> motion_detected s" "motion_detected (motion_process_result n now roi fk s)"
      "mo_calls (motion_process_result n now roi fk s) = mo_calls s @ [script_call s ''start'' fk]"
      "motion_events (motion_process_result n now roi fk s) = motion_events s + 1" "\<not> in_cooldown now s"
      "motion_start_time (motion_process_result n now roi fk s) = now"
      "last_motion_time (motion_process_result n now roi fk s) = now"
      "motion_start_script_executed (motion_process_result n now roi fk s)"
  | (ends) "motion_detected s" "\<not> motion_detected (motion_process_result n now roi fk s)"
      "mo_calls (motion_process_result n now roi fk s) = mo_calls s @ [script_call s ''stop'' fk]"
      "motion_events (motion_process_result n now roi fk s) = motion_events s"
      "word_of_int (min_time (mo_config s)) \<le> now - motion_start_time s"
      "motion_start_time (motion_process_result n now roi fk s) = motion_start_time s"
      "last_motion_time (motion_process_result n now roi fk s) = last_motion_time s"
proof -
  let ?t = "motion_process_result n now roi fk s"
  consider "motion_in_any_roi n (mo_config s) roi" "in_cooldown now s"
    | "motion_in_any_roi n (mo_config s) roi" "\<not> in_cooldown now s" "motion_detected s"
    | "motion_in_any_roi n (mo_config s) roi" "\<not> in_cooldown now s" "\<not> motion_detected s"
    | "\<not> motion_in_any_roi n (mo_config s) roi" "motion_detected s"
        "word_of_int (min_time (mo_config s)) \<le> now - motion_start_time s"
    | "\<not> motion_in_any_roi n (mo_config s) roi"
        "\<not> (motion_detected s \<and> word_of_int (min_time (mo_config s)) \<le> now - motion_start_time s)" by blast
  then show ?thesis
  proof cases
    case 1
    with assms(2) show ?thesis by (intro same) (simp_all add: motion_process_result_def)
  next
    case 2
    with assms(2) show ?thesis
      by (intro same) (simp_all add: motion_process_result_def new_event_def start_script_def)
  next
    case 3
    let ?e = "new_event now s"
    have "mo_calls (start_script fk ?e) = mo_calls s @ [script_call s ''start'' fk]"
      using 3 assms(1) execute_calls [of "?e\<lparr>motion_start_script_executed := True\<rparr>" fk "''start''"]
      by (simp add: start_script_def script_call_def)
    moreover have "motion_start_time ?e = now" "motion_events ?e = motion_events s + 1"
      using 3 by (simp_all add: new_event_def)
    ultimately show ?thesis using 3 assms(1)
      by (intro begins) (simp_all add: motion_process_result_def)
  next
    case 4
    have "mo_calls (snd (motion_execute_script fk ''stop'' (s\<lparr>motion_detected := False\<rparr>))) = mo_calls s @ [script_call s ''stop'' fk]"
      using assms(1) execute_calls [of "s\<lparr>motion_detected := False\<rparr>" fk "''stop''"] by (simp add: script_call_def)
    with 4 show ?thesis by (intro ends) (simp_all add: motion_process_result_def)
  next
    case 5
    with assms(2) show ?thesis by (intro same) (auto simp: motion_process_result_def)
  qed
qed


text \<open>A round keeps the flag of the script with the event.\<close>

definition event_ok :: "motion_state \<Rightarrow> bool" where
  "event_ok s \<longleftrightarrow> script_path (mo_config s) \<noteq> [] \<and> (motion_detected s \<longrightarrow> motion_start_script_executed s)"

lemma round_config: "mo_config (motion_detection_thread n s r) = mo_config s"
proof (cases "mo_thread s \<and> \<not> mo_exit s")
  case True
  with motion_round_same show ?thesis by (simp add: same_module_def)
qed (auto simp: motion_detection_thread_def)

lemma round_idle:
  assumes "\<not> (\<exists>us roi fk. r = MotionResult us roi fk) \<or> \<not> mo_thread s \<or> mo_exit s"
  shows "mo_calls (motion_detection_thread n s r) = mo_calls s \<and>
    motion_detected (motion_detection_thread n s r) = motion_detected s \<and>
    motion_events (motion_detection_thread n s r) = motion_events s \<and>
    motion_start_time (motion_detection_thread n s r) = motion_start_time s \<and>
    last_motion_time (motion_detection_thread n s r) = last_motion_time s \<and>
    motion_start_script_executed (motion_detection_thread n s r) = motion_start_script_executed s"
  using assms by (cases r) (auto simp: motion_detection_thread_def)

text \<open>The second of a round.\<close>

definition round_now :: "motion_round \<Rightarrow> u32" where
  "round_now r = (case r of MotionResult us roi fk \<Rightarrow> word_of_int (us div 1000000) | _ \<Rightarrow> 0)"

lemma round_result:
  assumes "mo_thread s" and "\<not> mo_exit s" and "r = MotionResult us roi fk"
  shows "motion_detection_thread n s r =
    (motion_process_result n (round_now r) roi fk s)\<lparr>frames_processed :=
       frames_processed (motion_process_result n (round_now r) roi fk s) + 1\<rparr>"
  using assms by (simp add: motion_detection_thread_def round_now_def Let_def)

text \<open>The same cases for a round.\<close>

lemma round_cases:
  assumes "event_ok s"
  obtains (same) "mo_calls (motion_detection_thread n s r) = mo_calls s"
      "motion_detected (motion_detection_thread n s r) = motion_detected s"
      "motion_events (motion_detection_thread n s r) = motion_events s"
      "motion_start_time (motion_detection_thread n s r) = motion_start_time s"
      "last_motion_time (motion_detection_thread n s r) = last_motion_time s \<or>
        (\<exists>us roi fk. r = MotionResult us roi fk) \<and> last_motion_time (motion_detection_thread n s r) = round_now r"
      "event_ok (motion_detection_thread n s r)"
  | (begins) us roi fk where "r = MotionResult us roi fk"
      "\<not> motion_detected s" "motion_detected (motion_detection_thread n s r)"
      "mo_calls (motion_detection_thread n s r) = mo_calls s @ [script_call s ''start'' fk]"
      "motion_events (motion_detection_thread n s r) = motion_events s + 1" "\<not> in_cooldown (round_now r) s"
      "motion_start_time (motion_detection_thread n s r) = round_now r"
      "last_motion_time (motion_detection_thread n s r) = round_now r"
      "event_ok (motion_detection_thread n s r)"
  | (ends) us roi fk where "r = MotionResult us roi fk"
      "motion_detected s" "\<not> motion_detected (motion_detection_thread n s r)"
      "mo_calls (motion_detection_thread n s r) = mo_calls s @ [script_call s ''stop'' fk]"
      "motion_events (motion_detection_thread n s r) = motion_events s"
      "word_of_int (min_time (mo_config s)) \<le> round_now r - motion_start_time s"
      "last_motion_time (motion_detection_thread n s r) = last_motion_time s"
      "event_ok (motion_detection_thread n s r)" "motion_start_time (motion_detection_thread n s r) = motion_start_time s"
proof (cases "(\<exists>us roi fk. r = MotionResult us roi fk) \<and> mo_thread s \<and> \<not> mo_exit s")
  case False
  with round_idle [of r s n] round_config [of n s r] assms same show ?thesis by (auto simp: event_ok_def)
next
  case True
  then obtain us roi fk where r: "r = MotionResult us roi fk" by blast
  let ?t = "motion_process_result n (round_now r) roi fk s"
  have t: "motion_detection_thread n s r = ?t\<lparr>frames_processed := frames_processed ?t + 1\<rparr>"
    using True r round_result by blast
  have c: "mo_config ?t = mo_config s" using motion_result_same by (simp add: same_module_def)
  have path: "script_path (mo_config s) \<noteq> []" and flag: "motion_detected s \<longrightarrow> motion_start_script_executed s"
    using assms by (auto simp: event_ok_def)
  show ?thesis
  proof (cases rule: result_cases [OF path flag, of n "round_now r" roi fk])
    case 1
    have "\<exists>us roi fk. r = MotionResult us roi fk" using r by blast
    with 1 show ?thesis by (intro same) (auto simp: t event_ok_def c path flag)
  next
    case 2 then show ?thesis by (intro begins [OF r]) (auto simp: t event_ok_def c path)
  next
    case 3 then show ?thesis by (intro ends [OF r]) (auto simp: t event_ok_def c path)
  qed
qed


lemma script_call_config: "mo_config t = mo_config s \<Longrightarrow> script_call t = script_call s"
  by (simp add: script_call_def fun_eq_iff)

text \<open>Whether the script of a round can be run.\<close>

definition fork_works :: "motion_round \<Rightarrow> bool" where
  "fork_works r \<longleftrightarrow> (case r of MotionResult us roi fork_ok \<Rightarrow> fork_ok | _ \<Rightarrow> True)"

lemma fork_works_result [simp]: "fork_works (MotionResult us roi fk) = fk"
  by (simp add: fork_works_def)

text \<open>The actions of the run, each with the success of its fork.\<close>

definition script_calls :: "motion_state \<Rightarrow> bool list \<Rightarrow> motion_call list" where
  "script_calls s fs = map2 (script_call s) (motion_actions (length fs)) fs"

lemma script_calls_snoc:
  "script_calls s (fs @ [f]) = script_calls s fs @ [script_call s (if even (length fs) then ''start'' else ''stop'') f]"
  by (simp add: script_calls_def motion_actions_Suc zip_append1 motion_actions_def)

lemma script_calls_working:
  "list_all (\<lambda>f. f) fs \<Longrightarrow> script_calls s fs = map (\<lambda>a. script_call s a True) (motion_actions (length fs))"
  by (induction fs rule: rev_induct) (simp_all add: script_calls_snoc motion_actions_Suc, simp add: script_calls_def motion_actions_def)

lemma run_alternates:
  assumes "event_ok s" and "\<not> motion_detected s"
  shows "\<exists>fs. mo_calls (foldl (motion_detection_thread n) s rs) = mo_calls s @ script_calls s fs \<and>
    (motion_detected (foldl (motion_detection_thread n) s rs) \<longleftrightarrow> odd (length fs)) \<and>
    motion_events (foldl (motion_detection_thread n) s rs) = motion_events s + word_of_nat ((length fs + 1) div 2) \<and>
    (list_all fork_works rs \<longrightarrow> list_all (\<lambda>f. f) fs) \<and>
    event_ok (foldl (motion_detection_thread n) s rs) \<and>
    mo_config (foldl (motion_detection_thread n) s rs) = mo_config s"
proof (induction rs rule: rev_induct)
  case Nil
  with assms show ?case by (intro exI [of _ "[]"]) (simp add: motion_actions_def script_calls_def)
next
  case (snoc r rs)
  let ?t = "foldl (motion_detection_thread n) s rs"
  from snoc obtain fs where k: "mo_calls ?t = mo_calls s @ script_calls s fs"
    "motion_detected ?t \<longleftrightarrow> odd (length fs)" "motion_events ?t = motion_events s + word_of_nat ((length fs + 1) div 2)"
    "list_all fork_works rs \<longrightarrow> list_all (\<lambda>f. f) fs" "event_ok ?t" "mo_config ?t = mo_config s" by blast
  note c = round_config [of n ?t r] script_call_config [OF k(6)]
  from k(5) show ?case
  proof (cases rule: round_cases [where n = n and r = r])
    case same
    with k c show ?thesis by (intro exI [of _ fs]) simp
  next
    case (begins us roi fk)
    then have "even (length fs)" using k(2) by simp
    then have "(Suc (length fs) + 1) div 2 = (length fs + 1) div 2 + 1" by simp
    with begins k c \<open>even (length fs)\<close> show ?thesis
      by (intro exI [of _ "fs @ [fk]"]) (simp add: script_calls_snoc del: div_mult_self1)
  next
    case (ends us roi fk)
    then have "odd (length fs)" using k(2) by simp
    then have "(Suc (length fs) + 1) div 2 = (length fs + 1) div 2" by (elim oddE) simp
    with ends k c \<open>odd (length fs)\<close> show ?thesis
      by (intro exI [of _ "fs @ [fk]"]) (simp add: script_calls_snoc)
  qed
qed

text \<open>
  C25. With a script configured, over any run of the thread that begins while no event is pending the program
  tries to run the script with start and stop strictly in turn, beginning with start: motion is detected
  exactly after an odd number of tries and the number of events is the number of tries with start. A try whose
  fork fails runs no script and is not repeated; if no fork fails the scripts run are start and stop in turn.
\<close>

theorem motion_scripts_alternate:
  assumes "foldl (motion_detection_thread n) s rs = s1" and "script_path (mo_config s) \<noteq> []" and "\<not> motion_detected s"
  shows "\<exists>forks. mo_calls s1 = mo_calls s @ map2 (script_call s) (motion_actions (length forks)) forks \<and>
    (motion_detected s1 \<longleftrightarrow> odd (length forks)) \<and>
    motion_events s1 = motion_events s + word_of_nat ((length forks + 1) div 2) \<and>
    (list_all fork_works rs \<longrightarrow>
       mo_calls s1 = mo_calls s @ map (\<lambda>a. script_call s a True) (motion_actions (length forks)))"
proof -
  have "event_ok s" using assms(2,3) by (simp add: event_ok_def)
  from run_alternates [OF this assms(3), of n rs] assms(1) script_calls_working show ?thesis
    unfolding script_calls_def by metis
qed

section \<open>The times of events\<close>

text \<open>The beginnings and ends of events in a run, with their seconds.\<close>

fun event_log :: "nat \<Rightarrow> motion_state \<Rightarrow> motion_round list \<Rightarrow> (nat \<times> bool) list" where
  "event_log n s [] = []"
| "event_log n s (r # rs) =
     (let s1 = motion_detection_thread n s r
      in (if motion_detected s1 = motion_detected s then [] else [(unat (round_now r), motion_detected s1)]) @
         event_log n s1 rs)"

text \<open>A clock that does not run backwards or wrap around: the seconds of the rounds with a result, from \<open>t\<close> on.\<close>

fun clock_from :: "nat \<Rightarrow> motion_round list \<Rightarrow> bool" where
  "clock_from t [] = True"
| "clock_from t (MotionResult us roi fk # rs) \<longleftrightarrow>
     t \<le> unat (round_now (MotionResult us roi fk)) \<and> clock_from (unat (round_now (MotionResult us roi fk))) rs"
| "clock_from t (r # rs) = clock_from t rs"

lemma clock_mono: "clock_from t rs \<Longrightarrow> u \<le> t \<Longrightarrow> clock_from u rs"
  by (induction t rs arbitrary: u rule: clock_from.induct) auto

text \<open>What the state lets the later log contain.\<close>

definition log_after :: "nat \<Rightarrow> motion_state \<Rightarrow> nat \<times> bool \<Rightarrow> bool" where
  "log_after t s e \<longleftrightarrow> t \<le> fst e \<and>
     (snd e \<longrightarrow> last_motion_time s = 0 \<or> unat (last_motion_time s) + nat (cooldown_time (mo_config s)) \<le> fst e) \<and>
     (\<not> snd e \<longrightarrow> motion_detected s \<longrightarrow> unat (motion_start_time s) + nat (min_time (mo_config s)) \<le> fst e)"

definition log_order :: "motion_module_config \<Rightarrow> nat \<times> bool \<Rightarrow> nat \<times> bool \<Rightarrow> bool" where
  "log_order c e f \<longleftrightarrow>
     (snd e \<and> snd f \<longrightarrow> fst e + nat (cooldown_time c) \<le> fst f) \<and> (snd e \<and> \<not> snd f \<longrightarrow> fst e + nat (min_time c) \<le> fst f)"

lemma elapsed:
  assumes "word_of_int i \<le> (now - t :: u32)" and "0 \<le> i" and "i < 2 ^ 31" and "unat t \<le> unat now"
  shows "unat t + nat i \<le> unat now"
proof -
  have "unat (word_of_int i :: u32) = nat i"
    using assms(2,3) by (simp add: unat_eq_nat_uint uint_word_of_int)
  moreover have "unat (now - t) = unat now - unat t" using assms(4) by (simp add: unat_sub word_le_nat_alt)
  ultimately show ?thesis using assms(1,4) by (simp add: word_le_nat_alt)
qed

lemma event_log_ordered:
  assumes "event_ok s" and "clock_from t rs" and "0 < t"
    and "unat (last_motion_time s) \<le> t" and "unat (motion_start_time s) \<le> t"
    and "0 \<le> cooldown_time (mo_config s)" and "cooldown_time (mo_config s) < 2 ^ 31"
    and "0 \<le> min_time (mo_config s)" and "min_time (mo_config s) < 2 ^ 31"
  shows "list_all (log_after t s) (event_log n s rs) \<and> sorted_wrt (log_order (mo_config s)) (event_log n s rs)"
  using assms
proof (induction rs arbitrary: s t)
  case (Cons r rs)
  let ?s1 = "motion_detection_thread n s r"
  have c: "mo_config ?s1 = mo_config s" by (rule round_config)
  note IH = Cons.IH [of ?s1, unfolded c, OF _ _ _ _ _ Cons.prems(6-9)]
  from Cons.prems(1) show ?case
  proof (cases rule: round_cases [where n = n and r = r])
    case same
    define u where "u = (if \<exists>us roi fk. r = MotionResult us roi fk then unat (round_now r) else t)"
    have u: "t \<le> u" "clock_from u rs" using Cons.prems(2) by (cases r; simp add: u_def)+
    have last: "last_motion_time ?s1 = last_motion_time s \<or> last_motion_time ?s1 = round_now r \<and> unat (round_now r) = u"
      using same(5) by (auto simp: u_def)
    have "list_all (log_after u ?s1) (event_log n ?s1 rs) \<and> sorted_wrt (log_order (mo_config s)) (event_log n ?s1 rs)"
      using IH [of u] u last same(4,6) Cons.prems(3-5) by auto
    moreover have "log_after t s e" if "log_after u ?s1 e" for e
      using that last u(1) same(2,4) Cons.prems(3,4) c by (auto simp: log_after_def unat_eq_zero [symmetric])
    ultimately show ?thesis using same(2) by (auto simp: Let_def list_all_iff)
  next
    case (begins us roi fk)
    let ?now = "unat (round_now r)"
    have u: "t \<le> ?now" "clock_from ?now rs" using Cons.prems(2) begins(1) by simp_all
    have IH1: "list_all (log_after ?now ?s1) (event_log n ?s1 rs) \<and> sorted_wrt (log_order (mo_config s)) (event_log n ?s1 rs)"
      using IH [of ?now] u begins(7-9) Cons.prems(3) by auto
    have cool: "last_motion_time s = 0 \<or> unat (last_motion_time s) + nat (cooldown_time (mo_config s)) \<le> ?now"
      using begins(6) elapsed [of "cooldown_time (mo_config s)" "round_now r" "last_motion_time s"] Cons.prems(4,6,7) u(1)
      by (auto simp: in_cooldown_def not_less word_neq_0_conv)
    have "log_after t s e" if "log_after ?now ?s1 e" for e
      using that cool u(1) begins(2,8) c Cons.prems(3) by (auto simp: log_after_def unat_eq_zero [symmetric])
    moreover have "log_order (mo_config s) (?now, True) e" if "log_after ?now ?s1 e" for e
      using that begins(3,7,8) c u(1) Cons.prems(3)
      by (auto simp: log_after_def log_order_def unat_eq_zero [symmetric])
    ultimately show ?thesis using IH1 begins(2,3) cool u(1)
      by (auto simp: Let_def list_all_iff log_after_def [of t s "(?now, True)"])
  next
    case (ends us roi fk)
    let ?now = "unat (round_now r)"
    have u: "t \<le> ?now" "clock_from ?now rs" using Cons.prems(2) ends(1) by simp_all
    have IH1: "list_all (log_after ?now ?s1) (event_log n ?s1 rs) \<and> sorted_wrt (log_order (mo_config s)) (event_log n ?s1 rs)"
      using IH [of ?now] u ends(7-9) Cons.prems(3-5) by auto
    have stop: "unat (motion_start_time s) + nat (min_time (mo_config s)) \<le> ?now"
      using elapsed [OF ends(6) Cons.prems(8,9)] Cons.prems(5) u(1) by simp
    have "log_after t s e" if "log_after ?now ?s1 e" for e
      using that stop u(1) ends(7) c by (auto simp: log_after_def)
    moreover have "log_order (mo_config s) (?now, False) e" for e by (simp add: log_order_def)
    ultimately show ?thesis using IH1 ends(2,3) stop u(1)
      by (auto simp: Let_def list_all_iff log_after_def [of t s "(?now, False)"])
  qed
qed simp


text \<open>
  C32. With a script configured, no event pending and no earlier one in the cleared state the run begins in, and
  a clock that does not run backwards, two events of a run begin at least the cool-down time apart, and an event
  ends at least the minimum time after it began.
\<close>

theorem motion_event_times:
  assumes "script_path (mo_config s) \<noteq> []" and "\<not> motion_detected s" and "last_motion_time s = 0" and "motion_start_time s = 0"
    and "clock_from 1 rs" and "0 \<le> cooldown_time (mo_config s)" and "cooldown_time (mo_config s) < 2 ^ 31"
    and "0 \<le> min_time (mo_config s)" and "min_time (mo_config s) < 2 ^ 31"
    and "i < j" and "j < length (event_log n s rs)" and "event_log n s rs ! i = (t, True)"
    and "event_log n s rs ! j = (u, began)"
  shows "t + nat (if began then cooldown_time (mo_config s) else min_time (mo_config s)) \<le> u"
proof -
  have "event_ok s" using assms(1,2) by (simp add: event_ok_def)
  from event_log_ordered [OF this assms(5)] assms(3,4,6-9)
  have "sorted_wrt (log_order (mo_config s)) (event_log n s rs)" by simp
  with assms(10,11) have "log_order (mo_config s) (event_log n s rs ! i) (event_log n s rs ! j)"
    by (simp add: sorted_wrt_iff_nth_less)
  with assms(12,13) show ?thesis by (simp add: log_order_def split: if_splits)
qed

section \<open>Zones\<close>

text \<open>What the parser and the initialisation keep of the zones.\<close>

definition zone_fits :: "motion_zone \<Rightarrow> bool" where
  "zone_fits z \<longleftrightarrow> length (zone_type z) < 16 \<and> length (zone_name z) < 64"

definition zones_fit :: "motion_module_config \<Rightarrow> bool" where
  "zones_fit c \<longleftrightarrow>
     length (zones c) = MOTION_MAX_ROI_COUNT \<and> 0 \<le> zone_count c \<and> zone_count c \<le> int MOTION_MAX_ROI_COUNT \<and>
     list_all zone_fits (zones c) \<and> length (script_path c) < 256"

lemma parse_zone_fits: "zone_fits z \<Longrightarrow> zone_fits (parse_zone J j z)"
  unfolding parse_zone_def Let_def
  by (intro if_member_inv [of zone_fits] text_member_inv [of zone_fits]) (auto simp: zone_fits_def)

lemma parse_zones_fit: "list_all zone_fits zs \<Longrightarrow> list_all zone_fits (parse_zones J vs zs)"
  by (induction J vs zs rule: parse_zones.induct) (auto simp: parse_zone_fits split: option.split)

lemma length_parse_zones [simp]: "length (parse_zones J vs zs) = length zs"
  by (induction J vs zs rule: parse_zones.induct) auto

lemma full_frame_fits:
  assumes "zones_fit c"
  shows "zones_fit (use_full_frame c)"
proof -
  have "zone_fits full_frame" by (simp add: zone_fits_def full_frame_def)
  with assms set_update_subset_insert [of "zones c" 0 full_frame] show ?thesis
    by (auto simp: zones_fit_def use_full_frame_def list_all_iff MOTION_MAX_ROI_COUNT_def)
qed

lemma zone_settings_keep [simp]:
  "zones (parse_zone_settings J j c) = zones c" "zone_count (parse_zone_settings J j c) = zone_count c"
  "script_path (parse_zone_settings J j c) = script_path c"
  by (auto simp: parse_zone_settings_def Let_def if_member_def split: option.splits)

lemma parse_zone_config_fits: "zones_fit c \<Longrightarrow> zones_fit (parse_zone_config J j c)"
proof (cases "case json_get J j ''zones'' of None \<Rightarrow> None | Some v \<Rightarrow> json_array J v")
  case (Some vs)
  assume c: "zones_fit c"
  have "zones_fit (if_member J j ''settings'' (parse_zone_settings J)
      (c\<lparr>zone_count := int (min MOTION_MAX_ROI_COUNT (length vs)), zones := parse_zones J vs (zones c)\<rparr>))"
    by (rule if_member_inv [of zones_fit]) (use c parse_zones_fit in \<open>auto simp: zones_fit_def\<close>)
  with Some show ?thesis by (simp add: parse_zone_config_def)
qed (simp add: parse_zone_config_def full_frame_fits)

lemma load_roi_fits: "zones_fit c \<Longrightarrow> zones_fit (load_roi_config J files c)"
proof (cases "find (\<lambda>f. f \<noteq> None) files")
  case None
  assume "zones_fit c"
  from full_frame_fits [OF this] None show ?thesis by (simp add: load_roi_config_def zones_fit_def)
next
  case (Some f)
  assume c: "zones_fit c"
  from Some obtain j where "f = Some j" by (auto simp: find_Some_iff)
  with Some parse_zone_config_fits [OF c] show ?thesis by (simp add: load_roi_config_def)
qed

lemma default_fits: "zones_fit motion_set_default_config"
  by (simp add: zones_fit_def motion_set_default_config_def full_frame_def zero_zone_def zone_fits_def
      MOTION_MAX_ROI_COUNT_def numeral_eq_Suc)

lemma config_parse_fits:
  assumes "motion_module_config_parse J (Some j) True = (r, c)"
  shows "r = 0 \<and> (\<exists>d. c = Some d \<and> zones_fit d)"
proof -
  have keep: "zones_fit (if_member J j key f c)"
    if "zones_fit c" and "\<And>v c. zones (f v c) = zones c \<and> zone_count (f v c) = zone_count c \<and> script_path (f v c) = script_path c"
    for key f c
    using that by (intro if_member_inv [of zones_fit]) (auto simp: zones_fit_def)
  have script: "zones_fit (text_member J j key 256 (\<lambda>s c. c\<lparr>script_path := s\<rparr>) c)" if "zones_fit c" for key c
    using that by (intro text_member_inv [of zones_fit]) (auto simp: zones_fit_def)
  from assms have "r = 0" and c: "c = snd (motion_module_config_parse J (Some j) True)"
    by (auto simp: motion_module_config_parse_def Let_def)
  moreover have "\<exists>d. c = Some d \<and> zones_fit d"
    unfolding c motion_module_config_parse_def option.case Let_def not_True_eq_False if_False snd_conv
    by (rule exI, rule conjI, rule refl, rule script) (intro keep default_fits; simp)
  ultimately show ?thesis by blast
qed


lemma fit_channel_fits:
  assumes "zones_fit c"
  shows "zones_fit (fit_channel chn c)"
proof -
  have z: "zone_fits (fill_zone w h z)" if "zone_fits z" for w h z
    using that by (simp add: fill_zone_def zone_fits_def)
  have l: "list_all zone_fits (map (fill_zone w h) (take n zs) @ drop n zs)" if "list_all zone_fits zs" for w h n zs
    using that z by (auto simp: list_all_iff dest: in_set_takeD in_set_dropD)
  show ?thesis
  proof (cases "motion_get_channel_dimensions chn (monitor_stream c)")
    case None
    with assms show ?thesis by (simp add: fit_channel_def)
  next
    case (Some d)
    obtain w h where "d = (w, h)" by (metis prod.exhaust)
    with Some assms l show ?thesis
      by (auto simp: fit_channel_def map_zones_def zones_fit_def min_def MOTION_MAX_ROI_COUNT_def)
  qed
qed

lemma fit_channel_filled:
  assumes "motion_get_channel_dimensions chn (monitor_stream c) = Some (w, h)" and "0 < w"
    and "z \<in> set (take (nat (zone_count c)) (zones (fit_channel chn c)))"
  shows "\<not> (zone_width z = 0 \<and> zone_height z = 0)"
proof -
  let ?n = "nat (zone_count c)"
  have "zones (fit_channel chn c) = map (fill_zone w h) (take ?n (zones c)) @ drop ?n (zones c)"
    using assms(1) by (simp add: fit_channel_def map_zones_def)
  then have "z \<in> fill_zone w h ` set (take ?n (zones c)) \<or> z \<in> set (take (?n - length (take ?n (zones c))) (drop ?n (zones c)))"
    using assms(3) by auto
  then show ?thesis using assms(2) by (auto simp: fill_zone_def min_def split: if_splits)
qed

lemma fit_channel_frame [simp]:
  "monitor_stream (fit_channel chn c) = monitor_stream c" "zone_count (fit_channel chn c) = zone_count c"
  by (simp_all add: fit_channel_def map_zones_def split: option.split prod.split)

text \<open>
  Whatever the configuration and the zone file contain, after the initialisation at most four zones are in
  use, with texts that fit their fields, none of them is empty if the size of the channel is known, and at
  most four regions are handed to the vendor library.
\<close>

theorem motion_zones_bounded:
  assumes "motion_module_config_parse J (Some j) True = (r0, Some c)" and "\<not> mo_initialized s"
    and "motion_module_init J files chn True (Some c) s = (r, s1)"
  shows "r = 0 \<and> zones_fit (mo_config s1) \<and> length (param_rois (move_param n (mo_config s1))) \<le> MOTION_MAX_ROI_COUNT \<and>
    (\<forall>w h. motion_get_channel_dimensions chn (monitor_stream (mo_config s1)) = Some (w, h) \<longrightarrow> 0 < w \<longrightarrow>
       (\<forall>z \<in> set (take (nat (zone_count (mo_config s1))) (zones (mo_config s1))). \<not> (zone_width z = 0 \<and> zone_height z = 0)))"
proof -
  let ?c = "load_roi_config J files c"
  have s1: "r = 0" "mo_config s1 = fit_channel chn ?c" using assms(2,3) by (auto simp: motion_module_init_def Let_def)
  from config_parse_fits [OF assms(1)] have "zones_fit c" by blast
  from fit_channel_fits [OF load_roi_fits [OF this]] s1 have fits: "zones_fit (mo_config s1)" by simp
  have "length (param_rois (move_param n (mo_config s1))) \<le>
      length (filter (\<lambda>z. zone_type z = ''include'') (take (nat (zone_count (mo_config s1))) (zones (mo_config s1))))"
    by (simp add: move_param_def include_zones_def)
  also have "\<dots> \<le> length (zones (mo_config s1))" by (rule order_trans [OF length_filter_le]) simp
  finally show ?thesis using s1 fits fit_channel_filled [of chn ?c] by (auto simp: zones_fit_def)
qed

section \<open>Examples\<close>

definition sample_motion :: motion_state where
  "sample_motion = zero_motion\<lparr>mo_config := motion_set_default_config, mo_thread := True\<rparr>"

definition sample_rounds :: "motion_round list" where
  "sample_rounds =
     [MotionResult 9000000 (\<lambda>i. True) True, PollFailed, MotionResult 9400000 (\<lambda>i. False) True,
      MotionResult 11000000 (\<lambda>i. False) False, MotionResult 12000000 (\<lambda>i. True) True,
      MotionResult 15500000 (\<lambda>i. i = 0) True]"

lemma sample_log: "event_log 52 sample_motion sample_rounds = [(9, True), (11, False), (15, True)]"
  by code_simp

text \<open>Start, a stop whose fork fails, and start again: the third try leaves the event pending.\<close>

theorem motion_scripts_alternate_witness:
  "\<exists>forks. length forks = 3 \<and> ForkFailed \<in> set (mo_calls (foldl (motion_detection_thread 52) sample_motion sample_rounds)) \<and>
     mo_calls (foldl (motion_detection_thread 52) sample_motion sample_rounds) =
       map2 (script_call sample_motion) (motion_actions (length forks)) forks \<and>
     motion_detected (foldl (motion_detection_thread 52) sample_motion sample_rounds)"
proof -
  let ?t = "foldl (motion_detection_thread 52) sample_motion sample_rounds"
  have "motion_detected ?t" "length (mo_calls ?t) = 3" "list_ex (\<lambda>c. c = ForkFailed) (mo_calls ?t)" by code_simp+
  with motion_scripts_alternate [of 52 sample_motion sample_rounds, OF refl] show ?thesis
    by (auto simp: sample_motion_def zero_motion_def motion_set_default_config_def motion_actions_def list_ex_iff)
qed

theorem motion_event_times_witness:
  "event_log 52 sample_motion sample_rounds = [(9, True), (11, False), (15, True)] \<and>
   fst (event_log 52 sample_motion sample_rounds ! 0) + nat (cooldown_time (mo_config sample_motion)) \<le>
     fst (event_log 52 sample_motion sample_rounds ! 2)"
  using motion_event_times [of sample_motion sample_rounds 0 2 52 9 15 True] sample_log
  by (simp add: sample_motion_def zero_motion_def motion_set_default_config_def sample_rounds_def round_now_def)

theorem motion_zones_bounded_witness:
  "zones_fit (mo_config (snd (motion_module_init sample_json_c [None, None]
      (replicate 4 \<lparr>fs_enable = True, fs_scaler = None, fs_picture = (640, 360)\<rparr>) True
      (Some motion_set_default_config) zero_motion)))"
proof -
  have "motion_module_config_parse sample_json_c (Some (JObject [])) True = (0, Some motion_set_default_config)"
    by (simp add: motion_module_config_parse_def sample_json_c_def if_member_def text_member_def)
  from motion_zones_bounded [OF this _ surjective_pairing] show ?thesis by (simp add: zero_motion_def)
qed

section \<open>What the code does not do\<close>

text \<open>Excluded zones are not looked at: with zones of that type only, nothing is ever detected.\<close>

lemma excluded_zones_blind:
  assumes "list_all (\<lambda>z. zone_type z \<noteq> ''include'') (take (nat (zone_count (mo_config s))) (zones (mo_config s)))"
    and "\<not> motion_detected s"
  shows "motion_process_result n now roi fk s = s" and "param_rois (move_param n (mo_config s)) = []"
proof -
  have "filter (\<lambda>z. zone_type z = ''include'') (take (nat (zone_count (mo_config s))) (zones (mo_config s))) = []"
    using assms(1) by (auto simp: filter_empty_conv list_all_iff)
  then have "include_zones n (mo_config s) = []" by (simp add: include_zones_def)
  with assms(2) show "motion_process_result n now roi fk s = s" "param_rois (move_param n (mo_config s)) = []"
    by (simp_all add: motion_process_result_def motion_in_any_roi_def move_param_def)
qed

text \<open>Stopping and cleaning up during an event does not call the script with stop.\<close>

lemma cleanup_forgets_event:
  assumes "mo_running s" and "mo_initialized s"
  shows "\<not> motion_detected (snd (motion_module_cleanup env True s))"
    and "\<forall>a. MotionScript a \<in> set (mo_calls (snd (motion_module_cleanup env True s))) \<longleftrightarrow> MotionScript a \<in> set (mo_calls s)"
  using assms by (auto simp: motion_module_cleanup_def motion_module_stop_def cleanup_ivs_state Let_def zero_motion_def)

text \<open>If the start of reception fails the source is released twice, and reception is stopped that never began.\<close>

lemma failed_start_releases_twice:
  "fst (motion_setup_ivs (sample_ivs\<lparr>start_ok := False\<rparr>) zero_motion) = -1 \<and>
   drop 5 (mo_calls (snd (motion_setup_ivs (sample_ivs\<lparr>start_ok := False\<rparr>) zero_motion))) =
     [IvsStart False, IvsRelease (IvsUnBind 0) True, IvsRelease IvsStop False, IvsRelease (IvsUnBind 0) False,
      IvsRelease IvsUnRegister True, IvsRelease IvsDestroyChn True, IvsRelease IvsDestroyInterface True,
      IvsRelease IvsDestroyGroup True]"
  by code_simp

end
