(* ===== verification/OnvifDiscovery.thy ===== *)
theory OnvifDiscovery
  imports HttpServer
begin

text \<open>
  \<open>onvif_discovery.c\<close> and \<open>onvif_module.c\<close>: the thread that answers the probes of WS-Discovery, with its caches
  of message ids and of clients, and the life cycle of the ONVIF module. The network is the list of datagrams
  that arrive; time and random numbers come with them.
\<close>

section \<open>Message ids\<close>

text \<open>\<open>%x\<close>\<close>

definition hex_digit :: "nat \<Rightarrow> char" where
  "hex_digit n = (if n < 10 then digit n else char_of (87 + n))"

fun hexadecimal :: "nat \<Rightarrow> string" where
  "hexadecimal n = (if n < 16 then [hex_digit n] else hexadecimal (n div 16) @ [hex_digit (n mod 16)])"

declare hexadecimal.simps [simp del]

text \<open>
  \<open>r i\<close> is the number the call of \<open>rand\<close> for the \<open>i\<close>-th conversion yields; C leaves open in which order the calls
  are made.
\<close>

definition generate_uuid :: "nat \<Rightarrow> (nat \<Rightarrow> u32) \<Rightarrow> string" where
  "generate_uuid sz r =
     (let x = (\<lambda>w. hexadecimal (unat w))
      in fit sz
           (x (r 0 AND 0xffff) @ x (r 1 AND 0xffff) @ ''-'' @ x (r 2 AND 0xffff) @ ''-'' @ x (r 3 AND 0xffff) @ ''-'' @
            x (r 4 AND 0x0fff OR 0x4000) @ ''-'' @ x (r 5 AND 0x3fff OR 0x8000) @ x (r 6 AND 0xffff) @
            x (r 7 AND 0xffff)))"

text \<open>The position behind the \<open>MessageID\<close> tag, with one of three prefixes.\<close>

definition message_id_tag :: "string \<Rightarrow> nat option" where
  "message_id_tag request =
     (case strstr request ''<wsa:MessageID>'' of
        Some i \<Rightarrow> Some i
      | None \<Rightarrow>
          (case strstr request ''<a:MessageID>'' of
             Some i \<Rightarrow> Some i
           | None \<Rightarrow> strstr request ''<d:MessageID>''))"

definition extract_message_id :: "bool \<Rightarrow> string \<Rightarrow> string option" where
  "extract_message_id malloc_ok request =
     (case message_id_tag request of
        None \<Rightarrow> None
      | Some i \<Rightarrow>
          (case strchr (drop i request) CHR ''>'' of
             None \<Rightarrow> None
           | Some j \<Rightarrow>
               (let start = drop (i + j + 1) request
                in case strstr start ''</'' of
                     None \<Rightarrow> None
                   | Some len \<Rightarrow> if len = 0 then None else if \<not> malloc_ok then None else Some (take len start))))"

section \<open>The caches\<close>

definition MAX_MESSAGE_ID_LEN :: nat where
  "MAX_MESSAGE_ID_LEN = 128"

definition MAX_RECENT_MESSAGES :: nat where
  "MAX_RECENT_MESSAGES = 20"

definition MAX_RECENT_CLIENTS :: nat where
  "MAX_RECENT_CLIENTS = 20"

definition RESPONSE_COOLDOWN_SECONDS :: int where
  "RESPONSE_COOLDOWN_SECONDS = 1"

text \<open>Entries with their time, and the index of the slot that is filled next.\<close>

record message_cache =
  message_ids :: "(string \<times> int) list"
  message_index :: nat

record client_cache =
  client_ips :: "(u32 \<times> int) list"
  client_index :: nat

definition is_duplicate_message :: "string option \<Rightarrow> int \<Rightarrow> message_cache \<Rightarrow> bool \<times> message_cache" where
  "is_duplicate_message message_id now c =
     (case message_id of
        None \<Rightarrow> (False, c)
      | Some m \<Rightarrow>
          if list_ex (\<lambda>(i, t). now - t < 5 \<and> i = m) (message_ids c) then (True, c)
          else (False, c\<lparr>message_ids := (message_ids c)[message_index c := (fit MAX_MESSAGE_ID_LEN m, now)],
                         message_index := (message_index c + 1) mod MAX_RECENT_MESSAGES\<rparr>))"

fun find_client :: "u32 \<Rightarrow> (u32 \<times> int) list \<Rightarrow> nat option" where
  "find_client ip [] = None"
| "find_client ip ((a, t) # es) = (if a = ip then Some 0 else map_option Suc (find_client ip es))"

definition is_client_in_cooldown :: "u32 \<Rightarrow> int \<Rightarrow> client_cache \<Rightarrow> bool \<times> client_cache" where
  "is_client_in_cooldown ip now c =
     (case find_client ip (client_ips c) of
        Some i \<Rightarrow>
          if now - snd (client_ips c ! i) < RESPONSE_COOLDOWN_SECONDS then (True, c)
          else (False, c\<lparr>client_ips := (client_ips c)[i := (ip, now)]\<rparr>)
      | None \<Rightarrow>
          (False, c\<lparr>client_ips := (client_ips c)[client_index c := (ip, now)],
                    client_index := (client_index c + 1) mod MAX_RECENT_CLIENTS\<rparr>))"

section \<open>The thread\<close>

text \<open>
  What is in the locals of the thread is in \<open>ds_model\<close> and \<open>ds_uuid\<close>; \<open>ds_thread\<close> is a thread in its loop,
  \<open>ds_sent\<close> the answers sent, with their addressees, and \<open>ds_open\<close> the number of open sockets.
\<close>

record discovery_state =
  ds_running :: bool
  ds_thread :: bool
  recent_messages :: message_cache
  client_cooldown_cache :: client_cache
  ds_model :: string
  ds_uuid :: string
  ds_sent :: "(u32 \<times> string) list"
  ds_open :: nat

definition zero_discovery :: discovery_state where
  "zero_discovery =
     \<lparr>ds_running = False, ds_thread = False,
      recent_messages = \<lparr>message_ids = replicate MAX_RECENT_MESSAGES ([], 0), message_index = 0\<rparr>,
      client_cooldown_cache = \<lparr>client_ips = replicate MAX_RECENT_CLIENTS (0, 0), client_index = 0\<rparr>,
      ds_model = [], ds_uuid = [], ds_sent = [], ds_open = 0\<rparr>"

text \<open>
  What \<open>fgets\<close> reads from a file without NULs into \<open>n\<close> bytes, call after call: up to \<open>n - 1\<close> characters and
  not beyond the end of a line.
\<close>

definition fgets_line :: "nat \<Rightarrow> string \<Rightarrow> string" where
  "fgets_line n s = take (n - 1) (takeWhile (\<lambda>c. c \<noteq> CHR 0x0A) s @ (if CHR 0x0A \<in> set s then [CHR 0x0A] else []))"

function fgets_lines :: "nat \<Rightarrow> string \<Rightarrow> string list" where
  "fgets_lines n s =
     (if s = [] \<or> n < 2 then [] else fgets_line n s # fgets_lines n (drop (length (fgets_line n s)) s))"
  by auto
termination
proof (relation "measure (\<lambda>(n, s). length s)", goal_cases)
  case (2 n s)
  then have "fgets_line n s \<noteq> []" by (cases s) (auto simp: fgets_line_def)
  with 2 show ?case by (cases "fgets_line n s") auto
qed simp

declare fgets_lines.simps [simp del]

text \<open>The character at an index of a C string, which may be its NUL.\<close>

definition c_at :: "string \<Rightarrow> nat \<Rightarrow> char" where
  "c_at s i = (if i < length s then s ! i else CHR 0x00)"

text \<open>The key and the value of a line with a \<open>=\<close>, as the thread cuts them out: \<open>len\<close> still counts the newline.\<close>

definition discovery_value :: "string \<Rightarrow> string" where
  "discovery_value v =
     (let len = length v;
          v1 = (if 0 < len \<and> c_at v (len - 1) = CHR 0x0A then take (len - 1) v else v)
      in if 1 < len \<and> c_at v1 0 = CHR 0x22 \<and> c_at v1 (len - 1) = CHR 0x22 then take (len - 2) (tl v1) else v1)"

definition model_line :: "string \<Rightarrow> string \<Rightarrow> string" where
  "model_line model line =
     (case strchr line CHR ''='' of
        None \<Rightarrow> model
      | Some i \<Rightarrow> if take i line = ''IMAGE_ID'' then take 63 (discovery_value (drop (i + 1) line)) else model)"

definition discovery_model :: "string option \<Rightarrow> string" where
  "discovery_model os_release =
     (case os_release of
        None \<Rightarrow> ''Thingino''
      | Some s \<Rightarrow> foldl model_line ''Thingino'' (fgets_lines 256 s))"

text \<open>What the thread meets before its loop.\<close>

record discovery_env =
  os_release_file :: "string option"
  uuid_random :: "nat \<Rightarrow> u32"
  socket_created :: bool
  reuse_set :: bool
  socket_bound :: bool
  group_joined :: bool

definition discovery_thread_open :: "discovery_env \<Rightarrow> discovery_state \<Rightarrow> discovery_state" where
  "discovery_thread_open env s =
     (let s1 = s\<lparr>ds_model := discovery_model (os_release_file env), ds_uuid := generate_uuid 40 (uuid_random env)\<rparr>
      in if socket_created env \<and> reuse_set env \<and> socket_bound env \<and> group_joined env
         then s1\<lparr>ds_thread := True, ds_open := ds_open s1 + 1\<rparr> else s1\<lparr>ds_thread := False\<rparr>)"

text \<open>The address and the port of the configuration, \<open>None\<close> if there is none.\<close>

type_synonym server_address = "(string \<times> c_int) option"

definition probe_match :: "string \<Rightarrow> string \<Rightarrow> string \<Rightarrow> string \<Rightarrow> string \<Rightarrow> c_int \<Rightarrow> string" where
  "probe_match message_uuid message_id device_uuid model server_ip port =
     ''<?xml version=\"1.0\" encoding=\"UTF-8\"?>'' @
     ''<SOAP-ENV:Envelope xmlns:SOAP-ENV=\"http://www.w3.org/2003/05/soap-envelope\"'' @
     '' xmlns:wsa=\"http://www.w3.org/2005/08/addressing\"'' @
     '' xmlns:d=\"http://schemas.xmlsoap.org/ws/2005/04/discovery\"'' @
     '' xmlns:dn=\"http://www.onvif.org/ver10/network/wsdl\">'' @
     ''<SOAP-ENV:Header>'' @
     ''<wsa:MessageID>uuid:'' @ message_uuid @ ''</wsa:MessageID>'' @
     ''<wsa:RelatesTo>'' @ message_id @ ''</wsa:RelatesTo>'' @
     ''<wsa:To>http://schemas.xmlsoap.org/ws/2004/08/addressing/role/anonymous</wsa:To>'' @
     ''<wsa:Action>http://schemas.xmlsoap.org/ws/2005/04/discovery/ProbeMatches</wsa:Action>'' @
     ''</SOAP-ENV:Header>'' @ ''<SOAP-ENV:Body>'' @ ''<d:ProbeMatches>'' @ ''<d:ProbeMatch>'' @
     ''<wsa:EndpointReference>'' @ ''<wsa:Address>urn:uuid:'' @ device_uuid @ ''</wsa:Address>'' @
     ''</wsa:EndpointReference>'' @ ''<d:Types>dn:NetworkVideoTransmitter</d:Types>'' @
     ''<d:Scopes>onvif://www.onvif.org/type/video_encoder onvif://www.onvif.org/hardware/'' @ model @
     '' onvif://www.onvif.org/location/country/unknown</d:Scopes>'' @
     ''<d:XAddrs>http://'' @ server_ip @ '':'' @ decimal_int port @ ''/onvif/device_service</d:XAddrs>'' @
     ''<d:MetadataVersion>1</d:MetadataVersion>'' @ ''</d:ProbeMatch>'' @ ''</d:ProbeMatches>'' @
     ''</SOAP-ENV:Body>'' @ ''</SOAP-ENV:Envelope>''"

text \<open>
  A call of \<open>recvfrom\<close>: no bytes for an error. The two times are those the two caches read, \<open>dg_memory\<close> is whether
  the copy of the message id can be allocated.
\<close>

record datagram =
  dg_bytes :: bytes
  dg_ip :: u32
  dg_time1 :: int
  dg_time2 :: int
  dg_random :: "nat \<Rightarrow> u32"
  dg_memory :: bool

text \<open>The message id of a datagram that is a probe for cameras.\<close>

definition probe_id :: "datagram \<Rightarrow> string option" where
  "probe_id d =
     (let buffer = c_text (take 4095 (dg_bytes d))
      in if dg_bytes d = [] then None
         else if strstr buffer ''Probe'' \<noteq> None \<and> strstr buffer ''NetworkVideoTransmitter'' \<noteq> None
         then extract_message_id (dg_memory d) buffer else None)"

text \<open>The body of the loop behind \<open>recvfrom\<close>.\<close>

definition discovery_receive :: "server_address \<Rightarrow> datagram \<Rightarrow> discovery_state \<Rightarrow> discovery_state" where
  "discovery_receive g_config d s =
     (case probe_id d of
        None \<Rightarrow> s
      | Some message_id \<Rightarrow>
          (case is_duplicate_message (Some message_id) (dg_time1 d) (recent_messages s) of
             (True, c) \<Rightarrow> s\<lparr>recent_messages := c\<rparr>
           | (False, c) \<Rightarrow>
               (case is_client_in_cooldown (dg_ip d) (dg_time2 d) (client_cooldown_cache s) of
                  (True, k) \<Rightarrow> s\<lparr>recent_messages := c, client_cooldown_cache := k\<rparr>
                | (False, k) \<Rightarrow>
                    (let s1 = s\<lparr>recent_messages := c, client_cooldown_cache := k\<rparr>
                     in case g_config of
                          None \<Rightarrow> s1
                        | Some (ip, port) \<Rightarrow>
                            if port = 0 then s1
                            else s1\<lparr>ds_sent := ds_sent s1 @
                                     [(dg_ip d, fit 8192 (probe_match (generate_uuid 40 (dg_random d)) message_id
                                        (ds_uuid s1) (ds_model s1) ip port))]\<rparr>))))"

text \<open>The loop, as long as it runs, over the datagrams that arrive.\<close>

definition discovery_thread_func ::
  "server_address \<Rightarrow> discovery_state \<Rightarrow> datagram list \<Rightarrow> discovery_state" where
  "discovery_thread_func g_config s ds = (if ds_thread s then foldl (\<lambda>s d. discovery_receive g_config d s) s ds else s)"

definition onvif_start_discovery_service ::
  "bool \<Rightarrow> discovery_env \<Rightarrow> discovery_state \<Rightarrow> c_int \<times> discovery_state" where
  "onvif_start_discovery_service thread_ok env s =
     (if ds_running s then (0, s)
      else if \<not> thread_ok then (-1, s\<lparr>ds_running := False\<rparr>)
      else (0, discovery_thread_open env (s\<lparr>ds_running := True\<rparr>)))"

text \<open>
  Stopping waits for the thread, which is in \<open>recvfrom\<close>: it ends after the next of the datagrams \<open>later\<close>.
  \<open>None\<close> is that the call does not return.
\<close>

definition onvif_stop_discovery_service ::
  "server_address \<Rightarrow> datagram list \<Rightarrow> discovery_state \<Rightarrow> (c_int \<times> discovery_state) option" where
  "onvif_stop_discovery_service g_config later s =
     (if \<not> ds_running s then Some (0, s)
      else
        (let s1 = s\<lparr>ds_running := False\<rparr>
         in if \<not> ds_thread s1 then Some (0, s1)
            else (case later of
                    [] \<Rightarrow> None
                  | d # ds \<Rightarrow>
                      (let s2 = discovery_receive g_config d s1
                       in Some (0, s2\<lparr>ds_thread := False, ds_open := ds_open s2 - 1\<rparr>)))))"


section \<open>The module\<close>

record onvif_config =
  ov_enabled :: bool
  ov_auth :: auth_config
  ov_device_name :: string
  ov_device_location :: string
  ov_manufacturer :: string
  ov_model :: string
  ov_serial_number :: string
  ov_firmware_version :: string
  ov_hardware_id :: string
  ov_discovery_enabled :: bool
  ov_discovery_port :: c_int
  ov_device_service :: bool
  ov_media_service :: bool
  ov_event_service :: bool

definition onvif_defaults :: onvif_config where
  "onvif_defaults =
     \<lparr>ov_enabled = True,
      ov_auth = \<lparr>auth_enabled = False, localhost_bypass = True, auth_username = ''admin'', auth_password = ''admin''\<rparr>,
      ov_device_name = ''Thingino Camera'', ov_device_location = ''Embedded'', ov_manufacturer = ''Thingino'',
      ov_model = ''Streamer'', ov_serial_number = ''123456789'', ov_firmware_version = ''1.0.0'',
      ov_hardware_id = ''thingino-hw1'', ov_discovery_enabled = True, ov_discovery_port = 3702,
      ov_device_service = True, ov_media_service = True, ov_event_service = False\<rparr>"

definition zero_onvif_config :: onvif_config where
  "zero_onvif_config =
     \<lparr>ov_enabled = False,
      ov_auth = \<lparr>auth_enabled = False, localhost_bypass = False, auth_username = [], auth_password = []\<rparr>,
      ov_device_name = [], ov_device_location = [], ov_manufacturer = [], ov_model = [], ov_serial_number = [],
      ov_firmware_version = [], ov_hardware_id = [], ov_discovery_enabled = False, ov_discovery_port = 0,
      ov_device_service = False, ov_media_service = False, ov_event_service = False\<rparr>"

text \<open>Of the credentials \<open>strncpy\<close> writes no terminator; the last byte of the field is still zero.\<close>

definition parse_onvif_auth :: "'j json_c \<Rightarrow> 'j \<Rightarrow> auth_config \<Rightarrow> auth_config" where
  "parse_onvif_auth J e a =
     (let a1 = if_member J e ''enabled'' (\<lambda>v a. a\<lparr>auth_enabled := json_boolean J v\<rparr>) a;
          a2 = if_member J e ''localhost_bypass'' (\<lambda>v a. a\<lparr>localhost_bypass := json_boolean J v\<rparr>) a1;
          a3 = text_member J e ''username'' 64 (\<lambda>s a. a\<lparr>auth_username := s\<rparr>) a2
      in text_member J e ''password'' 64 (\<lambda>s a. a\<lparr>auth_password := s\<rparr>) a3)"

definition onvif_module_config_parse :: "'j json_c \<Rightarrow> 'j option \<Rightarrow> bool \<Rightarrow> c_int \<times> onvif_config option" where
  "onvif_module_config_parse J json config =
     (case json of
        None \<Rightarrow> (-1, None)
      | Some j \<Rightarrow>
          if \<not> config then (-1, None)
          else
            (let c0 = if_member J j ''auth'' (\<lambda>v c. c\<lparr>ov_auth := parse_onvif_auth J v (ov_auth c)\<rparr>) onvif_defaults;
                 c1 = if_member J j ''enabled'' (\<lambda>v c. c\<lparr>ov_enabled := json_boolean J v\<rparr>) c0;
                 c2 = text_member J j ''device_name'' 64 (\<lambda>s c. c\<lparr>ov_device_name := s\<rparr>) c1;
                 c3 = text_member J j ''device_location'' 64 (\<lambda>s c. c\<lparr>ov_device_location := s\<rparr>) c2;
                 c4 = text_member J j ''manufacturer'' 64 (\<lambda>s c. c\<lparr>ov_manufacturer := s\<rparr>) c3;
                 c5 = text_member J j ''model'' 64 (\<lambda>s c. c\<lparr>ov_model := s\<rparr>) c4;
                 c6 = text_member J j ''serial_number'' 64 (\<lambda>s c. c\<lparr>ov_serial_number := s\<rparr>) c5;
                 c7 = text_member J j ''firmware_version'' 32 (\<lambda>s c. c\<lparr>ov_firmware_version := s\<rparr>) c6
             in (0, Some (text_member J j ''hardware_id'' 32 (\<lambda>s c. c\<lparr>ov_hardware_id := s\<rparr>) c7))))"

text \<open>
  The state of the module, with that of the discovery beside it. The module has a flag and a handle of its own for
  a discovery thread, which nothing sets.
\<close>

record onvif_state =
  on_config :: onvif_config
  on_initialized :: bool
  on_running :: bool
  on_discovery_thread :: bool
  on_discovery_running :: bool
  on_discovery :: discovery_state

definition zero_onvif :: onvif_state where
  "zero_onvif =
     \<lparr>on_config = zero_onvif_config, on_initialized = False, on_running = False, on_discovery_thread = False,
      on_discovery_running = False, on_discovery = zero_discovery\<rparr>"

text \<open>Setting up the services only writes to the log, and succeeds.\<close>

definition setup_onvif_services :: "onvif_state \<Rightarrow> c_int" where
  "setup_onvif_services s = 0"

definition onvif_module_init :: "onvif_config option \<Rightarrow> onvif_state \<Rightarrow> c_int \<times> onvif_state" where
  "onvif_module_init config s =
     (if on_initialized s then (0, s)
      else
        (let s1 = s\<lparr>on_config := (case config of Some c \<Rightarrow> c | None \<Rightarrow> onvif_defaults)\<rparr>
         in if \<not> ov_enabled (on_config s1) then (0, s1\<lparr>on_initialized := True\<rparr>)
            else if setup_onvif_services s1 \<noteq> 0 then (-1, s1)
            else (0, s1\<lparr>on_initialized := True\<rparr>)))"

definition setup_onvif_discovery :: "bool \<Rightarrow> discovery_env \<Rightarrow> onvif_state \<Rightarrow> c_int \<times> onvif_state" where
  "setup_onvif_discovery thread_ok env s =
     (case onvif_start_discovery_service thread_ok env (on_discovery s) of
        (r, d) \<Rightarrow> (if r \<noteq> 0 then -1 else 0, s\<lparr>on_discovery := d\<rparr>))"

definition onvif_module_start :: "bool \<Rightarrow> discovery_env \<Rightarrow> onvif_state \<Rightarrow> c_int \<times> onvif_state" where
  "onvif_module_start thread_ok env s =
     (if \<not> on_initialized s then (-1, s)
      else if on_running s then (0, s)
      else if \<not> ov_enabled (on_config s) then (0, s)
      else
        (case (if ov_discovery_enabled (on_config s) then setup_onvif_discovery thread_ok env s else (0, s)) of
           (r, s1) \<Rightarrow> if r \<noteq> 0 then (-1, s1) else (0, s1\<lparr>on_running := True\<rparr>)))"

definition onvif_module_stop :: "onvif_state \<Rightarrow> c_int \<times> onvif_state" where
  "onvif_module_stop s =
     (if \<not> on_running s then (0, s)
      else
        (let s1 = (if on_discovery_running s then s\<lparr>on_discovery_running := False\<rparr> else s)
         in (0, s1\<lparr>on_running := False\<rparr>)))"

definition onvif_module_cleanup :: "onvif_state \<Rightarrow> c_int \<times> onvif_state" where
  "onvif_module_cleanup s =
     (let s1 = snd (onvif_module_stop s) in (0, zero_onvif\<lparr>on_discovery := on_discovery s1\<rparr>))"

definition onvif_module_is_enabled :: "onvif_state \<Rightarrow> bool" where
  "onvif_module_is_enabled s \<longleftrightarrow> on_initialized s \<and> ov_enabled (on_config s)"

definition onvif_module_is_running :: "onvif_state \<Rightarrow> bool" where
  "onvif_module_is_running s \<longleftrightarrow> on_running s"

text \<open>The routes, all to the wrapper of \<open>onvif_module_handle_request\<close>, whose number is 19.\<close>

definition onvif_route :: "http_method \<Rightarrow> string \<Rightarrow> string \<Rightarrow> http_route" where
  "onvif_route m p d = \<lparr>path = p, route_method = m, handler = 19, route_module = ''onvif'', description = Some d\<rparr>"

definition onvif_routes :: "http_route list" where
  "onvif_routes =
     [onvif_route HTTP_METHOD_GET ''/onvif/device_service'' ''ONVIF Device service'',
      onvif_route HTTP_METHOD_POST ''/onvif/device_service'' ''ONVIF Device service'',
      onvif_route HTTP_METHOD_GET ''/onvif/media_service'' ''ONVIF Media service'',
      onvif_route HTTP_METHOD_POST ''/onvif/media_service'' ''ONVIF Media service'',
      onvif_route HTTP_METHOD_GET ''/onvif/event_service'' ''ONVIF Event service'',
      onvif_route HTTP_METHOD_POST ''/onvif/event_service'' ''ONVIF Event service'',
      onvif_route HTTP_METHOD_GET ''/onvif/imaging_service'' ''ONVIF Imaging service'',
      onvif_route HTTP_METHOD_POST ''/onvif/imaging_service'' ''ONVIF Imaging service'',
      onvif_route HTTP_METHOD_GET ''/onvif/ptz_service'' ''ONVIF PTZ service'',
      onvif_route HTTP_METHOD_POST ''/onvif/ptz_service'' ''ONVIF PTZ service'',
      onvif_route HTTP_METHOD_GET ''/onvif/snapshot'' ''ONVIF snapshot'']"

definition onvif_register_routes :: "http_router \<Rightarrow> c_int \<times> http_router" where
  "onvif_register_routes rt =
     (case http_router_register_routes rt (Some onvif_routes) of (ret, rt1) \<Rightarrow> if ret < 0 then (ret, rt1) else (0, rt1))"


section \<open>Answers are rare\<close>

text \<open>The answers of a run with their times, and the probes that were not duplicates, with their ids and times.\<close>

definition accepts :: "datagram \<Rightarrow> discovery_state \<Rightarrow> (string \<times> int) option" where
  "accepts d s =
     (case probe_id d of
        None \<Rightarrow> None
      | Some m \<Rightarrow> if fst (is_duplicate_message (Some m) (dg_time1 d) (recent_messages s)) then None
                  else Some (m, dg_time1 d))"

definition passes :: "datagram \<Rightarrow> discovery_state \<Rightarrow> (u32 \<times> int) option" where
  "passes d s =
     (if accepts d s = None \<or> fst (is_client_in_cooldown (dg_ip d) (dg_time2 d) (client_cooldown_cache s)) then None
      else Some (dg_ip d, dg_time2 d))"

definition answers :: "server_address \<Rightarrow> datagram \<Rightarrow> discovery_state \<Rightarrow> (u32 \<times> int) option" where
  "answers g d s = (if ds_sent (discovery_receive g d s) = ds_sent s then None else Some (dg_ip d, dg_time2 d))"

primrec discovery_log ::
  "(datagram \<Rightarrow> discovery_state \<Rightarrow> 'e option) \<Rightarrow> server_address \<Rightarrow> discovery_state \<Rightarrow> datagram list \<Rightarrow> 'e list" where
  "discovery_log f g s [] = []"
| "discovery_log f g s (d # ds) =
     (case f d s of None \<Rightarrow> [] | Some e \<Rightarrow> [e]) @ discovery_log f g (discovery_receive g d s) ds"

lemma receive_messages:
  "recent_messages (discovery_receive g d s) =
     (case probe_id d of None \<Rightarrow> recent_messages s
      | Some m \<Rightarrow> snd (is_duplicate_message (Some m) (dg_time1 d) (recent_messages s)))"
  by (auto simp: discovery_receive_def Let_def split: option.split prod.split bool.split)

lemma receive_clients:
  "client_cooldown_cache (discovery_receive g d s) =
     (if accepts d s = None then client_cooldown_cache s
      else snd (is_client_in_cooldown (dg_ip d) (dg_time2 d) (client_cooldown_cache s)))"
  by (auto simp: discovery_receive_def accepts_def Let_def split: option.split prod.split bool.split)


subsection \<open>Message ids\<close>

text \<open>The cache holds the last 20 entries of \<open>R\<close>, the latest of which comes first.\<close>

definition remembers :: "(string \<times> int) list \<Rightarrow> message_cache \<Rightarrow> bool" where
  "remembers R c \<longleftrightarrow>
     length (message_ids c) = 20 \<and> message_index c < 20 \<and>
     (\<forall>i < min 20 (length R). message_ids c ! ((message_index c + 19 - i) mod 20) =
        (fit MAX_MESSAGE_ID_LEN (fst (R ! i)), snd (R ! i)))"

lemma ring_back:
  fixes k n :: nat
  assumes "k < 20" and "n < 19"
  shows "((k + 1) mod 20 + 19) mod 20 = k" "((k + 1) mod 20 + 19 - Suc n) mod 20 = (k + 19 - n) mod 20"
    "(k + 19 - n) mod 20 \<noteq> k"
proof -
  show "((k + 1) mod 20 + 19) mod 20 = k" using assms by (cases "k = 19") auto
  have *: "(k + 19 - n) mod 20 = (if n < k then k - 1 - n else k + 19 - n)"
  proof (cases "n < k")
    case True
    then obtain m where "k = Suc (n + m)" by (auto dest: less_imp_Suc_add)
    then have "k + 19 - n = m + 20" "k - 1 - n = m" by simp_all
    with True assms \<open>k = Suc (n + m)\<close> show ?thesis by (simp only: mod_add_self2) simp
  qed (use assms in simp)
  show "(k + 19 - n) mod 20 \<noteq> k" unfolding * using assms by auto
  show "((k + 1) mod 20 + 19 - Suc n) mod 20 = (k + 19 - n) mod 20"
  proof (cases "k = 19")
    case True
    then show ?thesis using * assms by simp
  next
    case False
    then have "(k + 1) mod 20 + 19 - Suc n = k + 19 - n" using assms(1) by simp
    then show ?thesis by (simp only:)
  qed
qed

lemma accepts_Some:
  "accepts d s = Some x \<longleftrightarrow> probe_id d = Some (fst x) \<and> dg_time1 d = snd x \<and>
     \<not> fst (is_duplicate_message (Some (fst x)) (snd x) (recent_messages s))"
  by (cases x) (auto simp: accepts_def split: option.split)

lemma remembers_accept:
  assumes "remembers R c" and "is_duplicate_message (Some m) now c = (False, c1)"
  shows "remembers ((m, now) # R) c1"
proof -
  let ?k = "message_index c"
  from assms have c1: "message_ids c1 = (message_ids c)[?k := (fit MAX_MESSAGE_ID_LEN m, now)]"
      "message_index c1 = (?k + 1) mod 20" and k: "?k < 20" "length (message_ids c) = 20"
    by (auto simp: is_duplicate_message_def remembers_def MAX_RECENT_MESSAGES_def split: if_splits)
  have "message_ids c1 ! ((message_index c1 + 19 - i) mod 20) =
      (fit MAX_MESSAGE_ID_LEN (fst (((m, now) # R) ! i)), snd (((m, now) # R) ! i))"
    if i: "i < min 20 (Suc (length R))" for i
  proof (cases i)
    case 0
    have "((?k + 1) mod 20 + 19) mod 20 = ?k" using k(1) ring_back(1) [of ?k 0] by simp
    with 0 k show ?thesis by (simp add: c1)
  next
    case (Suc n)
    with i have n: "n < 19" "n < length R" by auto
    have "((?k + 1) mod 20 + 19 - Suc n) mod 20 = (?k + 19 - n) mod 20" "(?k + 19 - n) mod 20 \<noteq> ?k"
      using ring_back [OF k(1) n(1)] by blast+
    with Suc n k assms(1) show ?thesis by (auto simp: c1 remembers_def)
  qed
  then show ?thesis using k c1 by (simp add: remembers_def)
qed

lemma remembers_duplicate:
  "is_duplicate_message (Some m) now c = (True, c1) \<Longrightarrow> c1 = c"
  by (simp add: is_duplicate_message_def split: if_splits)

lemma not_accepted: "accepts d s = None \<Longrightarrow> recent_messages (discovery_receive g d s) = recent_messages s"
  by (cases "probe_id d"; cases "is_duplicate_message (probe_id d) (dg_time1 d) (recent_messages s)")
    (auto simp: receive_messages accepts_def remembers_duplicate split: if_splits)

lemma not_duplicate:
  assumes "remembers R c" and "\<not> fst (is_duplicate_message (Some m) now c)"
    and "i < length R" and "i < 20" and "fst (R ! i) = m" and "length m < 128"
  shows "snd (R ! i) + 5 \<le> now"
proof -
  let ?n = "(message_index c + 19 - i) mod 20"
  have "message_ids c ! ?n = (m, snd (R ! i))"
    using assms by (auto simp: remembers_def fit_id MAX_MESSAGE_ID_LEN_def)
  moreover have "?n < length (message_ids c)" using assms(1) by (simp add: remembers_def)
  ultimately have "(m, snd (R ! i)) \<in> set (message_ids c)" by (metis nth_mem)
  with assms(2) show ?thesis by (auto simp: is_duplicate_message_def list_ex_iff split: if_splits)
qed

lemma accepted_spacing:
  assumes "remembers R (recent_messages s)" and "full = rev R @ discovery_log accepts g s ds"
    and "i < j" and "length R \<le> j" and "j < length full" and "j \<le> i + 20"
    and "fst (full ! i) = fst (full ! j)" and "length (fst (full ! j)) < 128"
  shows "snd (full ! i) + 5 \<le> snd (full ! j)"
  using assms
proof (induction ds arbitrary: R s)
  case (Cons d ds)
  show ?case
  proof (cases "accepts d s")
    case None
    then have "recent_messages (discovery_receive g d s) = recent_messages s" by (rule not_accepted)
    with Cons.IH [of R "discovery_receive g d s"] Cons.prems None show ?thesis by simp
  next
    case (Some x)
    obtain m now where x: "x = (m, now)" by (metis prod.exhaust)
    then have d: "probe_id d = Some m" "dg_time1 d = now"
      "\<not> fst (is_duplicate_message (Some m) now (recent_messages s))" using Some by (simp_all add: accepts_Some)
    then obtain c1 where c1: "is_duplicate_message (Some m) now (recent_messages s) = (False, c1)"
      by (cases "is_duplicate_message (Some m) now (recent_messages s)") auto
    have rem: "remembers (x # R) (recent_messages (discovery_receive g d s))"
      using remembers_accept [OF Cons.prems(1) c1] c1 d(1,2) x by (simp add: receive_messages)
    have full: "full = rev (x # R) @ discovery_log accepts g (discovery_receive g d s) ds"
      using Cons.prems(2) Some by simp
    show ?thesis
    proof (cases "j = length R")
      case True
      let ?k = "length R - 1 - i"
      have "full ! i = R ! ?k" "full ! j = x" using True Cons.prems(3) full by (simp_all add: nth_append rev_nth)
      moreover have "snd (R ! ?k) + 5 \<le> now"
        using Cons.prems calculation True x
        by (intro not_duplicate [OF Cons.prems(1), of m now]) (use d(3) in auto)
      ultimately show ?thesis using x by simp
    next
      case False
      with Cons.IH [OF rem full] Cons.prems show ?thesis by simp
    qed
  qed
qed simp


subsection \<open>Clients\<close>

text \<open>The cache has been filled with addresses of \<open>S\<close> from its first slot on, each of them once.\<close>

definition clients_ok :: "u32 set \<Rightarrow> client_cache \<Rightarrow> bool" where
  "clients_ok S c \<longleftrightarrow>
     length (client_ips c) = 20 \<and>
     (\<exists>n \<le> 20. client_index c = n mod 20 \<and> distinct (map fst (take n (client_ips c))) \<and>
        set (map fst (take n (client_ips c))) \<subseteq> S \<and> set (map fst (drop n (client_ips c))) \<subseteq> {0})"

lemma find_client_None: "find_client ip es = None \<longleftrightarrow> ip \<notin> fst ` set es"
  by (induction ip es rule: find_client.induct) auto

lemma find_client_Some:
  "find_client ip es = Some i \<Longrightarrow>
     i < length es \<and> fst (es ! i) = ip \<and> map_of es ip = Some (snd (es ! i)) \<and> ip \<notin> fst ` set (take i es)"
proof (induction ip es arbitrary: i rule: find_client.induct)
  case (2 ip a t es)
  show ?case
  proof (cases "a = ip")
    case False
    with 2(2) obtain j where j: "find_client ip es = Some j" "i = Suc j" by auto
    from 2(1) [OF False j(1)] False j(2) show ?thesis by auto
  qed (use 2(2) in auto)
qed simp

lemma map_fst_same: "i < length es \<Longrightarrow> fst (es ! i) = fst e \<Longrightarrow> map fst (es[i := e]) = map fst es"
  by (metis length_map list_update_id map_update nth_map)

lemma map_of_update:
  assumes "i < length es" and "fst e \<notin> fst ` set (take i es)"
  shows "map_of (es[i := e]) (fst e) = Some (snd e)"
    and "ip \<noteq> fst e \<Longrightarrow> ip \<noteq> fst (es ! i) \<Longrightarrow> map_of (es[i := e]) ip = map_of es ip"
proof -
  have split: "es = take i es @ es ! i # drop (Suc i) es" using assms(1) by (rule id_take_nth_drop)
  have "map_of (es[i := e]) = map_of (take i es @ e # drop (Suc i) es)"
    using assms(1) by (simp add: upd_conv_take_nth_drop)
  moreover have "map_of (take i es) (fst e) = None" using assms(2) by (simp add: map_of_eq_None_iff)
  ultimately show "map_of (es[i := e]) (fst e) = Some (snd e)"
    by (simp add: map_add_def)
  show "map_of (es[i := e]) ip = map_of es ip" if "ip \<noteq> fst e" "ip \<noteq> fst (es ! i)"
    using that assms(1) by (subst (2) split) (simp add: upd_conv_take_nth_drop map_add_def split: option.split)
qed

lemma cooldown_step:
  assumes "clients_ok S c" and "finite S" and "card S \<le> 20" and "0 \<notin> S" and "ip \<in> S"
    and "is_client_in_cooldown ip now c = (b, c1)"
  shows "clients_ok S c1"
    and "b \<longleftrightarrow> (\<exists>t. map_of (client_ips c) ip = Some t \<and> now < t + 1)"
    and "\<not> b \<Longrightarrow> map_of (client_ips c1) ip = Some now"
    and "b \<Longrightarrow> c1 = c"
    and "a \<in> S \<Longrightarrow> a \<noteq> ip \<Longrightarrow> map_of (client_ips c1) a = map_of (client_ips c) a"
proof -
  let ?es = "client_ips c"
  obtain n where n: "n \<le> 20" "client_index c = n mod 20" "distinct (map fst (take n ?es))"
      "set (map fst (take n ?es)) \<subseteq> S" "set (map fst (drop n ?es)) \<subseteq> {0}" and len: "length ?es = 20"
    using assms(1) by (auto simp: clients_ok_def)
  consider (found) i where "find_client ip ?es = Some i" | (new) "find_client ip ?es = None" by fastforce
  then have "clients_ok S c1 \<and> (b \<longleftrightarrow> (\<exists>t. map_of ?es ip = Some t \<and> now < t + 1)) \<and>
      (\<not> b \<longrightarrow> map_of (client_ips c1) ip = Some now) \<and> (b \<longrightarrow> c1 = c) \<and>
      (a \<in> S \<longrightarrow> a \<noteq> ip \<longrightarrow> map_of (client_ips c1) a = map_of ?es a)"
  proof cases
    case found
    note i = find_client_Some [OF found]
    show ?thesis
    proof (cases b)
      case True
      with assms(6) found i assms(1) show ?thesis
        by (auto simp: is_client_in_cooldown_def RESPONSE_COOLDOWN_SECONDS_def split: if_splits)
    next
      case False
      then have c1: "c1 = c\<lparr>client_ips := ?es[i := (ip, now)]\<rparr>" "\<not> now < snd (?es ! i) + 1"
        using assms(6) found by (auto simp: is_client_in_cooldown_def RESPONSE_COOLDOWN_SECONDS_def split: if_splits)
      have same: "map fst (?es[i := (ip, now)]) = map fst ?es" using i by (intro map_fst_same) simp_all
      have "clients_ok S c1" using n len same
        by (auto simp: clients_ok_def c1(1) take_map [symmetric] drop_map [symmetric] simp del: map_update)
      with False c1 i map_of_update [of i ?es "(ip, now)"] show ?thesis by simp
    qed
  next
    case new
    have "n < 20"
    proof (rule ccontr)
      assume "\<not> n < 20"
      then have "card (set (map fst ?es)) = 20" "set (map fst ?es) \<subseteq> S"
        using n len distinct_card [of "map fst ?es"] by simp_all
      moreover have "card (set (map fst ?es)) \<le> card S" using assms(2) calculation(2) by (rule card_mono)
      ultimately have "set (map fst ?es) = S" using assms(2,3) by (intro card_subset_eq) simp_all
      with new assms(5) show False by (auto simp: find_client_None)
    qed
    then have c1: "\<not> b" "c1 = c\<lparr>client_ips := ?es[n := (ip, now)], client_index := (n + 1) mod 20\<rparr>"
      using assms(6) new n(2) by (simp_all add: is_client_in_cooldown_def MAX_RECENT_CLIENTS_def)
    have out: "ip \<notin> fst ` set (take n ?es)" using new by (auto simp: find_client_None dest: in_set_takeD)
    have zero: "fst (?es ! n) = 0" using n(5) \<open>n < 20\<close> len by (simp add: Cons_nth_drop_Suc [symmetric] del: map_append)
    have "take (Suc n) (?es[n := (ip, now)]) = take n ?es @ [(ip, now)]"
      using \<open>n < 20\<close> len by (simp add: take_Suc_conv_app_nth)
    moreover have "set (map fst (drop (Suc n) (?es[n := (ip, now)]))) \<subseteq> {0}"
      using n(5) \<open>n < 20\<close> len by (simp add: Cons_nth_drop_Suc [symmetric])
    ultimately have "clients_ok S c1" using n \<open>n < 20\<close> len out assms(5) unfolding clients_ok_def c1(2)
      by (intro conjI exI [of _ "Suc n"]) simp_all
    moreover have "map_of ?es ip = None" using new by (simp add: find_client_None map_of_eq_None_iff)
    ultimately show ?thesis
      using c1 map_of_update [of n ?es "(ip, now)"] out zero \<open>n < 20\<close> len assms(4) by auto
  qed
  then show "clients_ok S c1" "b \<longleftrightarrow> (\<exists>t. map_of ?es ip = Some t \<and> now < t + 1)"
    "\<not> b \<Longrightarrow> map_of (client_ips c1) ip = Some now" "b \<Longrightarrow> c1 = c"
    "a \<in> S \<Longrightarrow> a \<noteq> ip \<Longrightarrow> map_of (client_ips c1) a = map_of ?es a"
    by blast+
qed


lemma passes_Some:
  assumes "passes d s = Some x"
  shows "x = (dg_ip d, dg_time2 d)" and "accepts d s \<noteq> None"
    and "\<not> fst (is_client_in_cooldown (dg_ip d) (dg_time2 d) (client_cooldown_cache s))"
  using assms by (auto simp: passes_def split: if_splits)

lemma answers_passes: "answers g d s = (if (\<exists>ip port. g = Some (ip, port) \<and> port \<noteq> 0) then passes d s else None)"
proof (cases "probe_id d")
  case (Some m)
  obtain b c where dup: "is_duplicate_message (Some m) (dg_time1 d) (recent_messages s) = (b, c)" by (metis prod.exhaust)
  obtain b' k where cool: "is_client_in_cooldown (dg_ip d) (dg_time2 d) (client_cooldown_cache s) = (b', k)"
    by (metis prod.exhaust)
  show ?thesis
    by (cases b; cases b'; cases g) (auto simp: Some dup cool answers_def passes_def accepts_def discovery_receive_def Let_def
        split: if_splits)
qed (simp add: answers_def passes_def accepts_def discovery_receive_def)

definition spaced :: "u32 \<times> int \<Rightarrow> u32 \<times> int \<Rightarrow> bool" where
  "spaced p q \<longleftrightarrow> (fst p = fst q \<longrightarrow> snd p + 1 \<le> snd q)"

lemma passes_spaced:
  assumes "clients_ok S (client_cooldown_cache s)" and "finite S" and "card S \<le> 20" and "0 \<notin> S"
    and "dg_ip ` set ds \<subseteq> S"
  shows "sorted_wrt spaced (discovery_log passes g s ds) \<and>
    list_all (\<lambda>q. \<forall>t. map_of (client_ips (client_cooldown_cache s)) (fst q) = Some t \<longrightarrow> t + 1 \<le> snd q)
      (discovery_log passes g s ds) \<and> fst ` set (discovery_log passes g s ds) \<subseteq> S"
  using assms(1,5)
proof (induction ds arbitrary: s)
  case (Cons d ds)
  let ?s1 = "discovery_receive g d s"
  obtain b c1 where c1: "is_client_in_cooldown (dg_ip d) (dg_time2 d) (client_cooldown_cache s) = (b, c1)"
    by (metis prod.exhaust)
  have ip: "dg_ip d \<in> S" using Cons.prems(2) by simp
  note step = cooldown_step [OF Cons.prems(1) assms(2,3,4) ip c1]
  show ?case
  proof (cases "passes d s")
    case None
    then have "client_cooldown_cache ?s1 = client_cooldown_cache s"
      using c1 step(4) by (cases "accepts d s") (auto simp: receive_clients passes_def split: if_splits)
    with Cons.IH [of ?s1] Cons.prems None show ?thesis by simp
  next
    case (Some x)
    note x = passes_Some [OF this]
    have s1: "client_cooldown_cache ?s1 = c1" "\<not> b" using x c1 by (auto simp: receive_clients)
    have IH: "sorted_wrt spaced (discovery_log passes g ?s1 ds) \<and>
      list_all (\<lambda>q. \<forall>t. map_of (client_ips c1) (fst q) = Some t \<longrightarrow> t + 1 \<le> snd q) (discovery_log passes g ?s1 ds) \<and>
      fst ` set (discovery_log passes g ?s1 ds) \<subseteq> S"
      using Cons.IH [of ?s1] Cons.prems(2) step(1) s1(1) by simp
    have later: "spaced x q \<and> (\<forall>t. map_of (client_ips (client_cooldown_cache s)) (fst q) = Some t \<longrightarrow> t + 1 \<le> snd q)"
      if "q \<in> set (discovery_log passes g ?s1 ds)" for q
    proof (cases "fst q = dg_ip d")
      case True
      then have "dg_time2 d + 1 \<le> snd q" using IH that step(3) s1(2) by (auto simp: list_all_iff)
      with True x(1) step(2) s1(2) show ?thesis by (auto simp: spaced_def)
    next
      case False
      then have "map_of (client_ips c1) (fst q) = map_of (client_ips (client_cooldown_cache s)) (fst q)"
        using IH that by (intro step(5)) auto
      with False IH that x(1) show ?thesis by (auto simp: spaced_def list_all_iff)
    qed
    show ?thesis using Some IH later x(1) ip step(2) s1(2) by (auto simp: list_all_iff not_less)
  qed
qed simp

lemma zero_clients_ok: "clients_ok S (client_cooldown_cache zero_discovery)"
  by (auto simp: clients_ok_def zero_discovery_def MAX_RECENT_CLIENTS_def intro!: exI [of _ 0])

lemma zero_remembers: "remembers [] (recent_messages zero_discovery)"
  by (simp add: remembers_def zero_discovery_def MAX_RECENT_MESSAGES_def)

lemma start_caches:
  assumes "onvif_start_discovery_service ok env s = (r, s1)"
  shows "recent_messages s1 = recent_messages s" "client_cooldown_cache s1 = client_cooldown_cache s"
  using assms by (auto simp: onvif_start_discovery_service_def discovery_thread_open_def Let_def split: if_splits)

text \<open>
  C30. Of the datagrams that arrive from at most twenty addresses, 0.0.0.0 not among them, after the service was
  started, whatever they contain and in whatever order they come, no two from one address are answered less than a
  second apart.
\<close>

theorem discovery_client_cooldown:
  assumes "onvif_start_discovery_service ok env zero_discovery = (r, s)"
    and "card (dg_ip ` set ds) \<le> 20" and "0 \<notin> dg_ip ` set ds"
    and "i < j" and "j < length (discovery_log (answers g) g s ds)"
    and "discovery_log (answers g) g s ds ! i = (ip, t)" and "discovery_log (answers g) g s ds ! j = (ip, u)"
  shows "t + 1 \<le> u"
proof -
  let ?log = "discovery_log (answers g) g s ds"
  have none: "discovery_log (\<lambda>d s. None) g s ds = []" for s by (induction ds arbitrary: s) auto
  have "answers g = passes \<or> answers g = (\<lambda>d s. None)"
    by (cases "\<exists>ip port. g = Some (ip, port) \<and> port \<noteq> 0") (auto simp: fun_eq_iff answers_passes)
  then have "?log = discovery_log passes g s ds" using assms(5) by (auto simp: none)
  moreover have "clients_ok (dg_ip ` set ds) (client_cooldown_cache s)"
    using start_caches [OF assms(1)] zero_clients_ok by simp
  note passes_spaced [OF this _ assms(2,3) order_refl, of g]
  ultimately have "sorted_wrt spaced ?log" by simp
  from sorted_wrt_nth_less [OF this assms(4,5)] assms(6,7) show ?thesis by (simp add: spaced_def)
qed

text \<open>
  C33. After a start of the service a message id of fewer than 128 characters that was accepted is not accepted
  again within five seconds, as long as at most twenty probes have been accepted since.
\<close>

theorem discovery_message_once:
  assumes "onvif_start_discovery_service ok env zero_discovery = (r, s)"
    and "i < j" and "j \<le> i + 20" and "j < length (discovery_log accepts g s ds)"
    and "discovery_log accepts g s ds ! i = (m, t)" and "discovery_log accepts g s ds ! j = (m, u)"
    and "length m < 128"
  shows "t + 5 \<le> u"
proof -
  have "remembers [] (recent_messages s)" using start_caches [OF assms(1)] zero_remembers by simp
  from accepted_spacing [OF this _ assms(2) _ _ assms(3), of "discovery_log accepts g s ds" g ds] assms(4-7)
  show ?thesis by simp
qed


section \<open>The answer\<close>

lemma length_hexadecimal: "n < 16 ^ k \<Longrightarrow> 0 < k \<Longrightarrow> length (hexadecimal n) \<le> k"
proof (induction n arbitrary: k rule: hexadecimal.induct)
  case (1 n)
  show ?case
  proof (cases "n < 16")
    case False
    then obtain m where m: "k = Suc m" "0 < m" using 1(2,3) by (cases k; cases "k - 1") auto
    then have "n div 16 < 16 ^ m" using 1(2) by (simp add: less_mult_imp_div_less mult.commute)
    from 1(1) [OF False this m(2)] m False show ?thesis by (simp add: hexadecimal.simps [of n])
  qed (use 1 in \<open>simp add: hexadecimal.simps [of n]\<close>)
qed

definition uuid_char :: "char \<Rightarrow> bool" where
  "uuid_char c \<longleftrightarrow> c \<in> set ''0123456789abcdef-''"

lemma uuid_char_less: "\<not> uuid_char CHR ''<''" "\<not> uuid_char CHR ''%''"
  by (simp_all add: uuid_char_def)

lemma hex_digit_char: "n < 16 \<Longrightarrow> uuid_char (hex_digit n)"
proof -
  have "list_all (\<lambda>n. uuid_char (hex_digit n)) [0..<16]" by code_simp
  then show "n < 16 \<Longrightarrow> uuid_char (hex_digit n)" by (simp add: list_all_iff del: upt_rec_numeral)
qed

lemma hexadecimal_chars: "list_all uuid_char (hexadecimal n)"
proof (induction n rule: hexadecimal.induct)
  case (1 n)
  then show ?case by (cases "n < 16") (simp_all add: hexadecimal.simps [of n] hex_digit_char)
qed

lemma sixteen_bits: "length (hexadecimal (unat ((w :: u32) AND 0xffff))) \<le> 4"
proof -
  have "w AND 0xffff \<le> 0xffff" by (rule word_and_le1)
  then have "unat (w AND 0xffff) \<le> unat (0xffff :: u32)" by (simp only: word_le_nat_alt)
  then show ?thesis by (intro length_hexadecimal) simp_all
qed


lemma sixteen_bits_or:
  assumes "a AND 0xffff = a" and "b AND 0xffff = b"
  shows "length (hexadecimal (unat ((w :: u32) AND a OR b))) \<le> 4"
proof -
  have "w AND a OR b = (w AND a OR b) AND 0xffff"
    using assms by (simp add: bit.conj_disj_distrib2 and.assoc)
  then show ?thesis by (metis sixteen_bits)
qed

lemma uuid_text:
  "length (generate_uuid n r) \<le> 36" "list_all uuid_char (generate_uuid n r)"
proof -
  define x where "x = (\<lambda>w :: u32. hexadecimal (unat w))"
  define u where "u = x (r 0 AND 0xffff) @ x (r 1 AND 0xffff) @ ''-'' @ x (r 2 AND 0xffff) @ ''-'' @
    x (r 3 AND 0xffff) @ ''-'' @ x (r 4 AND 0x0fff OR 0x4000) @ ''-'' @ x (r 5 AND 0x3fff OR 0x8000) @
    x (r 6 AND 0xffff) @ x (r 7 AND 0xffff)"
  have g: "generate_uuid n r = take (n - 1) u"
    by (simp add: generate_uuid_def u_def x_def fit_def Let_def)
  have "length (x (r i AND 0xffff)) \<le> 4" for i unfolding x_def by (rule sixteen_bits)
  moreover have "length (x (r 4 AND 0x0fff OR 0x4000)) \<le> 4" "length (x (r 5 AND 0x3fff OR 0x8000)) \<le> 4"
    unfolding x_def by (intro sixteen_bits_or; simp)+
  ultimately have "length u \<le> 4 + (4 + (1 + (4 + (1 + (4 + (1 + (4 + (1 + (4 + (4 + 4))))))))))"
    unfolding u_def length_append by (intro add_mono) simp_all
  then show "length (generate_uuid n r) \<le> 36" by (simp add: g)
  have "list_all uuid_char (x w)" for w by (simp add: x_def hexadecimal_chars)
  moreover have "uuid_char CHR ''-''" by (simp add: uuid_char_def)
  ultimately have "list_all uuid_char u" by (simp add: u_def)
  then show "list_all uuid_char (generate_uuid n r)" by (auto simp: g list_all_iff dest: in_set_takeD)
qed

subsection \<open>Reading it\<close>

text \<open>What stands between a tag and the next closing tag.\<close>

definition element_text :: "string \<Rightarrow> string \<Rightarrow> string option" where
  "element_text tag s =
     (case strstr s tag of
        None \<Rightarrow> None
      | Some i \<Rightarrow> (let rest = drop (i + length tag) s
                   in map_option (\<lambda>n. take n rest) (strstr rest ''</'')))"

lemma message_id_form:
  assumes "extract_message_id ok req = Some m"
  shows "\<exists>s. starts_with ''</'' (drop (length m) s) \<and> take (length m) s = m \<and> strstr s ''</'' = Some (length m) \<and> length m \<le> length s
    \<and> length s \<le> length req \<and> m \<noteq> []"
proof -
  from assms obtain i j where "message_id_tag req = Some i" "strchr (drop i req) CHR ''>'' = Some j"
    by (auto simp: extract_message_id_def split: option.splits)
  let ?s = "drop (i + j + 1) req"
  from assms obtain n where n: "strstr ?s ''</'' = Some n" "m = take n ?s" "n \<noteq> 0"
    using \<open>message_id_tag req = Some i\<close> \<open>strchr (drop i req) CHR ''>'' = Some j\<close>
    by (auto simp: extract_message_id_def Let_def split: option.splits if_splits)
  from strstr_bound [OF n(1)] have b: "n \<le> length ?s" "starts_with ''</'' (drop n ?s)" by simp_all
  with n show ?thesis by (intro exI [of _ ?s]) (auto simp: starts_with_def)
qed

text \<open>Before the first closing tag the text behind it does not matter.\<close>

lemma closing_tag:
  assumes "strstr s ''</'' = Some n" and "n \<le> length s"
  shows "strstr (take n s @ ''</'' @ r) ''</'' = Some n"
proof -
  let ?t = "take n s @ ''</'' @ r"
  have "starts_with ''</'' (drop n ?t)" using assms(2) by (simp add: starts_with_def)
  then obtain m where m: "m \<le> n" "strstr ?t ''</'' = Some m" using strstr_found by blast
  moreover have "\<not> m < n"
  proof
    assume less: "m < n"
    have "take 2 (drop m ?t) = take 2 (drop m s)"
    proof -
      have "starts_with ''</'' (drop n s)" using assms(1) strstr_bound by blast
      then have "take (n + 2) s = take n s @ ''</''" 
        using take_add [of n 2 s] by (simp only: starts_with_def length_Cons list.size numeral_2_eq_2)
      then have "take (n + 2) ?t = take (n + 2) s" using assms(2) by simp
      then have "take (m + 2) (take (n + 2) ?t) = take (m + 2) (take (n + 2) s)" by (simp only:)
      with less have "take (m + 2) ?t = take (m + 2) s" by (simp only: take_take) simp
      then show ?thesis by (simp only: take_drop add.commute [of 2])
    qed
    moreover have "starts_with ''</'' (drop m ?t)" using m(2) strstr_bound by blast
    ultimately have "starts_with ''</'' (drop m s)" by (simp add: starts_with_def numeral_2_eq_2)
    with strstr_first [OF assms(1) less] show False ..
  qed
  ultimately show ?thesis by simp
qed


text \<open>A pattern that cannot begin in \<open>u\<close>, whatever follows.\<close>

fun mismatch :: "string \<Rightarrow> string \<Rightarrow> bool" where
  "mismatch (a # p) (c # u) = (a \<noteq> c \<or> mismatch p u)"
| "mismatch p u = False"

primrec skips :: "string \<Rightarrow> string \<Rightarrow> bool" where
  "skips p [] = True"
| "skips p (c # u) = (mismatch p (c # u) \<and> skips p u)"

lemma mismatch_starts: "mismatch p u \<Longrightarrow> \<not> starts_with p (u @ s)"
  by (induction p u rule: mismatch.induct) (auto simp: starts_with_Cons)

lemma strstr_skips: "skips p u \<Longrightarrow> strstr (u @ s) p = map_option ((+) (length u)) (strstr s p)"
proof (induction u)
  case Nil
  then show ?case by (cases "strstr s p") simp_all
next
  case (Cons c u)
  then have "\<not> starts_with p (c # u @ s)" using mismatch_starts [of p "c # u" s] by simp
  with Cons show ?case by (cases "strstr s p") simp_all
qed

lemma strstr_after: "skips p u \<Longrightarrow> strstr (u @ p @ r) p = Some (length u)"
  by (simp add: strstr_skips strstr_at_once)

definition probe_head :: string where
  "probe_head =
     ''<?xml version=\"1.0\" encoding=\"UTF-8\"?>'' @
     ''<SOAP-ENV:Envelope xmlns:SOAP-ENV=\"http://www.w3.org/2003/05/soap-envelope\"'' @
     '' xmlns:wsa=\"http://www.w3.org/2005/08/addressing\"'' @
     '' xmlns:d=\"http://schemas.xmlsoap.org/ws/2005/04/discovery\"'' @
     '' xmlns:dn=\"http://www.onvif.org/ver10/network/wsdl\">'' @
     ''<SOAP-ENV:Header>'' @ ''<wsa:MessageID>uuid:''"

lemma probe_match_parts:
  "\<exists>post. probe_match u m d model ip port = probe_head @ u @ ''</wsa:MessageID>'' @ ''<wsa:RelatesTo>'' @ m @ ''</'' @ post"
  by (simp add: probe_match_def probe_head_def)

lemma length_probe_match:
  "length (probe_match u m d model ip port) \<le>
     1400 + (length u + length m + length d + length model + length ip + length (decimal_int port))"
  by (simp add: probe_match_def)

lemma probe_head_skips: "skips ''<wsa:RelatesTo>'' probe_head"
  by code_simp

lemma relates_to:
  assumes "list_all uuid_char u" and "extract_message_id ok req = Some m"
  shows "element_text ''<wsa:RelatesTo>'' (probe_match u m d model ip port) = Some m"
proof -
  obtain post where p: "probe_match u m d model ip port =
      probe_head @ u @ ''</wsa:MessageID>'' @ ''<wsa:RelatesTo>'' @ m @ ''</'' @ post"
    using probe_match_parts by blast
  let ?k = "length probe_head + (length u + length ''</wsa:MessageID>'')"
  have u: "CHR ''<'' \<notin> set u" using assms(1) by (auto simp: list_all_iff uuid_char_less)
  have "skips ''<wsa:RelatesTo>'' ''</wsa:MessageID>''" by code_simp
  note strstr_after [OF this, of "m @ ''</'' @ post"]
  then have at: "strstr (u @ ''</wsa:MessageID>'' @ ''<wsa:RelatesTo>'' @ m @ ''</'' @ post) ''<wsa:RelatesTo>'' =
      Some (length u + length ''</wsa:MessageID>'')"
    unfolding strstr_over [OF refl u] by (simp only: option.map)
  then have "strstr (probe_match u m d model ip port) ''<wsa:RelatesTo>'' = Some ?k"
    unfolding p strstr_skips [OF probe_head_skips] by (simp only: option.map)
  moreover have "drop (?k + length ''<wsa:RelatesTo>'') (probe_match u m d model ip port) = m @ ''</'' @ post"
    unfolding p by simp
  moreover obtain s where s: "strstr s ''</'' = Some (length m)" "take (length m) s = m" "length m \<le> length s"
    using message_id_form [OF assms(2)] by blast
  moreover have "strstr (m @ ''</'' @ post) ''</'' = Some (length m)"
    using closing_tag [OF s(1,3), of post] s(2) by simp
  ultimately show ?thesis by (simp add: element_text_def Let_def)
qed


lemma value_shorter: "length (discovery_value v) \<le> length v"
  by (simp add: discovery_value_def Let_def)

lemma model_fits: "length (discovery_model f) \<le> 63"
proof -
  have "length (foldl model_line m ls) \<le> 63" if "length m \<le> 63" for m ls
    using that
  proof (induction ls arbitrary: m)
    case (Cons l ls)
    have "length (model_line m l) \<le> 63" using Cons.prems by (simp add: model_line_def split: option.split)
    with Cons.IH show ?case by simp
  qed simp
  then show ?thesis by (simp add: discovery_model_def split: option.split)
qed

text \<open>The locals of the thread, and an answer that a datagram of the run got.\<close>

definition locals_fit :: "discovery_state \<Rightarrow> bool" where
  "locals_fit s \<longleftrightarrow> length (ds_uuid s) \<le> 36 \<and> length (ds_model s) \<le> 63"

definition answer_to :: "datagram \<Rightarrow> u32 \<times> string \<Rightarrow> bool" where
  "answer_to d a \<longleftrightarrow> probe_id d \<noteq> None \<and> fst a = dg_ip d \<and> length (snd a) < 8191 \<and>
     element_text ''<wsa:RelatesTo>'' (snd a) = probe_id d"

lemma probe_id_extracted:
  assumes "probe_id d = Some m"
  shows "\<exists>req. extract_message_id (dg_memory d) req = Some m" and "length m \<le> 4095"
proof -
  let ?b = "c_text (take 4095 (dg_bytes d))"
  from assms have e: "extract_message_id (dg_memory d) ?b = Some m"
    by (auto simp: probe_id_def Let_def split: if_splits)
  then show "\<exists>req. extract_message_id (dg_memory d) req = Some m" by blast
  have "length m \<le> length ?b" using message_id_form [OF e] by auto
  moreover have "length ?b \<le> 4095"
    by (rule order_trans [of _ "length (take 4095 (dg_bytes d))"]) (simp_all add: c_text_def length_takeWhile_le order_trans [OF length_takeWhile_le])
  ultimately show "length m \<le> 4095" by simp
qed

lemma receive_locals [simp]:
  "ds_uuid (discovery_receive g d s) = ds_uuid s" "ds_model (discovery_receive g d s) = ds_model s"
  "ds_thread (discovery_receive g d s) = ds_thread s" "ds_running (discovery_receive g d s) = ds_running s"
  "ds_open (discovery_receive g d s) = ds_open s"
  by (auto simp: discovery_receive_def Let_def split: option.split prod.split bool.split)

lemma receive_sent:
  assumes "locals_fit s" and "\<forall>ip port. g = Some (ip, port) \<longrightarrow> length ip < 64 \<and> int_range port"
  shows "ds_sent (discovery_receive g d s) = ds_sent s \<or>
    (\<exists>a. ds_sent (discovery_receive g d s) = ds_sent s @ [a] \<and> answer_to d a)"
proof (cases "ds_sent (discovery_receive g d s) = ds_sent s")
  case False
  let ?u = "generate_uuid 40 (dg_random d)"
  from False obtain m ip port where g: "g = Some (ip, port)" and m: "probe_id d = Some m"
    and sent: "ds_sent (discovery_receive g d s) =
      ds_sent s @ [(dg_ip d, fit 8192 (probe_match ?u m (ds_uuid s) (ds_model s) ip port))]"
    by (auto simp: discovery_receive_def Let_def split: option.splits prod.splits bool.splits if_splits)
  let ?t = "probe_match ?u m (ds_uuid s) (ds_model s) ip port"
  from assms(2) g have "length ip < 64" "length (decimal_int port) \<le> 11" by (auto intro: length_decimal_int)
  then have len: "length ?t < 8191"
    using length_probe_match [of ?u m "ds_uuid s" "ds_model s" ip port] uuid_text(1) [of 40 "dg_random d"]
      probe_id_extracted(2) [OF m] assms(1) by (simp add: locals_fit_def)
  moreover obtain req where "extract_message_id (dg_memory d) req = Some m" using probe_id_extracted(1) [OF m] by blast
  from relates_to [OF uuid_text(2) this] have "element_text ''<wsa:RelatesTo>'' ?t = Some m" .
  ultimately have "answer_to d (dg_ip d, fit 8192 ?t)" using m by (simp add: answer_to_def fit_id)
  with sent show ?thesis by blast
qed simp

text \<open>
  C36. Every answer sent answers a probe that arrived: it goes to where the probe came from, is complete, and what a
  reader finds in its RelatesTo element is the message id of the probe, whatever characters it has.
\<close>

theorem discovery_answers_probe:
  assumes "onvif_start_discovery_service True env zero_discovery = (r, s)"
    and "\<forall>ip port. g = Some (ip, port) \<longrightarrow> length ip < 64 \<and> int_range port"
    and "a \<in> set (ds_sent (discovery_thread_func g s ds))"
  shows "\<exists>d \<in> set ds. probe_id d \<noteq> None \<and> fst a = dg_ip d \<and> length (snd a) < 8191 \<and>
    element_text ''<wsa:RelatesTo>'' (snd a) = probe_id d"
proof -
  have start: "locals_fit s" "ds_sent s = []" if "ds_thread s"
    using assms(1) that uuid_text(1) model_fits
    by (auto simp: onvif_start_discovery_service_def zero_discovery_def discovery_thread_open_def locals_fit_def Let_def
        split: if_splits)
  have run: "\<exists>d \<in> set ds. answer_to d a"
    if "locals_fit s" "a \<in> set (ds_sent (foldl (\<lambda>s d. discovery_receive g d s) s ds))" "a \<notin> set (ds_sent s)" for s
    using that
  proof (induction ds arbitrary: s)
    case (Cons d ds)
    have fit1: "locals_fit (discovery_receive g d s)" using Cons.prems(1) by (simp add: locals_fit_def)
    show ?case
    proof (cases "a \<in> set (ds_sent (discovery_receive g d s))")
      case True
      with receive_sent [OF Cons.prems(1) assms(2), of d] Cons.prems(3) show ?thesis by auto
    next
      case False
      from Cons.IH [OF fit1 _ False] Cons.prems(2) show ?thesis by auto
    qed
  qed simp
  have "ds_sent s = []" using assms(1)
    by (auto simp: onvif_start_discovery_service_def zero_discovery_def discovery_thread_open_def Let_def split: if_splits)
  with assms(3) start run [of s] show ?thesis
    by (cases "ds_thread s") (auto simp: discovery_thread_func_def answer_to_def)
qed

section \<open>Starting and stopping\<close>

datatype onvif_call =
  OnvifInit "onvif_config option" | OnvifStart bool discovery_env | OnvifStop | OnvifCleanup

fun onvif_step :: "onvif_state \<Rightarrow> onvif_call \<Rightarrow> onvif_state" where
  "onvif_step s (OnvifInit c) = snd (onvif_module_init c s)"
| "onvif_step s (OnvifStart ok env) = snd (onvif_module_start ok env s)"
| "onvif_step s OnvifStop = snd (onvif_module_stop s)"
| "onvif_step s OnvifCleanup = snd (onvif_module_cleanup s)"

lemma module_keeps_discovery:
  "on_discovery (snd (onvif_module_init c s)) = on_discovery s" "on_discovery (snd (onvif_module_stop s)) = on_discovery s"
  "on_discovery (snd (onvif_module_cleanup s)) = on_discovery s"
  by (simp_all add: onvif_module_init_def onvif_module_stop_def onvif_module_cleanup_def setup_onvif_services_def Let_def)

lemma start_running:
  "ds_running (on_discovery s) \<Longrightarrow> on_discovery (snd (onvif_module_start ok env s)) = on_discovery s"
  by (simp add: onvif_module_start_def setup_onvif_discovery_def onvif_start_discovery_service_def)

text \<open>
  Once it runs the discovery outlives every stop and clean-up of the module: the module does not call
  \<open>onvif_stop_discovery_service\<close>.
\<close>

lemma onvif_discovery_never_stops:
  fixes s :: onvif_state
  assumes "ds_running (on_discovery s)"
  shows "on_discovery (foldl onvif_step s cs) = on_discovery s"
  using assms
proof (induction cs arbitrary: s)
  case (Cons c cs)
  have "on_discovery (onvif_step s c) = on_discovery s"
    using Cons.prems by (cases c) (simp_all add: module_keeps_discovery start_running)
  with Cons show ?case by simp
qed simp

text \<open>
  Over any sequence of calls of the module there is never more than one discovery thread with one socket, a thread
  only with the flag set, and the module runs only if it was initialised and enabled.
\<close>

theorem onvif_module_invariant:
  assumes "s = foldl onvif_step zero_onvif cs"
  shows "ds_open (on_discovery s) = (if ds_thread (on_discovery s) then 1 else 0) \<and>
    (ds_thread (on_discovery s) \<longrightarrow> ds_running (on_discovery s)) \<and>
    (onvif_module_is_running s \<longrightarrow> onvif_module_is_enabled s) \<and> \<not> on_discovery_running s"
proof -
  define good where "good = (\<lambda>s :: onvif_state. ds_open (on_discovery s) = (if ds_thread (on_discovery s) then 1 else 0) \<and>
    (ds_thread (on_discovery s) \<longrightarrow> ds_running (on_discovery s)) \<and>
    (on_running s \<longrightarrow> on_initialized s \<and> ov_enabled (on_config s)) \<and> \<not> on_discovery_running s)"
  have step: "good (onvif_step s c)" if "good s" for s :: onvif_state and c
    using that
    by (cases c)
      (auto simp: good_def onvif_module_init_def onvif_module_start_def onvif_module_stop_def onvif_module_cleanup_def
        setup_onvif_services_def setup_onvif_discovery_def onvif_start_discovery_service_def discovery_thread_open_def
        zero_onvif_def Let_def split: if_splits prod.splits)
  have "good (foldl onvif_step s cs)" if "good s" for s :: onvif_state
    using that by (induction cs arbitrary: s) (simp_all add: step)
  moreover have "good zero_onvif" by (simp add: good_def zero_onvif_def zero_discovery_def)
  ultimately show ?thesis by (simp add: assms good_def onvif_module_is_running_def onvif_module_is_enabled_def)
qed


lemma onvif_config_fits:
  assumes "onvif_module_config_parse J (Some j) True = (r, Some c)"
  shows "r = 0 \<and> length (auth_username (ov_auth c)) < 64 \<and> length (auth_password (ov_auth c)) < 64 \<and>
    length (ov_device_name c) < 64 \<and> length (ov_firmware_version c) < 32 \<and> length (ov_hardware_id c) < 32"
proof -
  define P where "P = (\<lambda>c :: onvif_config. length (auth_username (ov_auth c)) < 64 \<and> length (auth_password (ov_auth c)) < 64 \<and>
    length (ov_device_name c) < 64 \<and> length (ov_firmware_version c) < 32 \<and> length (ov_hardware_id c) < 32)"
  define Q where "Q = (\<lambda>a :: auth_config. length (auth_username a) < 64 \<and> length (auth_password a) < 64)"
  have auth: "Q (parse_onvif_auth J e a)" if "Q a" for e and a :: auth_config
    using that unfolding parse_onvif_auth_def Let_def
    by (intro if_member_inv [of Q] text_member_inv [of Q]) (auto simp: Q_def)
  have "P onvif_defaults" by (simp add: P_def onvif_defaults_def)
  then have "P (the (snd (onvif_module_config_parse J (Some j) True)))"
    using auth unfolding onvif_module_config_parse_def option.case Let_def not_True_eq_False if_False snd_conv option.sel
    by (intro if_member_inv [of P] text_member_inv [of P]) (auto simp: P_def Q_def)
  with assms show ?thesis by (auto simp: P_def onvif_module_config_parse_def Let_def)
qed

section \<open>What the code does not do\<close>

text \<open>A message id of 128 characters or more is stored cut off, and never found again.\<close>

lemma long_ids_not_recognised:
  assumes "\<forall>e \<in> set (message_ids c). length (fst e) < 128" and "128 \<le> length m"
  shows "\<not> fst (is_duplicate_message (Some m) now c)"
    and "\<forall>e \<in> set (message_ids (snd (is_duplicate_message (Some m) now c))). length (fst e) < 128"
  using assms by (auto simp: is_duplicate_message_def list_ex_iff fit_length MAX_MESSAGE_ID_LEN_def
      dest!: subsetD [OF set_update_subset_insert])

text \<open>Stopping waits until another datagram arrives.\<close>

lemma discovery_stop_waits:
  assumes "ds_running s" and "ds_thread s"
  shows "onvif_stop_discovery_service g later s = None \<longleftrightarrow> later = []"
  using assms by (cases later) (simp_all add: onvif_stop_discovery_service_def Let_def)

text \<open>If the thread fails before its loop the flag stays set, and the next start reports success without a thread.\<close>

lemma failed_discovery_not_restarted:
  assumes "\<not> ds_running s" and "\<not> socket_bound env" and "onvif_start_discovery_service True env s = (r, s1)"
  shows "r = 0 \<and> \<not> ds_thread s1 \<and> onvif_start_discovery_service True env' s1 = (0, s1)"
  using assms by (auto simp: onvif_start_discovery_service_def discovery_thread_open_def Let_def)

text \<open>The quotes of a value are left where the line ends in a newline.\<close>

lemma quotes_kept: "discovery_value (''\"x\"'' @ [CHR 0x0A]) = ''\"x\"''" "discovery_value ''\"x\"'' = ''x''"
  by (simp_all add: discovery_value_def c_at_def)

section \<open>Examples\<close>

definition sample_probe :: "string \<Rightarrow> u32 \<Rightarrow> int \<Rightarrow> datagram" where
  "sample_probe m ip t =
     \<lparr>dg_bytes = map char_byte (''<Probe>NetworkVideoTransmitter<wsa:MessageID>'' @ m @ ''</wsa:MessageID>''),
      dg_ip = ip, dg_time1 = t, dg_time2 = t, dg_random = (\<lambda>i. 7), dg_memory = True\<rparr>"

definition sample_discovery_env :: discovery_env where
  "sample_discovery_env =
     \<lparr>os_release_file = Some ''NAME=a'', uuid_random = (\<lambda>i. 5), socket_created = True, reuse_set = True,
      socket_bound = True, group_joined = True\<rparr>"

definition sample_discovery :: discovery_state where
  "sample_discovery = snd (onvif_start_discovery_service True sample_discovery_env zero_discovery)"

definition sample_probes :: "datagram list" where
  "sample_probes =
     [sample_probe ''a'' 1 100, sample_probe ''a'' 1 101, sample_probe ''b'' 1 100, sample_probe ''c'' 1 102,
      sample_probe ''a'' 2 105]"

definition sample_address :: server_address where
  "sample_address = Some (''10.0.0.1'', 80)"


text \<open>The same logs from the caches alone, for datagrams that are probes.\<close>

primrec accept_log :: "message_cache \<Rightarrow> (string \<times> u32 \<times> int) list \<Rightarrow> (string \<times> int) list" where
  "accept_log c [] = []"
| "accept_log c (p # ps) =
     (case is_duplicate_message (Some (fst p)) (snd (snd p)) c of
        (dup, c1) \<Rightarrow> (if dup then [] else [(fst p, snd (snd p))]) @ accept_log c1 ps)"

primrec pass_log :: "message_cache \<Rightarrow> client_cache \<Rightarrow> (string \<times> u32 \<times> int) list \<Rightarrow> (u32 \<times> int) list" where
  "pass_log c k [] = []"
| "pass_log c k (p # ps) =
     (case is_duplicate_message (Some (fst p)) (snd (snd p)) c of
        (dup, c1) \<Rightarrow>
          if dup then pass_log c1 k ps
          else (case is_client_in_cooldown (fst (snd p)) (snd (snd p)) k of
                  (cool, k1) \<Rightarrow> (if cool then [] else [snd p]) @ pass_log c1 k1 ps))"

definition probe_as :: "datagram \<Rightarrow> string \<times> u32 \<times> int \<Rightarrow> bool" where
  "probe_as d p \<longleftrightarrow> probe_id d = Some (fst p) \<and> dg_ip d = fst (snd p) \<and> dg_time1 d = snd (snd p) \<and> dg_time2 d = snd (snd p)"

lemma accept_log: "list_all2 probe_as ds ps \<Longrightarrow> discovery_log accepts g s ds = accept_log (recent_messages s) ps"
proof (induction ds ps arbitrary: s rule: list_all2_induct)
  case (Cons d ds p ps)
  obtain dup c1 where "is_duplicate_message (Some (fst p)) (snd (snd p)) (recent_messages s) = (dup, c1)"
    by (metis prod.exhaust)
  with Cons show ?case by (simp add: probe_as_def accepts_def receive_messages)
qed simp

lemma pass_log:
  "list_all2 probe_as ds ps \<Longrightarrow> discovery_log passes g s ds = pass_log (recent_messages s) (client_cooldown_cache s) ps"
proof (induction ds ps arbitrary: s rule: list_all2_induct)
  case (Cons d ds p ps)
  obtain dup c1 where c1: "is_duplicate_message (Some (fst p)) (snd (snd p)) (recent_messages s) = (dup, c1)"
    by (metis prod.exhaust)
  obtain cool k1 where k1: "is_client_in_cooldown (fst (snd p)) (snd (snd p)) (client_cooldown_cache s) = (cool, k1)"
    by (metis prod.exhaust)
  have p: "probe_id d = Some (fst p)" "dg_ip d = fst (snd p)" "dg_time1 d = snd (snd p)" "dg_time2 d = snd (snd p)"
    using Cons by (simp_all add: probe_as_def)
  have "accepts d s = (if dup then None else Some (fst p, snd (snd p)))" using p c1 by (simp add: accepts_def)
  with p c1 k1 Cons.IH show ?case by (simp add: passes_def receive_messages receive_clients)
qed simp

lemma sample_id:
  assumes "CHR 0x00 \<notin> set m" and "length m < 100"
  shows "probe_id (sample_probe m ip t) =
    (let b = ''<Probe>NetworkVideoTransmitter<wsa:MessageID>'' @ m @ ''</wsa:MessageID>''
     in if strstr b ''Probe'' \<noteq> None \<and> strstr b ''NetworkVideoTransmitter'' \<noteq> None then extract_message_id True b else None)"
proof -
  let ?b = "''<Probe>NetworkVideoTransmitter<wsa:MessageID>'' @ m @ ''</wsa:MessageID>''"
  have "take 4095 (map char_byte ?b) = map char_byte ?b" using assms(2) by (intro take_all) simp
  moreover have "c_text (map char_byte ?b) = ?b" using assms(1) by (intro c_text_whole) auto
  ultimately have "c_text (take 4095 (map char_byte ?b)) = ?b" by simp
  then show ?thesis unfolding probe_id_def sample_probe_def by (simp only: datagram.select_convs Let_def) simp
qed

lemma sample_ids [simp]:
  "probe_id (sample_probe ''a'' ip t) = Some ''a''" "probe_id (sample_probe ''b'' ip t) = Some ''b''"
  "probe_id (sample_probe ''c'' ip t) = Some ''c''"
  by (subst sample_id; (simp; fail | code_simp))+


lemma sample_start: "onvif_start_discovery_service True sample_discovery_env zero_discovery = (0, sample_discovery)"
  by (simp add: sample_discovery_def onvif_start_discovery_service_def zero_discovery_def)


lemma sample_probe_as: "probe_id (sample_probe m ip t) = Some m \<Longrightarrow> probe_as (sample_probe m ip t) (m, ip, t)"
  by (simp add: probe_as_def sample_probe_def)

lemma sample_logs:
  "discovery_log passes g sample_discovery sample_probes = [(1, 100), (1, 102), (2, 105)]"
  "discovery_log accepts g sample_discovery sample_probes = [(''a'', 100), (''b'', 100), (''c'', 102), (''a'', 105)]"
proof -
  let ?ps = "[(''a'', 1, 100), (''a'', 1, 101), (''b'', 1, 100), (''c'', 1, 102), (''a'', 2, 105)]"
  have as: "list_all2 probe_as sample_probes ?ps" by (simp add: sample_probes_def sample_probe_as)
  have "pass_log (recent_messages zero_discovery) (client_cooldown_cache zero_discovery) ?ps = [(1, 100), (1, 102), (2, 105)]"
    "accept_log (recent_messages zero_discovery) ?ps = [(''a'', 100), (''b'', 100), (''c'', 102), (''a'', 105)]"
    by code_simp+
  then show "discovery_log passes g sample_discovery sample_probes = [(1, 100), (1, 102), (2, 105)]"
    "discovery_log accepts g sample_discovery sample_probes = [(''a'', 100), (''b'', 100), (''c'', 102), (''a'', 105)]"
    unfolding pass_log [OF as] accept_log [OF as] start_caches [OF sample_start] by simp_all
qed

lemma sample_answer_log: "answers sample_address = passes"
  by (simp add: fun_eq_iff answers_passes sample_address_def)

lemma sample_addresses: "dg_ip ` set sample_probes = {1, 2}"
  by (auto simp: sample_probes_def sample_probe_def)

text \<open>
  Five probes from two addresses after a start: one repeats the message of the first and one comes from the same
  address at once; of those answered the first two are from one address and two seconds apart. The id that is
  accepted first is accepted again as the fourth, five seconds later.
\<close>

theorem discovery_client_cooldown_witness:
  "onvif_start_discovery_service True sample_discovery_env zero_discovery = (0, sample_discovery) \<and>
   discovery_log (answers sample_address) sample_address sample_discovery sample_probes = [(1, 100), (1, 102), (2, 105)] \<and>
   snd (discovery_log (answers sample_address) sample_address sample_discovery sample_probes ! 0) + 1 \<le>
     snd (discovery_log (answers sample_address) sample_address sample_discovery sample_probes ! 1)"
  using discovery_client_cooldown [OF sample_start, of sample_probes 0 1 sample_address 1 100 102]
  by (simp add: sample_answer_log sample_logs sample_addresses card_insert_if sample_start)

theorem discovery_message_once_witness:
  "onvif_start_discovery_service True sample_discovery_env zero_discovery = (0, sample_discovery) \<and>
   map fst (discovery_log accepts sample_address sample_discovery sample_probes) = [''a'', ''b'', ''c'', ''a''] \<and>
   snd (discovery_log accepts sample_address sample_discovery sample_probes ! 0) + 5 \<le>
     snd (discovery_log accepts sample_address sample_discovery sample_probes ! 3)"
  using discovery_message_once [OF sample_start, of 0 3 sample_address sample_probes "''a''" 100 105]
  by (simp add: sample_logs sample_start)

theorem discovery_answers_probe_witness:
  "\<exists>a \<in> set (ds_sent (discovery_thread_func sample_address sample_discovery [sample_probe ''a'' 1 100])).
     fst a = 1 \<and> element_text ''<wsa:RelatesTo>'' (snd a) = Some ''a''"
proof -
  let ?d = "sample_probe ''a'' 1 100"
  have as: "list_all2 probe_as [?d] [(''a'', 1, 100)]" by (simp add: sample_probe_as)
  have "discovery_log (answers sample_address) sample_address sample_discovery [?d] = [(1, 100)]"
    unfolding sample_answer_log pass_log [OF as] start_caches [OF sample_start] by code_simp
  then have "ds_sent (discovery_receive sample_address ?d sample_discovery) \<noteq> ds_sent sample_discovery"
    by (auto simp: answers_def split: if_splits)
  moreover have "ds_sent sample_discovery = []" "ds_thread sample_discovery"
    by (simp_all add: sample_discovery_def onvif_start_discovery_service_def zero_discovery_def discovery_thread_open_def
        sample_discovery_env_def Let_def)
  ultimately have "ds_sent (discovery_thread_func sample_address sample_discovery [?d]) \<noteq> []"
    by (simp add: discovery_thread_func_def)
  then obtain a where a: "a \<in> set (ds_sent (discovery_thread_func sample_address sample_discovery [?d]))"
    by (meson ex_in_conv set_empty)
  from discovery_answers_probe [OF sample_start _ this] have "fst a = dg_ip ?d \<and> element_text ''<wsa:RelatesTo>'' (snd a) = probe_id ?d"
    by (auto simp: sample_address_def int_range_def)
  moreover have "dg_ip ?d = 1" by (simp add: sample_probe_def)
  ultimately show ?thesis using a by auto
qed

theorem onvif_module_invariant_witness:
  "ds_open (on_discovery (foldl onvif_step zero_onvif
      [OnvifInit None, OnvifStart True sample_discovery_env, OnvifCleanup, OnvifInit None, OnvifStart True sample_discovery_env])) = 1"
  using onvif_module_invariant [OF refl, of "[OnvifInit None, OnvifStart True sample_discovery_env, OnvifCleanup,
      OnvifInit None, OnvifStart True sample_discovery_env]"]
  by (simp add: zero_onvif_def onvif_module_init_def onvif_module_start_def onvif_module_cleanup_def onvif_module_stop_def
      setup_onvif_services_def setup_onvif_discovery_def onvif_defaults_def onvif_start_discovery_service_def
      zero_discovery_def discovery_thread_open_def sample_discovery_env_def Let_def)

end
