(* ===== verification/RtpPacket.thy ===== *)
theory RtpPacket
  imports FrameManager
begin

text \<open>
  The sending side of \<open>rtsp_server.c\<close>: RTP packets over UDP, interleaved TCP and TLS (OpenSSL
  backend) and the fragmentation of H.264 and H.265 NAL units, against receivers that follow the
  RFCs. \<open>unsigned long\<close> and \<open>size_t\<close> have 32 bits.
\<close>

section \<open>State\<close>

datatype video_codec = VIDEO_CODEC_H264 | VIDEO_CODEC_H265

datatype rtsp_transport_mode = RTSP_TRANSPORT_UDP | RTSP_TRANSPORT_TCP

datatype rtsp_client_state =
  RTSP_CLIENT_STATE_INIT | RTSP_CLIENT_STATE_READY | RTSP_CLIENT_STATE_PLAYING |
  RTSP_CLIENT_STATE_PAUSED

text \<open>
  What left on behalf of a client: a datagram, bytes written to the socket as they are, bytes
  written through TLS. The fields \<open>outbox\<close> and \<open>closed_fds\<close> of a client record what left and which
  descriptors were closed on its behalf; the C structure does not have them.
\<close>

datatype transmission = Datagram bytes | Plain bytes | Secure bytes

record rtsp_client =
  socket_fd :: int
  client_state :: rtsp_client_state
  session_id :: string
  client_cseq :: u32
  rtp_port :: int
  rtcp_port :: int
  rtp_socket_fd :: int
  rtp_seq :: u16
  rtp_ssrc :: u32
  video_channel :: int
  client_codec :: video_codec
  transport_mode :: rtsp_transport_mode
  last_activity_us :: u32
  client_active :: bool
  needs_idr :: bool
  idr_wait_start_us :: u32
  supports_backchannel :: bool
  use_tls :: bool
  ssl_context :: bool
  peer_addr :: u32
  rtp_addr :: "u32 \<times> u16"
  rtp_timestamp :: u32
  request_buffer :: string
  closed_fds :: "int list"
  outbox :: "transmission list"

text \<open>
  The network: how many bytes the \<open>n\<close>-th transmission takes, or a negative result; for TLS the
  outcome of every try of it.
\<close>

datatype ssl_result =
  SslOk nat | SSL_ERROR_WANT_READ | SSL_ERROR_WANT_WRITE | SSL_ERROR_SYSCALL | SSL_ERROR_SSL |
  SSL_ERROR_ZERO_RETURN

record net =
  udp_send :: "nat \<Rightarrow> bytes \<Rightarrow> int"
  tcp_send :: "nat \<Rightarrow> bytes \<Rightarrow> int"
  tls_send :: "nat \<Rightarrow> nat \<Rightarrow> bytes \<Rightarrow> ssl_result"

section \<open>Transport\<close>

definition put_out :: "transmission \<Rightarrow> rtsp_client \<Rightarrow> rtsp_client" where
  "put_out x c = c\<lparr>outbox := outbox c @ [x]\<rparr>"

definition sendto :: "net \<Rightarrow> rtsp_client \<Rightarrow> bytes \<Rightarrow> int \<times> rtsp_client" where
  "sendto net c d =
     (let r = udp_send net (length (outbox c)) d in (r, put_out (Datagram (take (nat r) d)) c))"

definition send_plain :: "net \<Rightarrow> rtsp_client \<Rightarrow> bytes \<Rightarrow> int \<times> rtsp_client" where
  "send_plain net c d =
     (let r = tcp_send net (length (outbox c)) d in (r, put_out (Plain (take (nat r) d)) c))"

text \<open>The tries that are left, and the number of the next one.\<close>

fun ssl_write_loop :: "net \<Rightarrow> bytes \<Rightarrow> nat \<Rightarrow> nat \<Rightarrow> rtsp_client \<Rightarrow> int \<times> rtsp_client" where
  "ssl_write_loop net d 0 k c = (-1, c)"
| "ssl_write_loop net d (Suc left) k c =
     (case tls_send net (length (outbox c)) k d of
        SslOk n \<Rightarrow> (int n, put_out (Secure (take n d)) c)
      | SSL_ERROR_WANT_READ \<Rightarrow> ssl_write_loop net d left (k + 1) c
      | SSL_ERROR_WANT_WRITE \<Rightarrow> ssl_write_loop net d left (k + 1) c
      | SSL_ERROR_SYSCALL \<Rightarrow> (-1, c\<lparr>ssl_context := False, use_tls := False\<rparr>)
      | SSL_ERROR_SSL \<Rightarrow> (-1, c\<lparr>ssl_context := False, use_tls := False\<rparr>)
      | SSL_ERROR_ZERO_RETURN \<Rightarrow> (-1, c))"

definition rtsp_client_tls_write :: "net \<Rightarrow> rtsp_client \<Rightarrow> bytes \<Rightarrow> int \<times> rtsp_client" where
  "rtsp_client_tls_write net c d =
     (if d = [] then (-1, c)
      else if \<not> use_tls c \<or> \<not> ssl_context c then send_plain net c d
      else ssl_write_loop net d 3 0 c)"

section \<open>Packets\<close>

definition MAX_RTP_PACKET_SIZE :: nat where
  "MAX_RTP_PACKET_SIZE = 1200"

definition RTP_HEADER_SIZE :: nat where
  "RTP_HEADER_SIZE = 12"

definition rtp_header :: "u8 \<Rightarrow> bool \<Rightarrow> u32 \<Rightarrow> rtsp_client \<Rightarrow> bytes" where
  "rtp_header pt marker timestamp c =
     [0x80, if marker then pt OR 0x80 else pt] @ be16 (rtp_seq c) @ be32 timestamp @ be32 (rtp_ssrc c)"

definition next_seq :: "rtsp_client \<Rightarrow> rtsp_client" where
  "next_seq c = c\<lparr>rtp_seq := rtp_seq c + 1\<rparr>"

definition skip_start_code :: "bytes \<Rightarrow> bytes" where
  "skip_start_code d =
     (if 4 \<le> length d \<and> start4 d 0 then drop 4 d
      else if 3 \<le> length d \<and> start3 d 0 then drop 3 d
      else d)"

text \<open>The interleaved frame: a dollar sign, the channel, the length in 16 bits, the packet.\<close>

definition interleaved_header :: "rtsp_client \<Rightarrow> bytes \<Rightarrow> bytes" where
  "interleaved_header c packet = [0x24, word_of_int (rtp_port c)] @ be16 (word_of_nat (length packet))"

text \<open>One packet as the H.264 functions send it, and as the H.265 function does.\<close>

definition transmit_h264 :: "net \<Rightarrow> rtsp_client \<Rightarrow> bytes \<Rightarrow> int \<times> rtsp_client" where
  "transmit_h264 net c packet =
     (if transport_mode c = RTSP_TRANSPORT_UDP then
        (case sendto net c packet of (r, c1) \<Rightarrow> (if r < 0 then -1 else int (length packet), c1))
      else
        (case rtsp_client_tls_write net c (interleaved_header c packet @ packet) of
           (sent, c1) \<Rightarrow> (if sent < int (length packet + 4) then -1 else int (length packet), c1)))"

definition transmit_h265 :: "net \<Rightarrow> rtsp_client \<Rightarrow> bytes \<Rightarrow> int \<times> rtsp_client" where
  "transmit_h265 net c packet =
     (if transport_mode c = RTSP_TRANSPORT_UDP then
        (case sendto net c packet of (r, c1) \<Rightarrow> (if r < 0 then -1 else int (length packet), c1))
      else
        (case send_plain net c (interleaved_header c packet) of
           (r, c1) \<Rightarrow>
             if r < 4 then (-1, c1)
             else (case send_plain net c1 packet of
                     (r2, c2) \<Rightarrow> (if r2 < int (length packet) then -1 else int (length packet), c2))))"

text \<open>
  The fragments of what follows the NAL header. \<open>n\<close> counts those already sent; the result is the
  number of fragments or -1.
\<close>

function h264_fragments ::
  "net \<Rightarrow> u32 \<Rightarrow> bool \<Rightarrow> u8 \<Rightarrow> u8 \<Rightarrow> bytes \<Rightarrow> nat \<Rightarrow> rtsp_client \<Rightarrow> int \<times> rtsp_client" where
  "h264_fragments net timestamp marker nal_nri nal_type rest n c =
     (if rest = [] then (int n, c)
      else
        (let is_first = (n = 0);
             is_last = (length rest \<le> 1186);
             payload_size = (if 1186 < length rest then 1186 else length rest);
             fu_header = (if is_first then 0x80 else 0) OR (if is_last then 0x40 else 0) OR nal_type;
             packet = rtp_header 96 (is_last \<and> marker) timestamp c @ [nal_nri OR 28, fu_header] @
                      take payload_size rest
         in case transmit_h264 net (next_seq c) packet of
              (r, c1) \<Rightarrow>
                if r < 0 then (-1, c1)
                else h264_fragments net timestamp marker nal_nri nal_type (drop payload_size rest) (n + 1) c1))"
  by pat_completeness auto
termination
  by (relation "measure (\<lambda>(net, ts, m, nri, t, rest, n, c). length rest)") auto

declare h264_fragments.simps [simp del]

definition send_h264_fragmented_rtp ::
  "net \<Rightarrow> rtsp_client \<Rightarrow> bytes \<Rightarrow> u32 \<Rightarrow> bool \<Rightarrow> int \<times> rtsp_client" where
  "send_h264_fragmented_rtp net c d timestamp marker =
     (if 300 * 1024 < length d then (-1, c)
      else
        (let nal = skip_start_code d in
         if nal = [] then (0, c)
         else
           (let nal_type = hd nal AND 0x1F; nal_nri = hd nal AND 0x60 in
            if length nal \<le> 1186 then
              transmit_h264 net (next_seq c) (rtp_header 96 marker timestamp c @ nal)
            else h264_fragments net timestamp marker nal_nri nal_type (tl nal) 0 c)))"

function h265_fragments ::
  "net \<Rightarrow> u32 \<Rightarrow> bool \<Rightarrow> u16 \<Rightarrow> u8 \<Rightarrow> bytes \<Rightarrow> nat \<Rightarrow> rtsp_client \<Rightarrow> int \<times> rtsp_client" where
  "h265_fragments net timestamp marker payload_hdr nal_type rest n c =
     (if rest = [] then (int n, c)
      else
        (let is_last = (length rest \<le> 1185);
             payload_size = (if 1185 < length rest then 1185 else length rest);
             fu_header = nal_type OR (if n = 0 then 0x80 else 0) OR (if is_last then 0x40 else 0);
             packet = rtp_header 97 (is_last \<and> marker) timestamp c @ be16 payload_hdr @ [fu_header] @
                      take payload_size rest
         in case transmit_h265 net (next_seq c) packet of
              (r, c1) \<Rightarrow>
                if r < 0 then (-1, c1)
                else h265_fragments net timestamp marker payload_hdr nal_type (drop payload_size rest) (n + 1) c1))"
  by pat_completeness auto
termination
  by (relation "measure (\<lambda>(net, ts, m, h, t, rest, n, c). length rest)") auto

declare h265_fragments.simps [simp del]

definition send_h265_fragmented_rtp ::
  "net \<Rightarrow> rtsp_client \<Rightarrow> bytes \<Rightarrow> u32 \<Rightarrow> bool \<Rightarrow> int \<times> rtsp_client" where
  "send_h265_fragmented_rtp net c d timestamp marker =
     (let nal = skip_start_code d in
      if length nal \<le> 1185 then
        transmit_h265 net (next_seq c) (rtp_header 97 marker timestamp c @ nal)
      else
        (let nal_header = push_bit 8 (ucast (nal ! 0)) OR ucast (nal ! 1) :: u16;
             nal_type = ucast (drop_bit 9 nal_header AND 0x3F) :: u8;
             nuh_layer_id = drop_bit 3 nal_header AND 0x3F;
             nuh_temporal_id = nal_header AND 0x07;
             payload_hdr = push_bit 9 49 OR push_bit 3 nuh_layer_id OR nuh_temporal_id
         in h265_fragments net timestamp marker payload_hdr nal_type (drop 2 nal) 0 c))"

text \<open>The texts with which an interleaved packet must not begin.\<close>

definition looks_like_request :: "bytes \<Rightarrow> bool" where
  "looks_like_request packet \<longleftrightarrow>
     4 \<le> length packet \<and>
     map byte_char (take 4 packet) \<in> {''RTSP'', ''GET '', ''POST'', ''OPTI''}"

definition transmit_single :: "net \<Rightarrow> rtsp_client \<Rightarrow> bytes \<Rightarrow> int \<times> rtsp_client" where
  "transmit_single net c packet =
     (if transport_mode c = RTSP_TRANSPORT_UDP then
        if rtp_socket_fd c < 0 then (-1, c)
        else (case sendto net c packet of (r, c1) \<Rightarrow> (if r < 0 then -1 else int (length packet), c1))
      else if looks_like_request packet then (0, c)
      else (case rtsp_client_tls_write net c (interleaved_header c packet @ packet) of
              (sent, c1) \<Rightarrow> (if sent < int (length packet + 4) then -1 else int (length packet), c1)))"

definition send_rtp_packet ::
  "net \<Rightarrow> rtsp_client \<Rightarrow> bytes \<Rightarrow> u32 \<Rightarrow> bool \<Rightarrow> int \<times> rtsp_client" where
  "send_rtp_packet net c d timestamp marker =
     (if client_state c \<noteq> RTSP_CLIENT_STATE_PLAYING then (0, c)
      else if 1184 < length d then
        (case client_codec c of
           VIDEO_CODEC_H264 \<Rightarrow> send_h264_fragmented_rtp net c d timestamp marker
         | VIDEO_CODEC_H265 \<Rightarrow> send_h265_fragmented_rtp net c d timestamp marker)
      else
        (case client_codec c of
           VIDEO_CODEC_H265 \<Rightarrow>
             (let nal = skip_start_code d in
              if 2 \<le> length nal
              then transmit_single net (next_seq c) (rtp_header 97 marker timestamp c @ nal)
              else (0, next_seq c))
         | VIDEO_CODEC_H264 \<Rightarrow>
             transmit_single net (next_seq c) (rtp_header 96 marker timestamp c @ d)))"

section \<open>What sending leaves alone\<close>

text \<open>
  Sending moves the sequence number and the record of what left, and a failing write may give up
  TLS; everything else of the client stays.
\<close>

definition only_sent :: "rtsp_client \<Rightarrow> rtsp_client \<Rightarrow> bool" where
  "only_sent c c1 \<longleftrightarrow>
     c1 = c\<lparr>rtp_seq := rtp_seq c1, outbox := outbox c1, use_tls := use_tls c1, ssl_context := ssl_context c1\<rparr>"

lemma only_sent_refl [simp]: "only_sent c c"
  by (simp add: only_sent_def)

lemma only_sent_trans: "only_sent a b \<Longrightarrow> only_sent b c \<Longrightarrow> only_sent a c"
  by (cases a; cases b; cases c) (simp add: only_sent_def)

lemma only_sent_next [simp]: "only_sent c (next_seq d) = only_sent c d" "only_sent (next_seq c) d = only_sent c d"
  by (cases c; cases d; simp add: only_sent_def next_seq_def)+

lemma only_sent_put [simp]: "only_sent c (put_out x c)"
  by (simp add: only_sent_def put_out_def)

lemma only_sent_ssl: "only_sent c (snd (ssl_write_loop net d left k c))"
  by (induction net d left k c rule: ssl_write_loop.induct)
    (auto simp: only_sent_def put_out_def split: ssl_result.split)

lemma only_sent_plain: "only_sent c (snd (sendto net c d))" "only_sent c (snd (send_plain net c d))"
  by (simp_all add: sendto_def send_plain_def Let_def)

lemma only_sent_tls: "only_sent c (snd (rtsp_client_tls_write net c d))"
  by (simp add: rtsp_client_tls_write_def only_sent_ssl only_sent_plain)

lemma only_sent_transmit [frame_conds]:
  "only_sent c (snd (transmit_h264 net c p))" "only_sent c (snd (transmit_single net c p))"
  "only_sent c (snd (transmit_h265 net c p))"
  using only_sent_plain(1) [of c net p] only_sent_tls [of c net "interleaved_header c p @ p"]
    only_sent_plain(2) [of c net "interleaved_header c p"]
    only_sent_plain(2) [of "snd (send_plain net c (interleaved_header c p))" net p]
  by (auto simp: transmit_h264_def transmit_single_def transmit_h265_def split: prod.splits
      intro: only_sent_trans)

lemmas only_sent_transmit_next [frame_conds] =
  only_sent_transmit [of "next_seq c" for c, unfolded only_sent_next]

lemma loop_only_sent:
  assumes "\<And>n c. loop [] n c = (int n, c)" and "\<And>c p. only_sent c (snd (transmit c p))"
    and "\<And>rest n c. rest \<noteq> [] \<Longrightarrow> loop rest n c =
      (case transmit (next_seq c) (pkt rest n c) of
         (r, c1) \<Rightarrow> if r < 0 then (-1, c1) else loop (drop (Suc k) rest) (n + 1) c1)"
  shows "only_sent c (snd (loop rest n c))"
proof (induction "length rest" arbitrary: rest n c rule: less_induct)
  case less
  show ?case
  proof (cases "rest = []")
    case False
    obtain r c1 where t: "transmit (next_seq c) (pkt rest n c) = (r, c1)" by fastforce
    then have "only_sent c c1" using assms(2) [of "next_seq c" "pkt rest n c"] by simp
    moreover have "only_sent c1 (snd (loop (drop (Suc k) rest) (n + 1) c1))"
      using False by (intro less) simp
    ultimately show ?thesis
      using False t by (auto simp: assms(3) intro: only_sent_trans)
  qed (simp add: assms(1))
qed

lemma only_sent_fragments [frame_conds]:
  "only_sent c (snd (h264_fragments net ts m nri t rest n c))"
  "only_sent c (snd (h265_fragments net ts m h t' rest n c))"
proof -
  show "only_sent c (snd (h264_fragments net ts m nri t rest n c))"
  proof (rule loop_only_sent [where loop = "h264_fragments net ts m nri t" and transmit = "transmit_h264 net"
        and k = 1185 and pkt = "\<lambda>rest n c. rtp_header 96 (length rest \<le> 1186 \<and> m) ts c @ [nri OR 28,
          (if n = 0 then 0x80 else 0) OR (if length rest \<le> 1186 then 0x40 else 0) OR t] @ take 1186 rest"])
    fix rest :: bytes and n c assume "rest \<noteq> []"
    then show "h264_fragments net ts m nri t rest n c =
        (case transmit_h264 net (next_seq c) (rtp_header 96 (length rest \<le> 1186 \<and> m) ts c @ [nri OR 28,
          (if n = 0 then 0x80 else 0) OR (if length rest \<le> 1186 then 0x40 else 0) OR t] @ take 1186 rest) of
         (r, c1) \<Rightarrow> if r < 0 then (-1, c1) else h264_fragments net ts m nri t (drop (Suc 1185) rest) (n + 1) c1)"
      by (subst h264_fragments.simps) (auto simp: Let_def split: prod.splits)
  qed (simp_all add: h264_fragments.simps frame_conds)
  show "only_sent c (snd (h265_fragments net ts m h t' rest n c))"
  proof (rule loop_only_sent [where loop = "h265_fragments net ts m h t'" and transmit = "transmit_h265 net"
        and k = 1184 and pkt = "\<lambda>rest n c. rtp_header 97 (length rest \<le> 1185 \<and> m) ts c @ be16 h @
          [t' OR (if n = 0 then 0x80 else 0) OR (if length rest \<le> 1185 then 0x40 else 0)] @ take 1185 rest"])
    fix rest :: bytes and n c assume "rest \<noteq> []"
    then show "h265_fragments net ts m h t' rest n c =
        (case transmit_h265 net (next_seq c) (rtp_header 97 (length rest \<le> 1185 \<and> m) ts c @ be16 h @
          [t' OR (if n = 0 then 0x80 else 0) OR (if length rest \<le> 1185 then 0x40 else 0)] @ take 1185 rest) of
         (r, c1) \<Rightarrow> if r < 0 then (-1, c1) else h265_fragments net ts m h t' (drop (Suc 1184) rest) (n + 1) c1)"
      by (subst h265_fragments.simps) (auto simp: Let_def split: prod.splits)
  qed (simp_all add: h265_fragments.simps frame_conds)
qed

lemma only_sent_packet [frame_conds]: "only_sent c (snd (send_rtp_packet net c d ts m))"
  by (auto simp: send_rtp_packet_def send_h264_fragmented_rtp_def send_h265_fragmented_rtp_def Let_def
      frame_conds split: video_codec.split)

section \<open>What a receiver makes of the packets\<close>

definition rtp_payload :: "bytes \<Rightarrow> bytes" where
  "rtp_payload p = drop 12 p"

definition rtp_marker :: "bytes \<Rightarrow> bool" where
  "rtp_marker p = bit (p ! 1) 7"

definition rtp_sequence :: "bytes \<Rightarrow> u16" where
  "rtp_sequence p = de16 (p ! 2) (p ! 3)"

definition rtp_time :: "bytes \<Rightarrow> u32" where
  "rtp_time p = de32 (p ! 4) (p ! 5) (p ! 6) (p ! 7)"

text \<open>Exactly the first payload has the start bit in byte \<open>i\<close>, exactly the last the end bit.\<close>

definition fu_complete :: "nat \<Rightarrow> bytes list \<Rightarrow> bool" where
  "fu_complete i ps \<longleftrightarrow>
     ps \<noteq> [] \<and> map (\<lambda>p. bit (p ! i) 7) ps = True # replicate (length ps - 1) False \<and>
     map (\<lambda>p. bit (p ! i) 6) ps = replicate (length ps - 1) False @ [True]"

text \<open>RFC 6184: one NAL unit from single packets and FU-A fragments.\<close>

definition h264_depacketize :: "bytes list \<Rightarrow> bytes option" where
  "h264_depacketize ps =
     (case ps of
        [] \<Rightarrow> None
      | p # qs \<Rightarrow>
          if hd p AND 0x1F \<noteq> 28 then (if qs = [] then Some p else None)
          else if fu_complete 1 ps \<and> list_all (\<lambda>q. q ! 0 = p ! 0 \<and> q ! 1 AND 0x1F = p ! 1 AND 0x1F) ps
          then Some ((p ! 0 AND 0xE0 OR p ! 1 AND 0x1F) # concat (map (drop 2) ps))
          else None)"

text \<open>RFC 7798: the same with a NAL header of two bytes.\<close>

definition h265_depacketize :: "bytes list \<Rightarrow> bytes option" where
  "h265_depacketize ps =
     (case ps of
        [] \<Rightarrow> None
      | p # qs \<Rightarrow>
          if drop_bit 1 (hd p) AND 0x3F \<noteq> 49 then (if qs = [] then Some p else None)
          else if fu_complete 2 ps \<and> list_all (\<lambda>q. q ! 0 = p ! 0 \<and> q ! 1 = p ! 1 \<and> q ! 2 AND 0x3F = p ! 2 AND 0x3F) ps
          then Some ((p ! 0 AND 0x81 OR push_bit 1 (p ! 2 AND 0x3F)) # p ! 1 # concat (map (drop 3) ps))
          else None)"

section \<open>The fragmenting loop\<close>

text \<open>A network that takes everything.\<close>

definition good_net :: net where
  "good_net = \<lparr>udp_send = (\<lambda>n d. int (length d)), tcp_send = (\<lambda>n d. int (length d)),
               tls_send = (\<lambda>n k d. SslOk (length d))\<rparr>"

fun fu_payloads :: "(bool \<Rightarrow> bool \<Rightarrow> bytes) \<Rightarrow> bool \<Rightarrow> bytes list \<Rightarrow> bytes list" where
  "fu_payloads fu first [] = []"
| "fu_payloads fu first (b # bs) = (fu first (bs = []) @ b) # fu_payloads fu False bs"

fun rtp_packets :: "u8 \<Rightarrow> bool \<Rightarrow> u32 \<Rightarrow> rtsp_client \<Rightarrow> bytes list \<Rightarrow> bytes list" where
  "rtp_packets pt marker ts c [] = []"
| "rtp_packets pt marker ts c (p # ps) =
     (rtp_header pt (ps = [] \<and> marker) ts c @ p) # rtp_packets pt marker ts (next_seq c) ps"

lemma fu_payloads_Nil [simp]: "fu_payloads fu first bs = [] \<longleftrightarrow> bs = []"
  by (cases bs) simp_all

text \<open>
  What both fragmenting functions share: on a network that takes everything, the packets are
  those of the blocks of the data.
\<close>

locale fragmenter =
  fixes transmit :: "rtsp_client \<Rightarrow> bytes \<Rightarrow> int \<times> rtsp_client"
    and wire :: "rtsp_client \<Rightarrow> bytes \<Rightarrow> transmission list"
    and loop :: "u32 \<Rightarrow> bool \<Rightarrow> bytes \<Rightarrow> nat \<Rightarrow> rtsp_client \<Rightarrow> int \<times> rtsp_client"
    and fu :: "bool \<Rightarrow> bool \<Rightarrow> bytes"
    and pt :: u8
    and limit :: nat
  assumes limit_pos: "0 < limit"
    and transmit_all: "transmit c p = (int (length p), c\<lparr>outbox := outbox c @ wire c p\<rparr>)"
    and wire_seq: "wire (c\<lparr>rtp_seq := s\<rparr>) = wire c"
    and wire_outbox: "wire (c\<lparr>outbox := b\<rparr>) = wire c"
    and loop_end: "loop ts m [] n c = (int n, c)"
    and loop_step: "rest \<noteq> [] \<Longrightarrow> loop ts m rest n c =
      (case transmit (next_seq c) (rtp_header pt (length rest \<le> limit \<and> m) ts c @
              fu (n = 0) (length rest \<le> limit) @ take limit rest) of
         (r, c1) \<Rightarrow> if r < 0 then (-1, c1) else loop ts m (drop limit rest) (n + 1) c1)"
begin

lemma packets_outbox: "rtp_packets pt m ts (c\<lparr>outbox := b\<rparr>) ps = rtp_packets pt m ts c ps"
proof (induction ps arbitrary: c)
  case (Cons p ps)
  have "next_seq (c\<lparr>outbox := b\<rparr>) = (next_seq c)\<lparr>outbox := b\<rparr>" by (simp add: next_seq_def)
  with Cons show ?case by (simp add: rtp_header_def)
qed simp

lemma loop_sends:
  "loop ts m rest n c =
     (int (n + length (blocks limit rest)),
      c\<lparr>rtp_seq := rtp_seq c + of_nat (length (blocks limit rest)),
        outbox := outbox c @ concat (map (wire c)
          (rtp_packets pt m ts c (fu_payloads fu (n = 0) (blocks limit rest))))\<rparr>)"
proof (induction "length rest" arbitrary: rest n c rule: less_induct)
  case less
  show ?case
  proof (cases "rest = []")
    case True
    then show ?thesis by (simp add: loop_end)
  next
    case False
    let ?c = "(next_seq c)\<lparr>outbox := outbox c @ wire c (rtp_header pt (length rest \<le> limit \<and> m) ts c @
              fu (n = 0) (length rest \<le> limit) @ take limit rest)\<rparr>"
    have "length (drop limit rest) < length rest" using False limit_pos by simp
    from less [OF this, of "n + 1" ?c] have "loop ts m rest n c =
        (int (n + 1 + length (blocks limit (drop limit rest))),
         ?c\<lparr>rtp_seq := rtp_seq ?c + of_nat (length (blocks limit (drop limit rest))),
           outbox := outbox ?c @ concat (map (wire c)
             (rtp_packets pt m ts (next_seq c) (fu_payloads fu False (blocks limit (drop limit rest)))))\<rparr>)"
      using False by (simp add: loop_step transmit_all wire_outbox packets_outbox next_seq_def wire_seq)
    moreover have "blocks limit (drop limit rest) = [] \<longleftrightarrow> length rest \<le> limit"
      using limit_pos by (subst blocks.simps) auto
    ultimately show ?thesis
      using False limit_pos
      by (simp add: blocks_step next_seq_def add.assoc)
  qed
qed

end

definition wire_h264 :: "rtsp_client \<Rightarrow> bytes \<Rightarrow> transmission list" where
  "wire_h264 c p =
     (if transport_mode c = RTSP_TRANSPORT_UDP then [Datagram p]
      else if use_tls c \<and> ssl_context c then [Secure (interleaved_header c p @ p)]
      else [Plain (interleaved_header c p @ p)])"

definition wire_h265 :: "rtsp_client \<Rightarrow> bytes \<Rightarrow> transmission list" where
  "wire_h265 c p =
     (if transport_mode c = RTSP_TRANSPORT_UDP then [Datagram p]
      else [Plain (interleaved_header c p), Plain p])"

definition fu_a :: "u8 \<Rightarrow> u8 \<Rightarrow> bool \<Rightarrow> bool \<Rightarrow> bytes" where
  "fu_a nri t s e = [nri OR 28, (if s then 0x80 else 0) OR (if e then 0x40 else 0) OR t]"

definition fu_265 :: "u16 \<Rightarrow> u8 \<Rightarrow> bool \<Rightarrow> bool \<Rightarrow> bytes" where
  "fu_265 h t s e = be16 h @ [t OR (if s then 0x80 else 0) OR (if e then 0x40 else 0)]"

lemma interleaved_header_length [simp]: "length (interleaved_header c p) = 4"
  by (simp add: interleaved_header_def)

lemma interleaved_header_ne [simp]: "interleaved_header c p \<noteq> []"
  by (simp add: interleaved_header_def)

lemma transmit_h264_good:
  "transmit_h264 good_net c p = (int (length p), c\<lparr>outbox := outbox c @ wire_h264 c p\<rparr>)"
  by (simp add: transmit_h264_def good_net_def sendto_def send_plain_def rtsp_client_tls_write_def
      put_out_def wire_h264_def numeral_3_eq_3)

lemma transmit_h265_good:
  "transmit_h265 good_net c p = (int (length p), c\<lparr>outbox := outbox c @ wire_h265 c p\<rparr>)"
  by (simp add: transmit_h265_def good_net_def sendto_def send_plain_def put_out_def wire_h265_def)

lemma transmit_single_good:
  assumes "transport_mode c = RTSP_TRANSPORT_UDP \<Longrightarrow> 0 \<le> rtp_socket_fd c"
  shows "transmit_single good_net c (rtp_header pt m ts h @ p) =
    (int (length p + 12), c\<lparr>outbox := outbox c @ wire_h264 c (rtp_header pt m ts h @ p)\<rparr>)"
proof -
  have "\<not> looks_like_request (rtp_header pt m ts h @ p)"
    by (auto simp: looks_like_request_def rtp_header_def byte_char_def char_of_def)
  with assms show ?thesis
    by (auto simp: transmit_single_def good_net_def sendto_def send_plain_def rtsp_client_tls_write_def
        put_out_def wire_h264_def numeral_3_eq_3 rtp_header_def)
qed

interpretation h264_fu: fragmenter "transmit_h264 good_net" wire_h264
  "\<lambda>ts m rest n c. h264_fragments good_net ts m nri t rest n c" "fu_a nri t" 96 1186 for nri t
proof (unfold_locales, goal_cases)
  case (6 rest ts m n c)
  then show ?case
    by (subst h264_fragments.simps) (auto simp: fu_a_def Let_def split: prod.splits)
qed (simp_all add: transmit_h264_good wire_h264_def interleaved_header_def fun_eq_iff h264_fragments.simps)

interpretation h265_fu: fragmenter "transmit_h265 good_net" wire_h265
  "\<lambda>ts m rest n c. h265_fragments good_net ts m h t rest n c" "fu_265 h t" 97 1185 for h t
proof (unfold_locales, goal_cases)
  case (6 rest ts m n c)
  then show ?case
    by (subst h265_fragments.simps) (auto simp: fu_265_def Let_def split: prod.splits)
qed (simp_all add: transmit_h265_good wire_h265_def interleaved_header_def fun_eq_iff h265_fragments.simps)

section \<open>Reading the packets back\<close>

lemma rtp_header_length [simp]: "length (rtp_header pt m ts c) = 12"
  by (simp add: rtp_header_def)

lemma rtp_packet_view:
  "rtp_payload (rtp_header pt m ts c @ p) = p"
  "\<not> bit pt 7 \<Longrightarrow> rtp_marker (rtp_header pt m ts c @ p) = m"
  "rtp_sequence (rtp_header pt m ts c @ p) = rtp_seq c"
  "rtp_time (rtp_header pt m ts c @ p) = ts"
  by (simp_all add: rtp_payload_def rtp_marker_def rtp_sequence_def rtp_time_def rtp_header_def
      be16_def be32_def bit_or_iff)

lemma rtp_packets_payload: "map rtp_payload (rtp_packets pt m ts c ps) = ps"
  by (induction ps arbitrary: c) (simp_all add: rtp_packet_view)

lemma rtp_packets_Nil [simp]: "rtp_packets pt m ts c ps = [] \<longleftrightarrow> ps = []"
  by (cases ps) simp_all

lemma rtp_packets_length [simp]: "length (rtp_packets pt m ts c ps) = length ps"
  by (induction ps arbitrary: c) simp_all

lemma rtp_packets_marker:
  "\<not> bit pt 7 \<Longrightarrow> ps \<noteq> [] \<Longrightarrow>
     map rtp_marker (rtp_packets pt m ts c ps) = replicate (length ps - 1) False @ [m]"
proof (induction ps arbitrary: c)
  case (Cons p ps)
  then show ?case by (cases ps) (simp_all add: rtp_packet_view)
qed simp

lemma rtp_packets_sequence:
  "map rtp_sequence (rtp_packets pt m ts c ps) = map (\<lambda>i. rtp_seq c + of_nat i) [0..<length ps]"
proof (induction ps arbitrary: c)
  case (Cons p ps)
  have "map (\<lambda>i. rtp_seq c + of_nat i) [0..<length (p # ps)] =
      rtp_seq c # map (\<lambda>i. rtp_seq c + 1 + of_nat i) [0..<length ps]"
    by (simp only: length_Cons map_upt_Suc) (simp add: add.assoc)
  with Cons [of "next_seq c"] show ?case
    by (simp add: rtp_packet_view next_seq_def del: upt_Suc)
qed simp

lemma rtp_packets_sizes:
  "list_all (\<lambda>p. length p \<le> n) ps \<Longrightarrow> list_all (\<lambda>p. length p \<le> 12 + n) (rtp_packets pt m ts c ps)"
  by (induction ps arbitrary: c) simp_all

lemma fu_payloads_length [simp]: "length (fu_payloads fu first bs) = length bs"
  by (induction bs arbitrary: first) simp_all

lemma fu_payloads_in:
  "p \<in> set (fu_payloads fu first bs) \<Longrightarrow> \<exists>s e b. b \<in> set bs \<and> p = fu s e @ b"
  by (induction bs arbitrary: first) (auto, blast)

lemma fu_payloads_concat:
  "(\<And>s e. length (fu s e) = h) \<Longrightarrow> concat (map (drop h) (fu_payloads fu first bs)) = concat bs"
  by (induction bs arbitrary: first) simp_all

lemma fu_payloads_complete:
  assumes "\<And>s e b. bit ((fu s e @ b) ! i) 7 = s" and "\<And>s e b. bit ((fu s e @ b) ! i) 6 = e" and "bs \<noteq> []"
  shows "fu_complete i (fu_payloads fu True bs)"
proof -
  have "bs \<noteq> [] \<Longrightarrow> map (\<lambda>p. bit (p ! i) 7) (fu_payloads fu f bs) = f # replicate (length bs - 1) False \<and>
      map (\<lambda>p. bit (p ! i) 6) (fu_payloads fu f bs) = replicate (length bs - 1) False @ [True]" for f
  proof (induction bs arbitrary: f)
    case (Cons b bs)
    then show ?case by (cases bs) (simp_all add: assms(1,2))
  qed simp
  with assms(3) show ?thesis by (simp add: fu_complete_def)
qed

lemma blocks_Nil_iff: "0 < n \<Longrightarrow> blocks n xs = [] \<longleftrightarrow> xs = []"
  by (subst blocks.simps) simp

lemma h264_depacketize_fu:
  assumes "ps \<noteq> []" and "\<And>q. q \<in> set ps \<Longrightarrow> q \<noteq> [] \<and> q ! 0 = i \<and> q ! 1 AND 0x1F = t"
    and "i AND 0x1F = 28" and "fu_complete 1 ps"
  shows "h264_depacketize ps = Some ((i AND 0xE0 OR t) # concat (map (drop 2) ps))"
proof -
  obtain p qs where ps: "ps = p # qs" using assms(1) by (cases ps) auto
  then have "hd p = i" "p ! 0 = i" "p ! 1 AND 0x1F = t"
    using assms(2) [of p] by (auto simp: hd_conv_nth)
  moreover have "list_all (\<lambda>q. q ! 0 = i \<and> q ! 1 AND 0x1F = t) ps" using assms(2) by (simp add: list_all_iff)
  ultimately show ?thesis using assms(3,4) ps by (simp add: h264_depacketize_def)
qed

lemma h265_depacketize_fu:
  assumes "ps \<noteq> []" and "\<And>q. q \<in> set ps \<Longrightarrow> q \<noteq> [] \<and> q ! 0 = i \<and> q ! 1 = j \<and> q ! 2 AND 0x3F = t"
    and "drop_bit 1 i AND 0x3F = 49" and "fu_complete 2 ps"
  shows "h265_depacketize ps = Some ((i AND 0x81 OR push_bit 1 t) # j # concat (map (drop 3) ps))"
proof -
  obtain p qs where ps: "ps = p # qs" using assms(1) by (cases ps) auto
  then have "hd p = i" "p ! 0 = i" "p ! 1 = j" "p ! 2 AND 0x3F = t"
    using assms(2) [of p] by (auto simp: hd_conv_nth)
  moreover have "list_all (\<lambda>q. q ! 0 = i \<and> q ! 1 = j \<and> q ! 2 AND 0x3F = t) ps"
    using assms(2) by (simp add: list_all_iff)
  ultimately show ?thesis using assms(3,4) ps by (simp add: h265_depacketize_def)
qed

lemma bit_of_masked: "x AND m = 0 \<Longrightarrow> bit m n \<Longrightarrow> \<not> bit (x :: u8) n"
  by (metis bit_0_eq bit_and_iff bot_apply bot_bool_def)

lemma h264_fu_depacketize:
  assumes "x AND 0x80 = 0" and "rest \<noteq> []"
  shows "h264_depacketize (fu_payloads (fu_a (x AND 0x60) (x AND 0x1F)) True (blocks 1186 rest)) =
    Some (x # rest)"
proof -
  let ?f = "fu_a (x AND 0x60) (x AND 0x1F)" and ?bs = "blocks 1186 rest"
  have ne: "?bs \<noteq> []" using assms(2) by (simp add: blocks_Nil_iff)
  have x7: "\<not> bit x 7" using bit_of_masked [OF assms(1), of 7] by simp
  have ind: "(x AND 0x60 OR 28) AND 0x1F = 28" "(x AND 0x60 OR 28) AND 0xE0 OR x AND 0x1F = x"
    using x7 by (rule_tac [!] byte_eqI) (simp_all add: bit_and_iff bit_or_iff)
  have hdr: "((if s then 0x80 else 0) OR (if e then 0x40 else 0) OR x AND 0x1F) AND 0x1F = x AND 0x1F" for s e
    by (rule byte_eqI) (simp_all add: bit_and_iff bit_or_iff)
  have "fu_complete 1 (fu_payloads ?f True ?bs)"
    using ne by (intro fu_payloads_complete) (auto simp: fu_a_def bit_and_iff bit_or_iff)
  moreover have "q \<noteq> [] \<and> q ! 0 = x AND 0x60 OR 28 \<and> q ! 1 AND 0x1F = x AND 0x1F"
    if "q \<in> set (fu_payloads ?f True ?bs)" for q
    using fu_payloads_in [OF that] hdr by (auto simp: fu_a_def simp del: if_split)
  moreover have "concat (map (drop 2) (fu_payloads ?f True ?bs)) = rest"
    by (subst fu_payloads_concat) (simp_all add: fu_a_def)
  ultimately show ?thesis
    using ind ne h264_depacketize_fu [of "fu_payloads ?f True ?bs"] by simp
qed

text \<open>The header bytes of an H.265 fragment.\<close>

definition fu_265_of :: "u8 \<Rightarrow> u8 \<Rightarrow> bool \<Rightarrow> bool \<Rightarrow> bytes" where
  "fu_265_of x y =
     (let h = push_bit 8 (ucast x) OR ucast y :: u16
      in fu_265 (push_bit 9 49 OR push_bit 3 (drop_bit 3 h AND 0x3F) OR (h AND 0x07))
           (ucast (drop_bit 9 h AND 0x3F)))"

lemma fu_265_of_bytes:
  "fu_265_of x y s e =
     [0x62 OR (x AND 1), y,
      (drop_bit 1 x AND 0x3F) OR (if s then 0x80 else 0) OR (if e then 0x40 else 0)]"
proof -
  let ?h = "push_bit 8 (ucast x) OR ucast y :: u16"
  have m: "(0x3F :: u16) = mask 6" "(0x07 :: u16) = mask 3" "(0x3F :: u8) = mask 6" "(1 :: u8) = mask 1"
    by (simp_all add: mask_eq_exp_minus_1)
  have t: "ucast (drop_bit 9 ?h AND 0x3F) = drop_bit 1 x AND 0x3F"
    unfolding m by (rule bit_word_eqI) (auto simp: bit_simps dest: byte_bit_less)
  have lo: "ucast (push_bit 9 49 OR push_bit 3 (drop_bit 3 ?h AND 0x3F) OR (?h AND 0x07) :: u16) = y"
    by (rule byte_eqI) (simp_all add: bit_simps)
  have y8: "\<not> bit y 8" using byte_bit_less [of y 8] by auto
  have hi: "ucast (drop_bit 8 (push_bit 9 49 OR push_bit 3 (drop_bit 3 ?h AND 0x3F) OR (?h AND 0x07) :: u16)) =
      0x62 OR (x AND 1)"
    using y8 by (intro byte_eqI) (simp_all add: bit_simps)
  show ?thesis by (simp only: fu_265_of_def Let_def fu_265_def be16_def t lo hi append_Cons append_Nil)
qed

lemma h265_fu_depacketize:
  assumes "x AND 0x80 = 0" and "rest \<noteq> []"
  shows "h265_depacketize (fu_payloads (fu_265_of x y) True (blocks 1185 rest)) = Some (x # y # rest)"
proof -
  let ?f = "fu_265_of x y" and ?bs = "blocks 1185 rest"
  have ne: "?bs \<noteq> []" using assms(2) by (simp add: blocks_Nil_iff)
  have x7: "\<not> bit x 7" using bit_of_masked [OF assms(1), of 7] by simp
  have ind: "drop_bit 1 (0x62 OR (x AND 1)) AND 0x3F = 49"
    "(0x62 OR (x AND 1)) AND 0x81 OR push_bit 1 (drop_bit 1 x AND 0x3F) = x"
    using x7
    by (rule_tac [!] byte_eqI) (simp_all only: bit_or_iff bit_and_iff bit_push_bit_iff bit_drop_bit_eq o_def, simp_all add: eval_nat_numeral)
  have hdr: "(drop_bit 1 x AND 0x3F OR (if s then 0x80 else 0) OR (if e then 0x40 else 0)) AND 0x3F =
      drop_bit 1 x AND 0x3F" for s e
    by (rule byte_eqI) (simp_all add: bit_simps)
  have complete: "fu_complete 2 (fu_payloads ?f True ?bs)"
    using ne by (intro fu_payloads_complete) (auto simp: fu_265_of_bytes bit_simps)
  have el: "q \<noteq> [] \<and> q ! 0 = 0x62 OR (x AND 1) \<and> q ! 1 = y \<and> q ! 2 AND 0x3F = drop_bit 1 x AND 0x3F"
    if "q \<in> set (fu_payloads ?f True ?bs)" for q
    using fu_payloads_in [OF that] hdr by (auto simp: fu_265_of_bytes simp del: if_split)
  have all: "concat (map (drop 3) (fu_payloads ?f True ?bs)) = rest"
    by (subst fu_payloads_concat) (simp_all add: fu_265_of_bytes)
  have "fu_payloads ?f True ?bs \<noteq> []" using ne by simp
  from h265_depacketize_fu [OF this el ind(1) complete] show ?thesis by (simp only: ind(2) all)
qed

section \<open>A NAL unit through \<open>send_rtp_packet\<close>\<close>

definition sendable :: "rtsp_client \<Rightarrow> bool" where
  "sendable c \<longleftrightarrow>
     client_state c = RTSP_CLIENT_STATE_PLAYING \<and>
     (transport_mode c = RTSP_TRANSPORT_TCP \<or> 0 \<le> rtp_socket_fd c)"

lemma fu_sizes:
  assumes "\<And>s e. length (fu s e) = h" and "h + n \<le> 1188"
  shows "list_all (\<lambda>p. length p \<le> 1188) (fu_payloads fu f (blocks n rest))"
  unfolding list_all_iff
proof
  fix p assume "p \<in> set (fu_payloads fu f (blocks n rest))"
  then obtain s e b where "b \<in> set (blocks n rest)" "p = fu s e @ b" using fu_payloads_in by blast
  with blocks_size [of b n rest] assms show "length p \<le> 1188" by auto
qed

lemma wire_next [simp]: "wire_h264 (c\<lparr>rtp_seq := s\<rparr>) = wire_h264 c"
  by (simp add: wire_h264_def interleaved_header_def fun_eq_iff)

lemma single_good:
  assumes "sendable c"
  shows "snd (transmit_single good_net (next_seq c) (rtp_header pt m ts c @ p)) =
    c\<lparr>rtp_seq := rtp_seq c + 1, outbox := outbox c @ concat (map (wire_h264 c) (rtp_packets pt m ts c [p]))\<rparr>"
  using assms by (subst transmit_single_good) (auto simp: sendable_def next_seq_def)

lemma send_h264_good:
  assumes "sendable c" and "client_codec c = VIDEO_CODEC_H264" and "nal \<noteq> []" and "skip_start_code nal = nal"
    and "length nal \<le> 307200"
  defines "pl \<equiv> (if length nal \<le> 1186 then [nal]
    else fu_payloads (fu_a (hd nal AND 0x60) (hd nal AND 0x1F)) True (blocks 1186 (tl nal)))"
  shows "snd (send_rtp_packet good_net c nal ts m) =
    c\<lparr>rtp_seq := rtp_seq c + of_nat (length pl),
      outbox := outbox c @ concat (map (wire_h264 c) (rtp_packets 96 m ts c pl))\<rparr>"
proof -
  have "client_state c = RTSP_CLIENT_STATE_PLAYING" using assms(1) by (simp add: sendable_def)
  then show ?thesis
    using assms single_good [OF assms(1), of 96 m ts nal]
    by (simp add: send_rtp_packet_def send_h264_fragmented_rtp_def Let_def transmit_h264_good
        h264_fu.loop_sends) (simp add: next_seq_def)
qed

lemma wire_265_next [simp]: "wire_h265 (c\<lparr>rtp_seq := s\<rparr>) = wire_h265 c"
  by (simp add: wire_h265_def interleaved_header_def fun_eq_iff)

lemma send_h265_good:
  assumes "sendable c" and "client_codec c = VIDEO_CODEC_H265" and "2 \<le> length nal" and "skip_start_code nal = nal"
  defines "pl \<equiv> (if length nal \<le> 1185 then [nal]
    else fu_payloads (fu_265_of (nal ! 0) (nal ! 1)) True (blocks 1185 (drop 2 nal)))"
  shows "snd (send_rtp_packet good_net c nal ts m) =
    c\<lparr>rtp_seq := rtp_seq c + of_nat (length pl),
      outbox := outbox c @ concat (map (if length nal \<le> 1184 then wire_h264 c else wire_h265 c)
        (rtp_packets 97 m ts c pl))\<rparr>"
proof -
  have "client_state c = RTSP_CLIENT_STATE_PLAYING" using assms(1) by (simp add: sendable_def)
  then show ?thesis
    using assms single_good [OF assms(1), of 97 m ts nal]
    by (simp add: send_rtp_packet_def send_h265_fragmented_rtp_def Let_def transmit_h265_good
        h265_fu.loop_sends fu_265_of_def [abs_def]) (simp add: next_seq_def)
qed

text \<open>What a receiver sees of a list of packets that carries a NAL unit.\<close>

definition carries :: "(bytes list \<Rightarrow> bytes option) \<Rightarrow> bytes \<Rightarrow> bool \<Rightarrow> u32 \<Rightarrow> u16 \<Rightarrow> bytes list \<Rightarrow> bool" where
  "carries depacketize nal m ts sq ps \<longleftrightarrow>
     depacketize (map rtp_payload ps) = Some nal \<and>
     list_all (\<lambda>p. length p \<le> 1200 \<and> rtp_time p = ts) ps \<and>
     map rtp_sequence ps = map (\<lambda>i. sq + of_nat i) [0..<length ps] \<and>
     map rtp_marker ps = replicate (length ps - 1) False @ [m]"

lemma rtp_packets_time: "list_all (\<lambda>p. rtp_time p = ts) (rtp_packets pt m ts c ps)"
  by (induction ps arbitrary: c) (simp_all add: rtp_packet_view)

lemma packets_carry:
  assumes "depacketize pl = Some nal" and "pl \<noteq> []" and "\<not> bit pt 7" and "list_all (\<lambda>p. length p \<le> 1188) pl"
  shows "carries depacketize nal m ts (rtp_seq c) (rtp_packets pt m ts c pl)"
  using assms rtp_packets_sizes [OF assms(4), of pt m ts c] rtp_packets_time [of ts pt m c pl]
  by (simp add: carries_def rtp_packets_payload rtp_packets_marker rtp_packets_sequence list_all_iff)

lemma h264_unit_sent:
  assumes "sendable c" and "client_codec c = VIDEO_CODEC_H264" and "nal \<noteq> []" and "skip_start_code nal = nal"
    and "length nal \<le> 307200" and "hd nal AND 0x80 = 0" and "hd nal AND 0x1F \<noteq> 28"
    and "c' = snd (send_rtp_packet good_net c nal ts m)"
  shows "\<exists>ps. outbox c' = outbox c @ concat (map (wire_h264 c) ps) \<and>
    rtp_seq c' = rtp_seq c + of_nat (length ps) \<and> carries h264_depacketize nal m ts (rtp_seq c) ps"
proof -
  let ?pl = "if length nal \<le> 1186 then [nal]
    else fu_payloads (fu_a (hd nal AND 0x60) (hd nal AND 0x1F)) True (blocks 1186 (tl nal))"
  have "1186 < length nal \<Longrightarrow> tl nal \<noteq> []" by (cases nal) auto
  then have "h264_depacketize ?pl = Some nal"
    using assms(3,7) h264_fu_depacketize [OF assms(6), of "tl nal"]
    by (simp add: h264_depacketize_def)
  moreover have "?pl \<noteq> []"
    using \<open>1186 < length nal \<Longrightarrow> tl nal \<noteq> []\<close> by (auto simp: blocks_Nil_iff)
  moreover have "list_all (\<lambda>p. length p \<le> 1188) ?pl"
    using fu_sizes [where fu = "fu_a (hd nal AND 0x60) (hd nal AND 0x1F)" and h = 2 and n = 1186]
    by (auto simp: fu_a_def)
  ultimately have "carries h264_depacketize nal m ts (rtp_seq c) (rtp_packets 96 m ts c ?pl)"
    by (intro packets_carry) auto
  with send_h264_good [OF assms(1-5), of ts m] assms(8) show ?thesis
    by (intro exI [of _ "rtp_packets 96 m ts c ?pl"]) (simp only: rtp_packets_length, simp)
qed

section \<open>Properties\<close>

text \<open>
  C18. H.265: the same with a receiver that follows RFC 7798, for a NAL unit of at least two bytes, with a
  header that is not that of a fragment, and a client whose packets do not go through TLS: one over UDP, or over
  TCP without TLS. To a TLS client the fragments of a unit of more than 1184 bytes would go in the clear, which no
  receiver can put together: see \<open>h265_tls_in_the_clear\<close>.
\<close>

theorem h265_rtp_roundtrip:
  assumes "sendable c" and "client_codec c = VIDEO_CODEC_H265" and "2 \<le> length nal" and "skip_start_code nal = nal"
    and "hd nal AND 0x80 = 0" and "drop_bit 1 (hd nal) AND 0x3F \<noteq> 49"
    and "c' = snd (send_rtp_packet good_net c nal ts m)"
    and "transport_mode c = RTSP_TRANSPORT_UDP \<or> \<not> (use_tls c \<and> ssl_context c)"
  shows "\<exists>ps. outbox c' = outbox c @ concat (map (if length nal \<le> 1184 then wire_h264 c else wire_h265 c) ps) \<and>
    rtp_seq c' = rtp_seq c + of_nat (length ps) \<and> carries h265_depacketize nal m ts (rtp_seq c) ps"
proof -
  let ?pl = "if length nal \<le> 1185 then [nal]
    else fu_payloads (fu_265_of (nal ! 0) (nal ! 1)) True (blocks 1185 (drop 2 nal))"
  obtain x y rest where nal: "nal = x # y # rest"
    using assms(3) by (cases nal; cases "tl nal") auto
  then have ne: "1185 < length nal \<Longrightarrow> rest \<noteq> []" by (cases rest) auto
  have "h265_depacketize [nal] = Some nal" using assms(6) by (simp add: h265_depacketize_def)
  moreover have "h265_depacketize (fu_payloads (fu_265_of (nal ! 0) (nal ! 1)) True (blocks 1185 (drop 2 nal))) =
      Some nal" if "1185 < length nal"
    using nal assms(5) h265_fu_depacketize [of x rest y] ne [OF that] by simp
  ultimately have "h265_depacketize ?pl = Some nal" by simp
  moreover have "?pl \<noteq> []" using nal ne by (auto simp: blocks_Nil_iff)
  moreover have "list_all (\<lambda>p. length p \<le> 1188) ?pl"
    using fu_sizes [where fu = "fu_265_of (nal ! 0) (nal ! 1)" and h = 3 and n = 1185]
    by (auto simp: fu_265_of_bytes)
  ultimately have "carries h265_depacketize nal m ts (rtp_seq c) (rtp_packets 97 m ts c ?pl)"
    by (intro packets_carry) auto
  with send_h265_good [OF assms(1-4), of ts m] assms(7) show ?thesis
    by (intro exI [of _ "rtp_packets 97 m ts c ?pl"]) (simp only: rtp_packets_length, simp)
qed

definition sample_rtp_client :: rtsp_client where
  "sample_rtp_client =
     \<lparr>socket_fd = 7, client_state = RTSP_CLIENT_STATE_PLAYING, session_id = ''1234'', client_cseq = 4,
      rtp_port = 0, rtcp_port = 1, rtp_socket_fd = -1, rtp_seq = 65535, rtp_ssrc = 0xCAFE, video_channel = 0,
      client_codec = VIDEO_CODEC_H265, transport_mode = RTSP_TRANSPORT_TCP, last_activity_us = 0,
      client_active = True, needs_idr = False, idr_wait_start_us = 0, supports_backchannel = False,
      use_tls = True, ssl_context = True, peer_addr = 0x7F000001,
      rtp_addr = (0x7F000001, 0), rtp_timestamp = 0, request_buffer = [], closed_fds = [], outbox = []\<rparr>"

text \<open>A TLS client over TCP gets the fragments of a unit in the clear, outside its TLS records.\<close>

lemma h265_tls_in_the_clear:
  assumes "sendable c" and "client_codec c = VIDEO_CODEC_H265" and "1185 < length nal" and "skip_start_code nal = nal"
    and "transport_mode c = RTSP_TRANSPORT_TCP" and "use_tls c" and "ssl_context c"
  shows "\<exists>p ps. outbox (snd (send_rtp_packet good_net c nal ts m)) =
    outbox c @ Plain (interleaved_header c p) # Plain p # concat (map (wire_h265 c) ps)"
proof -
  let ?pl = "fu_payloads (fu_265_of (nal ! 0) (nal ! 1)) True (blocks 1185 (drop 2 nal))"
  have "drop 2 nal \<noteq> []" using assms(3) by simp
  then have "?pl \<noteq> []" by (auto simp: blocks_Nil_iff)
  then obtain q qs where "rtp_packets 97 m ts c ?pl = q # qs"
    using rtp_packets_length [of 97 m ts c ?pl] by (cases "rtp_packets 97 m ts c ?pl") auto
  with send_h265_good [OF assms(1,2) _ assms(4), of ts m] assms(3,5) show ?thesis
    by (intro exI [of _ q] exI [of _ qs]) (simp add: wire_h265_def)
qed

definition sample_265_unit :: bytes where
  "sample_265_unit = 0x26 # 1 # replicate 2000 0xAB"

theorem h265_rtp_roundtrip_witness:
  "\<exists>ps. outbox (snd (send_rtp_packet good_net (sample_rtp_client\<lparr>use_tls := False, ssl_context := False\<rparr>) sample_265_unit 9000 True)) =
      concat (map (wire_h265 (sample_rtp_client\<lparr>use_tls := False, ssl_context := False\<rparr>)) ps) \<and>
    carries h265_depacketize sample_265_unit True 9000 65535 ps"
proof -
  let ?c = "sample_rtp_client\<lparr>use_tls := False, ssl_context := False\<rparr>"
  have "sendable ?c" by (simp add: sendable_def sample_rtp_client_def)
  moreover have "skip_start_code sample_265_unit = sample_265_unit"
    by (simp add: skip_start_code_def start4_def start3_def sample_265_unit_def)
  moreover have "client_codec ?c = VIDEO_CODEC_H265" "rtp_seq ?c = 65535" "outbox ?c = []"
    by (simp_all add: sample_rtp_client_def)
  ultimately show ?thesis
    using h265_rtp_roundtrip [of ?c sample_265_unit, OF _ _ _ _ _ _ refl, of 9000 True]
    by (auto simp: sample_265_unit_def)
qed

text \<open>
  After a write over TLS fails with a protocol or system error, the next bytes for the client
  are written to its socket unencrypted.
\<close>

theorem tls_write_downgrade:
  assumes "use_tls c" and "ssl_context c" and "d \<noteq> []" and "e \<noteq> []"
    and "tls_send net (length (outbox c)) 0 d \<in> {SSL_ERROR_SSL, SSL_ERROR_SYSCALL}"
    and "c1 = snd (rtsp_client_tls_write net c d)"
  shows "fst (rtsp_client_tls_write net c d) = -1 \<and>
    (\<exists>n. outbox (snd (rtsp_client_tls_write net c1 e)) = outbox c @ [Plain (take n e)])"
proof -
  from assms(5) have "rtsp_client_tls_write net c d = (-1, c\<lparr>ssl_context := False, use_tls := False\<rparr>)"
    using assms(1-3) by (auto simp: rtsp_client_tls_write_def numeral_3_eq_3)
  with assms(4,6) show ?thesis
    by (auto simp: rtsp_client_tls_write_def send_plain_def Let_def put_out_def)
qed

theorem tls_write_downgrade_witness:
  "\<exists>n. outbox (snd (rtsp_client_tls_write
      (good_net\<lparr>tls_send := \<lambda>n k d. SSL_ERROR_SSL\<rparr>)
      (snd (rtsp_client_tls_write (good_net\<lparr>tls_send := \<lambda>n k d. SSL_ERROR_SSL\<rparr>) sample_rtp_client [1, 2])) [3, 4])) =
    [Plain (take n [3, 4])]"
  using tls_write_downgrade [of sample_rtp_client "[1, 2]" "[3, 4]" "good_net\<lparr>tls_send := \<lambda>n k d. SSL_ERROR_SSL\<rparr>", OF _ _ _ _ _ refl]
  by (simp add: sample_rtp_client_def)

end
