(* ===== verification/RtspFrames.thy ===== *)
theory RtspFrames
  imports RtpPacket
begin

text \<open>
  \<open>rtsp_server.c\<close>, from the encoded frame to the packets: RTP time stamps, cutting a frame into
  NAL units, sending it to one client, and to all clients that may have it.
\<close>

section \<open>Time stamps\<close>

record rtp_clock =
  last_frame_us :: u64
  base_timestamp :: u32
  clock_started :: bool

text \<open>\<open>now\<close> is the monotonic time, \<open>rnd\<close> the result of \<open>rand\<close>.\<close>

definition calculate_monotonic_rtp_timestamp :: "u64 \<Rightarrow> nat \<Rightarrow> rtp_clock \<Rightarrow> u32 \<times> rtp_clock" where
  "calculate_monotonic_rtp_timestamp now rnd k =
     (if \<not> clock_started k then
        (let base = word_of_nat (rnd mod 100000) in
         (base, \<lparr>last_frame_us = now, base_timestamp = base, clock_started = True\<rparr>))
      else
        (let elapsed_us = now - last_frame_us k;
             base = base_timestamp k + ucast ((elapsed_us * 90000) div 1000000)
         in (base, k\<lparr>last_frame_us := now, base_timestamp := base\<rparr>)))"

section \<open>Sending a frame to one client\<close>

text \<open>Start of a NAL unit: the sizes of those before it become known, the last one stays open.\<close>

definition close_nal :: "nat \<Rightarrow> (nat \<times> nat) list \<Rightarrow> (nat \<times> nat) list" where
  "close_nal off nals =
     (if nals = [] then [] else butlast nals @ [(fst (last nals), off - fst (last nals))])"

text \<open>
  The offsets and sizes found by \<open>send_frame_to_client\<close>. \<open>None\<close> is undefined behaviour: the 33rd
  NAL unit is stored behind the arrays of 32.
\<close>

function client_nals :: "bytes \<Rightarrow> nat \<Rightarrow> (nat \<times> nat) list \<Rightarrow> (nat \<times> nat) list option" where
  "client_nals d off nals =
     (if off < length d - 3 then
        if off < length d - 4 \<and> start4 d off then
          if 32 \<le> length nals then None
          else client_nals d (off + 4) (close_nal off nals @ [(off + 4, 0)])
        else if start3 d off then
          if 32 \<le> length nals then None
          else client_nals d (off + 3) (close_nal off nals @ [(off + 3, 0)])
        else client_nals d (off + 1) nals
      else Some (close_nal (length d) nals))"
  by pat_completeness auto
termination
  by (relation "measure (\<lambda>(d, off, nals). length d - off)") auto

declare client_nals.simps [simp del]

fun send_nals :: "net \<Rightarrow> bytes \<Rightarrow> u32 \<Rightarrow> (nat \<times> nat) list \<Rightarrow> rtsp_client \<Rightarrow> rtsp_client" where
  "send_nals net d ts [] c = c"
| "send_nals net d ts ((off, n) # nals) c =
     send_nals net d ts nals
       (if off < length d \<and> 0 < n
        then snd (send_rtp_packet net c (take n (drop off d)) ts (nals = []))
        else c)"

text \<open>
  The result, the clock of the channel and the client; \<open>None\<close> is undefined behaviour: also for a
  frame of less than 3 bytes, where \<open>frame_size - 3\<close> wraps around.
\<close>

definition send_frame_to_client ::
  "net \<Rightarrow> u64 \<Rightarrow> nat \<Rightarrow> rtp_clock \<Rightarrow> rtsp_client \<Rightarrow> bytes \<Rightarrow>
     (int \<times> rtp_clock \<times> rtsp_client) option" where
  "send_frame_to_client net now rnd k c d =
     (if d = [] then Some (0, k, c)
      else if client_state c \<noteq> RTSP_CLIENT_STATE_PLAYING then Some (0, k, c)
      else if length d < 3 then None
      else case client_nals d 0 [] of
        None \<Rightarrow> None
      | Some nals \<Rightarrow>
          (case calculate_monotonic_rtp_timestamp now rnd k of
             (ts, k1) \<Rightarrow> Some (int (length nals), k1, send_nals net d ts nals c)))"

section \<open>Sending a frame to all clients\<close>

record rtsp_media =
  clients :: "rtsp_client list"
  media_running :: bool
  clocks :: "rtp_clock list"

function server_nals :: "bytes \<Rightarrow> nat \<Rightarrow> (nat \<times> nat) list \<Rightarrow> (nat \<times> nat) list" where
  "server_nals d off nals =
     (if off < length d \<and> length nals < 100 then
        if off + 4 \<le> length d \<and> start4 d off
        then server_nals d (off + 4) (close_nal off nals @ [(off + 4, 0)])
        else if off + 3 \<le> length d \<and> start3 d off
        then server_nals d (off + 3) (close_nal off nals @ [(off + 3, 0)])
        else server_nals d (off + 1) nals
      else close_nal (length d) nals)"
  by pat_completeness auto
termination
  by (relation "measure (\<lambda>(d, off, nals). length d - off)") auto

declare server_nals.simps [simp del]

text \<open>\<open>hevc\<close>: the encoder of the channel reports H.265.\<close>

definition is_idr_nal :: "bool \<Rightarrow> bytes \<Rightarrow> bool" where
  "is_idr_nal hevc nal \<longleftrightarrow>
     (if hevc then 2 \<le> length nal \<and> (let t = drop_bit 1 (hd nal) AND 0x3F in 19 \<le> t \<and> t \<le> 21)
      else 1 \<le> length nal \<and> hd nal AND 0x1F = 5)"

definition is_parameter_nal :: "bool \<Rightarrow> bytes \<Rightarrow> bool" where
  "is_parameter_nal hevc nal \<longleftrightarrow>
     (if hevc then 2 \<le> length nal \<and> (let t = drop_bit 1 (hd nal) AND 0x3F in 32 \<le> t \<and> t \<le> 34)
      else 1 \<le> length nal \<and> (hd nal AND 0x1F = 7 \<or> hd nal AND 0x1F = 8))"

definition any_nal :: "(bytes \<Rightarrow> bool) \<Rightarrow> bytes \<Rightarrow> (nat \<times> nat) list \<Rightarrow> bool" where
  "any_nal P d nals =
     list_ex (\<lambda>(off, n). off < length d \<and> 0 < n \<and> P (take n (drop off d))) nals"

text \<open>One round of the loop over the clients: at time \<open>cur\<close>, with the time \<open>now\<close> for the stamp.\<close>

definition offer_frame ::
  "net \<Rightarrow> u32 \<Rightarrow> u64 \<Rightarrow> nat \<Rightarrow> bool \<Rightarrow> bool \<Rightarrow> int \<Rightarrow> bytes \<Rightarrow> rtp_clock \<Rightarrow> rtsp_client \<Rightarrow>
     (rtp_clock \<times> rtsp_client) option" where
  "offer_frame net cur now rnd is_idr has_params ch d k c =
     (if client_active c \<and> client_state c = RTSP_CLIENT_STATE_PLAYING \<and> video_channel c = ch then
        if needs_idr c then
          if 5000000 < cur - idr_wait_start_us c
          then map_option snd (send_frame_to_client net now rnd k (c\<lparr>needs_idr := False\<rparr>) d)
          else if is_idr
          then map_option (\<lambda>(r, k1, c1). (k1, c1\<lparr>needs_idr := False\<rparr>)) (send_frame_to_client net now rnd k c d)
          else if has_params
          then map_option snd (send_frame_to_client net now rnd k c d)
          else Some (k, c)
        else map_option snd (send_frame_to_client net now rnd k c d)
      else Some (k, c))"

fun offer_all ::
  "net \<Rightarrow> u32 \<Rightarrow> (nat \<Rightarrow> u64) \<Rightarrow> nat \<Rightarrow> bool \<Rightarrow> bool \<Rightarrow> int \<Rightarrow> bytes \<Rightarrow> nat \<Rightarrow> rtp_clock \<Rightarrow>
     rtsp_client list \<Rightarrow> (rtp_clock \<times> rtsp_client list) option" where
  "offer_all net cur nows rnd is_idr has_params ch d i k [] = Some (k, [])"
| "offer_all net cur nows rnd is_idr has_params ch d i k (c # cs) =
     (case offer_frame net cur (nows i) rnd is_idr has_params ch d k c of
        None \<Rightarrow> None
      | Some (k1, c1) \<Rightarrow>
          map_option (\<lambda>(k2, cs1). (k2, c1 # cs1))
            (offer_all net cur nows rnd is_idr has_params ch d (i + 1) k1 cs))"

text \<open>
  \<open>now\<close>, \<open>cur\<close> and \<open>nows\<close> are the times read on the way. \<open>None\<close> is undefined behaviour: a channel
  beyond the four clocks, or what \<open>send_frame_to_client\<close> runs into.
\<close>

definition rtsp_server_send_frame ::
  "net \<Rightarrow> u64 \<Rightarrow> u64 \<Rightarrow> (nat \<Rightarrow> u64) \<Rightarrow> nat \<Rightarrow> (int \<Rightarrow> bool) \<Rightarrow> 'a rtsp_media_scheme \<Rightarrow> int \<Rightarrow> bytes \<Rightarrow>
     (int \<times> 'a rtsp_media_scheme) option" where
  "rtsp_server_send_frame net now cur nows rnd hevc srv ch d =
     (if \<not> media_running srv \<or> d = [] then Some (0, srv)
      else if ch < 0 \<or> 4 \<le> ch then None
      else
        (case calculate_monotonic_rtp_timestamp now rnd (clocks srv ! nat ch) of
           (ts, k) \<Rightarrow>
             (let nals = server_nals d 0 [];
                  is_idr = any_nal (is_idr_nal (hevc ch)) d nals;
                  has_params = any_nal (is_parameter_nal (hevc ch)) d nals
              in map_option (\<lambda>(k1, cs). (0, srv\<lparr>clients := cs, clocks := (clocks srv)[nat ch := k1]\<rparr>))
                   (offer_all net (ucast cur) nows rnd is_idr has_params ch d 0 k (clients srv)))))"

section \<open>Scanning for NAL units\<close>

text \<open>Where the NAL units of a frame lie that starts at \<open>off\<close>.\<close>

fun nal_spans :: "nat \<Rightarrow> bytes list \<Rightarrow> (nat \<times> nat) list" where
  "nal_spans off [] = []"
| "nal_spans off (n # ns) = (off + 4, length n) # nal_spans (off + 4 + length n) ns"

text \<open>
  What the two scanning loops share; \<open>full\<close> is what they do with a further NAL unit when \<open>cap\<close> of
  them have been found.
\<close>

locale nal_scanner =
  fixes scan :: "bytes \<Rightarrow> nat \<Rightarrow> (nat \<times> nat) list \<Rightarrow> (nat \<times> nat) list option"
    and full :: "bytes \<Rightarrow> (nat \<times> nat) list \<Rightarrow> (nat \<times> nat) list option"
    and cap :: nat
  assumes scan_code: "off + 4 < length d \<Longrightarrow> start4 d off \<Longrightarrow> length nals < cap \<Longrightarrow>
      scan d off nals = scan d (off + 4) (close_nal off nals @ [(off + 4, 0)])"
    and scan_full: "off + 4 < length d \<Longrightarrow> start4 d off \<Longrightarrow> length nals = cap \<Longrightarrow> scan d off nals = full d nals"
    and scan_skip: "off < length d \<Longrightarrow> \<not> start4 d off \<Longrightarrow> \<not> start3 d off \<Longrightarrow> scan d off nals = scan d (off + 1) nals"
    and scan_end: "scan d (length d) nals = Some (close_nal (length d) nals)"
begin

lemma scan_inside:
  assumes "nal_unit n" and "i \<le> length n"
  shows "scan (pre @ n @ rest) (length pre + i) nals = scan (pre @ n @ rest) (length pre + length n) nals"
  using assms(2)
proof (induction "length n - i" arbitrary: i)
  case (Suc k)
  then have "i < length n" by simp
  with scan_skip [OF _ inside_no_code [OF assms(1) this, of pre rest]] Suc.hyps(1) [of "Suc i"] Suc.hyps(2)
  show ?case by simp
qed simp

lemma scan_unit:
  assumes "nal_unit n" and "length nals < cap"
  shows "scan (pre @ annex_b (n # ns)) (length pre) nals =
    scan ((pre @ [0, 0, 0, 1] @ n) @ annex_b ns) (length (pre @ [0, 0, 0, 1] @ n))
      (close_nal (length pre) nals @ [(length pre + 4, 0)])"
proof -
  let ?s = "pre @ [0, 0, 0, 1]"
  have "scan (?s @ n @ annex_b ns) (length pre) nals =
      scan (?s @ n @ annex_b ns) (length pre + 4) (close_nal (length pre) nals @ [(length pre + 4, 0)])"
    using assms by (intro scan_code) (auto simp: nal_unit_def start4_def nth_append)
  also have "\<dots> = scan (?s @ n @ annex_b ns) (length ?s + length n)
      (close_nal (length pre) nals @ [(length pre + 4, 0)])"
    using scan_inside [OF assms(1), of 0 ?s "annex_b ns"] by (simp add: numeral_eq_Suc)
  finally show ?thesis by simp
qed

lemma close_snoc: "close_nal off (xs @ [(o', z)]) = xs @ [(o', off - o')]"
  by (simp add: close_nal_def)

lemma length_close [simp]: "length (close_nal off xs) = length xs"
  by (cases xs rule: rev_cases) (simp_all add: close_nal_def)

lemma scan_annex_b:
  "list_all nal_unit ns \<Longrightarrow> length nals + length ns \<le> cap \<Longrightarrow>
     scan (pre @ annex_b ns) (length pre) nals =
       Some (close_nal (length pre) nals @ nal_spans (length pre) ns)"
proof (induction ns arbitrary: pre nals)
  case Nil
  then show ?case using scan_end [of pre nals] by simp
next
  case (Cons n ns)
  then have "scan (pre @ annex_b (n # ns)) (length pre) nals =
      Some (close_nal (length (pre @ [0, 0, 0, 1] @ n)) (close_nal (length pre) nals @ [(length pre + 4, 0)]) @
        nal_spans (length (pre @ [0, 0, 0, 1] @ n)) ns)"
    using Cons.IH [of "close_nal (length pre) nals @ [(length pre + 4, 0)]" "pre @ [0, 0, 0, 1] @ n"]
      scan_unit [of n nals pre ns] by simp
  then show ?case by (simp add: close_snoc eval_nat_numeral)
qed

lemma scan_too_many:
  "list_all nal_unit ns \<Longrightarrow> length nals \<le> cap \<Longrightarrow> cap < length nals + length ns \<Longrightarrow>
     \<exists>nals'. scan (pre @ annex_b ns) (length pre) nals = full (pre @ annex_b ns) nals'"
proof (induction ns arbitrary: pre nals)
  case (Cons n ns)
  show ?case
  proof (cases "length nals = cap")
    case True
    then have "scan (pre @ annex_b (n # ns)) (length pre) nals = full (pre @ annex_b (n # ns)) nals"
      using Cons.prems by (intro scan_full) (auto simp: nal_unit_def start4_def nth_append)
    then show ?thesis by blast
  next
    case False
    then show ?thesis
      using Cons.IH [of "close_nal (length pre) nals @ [(length pre + 4, 0)]" "pre @ [0, 0, 0, 1] @ n"]
        Cons.prems scan_unit [of n nals pre ns] by simp
  qed
qed simp

end

interpretation client_scan: nal_scanner client_nals "\<lambda>d nals. None" 32
proof (unfold_locales, goal_cases)
  case (3 off d nals)
  then show ?case
    by (cases "off < length d - 3") (simp_all add: client_nals.simps [of d off] client_nals.simps [of d "Suc off"])
qed (simp_all add: client_nals.simps less_diff_conv)

interpretation server_scan: nal_scanner "\<lambda>d off nals. Some (server_nals d off nals)"
  "\<lambda>d nals. Some (close_nal (length d) nals)" 100
proof (unfold_locales, goal_cases)
  case (3 off d nals)
  then show ?case
    by (cases "length nals < 100") (simp_all add: server_nals.simps [of d off] server_nals.simps [of d "Suc off"])
qed (simp_all add: server_nals.simps)

section \<open>Frames of NAL units\<close>

text \<open>The units of a frame handed to \<open>send_rtp_packet\<close> one by one, the marker with the last.\<close>

fun send_units :: "net \<Rightarrow> u32 \<Rightarrow> bytes list \<Rightarrow> rtsp_client \<Rightarrow> rtsp_client" where
  "send_units net ts [] c = c"
| "send_units net ts (n # ns) c = send_units net ts ns (snd (send_rtp_packet net c n ts (ns = [])))"

lemma nal_spans_Nil [simp]: "nal_spans off ns = [] \<longleftrightarrow> ns = []"
  by (cases ns) simp_all

lemma length_nal_spans [simp]: "length (nal_spans off ns) = length ns"
  by (induction ns arbitrary: off) simp_all

lemma send_nals_spans:
  "list_all nal_unit ns \<Longrightarrow>
     send_nals net (pre @ annex_b ns) ts (nal_spans (length pre) ns) c = send_units net ts ns c"
proof (induction ns arbitrary: pre c)
  case (Cons n ns)
  from Cons.prems have "n \<noteq> []" "list_all nal_unit ns" by (simp_all add: nal_unit_def [of n])
  with Cons.IH [of "pre @ [0, 0, 0, 1] @ n"] show ?case by (simp add: eval_nat_numeral)
qed simp

lemma any_nal_spans:
  "list_all nal_unit ns \<Longrightarrow> any_nal P (pre @ annex_b ns) (nal_spans (length pre) ns) = list_ex P ns"
proof (induction ns arbitrary: pre)
  case (Cons n ns)
  from Cons.prems have "n \<noteq> []" "list_all nal_unit ns" by (simp_all add: nal_unit_def [of n])
  with Cons.IH [of "pre @ [0, 0, 0, 1] @ n"] show ?case by (simp add: any_nal_def eval_nat_numeral)
qed (simp add: any_nal_def)

lemma client_nals_annex_b:
  assumes "list_all nal_unit ns"
  shows "client_nals (annex_b ns) 0 [] = (if 32 < length ns then None else Some (nal_spans 0 ns))"
  using client_scan.scan_annex_b [OF assms, of "[]" "[]"] client_scan.scan_too_many [OF assms, of "[]" "[]"]
  by (auto simp: close_nal_def)

lemma server_nals_annex_b:
  assumes "list_all nal_unit ns" and "length ns \<le> 100"
  shows "server_nals (annex_b ns) 0 [] = nal_spans 0 ns"
  using server_scan.scan_annex_b [OF assms(1), of "[]" "[]"] assms(2) by (simp add: close_nal_def)

lemma send_frame_annex_b:
  assumes "list_all nal_unit ns" and "ns \<noteq> []" and "client_state c = RTSP_CLIENT_STATE_PLAYING"
  shows "send_frame_to_client net now rnd k c (annex_b ns) =
    (if 32 < length ns then None
     else Some (int (length ns), snd (calculate_monotonic_rtp_timestamp now rnd k),
                send_units net (fst (calculate_monotonic_rtp_timestamp now rnd k)) ns c))"
proof -
  have "annex_b ns \<noteq> []" "\<not> length (annex_b ns) < 3" using assms(2) by (cases ns; simp)+
  with assms client_nals_annex_b [OF assms(1)] send_nals_spans [OF assms(1), of net "[]"] show ?thesis
    by (simp add: send_frame_to_client_def split: prod.split)
qed

section \<open>The receiver's view of a frame\<close>

definition h264_unit_ok :: "bytes \<Rightarrow> bool" where
  "h264_unit_ok n \<longleftrightarrow> nal_unit n \<and> length n \<le> 307200 \<and> hd n AND 0x80 = 0 \<and> hd n AND 0x1F \<noteq> 28"

lemma skip_start_code_unit: "nal_unit n \<Longrightarrow> skip_start_code n = n"
  using inside_no_code [of n 0 "[]" "[]"] by (auto simp: skip_start_code_def nal_unit_def)

lemma only_sent_fields:
  assumes "only_sent c c1"
  shows "sendable c1 = sendable c" "client_codec c1 = client_codec c" "needs_idr c1 = needs_idr c"
    "client_state c1 = client_state c" "client_active c1 = client_active c" "video_channel c1 = video_channel c"
    "idr_wait_start_us c1 = idr_wait_start_us c"
  using assms by (cases c; cases c1; simp add: only_sent_def sendable_def)+

lemma only_sent_units: "only_sent c (send_units net ts ns c)"
proof (induction ns arbitrary: c)
  case (Cons n ns)
  show ?case by (simp only: send_units.simps) (rule only_sent_trans [OF only_sent_packet Cons])
qed simp

lemma only_sent_nals: "only_sent c (send_nals net d ts nals c)"
proof (induction nals arbitrary: c)
  case (Cons x nals)
  show ?case
    using Cons [of c] only_sent_trans [OF only_sent_packet Cons] by (cases x) simp
qed simp

lemma h264_unit_packets:
  assumes "sendable c" and "client_codec c = VIDEO_CODEC_H264" and "h264_unit_ok n"
  obtains ps where "outbox (snd (send_rtp_packet good_net c n ts m)) = outbox c @ concat (map (wire_h264 c) ps)"
    and "rtp_seq (snd (send_rtp_packet good_net c n ts m)) = rtp_seq c + of_nat (length ps)"
    and "carries h264_depacketize n m ts (rtp_seq c) ps"
proof -
  have "n \<noteq> []" "skip_start_code n = n" "length n \<le> 307200" "hd n AND 0x80 = 0" "hd n AND 0x1F \<noteq> 28"
    using assms(3) skip_start_code_unit by (auto simp: h264_unit_ok_def nal_unit_def)
  from h264_unit_sent [OF assms(1,2) this refl] that show ?thesis by blast
qed

lemma wire_only_sent:
  "only_sent c c1 \<Longrightarrow> use_tls c1 = use_tls c \<Longrightarrow> ssl_context c1 = ssl_context c \<Longrightarrow> wire_h264 c1 = wire_h264 c"
  by (cases c; cases c1)
    (simp add: only_sent_def wire_h264_def interleaved_header_def fun_eq_iff)

lemma good_net_keeps_tls:
  assumes "sendable c" and "client_codec c = VIDEO_CODEC_H264" and "h264_unit_ok n"
  shows "use_tls (snd (send_rtp_packet good_net c n ts m)) = use_tls c"
    "ssl_context (snd (send_rtp_packet good_net c n ts m)) = ssl_context c"
proof -
  have "n \<noteq> []" "skip_start_code n = n" "length n \<le> 307200"
    using assms(3) skip_start_code_unit by (auto simp: h264_unit_ok_def nal_unit_def)
  from send_h264_good [OF assms(1,2) this, of ts m] show
    "use_tls (snd (send_rtp_packet good_net c n ts m)) = use_tls c"
    "ssl_context (snd (send_rtp_packet good_net c n ts m)) = ssl_context c" by simp_all
qed

text \<open>
  \<open>pss\<close> are the packets of the units \<open>ns\<close>, unit by unit: numbered on from \<open>sq\<close>, the marker with the last
  packet of all only.
\<close>

fun carries_frame :: "u32 \<Rightarrow> u16 \<Rightarrow> bytes list \<Rightarrow> bytes list list \<Rightarrow> bool" where
  "carries_frame ts sq [] pss = (pss = [])"
| "carries_frame ts sq (n # ns) [] = False"
| "carries_frame ts sq (n # ns) (ps # pss) =
     (carries h264_depacketize n (ns = []) ts sq ps \<and> carries_frame ts (sq + of_nat (length ps)) ns pss)"

lemma send_units_carry:
  assumes "sendable c" and "client_codec c = VIDEO_CODEC_H264" and "list_all h264_unit_ok ns"
  shows "\<exists>pss. outbox (send_units good_net ts ns c) = outbox c @ concat (map (wire_h264 c) (concat pss)) \<and>
    carries_frame ts (rtp_seq c) ns pss"
  using assms
proof (induction ns arbitrary: c)
  case (Cons n ns)
  let ?c = "snd (send_rtp_packet good_net c n ts (ns = []))"
  from Cons.prems have n: "h264_unit_ok n" and ns: "list_all h264_unit_ok ns" by simp_all
  obtain ps where ps: "outbox ?c = outbox c @ concat (map (wire_h264 c) ps)"
    "rtp_seq ?c = rtp_seq c + of_nat (length ps)" "carries h264_depacketize n (ns = []) ts (rtp_seq c) ps"
    using h264_unit_packets [OF Cons.prems(1,2) n] .
  have same: "only_sent c ?c" by (rule only_sent_packet)
  have wire: "wire_h264 ?c = wire_h264 c"
    using wire_only_sent [OF same] good_net_keeps_tls [OF Cons.prems(1,2) n] by simp
  from Cons.IH [of ?c] Cons.prems(1,2) ns obtain pss where
    "outbox (send_units good_net ts ns ?c) = outbox ?c @ concat (map (wire_h264 ?c) (concat pss))"
    "carries_frame ts (rtp_seq ?c) ns pss"
    by (auto simp: only_sent_fields [OF same])
  with ps wire show ?case by (intro exI [of _ "ps # pss"]) simp
qed simp

section \<open>Which client gets a frame\<close>

lemma send_frame_only_sent:
  "send_frame_to_client net now rnd k c d = Some (r, k1, c1) \<Longrightarrow> only_sent c c1"
  by (auto simp: send_frame_to_client_def only_sent_nals split: if_splits option.splits prod.splits)

lemma send_frame_needs:
  "send_frame_to_client net now rnd k c d = Some (r, k1, c1) \<Longrightarrow> needs_idr c1 = needs_idr c"
  using only_sent_fields(3) [OF send_frame_only_sent] .

definition wants_frames :: "int \<Rightarrow> rtsp_client \<Rightarrow> bool" where
  "wants_frames ch c \<longleftrightarrow>
     client_active c \<and> client_state c = RTSP_CLIENT_STATE_PLAYING \<and> video_channel c = ch"

lemma offer_frame_spec:
  assumes "offer_frame net cur now rnd idr par ch d k c = Some (k1, c1)"
  shows "\<not> wants_frames ch c \<Longrightarrow> c1 = c"
    and "needs_idr c \<Longrightarrow> cur - idr_wait_start_us c \<le> 5000000 \<Longrightarrow> \<not> idr \<Longrightarrow> \<not> par \<Longrightarrow> c1 = c"
    and "wants_frames ch c \<Longrightarrow> idr \<Longrightarrow> \<not> needs_idr c1"
    and "\<not> needs_idr c \<Longrightarrow> \<not> needs_idr c1"
  using assms
  by (auto simp: offer_frame_def wants_frames_def dest!: send_frame_needs split: if_splits)

lemma offer_all_each:
  "offer_all net cur nows rnd idr par ch d i k cs = Some (k', cs') \<Longrightarrow>
     length cs' = length cs \<and>
     (j < length cs \<longrightarrow> (\<exists>now k0 k1. offer_frame net cur now rnd idr par ch d k0 (cs ! j) = Some (k1, cs' ! j)))"
proof (induction cs arbitrary: i k k' cs' j)
  case (Cons c cs)
  from Cons.prems obtain k1 c1 cs1 where f: "offer_frame net cur (nows i) rnd idr par ch d k c = Some (k1, c1)"
    "offer_all net cur nows rnd idr par ch d (i + 1) k1 cs = Some (k', cs1)" "cs' = c1 # cs1"
    by (auto split: option.splits)
  with Cons.IH [OF f(2)] show ?case by (cases j) auto
qed simp

section \<open>Properties\<close>

text \<open>
  C4. H.264 video end to end: from a frame of at most 32 NAL units, sent to a playing client over a
  working network, a receiver that follows RFC 6184 gets every NAL unit back byte for byte and in
  order, from packets of at most 1200 bytes with consecutive sequence numbers, one time stamp and
  the marker on the very last one only.
\<close>

theorem h264_frame_delivery:
  assumes "sendable c" and "client_codec c = VIDEO_CODEC_H264" and "ns \<noteq> []" and "length ns \<le> 32"
    and "list_all h264_unit_ok ns"
  shows "\<exists>k1 c1 ts pss. send_frame_to_client good_net now rnd k c (annex_b ns) = Some (int (length ns), k1, c1) \<and>
    outbox c1 = outbox c @ concat (map (wire_h264 c) (concat pss)) \<and> carries_frame ts (rtp_seq c) ns pss"
proof -
  have units: "list_all nal_unit ns" using assms(5) by (auto simp: list_all_iff h264_unit_ok_def)
  have "client_state c = RTSP_CLIENT_STATE_PLAYING" using assms(1) by (simp add: sendable_def)
  from send_frame_annex_b [OF units assms(3) this, of good_net now rnd k] assms(4)
    send_units_carry [OF assms(1,2,5)] show ?thesis by fastforce
qed

text \<open>
  C34. \<open>send_frame_to_client\<close> is the same as handing each NAL unit of the frame to \<open>send_rtp_packet\<close>
  in order, on any network, with one time stamp; with more than 32 units it overruns its arrays.
\<close>

theorem send_frame_equivalence:
  assumes "list_all nal_unit ns" and "ns \<noteq> []" and "client_state c = RTSP_CLIENT_STATE_PLAYING"
  shows "send_frame_to_client net now rnd k c (annex_b ns) =
    (if 32 < length ns then None
     else Some (int (length ns), snd (calculate_monotonic_rtp_timestamp now rnd k),
                send_units net (fst (calculate_monotonic_rtp_timestamp now rnd k)) ns c))"
  by (rule send_frame_annex_b [OF assms])

text \<open>
  Who gets a frame: a client that is not playing this channel stays as it is; one that waits for a
  key frame, for at most five seconds, gets nothing of a frame without IDR or parameter set units;
  an IDR frame ends the waiting, and nothing makes a client wait again.
\<close>

theorem rtsp_frame_gating:
  assumes "list_all nal_unit ns" and "length ns \<le> 100" and "ns \<noteq> []" and "media_running srv"
    and "rtsp_server_send_frame net now cur nows rnd hevc srv ch (annex_b ns) = Some (r, srv')"
    and "j < length (clients srv)" and "c = clients srv ! j" and "c' = clients srv' ! j"
  shows "r = 0 \<and> length (clients srv') = length (clients srv) \<and>
    (\<not> wants_frames ch c \<longrightarrow> c' = c) \<and>
    (needs_idr c \<and> ucast cur - idr_wait_start_us c \<le> 5000000 \<and>
       \<not> list_ex (\<lambda>n. is_idr_nal (hevc ch) n \<or> is_parameter_nal (hevc ch) n) ns \<longrightarrow> c' = c) \<and>
    (wants_frames ch c \<and> list_ex (is_idr_nal (hevc ch)) ns \<longrightarrow> \<not> needs_idr c') \<and>
    (\<not> needs_idr c \<longrightarrow> \<not> needs_idr c')"
proof -
  have ne: "annex_b ns \<noteq> []" using assms(3) by (cases ns) simp_all
  have nal: "any_nal P (annex_b ns) (server_nals (annex_b ns) 0 []) = list_ex P ns" for P
    using any_nal_spans [OF assms(1), of P "[]"] by (simp add: server_nals_annex_b [OF assms(1,2)])
  let ?idr = "list_ex (is_idr_nal (hevc ch)) ns" and ?par = "list_ex (is_parameter_nal (hevc ch)) ns"
  from assms(4,5) ne obtain k k' where
    o: "offer_all net (ucast cur) nows rnd ?idr ?par ch (annex_b ns) 0 k (clients srv) = Some (k', clients srv')"
    and r: "r = 0"
    by (auto simp: rtsp_server_send_frame_def nal Let_def split: if_splits prod.splits)
  from offer_all_each [OF o, of j] assms(6-8) obtain t k0 k1 where
    f: "offer_frame net (ucast cur) t rnd ?idr ?par ch (annex_b ns) k0 c = Some (k1, c')"
    and l: "length (clients srv') = length (clients srv)" by auto
  have "list_ex (\<lambda>n. is_idr_nal (hevc ch) n \<or> is_parameter_nal (hevc ch) n) ns = (?idr \<or> ?par)"
    by (auto simp: list_ex_iff)
  with offer_frame_spec [OF f] r l show ?thesis by blast
qed

definition sample_media_client :: rtsp_client where
  "sample_media_client =
     \<lparr>socket_fd = 7, client_state = RTSP_CLIENT_STATE_PLAYING, session_id = ''1234'', client_cseq = 4,
      rtp_port = 5000, rtcp_port = 5001, rtp_socket_fd = 9, rtp_seq = 65535, rtp_ssrc = 0xCAFE, video_channel = 0,
      client_codec = VIDEO_CODEC_H264, transport_mode = RTSP_TRANSPORT_UDP, last_activity_us = 0,
      client_active = True, needs_idr = True, idr_wait_start_us = 1000, supports_backchannel = False,
      use_tls = False, ssl_context = False, peer_addr = 0x7F000001,
      rtp_addr = (0x7F000001, 5000), rtp_timestamp = 0, request_buffer = [], closed_fds = [], outbox = []\<rparr>"

definition sample_units :: "bytes list" where
  "sample_units = [[0x67, 1, 2], [0x68, 3], [0x65, 4, 5, 6]]"

lemma sample_units_ok: "list_all h264_unit_ok sample_units" "list_all nal_unit sample_units"
  by (simp_all add: sample_units_def h264_unit_ok_def nal_unit_def)

definition fresh_clock :: rtp_clock where
  "fresh_clock = \<lparr>last_frame_us = 0, base_timestamp = 0, clock_started = False\<rparr>"

theorem h264_frame_delivery_witness:
  "\<exists>k1 c1 ts pss. send_frame_to_client good_net 5 7 fresh_clock sample_media_client (annex_b sample_units) =
      Some (3, k1, c1) \<and>
    outbox c1 = concat (map (wire_h264 sample_media_client) (concat pss)) \<and>
    carries_frame ts 65535 sample_units pss"
  using h264_frame_delivery [of sample_media_client sample_units 5 7 fresh_clock] sample_units_ok(1)
  by (simp add: sendable_def sample_media_client_def sample_units_def)

theorem send_frame_equivalence_witness:
  "send_frame_to_client good_net 5 7 fresh_clock sample_media_client (annex_b (replicate 33 [0x61, 1])) = None"
  using send_frame_equivalence [of "replicate 33 [0x61, 1]" sample_media_client good_net 5 7 fresh_clock]
  by (simp add: list_all_iff nal_unit_def sample_media_client_def)

theorem rtsp_frame_gating_witness:
  "\<exists>srv'. rtsp_server_send_frame good_net 5 2000 (\<lambda>i. 6) 7 (\<lambda>ch. False)
      \<lparr>clients = [sample_media_client], media_running = True, clocks = replicate 4 fresh_clock\<rparr> 0
      (annex_b [[0x61, 1]]) = Some (0, srv') \<and> clients srv' ! 0 = sample_media_client"
proof -
  let ?srv = "\<lparr>clients = [sample_media_client], media_running = True, clocks = replicate 4 fresh_clock\<rparr>"
  have "server_nals (annex_b [[0x61, 1]]) 0 [] = nal_spans 0 [[0x61, 1]]"
    by (rule server_nals_annex_b) (simp_all add: nal_unit_def)
  then obtain srv' where s: "rtsp_server_send_frame good_net 5 2000 (\<lambda>i. 6) 7 (\<lambda>ch. False) ?srv 0
      (annex_b [[0x61, 1]]) = Some (0, srv')"
    by (simp add: rtsp_server_send_frame_def any_nal_def is_idr_nal_def is_parameter_nal_def
        offer_frame_def sample_media_client_def calculate_monotonic_rtp_timestamp_def fresh_clock_def)
  from rtsp_frame_gating [OF _ _ _ _ s, of 0, OF _ _ _ _ _ refl refl] s show ?thesis
    by (simp add: nal_unit_def sample_media_client_def is_idr_nal_def is_parameter_nal_def)
qed

end
