(* ===== verification/RtspRequest.thy ===== *)
theory RtspRequest
  imports RtspFrames AuthUtils "HOL-Library.Monad_Syntax"
begin

text \<open>
  The texts of RTSP in \<open>rtsp_server.c\<close>: reading a request (method, URL, CSeq, Transport), finding the
  stream a URL names, and writing responses and session descriptions. Texts are C strings without
  their NUL; that they fit the buffers they are written to is proved in \<open>RtspServer\<close>.
\<close>

section \<open>Requests\<close>

datatype rtsp_method =
  RTSP_METHOD_UNKNOWN | RTSP_METHOD_OPTIONS | RTSP_METHOD_DESCRIBE | RTSP_METHOD_SETUP |
  RTSP_METHOD_PLAY | RTSP_METHOD_PAUSE | RTSP_METHOD_TEARDOWN | RTSP_METHOD_GET_PARAMETER |
  RTSP_METHOD_SET_PARAMETER

definition parse_rtsp_method :: "string \<Rightarrow> rtsp_method" where
  "parse_rtsp_method m =
     (if m = ''OPTIONS'' then RTSP_METHOD_OPTIONS
      else if m = ''DESCRIBE'' then RTSP_METHOD_DESCRIBE
      else if m = ''SETUP'' then RTSP_METHOD_SETUP
      else if m = ''PLAY'' then RTSP_METHOD_PLAY
      else if m = ''PAUSE'' then RTSP_METHOD_PAUSE
      else if m = ''TEARDOWN'' then RTSP_METHOD_TEARDOWN
      else RTSP_METHOD_UNKNOWN)"

definition parse_cseq :: "string \<Rightarrow> int" where
  "parse_cseq request =
     (case strstr request ''CSeq:'' of
        None \<Rightarrow> 0
      | Some i \<Rightarrow> (case scan_int (skip_space (drop (i + 5) request)) of None \<Rightarrow> 0 | Some (n, r) \<Rightarrow> n))"

text \<open>The method, the URL and the sequence number; \<open>None\<close> is -1.\<close>

definition parse_rtsp_request :: "string \<Rightarrow> (rtsp_method \<times> string \<times> int) option" where
  "parse_rtsp_request request =
     do {
       (method_str, r) \<leftarrow> scan_word 31 request;
       (url, r') \<leftarrow> scan_word 255 r;
       if starts_with ''RTSP/'' method_str then None
       else Some (parse_rtsp_method method_str, url, parse_cseq request)
     }"

text \<open>The value of the Transport header, at most 255 characters.\<close>

definition transport_header :: "string \<Rightarrow> string" where
  "transport_header request =
     (case strstr request ''Transport:'' of
        None \<Rightarrow> []
      | Some i \<Rightarrow>
          (case scan_set (\<lambda>c. c \<noteq> CHR 0x0D \<and> c \<noteq> CHR 0x0A) 255 (skip_space (drop (i + 10) request)) of
             None \<Rightarrow> []
           | Some (t, r) \<Rightarrow> t))"

text \<open>\<open>%*[^;];%*[^;];<key>%d-%d\<close>\<close>

definition scan_ports :: "string \<Rightarrow> string \<Rightarrow> (int \<times> int) option" where
  "scan_ports key t =
     do {
       (skipped, r1) \<leftarrow> scan_set (\<lambda>c. c \<noteq> CHR '';'') (length t) t;
       r2 \<leftarrow> scan_literal '';'' r1;
       (skipped, r3) \<leftarrow> scan_set (\<lambda>c. c \<noteq> CHR '';'') (length r2) r2;
       r4 \<leftarrow> scan_literal '';'' r3;
       r5 \<leftarrow> scan_literal key r4;
       (rtp, r6) \<leftarrow> scan_int r5;
       r7 \<leftarrow> scan_literal ''-'' r6;
       (rtcp, r8) \<leftarrow> scan_int r7;
       Some (rtp, rtcp)
     }"

section \<open>Streams\<close>

record video_stream =
  channel :: int
  stream_codec :: video_codec
  width :: int
  height :: int
  fps :: int
  bitrate :: int
  stream_name :: string
  stream_info :: string

definition find_stream :: "video_stream list \<Rightarrow> string \<Rightarrow> video_stream option" where
  "find_stream ss name = find (\<lambda>s. stream_name s = name) ss"

text \<open>\<open>strcasecmp(s, t) == 0\<close> and the codec of a configured format; \<open>None\<close> is \<open>abort\<close>.\<close>

definition to_lower :: "char \<Rightarrow> char" where
  "to_lower c = (let n = of_char c :: nat in if 65 \<le> n \<and> n \<le> 90 then char_of (n + 32) else c)"

definition same_ignoring_case :: "string \<Rightarrow> string \<Rightarrow> bool" where
  "same_ignoring_case s t \<longleftrightarrow> map to_lower s = map to_lower t"

definition string_to_video_codec :: "string option \<Rightarrow> video_codec option" where
  "string_to_video_codec format_str =
     (case format_str of
        None \<Rightarrow> Some VIDEO_CODEC_H264
      | Some f \<Rightarrow>
          if f = [] then Some VIDEO_CODEC_H264
          else if same_ignoring_case f ''H264'' then Some VIDEO_CODEC_H264
          else if same_ignoring_case f ''H265'' \<or> same_ignoring_case f ''HEVC'' then Some VIDEO_CODEC_H265
          else None)"

text \<open>\<open><scheme>%*[^/]/%s\<close>\<close>

definition scan_url :: "string \<Rightarrow> string \<Rightarrow> string option" where
  "scan_url scheme url =
     do {
       r1 \<leftarrow> scan_literal scheme url;
       (host, r2) \<leftarrow> scan_set (\<lambda>c. c \<noteq> CHR ''/'') (length r1) r1;
       r3 \<leftarrow> scan_literal ''/'' r2;
       (name, r4) \<leftarrow> scan_word (length r3) r3;
       Some name
     }"

definition extract_stream_name_from_url :: "video_stream list \<Rightarrow> string \<Rightarrow> string option" where
  "extract_stream_name_from_url ss url =
     (case scan_url ''rtsp://'' url of
        Some name \<Rightarrow> Some name
      | None \<Rightarrow>
          (case scan_url ''rtsps://'' url of
             Some name \<Rightarrow> Some name
           | None \<Rightarrow>
               (case do { r \<leftarrow> scan_literal ''/'' url; scan_word (length r) r } of
                  Some (name, r) \<Rightarrow> Some name
                | None \<Rightarrow> if ss = [] then None else Some (fit 256 (stream_name (hd ss))))))"

text \<open>The stream name without its track suffix, the track, and whether it is a backchannel.\<close>

definition split_track :: "string \<Rightarrow> string \<times> int \<times> bool" where
  "split_track name =
     (case strstr name ''/G711_audiobackchannel'' of
        Some i \<Rightarrow> (take i name, 3, True)
      | None \<Rightarrow>
     (case strstr name ''/G726_audiobackchannel'' of
        Some i \<Rightarrow> (take i name, 4, True)
      | None \<Rightarrow>
     (case strstr name ''/audio'' of
        Some i \<Rightarrow> (take i name, 2, False)
      | None \<Rightarrow>
     (case strstr name ''/track1'' of
        Some i \<Rightarrow> (take i name, 1, False)
      | None \<Rightarrow>
     (case strstr name ''/track2'' of
        Some i \<Rightarrow> (take i name, 2, False)
      | None \<Rightarrow>
     (case strstr name ''/trackID='' of
        Some i \<Rightarrow> (take i name, atoi (drop (i + 9) name), False)
      | None \<Rightarrow> (name, 0, False)))))))"

section \<open>Responses\<close>

definition response_text :: "nat \<Rightarrow> string \<Rightarrow> string \<Rightarrow> string option \<Rightarrow> rtsp_client \<Rightarrow> string" where
  "response_text status phrase headers body c =
     ''RTSP/1.0 '' @ decimal status @ '' '' @ phrase @ CRLF @
     ''CSeq: '' @ decimal_int (sint (client_cseq c)) @ CRLF @
     ''Server: Thingino RTSP Server'' @ CRLF @
     (if session_id c \<noteq> [] then ''Session: '' @ session_id c @ CRLF else []) @
     headers @
     (case body of
        None \<Rightarrow> CRLF
      | Some b \<Rightarrow>
          ''Content-Type: application/sdp'' @ CRLF @
          ''Content-Length: '' @ decimal (length b) @ CRLF @ CRLF @ b)"

definition send_rtsp_response ::
  "net \<Rightarrow> rtsp_client \<Rightarrow> nat \<Rightarrow> string \<Rightarrow> string \<Rightarrow> string option \<Rightarrow> c_int \<times> rtsp_client" where
  "send_rtsp_response net c status phrase headers body =
     (case rtsp_client_tls_write net c (map char_byte (response_text status phrase headers body c)) of
        (sent, c1) \<Rightarrow> (if sent < 0 then -1 else 0, c1))"

definition session_charset :: string where
  "session_charset = ''0123456789ABCDEFGHIJKLMNOPQRSTUVWXYZ''"

text \<open>31 characters, from the results of \<open>rand\<close>.\<close>

definition generate_session_id :: "(nat \<Rightarrow> nat) \<Rightarrow> string" where
  "generate_session_id rnd = map (\<lambda>i. session_charset ! (rnd i mod 36)) [0..<31]"

section \<open>Session descriptions\<close>

text \<open>The estimate in kbit/s; the product is one of 32-bit numbers.\<close>

definition video_bandwidth :: "video_stream \<Rightarrow> int" where
  "video_bandwidth s =
     (let b = sint (word_of_int (width s * height s * fps s) :: u32) div 1000
      in if b < 1000 then 1000 else if 10000 < b then 10000 else b)"

definition backchannel_media :: "string \<Rightarrow> string \<Rightarrow> string \<Rightarrow> string \<Rightarrow> string" where
  "backchannel_media m b rtpmap control =
     m @ CRLF @ ''c=IN IP4 0.0.0.0'' @ CRLF @ b @ CRLF @ rtpmap @ CRLF @ control"

text \<open>\<open>ip\<close> is the server's address, \<open>port\<close> its port, \<open>now\<close> the time in seconds; \<open>None\<close> is -1.\<close>

definition generate_sdp ::
  "video_stream list \<Rightarrow> string \<Rightarrow> int \<Rightarrow> int \<Rightarrow> string \<Rightarrow> bool \<Rightarrow> string option" where
  "generate_sdp ss ip port now name backchannel =
     (case find_stream ss name of
        None \<Rightarrow> None
      | Some s \<Rightarrow>
          (let sid = fit 16 (decimal_int now);
               pt = (case stream_codec s of VIDEO_CODEC_H264 \<Rightarrow> ''96'' | VIDEO_CODEC_H265 \<Rightarrow> ''97'');
               url = ''a=control:rtsp://'' @ ip @ '':'' @ decimal_int port @ ''/'' @ name
           in Some
             (''v=0'' @ CRLF @
              ''o=- '' @ sid @ '' '' @ sid @ '' IN IP4 '' @ ip @ CRLF @
              ''s=thingino '' @ stream_name s @ CRLF @
              ''i='' @ stream_name s @ CRLF @
              ''t=0 0'' @ CRLF @
              ''a=tool:Thingino Streamer v1.0'' @ CRLF @
              ''a=type:broadcast'' @ CRLF @
              ''a=control:*'' @ CRLF @
              ''a=range:npt=now-'' @ CRLF @
              ''a=x-qt-text-nam:thingino '' @ stream_name s @ CRLF @
              ''a=x-qt-text-inf:'' @ stream_name s @ CRLF @
              ''m=video 0 RTP/AVP '' @ pt @ CRLF @
              ''c=IN IP4 0.0.0.0'' @ CRLF @
              ''b=AS:'' @ decimal_int (video_bandwidth s) @ CRLF @
              (case stream_codec s of
                 VIDEO_CODEC_H264 \<Rightarrow>
                   ''a=rtpmap:96 H264/90000'' @ CRLF @
                   ''a=fmtp:96 profile-level-id=42e01f;packetization-mode=1'' @ CRLF
               | VIDEO_CODEC_H265 \<Rightarrow>
                   ''a=rtpmap:97 H265/90000'' @ CRLF @
                   ''a=fmtp:97 profile-space=0;profile-id=1;tier-flag=0;level-id=93'' @ CRLF) @
              ''a=control:track1'' @ CRLF @
              (if stream_info s \<noteq> [] then ''a=x-desc:'' @ stream_info s @ CRLF else []) @
              ''a=x-dimensions:'' @ decimal_int (width s) @ '','' @ decimal_int (height s) @ CRLF @
              ''a=framerate:'' @ decimal_int (fps s) @ CRLF @
              (if backchannel then
                 backchannel_media ''m=audio 0 RTP/AVP 0'' ''b=AS:64'' ''a=rtpmap:0 PCMU/8000''
                   (url @ ''/audio'' @ CRLF @ ''a=recvonly'' @ CRLF) @
                 backchannel_media ''m=audio 0 RTP/AVP 0'' ''b=AS:64'' ''a=rtpmap:0 PCMU/8000''
                   (url @ ''/G711_audiobackchannel'' @ CRLF @ ''a=sendonly'' @ CRLF) @
                 backchannel_media ''m=audio 98 RTP/AVP 98'' ''b=AS:32'' ''a=rtpmap:98 G726-16/8000''
                   (url @ ''/G726_audiobackchannel'' @ CRLF @ ''a=sendonly'' @ CRLF)
               else []))))"

section \<open>Finding headers\<close>

text \<open>Text without the pattern, up to a character that is not in the pattern, is passed over.\<close>

lemma starts_with_barrier: "c \<notin> set p \<Longrightarrow> starts_with p (u @ c # v) \<longleftrightarrow> starts_with p u"
proof
  assume c: "c \<notin> set p" and s: "starts_with p (u @ c # v)"
  have "length p \<le> length u"
  proof (rule ccontr)
    assume "\<not> length p \<le> length u"
    then have "c \<in> set (take (length p) (u @ c # v))" by (cases "length p - length u") auto
    with c s show False by (simp add: starts_with_def)
  qed
  with s show "starts_with p u" by (simp add: starts_with_def)
next
  assume "starts_with p u"
  then have "take (length p) u = p" by (simp add: starts_with_def)
  moreover from this have "length p \<le> length u" by (metis nat_le_linear take_all_iff)
  ultimately show "starts_with p (u @ c # v)" by (simp add: starts_with_def)
qed

lemma strstr_past:
  "c \<notin> set p \<Longrightarrow> strstr u p = None \<Longrightarrow> p \<noteq> [] \<Longrightarrow>
     strstr (u @ c # v) p = map_option ((+) (length u + 1)) (strstr v p)"
proof (induction u)
  case Nil
  then have "\<not> starts_with p (c # v)" using starts_with_barrier [of c p "[]" v] by (simp add: starts_with_def)
  then show ?case by (cases "strstr v p") simp_all
next
  case (Cons a u)
  have "\<not> starts_with p (a # u)" using Cons.prems(2) by (auto split: if_splits)
  then have "\<not> starts_with p ((a # u) @ c # v)" using starts_with_barrier [OF Cons.prems(1)] by blast
  moreover have "strstr u p = None" using Cons.prems(2) by (auto split: if_splits)
  ultimately show ?case
    using Cons.IH [OF Cons.prems(1) _ Cons.prems(3)] by (cases "strstr v p") simp_all
qed

lemma scan_literal_append [simp]: "scan_literal p (p @ s) = Some s"
  by (simp add: scan_literal_def)

lemma drop_behind: "length k = m \<Longrightarrow> drop (length p + m) (p @ k @ s) = s"
  by simp

lemma scan_set_upto:
  assumes "w \<noteq> []" and "list_all P w" and "length w \<le> n" and "s = [] \<or> \<not> P (hd s)"
  shows "scan_set P n (w @ s) = Some (w, s)"
proof -
  have "takeWhile P (w @ s) = w" using assms(2,4) by (cases s) (auto simp: takeWhile_append list_all_iff)
  with assms(1,3) show ?thesis by (simp add: scan_set_def Let_def)
qed

section \<open>Requests as clients write them\<close>

definition rtsp_method_name :: "rtsp_method \<Rightarrow> string" where
  "rtsp_method_name m =
     (case m of
        RTSP_METHOD_OPTIONS \<Rightarrow> ''OPTIONS'' | RTSP_METHOD_DESCRIBE \<Rightarrow> ''DESCRIBE''
      | RTSP_METHOD_SETUP \<Rightarrow> ''SETUP'' | RTSP_METHOD_PLAY \<Rightarrow> ''PLAY'' | RTSP_METHOD_PAUSE \<Rightarrow> ''PAUSE''
      | RTSP_METHOD_TEARDOWN \<Rightarrow> ''TEARDOWN'' | RTSP_METHOD_GET_PARAMETER \<Rightarrow> ''GET_PARAMETER''
      | RTSP_METHOD_SET_PARAMETER \<Rightarrow> ''SET_PARAMETER'' | RTSP_METHOD_UNKNOWN \<Rightarrow> ''*'')"

definition rtsp_request :: "rtsp_method \<Rightarrow> string \<Rightarrow> nat \<Rightarrow> string \<Rightarrow> string" where
  "rtsp_request m url n rest =
     rtsp_method_name m @ '' '' @ url @ '' RTSP/1.0'' @ CRLF @ ''CSeq: '' @ decimal n @ CRLF @ rest"

text \<open>The methods the server serves; the others it answers with 405.\<close>

definition served_method :: "rtsp_method \<Rightarrow> rtsp_method" where
  "served_method m =
     (if m \<in> {RTSP_METHOD_GET_PARAMETER, RTSP_METHOD_SET_PARAMETER} then RTSP_METHOD_UNKNOWN else m)"

definition plain_url :: "string \<Rightarrow> bool" where
  "plain_url url \<longleftrightarrow>
     url \<noteq> [] \<and> length url \<le> 255 \<and> list_all (\<lambda>c. \<not> isspace c) url \<and> strstr url ''CSeq:'' = None"

lemma parse_method_name: "parse_rtsp_method (rtsp_method_name m) = served_method m"
  by (cases m) (simp_all add: parse_rtsp_method_def rtsp_method_name_def served_method_def)

lemma method_word:
  "rtsp_method_name m \<noteq> []" "list_all (\<lambda>c. \<not> isspace c) (rtsp_method_name m)" "length (rtsp_method_name m) \<le> 31"
  "\<not> starts_with ''RTSP/'' (rtsp_method_name m)" "strstr (rtsp_method_name m) ''CSeq:'' = None"
  by (cases m; simp add: rtsp_method_name_def isspace_def starts_with_def)+

lemma cseq_found:
  assumes "plain_url url"
  shows "strstr (rtsp_request m url n rest) ''CSeq:'' =
    Some (length (rtsp_method_name m @ '' '' @ url @ '' RTSP/1.0'' @ CRLF))"
  using assms
  by (simp add: rtsp_request_def strstr_past method_word plain_url_def starts_with_def)

lemma parse_request:
  assumes "plain_url url" and "n < 2 ^ 31"
  shows "parse_rtsp_request (rtsp_request m url n rest) = Some (served_method m, url, int n)"
proof -
  have "scan_word 31 (rtsp_request m url n rest) =
      Some (rtsp_method_name m, '' '' @ url @ '' RTSP/1.0'' @ CRLF @ ''CSeq: '' @ decimal n @ CRLF @ rest)"
    unfolding rtsp_request_def using method_word(1-3) by (intro scan_word_first(1)) (auto simp: isspace_def [of "CHR '' ''"])
  moreover have "scan_word 255 ('' '' @ url @ '' RTSP/1.0'' @ CRLF @ ''CSeq: '' @ decimal n @ CRLF @ rest) =
      Some (url, '' RTSP/1.0'' @ CRLF @ ''CSeq: '' @ decimal n @ CRLF @ rest)"
    using scan_word_first(2) [of url 255] assms(1) by (simp add: plain_url_def isspace_def)
  moreover have "parse_cseq (rtsp_request m url n rest) = int n"
  proof -
    let ?pre = "rtsp_method_name m @ '' '' @ url @ '' RTSP/1.0'' @ CRLF"
    have "drop (length ?pre + 5) (rtsp_request m url n rest) = '' '' @ decimal n @ CRLF @ rest"
      by (simp add: rtsp_request_def eval_nat_numeral)
    moreover obtain d ds where d: "decimal n = d # ds" "\<not> isspace d"
      using decimal_digits [of n] digit_no_space by (cases "decimal n") auto
    then have "skip_space ('' '' @ decimal n @ CRLF @ rest) = decimal n @ CRLF @ rest"
      by (simp add: skip_space_def isspace_def)
    ultimately show ?thesis
      using scan_int_decimal(1) [of "CRLF @ rest" n] assms(2)
      by (simp add: parse_cseq_def cseq_found [OF assms(1)] isdigit_def)
  qed
  ultimately show ?thesis
    by (simp add: parse_rtsp_request_def method_word parse_method_name)
qed

lemma no_T_in_decimal: "CHR ''T'' \<notin> set (decimal n)"
  using decimal_digits(1) [of n] by (auto simp: list_all_iff isdigit_def)

lemma transport_found:
  assumes "plain_url url" and "strstr url ''Transport:'' = None"
    and "t \<noteq> []" and "length t \<le> 255" and "CHR 0x0D \<notin> set t" and "CHR 0x0A \<notin> set t" and "\<not> isspace (hd t)"
  shows "transport_header (rtsp_request m url n (''Transport: '' @ t @ CRLF @ rest)) = t"
proof -
  let ?pre = "rtsp_method_name m @ '' '' @ url @ '' RTSP/1.0'' @ CRLF @ ''CSeq: '' @ decimal n @ CRLF"
  let ?req = "rtsp_request m url n (''Transport: '' @ t @ CRLF @ rest)"
  have req: "?req = ?pre @ ''Transport:'' @ '' '' @ t @ CRLF @ rest" by (simp add: rtsp_request_def)
  have "strstr (rtsp_method_name m) ''Transport:'' = None"
    by (cases m) (simp_all add: rtsp_method_name_def starts_with_def)
  moreover have "strstr (decimal n @ CRLF @ ''Transport:'' @ '' '' @ t @ CRLF @ rest) ''Transport:'' =
      Some (length (decimal n @ CRLF))"
    by (simp add: strstr_skip [OF no_T_in_decimal] starts_with_def)
  ultimately have "strstr ?req ''Transport:'' = Some (length ?pre)"
    unfolding req using assms(2) by (simp add: strstr_past starts_with_def)
  moreover have "drop (length ?pre + 10) ?req = '' '' @ t @ CRLF @ rest"
    unfolding req by (rule drop_behind) simp
  moreover have "skip_space ('' '' @ t @ CRLF @ rest) = t @ CRLF @ rest"
    using assms(3,7) by (cases t) (simp_all add: skip_space_def isspace_def)
  moreover have "scan_set (\<lambda>c. c \<noteq> CHR 0x0D \<and> c \<noteq> CHR 0x0A) 255 (t @ CRLF @ rest) = Some (t, CRLF @ rest)"
    using assms(3-6) by (intro scan_set_upto) (auto simp: list_all_iff)
  ultimately show ?thesis by (simp add: transport_header_def)
qed

definition transport_text :: "rtsp_transport_mode \<Rightarrow> nat \<Rightarrow> nat \<Rightarrow> string" where
  "transport_text mode a b =
     (case mode of
        RTSP_TRANSPORT_UDP \<Rightarrow> ''RTP/AVP;unicast;client_port='' @ decimal a @ ''-'' @ decimal b
      | RTSP_TRANSPORT_TCP \<Rightarrow> ''RTP/AVP/TCP;unicast;interleaved='' @ decimal a @ ''-'' @ decimal b)"

lemma scan_ports_text:
  assumes "w1 \<noteq> []" and "CHR '';'' \<notin> set w1" and "w2 \<noteq> []" and "CHR '';'' \<notin> set w2"
    and "a < 2 ^ 31" and "b < 2 ^ 31"
  shows "scan_ports key (w1 @ '';'' @ w2 @ '';'' @ key @ decimal a @ ''-'' @ decimal b) = Some (int a, int b)"
proof -
  have "scan_set (\<lambda>c. c \<noteq> CHR '';'') k (w @ CHR '';'' # s) = Some (w, CHR '';'' # s)"
    if "w \<noteq> []" "CHR '';'' \<notin> set w" "length w \<le> k" for w s k
    using that by (intro scan_set_upto) (auto simp: list_all_iff)
  note semi = this
  have "scan_int (decimal a @ ''-'' @ decimal b) = Some (int a, ''-'' @ decimal b)"
    using assms(5) by (intro scan_int_decimal(1)) (simp_all add: isdigit_def)
  moreover have "scan_int (decimal b) = Some (int b, [])" using scan_int_decimal(1) [of "[]" b] assms(6) by simp
  moreover have "scan_literal [c] (c # s) = Some s" for c s by (simp add: scan_literal_def starts_with_def)
  ultimately show ?thesis
    using assms by (simp add: scan_ports_def semi)
qed

lemma transport_text_ports:
  assumes "a < 2 ^ 31" and "b < 2 ^ 31"
  shows "scan_ports ''client_port='' (transport_text RTSP_TRANSPORT_UDP a b) = Some (int a, int b)"
  "scan_ports ''interleaved='' (transport_text RTSP_TRANSPORT_TCP a b) = Some (int a, int b)"
  using scan_ports_text [of "''RTP/AVP''" "''unicast''" a b "''client_port=''"]
    scan_ports_text [of "''RTP/AVP/TCP''" "''unicast''" a b "''interleaved=''"] assms
  by (simp_all add: transport_text_def)

lemma decimal_set: "c \<in> set (decimal n) \<Longrightarrow> isdigit c"
  using decimal_digits(1) [of n] by (simp add: list_all_iff)

lemma no_slash_in_decimal: "CHR ''/'' \<notin> set (decimal n)" "CHR ''R'' \<notin> set (decimal n)"
  using decimal_set by (fastforce simp: isdigit_def)+

lemma transport_text_kind:
  "strstr (transport_text mode a b) ''RTP/AVP/TCP'' \<noteq> None \<longleftrightarrow> mode = RTSP_TRANSPORT_TCP"
proof -
  have "strstr (decimal b) ''RTP/AVP/TCP'' = None"
    using strstr_skip [OF no_slash_in_decimal(2) [of b], of "[]" "''TP/AVP/TCP''"] by simp
  then have "strstr (decimal a @ ''-'' @ decimal b) ''RTP/AVP/TCP'' = None"
    by (simp add: strstr_skip [OF no_slash_in_decimal(2)] starts_with_def)
  then show ?thesis by (cases mode) (simp_all add: transport_text_def starts_with_def)
qed

section \<open>URLs\<close>

definition plain_name :: "string \<Rightarrow> bool" where
  "plain_name name \<longleftrightarrow> name \<noteq> [] \<and> list_all (\<lambda>c. \<not> isspace c \<and> c \<noteq> CHR ''/'') name"

lemma strstr_name:
  assumes "plain_name name"
  shows "strstr (name @ s) (CHR ''/'' # p) = map_option ((+) (length name)) (strstr s (CHR ''/'' # p))"
  using assms by (intro strstr_skip) (auto simp: plain_name_def list_all_iff)

lemma split_track_plain:
  assumes "plain_name name"
  shows "split_track name = (name, 0, False)" "split_track (name @ ''/track1'') = (name, 1, False)"
    "split_track (name @ ''/track2'') = (name, 2, False)" "split_track (name @ ''/audio'') = (name, 2, False)"
  using strstr_name [OF assms, of "[]"]
  by (simp_all add: split_track_def strstr_name [OF assms] starts_with_def)

lemma scan_url_text:
  assumes "plain_name host" and "name \<noteq> []" and "list_all (\<lambda>c. \<not> isspace c) name"
  shows "scan_url scheme (scheme @ host @ ''/'' @ name) = Some name"
proof -
  have "scan_set (\<lambda>c. c \<noteq> CHR ''/'') (length (host @ ''/'' @ name)) (host @ ''/'' @ name) = Some (host, ''/'' @ name)"
    using assms(1) by (intro scan_set_upto) (auto simp: plain_name_def list_all_iff)
  moreover have "scan_word (length name) name = Some (name, [])"
    using scan_word_first(1) [of name "length name" "[]"] assms(2,3) by simp
  moreover have "scan_literal ''/'' (''/'' @ name) = Some name" by (rule scan_literal_append)
  ultimately show ?thesis by (simp add: scan_url_def)
qed

lemma extract_url:
  assumes "plain_name host" and "name \<noteq> []" and "list_all (\<lambda>c. \<not> isspace c) name"
  shows "extract_stream_name_from_url ss (''rtsp://'' @ host @ ''/'' @ name) = Some name"
    and "extract_stream_name_from_url ss (''rtsps://'' @ host @ ''/'' @ name) = Some name"
proof -
  show "extract_stream_name_from_url ss (''rtsp://'' @ host @ ''/'' @ name) = Some name"
    using scan_url_text [OF assms, of "''rtsp://''"] by (simp add: extract_stream_name_from_url_def)
  have "scan_literal ''rtsp://'' (''rtsps://'' @ host @ ''/'' @ name) = None"
    by (simp add: scan_literal_def starts_with_def)
  then have "scan_url ''rtsp://'' (''rtsps://'' @ host @ ''/'' @ name) = None" by (simp add: scan_url_def)
  then show "extract_stream_name_from_url ss (''rtsps://'' @ host @ ''/'' @ name) = Some name"
    using scan_url_text [OF assms, of "''rtsps://''"] by (simp add: extract_stream_name_from_url_def)
qed

section \<open>Lengths\<close>

lemma int_range_sint [simp]: "int_range (sint (w :: u32))"
  using sint_ge [of w] sint_lt [of w] by (simp add: int_range_def)

lemma length_session_id [simp]: "length (generate_session_id rnd) = 31"
  by (simp add: generate_session_id_def)

lemma response_length:
  assumes "status < 1000" and "length phrase \<le> 32" and "length (session_id c) \<le> 31" and "length headers < 512"
    and "case body of None \<Rightarrow> True | Some b \<Rightarrow> length b < 2048"
  shows "length (response_text status phrase headers body c) < 2800"
proof -
  have "length (decimal status) \<le> 3" using length_decimal [of status 3] assms(1) by simp
  moreover have "length (decimal_int (sint (client_cseq c))) \<le> 11" by (simp add: length_decimal_int)
  moreover have "length (decimal (length b)) \<le> 4" if "body = Some b" for b
    using that length_decimal [of "length b" 4] assms(5) by simp
  ultimately show ?thesis
    using assms(2-5) by (cases body) (auto simp: response_text_def)
qed

definition stream_ok :: "video_stream \<Rightarrow> bool" where
  "stream_ok s \<longleftrightarrow> length (stream_name s) \<le> 63 \<and> length (stream_info s) \<le> 127 \<and>
     int_range (width s) \<and> int_range (height s) \<and> int_range (fps s)"

lemma find_stream_name: "find_stream ss name = Some s \<Longrightarrow> stream_name s = name \<and> s \<in> set ss"
  by (auto simp: find_stream_def find_Some_iff)

lemma sdp_length:
  assumes "list_all stream_ok ss" and "length ip \<le> 63" and "int_range port" and "int_range now"
    and "generate_sdp ss ip port now name backchannel = Some sdp"
  shows "length sdp < 2048"
proof -
  from assms(5) obtain s where f: "find_stream ss name = Some s"
    by (auto simp: generate_sdp_def split: option.splits)
  have s: "stream_ok s" "stream_name s = name"
    using find_stream_name [OF f] assms(1) by (auto simp: list_all_iff)
  have n: "length (decimal_int (width s)) \<le> 11" "length (decimal_int (height s)) \<le> 11"
    "length (decimal_int (fps s)) \<le> 11" "length (decimal_int port) \<le> 11"
    using s(1) assms(3) by (simp_all add: length_decimal_int stream_ok_def)
  have "int_range (video_bandwidth s)" by (simp add: video_bandwidth_def int_range_def Let_def)
  then have "length (decimal_int (video_bandwidth s)) \<le> 11" by (rule length_decimal_int)
  moreover have "length (fit 16 (decimal_int now)) \<le> 15" by (simp add: fit_def)
  moreover note n s assms(2,5) f
  ultimately show ?thesis
    by (cases "stream_codec s"; cases backchannel; cases "stream_info s = []")
      (auto simp: generate_sdp_def stream_ok_def backchannel_media_def Let_def)
qed

section \<open>Properties\<close>

definition port_key :: "rtsp_transport_mode \<Rightarrow> string" where
  "port_key mode = (case mode of RTSP_TRANSPORT_UDP \<Rightarrow> ''client_port='' | RTSP_TRANSPORT_TCP \<Rightarrow> ''interleaved='')"

text \<open>
  C35. A request as a client writes it comes out of the parser with its method, URL and sequence
  number, and its Transport header with the mode asked for and both port or channel numbers.
\<close>

theorem rtsp_request_roundtrip:
  assumes "plain_url url" and "strstr url ''Transport:'' = None" and "n < 2 ^ 31" and "a < 2 ^ 31" and "b < 2 ^ 31"
    and "req = rtsp_request m url n (''Transport: '' @ transport_text mode a b @ CRLF @ rest)"
  shows "parse_rtsp_request req = Some (served_method m, url, int n) \<and>
    (strstr (transport_header req) ''RTP/AVP/TCP'' \<noteq> None \<longleftrightarrow> mode = RTSP_TRANSPORT_TCP) \<and>
    scan_ports (port_key mode) (transport_header req) = Some (int a, int b)"
proof -
  let ?t = "transport_text mode a b"
  have "length (decimal a) \<le> 10" "length (decimal b) \<le> 10"
    using assms(4,5) length_decimal [of a 10] length_decimal [of b 10] by simp_all
  then have "length ?t \<le> 255" by (cases mode) (simp_all add: transport_text_def)
  moreover have "CHR 0x0D \<notin> set ?t" "CHR 0x0A \<notin> set ?t"
    using decimal_set [of "CHR 0x0D"] decimal_set [of "CHR 0x0A"]
    by (cases mode; fastforce simp: transport_text_def isdigit_def)+
  moreover have "?t \<noteq> []" "\<not> isspace (hd ?t)" by (cases mode; simp add: transport_text_def isspace_def)+
  ultimately have "transport_header req = ?t"
    unfolding assms(6) by (intro transport_found assms(1,2))
  moreover have "scan_ports (port_key mode) ?t = Some (int a, int b)"
    by (cases mode) (simp_all only: port_key_def rtsp_transport_mode.case transport_text_ports [OF assms(4,5)])
  ultimately show ?thesis
    using parse_request [OF assms(1,3)] transport_text_kind assms(6) by simp
qed

theorem rtsp_request_roundtrip_witness:
  "scan_ports ''client_port='' (transport_header
     (rtsp_request RTSP_METHOD_SETUP ''rtsp://cam/ch0/track1'' 3
       (''Transport: '' @ transport_text RTSP_TRANSPORT_UDP 5000 5001 @ CRLF @ []))) = Some (5000, 5001)"
proof -
  have "plain_url ''rtsp://cam/ch0/track1''" "strstr ''rtsp://cam/ch0/track1'' ''Transport:'' = None"
    by (simp_all add: plain_url_def isspace_def starts_with_def)
  from rtsp_request_roundtrip [OF this _ _ _ refl, of 3 5000 5001 RTSP_METHOD_SETUP RTSP_TRANSPORT_UDP "[]"]
  show ?thesis by (simp add: port_key_def)
qed

text \<open>
  The URL of a stream, and that of one of its tracks, over rtsp and rtsps, lead back to the
  stream's name and the track, if host and name are without slashes and white space.
\<close>

theorem rtsp_url_roundtrip:
  assumes "plain_name host" and "plain_name name"
  shows "extract_stream_name_from_url ss (''rtsp://'' @ host @ ''/'' @ name) = Some name \<and>
    extract_stream_name_from_url ss (''rtsps://'' @ host @ ''/'' @ name) = Some name \<and>
    map_option split_track (extract_stream_name_from_url ss (''rtsp://'' @ host @ ''/'' @ name @ ''/track1'')) =
      Some (name, 1, False) \<and>
    map_option split_track (extract_stream_name_from_url ss (''rtsp://'' @ host @ ''/'' @ name @ ''/track2'')) =
      Some (name, 2, False) \<and>
    split_track name = (name, 0, False)"
proof -
  have "name \<noteq> []" "list_all (\<lambda>c. \<not> isspace c) (name @ t)" if "list_all (\<lambda>c. \<not> isspace c) t" for t
    using assms(2) that by (auto simp: plain_name_def list_all_iff)
  note name = this
  have ends: "list_all (\<lambda>c. \<not> isspace c) ''/track1''" "list_all (\<lambda>c. \<not> isspace c) ''/track2''"
    by (simp_all add: isspace_def)
  show ?thesis
    using extract_url [OF assms(1) name(1), of "[]"] name(2) [of "[]"]
      extract_url(1) [OF assms(1), of "name @ ''/track1''"] extract_url(1) [OF assms(1), of "name @ ''/track2''"]
      name(2) [OF ends(1)] name(2) [OF ends(2)]
    by (simp add: split_track_plain [OF assms(2)])
qed

theorem rtsp_url_roundtrip_witness:
  "map_option split_track (extract_stream_name_from_url [] ''rtsp://192.168.1.5:554/ch0/track1'') =
     Some (''ch0'', 1, False)"
  using rtsp_url_roundtrip [of "''192.168.1.5:554''" "''ch0''" "[]"] by (simp add: plain_name_def isspace_def)

end
