(* ===== verification/OnvifServices.thy ===== *)
theory OnvifServices
  imports OnvifDiscovery RtspRequest "HOL-Library.Sublist"
begin

text \<open>
  \<open>onvif_services.c\<close>: the SOAP requests the ONVIF module answers over HTTP. A handler yields what was sent; \<open>None\<close>
  is undefined behaviour: a variable that was not set, a null pointer, or a format that reads arguments that are
  not there.
\<close>

section \<open>What the handlers meet\<close>

record tm =
  tm_hour :: c_int
  tm_min :: c_int
  tm_sec :: c_int
  tm_year :: c_int
  tm_mon :: c_int
  tm_mday :: c_int
  tm_isdst :: c_int

record stream_config =
  stream_width :: c_int
  stream_height :: c_int
  stream_bitrate :: c_int
  stream_format :: string
  stream_info :: string

record streamer_config =
  sc_server_ip :: string
  sc_http_port :: c_int
  sc_fps :: c_int
  sc_streams :: "stream_config list"

text \<open>An interface: whether it has an IPv4 address, is a loopback, its name, and its address as a text.\<close>

record net_interface =
  if_inet :: bool
  if_loopback :: bool
  if_name :: string
  if_host :: "string option"

text \<open>
  \<open>oe_memory\<close> is whether an allocation succeeds, by its place in the code, \<open>oe_payload\<close> the payload type of an encoder
  channel, \<open>oe_peer\<close> the address of the client, \<open>oe_time_zone\<close> and \<open>oe_os_release\<close> what the files contain.
\<close>

record onvif_env =
  oe_uuid :: "nat \<Rightarrow> u32"
  oe_subscription :: "nat \<Rightarrow> u32"
  oe_time :: int
  oe_localtime :: "int \<Rightarrow> tm"
  oe_gmtime :: "int \<Rightarrow> tm"
  oe_time_zone :: "string option"
  oe_os_release :: "string option"
  oe_interfaces :: "net_interface list option"
  oe_config :: "streamer_config option"
  oe_payload :: "nat \<Rightarrow> u32"
  oe_snapshot :: "c_int \<Rightarrow> snapshot_env"
  oe_memory :: "nat \<Rightarrow> bool"
  oe_peer :: "u32 option"

section \<open>SOAP responses\<close>

text \<open>
  \<open>snprintf\<close> with a format that is not a literal, and strings as arguments. Each of the other conversions reads an
  argument that is not there: \<open>None\<close>.
\<close>

fun c_format :: "string \<Rightarrow> string list \<Rightarrow> string option" where
  "c_format [] args = Some []"
| "c_format (c # f) args =
     (if c \<noteq> CHR ''%'' then map_option ((#) c) (c_format f args)
      else (case f of
              [] \<Rightarrow> None
            | d # r \<Rightarrow>
                if d = CHR ''%'' then map_option ((#) d) (c_format r args)
                else (case args of
                        a # as \<Rightarrow> if d = CHR ''s'' then map_option ((@) a) (c_format r as) else None
                      | [] \<Rightarrow> None)))"

definition soap_envelope_header :: string where
  "soap_envelope_header =
     ''<?xml version=\"1.0\" encoding=\"UTF-8\"?>'' @
     ''<SOAP-ENV:Envelope xmlns:SOAP-ENV=\"http://www.w3.org/2003/05/soap-envelope\"'' @
     '' xmlns:wsa=\"http://www.w3.org/2005/08/addressing\"'' @
     '' xmlns:wsa5=\"http://www.w3.org/2005/08/addressing\"'' @
     '' xmlns:tds=\"http://www.onvif.org/ver10/device/wsdl\"'' @
     '' xmlns:trt=\"http://www.onvif.org/ver10/media/wsdl\" xmlns:tt=\"http://www.onvif.org/ver10/schema\"'' @
     '' xmlns:tptz=\"http://www.onvif.org/ver20/ptz/wsdl\"'' @
     '' xmlns:timg=\"http://www.onvif.org/ver20/imaging/wsdl\"'' @
     '' xmlns:ter=\"http://www.onvif.org/ver10/error\"'' @
     '' xmlns:tev=\"http://www.onvif.org/ver10/events/wsdl\"'' @
     '' xmlns:wsnt=\"http://docs.oasis-open.org/wsn/b-2\">'' @ ''<SOAP-ENV:Header>'' @
     ''<wsa:Action>'' @ ''%s'' @ ''</wsa:Action>'' @
     ''<wsa:MessageID>urn:uuid:'' @ ''%s'' @ ''</wsa:MessageID>'' @ ''</SOAP-ENV:Header>'' @ ''<SOAP-ENV:Body>''"

definition soap_envelope_footer :: string where
  "soap_envelope_footer = ''</SOAP-ENV:Body>'' @ ''</SOAP-ENV:Envelope>''"

definition send_soap_response :: "string \<Rightarrow> string \<Rightarrow> string \<Rightarrow> http_out \<Rightarrow> http_out option" where
  "send_soap_response action uuid body o1 =
     (let soap_response = fit 8192 (soap_envelope_header @ body @ soap_envelope_footer)
      in map_option
           (\<lambda>t. http_send_response 200 (Some ''application/soap+xml; charset=utf-8'') (Some (fit 8192 t)) o1)
           (c_format soap_response [action, uuid]))"

text \<open>What every handler does: a message id, and the body cut to its buffer of \<open>n\<close> bytes.\<close>

definition soap_reply :: "onvif_env \<Rightarrow> string \<Rightarrow> nat \<Rightarrow> string \<Rightarrow> http_out \<Rightarrow> http_out option" where
  "soap_reply env action n text o1 = send_soap_response action (generate_uuid 37 (oe_uuid env)) (fit n text) o1"

section \<open>Device\<close>

definition time_zone :: "string option \<Rightarrow> string" where
  "time_zone f =
     (case f of
        None \<Rightarrow> ''UTC''
      | Some s \<Rightarrow>
          if s = [] then ''UTC''
          else (let l = fgets_line 64 s in if last l = CHR 0x0A then butlast l else l))"

definition handle_get_system_date_and_time :: "onvif_env \<Rightarrow> http_out \<Rightarrow> http_out option" where
  "handle_get_system_date_and_time env o1 =
     (let t = oe_localtime env (oe_time env)
      in soap_reply env ''http://www.onvif.org/ver10/device/wsdl/GetSystemDateAndTimeResponse'' 1024
           (''<tds:GetSystemDateAndTimeResponse>'' @ ''<tds:SystemDateAndTime>'' @
            ''<tt:DateTimeType>NTP</tt:DateTimeType>'' @
            ''<tt:DaylightSavings>'' @ (if 0 < tm_isdst t then ''true'' else ''false'') @ ''</tt:DaylightSavings>'' @
            ''<tt:TimeZone><tt:TZ>'' @ time_zone (oe_time_zone env) @ ''</tt:TZ></tt:TimeZone>'' @ ''<tt:UTCDateTime>'' @
            ''<tt:Time><tt:Hour>'' @ decimal_int (tm_hour t) @ ''</tt:Hour><tt:Minute>'' @ decimal_int (tm_min t) @
            ''</tt:Minute><tt:Second>'' @ decimal_int (tm_sec t) @ ''</tt:Second></tt:Time>'' @
            ''<tt:Date><tt:Year>'' @ decimal_int (tm_year t + 1900) @ ''</tt:Year><tt:Month>'' @
            decimal_int (tm_mon t + 1) @ ''</tt:Month><tt:Day>'' @ decimal_int (tm_mday t) @ ''</tt:Day></tt:Date>'' @
            ''</tt:UTCDateTime>'' @ ''</tds:SystemDateAndTime>'' @ ''</tds:GetSystemDateAndTimeResponse>'') o1)"

text \<open>The value of a line, without newline and quotes.\<close>

definition release_value :: "string \<Rightarrow> string" where
  "release_value v =
     (let v1 = (if v \<noteq> [] \<and> last v = CHR 0x0A then butlast v else v)
      in if 1 < length v1 \<and> hd v1 = CHR 0x22 \<and> last v1 = CHR 0x22 then butlast (tl v1) else v1)"

record device_information =
  di_manufacturer :: string
  di_model :: string
  di_firmware :: string
  di_serial :: string
  di_hardware :: string

text \<open>Behind a plus sign, and up to a comma.\<close>

definition serial_of :: "string \<Rightarrow> string" where
  "serial_of v =
     (case strstr v ''+'' of
        None \<Rightarrow> take 63 v
      | Some i \<Rightarrow> takeWhile (\<lambda>c. c \<noteq> CHR '','') (take 63 (drop (i + 1) v)))"

definition hardware_of :: "string \<Rightarrow> string" where
  "hardware_of v =
     (if isdigit (c_at v 0) then fit 32 (CHR ''T'' # v) else take 31 v)"

definition release_line :: "device_information \<Rightarrow> string \<Rightarrow> device_information" where
  "release_line d line =
     (case strchr line CHR ''='' of
        None \<Rightarrow> d
      | Some i \<Rightarrow>
          (let key = take i line; v = release_value (drop (i + 1) line)
           in if key = ''NAME'' then d\<lparr>di_manufacturer := take 63 v\<rparr>
              else if key = ''IMAGE_ID'' then d\<lparr>di_model := take 63 v\<rparr>
              else if key = ''VERSION'' \<or> key = ''VERSION_ID'' then d\<lparr>di_firmware := take 31 v\<rparr>
              else if key = ''BUILD_ID'' then d\<lparr>di_serial := serial_of v\<rparr>
              else if key = ''SOC'' then d\<lparr>di_hardware := hardware_of v\<rparr>
              else d))"

definition default_device :: device_information where
  "default_device =
     \<lparr>di_manufacturer = ''Thingino'', di_model = ''Streamer'', di_firmware = ''1.0.0'', di_serial = ''123456789'',
      di_hardware = ''T23''\<rparr>"

definition read_device_information :: "string option \<Rightarrow> device_information" where
  "read_device_information f =
     (case f of None \<Rightarrow> default_device | Some s \<Rightarrow> foldl release_line default_device (fgets_lines 256 s))"

definition handle_get_device_information :: "onvif_env \<Rightarrow> http_out \<Rightarrow> http_out option" where
  "handle_get_device_information env o1 =
     (let d = read_device_information (oe_os_release env)
      in soap_reply env ''http://www.onvif.org/ver10/device/wsdl/GetDeviceInformationResponse'' 1024
           (''<tds:GetDeviceInformationResponse>'' @
            ''<tds:Manufacturer>'' @ di_manufacturer d @ ''</tds:Manufacturer>'' @
            ''<tds:Model>'' @ di_model d @ ''</tds:Model>'' @
            ''<tds:FirmwareVersion>'' @ di_firmware d @ ''</tds:FirmwareVersion>'' @
            ''<tds:SerialNumber>'' @ di_serial d @ ''</tds:SerialNumber>'' @
            ''<tds:HardwareId>'' @ di_hardware d @ ''</tds:HardwareId>'' @ ''</tds:GetDeviceInformationResponse>'') o1)"

text \<open>Handlers that use the configuration do not look whether there is one.\<close>

definition handle_get_snapshot_uri :: "onvif_env \<Rightarrow> http_out \<Rightarrow> http_out option" where
  "handle_get_snapshot_uri env o1 =
     (case oe_config env of
        None \<Rightarrow> None
      | Some g \<Rightarrow>
          soap_reply env ''http://www.onvif.org/ver10/media/wsdl/GetSnapshotUriResponse'' 512
           (''<trt:GetSnapshotUriResponse>'' @ ''<trt:MediaUri>'' @
            ''<tt:Uri>http://'' @ sc_server_ip g @ '':'' @ decimal_int (sc_http_port g) @ ''/snap0.jpg</tt:Uri>'' @
            ''<tt:InvalidAfterConnect>false</tt:InvalidAfterConnect>'' @
            ''<tt:InvalidAfterReboot>false</tt:InvalidAfterReboot>'' @ ''<tt:Timeout>PT60S</tt:Timeout>'' @
            ''</trt:MediaUri>'' @ ''</trt:GetSnapshotUriResponse>'') o1)"

definition handle_get_capabilities :: "onvif_env \<Rightarrow> http_out \<Rightarrow> http_out option" where
  "handle_get_capabilities env o1 =
     (case oe_config env of
        None \<Rightarrow> None
      | Some g \<Rightarrow>
          soap_reply env ''http://www.onvif.org/ver10/device/wsdl/GetCapabilitiesResponse'' 2048
           (''<tds:GetCapabilitiesResponse>'' @ ''<tds:Capabilities>'' @
            ''<tt:Analytics><tt:XAddr>http://'' @ sc_server_ip g @ '':'' @ decimal_int (sc_http_port g) @
            ''/onvif/analytics_service</tt:XAddr></tt:Analytics>'' @
            ''<tt:Device><tt:XAddr>http://'' @ sc_server_ip g @ '':'' @ decimal_int (sc_http_port g) @
            ''/onvif/device_service</tt:XAddr></tt:Device>'' @
            ''<tt:Events><tt:XAddr>http://'' @ sc_server_ip g @ '':'' @ decimal_int (sc_http_port g) @
            ''/onvif/event_service</tt:XAddr></tt:Events>'' @
            ''<tt:Imaging><tt:XAddr>http://'' @ sc_server_ip g @ '':'' @ decimal_int (sc_http_port g) @
            ''/onvif/imaging_service</tt:XAddr></tt:Imaging>'' @
            ''<tt:Media><tt:XAddr>http://'' @ sc_server_ip g @ '':'' @ decimal_int (sc_http_port g) @
            ''/onvif/media_service</tt:XAddr></tt:Media>'' @
            ''<tt:PTZ><tt:XAddr>http://'' @ sc_server_ip g @ '':'' @ decimal_int (sc_http_port g) @
            ''/onvif/ptz_service</tt:XAddr></tt:PTZ>'' @ ''</tds:Capabilities>'' @ ''</tds:GetCapabilitiesResponse>'') o1)"

definition handle_get_services :: "onvif_env \<Rightarrow> http_out \<Rightarrow> http_out option" where
  "handle_get_services env o1 =
     (case oe_config env of
        None \<Rightarrow> None
      | Some g \<Rightarrow>
          soap_reply env ''http://www.onvif.org/ver10/device/wsdl/GetServicesResponse'' 2048
           (''<tds:GetServicesResponse>'' @ ''<tds:Service>'' @
            ''<tds:Namespace>http://www.onvif.org/ver10/device/wsdl</tds:Namespace>'' @
            ''<tds:XAddr>http://'' @ sc_server_ip g @ '':'' @ decimal_int (sc_http_port g) @
            ''/onvif/device_service</tds:XAddr>'' @ ''<tds:Version>'' @ ''<tt:Major>2</tt:Major>'' @
            ''<tt:Minor>0</tt:Minor>'' @ ''</tds:Version>'' @ ''</tds:Service>'' @ ''<tds:Service>'' @
            ''<tds:Namespace>http://www.onvif.org/ver10/media/wsdl</tds:Namespace>'' @
            ''<tds:XAddr>http://'' @ sc_server_ip g @ '':'' @ decimal_int (sc_http_port g) @
            ''/onvif/media_service</tds:XAddr>'' @ ''<tds:Version>'' @ ''<tt:Major>2</tt:Major>'' @
            ''<tt:Minor>0</tt:Minor>'' @ ''</tds:Version>'' @ ''</tds:Service>'' @ ''<tds:Service>'' @
            ''<tds:Namespace>http://www.onvif.org/ver10/events/wsdl</tds:Namespace>'' @
            ''<tds:XAddr>http://'' @ sc_server_ip g @ '':'' @ decimal_int (sc_http_port g) @
            ''/onvif/event_service</tds:XAddr>'' @ ''<tds:Version>'' @ ''<tt:Major>2</tt:Major>'' @
            ''<tt:Minor>0</tt:Minor>'' @ ''</tds:Version>'' @ ''</tds:Service>'' @ ''<tds:Service>'' @
            ''<tds:Namespace>http://www.onvif.org/ver20/imaging/wsdl</tds:Namespace>'' @
            ''<tds:XAddr>http://'' @ sc_server_ip g @ '':'' @ decimal_int (sc_http_port g) @
            ''/onvif/imaging_service</tds:XAddr>'' @ ''<tds:Version>'' @ ''<tt:Major>2</tt:Major>'' @
            ''<tt:Minor>0</tt:Minor>'' @ ''</tds:Version>'' @ ''</tds:Service>'' @ ''</tds:GetServicesResponse>'') o1)"

text \<open>Fixed answers.\<close>

definition handle_get_service_capabilities :: "onvif_env \<Rightarrow> http_out \<Rightarrow> http_out option" where
  "handle_get_service_capabilities env o1 =
     soap_reply env ''http://www.onvif.org/ver10/device/wsdl/GetServiceCapabilitiesResponse'' 2048
           (''<tds:GetServiceCapabilitiesResponse>'' @ ''<tds:Capabilities>'' @
            ''<tds:Network IPFilter=\"false\" ZeroConfiguration=\"false\" IPVersion6=\"false\" DynDNS=\"false\"'' @
            '' Dot11Configuration=\"false\" HostnameFromDHCP=\"false\" NTP=\"1\" />'' @
            ''<tds:Security TLS1.0=\"false\" TLS1.1=\"false\" TLS1.2=\"false\" OnboardKeyGeneration=\"false\"'' @
            '' AccessPolicyConfig=\"false\" DefaultAccessPolicy=\"false\" Dot1X=\"false\"'' @
            '' RemoteUserHandling=\"false\" X.509Token=\"false\" SAMLToken=\"false\" KerberosToken=\"false\"'' @
            '' UsernameToken=\"false\" HttpDigest=\"false\" RELToken=\"false\" />'' @
            ''<tds:System  DiscoveryResolve=\"true\" DiscoveryBye=\"true\" RemoteDiscovery=\"false\"'' @
            '' SystemBackup=\"false\" SystemLogging=\"false\" FirmwareUpgrade=\"false\"'' @
            '' HttpFirmwareUpgrade=\"false\" HttpSystemBackup=\"false\" HttpSystemLogging=\"false\"'' @
            '' HttpSupportInformation=\"false\" />'' @ ''</tds:Capabilities>'' @
            ''</tds:GetServiceCapabilitiesResponse>'') o1"

definition handle_get_device_service_capabilities :: "onvif_env \<Rightarrow> http_out \<Rightarrow> http_out option" where
  "handle_get_device_service_capabilities env o1 =
     soap_reply env ''http://www.onvif.org/ver10/device/wsdl/GetServiceCapabilitiesResponse'' 2048
           (''<tds:GetServiceCapabilitiesResponse>'' @ ''<tds:Capabilities>'' @
            ''<tds:Network IPFilter=\"false\" ZeroConfiguration=\"false\" IPVersion6=\"false\" DynDNS=\"false\"'' @
            '' Dot11Configuration=\"false\" HostnameFromDHCP=\"false\" NTP=\"1\" />'' @
            ''<tds:Security TLS1.0=\"false\" TLS1.1=\"false\" TLS1.2=\"false\" OnboardKeyGeneration=\"false\"'' @
            '' AccessPolicyConfig=\"false\" DefaultAccessPolicy=\"false\" Dot1X=\"false\"'' @
            '' RemoteUserHandling=\"false\" X.509Token=\"false\" SAMLToken=\"false\" KerberosToken=\"false\"'' @
            '' UsernameToken=\"false\" HttpDigest=\"false\" RELToken=\"false\" />'' @
            ''<tds:System DiscoveryResolve=\"true\" DiscoveryBye=\"true\" RemoteDiscovery=\"false\"'' @
            '' SystemBackup=\"false\" SystemLogging=\"false\" FirmwareUpgrade=\"false\"'' @
            '' HttpFirmwareUpgrade=\"false\" HttpSystemBackup=\"false\" HttpSystemLogging=\"false\"'' @
            '' HttpSupportInformation=\"false\" />'' @ ''</tds:Capabilities>'' @
            ''</tds:GetServiceCapabilitiesResponse>'') o1"

definition handle_get_media_service_capabilities :: "onvif_env \<Rightarrow> http_out \<Rightarrow> http_out option" where
  "handle_get_media_service_capabilities env o1 =
     soap_reply env ''http://www.onvif.org/ver10/media/wsdl/GetServiceCapabilitiesResponse'' 2048
           (''<trt:GetServiceCapabilitiesResponse>'' @ ''<trt:Capabilities>'' @
            ''<trt:ProfileCapabilities MaximumNumberOfProfiles=\"2\"/>'' @
            ''<trt:StreamingCapabilities RTPMulticast=\"false\" RTP_TCP=\"true\" RTP_RTSP_TCP=\"true\"'' @
            '' NonAggregateControl=\"false\"/>'' @ ''<trt:SnapshotUri>true</trt:SnapshotUri>'' @
            ''<trt:Rotation>false</trt:Rotation>'' @ ''<trt:VideoSourceMode>false</trt:VideoSourceMode>'' @
            ''<trt:OSD>false</trt:OSD>'' @ ''</trt:Capabilities>'' @ ''</trt:GetServiceCapabilitiesResponse>'') o1"

definition handle_ptz_get_service_capabilities :: "onvif_env \<Rightarrow> http_out \<Rightarrow> http_out option" where
  "handle_ptz_get_service_capabilities env o1 =
     soap_reply env ''http://www.onvif.org/ver20/ptz/wsdl/GetServiceCapabilitiesResponse'' 1024
           (''<tptz:GetServiceCapabilitiesResponse xmlns:tptz=\"http://www.onvif.org/ver20/ptz/wsdl\"'' @
            '' xmlns:tt=\"http://www.onvif.org/ver10/schema\">'' @ ''<tptz:Capabilities>'' @
            ''<tt:EFlip>false</tt:EFlip>'' @ ''<tt:Reverse>false</tt:Reverse>'' @
            ''<tt:GetCompatibleConfigurations>false</tt:GetCompatibleConfigurations>'' @ ''</tptz:Capabilities>'' @
            ''</tptz:GetServiceCapabilitiesResponse>'') o1"

definition handle_event_get_service_capabilities :: "onvif_env \<Rightarrow> http_out \<Rightarrow> http_out option" where
  "handle_event_get_service_capabilities env o1 =
     soap_reply env ''http://www.onvif.org/ver10/events/wsdl/GetServiceCapabilitiesResponse'' 1024
           (''<tev:GetServiceCapabilitiesResponse>'' @ ''<tev:Capabilities>'' @
            ''<tev:WSSubscriptionPolicySupport>false</tev:WSSubscriptionPolicySupport>'' @
            ''<tev:WSPullPointSupport>false</tev:WSPullPointSupport>'' @
            ''<tev:WSPausableSubscriptionManagerInterfaceSupport>false</tev:WSPausableSubscriptionManagerInterfaceSupport>'' @
            ''<tev:MaxNotificationProducers>0</tev:MaxNotificationProducers>'' @
            ''<tev:MaxPullPoints>0</tev:MaxPullPoints>'' @
            ''<tev:PersistentNotificationStorage>false</tev:PersistentNotificationStorage>'' @ ''</tev:Capabilities>'' @
            ''</tev:GetServiceCapabilitiesResponse>'') o1"

definition handle_imaging_get_options :: "onvif_env \<Rightarrow> http_out \<Rightarrow> http_out option" where
  "handle_imaging_get_options env o1 =
     soap_reply env ''http://www.onvif.org/ver20/imaging/wsdl/GetOptionsResponse'' 2048
           (''<timg:GetOptionsResponse xmlns:timg=\"http://www.onvif.org/ver20/imaging/wsdl\"'' @
            '' xmlns:tt=\"http://www.onvif.org/ver10/schema\">'' @ ''<timg:ImagingOptions>'' @ ''<tt:Brightness>'' @
            ''<tt:Min>0</tt:Min>'' @ ''<tt:Max>100</tt:Max>'' @ ''</tt:Brightness>'' @ ''<tt:ColorSaturation>'' @
            ''<tt:Min>0</tt:Min>'' @ ''<tt:Max>100</tt:Max>'' @ ''</tt:ColorSaturation>'' @ ''<tt:Contrast>'' @
            ''<tt:Min>0</tt:Min>'' @ ''<tt:Max>100</tt:Max>'' @ ''</tt:Contrast>'' @ ''<tt:Sharpness>'' @
            ''<tt:Min>0</tt:Min>'' @ ''<tt:Max>100</tt:Max>'' @ ''</tt:Sharpness>'' @ ''</timg:ImagingOptions>'' @
            ''</timg:GetOptionsResponse>'') o1"

definition handle_event_unsubscribe :: "onvif_env \<Rightarrow> http_out \<Rightarrow> http_out option" where
  "handle_event_unsubscribe env o1 =
     soap_reply env ''http://docs.oasis-open.org/wsn/bw-2/SubscriptionManager/UnsubscribeResponse'' 512
           (''<wsnt:UnsubscribeResponse/>'') o1"

text \<open>The answer to \<open>SystemReboot\<close>; the device is rebooted behind it in any case.\<close>

definition handle_system_reboot :: "onvif_env \<Rightarrow> http_out \<Rightarrow> http_out option" where
  "handle_system_reboot env o1 =
     soap_reply env ''http://www.onvif.org/ver10/device/wsdl/SystemRebootResponse'' 512
           (''<tds:SystemRebootResponse>'' @ ''<tt:Message>Rebooting in 5 seconds.</tt:Message>'' @
            ''</tds:SystemRebootResponse>'') o1"

section \<open>Media\<close>

definition get_h264_profile_name :: "onvif_env \<Rightarrow> string \<Rightarrow> nat \<Rightarrow> string" where
  "get_h264_profile_name env format stream_index =
     (if same_ignoring_case format ''H265'' \<or> same_ignoring_case format ''HEVC'' then ''Main''
      else if stream_index < FS_CHN_NUM then
        (let profile = drop_bit 16 (oe_payload env stream_index) AND 0xFF
         in if profile = 0 then ''Baseline'' else if profile = 1 then ''Main'' else if profile = 2 then ''High'' else ''Main'')
      else ''Main'')"

text \<open>Two seconds of frames.\<close>

definition get_encoder_gop_length :: "streamer_config option \<Rightarrow> c_int" where
  "get_encoder_gop_length config =
     (case config of None \<Rightarrow> 60 | Some g \<Rightarrow> if 0 < sc_fps g then sc_fps g * 2 else 60)"

definition get_session_timeout_seconds :: c_int where
  "get_session_timeout_seconds = 60"

text \<open>\<open>width\<close>, \<open>height\<close> and \<open>fps\<close> are set only if there is a stream.\<close>

definition handle_get_video_sources_alt :: "onvif_env \<Rightarrow> http_out \<Rightarrow> http_out option" where
  "handle_get_video_sources_alt env o1 =
     (case oe_config env of
        None \<Rightarrow> None
      | Some g \<Rightarrow>
          (case sc_streams g of
             [] \<Rightarrow> None
           | st # _ \<Rightarrow>
               soap_reply env ''http://www.onvif.org/ver10/media/wsdl/GetVideoSourcesResponse'' 1024
                 (''<trt:GetVideoSourcesResponse>'' @ ''<trt:VideoSources token=\"VideoSource_1\">'' @
                 ''<tt:Framerate>'' @ decimal_int (sc_fps g) @ ''</tt:Framerate>'' @ ''<tt:Resolution>'' @
                 ''<tt:Width>'' @ decimal_int (stream_width st) @ ''</tt:Width>'' @
                 ''<tt:Height>'' @ decimal_int (stream_height st) @ ''</tt:Height>'' @ ''</tt:Resolution>'' @
                 ''<tt:Imaging>'' @ ''<tt:Brightness>50</tt:Brightness>'' @ ''<tt:ColorSaturation>50</tt:ColorSaturation>'' @
                 ''<tt:Contrast>50</tt:Contrast>'' @ ''<tt:Sharpness>50</tt:Sharpness>'' @ ''</tt:Imaging>'' @
                 ''</trt:VideoSources>'' @ ''</trt:GetVideoSourcesResponse>'') o1))"

text \<open>
  A format of 15 characters fills the field without a NUL behind it. The variables of the second profile are set
  only if there is a second stream.
\<close>

definition profile_name :: "string \<Rightarrow> stream_config \<Rightarrow> string" where
  "profile_name deflt st = fit 64 (if stream_info st \<noteq> [] then stream_info st else deflt)"

definition profiles_body :: "onvif_env \<Rightarrow> streamer_config \<Rightarrow> stream_config \<Rightarrow> stream_config \<Rightarrow> string" where
  "profiles_body env g st0 st1 =
     ''<trt:GetProfilesResponse>'' @ ''<trt:Profiles fixed=\"true\" token=\"Profile_1\">'' @
     ''<tt:Name>'' @ profile_name ''Main Stream'' st0 @ ''</tt:Name>'' @
     ''<tt:VideoSourceConfiguration token=\"VideoSourceConfig_1\">'' @
     ''<tt:Name>VideoSourceConfig_1</tt:Name>'' @ ''<tt:UseCount>1</tt:UseCount>'' @
     ''<tt:SourceToken>VideoSource_1</tt:SourceToken>'' @
     ''<tt:Bounds height=\"'' @ decimal_int (stream_height st0) @ ''\" width=\"'' @
     decimal_int (stream_width st0) @ ''\" y=\"0\" x=\"0\"/>'' @ ''</tt:VideoSourceConfiguration>'' @
     ''<tt:VideoEncoderConfiguration token=\"VideoEncoder_1\">'' @ ''<tt:Name>VideoEncoder_1</tt:Name>'' @
     ''<tt:UseCount>1</tt:UseCount>'' @ ''<tt:Encoding>'' @ stream_format st0 @ ''</tt:Encoding>'' @
     ''<tt:Resolution>'' @ ''<tt:Width>'' @ decimal_int (stream_width st0) @ ''</tt:Width>'' @
     ''<tt:Height>'' @ decimal_int (stream_height st0) @ ''</tt:Height>'' @ ''</tt:Resolution>'' @
     ''<tt:Quality>'' @ decimal_int 5 @ ''</tt:Quality>'' @ ''<tt:RateControl>'' @
     ''<tt:FrameRateLimit>'' @ decimal_int (sc_fps g) @ ''</tt:FrameRateLimit>'' @
     ''<tt:EncodingInterval>1</tt:EncodingInterval>'' @
     ''<tt:BitrateLimit>'' @ decimal_int (stream_bitrate st0) @ ''</tt:BitrateLimit>'' @ ''</tt:RateControl>'' @
     ''<tt:H264>'' @ ''<tt:GovLength>'' @ decimal_int (get_encoder_gop_length (Some g)) @ ''</tt:GovLength>'' @
     ''<tt:H264Profile>'' @ get_h264_profile_name env (stream_format st0) 0 @ ''</tt:H264Profile>'' @
     ''</tt:H264>'' @ ''<tt:Multicast>'' @ ''<tt:Address>'' @ ''<tt:Type>IPv4</tt:Type>'' @
     ''<tt:IPv4Address>'' @ sc_server_ip g @ ''</tt:IPv4Address>'' @ ''</tt:Address>'' @
     ''<tt:Port>0</tt:Port>'' @ ''<tt:TTL>0</tt:TTL>'' @ ''<tt:AutoStart>false</tt:AutoStart>'' @
     ''</tt:Multicast>'' @
     ''<tt:SessionTimeout>PT'' @ decimal_int get_session_timeout_seconds @ ''S</tt:SessionTimeout>'' @
     ''</tt:VideoEncoderConfiguration>'' @ ''</trt:Profiles>'' @
     ''<trt:Profiles fixed=\"true\" token=\"Profile_2\">'' @
     ''<tt:Name>'' @ profile_name ''Sub Stream'' st1 @ ''</tt:Name>'' @
     ''<tt:VideoSourceConfiguration token=\"VideoSourceConfig_1\">'' @
     ''<tt:Name>VideoSourceConfig_1</tt:Name>'' @ ''<tt:UseCount>1</tt:UseCount>'' @
     ''<tt:SourceToken>VideoSource_1</tt:SourceToken>'' @
     ''<tt:Bounds height=\"'' @ decimal_int (stream_height st1) @ ''\" width=\"'' @
     decimal_int (stream_width st1) @ ''\" y=\"0\" x=\"0\"/>'' @ ''</tt:VideoSourceConfiguration>'' @
     ''<tt:VideoEncoderConfiguration token=\"VideoEncoder_2\">'' @ ''<tt:Name>VideoEncoder_2</tt:Name>'' @
     ''<tt:UseCount>1</tt:UseCount>'' @ ''<tt:Encoding>'' @ stream_format st1 @ ''</tt:Encoding>'' @
     ''<tt:Resolution>'' @ ''<tt:Width>'' @ decimal_int (stream_width st1) @ ''</tt:Width>'' @
     ''<tt:Height>'' @ decimal_int (stream_height st1) @ ''</tt:Height>'' @ ''</tt:Resolution>'' @
     ''<tt:Quality>'' @ decimal_int 5 @ ''</tt:Quality>'' @ ''<tt:RateControl>'' @
     ''<tt:FrameRateLimit>'' @ decimal_int (sc_fps g) @ ''</tt:FrameRateLimit>'' @
     ''<tt:EncodingInterval>1</tt:EncodingInterval>'' @
     ''<tt:BitrateLimit>'' @ decimal_int (stream_bitrate st1) @ ''</tt:BitrateLimit>'' @ ''</tt:RateControl>'' @
     ''<tt:H264>'' @ ''<tt:GovLength>'' @ decimal_int (get_encoder_gop_length (Some g)) @ ''</tt:GovLength>'' @
     ''<tt:H264Profile>'' @ get_h264_profile_name env (stream_format st1) 1 @ ''</tt:H264Profile>'' @
     ''</tt:H264>'' @ ''<tt:Multicast>'' @ ''<tt:Address>'' @ ''<tt:Type>IPv4</tt:Type>'' @
     ''<tt:IPv4Address>'' @ sc_server_ip g @ ''</tt:IPv4Address>'' @ ''</tt:Address>'' @
     ''<tt:Port>0</tt:Port>'' @ ''<tt:TTL>0</tt:TTL>'' @ ''<tt:AutoStart>false</tt:AutoStart>'' @
     ''</tt:Multicast>'' @
     ''<tt:SessionTimeout>PT'' @ decimal_int get_session_timeout_seconds @ ''S</tt:SessionTimeout>'' @
     ''</tt:VideoEncoderConfiguration>'' @ ''</trt:Profiles>'' @ ''</trt:GetProfilesResponse>''"

definition handle_get_profiles :: "onvif_env \<Rightarrow> http_out \<Rightarrow> http_out option" where
  "handle_get_profiles env o1 =
     (case oe_config env of
        None \<Rightarrow> None
      | Some g \<Rightarrow>
          (case sc_streams g of
             st0 # st1 # _ \<Rightarrow>
               if 15 \<le> length (stream_format st0) \<or> 15 \<le> length (stream_format st1) then None
               else soap_reply env ''http://www.onvif.org/ver10/media/wsdl/GetProfilesResponse'' 3072
                      (profiles_body env g st0 st1) o1
           | _ \<Rightarrow> None))"

text \<open>The body of a request, behind the empty line.\<close>

definition request_body :: "string \<Rightarrow> string option" where
  "request_body request = map_option (\<lambda>i. drop (i + 4) request) (strstr request (CRLF @ CRLF))"

text \<open>A token of fewer than \<open>n\<close> characters up to a mark, or the default.\<close>

definition token_until :: "nat \<Rightarrow> string \<Rightarrow> string \<Rightarrow> string \<Rightarrow> string" where
  "token_until n mark deflt start =
     (case strstr start mark of None \<Rightarrow> deflt | Some len \<Rightarrow> if len < n then take len start else deflt)"

definition configuration_token :: "string \<Rightarrow> string" where
  "configuration_token request =
     (case request_body request of
        None \<Rightarrow> ''VideoEncoder_1''
      | Some b \<Rightarrow>
          (case strstr b ''ConfigurationToken>'' of
             None \<Rightarrow> ''VideoEncoder_1''
           | Some i \<Rightarrow> token_until 32 ''</'' ''VideoEncoder_1'' (drop (i + 19) b)))"

definition encoder_body :: "onvif_env \<Rightarrow> streamer_config \<Rightarrow> string \<Rightarrow> nat \<Rightarrow> stream_config \<Rightarrow> string" where
  "encoder_body env g config_token stream_index st =
     ''<trt:GetVideoEncoderConfigurationResponse>'' @ ''<trt:Configuration token=\"'' @ config_token @ ''\">'' @
     ''<tt:Name>'' @ config_token @ ''</tt:Name>'' @ ''<tt:UseCount>1</tt:UseCount>'' @
     ''<tt:Encoding>'' @ take 15 (stream_format st) @ ''</tt:Encoding>'' @ ''<tt:Resolution>'' @
     ''<tt:Width>'' @ decimal_int (stream_width st) @ ''</tt:Width>'' @
     ''<tt:Height>'' @ decimal_int (stream_height st) @ ''</tt:Height>'' @ ''</tt:Resolution>'' @
     ''<tt:Quality>'' @ decimal_int 5 @ ''</tt:Quality>'' @ ''<tt:RateControl>'' @
     ''<tt:FrameRateLimit>'' @ decimal_int (sc_fps g) @ ''</tt:FrameRateLimit>'' @
     ''<tt:EncodingInterval>1</tt:EncodingInterval>'' @
     ''<tt:BitrateLimit>'' @ decimal_int (stream_bitrate st) @ ''</tt:BitrateLimit>'' @ ''</tt:RateControl>'' @
     ''<tt:H264>'' @ ''<tt:GovLength>'' @ decimal_int (get_encoder_gop_length (Some g)) @ ''</tt:GovLength>'' @
     ''<tt:H264Profile>'' @ get_h264_profile_name env (take 15 (stream_format st)) stream_index @
     ''</tt:H264Profile>'' @ ''</tt:H264>'' @ ''<tt:Multicast>'' @ ''<tt:Address>'' @
     ''<tt:Type>IPv4</tt:Type>'' @ ''<tt:IPv4Address>'' @ sc_server_ip g @ ''</tt:IPv4Address>'' @
     ''</tt:Address>'' @ ''<tt:Port>0</tt:Port>'' @ ''<tt:TTL>0</tt:TTL>'' @
     ''<tt:AutoStart>false</tt:AutoStart>'' @ ''</tt:Multicast>'' @
     ''<tt:SessionTimeout>PT'' @ decimal_int get_session_timeout_seconds @ ''S</tt:SessionTimeout>'' @
     ''</trt:Configuration>'' @ ''</trt:GetVideoEncoderConfigurationResponse>''"

definition handle_get_video_encoder_configuration :: "onvif_env \<Rightarrow> string \<Rightarrow> http_out \<Rightarrow> http_out option" where
  "handle_get_video_encoder_configuration env request o1 =
     (let token = configuration_token request; stream_index = (if token = ''VideoEncoder_2'' then 1 else 0)
      in case oe_config env of
           None \<Rightarrow> None
         | Some g \<Rightarrow>
             if stream_index < length (sc_streams g) then
               soap_reply env ''http://www.onvif.org/ver10/media/wsdl/GetVideoEncoderConfigurationResponse'' 1024
                 (encoder_body env g token stream_index (sc_streams g ! stream_index)) o1
             else None)"

text \<open>
  The token as an element or as an attribute. The third pattern is looked for only where the first has not been
  found; the second contains the first and is never found alone.
\<close>

definition profile_token_start :: "string \<Rightarrow> string option" where
  "profile_token_start b =
     (case strstr b ''ProfileToken>'' of
        Some i \<Rightarrow> Some (drop (i + 13) b)
      | None \<Rightarrow>
          (case strstr b ''trt:ProfileToken>'' of
             Some i \<Rightarrow> Some (drop (i + 17) b)
           | None \<Rightarrow> map_option (\<lambda>i. drop (i + 14) b) (strstr b ''ProfileToken=\"'')))"

definition profile_token :: "string \<Rightarrow> string" where
  "profile_token request =
     (case request_body request of
        None \<Rightarrow> ''Profile_1''
      | Some b \<Rightarrow>
          (case profile_token_start b of
             None \<Rightarrow> ''Profile_1''
           | Some start \<Rightarrow>
               token_until 32 (if strstr b ''ProfileToken=\"'' \<noteq> None then ''\"'' else ''</'') ''Profile_1'' start))"

definition rtsp_uri :: "streamer_config \<Rightarrow> string \<Rightarrow> string" where
  "rtsp_uri g token =
     fit 128 (''rtsp://'' @ sc_server_ip g @ '':'' @ decimal_int 554 @ ''/'' @ (if token = ''Profile_2'' then ''ch1'' else ''ch0''))"

definition handle_get_stream_uri :: "onvif_env \<Rightarrow> string \<Rightarrow> http_out \<Rightarrow> http_out option" where
  "handle_get_stream_uri env request o1 =
     (case oe_config env of
        None \<Rightarrow> None
      | Some g \<Rightarrow>
          soap_reply env ''http://www.onvif.org/ver10/media/wsdl/GetStreamUriResponse'' 1024
           (''<trt:GetStreamUriResponse>'' @ ''<trt:MediaUri>'' @
            ''<tt:Uri>'' @ rtsp_uri g (profile_token request) @ ''</tt:Uri>'' @
            ''<tt:InvalidAfterConnect>false</tt:InvalidAfterConnect>'' @
            ''<tt:InvalidAfterReboot>false</tt:InvalidAfterReboot>'' @ ''<tt:Timeout>PT60S</tt:Timeout>'' @
            ''</trt:MediaUri>'' @ ''</trt:GetStreamUriResponse>'') o1)"

section \<open>Events\<close>

text \<open>The first address that is not a loopback's or Docker's; of the result the code and the buffer.\<close>

definition usable_interface :: "net_interface \<Rightarrow> bool" where
  "usable_interface i \<longleftrightarrow>
     if_inet i \<and> \<not> if_loopback i \<and> if_name i \<noteq> ''lo'' \<and> \<not> starts_with ''docker'' (if_name i) \<and> if_host i \<noteq> None"

definition get_device_ip_address :: "net_interface list option \<Rightarrow> nat \<Rightarrow> c_int \<times> string" where
  "get_device_ip_address ifaddrs buffer_size =
     (case ifaddrs of
        None \<Rightarrow> (-1, fit buffer_size ''0.0.0.0'')
      | Some ifs \<Rightarrow>
          (case find usable_interface ifs of
             Some i \<Rightarrow> (0, fit buffer_size (the (if_host i)))
           | None \<Rightarrow> (0, fit buffer_size ''0.0.0.0'')))"

definition two_digits :: "c_int \<Rightarrow> string" where
  "two_digits n = [digit (nat n div 10), digit (nat n mod 10)]"

text \<open>\<open>strftime\<close> with \<open>%Y-%m-%dT%H:%M:%SZ\<close>, of a time as \<open>gmtime\<close> gives it.\<close>

definition iso_time :: "tm \<Rightarrow> string" where
  "iso_time t =
     decimal_int (tm_year t + 1900) @ ''-'' @ two_digits (tm_mon t + 1) @ ''-'' @ two_digits (tm_mday t) @ ''T'' @
     two_digits (tm_hour t) @ '':'' @ two_digits (tm_min t) @ '':'' @ two_digits (tm_sec t) @ ''Z''"

definition event_service_address :: "onvif_env \<Rightarrow> string" where
  "event_service_address env =
     (let (r, found) = get_device_ip_address (oe_interfaces env) 64;
          ip = (if r = 0 then found
                else case oe_config env of
                       Some g \<Rightarrow> if sc_server_ip g \<noteq> [] then take 63 (sc_server_ip g) else ''127.0.0.1''
                     | None \<Rightarrow> ''127.0.0.1'');
          port = (case oe_config env of Some g \<Rightarrow> if 0 < sc_http_port g then sc_http_port g else 8080 | None \<Rightarrow> 8080)
      in fit 256 (''http://'' @ ip @ '':'' @ decimal_int port @ ''/onvif/event_service''))"

definition handle_event_subscribe :: "onvif_env \<Rightarrow> http_out \<Rightarrow> http_out option" where
  "handle_event_subscribe env o1 =
     (let now = oe_time env
      in soap_reply env ''http://docs.oasis-open.org/wsn/bw-2/NotificationProducer/SubscribeResponse'' 1024
           (''<wsnt:SubscribeResponse>'' @ ''<wsnt:SubscriptionReference>'' @
            ''<wsa5:Address>'' @ event_service_address env @ ''</wsa5:Address>'' @ ''<wsa5:ReferenceParameters>'' @
            ''<SubscriptionId xmlns=\"http://www.onvif.org/ver10/events/wsdl\">'' @
            generate_uuid 37 (oe_subscription env) @ ''</SubscriptionId>'' @ ''</wsa5:ReferenceParameters>'' @
            ''</wsnt:SubscriptionReference>'' @
            ''<wsnt:CurrentTime>'' @ iso_time (oe_gmtime env now) @ ''</wsnt:CurrentTime>'' @
            ''<wsnt:TerminationTime>'' @ iso_time (oe_gmtime env (now + 120)) @ ''</wsnt:TerminationTime>'' @
            ''</wsnt:SubscribeResponse>'') o1)"

section \<open>Requests\<close>

definition is_blank :: "char \<Rightarrow> bool" where
  "is_blank c \<longleftrightarrow> c \<in> {CHR '' '', CHR 0x09, CHR 0x0A, CHR 0x0D}"

text \<open>
  The first element of the SOAP body with a prefix in its name that is not that of SOAP, from its name on.
\<close>

function find_action :: "string \<Rightarrow> string option" where
  "find_action s =
     (case strchr s CHR ''<'' of
        None \<Rightarrow> None
      | Some i \<Rightarrow>
          (let r = dropWhile is_blank (drop (i + 1) s);
               colon = strchr r CHR '':'';
               stop = length (takeWhile (\<lambda>c. \<not> (c = CHR ''>'' \<or> is_blank c)) r)
           in if starts_with ''SOAP-ENV:'' r \<or> starts_with ''soap:'' r then find_action r
              else if colon \<noteq> None \<and> stop < length r \<and> the colon < stop then Some r
              else find_action r))"
  by auto
termination
proof (relation "measure length", goal_cases)
  case (2 s i r)
  have "length (dropWhile is_blank (drop (i + 1) s)) \<le> length (drop (i + 1) s)" by (rule length_dropWhile_le)
  also have "\<dots> < length s" using strchr_bound [OF 2(1)] by auto
  finally show ?case by (simp add: 2)
next
  case (3 s i r)
  have "length (dropWhile is_blank (drop (i + 1) s)) \<le> length (drop (i + 1) s)" by (rule length_dropWhile_le)
  also have "\<dots> < length s" using strchr_bound [OF 3(1)] by auto
  finally show ?case by (simp add: 3)
qed simp

declare find_action.simps [simp del]

definition action_name :: "string \<Rightarrow> string option" where
  "action_name r =
     (case strchr r CHR '':'' of
        None \<Rightarrow> None
      | Some i \<Rightarrow>
          (let name = takeWhile (\<lambda>c. c \<noteq> CHR ''>'' \<and> c \<noteq> CHR '' '' \<and> c \<noteq> CHR ''/'') (drop (i + 1) r)
           in if name = [] then None else Some name))"

definition extract_soap_action_from_body :: "bool \<Rightarrow> string \<Rightarrow> string option" where
  "extract_soap_action_from_body malloc_ok request =
     (case request_body request of
        None \<Rightarrow> None
      | Some b \<Rightarrow>
          (case (case strstr b ''<SOAP-ENV:Body>'' of Some i \<Rightarrow> Some i | None \<Rightarrow> strstr b ''<soap:Body>'') of
             None \<Rightarrow> None
           | Some i \<Rightarrow>
               (case find_action (drop i b) of
                  None \<Rightarrow> None
                | Some r \<Rightarrow> (case action_name r of None \<Rightarrow> None | Some a \<Rightarrow> if malloc_ok then Some a else None))))"

text \<open>The action of a header, in quotes; \<open>quoted_text\<close> is what stands before the next quote.\<close>

definition quoted_text :: "bool \<Rightarrow> string \<Rightarrow> string option" where
  "quoted_text malloc_ok s =
     (case strchr s CHR 0x22 of None \<Rightarrow> None | Some len \<Rightarrow> if malloc_ok then Some (take len s) else None)"

definition soap_action_header :: "bool \<Rightarrow> string \<Rightarrow> string option" where
  "soap_action_header malloc_ok request =
     (case strstr request ''SOAPAction:'' of
        None \<Rightarrow> None
      | Some i \<Rightarrow>
          (let r = dropWhile (\<lambda>c. c = CHR '' '') (drop (i + 11) request)
           in if c_at r 0 = CHR 0x22 then quoted_text malloc_ok (tl r) else None))"

definition content_type_action :: "bool \<Rightarrow> string \<Rightarrow> string option" where
  "content_type_action malloc_ok request =
     (case strstr request ''Content-Type:'' of
        None \<Rightarrow> None
      | Some i \<Rightarrow>
          (let r = drop i request
           in case strstr r ''action=\"'' of None \<Rightarrow> None | Some j \<Rightarrow> quoted_text malloc_ok (drop (j + 8) r)))"

definition soap_action :: "onvif_env \<Rightarrow> string \<Rightarrow> string option" where
  "soap_action env request =
     (case soap_action_header (oe_memory env 0) request of
        Some a \<Rightarrow> Some a
      | None \<Rightarrow>
          (case content_type_action (oe_memory env 1) request of
             Some a \<Rightarrow> Some a
           | None \<Rightarrow> extract_soap_action_from_body (oe_memory env 2) request))"

text \<open>
  What a request leads to: what is sent, whether the device is rebooted and whether a picture was taken.
\<close>

record onvif_outcome =
  oo_out :: http_out
  oo_reboot :: bool
  oo_snapshot :: "c_int option"

definition soap_sent :: "http_out \<Rightarrow> onvif_outcome" where
  "soap_sent o1 = \<lparr>oo_out = o1, oo_reboot = False, oo_snapshot = None\<rparr>"

definition has :: "string \<Rightarrow> string \<Rightarrow> bool" where
  "has s p \<longleftrightarrow> strstr s p \<noteq> None"

definition service_capabilities :: "onvif_env \<Rightarrow> string \<Rightarrow> http_out \<Rightarrow> http_out option" where
  "service_capabilities env request o1 =
     (if has request ''POST /onvif/media_service'' then handle_get_media_service_capabilities env o1
      else if has request ''POST /onvif/device_service'' then handle_get_device_service_capabilities env o1
      else if has request ''POST /onvif/ptz_service'' then handle_ptz_get_service_capabilities env o1
      else if has request ''POST /onvif/event_service'' then handle_event_get_service_capabilities env o1
      else handle_get_service_capabilities env o1)"

definition not_implemented :: string where
  "not_implemented = ''HTTP/1.1 501 Not Implemented'' @ CRLF @ ''Content-Length: 0'' @ CRLF @ ''Connection: close'' @ CRLF @ CRLF"

definition bad_request :: string where
  "bad_request = ''HTTP/1.1 400 Bad Request'' @ CRLF @ ''Content-Length: 0'' @ CRLF @ ''Connection: close'' @ CRLF @ CRLF"

definition onvif_unauthorized :: string where
  "onvif_unauthorized =
     ''HTTP/1.1 401 Unauthorized'' @ CRLF @ ''WWW-Authenticate: Basic realm=\"Thingino ONVIF Server\"'' @ CRLF @
     ''Content-Type: text/plain'' @ CRLF @ ''Content-Length: 12'' @ CRLF @ ''Connection: close'' @ CRLF @ CRLF @
     ''Unauthorized''"

definition soap_dispatch :: "onvif_env \<Rightarrow> string \<Rightarrow> string \<Rightarrow> http_out \<Rightarrow> onvif_outcome option" where
  "soap_dispatch env request action o1 =
     (let sent = map_option soap_sent
      in if has action ''GetDeviceInformation'' then sent (handle_get_device_information env o1)
         else if has action ''GetSnapshotUri'' then sent (handle_get_snapshot_uri env o1)
         else if has action ''GetCapabilities'' then sent (handle_get_capabilities env o1)
         else if has action ''GetServices'' then sent (handle_get_services env o1)
         else if has action ''GetSystemDateAndTime'' then sent (handle_get_system_date_and_time env o1)
         else if has action ''GetVideoSources'' \<or> has action ''wsdlGetVideoSources'' then
           sent (handle_get_video_sources_alt env o1)
         else if has action ''GetProfiles'' then sent (handle_get_profiles env o1)
         else if has action ''GetStreamUri'' then sent (handle_get_stream_uri env request o1)
         else if has action ''GetVideoEncoderConfiguration'' then sent (handle_get_video_encoder_configuration env request o1)
         else if has action ''GetProfile'' then sent (handle_get_profiles env o1)
         else if has action ''GetServiceCapabilities'' then sent (service_capabilities env request o1)
         else if has action ''SystemReboot'' then
           map_option (\<lambda>o2. (soap_sent o2)\<lparr>oo_reboot := True\<rparr>) (handle_system_reboot env o1)
         else if has action ''GetOptions'' \<and> has request ''/onvif/imaging_service'' then
           sent (handle_imaging_get_options env o1)
         else if has action ''Subscribe'' then sent (handle_event_subscribe env o1)
         else if has action ''Unsubscribe'' then sent (handle_event_unsubscribe env o1)
         else Some (soap_sent (snd (http_send not_implemented o1))))"

definition snapshot_channel :: "string \<Rightarrow> c_int" where
  "snapshot_channel request =
     (case strstr request ''channel='' of
        None \<Rightarrow> 0
      | Some i \<Rightarrow> (case scan_int (drop (i + 8) request) of Some (n, r) \<Rightarrow> n | None \<Rightarrow> 0))"

text \<open>An authorised request.\<close>

definition answer_request :: "onvif_env \<Rightarrow> string \<Rightarrow> http_out \<Rightarrow> onvif_outcome option" where
  "answer_request env request o1 =
     (if has request ''GET /onvif/snapshot'' then
        (let channel = snapshot_channel request
         in map_option (\<lambda>o2. (soap_sent o2)\<lparr>oo_snapshot := Some channel\<rparr>)
              (handle_snapshot_request (oe_snapshot env channel) channel o1))
      else if has request ''POST /onvif/device_service'' \<or> has request ''POST /onvif/media_service'' \<or>
              has request ''POST /onvif/event_service'' \<or> has request ''POST /onvif'' then
        (case (case extract_soap_action_from_body (oe_memory env 3) request of
                 Some a \<Rightarrow> Some a | None \<Rightarrow> soap_action env request) of
           None \<Rightarrow> Some (soap_sent (http_send_error 400 (Some ''Could not determine SOAP action'') o1))
         | Some action \<Rightarrow> soap_dispatch env request action o1)
      else Some (soap_sent (snd (http_send bad_request o1))))"

definition is_get_system_date_time :: "string \<Rightarrow> bool" where
  "is_get_system_date_time request \<longleftrightarrow> has request ''<tds:GetSystemDateAndTime''"

definition onvif_module_handle_request ::
  "onvif_state \<Rightarrow> onvif_env \<Rightarrow> int \<Rightarrow> string \<Rightarrow> http_out \<Rightarrow> onvif_outcome option" where
  "onvif_module_handle_request s env fd request o1 =
     (if \<not> onvif_module_is_enabled s then Some (soap_sent (http_send_error 503 (Some ''ONVIF service unavailable'') o1))
      else case auth_get_client_info (\<lambda>fd. oe_peer env) fd of
        None \<Rightarrow> Some (soap_sent (http_send_error 500 (Some ''Internal server error'') o1))
      | Some client \<Rightarrow>
          (case (if is_get_system_date_time request then Some AUTH_RESULT_SUCCESS
                 else auth_check_onvif_request request (Some (ov_auth (on_config s))) (Some client)) of
             None \<Rightarrow> None
           | Some AUTH_RESULT_REQUIRED \<Rightarrow> Some (soap_sent (snd (http_send onvif_unauthorized o1)))
           | Some AUTH_RESULT_INVALID \<Rightarrow> Some (soap_sent (snd (http_send onvif_unauthorized o1)))
           | Some AUTH_RESULT_ERROR \<Rightarrow>
               Some (soap_sent (http_send_error 500 (Some ''Authentication system error'') o1))
           | Some AUTH_RESULT_SUCCESS \<Rightarrow> answer_request env request o1))"

section \<open>Formats\<close>

definition plain :: "string \<Rightarrow> bool" where
  "plain s \<longleftrightarrow> CHR ''%'' \<notin> set s"

lemma plain_simps [simp]:
  "plain []" "plain (c # s) \<longleftrightarrow> c \<noteq> CHR ''%'' \<and> plain s" "plain (s @ t) \<longleftrightarrow> plain s \<and> plain t"
  by (auto simp: plain_def)

lemma plain_take: "plain s \<Longrightarrow> plain (take n s)" "plain s \<Longrightarrow> plain (fit n s)"
  by (auto simp: plain_def fit_def dest: in_set_takeD)

lemma plain_digit: "n < 10 \<Longrightarrow> digit n \<noteq> CHR ''%''"
proof -
  have "list_all (\<lambda>n. digit n \<noteq> CHR ''%'') [0..<10]" by code_simp
  then show "n < 10 \<Longrightarrow> digit n \<noteq> CHR ''%''" by (simp add: list_all_iff del: upt_rec_numeral)
qed

lemma plain_dec_digits: "plain (dec_digits k n)"
  by (induction k arbitrary: n) (auto simp: plain_digit)

lemma plain_decimal [simp]: "plain (decimal n)" "plain (decimal_int i)"
  by (simp_all add: decimal_def decimal_int_def plain_dec_digits del: dec_digits.simps)

lemma plain_uuid [simp]: "plain (generate_uuid n r)"
  using uuid_text(2) [of n r] by (auto simp: plain_def list_all_iff uuid_char_less)

lemma c_format_plain: "plain u \<Longrightarrow> c_format (u @ f) args = map_option ((@) u) (c_format f args)"
  by (induction u; cases "c_format f args") auto

lemma c_format_text: "plain u \<Longrightarrow> c_format u args = Some u"
  using c_format_plain [of u "[]"] by simp

lemma c_format_string: "c_format (''%s'' @ f) (a # as) = map_option ((@) a) (c_format f as)"
  by simp

lemma c_format_none: "plain u \<Longrightarrow> d \<noteq> CHR ''%'' \<Longrightarrow> c_format (u @ CHR ''%'' # d # f) [] = None"
  by (simp add: c_format_plain)

text \<open>The parts of the envelope around the action and the id.\<close>

definition soap_head :: string where
  "soap_head = takeWhile (\<lambda>c. c \<noteq> CHR ''%'') soap_envelope_header"

definition soap_document :: "string \<Rightarrow> string \<Rightarrow> string \<Rightarrow> string" where
  "soap_document action uuid body =
     soap_head @ action @ ''</wsa:Action><wsa:MessageID>urn:uuid:'' @ uuid @
     ''</wsa:MessageID></SOAP-ENV:Header><SOAP-ENV:Body>'' @ body @ ''</SOAP-ENV:Body></SOAP-ENV:Envelope>''"

lemma header_parts:
  "soap_envelope_header = soap_head @ ''%s'' @ ''</wsa:Action><wsa:MessageID>urn:uuid:'' @ ''%s'' @
     ''</wsa:MessageID></SOAP-ENV:Header><SOAP-ENV:Body>''"
  "length soap_head \<le> 800"
  by code_simp+

lemma plain_head: "plain soap_head"
  by (auto simp: plain_def soap_head_def dest: set_takeWhileD)

lemma footer_parts: "soap_envelope_footer = ''</SOAP-ENV:Body></SOAP-ENV:Envelope>''"
  by (simp add: soap_envelope_footer_def)

lemma soap_format:
  "c_format (soap_envelope_header @ rest) [action, uuid] =
     map_option (\<lambda>t. soap_head @ action @ ''</wsa:Action><wsa:MessageID>urn:uuid:'' @ uuid @
       ''</wsa:MessageID></SOAP-ENV:Header><SOAP-ENV:Body>'' @ t) (c_format rest [])"
proof -
  have p: "plain ''</wsa:Action><wsa:MessageID>urn:uuid:''" "plain ''</wsa:MessageID></SOAP-ENV:Header><SOAP-ENV:Body>''"
    by simp_all
  show ?thesis unfolding header_parts(1) append_assoc
    by (simp only: c_format_plain plain_head p c_format_string option.map_comp) (simp add: comp_def)
qed

lemma envelope_fits:
  assumes "length body \<le> 4096"
  shows "fit 8192 (soap_envelope_header @ body @ soap_envelope_footer) = soap_envelope_header @ body @ soap_envelope_footer"
  using assms header_parts(2) by (intro fit_id) (simp add: header_parts(1) footer_parts)

lemma send_soap_plain:
  assumes "plain body" and "length body \<le> 4096" and "length action \<le> 200" and "length uuid \<le> 40"
  shows "send_soap_response action uuid body o1 =
    Some (http_send_response 200 (Some ''application/soap+xml; charset=utf-8'') (Some (soap_document action uuid body)) o1)"
proof -
  have fits: "length (soap_document action uuid body) < 8192"
    using assms(2-4) header_parts(2) by (simp add: soap_document_def)
  have format: "c_format (body @ soap_envelope_footer) [] = Some (body @ soap_envelope_footer)"
    using assms(1) by (intro c_format_text) (simp add: footer_parts)
  have doc: "soap_head @ action @ ''</wsa:Action><wsa:MessageID>urn:uuid:'' @ uuid @
      ''</wsa:MessageID></SOAP-ENV:Header><SOAP-ENV:Body>'' @ body @ soap_envelope_footer = soap_document action uuid body"
    by (simp only: soap_document_def footer_parts)
  show ?thesis
    unfolding send_soap_response_def Let_def envelope_fits [OF assms(2)] soap_format format option.map doc fit_id [OF fits]
    by (rule refl)
qed

lemma send_soap_percent:
  assumes "body = u @ CHR ''%'' # d # r" and "plain u" and "d \<noteq> CHR ''%''" and "length body \<le> 4096"
  shows "send_soap_response action uuid body o1 = None"
proof -
  have "c_format (body @ soap_envelope_footer) [] = None"
    using assms(1-3) c_format_none [of u d "r @ soap_envelope_footer"] by simp
  then show ?thesis unfolding send_soap_response_def Let_def envelope_fits [OF assms(4)] soap_format by simp
qed

text \<open>A handler whose text has no percent sign sends the envelope with its text, cut to the buffer.\<close>

lemma soap_reply_plain:
  assumes "plain text'" and "0 < n" and "n \<le> 4096" and "length action \<le> 200"
  shows "soap_reply env action n text' o1 =
    Some (http_send_response 200 (Some ''application/soap+xml; charset=utf-8'')
      (Some (soap_document action (generate_uuid 37 (oe_uuid env)) (fit n text'))) o1)"
  unfolding soap_reply_def
  using assms uuid_text(1) [of 37 "oe_uuid env"] fit_length [of n text']
  by (intro send_soap_plain) (simp_all add: plain_take order.strict_implies_order [OF less_le_trans])

section \<open>Every answer is defined\<close>

text \<open>
  A configuration with two streams and texts without percent signs, whose numbers are of type \<open>int\<close>, and what
  the system reports: files without percent signs, times in their ranges.
\<close>

definition profile_stream_ok :: "stream_config \<Rightarrow> bool" where
  "profile_stream_ok st \<longleftrightarrow>
     plain (stream_format st) \<and> length (stream_format st) < 15 \<and> plain (stream_info st) \<and>
     int_range (stream_width st) \<and> int_range (stream_height st) \<and> int_range (stream_bitrate st)"

definition config_ok :: "streamer_config \<Rightarrow> bool" where
  "config_ok g \<longleftrightarrow>
     plain (sc_server_ip g) \<and> length (sc_server_ip g) < 64 \<and> int_range (sc_http_port g) \<and>
     int_range (sc_fps g) \<and> int_range (sc_fps g * 2) \<and> 2 \<le> length (sc_streams g) \<and> list_all profile_stream_ok (sc_streams g)"

definition tm_ok :: "tm \<Rightarrow> bool" where
  "tm_ok t \<longleftrightarrow> (\<forall>x \<in> {tm_hour t, tm_min t, tm_sec t, tm_mon t, tm_mday t}. 0 \<le> x \<and> x < 99) \<and>
     0 \<le> tm_year t \<and> tm_year t < 10000"

definition system_ok :: "onvif_env \<Rightarrow> bool" where
  "system_ok env \<longleftrightarrow>
     (\<forall>s. oe_time_zone env = Some s \<longrightarrow> plain s) \<and> (\<forall>s. oe_os_release env = Some s \<longrightarrow> plain s) \<and>
     (\<forall>ifs. oe_interfaces env = Some ifs \<longrightarrow> (\<forall>i \<in> set ifs. \<forall>h. if_host i = Some h \<longrightarrow> plain h)) \<and>
     (\<forall>now. tm_ok (oe_localtime env now) \<and> tm_ok (oe_gmtime env now))"

lemma plain_drop: "plain s \<Longrightarrow> plain (drop n s)" "plain s \<Longrightarrow> plain (tl s)" "plain s \<Longrightarrow> plain (butlast s)"
  "plain s \<Longrightarrow> plain (takeWhile P s)"
  by (auto simp: plain_def dest: in_set_dropD in_set_butlastD set_takeWhileD) (metis list.set_sel(2) list.sel(2))

lemma plain_fgets: "plain s \<Longrightarrow> plain (fgets_line n s)"
  unfolding fgets_line_def by (intro plain_take) (simp add: plain_drop)

lemma plain_lines: "plain s \<Longrightarrow> list_all plain (fgets_lines n s)"
proof (induction n s rule: fgets_lines.induct)
  case (1 n s)
  then show ?case by (cases "s = [] \<or> n < 2") (simp_all add: fgets_lines.simps [of n s] plain_fgets plain_drop)
qed

definition device_plain :: "device_information \<Rightarrow> bool" where
  "device_plain d \<longleftrightarrow>
     plain (di_manufacturer d) \<and> plain (di_model d) \<and> plain (di_firmware d) \<and> plain (di_serial d) \<and> plain (di_hardware d)"

lemma release_value_plain: "plain v \<Longrightarrow> plain (release_value v)"
  by (simp add: release_value_def Let_def plain_drop)

lemma serial_plain: "plain v \<Longrightarrow> plain (serial_of v)"
  by (simp add: serial_of_def plain_take plain_drop split: option.split)

lemma hardware_plain: "plain v \<Longrightarrow> plain (hardware_of v)"
  by (simp add: hardware_of_def plain_take)

lemma device_lines_plain: "device_plain d \<Longrightarrow> list_all plain ls \<Longrightarrow> device_plain (foldl release_line d ls)"
proof (induction ls arbitrary: d)
  case (Cons l ls)
  have "plain (release_value (drop n l))" for n using Cons.prems(2) by (simp add: release_value_plain plain_drop)
  with Cons.prems(1) have "device_plain (release_line d l)"
    by (simp add: device_plain_def release_line_def Let_def plain_take serial_plain hardware_plain split: option.split)
  with Cons show ?case by simp
qed simp

lemma device_information_plain: "system_ok env \<Longrightarrow> device_plain (read_device_information (oe_os_release env))"
proof -
  assume "system_ok env"
  then have "plain s" if "oe_os_release env = Some s" for s using that by (simp add: system_ok_def)
  moreover have "device_plain default_device" by (simp add: device_plain_def default_device_def)
  ultimately show ?thesis using device_lines_plain plain_lines
    by (simp add: read_device_information_def split: option.split)
qed

lemma time_zone_plain: "system_ok env \<Longrightarrow> plain (time_zone (oe_time_zone env))"
  by (simp add: time_zone_def system_ok_def Let_def plain_fgets plain_drop split: option.split)

lemma two_digits_plain: "0 \<le> n \<Longrightarrow> n < 100 \<Longrightarrow> plain (two_digits n)"
  by (simp add: two_digits_def plain_digit)

lemma release_value_length: "length (release_value v) \<le> length v"
  by (simp add: release_value_def Let_def)

definition device_fits :: "device_information \<Rightarrow> bool" where
  "device_fits d \<longleftrightarrow>
     length (di_manufacturer d) \<le> 63 \<and> length (di_model d) \<le> 63 \<and> length (di_firmware d) \<le> 31 \<and>
     length (di_serial d) \<le> 63 \<and> length (di_hardware d) \<le> 31"

lemma serial_fits: "length (serial_of v) \<le> 63"
  by (auto simp: serial_of_def split: option.split intro: order_trans [OF length_takeWhile_le])

lemma device_lines_fit: "device_fits d \<Longrightarrow> device_fits (foldl release_line d ls)"
proof (induction ls arbitrary: d)
  case (Cons l ls)
  then have "device_fits (release_line d l)"
    by (simp add: device_fits_def release_line_def hardware_of_def fit_def serial_fits Let_def split: option.split)
  with Cons.IH show ?case by simp
qed simp

lemma device_information_fits: "device_fits (read_device_information f)"
proof -
  have "device_fits default_device" by (simp add: device_fits_def default_device_def)
  with device_lines_fit show ?thesis by (simp add: read_device_information_def split: option.split)
qed

lemma time_zone_fits: "length (time_zone f) \<le> 63"
proof -
  have "length (fgets_line 64 s) \<le> 63" for s by (simp add: fgets_line_def)
  then show ?thesis by (simp add: time_zone_def Let_def order_trans [OF diff_le_self] split: option.split)
qed

subsection \<open>The handlers\<close>

text \<open>The answer of a handler: a text without percent signs that fits its buffer and is complete.\<close>

definition complete_text :: "string \<Rightarrow> bool" where
  "complete_text t \<longleftrightarrow> suffix ''Response>'' t \<or> t = ''<wsnt:UnsubscribeResponse/>''"

definition soap_ok :: "onvif_env \<Rightarrow> http_out \<Rightarrow> http_out option \<Rightarrow> bool" where
  "soap_ok env o1 h \<longleftrightarrow>
     (\<exists>A n T. h = soap_reply env A n T o1 \<and> plain T \<and> length T < n \<and> n \<le> 4096 \<and> length A \<le> 200 \<and> complete_text T)"

lemma soap_okI:
  "h = soap_reply env A n T o1 \<Longrightarrow> plain T \<Longrightarrow> length T < n \<Longrightarrow> n \<le> 4096 \<Longrightarrow> length A \<le> 200 \<Longrightarrow>
   suffix ''Response>'' T \<Longrightarrow> soap_ok env o1 h"
  unfolding soap_ok_def complete_text_def by blast

lemma decimal_int_le: "int_range i \<Longrightarrow> length (decimal_int i) \<le> 11"
  by (rule length_decimal_int)

lemma tm_numbers:
  assumes "tm_ok t"
  shows "length (decimal_int (tm_hour t)) \<le> 11" "length (decimal_int (tm_min t)) \<le> 11" "length (decimal_int (tm_sec t)) \<le> 11"
    "length (decimal_int (tm_year t + 1900)) \<le> 11" "length (decimal_int (tm_mon t + 1)) \<le> 11"
    "length (decimal_int (tm_mday t)) \<le> 11" "plain (iso_time t)" "length (iso_time t) \<le> 27"
  using assms by (auto simp: tm_ok_def int_range_def iso_time_def two_digits_plain two_digits_def plain_digit intro!: decimal_int_le)

lemma fixed_ok:
  "soap_ok env o1 (handle_get_service_capabilities env o1)" "soap_ok env o1 (handle_get_device_service_capabilities env o1)"
  "soap_ok env o1 (handle_get_media_service_capabilities env o1)" "soap_ok env o1 (handle_ptz_get_service_capabilities env o1)"
  "soap_ok env o1 (handle_event_get_service_capabilities env o1)" "soap_ok env o1 (handle_imaging_get_options env o1)"
  "soap_ok env o1 (handle_system_reboot env o1)"
  by (rule soap_okI, (rule handle_get_service_capabilities_def handle_get_device_service_capabilities_def
      handle_get_media_service_capabilities_def handle_ptz_get_service_capabilities_def handle_event_get_service_capabilities_def
      handle_imaging_get_options_def handle_system_reboot_def);
      (intro suffix_appendI; code_simp)?; simp)+

lemma unsubscribe_ok: "soap_ok env o1 (handle_event_unsubscribe env o1)"
  unfolding soap_ok_def complete_text_def
  by (rule exI, rule exI, rule exI, rule conjI, rule handle_event_unsubscribe_def) simp

lemma config_texts:
  assumes "config_ok g"
  shows "plain (sc_server_ip g)" "length (sc_server_ip g) \<le> 63" "length (decimal_int (sc_http_port g)) \<le> 11"
    "length (decimal_int (sc_fps g)) \<le> 11" "length (decimal_int (get_encoder_gop_length (Some g))) \<le> 11"
  using assms by (auto simp: config_ok_def get_encoder_gop_length_def int_range_def intro!: decimal_int_le)

lemma stream_texts:
  assumes "profile_stream_ok st"
  shows "plain (stream_format st)" "length (stream_format st) \<le> 14" "length (decimal_int (stream_width st)) \<le> 11"
    "length (decimal_int (stream_height st)) \<le> 11" "length (decimal_int (stream_bitrate st)) \<le> 11"
    "plain (profile_name d st) \<or> \<not> plain d" "length (profile_name d st) \<le> 63"
  using assms by (auto simp: profile_stream_ok_def profile_name_def plain_take fit_def intro!: decimal_int_le)

lemma h264_name: "plain (get_h264_profile_name env f i)" "length (get_h264_profile_name env f i) \<le> 8"
  by (auto simp: get_h264_profile_name_def Let_def)

lemma streams_ok:
  assumes "config_ok g" and "i < 2"
  shows "profile_stream_ok (sc_streams g ! i)"
  using assms by (auto simp: config_ok_def list_all_length)

lemma date_ok: "system_ok env \<Longrightarrow> soap_ok env o1 (handle_get_system_date_and_time env o1)"
proof -
  assume "system_ok env"
  then have t: "tm_ok (oe_localtime env (oe_time env))" and z: "plain (time_zone (oe_time_zone env))"
    by (simp_all add: system_ok_def time_zone_plain)
  note b = tm_numbers(1-6) [OF t] time_zone_fits [of "oe_time_zone env"]
  show ?thesis
    by (rule soap_okI, unfold handle_get_system_date_and_time_def Let_def, rule refl)
      ((intro suffix_appendI; code_simp) | use b z in simp)+
qed

lemma device_ok: "system_ok env \<Longrightarrow> soap_ok env o1 (handle_get_device_information env o1)"
proof -
  assume "system_ok env"
  note p = device_information_plain [OF this, unfolded device_plain_def]
  note b = device_information_fits [of "oe_os_release env", unfolded device_fits_def]
  show ?thesis
    by (rule soap_okI, unfold handle_get_device_information_def Let_def, rule refl)
      ((intro suffix_appendI; code_simp) | use b p in simp)+
qed

lemma addresses_ok:
  assumes "oe_config env = Some g" and "config_ok g"
  shows "soap_ok env o1 (handle_get_snapshot_uri env o1)" "soap_ok env o1 (handle_get_capabilities env o1)"
    "soap_ok env o1 (handle_get_services env o1)"
proof -
  note b = config_texts [OF assms(2)]
  show "soap_ok env o1 (handle_get_snapshot_uri env o1)"
    by (rule soap_okI, unfold handle_get_snapshot_uri_def assms(1) option.case, rule refl)
      ((intro suffix_appendI; code_simp) | use b in simp)+
  show "soap_ok env o1 (handle_get_capabilities env o1)"
    by (rule soap_okI, unfold handle_get_capabilities_def assms(1) option.case, rule refl)
      ((intro suffix_appendI; code_simp) | use b in simp)+
  show "soap_ok env o1 (handle_get_services env o1)"
    by (rule soap_okI, unfold handle_get_services_def assms(1) option.case, rule refl)
      ((intro suffix_appendI; code_simp) | use b in simp)+
qed

lemma video_sources_ok:
  assumes "oe_config env = Some g" and "config_ok g"
  shows "soap_ok env o1 (handle_get_video_sources_alt env o1)"
proof -
  obtain st sts where s: "sc_streams g = st # sts" using assms(2) by (cases "sc_streams g") (auto simp: config_ok_def)
  with streams_ok [OF assms(2), of 0] have "profile_stream_ok st" by simp
  note b = stream_texts [OF this] config_texts [OF assms(2)]
  show ?thesis
    by (rule soap_okI, unfold handle_get_video_sources_alt_def assms(1) option.case s list.case, rule refl)
      ((intro suffix_appendI; code_simp) | use b in simp)+
qed

lemma stream_uri_ok:
  assumes "oe_config env = Some g" and "config_ok g"
  shows "soap_ok env o1 (handle_get_stream_uri env req o1)"
proof -
  have b: "plain (rtsp_uri g t)" "length (rtsp_uri g t) \<le> 127" for t
    using config_texts(1) [OF assms(2)] by (auto simp: rtsp_uri_def fit_def intro: plain_take)
  show ?thesis
    by (rule soap_okI, unfold handle_get_stream_uri_def assms(1) option.case, rule refl)
      ((intro suffix_appendI; code_simp) | use b [of "profile_token req"] in simp)+
qed

lemma profiles_ok:
  assumes "oe_config env = Some g" and "config_ok g"
  shows "soap_ok env o1 (handle_get_profiles env o1)"
proof -
  obtain st0 st1 sts where s: "sc_streams g = st0 # st1 # sts"
    using assms(2) by (cases "sc_streams g"; cases "tl (sc_streams g)") (auto simp: config_ok_def)
  with streams_ok [OF assms(2), of 0] streams_ok [OF assms(2), of 1] have st: "profile_stream_ok st0" "profile_stream_ok st1" by simp_all
  note b = stream_texts(1-5) [OF st(1)] stream_texts(1-5) [OF st(2)] stream_texts(6,7) [OF st(1), of "''Main Stream''"]
    stream_texts(6,7) [OF st(2), of "''Sub Stream''"] config_texts [OF assms(2)]
    h264_name [of env "stream_format st0" 0] h264_name [of env "stream_format st1" 1]
  have h: "handle_get_profiles env o1 =
      soap_reply env ''http://www.onvif.org/ver10/media/wsdl/GetProfilesResponse'' 3072 (profiles_body env g st0 st1) o1"
    using b by (simp add: handle_get_profiles_def assms(1) s)
  have p: "plain (profiles_body env g st0 st1)" unfolding profiles_body_def using b
    by (simp add: get_session_timeout_seconds_def)
  have "length (decimal_int 5) = 1" "length (decimal_int get_session_timeout_seconds) = 2" by code_simp+
  then have l: "length (profiles_body env g st0 st1) < 3072" unfolding profiles_body_def using b by simp
  have sf: "suffix ''Response>'' (profiles_body env g st0 st1)" unfolding profiles_body_def
    by (intro suffix_appendI) code_simp
  show ?thesis by (rule soap_okI [OF h p l _ _ sf]) simp_all
qed

lemma encoder_ok:
  assumes "oe_config env = Some g" and "config_ok g" and "plain (configuration_token req)"
    and "length (configuration_token req) \<le> 31"
  shows "soap_ok env o1 (handle_get_video_encoder_configuration env req o1)"
proof -
  let ?t = "configuration_token req"
  define i :: nat where "i = (if ?t = ''VideoEncoder_2'' then 1 else 0)"
  then have i: "i < 2" by simp
  let ?st = "sc_streams g ! i"
  from i assms(2) have "i < length (sc_streams g)" by (auto simp: config_ok_def)
  then have h: "handle_get_video_encoder_configuration env req o1 =
      soap_reply env ''http://www.onvif.org/ver10/media/wsdl/GetVideoEncoderConfigurationResponse'' 1024
        (encoder_body env g ?t i ?st) o1"
    by (simp add: handle_get_video_encoder_configuration_def assms(1) i_def Let_def)
  note b = stream_texts(1-5) [OF streams_ok [OF assms(2) i]] config_texts [OF assms(2)] assms(3,4)
    h264_name [of env "take 15 (stream_format ?st)" i]
  have p: "plain (encoder_body env g ?t i ?st)" unfolding encoder_body_def using b
    by (simp add: get_session_timeout_seconds_def plain_take)
  have "length (decimal_int 5) = 1" "length (decimal_int get_session_timeout_seconds) = 2" by code_simp+
  then have l: "length (encoder_body env g ?t i ?st) < 1024" unfolding encoder_body_def using b by simp
  have sf: "suffix ''Response>'' (encoder_body env g ?t i ?st)" unfolding encoder_body_def
    by (intro suffix_appendI) code_simp
  show ?thesis by (rule soap_okI [OF h p l _ _ sf]) simp_all
qed

lemma token_length: "length d < n \<Longrightarrow> length (token_until n m d s) < n"
  by (auto simp: token_until_def split: option.split)

lemma configuration_token_length: "length (configuration_token req) \<le> 31"
proof -
  have "length (token_until 32 m ''VideoEncoder_1'' s) < 32" for m s by (rule token_length) simp
  then show ?thesis by (simp add: configuration_token_def less_Suc_eq_le [symmetric] split: option.split)
qed

lemma subscribe_ok:
  assumes "system_ok env" and "\<And>g. oe_config env = Some g \<Longrightarrow> config_ok g"
  shows "soap_ok env o1 (handle_event_subscribe env o1)"
proof -
  have found: "plain (snd (get_device_ip_address (oe_interfaces env) 64))"
  proof (cases "oe_interfaces env")
    case (Some ifs)
    have "plain (the (if_host i))" if "find usable_interface ifs = Some i" for i
    proof -
      from that have "i \<in> set ifs" "usable_interface i" by (auto simp: find_Some_iff)
      with assms(1) Some show ?thesis by (auto simp: system_ok_def usable_interface_def)
    qed
    with Some show ?thesis by (simp add: get_device_ip_address_def plain_take fit_def split: option.split)
  qed (simp add: get_device_ip_address_def fit_def)
  have "plain (event_service_address env)"
    using found config_texts(1) [OF assms(2)]
    by (auto simp: event_service_address_def split: prod.split option.split intro!: plain_take)
  moreover have "length (fit 256 x) \<le> 255" for x by (simp add: fit_def)
  then have "length (event_service_address env) \<le> 255" by (simp add: event_service_address_def split: prod.split)
  moreover have "tm_ok (oe_gmtime env now)" for now using assms(1) by (simp add: system_ok_def)
  then have iso: "plain (iso_time (oe_gmtime env now))" "length (iso_time (oe_gmtime env now)) \<le> 27" for now
    by (simp_all add: tm_numbers(7,8))
  moreover note uuid_text(1) [of 37 "oe_subscription env"] iso [of "oe_time env"] iso [of "oe_time env + 120"]
  ultimately have b: "plain (event_service_address env)" "length (event_service_address env) \<le> 255"
    "length (generate_uuid 37 (oe_subscription env)) \<le> 36"
    "plain (iso_time (oe_gmtime env (oe_time env)))" "length (iso_time (oe_gmtime env (oe_time env))) \<le> 27"
    "plain (iso_time (oe_gmtime env (oe_time env + 120)))" "length (iso_time (oe_gmtime env (oe_time env + 120))) \<le> 27"
    by simp_all
  show ?thesis
    by (rule soap_okI, unfold handle_event_subscribe_def Let_def, rule refl)
      ((intro suffix_appendI; code_simp) | use b in simp)+
qed

subsection \<open>Requests\<close>

text \<open>
  The answers an authorised request can get: a SOAP envelope with a complete text, the refusals, or what the
  snapshot handler sends.
\<close>

definition soap_answer :: "onvif_env \<Rightarrow> http_out \<Rightarrow> http_out \<Rightarrow> bool" where
  "soap_answer env o1 o2 \<longleftrightarrow>
     (\<exists>action text. complete_text text \<and>
        o2 = http_send_response 200 (Some ''application/soap+xml; charset=utf-8'')
               (Some (soap_document action (generate_uuid 37 (oe_uuid env)) text)) o1)"

lemma soap_ok_answer: "soap_ok env o1 h \<Longrightarrow> \<exists>o2. h = Some o2 \<and> soap_answer env o1 o2"
proof -
  assume "soap_ok env o1 h"
  then obtain A n T where "h = soap_reply env A n T o1" "plain T" "length T < n" "n \<le> 4096" "length A \<le> 200" "complete_text T"
    by (auto simp: soap_ok_def)
  with soap_reply_plain [of T n A env o1] show ?thesis by (auto simp: soap_answer_def fit_id)
qed

lemma dispatch_answers:
  assumes "oe_config env = Some g" and "config_ok g" and "system_ok env" and "plain (configuration_token request)"
  shows "\<exists>oc. soap_dispatch env request action o1 = Some oc \<and>
    (soap_answer env o1 (oo_out oc) \<or> oo_out oc = snd (http_send not_implemented o1))"
proof -
  define good where "good = (\<lambda>h :: onvif_outcome option. \<exists>oc. h = Some oc \<and>
    (soap_answer env o1 (oo_out oc) \<or> oo_out oc = snd (http_send not_implemented o1)))"
  have sent: "good (map_option soap_sent h)" if "soap_ok env o1 h" for h
    using soap_ok_answer [OF that] by (auto simp: soap_sent_def good_def)
  have reboot: "good (map_option (\<lambda>o2. (soap_sent o2)\<lparr>oo_reboot := True\<rparr>) (handle_system_reboot env o1))"
    using soap_ok_answer [OF fixed_ok(7) [of env o1]] by (auto simp: soap_sent_def good_def)
  have caps: "soap_ok env o1 (service_capabilities env request o1)"
    by (simp add: service_capabilities_def fixed_ok)
  have either: "good (if b then h else h')" if "good h" and "good h'" for b h h' using that by simp
  have none: "good (Some (soap_sent (snd (http_send not_implemented o1))))" by (simp add: good_def soap_sent_def)
  have "soap_ok env o1 (handle_event_subscribe env o1)" using assms(1,2) by (intro subscribe_ok [OF assms(3)]) simp
  note ok = this caps unsubscribe_ok fixed_ok(6) date_ok [OF assms(3)] device_ok [OF assms(3)] addresses_ok [OF assms(1,2)]
    video_sources_ok [OF assms(1,2)] profiles_ok [OF assms(1,2)] stream_uri_ok [OF assms(1,2)]
    encoder_ok [OF assms(1,2,4) configuration_token_length]
  have "good (soap_dispatch env request action o1)"
    unfolding soap_dispatch_def Let_def by (intro either sent reboot none ok)
  then show ?thesis by (simp add: good_def)
qed

section \<open>Properties\<close>

text \<open>
  C31. On a camera with at least two streams configured, with texts of the configuration, the name file and the
  interfaces that fit their fields and have no percent signs, a request other than for a snapshot that the check of
  the credentials lets through and that has no percent sign in its token is answered: by a SOAP envelope whose text
  is complete, or with 400, or with 501.
\<close>

theorem onvif_request_answered:
  assumes "onvif_module_is_enabled s" and "auth_get_client_info (\<lambda>fd. oe_peer env) fd = Some client"
    and "oe_config env = Some g" and "config_ok g" and "system_ok env" and "plain (configuration_token request)"
    and "auth_check_onvif_request request (Some (ov_auth (on_config s))) (Some client) = Some AUTH_RESULT_SUCCESS"
    and "\<not> has request ''GET /onvif/snapshot''"
  shows "\<exists>oc. onvif_module_handle_request s env fd request o1 = Some oc \<and>
    (soap_answer env o1 (oo_out oc) \<or> oo_out oc = http_send_error 400 (Some ''Could not determine SOAP action'') o1 \<or>
     oo_out oc = snd (http_send bad_request o1) \<or> oo_out oc = snd (http_send not_implemented o1))"
proof -
  have "onvif_module_handle_request s env fd request o1 = answer_request env request o1"
    using assms(1,2,7) by (simp add: onvif_module_handle_request_def)
  moreover have "\<exists>oc. answer_request env request o1 = Some oc \<and>
    (soap_answer env o1 (oo_out oc) \<or> oo_out oc = http_send_error 400 (Some ''Could not determine SOAP action'') o1 \<or>
     oo_out oc = snd (http_send bad_request o1) \<or> oo_out oc = snd (http_send not_implemented o1))"
    using assms(8) dispatch_answers [OF assms(3-6), of _ o1]
    by (auto simp: answer_request_def soap_sent_def split: option.split)
  ultimately show ?thesis by simp
qed

lemma onvif_check_cases:
  assumes "auth_is_required (Some c) (Some i)" and "\<not> (has request ''<Security'' \<or> has request ''<wsse:Security'')"
  shows "auth_check_onvif_request request (Some c) (Some i) = auth_check_http_request (Some request) (Some c) (Some i)"
  using assms by (simp add: auth_check_onvif_request_def has_def)

lemma soap_sent_fields [simp]: "oo_out (soap_sent o1) = o1" "\<not> oo_reboot (soap_sent o1)" "oo_snapshot (soap_sent o1) = None"
  by (simp_all add: soap_sent_def)

text \<open>
  C10. Where credentials are required, a request without a WS-Security header and without the element of the time
  request gets anything but a refusal, reboots the device or takes a picture only if its \<open>Authorization\<close> value
  is \<open>Basic\<close> with the configured user name and password.
\<close>

theorem onvif_acts_only_authorised:
  assumes "onvif_module_is_enabled s" and "oe_peer env = Some ip"
    and "auth_is_required (Some (ov_auth (on_config s))) (auth_get_client_info (\<lambda>fd. oe_peer env) fd)"
    and "length (auth_username (ov_auth (on_config s))) < 63" and "length (auth_password (ov_auth (on_config s))) < 63"
    and "\<not> is_get_system_date_time request" and "\<not> (has request ''<Security'' \<or> has request ''<wsse:Security'')"
    and "onvif_module_handle_request s env fd request o1 = Some oc"
    and "oo_reboot oc \<or> oo_snapshot oc \<noteq> None \<or>
         oo_out oc \<noteq> snd (http_send onvif_unauthorized o1) \<and>
         oo_out oc \<noteq> http_send_error 500 (Some ''Authentication system error'') o1"
  shows "\<exists>h bs. extract_auth_header (Some request) = Some (''Basic '' @ h) \<and>
    auth_base64_decode (Some h) = Some (int (length bs), bs) \<and>
    takeWhile (\<lambda>c. c \<noteq> CHR 0x00) (map byte_char bs) =
      auth_username (ov_auth (on_config s)) @ '':'' @ auth_password (ov_auth (on_config s))"
proof -
  obtain client where client: "auth_get_client_info (\<lambda>fd. oe_peer env) fd = Some client"
    using assms(2) by (simp add: auth_get_client_info_def)
  note req = assms(3) [unfolded client]
  let ?r = "auth_check_http_request (Some request) (Some (ov_auth (on_config s))) (Some client)"
  have "?r = Some AUTH_RESULT_SUCCESS"
    using assms(1,6,8,9) client onvif_check_cases [OF req assms(7)]
    by (auto simp: onvif_module_handle_request_def split: option.splits auth_result.splits)
  from basic_auth_sound [OF req assms(4,5) this] show ?thesis .
qed

section \<open>Actions\<close>

lemma strchr_at: "c \<notin> set u \<Longrightarrow> strchr (u @ c # s) c = Some (length u)"
  by (rule strchr_append)

lemma starts_with_colon:
  assumes "CHR '':'' \<notin> set q" and "CHR '':'' \<notin> set p"
  shows "starts_with (q @ '':'') (p @ CHR '':'' # r) \<longleftrightarrow> p = q"
proof
  assume "starts_with (q @ '':'') (p @ CHR '':'' # r)"
  then have "p @ CHR '':'' # r = q @ CHR '':'' # drop (length q + 1) (p @ CHR '':'' # r)"
    by (metis append.assoc append_Cons append_Nil append_take_drop_id length_append_singleton starts_with_def Suc_eq_plus1)
  then have "takeWhile (\<lambda>c. c \<noteq> CHR '':'') (p @ CHR '':'' # r) =
      takeWhile (\<lambda>c. c \<noteq> CHR '':'') (q @ CHR '':'' # drop (length q + 1) (p @ CHR '':'' # r))" by simp
  moreover have "takeWhile (\<lambda>c. c \<noteq> CHR '':'') (x @ CHR '':'' # y) = x" if "CHR '':'' \<notin> set x" for x y
    using that by (induction x) auto
  ultimately show "p = q" using assms by simp
qed (simp add: starts_with_def)

text \<open>The name of an element: a prefix that is not one of SOAP's, and a local name, each without marks and blanks.\<close>

definition name_part :: "string \<Rightarrow> bool" where
  "name_part s \<longleftrightarrow> s \<noteq> [] \<and> (\<forall>c \<in> set s. c \<noteq> CHR '':'' \<and> c \<noteq> CHR ''>'' \<and> c \<noteq> CHR ''/'' \<and> \<not> is_blank c)"

text \<open>How a name may end: a bracket, a space, or the slash of an element without content.\<close>

definition name_ends :: "char \<Rightarrow> string \<Rightarrow> bool" where
  "name_ends c r \<longleftrightarrow> c = CHR ''>'' \<or> c = CHR '' '' \<or> c = CHR ''/'' \<and> CHR ''>'' \<in> set r"

lemma takeWhile_stops: "\<exists>x \<in> set xs. \<not> P x \<Longrightarrow> length (takeWhile P xs) < length xs"
  by (induction xs) auto

lemma find_action_skip:
  assumes "CHR ''<'' \<notin> set u" and "q = ''SOAP-ENV:'' \<or> q = ''soap:''"
  shows "find_action (u @ CHR ''<'' # q @ r) = find_action (q @ r)"
proof -
  have "drop (length u + 1) (u @ CHR ''<'' # q @ r) = q @ r" by simp
  moreover have "dropWhile is_blank (q @ r) = q @ r" using assms(2) by (auto simp: is_blank_def)
  moreover have "starts_with ''SOAP-ENV:'' (q @ r) \<or> starts_with ''soap:'' (q @ r)"
    using assms(2) starts_with_append by blast
  ultimately show ?thesis
    by (subst find_action.simps) (simp only: strchr_at [OF assms(1)] option.case Let_def simp_thms if_True)
qed

lemma find_action_here:
  assumes "CHR ''<'' \<notin> set u" and "name_part p" and "p \<notin> {''SOAP-ENV'', ''soap''}" and "name_part n" and "name_ends c r"
  shows "find_action (u @ CHR ''<'' # p @ CHR '':'' # n @ c # r) = Some (p @ CHR '':'' # n @ c # r)"
proof -
  let ?r = "p @ CHR '':'' # n @ c # r"
  let ?P = "\<lambda>c. \<not> (c = CHR ''>'' \<or> is_blank c)"
  have p: "CHR '':'' \<notin> set p" using assms(2) by (auto simp: name_part_def)
  have "drop (length u + 1) (u @ CHR ''<'' # ?r) = ?r" by simp
  moreover have "dropWhile is_blank ?r = ?r" using assms(2) by (cases p) (auto simp: name_part_def)
  moreover have "\<not> starts_with ''SOAP-ENV:'' ?r" "\<not> starts_with ''soap:'' ?r"
    using starts_with_colon [of "''SOAP-ENV''" p "n @ c # r"] starts_with_colon [of "''soap''" p "n @ c # r"] p assms(3)
    by simp_all
  moreover have "takeWhile ?P ?r = p @ CHR '':'' # n @ takeWhile ?P (c # r)"
    using assms(2,4) by (auto simp: name_part_def is_blank_def takeWhile_append2)
  moreover have "length (takeWhile ?P (c # r)) < length (c # r)"
  proof -
    have "\<exists>x \<in> set (c # r). \<not> ?P x" using assms(5) by (auto simp: name_ends_def is_blank_def)
    then show ?thesis by (rule takeWhile_stops)
  qed
  moreover have "strchr ?r CHR '':'' = Some (length p)" using strchr_at [OF p] .
  ultimately show ?thesis
    by (subst find_action.simps) (simp only: strchr_at [OF assms(1)] option.case Let_def, simp)
qed

lemma action_name_here:
  assumes "name_part p" and "name_part n" and "name_ends c r"
  shows "action_name (p @ CHR '':'' # n @ c # r) = Some n"
proof -
  have "CHR '':'' \<notin> set p" using assms(1) by (auto simp: name_part_def)
  moreover have "takeWhile (\<lambda>c. c \<noteq> CHR ''>'' \<and> c \<noteq> CHR '' '' \<and> c \<noteq> CHR ''/'') (n @ c # r) = n"
    using assms(2,3) by (auto simp: name_part_def name_ends_def is_blank_def takeWhile_append2)
  ultimately show ?thesis using assms(2) by (simp add: action_name_def strchr_at name_part_def)
qed

text \<open>The actions the service knows, each with its handler.\<close>

definition named_handlers :: "onvif_env \<Rightarrow> string \<Rightarrow> http_out \<Rightarrow> (string \<times> onvif_outcome option) list" where
  "named_handlers env request o1 =
     (let sent = map_option soap_sent
      in [(''GetDeviceInformation'', sent (handle_get_device_information env o1)),
          (''GetSnapshotUri'', sent (handle_get_snapshot_uri env o1)),
          (''GetCapabilities'', sent (handle_get_capabilities env o1)),
          (''GetServices'', sent (handle_get_services env o1)),
          (''GetSystemDateAndTime'', sent (handle_get_system_date_and_time env o1)),
          (''GetVideoSources'', sent (handle_get_video_sources_alt env o1)),
          (''GetProfiles'', sent (handle_get_profiles env o1)),
          (''GetStreamUri'', sent (handle_get_stream_uri env request o1)),
          (''GetVideoEncoderConfiguration'', sent (handle_get_video_encoder_configuration env request o1)),
          (''GetProfile'', sent (handle_get_profiles env o1)),
          (''GetServiceCapabilities'', sent (service_capabilities env request o1)),
          (''SystemReboot'', map_option (\<lambda>o2. (soap_sent o2)\<lparr>oo_reboot := True\<rparr>) (handle_system_reboot env o1)),
          (''GetOptions'', if has request ''/onvif/imaging_service'' then sent (handle_imaging_get_options env o1)
             else Some (soap_sent (snd (http_send not_implemented o1)))),
          (''Subscribe'', sent (handle_event_subscribe env o1)),
          (''Unsubscribe'', sent (handle_event_unsubscribe env o1))])"

text \<open>
  The dispatcher looks for a known name anywhere in the action; none of the names is shadowed by another that
  the code looks for earlier.
\<close>

lemma named_dispatch:
  assumes "(name, h) \<in> set (named_handlers env request o1)"
  shows "soap_dispatch env request name o1 = h"
proof -
  let ?found = "\<lambda>p. soap_dispatch env request (fst p) o1 = snd p"
  have "list_all ?found (named_handlers env request o1)"
    unfolding named_handlers_def Let_def list.pred_inject fst_conv snd_conv
    by (intro conjI TrueI; simp add: soap_dispatch_def has_def starts_with_def)
  with assms show ?thesis by (auto simp: list_all_iff)
qed

lemma has_suffix:
  assumes "has s (p @ q)"
  shows "has s q"
proof -
  from assms obtain n where "strstr s (p @ q) = Some n" by (auto simp: has_def)
  from strstr_bound [OF this] have "take (length p + length q) (drop n s) = p @ q" by (simp add: starts_with_def)
  then have "take (length q) (drop (length p) (drop n s)) = q" by (metis append_eq_conv_conj drop_take add_diff_cancel_left')
  then have "starts_with q (drop (n + length p) s)" by (simp add: starts_with_def add.commute)
  from strstr_found [OF this] show ?thesis by (auto simp: has_def)
qed

lemma unknown_dispatch:
  assumes "\<forall>k \<in> fst ` set (named_handlers env request o1). \<not> has name k"
  shows "soap_dispatch env request name o1 = Some (soap_sent (snd (http_send not_implemented o1)))"
proof -
  note none = assms [unfolded named_handlers_def Let_def list.set image_insert fst_conv ball_simps image_empty]
  have "\<not> has name (''wsdl'' @ ''GetVideoSources'')" using none has_suffix by blast
  then have "\<not> has name ''wsdlGetVideoSources''" by simp
  with none show ?thesis by (simp only: soap_dispatch_def Let_def if_False if_True simp_thms)
qed

lemma body_found:
  assumes "strstr b (''<'' @ q @ ''Body>'') = Some n"
    and "q = ''SOAP-ENV:'' \<or> q = ''soap:'' \<and> strstr b ''<SOAP-ENV:Body>'' = None"
  shows "(case strstr b ''<SOAP-ENV:Body>'' of Some i \<Rightarrow> Some i | None \<Rightarrow> strstr b ''<soap:Body>'') = Some n"
  using assms by auto

text \<open>
  C37. Take a POST whose body contains \<open>SOAP-ENV:Body\<close>, or, if it does not, \<open>soap:Body\<close>, each written as
  an element without attributes, and in it as the first element one with any prefix but these two, whose name ends
  in a bracket, a space or the slash of an element without content. If the name is one of the fifteen the service
  knows it is answered by the handler of that name, whatever the headers of the request say of an action; if no
  known name is part of it, the answer is 501.
\<close>

theorem onvif_action_found:
  assumes "request = head @ CRLF @ CRLF @ pre @ ''<'' @ q @ ''Body>'' @ gap @ ''<'' @ pfx @ '':'' @ name @ c # rest"
    and "strstr request (CRLF @ CRLF) = Some (length head)"
    and "strstr (pre @ ''<'' @ q @ ''Body>'' @ gap @ ''<'' @ pfx @ '':'' @ name @ c # rest) (''<'' @ q @ ''Body>'') =
      Some (length pre)"
    and "q = ''SOAP-ENV:'' \<or>
      q = ''soap:'' \<and> strstr (pre @ ''<'' @ q @ ''Body>'' @ gap @ ''<'' @ pfx @ '':'' @ name @ c # rest) ''<SOAP-ENV:Body>'' = None"
    and "CHR ''<'' \<notin> set gap" and "name_part pfx" and "pfx \<notin> {''SOAP-ENV'', ''soap''}" and "name_part name"
    and "name_ends c rest" and "has request ''POST /onvif''" and "\<not> has request ''GET /onvif/snapshot''"
    and "oe_memory env 3"
  shows "((name, h) \<in> set (named_handlers env request o1) \<longrightarrow> answer_request env request o1 = h) \<and>
    ((\<forall>k \<in> fst ` set (named_handlers env request o1). \<not> has name k) \<longrightarrow>
       answer_request env request o1 = Some (soap_sent (snd (http_send not_implemented o1))))"
proof -
  let ?rest = "pfx @ CHR '':'' # name @ c # rest"
  let ?b = "pre @ ''<'' @ q @ ''Body>'' @ gap @ ''<'' @ pfx @ '':'' @ name @ c # rest"
  have body: "request_body request = Some ?b" using assms(2) by (simp add: request_body_def assms(1))
  have found: "(case strstr ?b ''<SOAP-ENV:Body>'' of Some i \<Rightarrow> Some i | None \<Rightarrow> strstr ?b ''<soap:Body>'') = Some (length pre)"
    by (rule body_found [OF assms(3,4)])
  have q: "q = ''SOAP-ENV:'' \<or> q = ''soap:''" using assms(4) by blast
  then have "CHR ''<'' \<notin> set (q @ ''Body>'' @ gap)" using assms(5) by auto
  from find_action_here [OF this assms(6-9)]
  have "find_action (q @ ''Body>'' @ gap @ CHR ''<'' # ?rest) = Some ?rest" by simp
  with find_action_skip [of "[]" q "''Body>'' @ gap @ CHR ''<'' # ?rest", OF _ q]
  have "find_action (CHR ''<'' # q @ ''Body>'' @ gap @ CHR ''<'' # ?rest) = Some ?rest" by simp
  then have d: "find_action (drop (length pre) ?b) = Some ?rest" by simp
  have "extract_soap_action_from_body True request = Some name"
    by (simp only: extract_soap_action_from_body_def body option.case found d action_name_here [OF assms(6,8,9)] if_True)
  then have "answer_request env request o1 = soap_dispatch env request name o1"
    using assms(10-12) by (simp add: answer_request_def has_def)
  with named_dispatch [of name h env request o1] unknown_dispatch [of env request o1 name] show ?thesis by simp
qed

section \<open>What the code does not do\<close>

definition marked_reboot :: string where
  "marked_reboot =
     ''POST /onvif/device_service'' @ CRLF @ CRLF @
     ''<SOAP-ENV:Body><tds:SystemReboot/><tds:GetSystemDateAndTime/></SOAP-ENV:Body>''"

text \<open>
  The element of the time request anywhere in a request switches the check of the credentials off, whatever the action
  is: anybody can reboot the device.
\<close>

lemma marked_reboot_action:
  "is_get_system_date_time marked_reboot" "\<not> has marked_reboot ''GET /onvif/snapshot''"
  "has marked_reboot ''POST /onvif/device_service''" "extract_soap_action_from_body True marked_reboot = Some ''SystemReboot''"
  by code_simp+

lemma reboot_dispatched:
  "soap_dispatch env request ''SystemReboot'' o1 =
     map_option (\<lambda>o2. (soap_sent o2)\<lparr>oo_reboot := True\<rparr>) (handle_system_reboot env o1)"
  by (simp add: soap_dispatch_def has_def starts_with_def)

lemma reboot_without_credentials:
  assumes "onvif_module_is_enabled s" and "oe_peer env = Some ip" and "oe_memory env 3"
  shows "\<exists>oc. onvif_module_handle_request s env fd marked_reboot o1 = Some oc \<and> oo_reboot oc"
proof -
  obtain client where "auth_get_client_info (\<lambda>fd. oe_peer env) fd = Some client"
    using assms(2) by (simp add: auth_get_client_info_def)
  then have "onvif_module_handle_request s env fd marked_reboot o1 = soap_dispatch env marked_reboot ''SystemReboot'' o1"
    using assms(1,3) marked_reboot_action by (simp add: onvif_module_handle_request_def answer_request_def)
  moreover obtain o2 where "handle_system_reboot env o1 = Some o2" using soap_ok_answer [OF fixed_ok(7)] by blast
  ultimately show ?thesis by (simp add: reboot_dispatched soap_sent_def)
qed

text \<open>The token of a request becomes part of a format: a percent sign in it is undefined behaviour.\<close>

lemma token_is_format:
  assumes "oe_config env = Some g" and "config_ok g" and "configuration_token request = ''%n''"
  shows "handle_get_video_encoder_configuration env request o1 = None"
proof -
  let ?st = "sc_streams g ! 0"
  have "0 < length (sc_streams g)" using assms(2) by (auto simp: config_ok_def)
  then have h: "handle_get_video_encoder_configuration env request o1 =
      soap_reply env ''http://www.onvif.org/ver10/media/wsdl/GetVideoEncoderConfigurationResponse'' 1024
        (encoder_body env g ''%n'' 0 ?st) o1"
    using assms(3) by (simp add: handle_get_video_encoder_configuration_def assms(1) Let_def)
  note b = stream_texts(1-5) [OF streams_ok [OF assms(2), of 0]] config_texts [OF assms(2)]
    h264_name [of env "take 15 (stream_format ?st)" 0]
  have "length (decimal_int 5) = 1" "length (decimal_int get_session_timeout_seconds) = 2" by code_simp+
  then have l: "length (encoder_body env g ''%n'' 0 ?st) < 1024" unfolding encoder_body_def using b by simp
  obtain r where body: "encoder_body env g ''%n'' 0 ?st =
      ''<trt:GetVideoEncoderConfigurationResponse><trt:Configuration token=\"'' @ CHR ''%'' # CHR ''n'' # r"
    by (simp add: encoder_body_def)
  show ?thesis unfolding h soap_reply_def fit_id [OF l]
    by (rule send_soap_percent [OF body]) (use l in simp_all)
qed

text \<open>With one stream the variables of the second profile are never set.\<close>

lemma second_profile_unset:
  assumes "oe_config env = Some g" and "length (sc_streams g) = 1"
  shows "handle_get_profiles env o1 = None"
proof -
  from assms(2) obtain st where "sc_streams g = [st]" by (auto simp: length_Suc_conv)
  with assms(1) show ?thesis by (simp add: handle_get_profiles_def)
qed

text \<open>Without a configuration several handlers follow a null pointer.\<close>

lemma no_configuration:
  "oe_config env = None \<Longrightarrow> handle_get_capabilities env o1 = None \<and> handle_get_stream_uri env request o1 = None"
  by (simp add: handle_get_capabilities_def handle_get_stream_uri_def)

section \<open>Examples\<close>

definition sample_streams :: streamer_config where
  "sample_streams =
     \<lparr>sc_server_ip = ''10.0.0.1'', sc_http_port = 8080, sc_fps = 25,
      sc_streams = [\<lparr>stream_width = 1920, stream_height = 1080, stream_bitrate = 3000, stream_format = ''H264'', stream_info = ''main''\<rparr>,
                    \<lparr>stream_width = 640, stream_height = 360, stream_bitrate = 1000, stream_format = ''H265'', stream_info = []\<rparr>]\<rparr>"

definition sample_onvif_env :: onvif_env where
  "sample_onvif_env =
     (let t = (\<lambda>now. \<lparr>tm_hour = 12, tm_min = 0, tm_sec = 0, tm_year = 125, tm_mon = 0, tm_mday = 1, tm_isdst = 0\<rparr>)
      in \<lparr>oe_uuid = (\<lambda>i. 3), oe_subscription = (\<lambda>i. 4), oe_time = 0, oe_localtime = t, oe_gmtime = t,
          oe_time_zone = None, oe_os_release = Some ''NAME=x'', oe_interfaces = Some [], oe_config = Some sample_streams,
          oe_payload = (\<lambda>i. 0),
          oe_snapshot = (\<lambda>c. \<lparr>channel_enabled = False, jpeg_attr = None, has_jpeg_qp = False, enc_start_ok = False,
                               poll_ok = False, jpeg_stream = None, snapshot_malloc_ok = (\<lambda>n. True)\<rparr>),
          oe_memory = (\<lambda>i. True), oe_peer = Some 0xC0A80105\<rparr>)"

definition sample_onvif :: "auth_config \<Rightarrow> onvif_state" where
  "sample_onvif a = zero_onvif\<lparr>on_initialized := True, on_config := onvif_defaults\<lparr>ov_auth := a\<rparr>\<rparr>"

definition sample_out :: http_out where
  "sample_out = \<lparr>out_script = [], out_text = [], out_stack = []\<rparr>"

lemma sample_onvif_ok:
  "config_ok sample_streams" "system_ok sample_onvif_env" "oe_config sample_onvif_env = Some sample_streams"
  "onvif_module_is_enabled (sample_onvif a)" "ov_auth (on_config (sample_onvif a)) = a"
  by (auto simp: config_ok_def profile_stream_ok_def sample_streams_def int_range_def system_ok_def sample_onvif_env_def tm_ok_def
      Let_def onvif_module_is_enabled_def sample_onvif_def onvif_defaults_def)

definition sample_soap :: string where
  "sample_soap =
     ''POST /onvif/device_service'' @ CRLF @ CRLF @ [] @ ''<'' @ ''soap:'' @ ''Body>'' @ [] @ ''<'' @ ''tds'' @ '':'' @
     ''GetServices'' @ CHR ''/'' # ''></soap:Body>''"

lemma sample_soap_facts:
  "strstr sample_soap (CRLF @ CRLF) = Some 26" "has sample_soap ''POST /onvif''" "\<not> has sample_soap ''GET /onvif/snapshot''"
  "strstr (drop 30 sample_soap) ''<soap:Body>'' = Some 0" "strstr (drop 30 sample_soap) ''<SOAP-ENV:Body>'' = None"
  "strstr sample_soap ''ConfigurationToken>'' = None" "configuration_token sample_soap = ''VideoEncoder_1''"
  by code_simp+

theorem onvif_action_found_witness:
  "answer_request sample_onvif_env sample_soap sample_out =
     map_option soap_sent (handle_get_services sample_onvif_env sample_out)"
proof -
  have "(''GetServices'', map_option soap_sent (handle_get_services sample_onvif_env sample_out)) \<in>
      set (named_handlers sample_onvif_env sample_soap sample_out)"
    by (simp add: named_handlers_def Let_def)
  with onvif_action_found [OF sample_soap_def _ _ _ _ _ _ _ _ sample_soap_facts(2,3)] sample_soap_facts(1,4,5)
  show ?thesis
    by (simp add: sample_soap_def name_part_def name_ends_def is_blank_def sample_onvif_env_def Let_def)
qed

text \<open>Any other prefix for the namespace of SOAP, and a tag with attributes, are not understood: the answer is 400.\<close>

definition other_prefix :: string where
  "other_prefix =
     ''POST /onvif/device_service'' @ CRLF @ CRLF @ ''<s:Body><tds:GetServices/></s:Body>''"

lemma other_prefix_refused:
  "answer_request env other_prefix o1 = Some (soap_sent (http_send_error 400 (Some ''Could not determine SOAP action'') o1))"
proof -
  have "extract_soap_action_from_body b other_prefix = None" "soap_action_header b other_prefix = None"
    "content_type_action b other_prefix = None" for b
    by (cases b; code_simp)+
  moreover have "\<not> has other_prefix ''GET /onvif/snapshot''" "has other_prefix ''POST /onvif''" by code_simp+
  ultimately show ?thesis by (simp add: answer_request_def soap_action_def)
qed

theorem onvif_request_answered_witness:
  "\<exists>oc. onvif_module_handle_request (sample_onvif sample_auth\<lparr>on_config := onvif_defaults\<rparr>) sample_onvif_env 9 sample_soap sample_out = Some oc \<and>
    (soap_answer sample_onvif_env sample_out (oo_out oc) \<or>
     oo_out oc = http_send_error 400 (Some ''Could not determine SOAP action'') sample_out \<or>
     oo_out oc = snd (http_send bad_request sample_out) \<or> oo_out oc = snd (http_send not_implemented sample_out))"
proof -
  have plain: "plain (configuration_token sample_soap)" by (simp add: sample_soap_facts)
  obtain client where c: "auth_get_client_info (\<lambda>fd. oe_peer sample_onvif_env) 9 = Some client"
    by (simp add: auth_get_client_info_def sample_onvif_env_def Let_def)
  show ?thesis
    by (rule onvif_request_answered [OF _ c sample_onvif_ok(3,1,2) plain _ sample_soap_facts(3)])
      (simp_all add: onvif_module_is_enabled_def sample_onvif_def onvif_defaults_def auth_check_onvif_request_def
        auth_is_required_def)
qed

definition sample_snapshot_request :: string where
  "sample_snapshot_request =
     ''GET /onvif/snapshot '' @ ''Authorization: '' @ ''Basic '' @
     snd (auth_encode_basic_credentials (Some ''admin'') (Some ''s3:cret'')) @ CRLF @ []"

lemma strstr_absent: "p = a # q \<Longrightarrow> a \<notin> set s \<Longrightarrow> strstr s p = None"
  using strstr_over [of p a q s "[]"] by simp

lemma sample_snapshot_plain: "CHR ''<'' \<notin> set sample_snapshot_request"
proof -
  have "CHR ''<'' \<notin> insert (CHR ''='') (set base64_chars)" by (simp add: base64_chars_def)
  then have "CHR ''<'' \<notin> set (base64_text bs)" for bs using base64_text_alphabet [of bs] by blast
  then have "CHR ''<'' \<notin> set (snd (auth_encode_basic_credentials (Some u) (Some p)))" if "length u \<le> 63" "length p \<le> 63" for u p
    using that by (simp only: encode_credentials) simp
  then show ?thesis by (simp add: sample_snapshot_request_def)
qed

theorem onvif_acts_only_authorised_witness:
  "\<exists>h bs. extract_auth_header (Some sample_snapshot_request) = Some (''Basic '' @ h) \<and>
    auth_base64_decode (Some h) = Some (int (length bs), bs) \<and>
    takeWhile (\<lambda>c. c \<noteq> CHR 0x00) (map byte_char bs) = ''admin:s3:cret''"
proof -
  let ?s = "sample_onvif sample_auth"
  let ?c = "\<lparr>client_fd = 9, client_addr = 0xC0A80105, is_localhost = False, ip_string = dotted 0xC0A80105\<rparr>"
  have client: "auth_get_client_info (\<lambda>fd. oe_peer sample_onvif_env) 9 = Some ?c"
    by (simp add: auth_get_client_info_def sample_onvif_env_def auth_is_localhost_def Let_def)
  have req: "auth_is_required (Some sample_auth) (Some ?c)" by (simp add: auth_is_required_def sample_auth_def)
  have absent: "\<not> has sample_snapshot_request (CHR ''<'' # q)" for q
    using strstr_absent [OF refl sample_snapshot_plain] by (simp add: has_def)
  have ok: "auth_check_onvif_request sample_snapshot_request (Some sample_auth) (Some ?c) = Some AUTH_RESULT_SUCCESS"
    using check_credentials [OF req _ _ _ _ sample_snapshot_request_def] onvif_check_cases [OF req] absent
    by (simp add: sample_auth_def starts_with_def sample_snapshot_request_def)
  have "has sample_snapshot_request ''GET /onvif/snapshot''"
    by (simp add: has_def sample_snapshot_request_def starts_with_def)
  moreover have "handle_snapshot_request (oe_snapshot sample_onvif_env n) n sample_out =
      Some (http_send_error 500 (Some ''Failed to capture snapshot'') sample_out)" for n
    by (simp add: handle_snapshot_request_def capture_snapshot_def sample_onvif_env_def Let_def)
  ultimately obtain oc where oc: "onvif_module_handle_request ?s sample_onvif_env 9 sample_snapshot_request sample_out = Some oc"
      "oo_snapshot oc \<noteq> None"
    using client ok absent
    by (simp add: onvif_module_handle_request_def sample_onvif_ok is_get_system_date_time_def answer_request_def Let_def)
  have "oe_peer sample_onvif_env = Some 0xC0A80105" by (simp add: sample_onvif_env_def Let_def)
  from onvif_acts_only_authorised [OF sample_onvif_ok(4) this _ _ _ _ _ oc(1)] oc(2) req client absent
  show ?thesis by (simp add: sample_onvif_ok is_get_system_date_time_def) (simp add: sample_auth_def)
qed

section \<open>Stream addresses\<close>

text \<open>
  A client that names a profile in a \<open>ProfileToken\<close> element gets the address of that profile's stream: channel 1
  for \<open>Profile_2\<close> and channel 0 for any other token, complete for every address of the server.
\<close>

theorem stream_uri_of_profile:
  assumes "oe_config env = Some g" and "config_ok g" and "request_body request = Some b"
    and "strstr b ''ProfileToken>'' = Some k" and "strstr b ''ProfileToken=\"'' = None"
    and "drop (k + 13) b = token @ ''</'' @ rest" and "CHR ''<'' \<notin> set token" and "length token < 32"
  shows "handle_get_stream_uri env request o1 =
    Some (http_send_response 200 (Some ''application/soap+xml; charset=utf-8'')
      (Some (soap_document ''http://www.onvif.org/ver10/media/wsdl/GetStreamUriResponse'' (generate_uuid 37 (oe_uuid env))
       (''<trt:GetStreamUriResponse>'' @ ''<trt:MediaUri>'' @ ''<tt:Uri>'' @
        ''rtsp://'' @ sc_server_ip g @ '':554/'' @ (if token = ''Profile_2'' then ''ch1'' else ''ch0'') @
        ''</tt:Uri>'' @ ''<tt:InvalidAfterConnect>false</tt:InvalidAfterConnect>'' @
        ''<tt:InvalidAfterReboot>false</tt:InvalidAfterReboot>'' @ ''<tt:Timeout>PT60S</tt:Timeout>'' @
        ''</trt:MediaUri>'' @ ''</trt:GetStreamUriResponse>''))) o1)"
proof -
  have "strstr (''</'' @ rest) ''</'' = Some 0" by (rule strstr_at_once)
  then have "strstr (token @ ''</'' @ rest) ''</'' = Some (length token)"
    unfolding strstr_over [OF refl assms(7)] by (simp only: option.map add_0_right)
  then have token: "profile_token request = token"
    using assms(8) unfolding profile_token_def profile_token_start_def assms(3-6) token_until_def option.case by simp
  have "decimal_int 554 = ''554''" by code_simp
  then have uri: "rtsp_uri g token = ''rtsp://'' @ sc_server_ip g @ '':554/'' @ (if token = ''Profile_2'' then ''ch1'' else ''ch0'')"
    unfolding rtsp_uri_def using assms(2) by (subst fit_id) (simp_all add: config_ok_def)
  let ?text = "''<trt:GetStreamUriResponse>'' @ ''<trt:MediaUri>'' @ ''<tt:Uri>'' @ rtsp_uri g token @ ''</tt:Uri>'' @
      ''<tt:InvalidAfterConnect>false</tt:InvalidAfterConnect>'' @
      ''<tt:InvalidAfterReboot>false</tt:InvalidAfterReboot>'' @ ''<tt:Timeout>PT60S</tt:Timeout>'' @
      ''</trt:MediaUri>'' @ ''</trt:GetStreamUriResponse>''"
  have ip: "plain (rtsp_uri g token)" "length (rtsp_uri g token) \<le> 127"
    using config_texts(1) [OF assms(2)] by (auto simp: rtsp_uri_def fit_def intro: plain_take)
  have "plain ?text" "length ?text < 1024" using ip by simp_all
  then have "soap_reply env ''http://www.onvif.org/ver10/media/wsdl/GetStreamUriResponse'' 1024 ?text o1 =
      Some (http_send_response 200 (Some ''application/soap+xml; charset=utf-8'')
        (Some (soap_document ''http://www.onvif.org/ver10/media/wsdl/GetStreamUriResponse'' (generate_uuid 37 (oe_uuid env)) ?text)) o1)"
    by (subst soap_reply_plain) (simp_all only: fit_id, simp_all)
  then show ?thesis by (simp only: handle_get_stream_uri_def assms(1) option.case token uri append_assoc)
qed

definition sample_profile_request :: string where
  "sample_profile_request =
     ''POST /onvif/media_service'' @ CRLF @ CRLF @ ''<trt:ProfileToken>Profile_2</trt:ProfileToken>''"

lemma sample_profile_facts:
  "request_body sample_profile_request = Some ''<trt:ProfileToken>Profile_2</trt:ProfileToken>''"
  "strstr ''<trt:ProfileToken>Profile_2</trt:ProfileToken>'' ''ProfileToken>'' = Some 5"
  "strstr ''<trt:ProfileToken>Profile_2</trt:ProfileToken>'' ''ProfileToken=\"'' = None"
  by code_simp+

theorem stream_uri_of_profile_witness:
  "\<exists>o2. handle_get_stream_uri sample_onvif_env sample_profile_request sample_out = Some o2"
  using stream_uri_of_profile [OF sample_onvif_ok(3,1) sample_profile_facts, of "''Profile_2''" "''trt:ProfileToken>''" sample_out]
  by simp

end
