(* ===== verification/ModuleSystem.thy ===== *)
theory ModuleSystem
  imports CStrings
begin

text \<open>
  \<open>module_system.c\<close>: the registry of modules and their life cycle. A module's callbacks are
  function pointers of other files; the model takes what they return from the module record
  and records every call made through them, in order. JSON documents and configuration
  contents are type parameters, the file system a function from paths to documents.
\<close>

section \<open>State\<close>

datatype module_state =
  MODULE_STATE_UNREGISTERED | MODULE_STATE_REGISTERED | MODULE_STATE_INITIALIZED |
  MODULE_STATE_RUNNING | MODULE_STATE_ERROR

text \<open>
  A configuration buffer as \<open>init\<close> gets it: no buffer, a buffer straight from \<open>malloc\<close>, or what
  the parser made of a zeroed one.
\<close>

datatype 'c module_config = NullConfig | UninitConfig | ParsedConfig 'c

text \<open>
  A function pointer is \<open>None\<close> or \<open>False\<close> for NULL; \<open>start_fn\<close> and \<open>init_fn\<close> hold what the
  callback returns.
\<close>

record ('j, 'c) module_info =
  mod_name :: string
  mod_state :: module_state
  init_fn :: "('c module_config \<Rightarrow> c_int) option"
  start_fn :: "c_int option"
  stop_fn :: bool
  cleanup_fn :: bool
  config_parse :: "('j \<Rightarrow> c_int \<times> 'c) option"
  config_free :: bool
  config_size :: nat
  rtsp_setup :: bool
  rtsp_frame_callback :: bool
  rtsp_cleanup :: bool

datatype 'c module_call =
  CallInit string "'c module_config" | CallStart string | CallStop string | CallCleanup string
| CallConfigFree string | FreeConfig string
| CallRtspSetup string | CallRtspFrame string | CallRtspCleanup string

record ('j, 'c) module_system =
  g_modules :: "('j, 'c) module_info list"
  g_system_initialized :: bool
  calls :: "'c module_call list"

text \<open>
  The outside world: what \<open>stat\<close> and \<open>json_object_from_file\<close> together make of a path, the
  directory of the binary (\<open>None\<close> if \<open>readlink\<close> fails), allocation.
\<close>

record 'j module_env =
  json_file :: "string \<Rightarrow> 'j option"
  binary_dir :: "string option"
  malloc_ok :: "nat \<Rightarrow> bool"

definition MAX_MODULES :: nat where
  "MAX_MODULES = 16"

section \<open>Registry\<close>

definition module_system_init :: "('j, 'c) module_system \<Rightarrow> c_int \<times> ('j, 'c) module_system" where
  "module_system_init sys =
     (if g_system_initialized sys then (0, sys)
      else (0, sys\<lparr>g_modules := [], g_system_initialized := True\<rparr>))"

definition module_register ::
  "('j, 'c) module_system \<Rightarrow> ('j, 'c) module_info option \<Rightarrow> c_int \<times> ('j, 'c) module_system" where
  "module_register sys m =
     (case m of
        None \<Rightarrow> (-1, sys)
      | Some md \<Rightarrow>
          (let sys1 = (if g_system_initialized sys then sys else snd (module_system_init sys))
           in if MAX_MODULES \<le> length (g_modules sys1) then (-1, sys1)
              else if list_ex (\<lambda>x. mod_name x = mod_name md) (g_modules sys1) then (-1, sys1)
              else (0, sys1\<lparr>g_modules := g_modules sys1 @ [md\<lparr>mod_state := MODULE_STATE_REGISTERED\<rparr>]\<rparr>)))"

definition module_get_by_name ::
  "('j, 'c) module_system \<Rightarrow> string option \<Rightarrow> ('j, 'c) module_info option" where
  "module_get_by_name sys name =
     (case name of None \<Rightarrow> None | Some n \<Rightarrow> find (\<lambda>x. mod_name x = n) (g_modules sys))"

definition module_get_all :: "('j, 'c) module_system \<Rightarrow> bool \<Rightarrow> int \<Rightarrow> ('j, 'c) module_info list" where
  "module_get_all sys null_array max_modules =
     (if null_array \<or> max_modules \<le> 0 then []
      else take (if int (length (g_modules sys)) < max_modules then length (g_modules sys)
                 else nat max_modules) (g_modules sys))"

section \<open>Configuration files\<close>

definition config_path :: "string \<Rightarrow> string \<Rightarrow> string" where
  "config_path dir name = fit 256 (dir @ ''/'' @ name @ ''.json'')"

text \<open>
  The result code, and what the buffer holds if it was touched: the parser gets a zeroed buffer
  and its result is kept even if it fails.
\<close>

definition module_load_config_file ::
  "'j module_env \<Rightarrow> string \<Rightarrow> ('j \<Rightarrow> c_int \<times> 'c) \<Rightarrow> c_int \<times> 'c option" where
  "module_load_config_file env name parse =
     (let use = (\<lambda>j. case parse j of (r, c) \<Rightarrow> (r, Some c));
          system = (case json_file env (config_path ''/etc/streamer.d'' name) of
                      Some j \<Rightarrow> use j | None \<Rightarrow> (-1, None))
      in case binary_dir env of
           None \<Rightarrow> system
         | Some d \<Rightarrow> (case json_file env (config_path d name) of Some j \<Rightarrow> use j | None \<Rightarrow> system))"

section \<open>Life cycle\<close>

text \<open>The configuration that \<open>module_init_all\<close> hands to the module.\<close>

definition init_config ::
  "'j module_env \<Rightarrow> ('j, 'c) module_info \<Rightarrow> 'c module_config" where
  "init_config env m =
     (case config_parse m of
        None \<Rightarrow> NullConfig
      | Some p \<Rightarrow>
          if config_size m = 0 \<or> \<not> malloc_ok env (config_size m) then NullConfig
          else (case snd (module_load_config_file env (mod_name m) p) of
                  None \<Rightarrow> UninitConfig
                | Some c \<Rightarrow> ParsedConfig c))"

text \<open>One round of each loop: the module, the calls made, the number of errors.\<close>

definition init_module ::
  "'j module_env \<Rightarrow> ('j, 'c) module_info \<Rightarrow> ('j, 'c) module_info \<times> 'c module_call list \<times> nat" where
  "init_module env m =
     (if mod_state m \<noteq> MODULE_STATE_REGISTERED then (m, [], 0)
      else case init_fn m of
        None \<Rightarrow> (m, [], 0)
      | Some f \<Rightarrow>
          (let cfg = init_config env m in
           if f cfg = 0 then (m\<lparr>mod_state := MODULE_STATE_INITIALIZED\<rparr>, [CallInit (mod_name m) cfg], 0)
           else (m\<lparr>mod_state := MODULE_STATE_ERROR\<rparr>,
                 CallInit (mod_name m) cfg #
                   (if cfg = NullConfig then []
                    else if config_free m then [CallConfigFree (mod_name m)]
                    else [FreeConfig (mod_name m)]), 1)))"

definition start_module ::
  "('j, 'c) module_info \<Rightarrow> ('j, 'c) module_info \<times> 'c module_call list \<times> nat" where
  "start_module m =
     (if mod_state m \<noteq> MODULE_STATE_INITIALIZED then (m, [], 0)
      else case start_fn m of
        None \<Rightarrow> (m\<lparr>mod_state := MODULE_STATE_RUNNING\<rparr>, [], 0)
      | Some r \<Rightarrow>
          if r = 0 then (m\<lparr>mod_state := MODULE_STATE_RUNNING\<rparr>, [CallStart (mod_name m)], 0)
          else (m\<lparr>mod_state := MODULE_STATE_ERROR\<rparr>, [CallStart (mod_name m)], 1))"

definition stop_module :: "('j, 'c) module_info \<Rightarrow> ('j, 'c) module_info \<times> 'c module_call list" where
  "stop_module m =
     (if mod_state m \<noteq> MODULE_STATE_RUNNING then (m, [])
      else (m\<lparr>mod_state := MODULE_STATE_INITIALIZED\<rparr>,
            if stop_fn m then [CallStop (mod_name m)] else []))"

definition module_init_all ::
  "'j module_env \<Rightarrow> ('j, 'c) module_system \<Rightarrow> c_int \<times> ('j, 'c) module_system" where
  "module_init_all env sys =
     (let rs = map (init_module env) (g_modules sys) in
      (if sum_list (map (snd \<circ> snd) rs) = 0 then 0 else -1,
       sys\<lparr>g_modules := map fst rs, calls := calls sys @ concat (map (fst \<circ> snd) rs)\<rparr>))"

definition module_start_all :: "('j, 'c) module_system \<Rightarrow> c_int \<times> ('j, 'c) module_system" where
  "module_start_all sys =
     (let rs = map start_module (g_modules sys) in
      (if sum_list (map (snd \<circ> snd) rs) = 0 then 0 else -1,
       sys\<lparr>g_modules := map fst rs, calls := calls sys @ concat (map (fst \<circ> snd) rs)\<rparr>))"

text \<open>From the last module to the first.\<close>

definition module_stop_all :: "('j, 'c) module_system \<Rightarrow> c_int \<times> ('j, 'c) module_system" where
  "module_stop_all sys =
     (let rs = map stop_module (rev (g_modules sys)) in
      (0, sys\<lparr>g_modules := rev (map fst rs), calls := calls sys @ concat (map snd rs)\<rparr>))"

definition module_cleanup_all :: "('j, 'c) module_system \<Rightarrow> c_int \<times> ('j, 'c) module_system" where
  "module_cleanup_all sys =
     (0, sys\<lparr>g_modules := [], g_system_initialized := False,
             calls := calls sys @
               concat (map (\<lambda>m. if cleanup_fn m then [CallCleanup (mod_name m)] else [])
                 (rev (g_modules sys)))\<rparr>)"

section \<open>RTSP hooks\<close>

text \<open>The pointer arguments are flags that tell whether they are not NULL.\<close>

definition module_rtsp_setup_all ::
  "('j, 'c) module_system \<Rightarrow> bool \<Rightarrow> c_int \<times> ('j, 'c) module_system" where
  "module_rtsp_setup_all sys server =
     (if \<not> server then (-1, sys)
      else (0, sys\<lparr>calls := calls sys @
        concat (map (\<lambda>m. if mod_state m = MODULE_STATE_RUNNING \<and> rtsp_setup m
                         then [CallRtspSetup (mod_name m)] else []) (g_modules sys))\<rparr>))"

definition module_rtsp_frame_callback_all ::
  "('j, 'c) module_system \<Rightarrow> bool \<Rightarrow> bytes option \<Rightarrow> bool \<Rightarrow> c_int \<times> ('j, 'c) module_system" where
  "module_rtsp_frame_callback_all sys server frame timestamp =
     (if \<not> server \<or> frame = None \<or> frame = Some [] \<or> \<not> timestamp then (-1, sys)
      else (0, sys\<lparr>calls := calls sys @
        concat (map (\<lambda>m. if mod_state m = MODULE_STATE_RUNNING \<and> rtsp_frame_callback m
                         then [CallRtspFrame (mod_name m)] else []) (g_modules sys))\<rparr>))"

definition module_rtsp_cleanup_all ::
  "('j, 'c) module_system \<Rightarrow> bool \<Rightarrow> c_int \<times> ('j, 'c) module_system" where
  "module_rtsp_cleanup_all sys server =
     (if \<not> server then (-1, sys)
      else (0, sys\<lparr>calls := calls sys @
        concat (map (\<lambda>m. if rtsp_cleanup m then [CallRtspCleanup (mod_name m)] else [])
          (rev (g_modules sys)))\<rparr>))"

section \<open>The registry as a table\<close>

definition modules_inv :: "('j, 'c) module_system \<Rightarrow> bool" where
  "modules_inv sys \<longleftrightarrow>
     length (g_modules sys) \<le> MAX_MODULES \<and> distinct (map mod_name (g_modules sys)) \<and>
     (g_system_initialized sys \<or> g_modules sys = [])"

definition module_add ::
  "('j, 'c) module_system \<Rightarrow> string \<Rightarrow> ('j, 'c) module_info \<Rightarrow> c_int \<times> ('j, 'c) module_system" where
  "module_add sys name m = module_register sys (Some (m\<lparr>mod_name := name\<rparr>))"

definition registered :: "string \<Rightarrow> ('j, 'c) module_info \<Rightarrow> ('j, 'c) module_info" where
  "registered name m = m\<lparr>mod_name := name, mod_state := MODULE_STATE_REGISTERED\<rparr>"

lemma find_name_append:
  "find (\<lambda>x. mod_name x = n) (ms @ [m]) =
     (case find (\<lambda>x. mod_name x = n) ms of
        Some x \<Rightarrow> Some x | None \<Rightarrow> if mod_name m = n then Some m else None)"
  by (induction ms) auto

lemma find_name_None: "find (\<lambda>x. mod_name x = n) ms = None \<longleftrightarrow> \<not> list_ex (\<lambda>x. mod_name x = n) ms"
  by (induction ms) auto

lemma module_add_ok:
  assumes "modules_inv sys" and "module_add sys name m = (0, sys')"
  shows "(\<lambda>n. module_get_by_name sys' (Some n)) =
    (\<lambda>n. module_get_by_name sys (Some n))(name \<mapsto> registered name m)"
  using assms
  by (auto simp: module_add_def module_register_def module_system_init_def module_get_by_name_def
      registered_def modules_inv_def Let_def fun_eq_iff find_name_append find_name_None [symmetric]
      split: if_splits option.split)

lemma module_add_inv:
  assumes "modules_inv sys" and "module_add sys name m = (r, sys')"
  shows "modules_inv sys'"
  using assms
  by (auto simp: module_add_def module_register_def module_system_init_def modules_inv_def Let_def
      list_ex_iff split: if_splits)

lemma module_add_error:
  assumes "modules_inv sys" and "module_add sys name m = (r, sys')" and "r \<noteq> 0"
  shows "module_get_by_name sys' x = module_get_by_name sys x"
  using assms
  by (auto simp: module_add_def module_register_def module_system_init_def modules_inv_def Let_def
      module_get_by_name_def split: if_splits option.split)

interpretation modules:
  registry "\<lambda>sys n. module_get_by_name sys (Some n)" module_add registered modules_inv
  by unfold_locales (use module_add_ok module_add_inv module_add_error in \<open>blast intro: ext\<close>)+

section \<open>Operations in any order\<close>

datatype ('j, 'c) module_event =
  ModInit | ModRegister "('j, 'c) module_info option"
| ModInitAll "'j module_env" | ModStartAll | ModStopAll | ModCleanupAll

definition module_step :: "('j, 'c) module_system \<Rightarrow> ('j, 'c) module_event \<Rightarrow> ('j, 'c) module_system" where
  "module_step sys e =
     (case e of
        ModInit \<Rightarrow> snd (module_system_init sys)
      | ModRegister m \<Rightarrow> snd (module_register sys m)
      | ModInitAll env \<Rightarrow> snd (module_init_all env sys)
      | ModStartAll \<Rightarrow> snd (module_start_all sys)
      | ModStopAll \<Rightarrow> snd (module_stop_all sys)
      | ModCleanupAll \<Rightarrow> snd (module_cleanup_all sys))"

lemma mod_name_round [simp]:
  "mod_name (fst (init_module env m)) = mod_name m" "mod_name (fst (start_module m)) = mod_name m"
  "mod_name (fst (stop_module m)) = mod_name m"
  by (auto simp: init_module_def start_module_def stop_module_def Let_def split: option.split)

lemma map_name_round [simp]:
  "map (mod_name \<circ> (fst \<circ> init_module env)) ms = map mod_name ms"
  "map (mod_name \<circ> (fst \<circ> start_module)) ms = map mod_name ms"
  "map (mod_name \<circ> (fst \<circ> stop_module)) ms = map mod_name ms"
  by simp_all

lemma register_inv:
  assumes "modules_inv sys"
  shows "modules_inv (snd (module_register sys m))"
proof (cases m)
  case (Some md)
  obtain r s where "module_register sys m = (r, s)" by (metis prod.exhaust)
  with module_add_inv [OF assms, of "mod_name md" md r s] Some show ?thesis
    by (simp add: module_add_def)
qed (use assms in \<open>simp add: module_register_def\<close>)

lemma module_step_inv:
  assumes "modules_inv sys"
  shows "modules_inv (module_step sys e)"
proof (cases e)
  case ModStopAll
  with assms show ?thesis
    by (auto simp: module_step_def module_stop_all_def modules_inv_def Let_def rev_map)
qed (use assms register_inv [OF assms] in
    \<open>auto simp: module_step_def module_system_init_def module_init_all_def module_start_all_def
       module_cleanup_all_def modules_inv_def Let_def\<close>)

interpretation modules_life:
  event_machine "\<lambda>sys. g_modules sys = []" module_step modules_inv
  by unfold_locales (simp add: modules_inv_def, rule module_step_inv)

section \<open>A full life\<close>

text \<open>Which modules come through initialisation, and which of these through their start.\<close>

definition init_succeeds :: "'j module_env \<Rightarrow> ('j, 'c) module_info \<Rightarrow> bool" where
  "init_succeeds env m \<longleftrightarrow> (\<exists>f. init_fn m = Some f \<and> f (init_config env m) = 0)"

definition starts :: "'j module_env \<Rightarrow> ('j, 'c) module_info \<Rightarrow> bool" where
  "starts env m \<longleftrightarrow> init_succeeds env m \<and> (start_fn m = None \<or> start_fn m = Some 0)"

lemma concat_if_filter: "concat (map (\<lambda>m. if P m then [f m] else []) ms) = map f (filter P ms)"
  by (induction ms) auto

lemma start_calls:
  assumes "mod_state m = MODULE_STATE_REGISTERED"
  shows "fst (snd (start_module (fst (init_module env m)))) =
    (if init_succeeds env m \<and> start_fn m \<noteq> None then [CallStart (mod_name m)] else [])"
  using assms
  by (auto simp: init_module_def start_module_def init_succeeds_def Let_def split: option.split)

lemma stop_calls:
  assumes "mod_state m = MODULE_STATE_REGISTERED"
  shows "snd (stop_module (fst (start_module (fst (init_module env m))))) =
    (if starts env m \<and> stop_fn m then [CallStop (mod_name m)] else [])"
  using assms
  by (auto simp: init_module_def start_module_def stop_module_def init_succeeds_def starts_def Let_def
      split: option.split)

lemma kept_fields:
  "cleanup_fn (fst (init_module env m)) = cleanup_fn m" "cleanup_fn (fst (start_module m)) = cleanup_fn m"
  "cleanup_fn (fst (stop_module m)) = cleanup_fn m"
  by (auto simp: init_module_def start_module_def stop_module_def Let_def split: option.split)

section \<open>Properties\<close>

text \<open>
  C38. From start-up to shut-down, all modules freshly registered: after the calls of the
  initialisation, \<open>start\<close> is called in registration order for exactly the modules that have one and
  whose \<open>init\<close> returned 0, \<open>stop\<close> in the opposite order for exactly those that have one, whose \<open>init\<close>
  returned 0 and whose \<open>start\<close> returned 0 or is missing, and \<open>cleanup\<close> in the opposite order for
  every module that has one, also where \<open>init\<close> or \<open>start\<close> failed.
\<close>

theorem module_life_calls:
  assumes "list_all (\<lambda>m. mod_state m = MODULE_STATE_REGISTERED) (g_modules sys)"
  shows "calls (snd (module_cleanup_all (snd (module_stop_all (snd (module_start_all
           (snd (module_init_all env sys)))))))) =
    calls sys @ concat (map (fst \<circ> snd \<circ> init_module env) (g_modules sys)) @
    map (CallStart \<circ> mod_name) (filter (\<lambda>m. init_succeeds env m \<and> start_fn m \<noteq> None) (g_modules sys)) @
    map (CallStop \<circ> mod_name) (rev (filter (\<lambda>m. starts env m \<and> stop_fn m) (g_modules sys))) @
    map (CallCleanup \<circ> mod_name) (rev (filter cleanup_fn (g_modules sys)))"
proof -
  let ?ms = "g_modules sys"
  have reg: "m \<in> set ?ms \<Longrightarrow> mod_state m = MODULE_STATE_REGISTERED" for m
    using assms by (simp add: list_all_iff)
  have "concat (map (fst \<circ> snd) (map start_module (map fst (map (init_module env) ?ms)))) =
      concat (map (\<lambda>m. if init_succeeds env m \<and> start_fn m \<noteq> None then [(CallStart \<circ> mod_name) m] else []) ?ms)"
    using reg by (auto intro!: arg_cong [where f = concat] simp: start_calls)
  moreover have "concat (map snd (map stop_module (rev (map fst (map start_module
        (map fst (map (init_module env) ?ms))))))) =
      concat (map (\<lambda>m. if starts env m \<and> stop_fn m then [(CallStop \<circ> mod_name) m] else []) (rev ?ms))"
    using reg by (auto intro!: arg_cong [where f = concat] simp: stop_calls rev_map [symmetric])
  ultimately show ?thesis
    by (simp only: concat_if_filter)
      (simp add: module_init_all_def module_start_all_def module_stop_all_def module_cleanup_all_def
        Let_def o_def kept_fields rev_map concat_if_filter [where P = cleanup_fn] rev_filter)
qed

definition sample_module :: "string \<Rightarrow> c_int \<Rightarrow> c_int \<Rightarrow> (nat, nat) module_info" where
  "sample_module name r q =
     \<lparr>mod_name = name, mod_state = MODULE_STATE_REGISTERED, init_fn = Some (\<lambda>c. r), start_fn = Some q,
      stop_fn = True, cleanup_fn = True, config_parse = Some (\<lambda>j. (0, j + 1)), config_free = False,
      config_size = 8, rtsp_setup = False, rtsp_frame_callback = False, rtsp_cleanup = False\<rparr>"

definition sample_env :: "nat module_env" where
  "sample_env = \<lparr>json_file = (\<lambda>p. if p = ''/etc/streamer.d/a.json'' then Some 41 else None),
     binary_dir = Some ''/mnt'', malloc_ok = (\<lambda>n. n \<le> 64)\<rparr>"

theorem module_life_calls_witness:
  "calls (snd (module_cleanup_all (snd (module_stop_all (snd (module_start_all
     (snd (module_init_all sample_env
       \<lparr>g_modules = [sample_module ''a'' 0 0, sample_module ''b'' (-1) 0, sample_module ''c'' 0 (-1)],
        g_system_initialized = True, calls = []\<rparr>)))))))) =
   [CallInit ''a'' (ParsedConfig 42), CallInit ''b'' UninitConfig, FreeConfig ''b'', CallInit ''c'' UninitConfig,
    CallStart ''a'', CallStart ''c'', CallStop ''a'', CallCleanup ''c'', CallCleanup ''b'', CallCleanup ''a'']"
  (is "calls (snd (module_cleanup_all (snd (module_stop_all (snd (module_start_all
     (snd (module_init_all sample_env ?sys)))))))) = _")
proof -
  have "list_all (\<lambda>m. mod_state m = MODULE_STATE_REGISTERED) (g_modules ?sys)"
    by (simp add: sample_module_def)
  from module_life_calls [OF this, of sample_env] show ?thesis
    by (simp add: init_module_def init_config_def module_load_config_file_def sample_env_def
        sample_module_def config_path_def fit_def starts_def init_succeeds_def)
qed

text \<open>
  Any sequence of life cycle operations and registrations, in any order and on a system that
  was never initialised, keeps at most 16 modules with distinct names.
\<close>

theorem module_table_invariant:
  "length (g_modules (foldl module_step \<lparr>g_modules = [], g_system_initialized = ready, calls = cs\<rparr> es)) \<le> 16 \<and>
   distinct (map mod_name
     (g_modules (foldl module_step \<lparr>g_modules = [], g_system_initialized = ready, calls = cs\<rparr> es)))"
  using modules_life.inv_reached [of "\<lparr>g_modules = [], g_system_initialized = ready, calls = cs\<rparr>" es]
  by (simp add: modules_inv_def MAX_MODULES_def)

text \<open>
  Registration succeeds exactly if there is room and the name is new; then the module is
  found under its name, in state registered, and every other name as before, also after a later
  \<open>module_system_init\<close>. A refused registration changes no lookup.
\<close>

theorem module_register_spec:
  assumes "modules_inv sys" and "module_register sys (Some m) = (r, sys')"
  shows "(r = 0) = (length (g_modules sys) < 16 \<and> module_get_by_name sys (Some (mod_name m)) = None) \<and>
    module_get_by_name (snd (module_system_init sys')) (Some n) =
      (if r = 0 \<and> n = mod_name m then Some (m\<lparr>mod_state := MODULE_STATE_REGISTERED\<rparr>)
       else module_get_by_name sys (Some n))"
proof
  have add: "module_add sys (mod_name m) m = (r, sys')" using assms(2) by (simp add: module_add_def)
  show "(r = 0) = (length (g_modules sys) < 16 \<and> module_get_by_name sys (Some (mod_name m)) = None)"
    using assms
    by (auto simp: module_register_def module_system_init_def modules_inv_def MAX_MODULES_def Let_def
        module_get_by_name_def find_name_None split: if_splits)
  have "g_system_initialized sys'"
    using assms(2) by (auto simp: module_register_def module_system_init_def Let_def split: if_splits)
  then have "snd (module_system_init sys') = sys'" by (simp add: module_system_init_def)
  then show "module_get_by_name (snd (module_system_init sys')) (Some n) =
      (if r = 0 \<and> n = mod_name m then Some (m\<lparr>mod_state := MODULE_STATE_REGISTERED\<rparr>)
       else module_get_by_name sys (Some n))"
    using modules.add_error [OF assms(1) add] modules.add_ok [OF assms(1), of "mod_name m" m sys'] add
    by (cases "r = 0") (auto simp: fun_eq_iff registered_def)
qed

theorem module_register_spec_witness:
  "module_get_by_name (snd (module_system_init (snd (module_register
      \<lparr>g_modules = [], g_system_initialized = False, calls = []\<rparr> (Some (sample_module ''osd'' 0 0))))))
     (Some ''osd'') = Some (sample_module ''osd'' 0 0)"
proof -
  let ?sys = "\<lparr>g_modules = [], g_system_initialized = False, calls = []\<rparr>
      :: (nat, nat) module_system"
  have "modules_inv ?sys" by (simp add: modules_inv_def)
  moreover have e: "module_register ?sys (Some (sample_module ''osd'' 0 0)) =
      (0, \<lparr>g_modules = [sample_module ''osd'' 0 0], g_system_initialized = True, calls = []\<rparr>)"
    by (simp add: module_register_def module_system_init_def sample_module_def MAX_MODULES_def)
  ultimately show ?thesis
    using module_register_spec [of ?sys "sample_module ''osd'' 0 0" 0 _ "''osd''"]
    by (simp add: sample_module_def)
qed

text \<open>
  A module that parses a configuration and finds no file for it is initialised with the buffer
  as \<open>malloc\<close> returned it, not with the zeroed defaults that the comment in the loop promises.
\<close>

lemma module_config_uninitialised:
  assumes "config_parse m = Some p" and "0 < config_size m" and "malloc_ok env (config_size m)"
    and "json_file env (config_path ''/etc/streamer.d'' (mod_name m)) = None"
    and "\<And>d. binary_dir env = Some d \<Longrightarrow> json_file env (config_path d (mod_name m)) = None"
  shows "init_config env m = UninitConfig"
  using assms
  by (auto simp: init_config_def module_load_config_file_def Let_def split: option.split)

end
