(* ===== verification/RtspServer.thy ===== *)
theory RtspServer
  imports RtspRequest
begin

text \<open>
  The RTSP server of \<open>rtsp_server.c\<close>: its state, the handlers of the methods, one client's request
  from the socket to the response, and the rounds of the server thread. What comes from outside in
  a round (sockets, \<open>select\<close>, peers, clocks, \<open>rand\<close>) is a record of functions; descriptors closed
  and IDR frames requested are kept as lists. A result of \<open>None\<close> is undefined behaviour, which
  only the authentication of \<open>AuthUtils\<close> can run into.
\<close>

section \<open>State\<close>

record rtsp_config =
  server_port :: int
  server_auth :: auth_config
  server_name :: string
  max_clients :: int
  session_timeout :: int
  tls_enabled :: bool
  tls_port :: int
  cert_file :: string
  key_file :: string
  tls_verify_client :: bool

record rtsp_server = rtsp_media +
  server_config :: rtsp_config
  listen_socket :: int
  tls_listen_socket :: int
  client_count :: int
  streams :: "video_stream list"
  should_stop :: bool
  tls_context :: bool
  total_connections :: u32
  total_bytes_sent :: u32
  total_packets_sent :: u32
  rands :: nat
  readings :: nat
  last_immediate_idr :: int
  idr_requests :: "int list"
  server_closed :: "int list"

text \<open>
  What a round meets. \<open>rnd\<close> and \<open>monotonic\<close> give the results of \<open>rand\<close> and the clock in the order
  of the calls; \<open>tcp_recv\<close> and \<open>tls_recv\<close> what the socket of a client delivers, \<open>udp_socket\<close> what
  \<open>socket\<close> returns for it; \<open>readable\<close> is the set \<open>select\<close> leaves.
\<close>

datatype select_result = SelectError bool | SelectTimeout | SelectReady

datatype accepted = AcceptFailed | Accepted int u32

datatype ssl_read = SslData bytes | SslClosed | SslFailed

record rtsp_env =
  env_net :: net
  peer :: "int \<Rightarrow> u32 option"
  rnd :: "nat \<Rightarrow> nat"
  monotonic :: "nat \<Rightarrow> u64"
  wall :: int
  server_ip :: string
  udp_socket :: "int \<Rightarrow> int"
  tcp_recv :: "int \<Rightarrow> bytes option"
  tls_recv :: "int \<Rightarrow> ssl_read"
  selected :: select_result
  readable :: "int \<Rightarrow> bool"
  fd_valid :: "int \<Rightarrow> bool"
  accept_plain :: accepted
  accept_tls :: accepted
  tls_handshake :: bool

definition MAX_RTSP_CLIENTS :: nat where
  "MAX_RTSP_CLIENTS = 8"

text \<open>Reading the clock; taking \<open>n\<close> random numbers.\<close>

definition read_clock :: "rtsp_env \<Rightarrow> rtsp_server \<Rightarrow> u32 \<times> rtsp_server" where
  "read_clock env srv = (ucast (monotonic env (readings srv)), srv\<lparr>readings := readings srv + 1\<rparr>)"

definition take_rands :: "nat \<Rightarrow> rtsp_env \<Rightarrow> rtsp_server \<Rightarrow> (nat \<Rightarrow> nat) \<times> rtsp_server" where
  "take_rands n env srv = (\<lambda>i. rnd env (rands srv + i), srv\<lparr>rands := rands srv + n\<rparr>)"

section \<open>Configuration and life cycle\<close>

definition rtsp_server_set_default_config :: rtsp_config where
  "rtsp_server_set_default_config =
     \<lparr>server_port = 554,
      server_auth = \<lparr>auth_enabled = False, localhost_bypass = True, auth_username = ''admin'', auth_password = ''admin''\<rparr>,
      server_name = ''Thingino RTSP Server'', max_clients = 8, session_timeout = 60, tls_enabled = False,
      tls_port = 322, cert_file = [], key_file = [], tls_verify_client = False\<rparr>"

definition empty_client :: rtsp_client where
  "empty_client =
     \<lparr>socket_fd = -1, client_state = RTSP_CLIENT_STATE_INIT, session_id = [], client_cseq = 0,
      rtp_port = 0, rtcp_port = 0, rtp_socket_fd = -1, rtp_seq = 0, rtp_ssrc = 0, video_channel = 0,
      client_codec = VIDEO_CODEC_H264, transport_mode = RTSP_TRANSPORT_UDP, last_activity_us = 0,
      client_active = False, needs_idr = False, idr_wait_start_us = 0, supports_backchannel = False,
      use_tls = False, ssl_context = False, peer_addr = 0, rtp_addr = (0, 0), rtp_timestamp = 0,
      request_buffer = [], closed_fds = [], outbox = []\<rparr>"

text \<open>The clocks are those of the program; the counters of \<open>rand\<close> and clock start anew.\<close>

definition rtsp_server_create :: "rtsp_config \<Rightarrow> rtp_clock list \<Rightarrow> rtsp_server" where
  "rtsp_server_create cfg ks =
     \<lparr>clients = replicate MAX_RTSP_CLIENTS empty_client, media_running = False, clocks = ks,
      server_config = cfg, listen_socket = -1, tls_listen_socket = -1, client_count = 0, streams = [],
      should_stop = False, tls_context = False, total_connections = 0, total_bytes_sent = 0,
      total_packets_sent = 0, rands = 0, readings = 0, last_immediate_idr = 0, idr_requests = [],
      server_closed = []\<rparr>"

text \<open>\<open>None\<close> is a NULL argument, \<open>room\<close> whether \<open>realloc\<close> succeeds.\<close>

definition rtsp_server_add_stream :: "bool \<Rightarrow> rtsp_server \<Rightarrow> video_stream option \<Rightarrow> c_int \<times> rtsp_server" where
  "rtsp_server_add_stream room srv stream =
     (case stream of
        None \<Rightarrow> (-1, srv)
      | Some s \<Rightarrow> if room then (0, srv\<lparr>streams := streams srv @ [s]\<rparr>) else (-1, srv))"

definition rtsp_server_get_client_count :: "rtsp_server \<Rightarrow> int \<Rightarrow> int" where
  "rtsp_server_get_client_count srv ch =
     (if ch < 0 \<or> 4 \<le> ch then 0 else int (length (filter (wants_frames ch) (clients srv))))"

definition rtsp_server_get_stats :: "rtsp_server \<Rightarrow> u32 \<times> u32 \<times> u32" where
  "rtsp_server_get_stats srv = (total_connections srv, total_bytes_sent srv, total_packets_sent srv)"

definition rtsp_client_tls_cleanup :: "rtsp_client \<Rightarrow> rtsp_client" where
  "rtsp_client_tls_cleanup c = c\<lparr>ssl_context := False, use_tls := False\<rparr>"

definition cleanup_client :: "rtsp_client \<Rightarrow> rtsp_client" where
  "cleanup_client c =
     (let c1 = rtsp_client_tls_cleanup c;
          c2 = (if 0 \<le> socket_fd c1
                then c1\<lparr>closed_fds := closed_fds c1 @ [socket_fd c1], socket_fd := -1\<rparr> else c1);
          c3 = (if 0 \<le> rtp_socket_fd c2
                then c2\<lparr>closed_fds := closed_fds c2 @ [rtp_socket_fd c2], rtp_socket_fd := -1\<rparr> else c2)
      in c3\<lparr>client_active := False, client_state := RTSP_CLIENT_STATE_INIT, session_id := []\<rparr>)"

section \<open>The methods\<close>

definition respond ::
  "rtsp_env \<Rightarrow> nat \<Rightarrow> string \<Rightarrow> string \<Rightarrow> string option \<Rightarrow> rtsp_server \<Rightarrow> rtsp_client \<Rightarrow>
     c_int \<times> rtsp_server \<times> rtsp_client" where
  "respond env status phrase headers body srv c =
     (case send_rtsp_response (env_net env) c status phrase headers body of (r, c1) \<Rightarrow> (r, srv, c1))"

definition handle_options_request ::
  "rtsp_env \<Rightarrow> rtsp_server \<Rightarrow> rtsp_client \<Rightarrow> c_int \<times> rtsp_server \<times> rtsp_client" where
  "handle_options_request env srv c =
     respond env 200 ''OK'' (''Public: OPTIONS, DESCRIBE, SETUP, PLAY, PAUSE, TEARDOWN'' @ CRLF) None srv c"

definition requires_backchannel :: "rtsp_client \<Rightarrow> bool" where
  "requires_backchannel c \<longleftrightarrow>
     strstr (request_buffer c) ''Require: www.onvif.org/ver20/backchannel'' \<noteq> None"

definition handle_describe_request ::
  "rtsp_env \<Rightarrow> rtsp_server \<Rightarrow> rtsp_client \<Rightarrow> string \<Rightarrow> c_int \<times> rtsp_server \<times> rtsp_client" where
  "handle_describe_request env srv c url =
     (let c1 = c\<lparr>supports_backchannel := requires_backchannel c\<rparr> in
      case extract_stream_name_from_url (streams srv) url of
        None \<Rightarrow> respond env 404 ''Not Found'' [] None srv c1
      | Some name \<Rightarrow>
          (case find_stream (streams srv) name of
             None \<Rightarrow> respond env 404 ''Not Found'' [] None srv c1
           | Some s \<Rightarrow>
               (case generate_sdp (streams srv) (server_ip env) (server_port (server_config srv)) (wall env) name
                       (supports_backchannel c1) of
                  None \<Rightarrow> respond env 500 ''Internal Server Error'' [] None srv c1
                | Some sdp \<Rightarrow> respond env 200 ''OK'' [] (Some sdp) srv c1)))"

text \<open>The headers of a response to SETUP.\<close>

definition setup_headers :: "rtsp_client \<Rightarrow> string" where
  "setup_headers c =
     (case transport_mode c of
        RTSP_TRANSPORT_TCP \<Rightarrow> ''Transport: RTP/AVP/TCP;unicast;interleaved=''
      | RTSP_TRANSPORT_UDP \<Rightarrow> ''Transport: RTP/AVP;unicast;client_port='') @
     decimal_int (rtp_port c) @ ''-'' @ decimal_int (rtcp_port c) @ CRLF"

text \<open>The transport part of SETUP: the client, and the error response if there is one.\<close>

definition setup_tcp :: "string \<Rightarrow> rtsp_client \<Rightarrow> rtsp_client" where
  "setup_tcp transport c =
     (case scan_ports ''interleaved='' transport of
        Some (a, b) \<Rightarrow> c\<lparr>transport_mode := RTSP_TRANSPORT_TCP, rtp_port := a, rtcp_port := b\<rparr>
      | None \<Rightarrow> c\<lparr>transport_mode := RTSP_TRANSPORT_TCP\<rparr>)"

definition setup_udp :: "rtsp_env \<Rightarrow> string \<Rightarrow> rtsp_client \<Rightarrow> (nat \<times> string) option \<times> rtsp_client" where
  "setup_udp env transport c =
     (let c1 = c\<lparr>transport_mode := RTSP_TRANSPORT_UDP\<rparr> in
      case (case scan_ports ''client_port='' transport of
              Some p \<Rightarrow> Some p | None \<Rightarrow> if use_tls c then Some (5004, 5005) else None) of
        None \<Rightarrow> (Some (400, ''Bad Request''), c1)
      | Some (a, b) \<Rightarrow>
          (let c2 = c1\<lparr>rtp_port := a, rtcp_port := b, rtp_addr := (peer_addr c, word_of_int a),
                      rtp_socket_fd := udp_socket env (socket_fd c)\<rparr>
           in if rtp_socket_fd c2 < 0 then (Some (500, ''Internal Server Error''), c2) else (None, c2)))"

definition setup_transport :: "rtsp_env \<Rightarrow> string \<Rightarrow> rtsp_client \<Rightarrow> (nat \<times> string) option \<times> rtsp_client" where
  "setup_transport env transport c =
     (if strstr transport ''RTP/AVP/TCP'' \<noteq> None then (None, setup_tcp transport c)
      else setup_udp env transport c)"

text \<open>Only the tracks of the video choose the channel.\<close>

definition setup_track :: "int \<Rightarrow> video_stream \<Rightarrow> rtsp_client \<Rightarrow> rtsp_client" where
  "setup_track track_id s c =
     (if track_id = 1 \<or> track_id = 0
      then c\<lparr>video_channel := channel s, client_codec := stream_codec s\<rparr> else c)"

definition handle_setup_request ::
  "rtsp_env \<Rightarrow> rtsp_server \<Rightarrow> rtsp_client \<Rightarrow> string \<Rightarrow> string \<Rightarrow> c_int \<times> rtsp_server \<times> rtsp_client" where
  "handle_setup_request env srv c url transport =
     (case extract_stream_name_from_url (streams srv) url of
        None \<Rightarrow> respond env 404 ''Not Found'' [] None srv c
      | Some full \<Rightarrow>
          (case split_track full of
             (name, track_id, is_backchannel) \<Rightarrow>
               (case find_stream (streams srv) name of
                  None \<Rightarrow> respond env 404 ''Not Found'' [] None srv c
                | Some s \<Rightarrow>
                    if is_backchannel \<and> \<not> requires_backchannel c
                    then respond env 400 ''Bad Request'' [] None srv c
                    else
                      (case setup_transport env transport (setup_track track_id s c) of
                         (Some (status, phrase), c1) \<Rightarrow> respond env status phrase [] None srv c1
                       | (None, c1) \<Rightarrow>
                           respond env 200 ''OK'' (setup_headers c1) None srv
                             (c1\<lparr>client_state := RTSP_CLIENT_STATE_READY\<rparr>)))))"

definition request_idr_frame :: "int \<Rightarrow> rtsp_server \<Rightarrow> rtsp_server" where
  "request_idr_frame ch srv = srv\<lparr>idr_requests := idr_requests srv @ [ch]\<rparr>"

text \<open>After a response to PLAY that was sent: the client waits for an IDR frame, and one is asked for.\<close>

definition await_idr :: "rtsp_env \<Rightarrow> c_int \<Rightarrow> rtsp_server \<Rightarrow> rtsp_client \<Rightarrow> c_int \<times> rtsp_server \<times> rtsp_client" where
  "await_idr env result srv c =
     (if result = 0 \<and> video_channel c < 2 then
        (case read_clock env srv of
           (now, srv1) \<Rightarrow>
             (result, request_idr_frame (video_channel c) (srv1\<lparr>last_immediate_idr := wall env\<rparr>),
              c\<lparr>needs_idr := True, idr_wait_start_us := now\<rparr>))
      else (result, srv, c))"

definition note_backchannel :: "rtsp_client \<Rightarrow> rtsp_client" where
  "note_backchannel c = (if requires_backchannel c then c\<lparr>supports_backchannel := True\<rparr> else c)"

definition handle_play_request ::
  "rtsp_env \<Rightarrow> rtsp_server \<Rightarrow> rtsp_client \<Rightarrow> c_int \<times> rtsp_server \<times> rtsp_client" where
  "handle_play_request env srv c =
     (let c1 = note_backchannel c in
      if client_state c1 \<noteq> RTSP_CLIENT_STATE_READY \<and> client_state c1 \<noteq> RTSP_CLIENT_STATE_PLAYING
      then respond env 400 ''Bad Request'' [] None srv c1
      else
        (case take_rands 2 env srv of
           (r, srv1) \<Rightarrow>
             (case respond env 200 ''OK'' (''Range: npt=0.000-'' @ CRLF) None srv1
                     (c1\<lparr>client_state := RTSP_CLIENT_STATE_PLAYING, rtp_seq := word_of_nat (r 0),
                         rtp_ssrc := word_of_nat (r 1)\<rparr>) of
                (result, srv2, c2) \<Rightarrow> await_idr env result srv2 c2)))"

definition handle_pause_request ::
  "rtsp_env \<Rightarrow> rtsp_server \<Rightarrow> rtsp_client \<Rightarrow> c_int \<times> rtsp_server \<times> rtsp_client" where
  "handle_pause_request env srv c =
     (if client_state c \<noteq> RTSP_CLIENT_STATE_PLAYING then respond env 400 ''Bad Request'' [] None srv c
      else respond env 200 ''OK'' [] None srv (c\<lparr>client_state := RTSP_CLIENT_STATE_READY\<rparr>))"

definition handle_teardown_request ::
  "rtsp_env \<Rightarrow> rtsp_server \<Rightarrow> rtsp_client \<Rightarrow> c_int \<times> rtsp_server \<times> rtsp_client" where
  "handle_teardown_request env srv c =
     (case respond env 200 ''OK'' [] None srv (c\<lparr>client_state := RTSP_CLIENT_STATE_INIT\<rparr>) of
        (ret, srv1, c1) \<Rightarrow> (ret, srv1\<lparr>client_count := client_count srv1 - 1\<rparr>, cleanup_client c1))"

section \<open>One request\<close>

definition rtsp_client_tls_read :: "rtsp_env \<Rightarrow> rtsp_client \<Rightarrow> nat \<Rightarrow> bytes option" where
  "rtsp_client_tls_read env c n =
     map_option (take n)
       (if \<not> use_tls c \<or> \<not> ssl_context c then tcp_recv env (socket_fd c)
        else (case tls_recv env (socket_fd c) of
                SslData d \<Rightarrow> Some d | SslClosed \<Rightarrow> Some [] | SslFailed \<Rightarrow> None))"

text \<open>On interleaved TCP: what stands before a TEARDOWN is dropped.\<close>

definition find_teardown :: "rtsp_client \<Rightarrow> string \<Rightarrow> string" where
  "find_teardown c buffer =
     (if transport_mode c = RTSP_TRANSPORT_TCP
      then (case strstr buffer ''TEARDOWN'' of None \<Rightarrow> buffer | Some j \<Rightarrow> drop j buffer)
      else buffer)"

definition unknown_client :: client_info where
  "unknown_client = \<lparr>client_fd = 0, client_addr = 0, is_localhost = False, ip_string = ''unknown''\<rparr>"

definition unauthorized_header :: string where
  "unauthorized_header = ''WWW-Authenticate: Basic realm='' @ [CHR 0x22] @ ''Thingino RTSP Server'' @ [CHR 0x22] @ CRLF"

definition dispatch_request ::
  "rtsp_env \<Rightarrow> rtsp_server \<Rightarrow> rtsp_client \<Rightarrow> rtsp_method \<Rightarrow> string \<Rightarrow> string \<Rightarrow> c_int \<times> rtsp_server \<times> rtsp_client" where
  "dispatch_request env srv c m url request =
     (case m of
        RTSP_METHOD_OPTIONS \<Rightarrow> handle_options_request env srv c
      | RTSP_METHOD_DESCRIBE \<Rightarrow> handle_describe_request env srv c url
      | RTSP_METHOD_SETUP \<Rightarrow> handle_setup_request env srv c url (transport_header request)
      | RTSP_METHOD_PLAY \<Rightarrow> handle_play_request env srv c
      | RTSP_METHOD_PAUSE \<Rightarrow> handle_pause_request env srv c
      | RTSP_METHOD_TEARDOWN \<Rightarrow> handle_teardown_request env srv c
      | _ \<Rightarrow> respond env 405 ''Method Not Allowed'' [] None srv c)"

definition authenticate ::
  "rtsp_env \<Rightarrow> rtsp_server \<Rightarrow> rtsp_client \<Rightarrow> rtsp_method \<Rightarrow> string \<Rightarrow> string \<Rightarrow>
     (c_int \<times> rtsp_server \<times> rtsp_client) option" where
  "authenticate env srv c m url request =
     (let info = auth_get_client_info (peer env) (socket_fd c) in
      if info = None \<and> m \<noteq> RTSP_METHOD_TEARDOWN then Some (-1, srv, c)
      else
        (let client = (case info of None \<Rightarrow> unknown_client | Some i \<Rightarrow> i);
             skip_auth = (m = RTSP_METHOD_TEARDOWN \<and> ip_string client = ''unknown'')
         in map_option
              (\<lambda>result. case result of
                   AUTH_RESULT_REQUIRED \<Rightarrow> respond env 401 ''Unauthorized'' unauthorized_header None srv c
                 | AUTH_RESULT_INVALID \<Rightarrow> respond env 401 ''Unauthorized'' unauthorized_header None srv c
                 | AUTH_RESULT_ERROR \<Rightarrow> respond env 500 ''Internal Server Error'' [] None srv c
                 | AUTH_RESULT_SUCCESS \<Rightarrow> dispatch_request env srv c m url request)
              (if skip_auth then Some AUTH_RESULT_SUCCESS
               else auth_check_rtsp_request (Some request) (Some (server_auth (server_config srv))) (Some client))))"

definition handle_client_connection ::
  "rtsp_env \<Rightarrow> rtsp_server \<Rightarrow> rtsp_client \<Rightarrow> (c_int \<times> rtsp_server \<times> rtsp_client) option" where
  "handle_client_connection env srv c =
     (case rtsp_client_tls_read env c 4095 of
        None \<Rightarrow> Some (-1, srv, c)
      | Some received \<Rightarrow>
          if received = [] then Some (-1, srv, c)
          else
            (let buffer = find_teardown c (map byte_char received) in
             if hd buffer = CHR ''$'' then Some (0, srv, c)
             else
               (case read_clock env srv of
                  (now, srv1) \<Rightarrow>
                    (let c1 = c\<lparr>last_activity_us := now\<rparr>; request = takeWhile (\<lambda>x. x \<noteq> CHR 0x00) buffer in
                     case parse_rtsp_request request of
                       None \<Rightarrow> Some (-1, srv1, c1)
                     | Some (m, url, cseq) \<Rightarrow>
                         authenticate env srv1 (c1\<lparr>client_cseq := word_of_int cseq\<rparr>) m url request))))"

section \<open>The server thread\<close>

definition find_free_client_slot :: "rtsp_server \<Rightarrow> nat option" where
  "find_free_client_slot srv = find (\<lambda>i. \<not> client_active (clients srv ! i)) [0..<MAX_RTSP_CLIENTS]"

definition set_client :: "nat \<Rightarrow> rtsp_client \<Rightarrow> rtsp_server \<Rightarrow> rtsp_server" where
  "set_client i c srv = srv\<lparr>clients := (clients srv)[i := c]\<rparr>"

text \<open>What a new connection sets in its slot, before TLS and the RTP parameters.\<close>

definition init_client :: "int \<Rightarrow> u32 \<Rightarrow> u32 \<Rightarrow> string \<Rightarrow> rtsp_client \<Rightarrow> rtsp_client" where
  "init_client fd addr now sid c =
     c\<lparr>socket_fd := fd, rtp_socket_fd := -1, client_active := True, client_state := RTSP_CLIENT_STATE_INIT,
       transport_mode := RTSP_TRANSPORT_UDP, needs_idr := False, idr_wait_start_us := 0, peer_addr := addr,
       last_activity_us := now, session_id := sid, use_tls := False, ssl_context := False\<rparr>"

definition init_rtp :: "rtsp_env \<Rightarrow> nat \<Rightarrow> rtsp_server \<Rightarrow> rtsp_server" where
  "init_rtp env i srv =
     (case take_rands 3 env srv of
        (r, srv1) \<Rightarrow>
          (set_client i ((clients srv1 ! i)\<lparr>rtp_seq := word_of_nat (r 0), rtp_timestamp := word_of_nat (r 1),
                                          rtp_ssrc := word_of_nat (r 2)\<rparr>) srv1)
            \<lparr>client_count := client_count srv1 + 1, total_connections := total_connections srv1 + 1\<rparr>)"

definition close_accepted :: "int \<Rightarrow> rtsp_server \<Rightarrow> rtsp_server" where
  "close_accepted fd srv = srv\<lparr>server_closed := server_closed srv @ [fd]\<rparr>"

text \<open>\<open>tls\<close>: the connection came in over the TLS socket; its slot is set up before the handshake.\<close>

definition rtsp_client_tls_accept :: "rtsp_env \<Rightarrow> rtsp_server \<Rightarrow> bool" where
  "rtsp_client_tls_accept env srv \<longleftrightarrow> tls_context srv \<and> tls_handshake env"

definition accept_connection :: "rtsp_env \<Rightarrow> bool \<Rightarrow> accepted \<Rightarrow> rtsp_server \<Rightarrow> rtsp_server" where
  "accept_connection env tls a srv =
     (case a of
        AcceptFailed \<Rightarrow> srv
      | Accepted fd addr \<Rightarrow>
          if max_clients (server_config srv) \<le> client_count srv then close_accepted fd srv
          else
            (case find_free_client_slot srv of
               None \<Rightarrow> close_accepted fd srv
             | Some i \<Rightarrow>
                 (case read_clock env srv of
                    (now, srv1) \<Rightarrow>
                      (case take_rands 31 env srv1 of
                         (r, srv2) \<Rightarrow>
                           (let c = init_client fd addr now (generate_session_id r) (clients srv2 ! i);
                                srv3 = set_client i c srv2
                            in if \<not> tls then init_rtp env i srv3
                               else if rtsp_client_tls_accept env srv3
                               then init_rtp env i (set_client i (c\<lparr>ssl_context := True, use_tls := True\<rparr>) srv3)
                               else close_accepted fd srv3)))))"

text \<open>
  A client whose socket is readable. While its request is handled, media over the same TCP
  connection pauses; an error ends the client.
\<close>

definition hold_media :: "rtsp_client \<Rightarrow> rtsp_client" where
  "hold_media c =
     (if transport_mode c = RTSP_TRANSPORT_TCP \<and> client_state c = RTSP_CLIENT_STATE_PLAYING
      then c\<lparr>client_state := RTSP_CLIENT_STATE_READY\<rparr> else c)"

definition resume_media :: "bool \<Rightarrow> c_int \<Rightarrow> rtsp_client \<Rightarrow> rtsp_client" where
  "resume_media was_playing result c =
     (if client_active c \<and> 0 \<le> result \<and> was_playing \<and> client_state c = RTSP_CLIENT_STATE_READY
      then c\<lparr>client_state := RTSP_CLIENT_STATE_PLAYING\<rparr> else c)"

definition finish_request :: "nat \<Rightarrow> c_int \<Rightarrow> rtsp_server \<Rightarrow> rtsp_client \<Rightarrow> rtsp_server" where
  "finish_request i result srv c =
     (if result < 0
      then (set_client i (cleanup_client (c\<lparr>client_active := False\<rparr>)) srv)\<lparr>client_count := client_count srv - 1\<rparr>
      else set_client i c srv)"

definition serve_client :: "rtsp_env \<Rightarrow> int list \<Rightarrow> rtsp_server \<Rightarrow> nat \<Rightarrow> rtsp_server option" where
  "serve_client env watched srv i =
     (let c = clients srv ! i in
      if client_active c \<and> 0 \<le> socket_fd c \<and> socket_fd c \<in> set watched \<and> readable env (socket_fd c) then
        map_option
          (\<lambda>(result, srv1, c1).
             finish_request i result srv1 (resume_media (client_state c = RTSP_CLIENT_STATE_PLAYING) result c1))
          (handle_client_connection env srv (hold_media c))
      else Some srv)"

fun serve_clients :: "rtsp_env \<Rightarrow> int list \<Rightarrow> nat list \<Rightarrow> rtsp_server \<Rightarrow> rtsp_server option" where
  "serve_clients env watched [] srv = Some srv"
| "serve_clients env watched (i # is) srv =
     (case serve_client env watched srv i of
        None \<Rightarrow> None
      | Some srv1 \<Rightarrow> serve_clients env watched is srv1)"

definition watched_sockets :: "rtsp_server \<Rightarrow> int list" where
  "watched_sockets srv =
     (if 0 \<le> listen_socket srv then [listen_socket srv] else []) @
     (if tls_enabled (server_config srv) \<and> 0 \<le> tls_listen_socket srv then [tls_listen_socket srv] else []) @
     map socket_fd (filter (\<lambda>c. client_active c \<and> 0 \<le> socket_fd c) (clients srv))"

text \<open>After an error of \<open>select\<close>: clients whose descriptor is not valid any more.\<close>

definition drop_invalid :: "rtsp_env \<Rightarrow> rtsp_client \<Rightarrow> rtsp_client" where
  "drop_invalid env c =
     (if client_active c \<and> 0 \<le> socket_fd c \<and> \<not> fd_valid env (socket_fd c) then c\<lparr>client_active := False\<rparr> else c)"

text \<open>After a second without activity: \<open>now\<close> against the last activity, both in 32 bits.\<close>

definition timed_out :: "rtsp_server \<Rightarrow> u32 \<Rightarrow> rtsp_client \<Rightarrow> bool" where
  "timed_out srv now c \<longleftrightarrow>
     client_active c \<and> word_of_int (session_timeout (server_config srv)) * 1000000 < now - last_activity_us c"

definition drop_inactive :: "u32 \<Rightarrow> rtsp_server \<Rightarrow> rtsp_server" where
  "drop_inactive now srv =
     srv\<lparr>clients := map (\<lambda>c. if timed_out srv now c then cleanup_client c else c) (clients srv),
         client_count := client_count srv - int (length (filter (timed_out srv now) (clients srv)))\<rparr>"

definition server_round :: "rtsp_env \<Rightarrow> rtsp_server \<Rightarrow> rtsp_server option" where
  "server_round env srv =
     (if should_stop srv then Some srv
      else
        (let watched = watched_sockets srv in
         case selected env of
           SelectError interrupted \<Rightarrow>
             Some (if interrupted then srv else srv\<lparr>clients := map (drop_invalid env) (clients srv)\<rparr>)
         | SelectTimeout \<Rightarrow>
             (case read_clock env srv of (now, srv1) \<Rightarrow> Some (drop_inactive now srv1))
         | SelectReady \<Rightarrow>
             (let srv1 = (if 0 \<le> listen_socket srv \<and> readable env (listen_socket srv)
                          then accept_connection env False (accept_plain env) srv else srv);
                  srv2 = (if tls_enabled (server_config srv1) \<and> 0 \<le> tls_listen_socket srv1 \<and>
                             readable env (tls_listen_socket srv1)
                          then accept_connection env True (accept_tls env) srv1 else srv1)
              in serve_clients env watched [0..<MAX_RTSP_CLIENTS] srv2)))"

text \<open>The thread that sends: whether it calls the frame callback; \<open>rtmp\<close> counts the RTMP clients.\<close>

definition rtp_thread_polls :: "rtsp_server \<Rightarrow> nat \<Rightarrow> bool" where
  "rtp_thread_polls srv rtmp \<longleftrightarrow>
     0 < length (filter (\<lambda>c. client_active c \<and> client_state c = RTSP_CLIENT_STATE_PLAYING) (clients srv)) \<or> 0 < rtmp"

section \<open>Replies\<close>

text \<open>A reply changes of the client only what it sends and, when TLS fails, the TLS fields.\<close>

definition replied :: "string \<Rightarrow> rtsp_client \<Rightarrow> rtsp_client \<Rightarrow> bool" where
  "replied reply c c1 \<longleftrightarrow>
     (\<exists>ts. c1 = c\<lparr>outbox := outbox c @ ts, use_tls := use_tls c1, ssl_context := ssl_context c1\<rparr> \<and>
       (ts = [] \<or> (\<exists>n. ts = [Plain (take n (map char_byte reply))] \<or> ts = [Secure (take n (map char_byte reply))])))"

lemma replied_none:
  "replied reply c (c\<lparr>use_tls := a, ssl_context := b\<rparr>)" "replied reply c (c\<lparr>ssl_context := b, use_tls := a\<rparr>)"
  "replied reply c c"
  unfolding replied_def by (rule exI [of _ "[]"], cases c, simp)+

lemma replied_put:
  "replied reply c (put_out (Plain (take n (map char_byte reply))) c)"
  "replied reply c (put_out (Secure (take n (map char_byte reply))) c)"
  by (auto simp: replied_def put_out_def)

lemma replied_ssl:
  "d = map char_byte reply \<Longrightarrow> replied reply c (snd (ssl_write_loop net d left k c))"
  by (induction net d left k c rule: ssl_write_loop.induct)
    (simp_all add: replied_none replied_put split: ssl_result.split)

lemma replied_tls_write: "replied reply c (snd (rtsp_client_tls_write net c (map char_byte reply)))"
  by (simp add: rtsp_client_tls_write_def send_plain_def Let_def replied_none replied_put replied_ssl)

lemma respond_effect:
  assumes "respond env status phrase headers body srv c = (r, srv', c')"
  shows "srv' = srv" "replied (response_text status phrase headers body c) c c'" "r = 0 \<or> r = -1"
  using assms replied_tls_write [of "response_text status phrase headers body c" c "env_net env"]
  by (auto simp: respond_def send_rtsp_response_def split: prod.splits if_splits)

lemma replied_fields:
  assumes "replied reply c c1"
  shows "client_state c1 = client_state c" "client_active c1 = client_active c" "socket_fd c1 = socket_fd c"
    "rtp_socket_fd c1 = rtp_socket_fd c" "session_id c1 = session_id c" "transport_mode c1 = transport_mode c"
    "video_channel c1 = video_channel c" "needs_idr c1 = needs_idr c" "closed_fds c1 = closed_fds c"
    "request_buffer c1 = request_buffer c" "client_codec c1 = client_codec c" "rtp_port c1 = rtp_port c"
    "rtcp_port c1 = rtcp_port c" "client_cseq c1 = client_cseq c" "last_activity_us c1 = last_activity_us c"
  using assms by (cases c; cases c1; simp add: replied_def)+

section \<open>What the handlers change\<close>

text \<open>
  The effect on the state of a request that is carried out, as the handlers have it; \<open>RtspProperties\<close> compares
  it with the state machine of RFC 2326.
\<close>

fun session_step :: "rtsp_client_state \<Rightarrow> rtsp_method \<Rightarrow> rtsp_client_state" where
  "session_step s RTSP_METHOD_SETUP = RTSP_CLIENT_STATE_READY"
| "session_step RTSP_CLIENT_STATE_READY RTSP_METHOD_PLAY = RTSP_CLIENT_STATE_PLAYING"
| "session_step RTSP_CLIENT_STATE_PLAYING RTSP_METHOD_PAUSE = RTSP_CLIENT_STATE_READY"
| "session_step s RTSP_METHOD_TEARDOWN = RTSP_CLIENT_STATE_INIT"
| "session_step s m = s"

definition same_server :: "rtsp_server \<Rightarrow> rtsp_server \<Rightarrow> bool" where
  "same_server srv srv1 \<longleftrightarrow>
     clients srv1 = clients srv \<and> server_config srv1 = server_config srv \<and> streams srv1 = streams srv \<and>
     listen_socket srv1 = listen_socket srv \<and> tls_listen_socket srv1 = tls_listen_socket srv \<and>
     should_stop srv1 = should_stop srv \<and> tls_context srv1 = tls_context srv \<and> clocks srv1 = clocks srv \<and>
     media_running srv1 = media_running srv \<and> server_closed srv1 = server_closed srv"

text \<open>What a request other than TEARDOWN leaves of the slot.\<close>

definition same_slot :: "rtsp_client \<Rightarrow> rtsp_client \<Rightarrow> bool" where
  "same_slot c c1 \<longleftrightarrow>
     client_active c1 = client_active c \<and> socket_fd c1 = socket_fd c \<and> session_id c1 = session_id c \<and>
     closed_fds c1 = closed_fds c"

lemma same_server_refl [simp]: "same_server srv srv"
  by (simp add: same_server_def)

lemma same_server_trans: "same_server a b \<Longrightarrow> same_server b c \<Longrightarrow> same_server a c"
  by (simp add: same_server_def)

lemma same_slot_refl [simp]: "same_slot c c"
  by (simp add: same_slot_def)

lemma same_slot_trans: "same_slot a b \<Longrightarrow> same_slot b c \<Longrightarrow> same_slot a c"
  by (simp add: same_slot_def)

lemma respond_slot:
  assumes "respond env status phrase headers body srv c = (r, srv1, c1)"
  shows "srv1 = srv \<and> same_slot c c1 \<and> client_state c1 = client_state c \<and> (r = 0 \<or> r = -1)"
  using respond_effect [OF assms] replied_fields [OF respond_effect(2) [OF assms]]
  by (simp add: same_slot_def)

lemma options_effect:
  "handle_options_request env srv c = (r, srv1, c1) \<Longrightarrow>
     srv1 = srv \<and> same_slot c c1 \<and> client_state c1 = client_state c \<and> (r = 0 \<or> r = -1)"
  unfolding handle_options_request_def by (rule respond_slot)

lemma describe_effect:
  "handle_describe_request env srv c url = (r, srv1, c1) \<Longrightarrow>
     srv1 = srv \<and> same_slot c c1 \<and> client_state c1 = client_state c \<and> (r = 0 \<or> r = -1)"
  unfolding handle_describe_request_def Let_def
  by (auto dest!: respond_slot simp: same_slot_def split: option.splits)

lemma setup_track_slot: "same_slot c (setup_track n s c)" "client_state (setup_track n s c) = client_state c"
  by (simp_all add: setup_track_def same_slot_def)

lemma setup_transport_slot:
  "setup_transport env t c = (e, c1) \<Longrightarrow> same_slot c c1 \<and> client_state c1 = client_state c"
  by (auto simp: setup_transport_def setup_tcp_def setup_udp_def same_slot_def Let_def
      split: option.splits if_splits prod.splits)

lemma setup_effect:
  assumes "handle_setup_request env srv c url t = (r, srv1, c1)"
  shows "srv1 = srv \<and> same_slot c c1 \<and> client_state c1 \<in> {client_state c, RTSP_CLIENT_STATE_READY} \<and>
    (r = 0 \<or> r = -1)"
proof -
  have "same_slot c c2 \<and> client_state c2 = client_state c"
    if "setup_transport env t (setup_track n s c) = (e, c2)" for n s e c2
    using setup_transport_slot [OF that] setup_track_slot [where c = c and n = n and s = s] same_slot_trans by force
  note transport = this
  from assms show ?thesis
    unfolding handle_setup_request_def
    by (auto dest!: respond_slot transport simp: same_slot_def split: option.splits prod.splits if_splits)
qed

lemma await_idr_effect:
  "await_idr env result srv c = (r, srv1, c1) \<Longrightarrow>
     r = result \<and> same_server srv srv1 \<and> client_count srv1 = client_count srv \<and> same_slot c c1 \<and>
     client_state c1 = client_state c"
  by (auto simp: await_idr_def read_clock_def request_idr_frame_def same_server_def same_slot_def split: if_splits)

lemma note_backchannel_slot [simp]:
  "same_slot c (note_backchannel c)" "client_state (note_backchannel c) = client_state c"
  "outbox (note_backchannel c) = outbox c" "session_id (note_backchannel c) = session_id c"
  "rtp_port (note_backchannel c) = rtp_port c" "rtcp_port (note_backchannel c) = rtcp_port c"
  by (simp_all add: note_backchannel_def same_slot_def)

lemma play_cases:
  assumes "handle_play_request env srv c = (r, srv1, c1)"
  obtains "client_state c \<notin> {RTSP_CLIENT_STATE_READY, RTSP_CLIENT_STATE_PLAYING}"
      and "respond env 400 ''Bad Request'' [] None srv (note_backchannel c) = (r, srv1, c1)"
    | x y srv2 c2 r2 where "client_state c \<in> {RTSP_CLIENT_STATE_READY, RTSP_CLIENT_STATE_PLAYING}"
      and "respond env 200 ''OK'' (''Range: npt=0.000-'' @ CRLF) None (srv\<lparr>rands := rands srv + 2\<rparr>)
        ((note_backchannel c)\<lparr>client_state := RTSP_CLIENT_STATE_PLAYING, rtp_seq := x, rtp_ssrc := y\<rparr>) = (r2, srv2, c2)"
      and "await_idr env r2 srv2 c2 = (r, srv1, c1)"
proof (cases "client_state c \<in> {RTSP_CLIENT_STATE_READY, RTSP_CLIENT_STATE_PLAYING}")
  case False
  then have "respond env 400 ''Bad Request'' [] None srv (note_backchannel c) = (r, srv1, c1)"
    using assms by (simp add: handle_play_request_def)
  with False that(1) show ?thesis by blast
next
  case True
  let ?p = "(note_backchannel c)\<lparr>client_state := RTSP_CLIENT_STATE_PLAYING,
    rtp_seq := word_of_nat (rnd env (rands srv + 0)), rtp_ssrc := word_of_nat (rnd env (rands srv + 1))\<rparr>"
  obtain r2 srv2 c2 where p: "respond env 200 ''OK'' (''Range: npt=0.000-'' @ CRLF) None
      (srv\<lparr>rands := rands srv + 2\<rparr>) ?p = (r2, srv2, c2)" by (metis prod_cases3)
  have "(client_state (note_backchannel c) \<noteq> RTSP_CLIENT_STATE_READY \<and>
      client_state (note_backchannel c) \<noteq> RTSP_CLIENT_STATE_PLAYING) = False" using True by auto
  with assms p have "await_idr env r2 srv2 c2 = (r, srv1, c1)"
    by (simp only: handle_play_request_def Let_def take_rands_def if_False prod.case)
  with True p that(2) show ?thesis by blast
qed

lemma play_effect:
  assumes "handle_play_request env srv c = (r, srv1, c1)"
  shows "same_server srv srv1 \<and> client_count srv1 = client_count srv \<and> same_slot c c1 \<and>
     client_state c1 = session_step (client_state c) RTSP_METHOD_PLAY \<and> (r = 0 \<or> r = -1)"
  using assms
proof (cases rule: play_cases)
  case 1
  with respond_slot [OF 1(2)] same_slot_trans [OF note_backchannel_slot(1)] show ?thesis
    by (cases "client_state c") auto
next
  case (2 x y srv2 c2 r2)
  have "same_slot c ((note_backchannel c)\<lparr>client_state := RTSP_CLIENT_STATE_PLAYING, rtp_seq := x, rtp_ssrc := y\<rparr>)"
    using note_backchannel_slot(1) [of c] by (simp add: same_slot_def)
  with await_idr_effect [OF 2(3)] respond_slot [OF 2(2)] 2(1) show ?thesis
    by (auto simp: same_slot_def same_server_def)
qed

lemma pause_effect:
  "handle_pause_request env srv c = (r, srv1, c1) \<Longrightarrow>
     srv1 = srv \<and> same_slot c c1 \<and> client_state c1 = session_step (client_state c) RTSP_METHOD_PAUSE \<and>
     (r = 0 \<or> r = -1)"
  unfolding handle_pause_request_def
  by (cases "client_state c") (auto dest!: respond_slot simp: same_slot_def split: if_splits)

lemma cleanup_slot:
  "\<not> client_active (cleanup_client c)" "socket_fd (cleanup_client c) < 0 \<or> socket_fd c < 0"
  "client_state (cleanup_client c) = RTSP_CLIENT_STATE_INIT" "session_id (cleanup_client c) = []"
  "socket_fd (cleanup_client c) < 0"
  by (simp_all add: cleanup_client_def rtsp_client_tls_cleanup_def Let_def)

lemma teardown_effect:
  "handle_teardown_request env srv c = (r, srv1, c1) \<Longrightarrow>
     srv1 = srv\<lparr>client_count := client_count srv - 1\<rparr> \<and> \<not> client_active c1 \<and> socket_fd c1 < 0 \<and>
     client_state c1 = RTSP_CLIENT_STATE_INIT \<and> session_id c1 = [] \<and> (r = 0 \<or> r = -1)"
  unfolding handle_teardown_request_def
  by (auto dest!: respond_slot simp: cleanup_slot split: prod.splits)

lemma session_step_others:
  "m \<notin> {RTSP_METHOD_SETUP, RTSP_METHOD_PLAY, RTSP_METHOD_PAUSE, RTSP_METHOD_TEARDOWN} \<Longrightarrow> session_step s m = s"
  by (cases m; cases s) auto

text \<open>
  The effect of a request on server and slot: \<open>torn\<close> says whether it was a TEARDOWN that was carried
  out.
\<close>

definition request_effect ::
  "bool \<Rightarrow> c_int \<Rightarrow> rtsp_server \<Rightarrow> rtsp_client \<Rightarrow> rtsp_server \<Rightarrow> rtsp_client \<Rightarrow> bool" where
  "request_effect torn r srv c srv1 c1 \<longleftrightarrow>
     same_server srv srv1 \<and> (r = 0 \<or> r = -1) \<and>
     (if torn then client_count srv1 = client_count srv - 1 \<and> \<not> client_active c1 \<and> socket_fd c1 < 0 \<and>
        client_state c1 = RTSP_CLIENT_STATE_INIT
      else client_count srv1 = client_count srv \<and> same_slot c c1)"

lemma request_effect_respond:
  "respond env status phrase headers body srv c = (r, srv1, c1) \<Longrightarrow>
     request_effect False r srv c srv1 c1 \<and> client_state c1 = client_state c"
  using respond_slot by (fastforce simp: request_effect_def)

lemma dispatch_effect:
  assumes "dispatch_request env srv c m url request = (r, srv1, c1)"
  shows "request_effect (m = RTSP_METHOD_TEARDOWN) r srv c srv1 c1"
    and "client_state c1 = session_step (client_state c) m \<or>
      m = RTSP_METHOD_SETUP \<and> client_state c1 = client_state c"
proof -
  have "request_effect (m = RTSP_METHOD_TEARDOWN) r srv c srv1 c1 \<and>
    (client_state c1 = session_step (client_state c) m \<or> m = RTSP_METHOD_SETUP \<and> client_state c1 = client_state c)"
  proof (cases m)
    case RTSP_METHOD_OPTIONS
    with assms options_effect [of env srv c] show ?thesis
      by (auto simp: dispatch_request_def request_effect_def session_step_others)
  next
    case RTSP_METHOD_DESCRIBE
    with assms describe_effect [of env srv c url] show ?thesis
      by (auto simp: dispatch_request_def request_effect_def session_step_others)
  next
    case RTSP_METHOD_SETUP
    with assms setup_effect [of env srv c url "transport_header request"] show ?thesis
      by (auto simp: dispatch_request_def request_effect_def)
  next
    case RTSP_METHOD_PLAY
    with assms play_effect [of env srv c] show ?thesis by (auto simp: dispatch_request_def request_effect_def)
  next
    case RTSP_METHOD_PAUSE
    with assms pause_effect [of env srv c] show ?thesis by (auto simp: dispatch_request_def request_effect_def)
  next
    case RTSP_METHOD_TEARDOWN
    with assms teardown_effect [of env srv c] show ?thesis
      by (auto simp: dispatch_request_def request_effect_def same_server_def)
  qed (use assms in \<open>auto simp: dispatch_request_def session_step_others dest!: request_effect_respond\<close>)
  then show "request_effect (m = RTSP_METHOD_TEARDOWN) r srv c srv1 c1"
    and "client_state c1 = session_step (client_state c) m \<or>
      m = RTSP_METHOD_SETUP \<and> client_state c1 = client_state c" by blast+
qed

text \<open>
  Whether a request is carried out: the peer is known and authentication succeeds, or it is a
  TEARDOWN of a peer the system does not name.
\<close>

definition authenticated :: "rtsp_env \<Rightarrow> rtsp_server \<Rightarrow> rtsp_client \<Rightarrow> string \<Rightarrow> bool" where
  "authenticated env srv c request \<longleftrightarrow>
     (case auth_get_client_info (peer env) (socket_fd c) of
        None \<Rightarrow> False
      | Some info \<Rightarrow>
          auth_check_rtsp_request (Some request) (Some (server_auth (server_config srv))) (Some info) =
            Some AUTH_RESULT_SUCCESS)"

definition granted :: "rtsp_env \<Rightarrow> rtsp_server \<Rightarrow> rtsp_client \<Rightarrow> rtsp_method \<Rightarrow> string \<Rightarrow> bool" where
  "granted env srv c m request \<longleftrightarrow>
     (case auth_get_client_info (peer env) (socket_fd c) of
        None \<Rightarrow> m = RTSP_METHOD_TEARDOWN
      | Some info \<Rightarrow>
          auth_check_rtsp_request (Some request) (Some (server_auth (server_config srv))) (Some info) =
            Some AUTH_RESULT_SUCCESS)"

lemma granted_authenticated:
  "granted env srv c m request \<longleftrightarrow>
     authenticated env srv c request \<or> m = RTSP_METHOD_TEARDOWN \<and> auth_get_client_info (peer env) (socket_fd c) = None"
  by (auto simp: granted_def authenticated_def split: option.splits)

lemma dotted_known: "dotted ip \<noteq> ''unknown''"
proof
  assume "dotted ip = ''unknown''"
  moreover obtain d ds where "decimal (unat (drop_bit 24 ip)) = d # ds" "isdigit d"
    using decimal_digits(1,3) [of "unat (drop_bit 24 ip)"]
    by (cases "decimal (unat (drop_bit 24 ip))") auto
  ultimately show False by (simp add: dotted_def isdigit_def)
qed

lemma authenticate_cases:
  assumes "authenticate env srv c m url request = Some (r, srv1, c1)"
  shows "granted env srv c m request \<Longrightarrow> dispatch_request env srv c m url request = (r, srv1, c1)"
    and "\<not> granted env srv c m request \<Longrightarrow>
      (r = -1 \<and> srv1 = srv \<and> c1 = c) \<or>
      respond env 401 ''Unauthorized'' unauthorized_header None srv c = (r, srv1, c1) \<or>
      respond env 500 ''Internal Server Error'' [] None srv c = (r, srv1, c1)"
  using assms
  by (auto simp: authenticate_def granted_def unknown_client_def auth_get_client_info_def dotted_known Let_def
      split: option.splits if_splits auth_result.splits)

text \<open>What the server takes for the request.\<close>

definition request_text :: "rtsp_client \<Rightarrow> bytes \<Rightarrow> string" where
  "request_text c d = takeWhile (\<lambda>x. x \<noteq> CHR 0x00) (find_teardown c (map byte_char d))"

lemma connection_cases:
  assumes "handle_client_connection env srv c = Some (r, srv1, c1)"
  shows "(\<exists>n t. srv1 = srv\<lparr>readings := n\<rparr> \<and> c1 = c\<lparr>last_activity_us := t\<rparr> \<and> (r = 0 \<or> r = -1)) \<or>
    (\<exists>d m url n k t. rtsp_client_tls_read env c 4095 = Some d \<and>
       parse_rtsp_request (request_text c d) = Some (m, url, k) \<and>
       authenticate env (srv\<lparr>readings := n\<rparr>) (c\<lparr>last_activity_us := t, client_cseq := word_of_int k\<rparr>) m url
         (request_text c d) = Some (r, srv1, c1))"
proof -
  have same: ?thesis if "srv1 = srv" "c1 = c" "r = 0 \<or> r = -1"
    using that by (intro disjI1 exI [of _ "readings srv"] exI [of _ "last_activity_us c"]) simp
  show ?thesis
  proof (cases "rtsp_client_tls_read env c 4095")
    case None
    with assms show ?thesis by (intro same) (simp_all add: handle_client_connection_def)
  next
    case (Some d)
    show ?thesis
    proof (cases "d = [] \<or> hd (find_teardown c (map byte_char d)) = CHR ''$''")
      case True
      with assms Some show ?thesis by (intro same) (auto simp: handle_client_connection_def Let_def split: if_splits)
    next
      case False
      with assms Some show ?thesis
        by (cases "parse_rtsp_request (request_text c d)")
          (auto simp: handle_client_connection_def read_clock_def request_text_def Let_def split: prod.splits)
    qed
  qed
qed

lemma request_effect_start:
  assumes "request_effect torn r (srv\<lparr>readings := n\<rparr>) (c\<lparr>last_activity_us := t, client_cseq := k\<rparr>) srv1 c1"
  shows "request_effect torn r srv c srv1 c1"
  using assms by (auto simp: request_effect_def same_server_def same_slot_def split: if_splits)

lemma granted_start [simp]:
  "granted env (srv\<lparr>readings := n\<rparr>) (c\<lparr>last_activity_us := t, client_cseq := k\<rparr>) m request =
     granted env srv c m request"
  by (simp add: granted_def split: option.split)

text \<open>One request: refused or not a request, or granted and carried out.\<close>

lemma connection_effect:
  assumes "handle_client_connection env srv c = Some (r, srv1, c1)"
  shows "(request_effect False r srv c srv1 c1 \<and> client_state c1 = client_state c \<and> idr_requests srv1 = idr_requests srv) \<or>
    (\<exists>d m url k n t. rtsp_client_tls_read env c 4095 = Some d \<and>
       parse_rtsp_request (request_text c d) = Some (m, url, k) \<and> granted env srv c m (request_text c d) \<and>
       dispatch_request env (srv\<lparr>readings := n\<rparr>) (c\<lparr>last_activity_us := t, client_cseq := word_of_int k\<rparr>) m url
         (request_text c d) = (r, srv1, c1) \<and>
       request_effect (m = RTSP_METHOD_TEARDOWN) r srv c srv1 c1 \<and>
       (client_state c1 = session_step (client_state c) m \<or> m = RTSP_METHOD_SETUP \<and> client_state c1 = client_state c))"
  using connection_cases [OF assms]
proof (elim disjE exE conjE)
  fix n t assume "srv1 = srv\<lparr>readings := n\<rparr>" "c1 = c\<lparr>last_activity_us := t\<rparr>" "r = 0"
  then show ?thesis by (simp add: request_effect_def same_server_def same_slot_def)
next
  fix n t assume "srv1 = srv\<lparr>readings := n\<rparr>" "c1 = c\<lparr>last_activity_us := t\<rparr>" "r = -1"
  then show ?thesis by (simp add: request_effect_def same_server_def same_slot_def)
next
  fix d m url n k t
  let ?srv = "srv\<lparr>readings := n\<rparr>" and ?c = "c\<lparr>last_activity_us := t, client_cseq := word_of_int k\<rparr>"
  assume d: "rtsp_client_tls_read env c 4095 = Some d"
    and p: "parse_rtsp_request (request_text c d) = Some (m, url, k)"
    and a: "authenticate env ?srv ?c m url (request_text c d) = Some (r, srv1, c1)"
  show ?thesis
  proof (cases "granted env srv c m (request_text c d)")
    case True
    with authenticate_cases(1) [OF a]
    have disp: "dispatch_request env ?srv ?c m url (request_text c d) = (r, srv1, c1)" by simp
    from dispatch_effect [OF this] have "request_effect (m = RTSP_METHOD_TEARDOWN) r srv c srv1 c1"
      "client_state c1 = session_step (client_state c) m \<or> m = RTSP_METHOD_SETUP \<and> client_state c1 = client_state c"
      by (auto dest: request_effect_start)
    with d p True disp show ?thesis by blast
  next
    case False
    with authenticate_cases(2) [OF a]
    have "(r = -1 \<and> srv1 = ?srv \<and> c1 = ?c) \<or> respond env 401 ''Unauthorized'' unauthorized_header None ?srv ?c = (r, srv1, c1) \<or>
      respond env 500 ''Internal Server Error'' [] None ?srv ?c = (r, srv1, c1)" by simp
    then have "srv1 = ?srv \<and> same_slot ?c c1 \<and> client_state c1 = client_state ?c \<and> (r = 0 \<or> r = -1)"
      by (elim disjE) (use respond_slot in \<open>auto\<close>)
    then show ?thesis by (auto simp: request_effect_def same_server_def same_slot_def)
  qed
qed

end
