(* ===== verification/RtspSessions.thy ===== *)
theory RtspSessions
  imports RtspServer
begin

text \<open>
  What holds of the RTSP server over any sequence of rounds of the server thread and frames of the
  sending thread: invariants of the slots, the count of clients, who gets media; and what single
  requests do.
\<close>

section \<open>Runs\<close>

text \<open>
  The two threads take turns, a round of the server thread or a frame at a time; the frame's
  parameters are those of \<open>rtsp_server_send_frame\<close>.
\<close>

datatype rtsp_event =
  Round rtsp_env | Frame net u64 u64 "nat \<Rightarrow> u64" nat "int \<Rightarrow> bool" int bytes

fun rtsp_step :: "rtsp_server \<Rightarrow> rtsp_event \<Rightarrow> rtsp_server option" where
  "rtsp_step srv (Round env) = server_round env srv"
| "rtsp_step srv (Frame net now cur nows rn hevc ch d) =
     map_option snd (rtsp_server_send_frame net now cur nows rn hevc srv ch d)"

section \<open>Steps of a round\<close>

lemma find_free_slot:
  "find_free_client_slot srv = Some i \<Longrightarrow> i < MAX_RTSP_CLIENTS \<and> \<not> client_active (clients srv ! i)"
  by (auto simp: find_free_client_slot_def find_Some_iff)

lemma set_client_simps [simp]:
  "clients (set_client i c srv) = (clients srv)[i := c]" "server_config (set_client i c srv) = server_config srv"
  "client_count (set_client i c srv) = client_count srv" "idr_requests (set_client i c srv) = idr_requests srv"
  by (simp_all add: set_client_def)

lemma init_rtp_simps [simp]:
  "clients (init_rtp env i srv) =
     (clients srv)[i := (clients srv ! i)\<lparr>rtp_seq := word_of_nat (rnd env (rands srv)),
        rtp_timestamp := word_of_nat (rnd env (rands srv + 1)), rtp_ssrc := word_of_nat (rnd env (rands srv + 2))\<rparr>]"
  "server_config (init_rtp env i srv) = server_config srv" "client_count (init_rtp env i srv) = client_count srv + 1"
  "idr_requests (init_rtp env i srv) = idr_requests srv"
  by (simp_all add: init_rtp_def take_rands_def)

lemma close_accepted_simps [simp]:
  "clients (close_accepted fd srv) = clients srv" "server_config (close_accepted fd srv) = server_config srv"
  "client_count (close_accepted fd srv) = client_count srv" "idr_requests (close_accepted fd srv) = idr_requests srv"
  by (simp_all add: close_accepted_def)

text \<open>A slot taken by a new connection, and one that is ready for requests.\<close>

definition taken_slot :: "rtsp_client \<Rightarrow> rtsp_client \<Rightarrow> bool" where
  "taken_slot c c1 \<longleftrightarrow> (\<exists>fd addr now rs. c1 = init_client fd addr now (generate_session_id rs) c)"

definition ready_slot :: "rtsp_client \<Rightarrow> rtsp_client \<Rightarrow> bool" where
  "ready_slot c c1 \<longleftrightarrow>
     (\<exists>c2 x y z. taken_slot c c2 \<and>
       (c1 = c2\<lparr>rtp_seq := x, rtp_timestamp := y, rtp_ssrc := z\<rparr> \<or>
        c1 = c2\<lparr>ssl_context := True, use_tls := True, rtp_seq := x, rtp_timestamp := y, rtp_ssrc := z\<rparr>))"

lemma slot_active: "taken_slot c c1 \<Longrightarrow> client_active c1" "ready_slot c c1 \<Longrightarrow> client_active c1"
  by (auto simp: taken_slot_def ready_slot_def init_client_def)

lemma taken_init [simp]: "taken_slot c (init_client fd addr now (generate_session_id rs) c)"
  by (auto simp: taken_slot_def)

lemma ready_init:
  "taken_slot c c2 \<Longrightarrow> ready_slot c (c2\<lparr>rtp_seq := x, rtp_timestamp := y, rtp_ssrc := z\<rparr>)"
  "taken_slot c c2 \<Longrightarrow>
     ready_slot c (c2\<lparr>ssl_context := True, use_tls := True, rtp_seq := x, rtp_timestamp := y, rtp_ssrc := z\<rparr>)"
  by (auto simp: ready_slot_def)

text \<open>A connection: refused, or put into a free slot; after a failed handshake it stays there.\<close>

lemma accept_config [simp]:
  "server_config (accept_connection env tls a srv) = server_config srv"
  "idr_requests (accept_connection env tls a srv) = idr_requests srv"
  "tls_context (accept_connection env tls a srv) = tls_context srv"
  "streams (accept_connection env tls a srv) = streams srv"
  by (simp_all add: accept_connection_def read_clock_def take_rands_def Let_def set_client_def init_rtp_def
      close_accepted_def split: accepted.split option.split)

lemma accept_cases:
  assumes "length (clients srv) = MAX_RTSP_CLIENTS" and "srv1 = accept_connection env tls a srv"
  obtains "clients srv1 = clients srv" and "client_count srv1 = client_count srv"
    | i c where "i < MAX_RTSP_CLIENTS" and "\<not> client_active (clients srv ! i)" and "taken_slot (clients srv ! i) c"
      and "tls" and "\<not> (tls_context srv \<and> tls_handshake env)"
      and "clients srv1 = (clients srv)[i := c]" and "client_count srv1 = client_count srv"
    | i c where "i < MAX_RTSP_CLIENTS" and "\<not> client_active (clients srv ! i)" and "ready_slot (clients srv ! i) c"
      and "clients srv1 = (clients srv)[i := c]" and "client_count srv1 = client_count srv + 1"
      and "client_count srv < max_clients (server_config srv)"
proof (cases a)
  case (Accepted fd addr)
  show ?thesis
  proof (cases "max_clients (server_config srv) \<le> client_count srv \<or> find_free_client_slot srv = None")
    case True
    with Accepted assms(2) that(1) show ?thesis by (auto simp: accept_connection_def split: option.splits)
  next
    case False
    then obtain i where i: "find_free_client_slot srv = Some i" by blast
    let ?c = "init_client fd addr (ucast (monotonic env (readings srv)))
      (generate_session_id (\<lambda>j. rnd env (rands srv + j))) (clients srv ! i)"
    have len: "i < length (clients srv)" using find_free_slot [OF i] assms(1) by simp
    show ?thesis
    proof (cases "tls \<and> \<not> (tls_context srv \<and> tls_handshake env)")
      case True
      with Accepted False i assms(2) have "clients srv1 = (clients srv)[i := ?c] \<and> client_count srv1 = client_count srv"
        by (auto simp: accept_connection_def read_clock_def take_rands_def rtsp_client_tls_accept_def Let_def set_client_def
            close_accepted_def)
      with True find_free_slot [OF i] show ?thesis by (intro that(2) [of i ?c]) auto
    next
      case hs: False
      let ?r = "\<lambda>c. c\<lparr>rtp_seq := word_of_nat (rnd env (rands srv + 31)), rtp_timestamp := word_of_nat (rnd env (rands srv + 31 + 1)),
        rtp_ssrc := word_of_nat (rnd env (rands srv + 31 + 2))\<rparr>"
      let ?c1 = "if tls then ?r (?c\<lparr>ssl_context := True, use_tls := True\<rparr>) else ?r ?c"
      have "clients srv1 = (clients srv)[i := ?c1] \<and> client_count srv1 = client_count srv + 1"
        using Accepted False i assms(2) hs len
        by (cases tls) (simp_all add: accept_connection_def read_clock_def take_rands_def rtsp_client_tls_accept_def
            Let_def set_client_def)
      moreover have "ready_slot (clients srv ! i) ?c1" using ready_init [OF taken_init] by (cases tls) simp_all
      ultimately show ?thesis
        using find_free_slot [OF i] False by (intro that(3) [of i ?c1]) auto
    qed
  qed
qed (use assms(2) that(1) in \<open>simp add: accept_connection_def\<close>)

text \<open>A client that is served.\<close>

lemma serve_cases:
  assumes "serve_client env watched srv i = Some srv1"
  obtains "srv1 = srv"
    | r s1 c1 where "client_active (clients srv ! i)"
      and "handle_client_connection env srv (hold_media (clients srv ! i)) = Some (r, s1, c1)"
      and "srv1 = finish_request i r s1
        (resume_media (client_state (clients srv ! i) = RTSP_CLIENT_STATE_PLAYING) r c1)"
proof (cases "srv1 = srv")
  case False
  with assms have act: "client_active (clients srv ! i)"
    and "map_option (\<lambda>(r, s1, c1). finish_request i r s1
        (resume_media (client_state (clients srv ! i) = RTSP_CLIENT_STATE_PLAYING) r c1))
      (handle_client_connection env srv (hold_media (clients srv ! i))) = Some srv1"
    by (simp_all add: serve_client_def Let_def split: if_splits)
  then obtain r s1 c1 where "handle_client_connection env srv (hold_media (clients srv ! i)) = Some (r, s1, c1)"
    "srv1 = finish_request i r s1 (resume_media (client_state (clients srv ! i) = RTSP_CLIENT_STATE_PLAYING) r c1)"
    by auto
  with act that(2) show ?thesis by blast
qed (rule that(1))

lemma finish_simps [simp]:
  "server_config (finish_request i r srv c) = server_config srv" "tls_context (finish_request i r srv c) = tls_context srv"
  "idr_requests (finish_request i r srv c) = idr_requests srv" "streams (finish_request i r srv c) = streams srv"
  "clients (finish_request i r srv c) =
     (clients srv)[i := if r < 0 then cleanup_client (c\<lparr>client_active := False\<rparr>) else c]"
  "client_count (finish_request i r srv c) = client_count srv - (if r < 0 then 1 else 0)"
  by (simp_all add: finish_request_def set_client_def)

lemma connection_same:
  "handle_client_connection env srv c = Some (r, srv1, c1) \<Longrightarrow> same_server srv srv1"
  using connection_effect by (fastforce simp: request_effect_def)

section \<open>Invariants of the slots\<close>

text \<open>
  \<open>P\<close> is kept by everything the server thread does to a slot; \<open>ok\<close> restricts what a round meets,
  depending on configuration and streams.
\<close>

locale slot_invariant =
  fixes P :: "rtsp_client \<Rightarrow> bool"
    and ok :: "rtsp_env \<Rightarrow> rtsp_config \<Rightarrow> video_stream list \<Rightarrow> bool"
  assumes P_init: "P c \<Longrightarrow> P (init_client fd addr now (generate_session_id rs) c)"
    and P_tls: "P c \<Longrightarrow> P (c\<lparr>ssl_context := True, use_tls := True\<rparr>)"
    and P_rtp: "P c \<Longrightarrow> P (c\<lparr>rtp_seq := a, rtp_timestamp := b, rtp_ssrc := s\<rparr>)"
    and P_cleanup: "P c \<Longrightarrow> P (cleanup_client c)"
    and P_inactive: "P c \<Longrightarrow> P (c\<lparr>client_active := False\<rparr>)"
    and P_request: "ok env (server_config srv) (streams srv) \<Longrightarrow> P c \<Longrightarrow>
      handle_client_connection env srv (hold_media c) = Some (r, srv1, c1) \<Longrightarrow>
      P (resume_media (client_state c = RTSP_CLIENT_STATE_PLAYING) r c1)"
begin

definition slots_ok :: "rtsp_server \<Rightarrow> bool" where
  "slots_ok srv \<longleftrightarrow> length (clients srv) = MAX_RTSP_CLIENTS \<and> (\<forall>i < MAX_RTSP_CLIENTS. P (clients srv ! i))"

lemma slots_update:
  "slots_ok srv \<Longrightarrow> P c \<Longrightarrow> clients srv1 = (clients srv)[i := c] \<Longrightarrow> slots_ok srv1"
  unfolding slots_ok_def by (metis length_list_update nth_list_update_eq nth_list_update_neq)

lemma slots_map:
  "slots_ok srv \<Longrightarrow> (\<And>c. P c \<Longrightarrow> P (f c)) \<Longrightarrow> clients srv1 = map f (clients srv) \<Longrightarrow> slots_ok srv1"
  by (simp add: slots_ok_def)

lemma P_taken: "taken_slot c c1 \<Longrightarrow> P c \<Longrightarrow> P c1"
  by (auto simp: taken_slot_def P_init)

lemma P_ready: "ready_slot c c1 \<Longrightarrow> P c \<Longrightarrow> P c1"
  using P_rtp [OF P_tls] by (auto simp: ready_slot_def P_rtp dest: P_taken)

lemma slots_accept:
  assumes "slots_ok srv"
  shows "slots_ok (accept_connection env tls a srv)"
proof -
  have len: "length (clients srv) = MAX_RTSP_CLIENTS" using assms by (simp add: slots_ok_def)
  from accept_cases [OF len refl, of env tls a] show ?thesis
  proof cases
    case 1
    with assms show ?thesis by (simp add: slots_ok_def)
  next
    case (2 i c)
    with assms P_taken [OF 2(3)] show ?thesis by (intro slots_update [OF assms _ 2(6)]) (simp add: slots_ok_def)
  next
    case (3 i c)
    with assms P_ready [OF 3(3)] show ?thesis by (intro slots_update [OF assms _ 3(4)]) (simp add: slots_ok_def)
  qed
qed

lemma slots_serve:
  assumes "slots_ok srv" and "ok env (server_config srv) (streams srv)" and "i < MAX_RTSP_CLIENTS"
    and "serve_client env watched srv i = Some srv1"
  shows "slots_ok srv1 \<and> server_config srv1 = server_config srv \<and> streams srv1 = streams srv"
  using assms(4)
proof (cases rule: serve_cases)
  case 1
  with assms(1) show ?thesis by simp
next
  case (2 r s1 c1)
  have P: "P (clients srv ! i)" using assms(1,3) by (simp add: slots_ok_def)
  note s = connection_same [OF 2(2)]
  then have "slots_ok srv1"
    using P_request [OF assms(2) P 2(2)] 2(3)
    by (intro slots_update [OF assms(1)]) (auto simp: same_server_def intro!: P_cleanup P_inactive)
  with s 2(3) show ?thesis by (simp add: same_server_def)
qed

lemma slots_serve_all:
  "slots_ok srv \<Longrightarrow> ok env (server_config srv) (streams srv) \<Longrightarrow> list_all (\<lambda>i. i < MAX_RTSP_CLIENTS) is \<Longrightarrow>
     serve_clients env watched is srv = Some srv1 \<Longrightarrow> slots_ok srv1 \<and> server_config srv1 = server_config srv \<and>
     streams srv1 = streams srv"
proof (induction "is" arbitrary: srv)
  case (Cons i "is")
  from Cons.prems(4) obtain s where s: "serve_client env watched srv i = Some s"
    "serve_clients env watched is s = Some srv1" by (auto split: option.splits)
  with slots_serve [OF Cons.prems(1,2) _ s(1)] Cons show ?case by auto
qed simp

lemma slots_round:
  assumes "slots_ok srv" and "ok env (server_config srv) (streams srv)" and "server_round env srv = Some srv1"
  shows "slots_ok srv1 \<and> server_config srv1 = server_config srv \<and> streams srv1 = streams srv"
proof (cases "should_stop srv")
  case False
  show ?thesis
  proof (cases "selected env")
    case (SelectError b)
    have "P (drop_invalid env c)" if "P c" for c using that P_inactive by (simp add: drop_invalid_def)
    then have "slots_ok (srv\<lparr>clients := map (drop_invalid env) (clients srv)\<rparr>)"
      by (intro slots_map [OF assms(1), of "drop_invalid env"]) simp_all
    with assms SelectError False show ?thesis by (auto simp: server_round_def)
  next
    case SelectTimeout
    have "slots_ok (drop_inactive now (srv\<lparr>readings := n\<rparr>))" for now n
      using P_cleanup
      by (intro slots_map [OF assms(1), of "\<lambda>c. if timed_out (srv\<lparr>readings := n\<rparr>) now c then cleanup_client c else c"])
        (simp_all add: drop_inactive_def)
    with assms SelectTimeout False show ?thesis
      by (auto simp: server_round_def read_clock_def drop_inactive_def)
  next
    case SelectReady
    let ?a = "if 0 \<le> listen_socket srv \<and> readable env (listen_socket srv)
      then accept_connection env False (accept_plain env) srv else srv"
    let ?b = "if tls_enabled (server_config ?a) \<and> 0 \<le> tls_listen_socket ?a \<and> readable env (tls_listen_socket ?a)
      then accept_connection env True (accept_tls env) ?a else ?a"
    have a: "slots_ok ?a" "server_config ?a = server_config srv" "streams ?a = streams srv" using assms(1) slots_accept by simp_all
    then have b: "slots_ok ?b" "server_config ?b = server_config srv" "streams ?b = streams srv" using slots_accept [OF a(1)] by simp_all
    have "serve_clients env (watched_sockets srv) [0..<MAX_RTSP_CLIENTS] ?b = Some srv1"
      using assms(3) SelectReady False unfolding server_round_def Let_def by simp
    from slots_serve_all [OF b(1) _ _ this] b(2,3) assms(2) show ?thesis by (simp add: list_all_iff)
  qed
qed (use assms in \<open>simp add: server_round_def\<close>)

end

section \<open>Frames\<close>

lemma offer_frame_slot:
  assumes "offer_frame net cur now rn idr par ch d k c = Some (k1, c1)"
  shows "client_active c1 = client_active c" "client_state c1 = client_state c" "session_id c1 = session_id c"
    "rtp_port c1 = rtp_port c" "rtcp_port c1 = rtcp_port c"
    "client_state c \<noteq> RTSP_CLIENT_STATE_PLAYING \<Longrightarrow> c1 = c"
proof -
  have sent: "client_active c2 = client_active c \<and> client_state c2 = client_state c \<and> session_id c2 = session_id c \<and>
      rtp_port c2 = rtp_port c \<and> rtcp_port c2 = rtcp_port c"
    if "send_frame_to_client net now rn k (c\<lparr>needs_idr := b\<rparr>) d = Some (r, k2, c2)" for r k2 c2 b
    using send_frame_only_sent [OF that] by (cases c; cases c2) (simp add: only_sent_def)
  have "c = c\<lparr>needs_idr := needs_idr c\<rparr>" by simp
  with sent [of "needs_idr c"] sent [of False] assms
  show "client_active c1 = client_active c" "client_state c1 = client_state c" "session_id c1 = session_id c"
    "rtp_port c1 = rtp_port c" "rtcp_port c1 = rtcp_port c"
    by (auto simp: offer_frame_def split: if_splits)
  show "c1 = c" if "client_state c \<noteq> RTSP_CLIENT_STATE_PLAYING"
    using assms that by (simp add: offer_frame_def)
qed

lemma frame_slots:
  assumes "rtsp_server_send_frame net now cur nows rn hevc srv ch d = Some (r, srv1)"
  shows "length (clients srv1) = length (clients srv)"
    and "i < length (clients srv) \<Longrightarrow>
      clients srv1 ! i = clients srv ! i \<or>
      (\<exists>t k k1. offer_frame net (ucast cur) t rn (any_nal (is_idr_nal (hevc ch)) d (server_nals d 0 []))
         (any_nal (is_parameter_nal (hevc ch)) d (server_nals d 0 [])) ch d k (clients srv ! i) = Some (k1, clients srv1 ! i))"
    and "server_config srv1 = server_config srv \<and> streams srv1 = streams srv \<and>
      client_count srv1 = client_count srv \<and> tls_context srv1 = tls_context srv"
proof -
  have "length (clients srv1) = length (clients srv) \<and>
    (i < length (clients srv) \<longrightarrow> clients srv1 ! i = clients srv ! i \<or>
      (\<exists>t k k1. offer_frame net (ucast cur) t rn (any_nal (is_idr_nal (hevc ch)) d (server_nals d 0 []))
         (any_nal (is_parameter_nal (hevc ch)) d (server_nals d 0 [])) ch d k (clients srv ! i) = Some (k1, clients srv1 ! i)))"
    for i
  proof (cases "srv1 = srv")
    case False
    with assms obtain k k' cs where
      "offer_all net (ucast cur) nows rn (any_nal (is_idr_nal (hevc ch)) d (server_nals d 0 []))
        (any_nal (is_parameter_nal (hevc ch)) d (server_nals d 0 [])) ch d 0 k (clients srv) = Some (k', cs)"
      and "clients srv1 = cs"
      by (auto simp: rtsp_server_send_frame_def Let_def split: if_splits prod.splits)
    from offer_all_each [OF this(1), of i] this(2) show ?thesis by blast
  qed simp
  then show "length (clients srv1) = length (clients srv)"
    and "i < length (clients srv) \<Longrightarrow>
      clients srv1 ! i = clients srv ! i \<or>
      (\<exists>t k k1. offer_frame net (ucast cur) t rn (any_nal (is_idr_nal (hevc ch)) d (server_nals d 0 []))
         (any_nal (is_parameter_nal (hevc ch)) d (server_nals d 0 [])) ch d k (clients srv ! i) = Some (k1, clients srv1 ! i))"
    by blast+
  show "server_config srv1 = server_config srv \<and> streams srv1 = streams srv \<and>
      client_count srv1 = client_count srv \<and> tls_context srv1 = tls_context srv"
    using assms by (auto simp: rtsp_server_send_frame_def Let_def split: if_splits prod.splits)
qed

section \<open>Who plays\<close>

text \<open>A server as it is started: whatever its streams and sockets, no client yet.\<close>

definition started :: "rtsp_config \<Rightarrow> rtsp_server \<Rightarrow> bool" where
  "started cfg srv \<longleftrightarrow>
     server_config srv = cfg \<and> clients srv = replicate MAX_RTSP_CLIENTS empty_client \<and> client_count srv = 0"

lemma create_started: "started cfg (rtsp_server_create cfg ks)"
  by (simp add: started_def rtsp_server_create_def)

text \<open>Nothing a client sends in a round gets through authentication.\<close>

definition denied :: "rtsp_env \<Rightarrow> rtsp_config \<Rightarrow> bool" where
  "denied env cfg \<longleftrightarrow>
     (\<forall>c d info. rtsp_client_tls_read env c 4095 = Some d \<longrightarrow>
        auth_get_client_info (peer env) (socket_fd c) = Some info \<longrightarrow>
        auth_check_rtsp_request (Some (request_text c d)) (Some (server_auth cfg)) (Some info) \<noteq>
          Some AUTH_RESULT_SUCCESS)"

lemma hold_media_simps [simp]:
  "client_active (hold_media c) = client_active c" "socket_fd (hold_media c) = socket_fd c"
  "session_id (hold_media c) = session_id c" "rtp_port (hold_media c) = rtp_port c" "rtcp_port (hold_media c) = rtcp_port c"
  "client_state c \<noteq> RTSP_CLIENT_STATE_PLAYING \<Longrightarrow> hold_media c = c"
  by (simp_all add: hold_media_def)

lemma resume_media_simps [simp]:
  "client_active (resume_media w r c) = client_active c" "session_id (resume_media w r c) = session_id c"
  "rtp_port (resume_media w r c) = rtp_port c" "rtcp_port (resume_media w r c) = rtcp_port c"
  "\<not> w \<Longrightarrow> resume_media w r c = c"
  by (simp_all add: resume_media_def)

interpretation no_session: slot_invariant "\<lambda>c. client_state c = RTSP_CLIENT_STATE_INIT" "\<lambda>env cfg ss. denied env cfg"
proof
  fix env srv c r srv1 c1
  assume d: "denied env (server_config srv)" and c: "client_state c = RTSP_CLIENT_STATE_INIT"
    and h: "handle_client_connection env srv (hold_media c) = Some (r, srv1, c1)"
  have "client_state c1 = RTSP_CLIENT_STATE_INIT"
    using connection_effect [OF h] d c
    by (auto simp: denied_def granted_def split: option.splits)
  with c show "client_state (resume_media (client_state c = RTSP_CLIENT_STATE_PLAYING) r c1) = RTSP_CLIENT_STATE_INIT"
    by simp
qed (simp_all add: init_client_def cleanup_slot)

definition denied_event :: "rtsp_config \<Rightarrow> rtsp_event \<Rightarrow> bool" where
  "denied_event cfg e \<longleftrightarrow> (case e of Round env \<Rightarrow> denied env cfg | Frame net now cur nows rn hevc ch d \<Rightarrow> True)"

lemma idle_frame:
  fixes srv :: rtsp_server
  assumes "\<forall>i < length (clients srv). client_state (clients srv ! i) = RTSP_CLIENT_STATE_INIT"
    and "rtsp_server_send_frame net now cur nows rn hevc srv ch d = Some (r, srv1)"
  shows "clients srv1 = clients srv"
proof (rule nth_equalityI)
  show "length (clients srv1) = length (clients srv)" by (rule frame_slots(1) [OF assms(2)])
  fix i assume "i < length (clients srv1)"
  then have i: "i < length (clients srv)" using frame_slots(1) [OF assms(2)] by simp
  with assms(1) frame_slots(2) [OF assms(2) i] show "clients srv1 ! i = clients srv ! i"
    using offer_frame_slot(6) by fastforce
qed

interpretation silent: partial_machine rtsp_step "denied_event cfg"
  "\<lambda>srv. no_session.slots_ok srv \<and> server_config srv = cfg" for cfg
proof
  fix srv e srv1
  assume inv: "no_session.slots_ok srv \<and> server_config srv = cfg" and ok: "denied_event cfg e"
    and step: "rtsp_step srv e = Some srv1"
  show "no_session.slots_ok srv1 \<and> server_config srv1 = cfg"
  proof (cases e)
    case (Round env)
    with inv ok step no_session.slots_round [of srv env srv1] show ?thesis by (simp add: denied_event_def)
  next
    case (Frame net now cur nows rn hevc ch d)
    with step obtain r where f: "rtsp_server_send_frame net now cur nows rn hevc srv ch d = Some (r, srv1)" by auto
    from idle_frame [OF _ f] inv have "clients srv1 = clients srv" by (simp add: no_session.slots_ok_def)
    with inv frame_slots(3) [OF f] show ?thesis by (simp add: no_session.slots_ok_def)
  qed
qed

lemma no_session_start: "started cfg srv \<Longrightarrow> no_session.slots_ok srv \<and> server_config srv = cfg"
  by (simp add: started_def no_session.slots_ok_def empty_client_def)

text \<open>
  C1. No media without credentials: as long as no request gets through authentication, whatever else
  clients send, connect and time out, and whatever frames arrive, no client ever leaves the state
  INIT, and a frame changes nothing and goes to nobody.
\<close>

theorem no_media_without_credentials:
  assumes "started cfg srv" and "list_all (denied_event cfg) es" and "run_steps rtsp_step srv es = Some srv1"
  shows "(\<forall>c \<in> set (clients srv1). client_state c = RTSP_CLIENT_STATE_INIT) \<and>
    (\<forall>ch. rtsp_server_get_client_count srv1 ch = 0) \<and>
    (\<forall>net now cur nows rn hevc ch d r srv2.
       rtsp_server_send_frame net now cur nows rn hevc srv1 ch d = Some (r, srv2) \<longrightarrow> clients srv2 = clients srv1)"
proof -
  have inv: "no_session.slots_ok srv1"
    using silent.inv_run [OF no_session_start [OF assms(1)] assms(2,3)] by simp
  then have "\<forall>c \<in> set (clients srv1). client_state c = RTSP_CLIENT_STATE_INIT"
    by (auto simp: no_session.slots_ok_def in_set_conv_nth)
  moreover from this have "filter (wants_frames ch) (clients srv1) = []" for ch
    by (auto simp: filter_empty_conv wants_frames_def)
  moreover have "clients srv2 = clients srv1"
    if "rtsp_server_send_frame net now cur nows rn hevc srv1 ch d = Some (r, srv2)" for net now cur nows rn hevc ch d r srv2
    using idle_frame [OF _ that] inv by (simp add: no_session.slots_ok_def)
  ultimately show ?thesis by (simp add: rtsp_server_get_client_count_def)
qed

text \<open>A server with one stream that asks for credentials, and what it meets: a connection, a request.\<close>

definition sample_config :: rtsp_config where
  "sample_config = rtsp_server_set_default_config
     \<lparr>server_auth := \<lparr>auth_enabled = True, localhost_bypass = False, auth_username = ''admin'', auth_password = ''secret''\<rparr>\<rparr>"

definition sample_stream :: video_stream where
  "sample_stream =
     \<lparr>channel = 0, stream_codec = VIDEO_CODEC_H264, width = 1920, height = 1080, fps = 25, bitrate = 2000,
      stream_name = ''ch0'', stream_info = ''main''\<rparr>"

definition sample_server :: rtsp_server where
  "sample_server = (rtsp_server_create sample_config (replicate 4 fresh_clock))
     \<lparr>streams := [sample_stream], listen_socket := 3, media_running := True\<rparr>"

definition sample_env :: "string \<Rightarrow> rtsp_env" where
  "sample_env request =
     \<lparr>env_net = good_net, peer = (\<lambda>fd. Some 0xC0A80105), rnd = (\<lambda>i. i), monotonic = (\<lambda>i. 1000), wall = 1700000000,
      server_ip = ''192.168.1.4'', udp_socket = (\<lambda>fd. 9), tcp_recv = (\<lambda>fd. Some (map char_byte request)),
      tls_recv = (\<lambda>fd. SslFailed), selected = SelectReady, readable = (\<lambda>fd. fd = (if request = [] then 3 else 7)),
      fd_valid = (\<lambda>fd. True), accept_plain = Accepted 7 0xC0A80105, accept_tls = AcceptFailed, tls_handshake = True\<rparr>"

definition play_without_setup :: string where
  "play_without_setup = ''PLAY /ch0 RTSP/1.0'' @ CRLF @ CRLF"

definition connected_client :: rtsp_client where
  "connected_client = empty_client
     \<lparr>socket_fd := 7, client_active := True, peer_addr := 0xC0A80105, last_activity_us := 1000,
      session_id := ''0123456789ABCDEFGHIJKLMNOPQRSTU'', rtp_seq := 31, rtp_timestamp := 32, rtp_ssrc := 33\<rparr>"

definition connected_server :: rtsp_server where
  "connected_server = sample_server
     \<lparr>clients := connected_client # replicate 7 empty_client, client_count := 1, total_connections := 1,
      rands := 34, readings := 1\<rparr>"

lemma connect_round: "server_round (sample_env []) sample_server = Some connected_server"
  by code_simp

lemma request_round:
  "(case server_round (sample_env play_without_setup) connected_server of
      None \<Rightarrow> False | Some s \<Rightarrow> length (outbox (clients s ! 0)) = 1)"
  by code_simp

lemma sample_read:
  "rtsp_client_tls_read (sample_env req) c 4095 = Some d \<Longrightarrow> d = take 4095 (map char_byte req)"
  by (auto simp: rtsp_client_tls_read_def sample_env_def split: if_splits)

lemma sample_denied:
  assumes "length req \<le> 4095" and "strstr req ''TEARDOWN'' = None" and "strstr req ''Authorization:'' = None"
    and "strstr req ''authorization:'' = None" and "CHR 0x00 \<notin> set req"
  shows "denied (sample_env req) sample_config"
proof -
  have "takeWhile (\<lambda>x. x \<noteq> CHR 0x00) req = req" using assms(5) by (simp add: takeWhile_eq_all_conv) metis
  then have "request_text c (take 4095 (map char_byte req)) = req" for c
    using assms(1,2) by (simp add: request_text_def find_teardown_def)
  moreover have "extract_auth_header (Some req) = None" using assms(3,4) by (simp add: extract_auth_header_def)
  ultimately show ?thesis
    by (auto simp: denied_def auth_check_rtsp_request_def auth_check_http_request_def auth_is_required_def
        auth_validate_basic_def sample_config_def rtsp_server_set_default_config_def dest!: sample_read)
qed

theorem no_media_without_credentials_witness:
  "\<exists>srv1. run_steps rtsp_step sample_server [Round (sample_env []), Round (sample_env play_without_setup)] = Some srv1 \<and>
     length (outbox (clients srv1 ! 0)) = 1 \<and> rtsp_server_get_client_count srv1 0 = 0"
proof -
  obtain srv1 where "server_round (sample_env play_without_setup) connected_server = Some srv1"
    and out: "length (outbox (clients srv1 ! 0)) = 1"
    using request_round by (auto split: option.splits)
  with connect_round have run: "run_steps rtsp_step sample_server
      [Round (sample_env []), Round (sample_env play_without_setup)] = Some srv1" by simp
  have "started sample_config sample_server"
    using create_started [of sample_config] by (simp add: sample_server_def started_def)
  moreover have "denied (sample_env []) sample_config" "denied (sample_env play_without_setup) sample_config"
    by (rule sample_denied; simp add: play_without_setup_def starts_with_def)+
  ultimately show ?thesis
    using no_media_without_credentials [OF _ _ run, of sample_config] run out
    by (simp add: denied_event_def del: run_steps.simps)
qed

end
