(* ===== verification/RtspProperties.thy ===== *)
theory RtspProperties
  imports RtspSessions
begin

text \<open>
  The number of clients the RTSP server counts, the texts it sends, and what single requests do to
  session and transport.
\<close>

section \<open>Counting clients\<close>

abbreviation active_clients :: "rtsp_server \<Rightarrow> nat" where
  "active_clients srv \<equiv> length (filter client_active (clients srv))"

lemma length_filter_update:
  "i < length xs \<Longrightarrow>
     int (length (filter P (xs[i := x]))) =
       int (length (filter P xs)) + (if P x then 1 else 0) - (if P (xs ! i) then 1 else 0)"
proof (induction xs arbitrary: i)
  case (Cons y xs)
  show ?case
  proof (cases i)
    case (Suc j)
    with Cons.prems Cons.IH [of j] show ?thesis by (auto split: if_splits)
  qed simp
qed simp

text \<open>A round in which no handshake fails, no descriptor breaks and every reply is sent.\<close>

definition calm :: "rtsp_env \<Rightarrow> bool" where
  "calm env \<longleftrightarrow>
     tls_handshake env \<and> selected env \<noteq> SelectError False \<and>
     (\<forall>k d. 0 \<le> tcp_send (env_net env) k d) \<and> (\<forall>k t d. \<exists>n. tls_send (env_net env) k t d = SslOk n)"

lemma calm_write:
  assumes "calm env" and "d \<noteq> []"
  shows "0 \<le> fst (rtsp_client_tls_write (env_net env) c d)"
proof -
  obtain n where "tls_send (env_net env) (length (outbox c)) 0 d = SslOk n"
    using assms(1) unfolding calm_def by blast
  with assms show ?thesis
    by (simp add: rtsp_client_tls_write_def send_plain_def Let_def calm_def numeral_3_eq_3)
qed

lemma calm_respond:
  assumes "calm env" and "respond env status phrase headers body srv c = (r, srv1, c1)"
  shows "r = 0"
proof -
  have "map char_byte (response_text status phrase headers body c) \<noteq> []" by (simp add: response_text_def)
  from calm_write [OF assms(1) this, of c] assms(2) show ?thesis
    by (auto simp: respond_def send_rtsp_response_def split: prod.splits if_splits)
qed

lemma calm_teardown:
  "calm env \<Longrightarrow> dispatch_request env srv c RTSP_METHOD_TEARDOWN url req = (r, srv1, c1) \<Longrightarrow> r = 0"
  by (auto simp: dispatch_request_def handle_teardown_request_def split: prod.splits dest: calm_respond)

text \<open>The invariant: the count is that of the active slots, and within the limit.\<close>

definition counted :: "rtsp_config \<Rightarrow> rtsp_server \<Rightarrow> bool" where
  "counted cfg srv \<longleftrightarrow>
     length (clients srv) = MAX_RTSP_CLIENTS \<and> client_count srv = int (active_clients srv) \<and>
     client_count srv \<le> max_clients cfg \<and> server_config srv = cfg \<and> (tls_enabled cfg \<longrightarrow> tls_context srv)"

lemma counted_update:
  assumes "counted cfg srv" and "i < MAX_RTSP_CLIENTS" and "clients srv1 = (clients srv)[i := c]"
    and "client_count srv1 = client_count srv + (if client_active c then 1 else 0) -
      (if client_active (clients srv ! i) then 1 else 0)"
    and "client_count srv1 \<le> max_clients cfg" and "server_config srv1 = server_config srv"
    and "tls_context srv1 = tls_context srv"
  shows "counted cfg srv1"
  using assms length_filter_update [of i "clients srv" client_active c] by (simp add: counted_def)

lemma counted_accept:
  assumes "counted cfg srv" and "calm env" and "tls \<longrightarrow> tls_enabled cfg"
  shows "counted cfg (accept_connection env tls a srv)"
proof -
  have len: "length (clients srv) = MAX_RTSP_CLIENTS" using assms(1) by (simp add: counted_def)
  from accept_cases [OF len refl, of env tls a] show ?thesis
  proof cases
    case 1
    with assms(1) show ?thesis by (simp add: counted_def)
  next
    case (2 i c)
    with assms show ?thesis by (simp add: counted_def calm_def)
  next
    case (3 i c)
    with slot_active(2) [OF 3(3)] assms(1) show ?thesis
      by (intro counted_update [OF assms(1) 3(1,4)]) (simp_all add: counted_def)
  qed
qed

lemma counted_serve:
  assumes "counted cfg srv" and "calm env" and "i < MAX_RTSP_CLIENTS"
    and "serve_client env watched srv i = Some srv1"
  shows "counted cfg srv1"
  using assms(4)
proof (cases rule: serve_cases)
  case 1
  with assms(1) show ?thesis by simp
next
  case (2 r s1 c1)
  from connection_effect [OF 2(2)] calm_teardown [OF assms(2)] obtain torn where
    e: "request_effect torn r srv (hold_media (clients srv ! i)) s1 c1" and "torn \<longrightarrow> r = 0" by blast
  let ?c = "resume_media (client_state (clients srv ! i) = RTSP_CLIENT_STATE_PLAYING) r c1"
  let ?c1 = "if r < 0 then cleanup_client (?c\<lparr>client_active := False\<rparr>) else ?c"
  have "clients srv1 = (clients srv)[i := ?c1]" "server_config srv1 = server_config srv" "tls_context srv1 = tls_context srv"
    using e 2(3) by (simp_all add: request_effect_def same_server_def)
  moreover have "client_count srv1 = client_count srv + (if client_active ?c1 then 1 else 0) - 1"
    using e 2 \<open>torn \<longrightarrow> r = 0\<close> by (auto simp: request_effect_def same_slot_def cleanup_slot split: if_splits)
  moreover from this have "client_count srv1 \<le> max_clients cfg" using assms(1) by (simp add: counted_def)
  ultimately show ?thesis using 2(1) assms(1) by (intro counted_update [OF assms(1,3)]) simp_all
qed

lemma counted_serve_all:
  "counted cfg srv \<Longrightarrow> calm env \<Longrightarrow> list_all (\<lambda>i. i < MAX_RTSP_CLIENTS) is \<Longrightarrow>
     serve_clients env watched is srv = Some srv1 \<Longrightarrow> counted cfg srv1"
proof (induction "is" arbitrary: srv)
  case (Cons i "is")
  from Cons.prems(4) obtain s where s: "serve_client env watched srv i = Some s"
    "serve_clients env watched is s = Some srv1" by (auto split: option.splits)
  with counted_serve [OF Cons.prems(1,2) _ s(1)] Cons show ?case by auto
qed simp

lemma counted_timeout:
  assumes "counted cfg srv"
  shows "counted cfg (drop_inactive now (srv\<lparr>readings := n\<rparr>))"
proof -
  have "int (length (filter client_active (map (\<lambda>c. if t c then cleanup_client c else c) cs))) =
      int (length (filter client_active cs)) - int (length (filter t cs))"
    if "\<And>c. t c \<Longrightarrow> client_active c" for t cs
    by (induction cs) (auto simp: cleanup_slot that)
  note counts = this
  have "timed_out s now c \<Longrightarrow> client_active c" for s c by (simp add: timed_out_def)
  from counts [of "timed_out (srv\<lparr>readings := n\<rparr>) now", OF this] assms show ?thesis
    by (auto simp: counted_def drop_inactive_def)
qed

lemma counted_round:
  assumes "counted cfg srv" and "calm env" and "server_round env srv = Some srv1"
  shows "counted cfg srv1"
proof (cases "should_stop srv")
  case False
  show ?thesis
  proof (cases "selected env")
    case (SelectError b)
    with assms False show ?thesis by (cases b) (auto simp: server_round_def calm_def)
  next
    case SelectTimeout
    with assms False counted_timeout [OF assms(1)] show ?thesis
      by (auto simp: server_round_def read_clock_def)
  next
    case SelectReady
    let ?a = "if 0 \<le> listen_socket srv \<and> readable env (listen_socket srv)
      then accept_connection env False (accept_plain env) srv else srv"
    let ?b = "if tls_enabled (server_config ?a) \<and> 0 \<le> tls_listen_socket ?a \<and> readable env (tls_listen_socket ?a)
      then accept_connection env True (accept_tls env) ?a else ?a"
    have a: "counted cfg ?a" using counted_accept [OF assms(1,2)] assms(1) by simp
    then have "server_config ?a = cfg" by (simp add: counted_def)
    with counted_accept [OF a assms(2), of True "accept_tls env"] a have b: "counted cfg ?b" by auto
    have "serve_clients env (watched_sockets srv) [0..<MAX_RTSP_CLIENTS] ?b = Some srv1"
      using assms(3) SelectReady False unfolding server_round_def Let_def by simp
    from counted_serve_all [OF b assms(2) _ this] show ?thesis by (simp add: list_all_iff)
  qed
qed (use assms in \<open>simp add: server_round_def\<close>)

lemma counted_frame:
  assumes "counted cfg srv" and "rtsp_server_send_frame net now cur nows rn hevc srv ch d = Some (r, srv1)"
  shows "counted cfg srv1"
proof -
  have "map client_active (clients srv1) = map client_active (clients srv)"
  proof (rule nth_equalityI)
    fix i assume "i < length (map client_active (clients srv1))"
    then have "i < length (clients srv)" using frame_slots(1) [OF assms(2)] by simp
    from frame_slots(2) [OF assms(2) this] this frame_slots(1) [OF assms(2)]
    show "map client_active (clients srv1) ! i = map client_active (clients srv) ! i"
      using offer_frame_slot(1) by fastforce
  qed (simp add: frame_slots(1) [OF assms(2)])
  moreover have "length (filter client_active cs) = length (filter (\<lambda>b. b) (map client_active cs))" for cs
    by (simp add: filter_map o_def)
  ultimately have "active_clients srv1 = active_clients srv" by metis
  with frame_slots [OF assms(2)] assms(1) show ?thesis by (simp add: counted_def)
qed

definition calm_event :: "rtsp_event \<Rightarrow> bool" where
  "calm_event e \<longleftrightarrow> (case e of Round env \<Rightarrow> calm env | Frame net now cur nows rn hevc ch d \<Rightarrow> True)"

interpretation counting: partial_machine rtsp_step calm_event "counted cfg" for cfg
proof
  fix srv e srv1
  assume "counted cfg srv" and "calm_event e" and "rtsp_step srv e = Some srv1"
  then show "counted cfg srv1"
    by (cases e) (auto simp: calm_event_def intro: counted_round counted_frame)
qed

section \<open>Texts\<close>

text \<open>A slot whose responses fit: a session id of at most 31 characters and ports in the range of \<open>int\<close>.\<close>

definition short_slot :: "rtsp_client \<Rightarrow> bool" where
  "short_slot c \<longleftrightarrow> length (session_id c) \<le> 31 \<and> int_range (rtp_port c) \<and> int_range (rtcp_port c)"

lemma scan_ports_range: "scan_ports key t = Some (a, b) \<Longrightarrow> int_range a \<and> int_range b"
  by (auto simp: scan_ports_def dest!: scan_int_range split: bind_splits)

lemma short_setup_headers:
  assumes "short_slot c"
  shows "length (setup_headers c) < 512"
proof -
  have "length (decimal_int (rtp_port c)) \<le> 11" "length (decimal_int (rtcp_port c)) \<le> 11"
    using assms by (simp_all add: short_slot_def length_decimal_int)
  then show ?thesis by (cases "transport_mode c") (simp_all add: setup_headers_def)
qed

text \<open>At most one transmission more, of at most \<open>n\<close> bytes less one.\<close>

fun transmitted :: "transmission \<Rightarrow> bytes" where
  "transmitted (Datagram d) = d"
| "transmitted (Plain d) = d"
| "transmitted (Secure d) = d"

definition answered :: "nat \<Rightarrow> rtsp_client \<Rightarrow> rtsp_client \<Rightarrow> bool" where
  "answered n c c1 \<longleftrightarrow>
     (\<exists>ts. outbox c1 = outbox c @ ts \<and> length ts \<le> 1 \<and> (\<forall>t \<in> set ts. length (transmitted t) < n)) \<and> short_slot c1"

lemma replied_outbox:
  "replied reply c c1 \<Longrightarrow>
     \<exists>ts. outbox c1 = outbox c @ ts \<and>
       (ts = [] \<or> (\<exists>n. ts = [Plain (take n (map char_byte reply))] \<or> ts = [Secure (take n (map char_byte reply))]))"
  by (cases c; cases c1; simp add: replied_def; blast)

lemma short_respond:
  assumes "respond env status phrase headers body srv c = (r, srv1, c1)" and "short_slot c"
    and "status < 1000" and "length phrase \<le> 32" and "length headers < 512"
    and "case body of None \<Rightarrow> True | Some b \<Rightarrow> length b < 2048"
  shows "answered 4096 c c1"
proof -
  have len: "length (response_text status phrase headers body c) < 4096"
    using response_length [of status phrase c headers body] assms by (simp add: short_slot_def)
  note rep = respond_effect(2) [OF assms(1)]
  have "short_slot c1" using assms(2) replied_fields [OF rep] by (simp add: short_slot_def)
  moreover obtain ts where "outbox c1 = outbox c @ ts"
    "ts = [] \<or> (\<exists>n. ts = [Plain (take n (map char_byte (response_text status phrase headers body c)))] \<or>
       ts = [Secure (take n (map char_byte (response_text status phrase headers body c)))])"
    using replied_outbox [OF rep] by blast
  ultimately show ?thesis using len by (auto simp: answered_def)
qed

text \<open>What is sent of the server's side fits too.\<close>

definition fitting :: "rtsp_env \<Rightarrow> rtsp_config \<Rightarrow> video_stream list \<Rightarrow> bool" where
  "fitting env cfg ss \<longleftrightarrow>
     list_all stream_ok ss \<and> length (server_ip env) \<le> 63 \<and> int_range (wall env) \<and> int_range (server_port cfg)"

lemma answered_start:
  "answered n (c\<lparr>last_activity_us := t, client_cseq := k\<rparr>) c1 \<Longrightarrow> answered n c c1"
  by (simp add: answered_def)

lemma answered_keep: "short_slot c \<Longrightarrow> outbox c1 = outbox c \<Longrightarrow> short_slot c1 \<Longrightarrow> answered n c c1"
  by (simp add: answered_def)

lemma answered_from:
  "answered n c1 c2 \<Longrightarrow> outbox c1 = outbox c \<Longrightarrow> answered n c c2"
  by (simp add: answered_def)

lemma short_describe:
  assumes "handle_describe_request env srv c url = (r, srv1, c1)" and "short_slot c" and "fitting env (server_config srv) (streams srv)"
  shows "answered 4096 c c1"
proof -
  let ?c = "c\<lparr>supports_backchannel := requires_backchannel c\<rparr>"
  have c: "short_slot ?c" using assms(2) by (simp add: short_slot_def)
  have sdp: "length sdp < 2048"
    if "generate_sdp (streams srv) (server_ip env) (server_port (server_config srv)) (wall env) name b = Some sdp" for name b sdp
    using sdp_length [OF _ _ _ _ that] assms(3) by (simp add: fitting_def)
  have "answered 4096 ?c c1"
    using assms(1) c unfolding handle_describe_request_def Let_def
    by (auto split: option.splits elim!: short_respond dest: sdp)
  then show ?thesis by (rule answered_from) simp
qed

lemma short_setup:
  assumes "handle_setup_request env srv c url t = (r, srv1, c1)" and "short_slot c"
  shows "answered 4096 c c1"
proof -
  have tr: "short_slot c2 \<and> outbox c2 = outbox c \<and> (\<forall>status phrase. e = Some (status, phrase) \<longrightarrow> status < 1000 \<and> length phrase \<le> 32)"
    if "setup_transport env t (setup_track n s c) = (e, c2)" for n s e c2
    using that assms(2) scan_ports_range
    by (fastforce simp: setup_transport_def setup_track_def setup_tcp_def setup_udp_def short_slot_def int_range_def Let_def
        split: option.splits if_splits prod.splits)
  have fine: "answered 4096 c c1"
    if "setup_transport env t (setup_track n s c) = (None, c2)"
      and r: "respond env 200 ''OK'' (setup_headers c2) None srv (c2\<lparr>client_state := RTSP_CLIENT_STATE_READY\<rparr>) = (r, srv1, c1)"
    for n s c2
  proof -
    from tr [OF that(1)] have "short_slot (c2\<lparr>client_state := RTSP_CLIENT_STATE_READY\<rparr>)" "length (setup_headers c2) < 512"
      using short_setup_headers by (simp_all add: short_slot_def)
    from answered_from [OF short_respond [OF r this(1) _ _ this(2)]] tr [OF that(1)] show ?thesis by simp
  qed
  have failed: "answered 4096 c c1"
    if "setup_transport env t (setup_track n s c) = (Some (status, phrase), c2)"
      and r: "respond env status phrase [] None srv c2 = (r, srv1, c1)" for n s c2 status phrase
    using answered_from [OF short_respond [OF r]] tr [OF that(1)] by simp
  show ?thesis
    using assms unfolding handle_setup_request_def
    by (auto split: option.splits prod.splits if_splits elim!: short_respond intro: fine failed)
qed

lemma short_play:
  assumes "handle_play_request env srv c = (r, srv1, c1)" and "short_slot c"
  shows "answered 4096 c c1"
proof -
  have await: "answered 4096 c1 c3" if "answered 4096 c1 c2" "await_idr env r2 s2 c2 = (r, srv1, c3)" for r2 s2 c1 c2 c3
    using that by (auto simp: await_idr_def answered_def short_slot_def split: prod.splits if_splits)
  have "answered 4096 c c2"
    if "respond env st ph hd None s c0 = (r2, s2, c2)" "short_slot c0" "outbox c0 = outbox c" "st < 1000" "length ph \<le> 32"
      "length hd < 512" for st ph hd s c0 r2 s2 c2
    using answered_from [OF short_respond [OF that(1,2,4,5,6)]] that(3) by simp
  note reply = this
  have c: "short_slot (note_backchannel c)" using assms(2) by (simp add: short_slot_def)
  from assms(1) show ?thesis
  proof (cases rule: play_cases)
    case 1
    from reply [OF 1(2) c] show ?thesis by simp
  next
    case (2 x y srv2 c2 r2)
    have "answered 4096 c c2" using c by (intro reply [OF 2(2)]) (simp_all add: short_slot_def)
    with 2(3) await show ?thesis by blast
  qed
qed

lemma cleanup_keeps [simp]:
  "outbox (cleanup_client c) = outbox c" "rtp_port (cleanup_client c) = rtp_port c"
  "rtcp_port (cleanup_client c) = rtcp_port c"
  by (simp_all add: cleanup_client_def rtsp_client_tls_cleanup_def Let_def)

lemma short_teardown:
  assumes "handle_teardown_request env srv c = (r, srv1, c1)" and "short_slot c"
  shows "answered 4096 c c1"
proof -
  obtain r2 s2 c2 where r: "respond env 200 ''OK'' [] None srv (c\<lparr>client_state := RTSP_CLIENT_STATE_INIT\<rparr>) = (r2, s2, c2)"
    by (metis prod_cases3)
  then have "answered 4096 (c\<lparr>client_state := RTSP_CLIENT_STATE_INIT\<rparr>) c2"
    using assms(2) by (auto elim!: short_respond simp: short_slot_def)
  with assms(1) r show ?thesis
    by (auto simp: handle_teardown_request_def answered_def short_slot_def cleanup_slot)
qed

lemma short_dispatch:
  assumes "dispatch_request env srv c m url req = (r, srv1, c1)" and "short_slot c" and "fitting env (server_config srv) (streams srv)"
  shows "answered 4096 c c1"
proof -
  have "answered 4096 c c1" if "handle_pause_request env srv c = (r, srv1, c1)"
    using that assms(2) unfolding handle_pause_request_def
    by (auto split: if_splits elim!: short_respond answered_from [OF short_respond] simp: short_slot_def)
  then show ?thesis
    using assms short_describe [OF _ assms(2,3)] short_setup [OF _ assms(2)] short_play [OF _ assms(2)]
      short_teardown [OF _ assms(2)]
    by (cases m) (auto simp: dispatch_request_def handle_options_request_def elim!: short_respond)
qed

lemma short_connection:
  assumes "handle_client_connection env srv c = Some (r, srv1, c1)" and "short_slot c" and "fitting env (server_config srv) (streams srv)"
  shows "answered 4096 c c1"
  using connection_cases [OF assms(1)]
proof (elim disjE exE conjE)
  fix d m url n k t
  let ?srv = "srv\<lparr>readings := n\<rparr>" and ?c = "c\<lparr>last_activity_us := t, client_cseq := word_of_int k\<rparr>"
  assume a: "authenticate env ?srv ?c m url (request_text c d) = Some (r, srv1, c1)"
  have c: "short_slot ?c" "fitting env (server_config ?srv) (streams ?srv)" using assms(2,3) by (simp_all add: short_slot_def fitting_def)
  have "answered 4096 ?c c1"
  proof (cases "granted env ?srv ?c m (request_text c d)")
    case True
    from short_dispatch [OF authenticate_cases(1) [OF a True] c] show ?thesis .
  next
    case False
    from authenticate_cases(2) [OF a False] c(1) show ?thesis
      by (auto elim!: short_respond simp: unauthorized_header_def answered_keep)
  qed
  then show ?thesis by (rule answered_start)
qed (use assms(2) in \<open>auto simp: answered_def short_slot_def\<close>)

interpretation short: slot_invariant short_slot fitting
proof
  fix env srv c r srv1 c1
  assume "fitting env (server_config srv) (streams srv)" and "short_slot c"
    and "handle_client_connection env srv (hold_media c) = Some (r, srv1, c1)"
  then have "short_slot c1" using short_connection [of env srv "hold_media c"] by (simp add: short_slot_def answered_def)
  then show "short_slot (resume_media (client_state c = RTSP_CLIENT_STATE_PLAYING) r c1)" by (simp add: short_slot_def)
qed (simp_all add: short_slot_def init_client_def cleanup_slot)

definition fitting_event :: "rtsp_config \<Rightarrow> video_stream list \<Rightarrow> rtsp_event \<Rightarrow> bool" where
  "fitting_event cfg ss e \<longleftrightarrow>
     (case e of Round env \<Rightarrow> fitting env cfg ss | Frame net now cur nows rn hevc ch d \<Rightarrow> True)"

interpretation texts: partial_machine rtsp_step "fitting_event cfg ss"
  "\<lambda>srv. short.slots_ok srv \<and> server_config srv = cfg \<and> streams srv = ss" for cfg ss
proof
  fix srv e srv1
  assume inv: "short.slots_ok srv \<and> server_config srv = cfg \<and> streams srv = ss" and ok: "fitting_event cfg ss e"
    and step: "rtsp_step srv e = Some srv1"
  show "short.slots_ok srv1 \<and> server_config srv1 = cfg \<and> streams srv1 = ss"
  proof (cases e)
    case (Round env)
    with inv ok step short.slots_round [of srv env srv1] show ?thesis by (simp add: fitting_event_def)
  next
    case (Frame net now cur nows rn hevc ch d)
    with step obtain r where f: "rtsp_server_send_frame net now cur nows rn hevc srv ch d = Some (r, srv1)" by auto
    have "short_slot (clients srv1 ! i)" if i: "i < MAX_RTSP_CLIENTS" for i
    proof -
      have "i < length (clients srv)" "short_slot (clients srv ! i)" using inv i by (simp_all add: short.slots_ok_def)
      with frame_slots(2) [OF f, of i] show ?thesis
        using offer_frame_slot(3-5) by (fastforce simp: short_slot_def)
    qed
    with inv frame_slots [OF f] show ?thesis by (simp add: short.slots_ok_def)
  qed
qed

section \<open>A request that is carried out\<close>

text \<open>Client \<open>i\<close> sends a request that is granted, with nothing wrong about the connection.\<close>

definition asks :: "rtsp_env \<Rightarrow> int list \<Rightarrow> rtsp_server \<Rightarrow> nat \<Rightarrow> rtsp_method \<Rightarrow> string \<Rightarrow> int \<Rightarrow> bool" where
  "asks env watched srv i m url k \<longleftrightarrow>
     (let c = clients srv ! i in
      i < length (clients srv) \<and> client_active c \<and> 0 \<le> socket_fd c \<and> socket_fd c \<in> set watched \<and>
      readable env (socket_fd c) \<and>
      (case rtsp_client_tls_read env c 4095 of
         None \<Rightarrow> False
       | Some d \<Rightarrow>
           d \<noteq> [] \<and> hd (find_teardown c (map byte_char d)) \<noteq> CHR ''$'' \<and>
           parse_rtsp_request (request_text c d) = Some (m, url, k) \<and> granted env srv c m (request_text c d)))"

lemma hold_media_reads [simp]:
  "rtsp_client_tls_read env (hold_media c) n = rtsp_client_tls_read env c n"
  "find_teardown (hold_media c) b = find_teardown c b" "request_text (hold_media c) d = request_text c d"
  "granted env srv (hold_media c) m req = granted env srv c m req"
  by (auto simp: hold_media_def rtsp_client_tls_read_def find_teardown_def request_text_def granted_def)

lemma granted_authenticates:
  assumes "granted env srv c m request"
  shows "authenticate env srv c m url request = Some (dispatch_request env srv c m url request)"
  using assms
  by (auto simp: authenticate_def granted_def unknown_client_def auth_get_client_info_def dotted_known Let_def
      split: option.splits)

lemma asks_served:
  assumes "asks env watched srv i m url k" and "c = clients srv ! i"
  obtains n t r s1 c1 d where
    "dispatch_request env (srv\<lparr>readings := n\<rparr>) ((hold_media c)\<lparr>last_activity_us := t, client_cseq := word_of_int k\<rparr>) m url
       (request_text c d) = (r, s1, c1)"
    and "handle_client_connection env srv (hold_media c) = Some (r, s1, c1)"
    and "serve_client env watched srv i =
      Some (finish_request i r s1 (resume_media (client_state c = RTSP_CLIENT_STATE_PLAYING) r c1))"
proof -
  obtain d where d: "rtsp_client_tls_read env c 4095 = Some d" "d \<noteq> []"
    "hd (find_teardown c (map byte_char d)) \<noteq> CHR ''$''" "parse_rtsp_request (request_text c d) = Some (m, url, k)"
    "granted env srv c m (request_text c d)"
    using assms by (auto simp: asks_def Let_def split: option.splits)
  let ?srv = "srv\<lparr>readings := readings srv + 1\<rparr>"
  let ?c = "(hold_media c)\<lparr>last_activity_us := ucast (monotonic env (readings srv)), client_cseq := word_of_int k\<rparr>"
  obtain r s1 c1 where disp: "dispatch_request env ?srv ?c m url (request_text c d) = (r, s1, c1)"
    by (metis prod_cases3)
  have "granted env ?srv ?c m (request_text c d)" using d(5) by simp
  from granted_authenticates [OF this, of url] d disp
  have h: "handle_client_connection env srv (hold_media c) = Some (r, s1, c1)"
    by (simp add: handle_client_connection_def read_clock_def request_text_def Let_def)
  then have "serve_client env watched srv i =
      Some (finish_request i r s1 (resume_media (client_state c = RTSP_CLIENT_STATE_PLAYING) r c1))"
    using assms by (simp add: serve_client_def asks_def Let_def)
  with disp h that show ?thesis by blast
qed

text \<open>What a reply puts on a working network.\<close>

definition sent_text :: "rtsp_client \<Rightarrow> string \<Rightarrow> transmission" where
  "sent_text c reply = (if use_tls c \<and> ssl_context c then Secure (map char_byte reply) else Plain (map char_byte reply))"

lemma good_respond:
  assumes "env_net env = good_net"
  shows "respond env status phrase headers body srv c =
    (0, srv, put_out (sent_text c (response_text status phrase headers body c)) c)"
proof -
  have "map char_byte (response_text status phrase headers body c) \<noteq> []" by (simp add: response_text_def)
  then show ?thesis
    using assms
    by (simp add: respond_def send_rtsp_response_def rtsp_client_tls_write_def send_plain_def good_net_def
        sent_text_def Let_def numeral_3_eq_3)
qed

section \<open>The state machine of RFC 2326\<close>

text \<open>
  The server's state table of appendix A.2, for the methods the server serves; a request with no row leaves the
  state as it is.
\<close>

definition rfc2326_transitions :: "(rtsp_client_state \<times> rtsp_method \<times> rtsp_client_state) list" where
  "rfc2326_transitions =
     [(RTSP_CLIENT_STATE_INIT, RTSP_METHOD_SETUP, RTSP_CLIENT_STATE_READY),
      (RTSP_CLIENT_STATE_INIT, RTSP_METHOD_TEARDOWN, RTSP_CLIENT_STATE_INIT),
      (RTSP_CLIENT_STATE_READY, RTSP_METHOD_PLAY, RTSP_CLIENT_STATE_PLAYING),
      (RTSP_CLIENT_STATE_READY, RTSP_METHOD_SETUP, RTSP_CLIENT_STATE_READY),
      (RTSP_CLIENT_STATE_READY, RTSP_METHOD_TEARDOWN, RTSP_CLIENT_STATE_INIT),
      (RTSP_CLIENT_STATE_PLAYING, RTSP_METHOD_PLAY, RTSP_CLIENT_STATE_PLAYING),
      (RTSP_CLIENT_STATE_PLAYING, RTSP_METHOD_PAUSE, RTSP_CLIENT_STATE_READY),
      (RTSP_CLIENT_STATE_PLAYING, RTSP_METHOD_TEARDOWN, RTSP_CLIENT_STATE_INIT),
      (RTSP_CLIENT_STATE_PLAYING, RTSP_METHOD_SETUP, RTSP_CLIENT_STATE_PLAYING)]"

definition rfc2326_next :: "rtsp_client_state \<Rightarrow> rtsp_method \<Rightarrow> rtsp_client_state" where
  "rfc2326_next s m =
     (case find (\<lambda>(a, b, z). a = s \<and> b = m) rfc2326_transitions of None \<Rightarrow> s | Some (a, b, z) \<Rightarrow> z)"


text \<open>The state \<open>PAUSED\<close>, which the RFC does not have, is declared and never entered.\<close>

interpretation never_paused: slot_invariant "\<lambda>c. client_state c \<noteq> RTSP_CLIENT_STATE_PAUSED" "\<lambda>env cfg ss. True"
proof
  fix env srv c r srv1 c1
  assume c: "client_state c \<noteq> RTSP_CLIENT_STATE_PAUSED"
    and h: "handle_client_connection env srv (hold_media c) = Some (r, srv1, c1)"
  have held: "client_state (hold_media c) \<noteq> RTSP_CLIENT_STATE_PAUSED" using c by (simp add: hold_media_def)
  have step: "session_step s m \<noteq> RTSP_CLIENT_STATE_PAUSED" if "s \<noteq> RTSP_CLIENT_STATE_PAUSED" for s m
    using that by (cases s; cases m) simp_all
  have "client_state c1 \<noteq> RTSP_CLIENT_STATE_PAUSED"
    using connection_effect [OF h] held step [OF held] by metis
  then show "client_state (resume_media (client_state c = RTSP_CLIENT_STATE_PLAYING) r c1) \<noteq> RTSP_CLIENT_STATE_PAUSED"
    by (simp add: resume_media_def)
qed (simp_all add: init_client_def cleanup_slot)

interpretation unpaused: partial_machine rtsp_step "\<lambda>e. True"
  "\<lambda>srv. never_paused.slots_ok srv"
proof
  fix srv e srv1
  assume inv: "never_paused.slots_ok srv" and step: "rtsp_step srv e = Some srv1"
  show "never_paused.slots_ok srv1"
  proof (cases e)
    case (Round env)
    with inv step never_paused.slots_round [of srv env srv1] show ?thesis by simp
  next
    case (Frame net now cur nows rn hevc ch d)
    with step obtain r where f: "rtsp_server_send_frame net now cur nows rn hevc srv ch d = Some (r, srv1)" by auto
    have "client_state (clients srv1 ! i) \<noteq> RTSP_CLIENT_STATE_PAUSED" if i: "i < MAX_RTSP_CLIENTS" for i
    proof -
      have "i < length (clients srv)" "client_state (clients srv ! i) \<noteq> RTSP_CLIENT_STATE_PAUSED"
        using inv i by (simp_all add: never_paused.slots_ok_def)
      with frame_slots(2) [OF f, of i] show ?thesis by (auto dest: offer_frame_slot(2))
    qed
    with inv frame_slots(1) [OF f] show ?thesis by (simp add: never_paused.slots_ok_def)
  qed
qed

lemma paused_unused:
  assumes "started cfg srv" and "run_steps rtsp_step srv es = Some srv1" and "c \<in> set (clients srv1)"
  shows "client_state c \<noteq> RTSP_CLIENT_STATE_PAUSED" "client_state (hold_media c) \<noteq> RTSP_CLIENT_STATE_PAUSED"
proof -
  have "never_paused.slots_ok srv" using assms(1) by (simp add: started_def never_paused.slots_ok_def empty_client_def)
  from unpaused.inv_run [OF this _ assms(2)] assms(3) show "client_state c \<noteq> RTSP_CLIENT_STATE_PAUSED"
    by (auto simp: never_paused.slots_ok_def in_set_conv_nth list_all_iff)
  then show "client_state (hold_media c) \<noteq> RTSP_CLIENT_STATE_PAUSED" by (simp add: hold_media_def)
qed





section \<open>Properties\<close>

text \<open>
  C16. The number of clients: while no TLS handshake fails, no descriptor breaks and every reply is
  sent, over any rounds and frames, the server counts exactly the slots in use, and never more
  than it is configured to admit.
\<close>

theorem rtsp_client_count:
  assumes "started cfg srv" and "0 \<le> max_clients cfg" and "tls_enabled cfg \<longrightarrow> tls_context srv"
    and "list_all calm_event es" and "run_steps rtsp_step srv es = Some srv1"
  shows "client_count srv1 = int (active_clients srv1) \<and> client_count srv1 \<le> max_clients cfg \<and>
    length (clients srv1) = MAX_RTSP_CLIENTS"
proof -
  have "counted cfg srv" using assms(1-3) by (simp add: started_def counted_def empty_client_def)
  from counting.inv_run [OF this assms(4,5)] show ?thesis by (simp add: counted_def)
qed

text \<open>
  C27. Every text fits: over any run with streams as the configuration can hold them, whatever request
  a client then sends, the server answers with at most one transmission, shorter than the response
  buffer of 4096 bytes; its session descriptions are shorter than theirs of 2048.
\<close>

theorem rtsp_responses_fit:
  assumes "started cfg srv" and "list_all (fitting_event cfg (streams srv)) es"
    and "run_steps rtsp_step srv es = Some srv1" and "i < MAX_RTSP_CLIENTS" and "fitting env cfg (streams srv)"
    and "handle_client_connection env srv1 (clients srv1 ! i) = Some (r, srv2, c)"
  shows "(\<exists>ts. outbox c = outbox (clients srv1 ! i) @ ts \<and> length ts \<le> 1 \<and>
      (\<forall>t \<in> set ts. length (transmitted t) < 4096)) \<and>
    (\<forall>name b sdp. generate_sdp (streams srv1) (server_ip env) (server_port cfg) (wall env) name b = Some sdp \<longrightarrow>
      length sdp < 2048)"
proof -
  have "short.slots_ok srv \<and> server_config srv = cfg \<and> streams srv = streams srv"
    using assms(1) by (simp add: started_def short.slots_ok_def short_slot_def empty_client_def int_range_def)
  from texts.inv_run [OF this assms(2,3)]
  have inv: "short_slot (clients srv1 ! i)" "server_config srv1 = cfg" "streams srv1 = streams srv"
    using assms(4) by (simp_all add: short.slots_ok_def)
  have "answered 4096 (clients srv1 ! i) c" using short_connection [OF assms(6) inv(1)] assms(5) inv(2,3) by simp
  moreover have "length sdp < 2048"
    if "generate_sdp (streams srv1) (server_ip env) (server_port cfg) (wall env) name b = Some sdp" for name b sdp
    using sdp_length [OF _ _ _ _ that] assms(5) inv(3) by (simp add: fitting_def)
  ultimately show ?thesis by (auto simp: answered_def)
qed


text \<open>
  PAUSE does not pause: a client that plays and is granted PAUSE plays on. Over UDP it is told 200,
  and the server thread then resumes its media; over TCP the media were held before the request
  was looked at, so it is told 400.
\<close>

theorem pause_undone:
  assumes "asks env watched srv i RTSP_METHOD_PAUSE url k" and "env_net env = good_net"
    and "c = clients srv ! i" and "client_state c = RTSP_CLIENT_STATE_PLAYING"
  shows "\<exists>srv1. serve_client env watched srv i = Some srv1 \<and>
    client_state (clients srv1 ! i) = RTSP_CLIENT_STATE_PLAYING \<and> client_active (clients srv1 ! i) \<and>
    outbox (clients srv1 ! i) = outbox c @
      [sent_text c (response_text (if transport_mode c = RTSP_TRANSPORT_UDP then 200 else 400)
         (if transport_mode c = RTSP_TRANSPORT_UDP then ''OK'' else ''Bad Request'') [] None
         (c\<lparr>client_cseq := word_of_int k\<rparr>))]"
proof -
  from asks_served [OF assms(1,3)] obtain n t r s1 c1 d where
    disp: "dispatch_request env (srv\<lparr>readings := n\<rparr>)
      ((hold_media c)\<lparr>last_activity_us := t, client_cseq := word_of_int k\<rparr>) RTSP_METHOD_PAUSE url
      (request_text c d) = (r, s1, c1)"
    and serve: "serve_client env watched srv i =
      Some (finish_request i r s1 (resume_media (client_state c = RTSP_CLIENT_STATE_PLAYING) r c1))" .
  have len: "i < length (clients srv)" "client_active c" using assms(1,3) by (auto simp: asks_def Let_def)
  show ?thesis
  proof (cases "transport_mode c")
    case RTSP_TRANSPORT_UDP
    with disp assms(2,4) serve len show ?thesis
      by (auto simp: dispatch_request_def handle_pause_request_def good_respond hold_media_def resume_media_def
          put_out_def sent_text_def response_text_def)
  next
    case RTSP_TRANSPORT_TCP
    with disp assms(2,4) serve len show ?thesis
      by (auto simp: dispatch_request_def handle_pause_request_def good_respond hold_media_def resume_media_def
          put_out_def sent_text_def response_text_def)
  qed
qed

text \<open>
  A TEARDOWN whose reply cannot be sent is counted twice: the handler and then the server thread
  both clean up the slot, and the number of clients drops by two.
\<close>

theorem teardown_counted_twice:
  assumes "asks env watched srv i RTSP_METHOD_TEARDOWN url k" and "\<forall>n d. tcp_send (env_net env) n d < 0"
    and "\<not> use_tls (clients srv ! i)"
  shows "\<exists>srv1. serve_client env watched srv i = Some srv1 \<and> \<not> client_active (clients srv1 ! i) \<and>
    client_count srv1 = client_count srv - 2"
proof -
  from asks_served [OF assms(1) refl] obtain n t r s1 c1 d where
    disp: "dispatch_request env (srv\<lparr>readings := n\<rparr>)
      ((hold_media (clients srv ! i))\<lparr>last_activity_us := t, client_cseq := word_of_int k\<rparr>) RTSP_METHOD_TEARDOWN url
      (request_text (clients srv ! i) d) = (r, s1, c1)"
    and serve: "serve_client env watched srv i =
      Some (finish_request i r s1 (resume_media (client_state (clients srv ! i) = RTSP_CLIENT_STATE_PLAYING) r c1))" .
  have "\<not> use_tls (hold_media c)" if "\<not> use_tls c" for c using that by (simp add: hold_media_def)
  with disp assms(2,3) have "r = -1 \<and> s1 = srv\<lparr>readings := n, client_count := client_count srv - 1\<rparr>"
    by (auto simp: dispatch_request_def handle_teardown_request_def respond_def send_rtsp_response_def
        rtsp_client_tls_write_def send_plain_def Let_def split: if_splits prod.splits)
  with serve assms(1) show ?thesis by (auto simp: asks_def Let_def cleanup_slot)
qed

text \<open>
  A second SETUP over UDP in a session loses the socket of the first: the new one replaces it, and
  even the clean-up of the client does not close it.
\<close>

theorem setup_leaks_socket:
  assumes "extract_stream_name_from_url (streams srv) url = Some full" and "split_track full = (name, track, False)"
    and "find_stream (streams srv) name = Some s" and "strstr transport ''RTP/AVP/TCP'' = None"
    and "scan_ports ''client_port='' transport = Some ports" and "env_net env = good_net"
    and "0 \<le> udp_socket env (socket_fd c)" and "0 \<le> rtp_socket_fd c"
    and "rtp_socket_fd c \<notin> {socket_fd c, udp_socket env (socket_fd c)} \<union> set (closed_fds c)"
    and "handle_setup_request env srv c url transport = (r, srv1, c1)"
  shows "r = 0 \<and> client_state c1 = RTSP_CLIENT_STATE_READY \<and> rtp_socket_fd c1 = udp_socket env (socket_fd c) \<and>
    rtp_socket_fd c \<notin> set (closed_fds (cleanup_client c1))"
proof -
  obtain a b where "ports = (a, b)" by fastforce
  then have "setup_transport env transport (setup_track track s c) =
      (None, (setup_track track s c)\<lparr>transport_mode := RTSP_TRANSPORT_UDP, rtp_port := a, rtcp_port := b,
         rtp_addr := (peer_addr c, word_of_int a), rtp_socket_fd := udp_socket env (socket_fd c)\<rparr>)"
    using assms(4,5,7) by (simp add: setup_transport_def setup_udp_def setup_track_def Let_def)
  with assms(1-3,6,10) have "r = 0" and "c1 = put_out (sent_text c1 (response_text 200 ''OK'' (setup_headers c1) None c1))
      ((setup_track track s c)\<lparr>transport_mode := RTSP_TRANSPORT_UDP, rtp_port := a, rtcp_port := b,
         rtp_addr := (peer_addr c, word_of_int a), rtp_socket_fd := udp_socket env (socket_fd c),
         client_state := RTSP_CLIENT_STATE_READY\<rparr>)"
    by (auto simp: handle_setup_request_def good_respond put_out_def sent_text_def response_text_def setup_headers_def)
  note c1 = this(2)
  have f: "client_state c1 = RTSP_CLIENT_STATE_READY" "rtp_socket_fd c1 = udp_socket env (socket_fd c)"
    "socket_fd c1 = socket_fd c" "closed_fds c1 = closed_fds c"
    by (subst c1, simp add: put_out_def setup_track_def)+
  with \<open>r = 0\<close> assms(9) show ?thesis
    by (auto simp: cleanup_client_def rtsp_client_tls_cleanup_def Let_def)
qed

text \<open>
  A SETUP that succeeds leaves a playing client in READY, where the RFC goes on playing: its media stop.
\<close>

lemma setup_stops_playing:
  assumes "extract_stream_name_from_url (streams srv) url = Some full" and "split_track full = (name, track, False)"
    and "find_stream (streams srv) name = Some s" and "setup_transport env transport (setup_track track s c) = (None, c2)"
    and "handle_setup_request env srv c url transport = (r, srv1, c1)" and "client_state c = RTSP_CLIENT_STATE_PLAYING"
  shows "client_state c1 = RTSP_CLIENT_STATE_READY \<and>
    rfc2326_next (client_state c) RTSP_METHOD_SETUP = RTSP_CLIENT_STATE_PLAYING"
  using assms
  by (auto simp: handle_setup_request_def rfc2326_next_def rfc2326_transitions_def dest!: respond_slot)

text \<open>
  The session timeout is multiplied in 32 bits: with 4295 seconds a client is dropped after 33
  milliseconds without a request.
\<close>

lemma session_timeout_wraps:
  assumes "session_timeout (server_config srv) = 4295" and "client_active c"
  shows "timed_out srv now c \<longleftrightarrow> 32704 < now - last_activity_us c"
  using assms by (simp add: timed_out_def word_less_nat_alt)

section \<open>Examples\<close>

lemma sample_calm: "calm (sample_env req)"
  by (simp add: calm_def sample_env_def good_net_def)

lemma sample_started: "started sample_config sample_server"
  using create_started [of sample_config] by (simp add: sample_server_def started_def)

lemma sample_limits:
  "max_clients sample_config = 8" "\<not> tls_enabled sample_config" "streams sample_server = [sample_stream]"
  "fitting (sample_env req) sample_config [sample_stream]"
  by (simp_all add: sample_config_def rtsp_server_set_default_config_def sample_server_def fitting_def sample_env_def
      sample_stream_def stream_ok_def int_range_def)

theorem rtsp_client_count_witness:
  "client_count connected_server = int (active_clients connected_server) \<and> active_clients connected_server = 1"
  using rtsp_client_count [OF sample_started, of "[Round (sample_env [])]" connected_server]
  by (simp add: sample_limits calm_event_def sample_calm connect_round connected_server_def connected_client_def empty_client_def)

text \<open>A server without authentication, and its one client in a given state.\<close>

definition open_server :: "rtsp_client_state \<Rightarrow> rtsp_server" where
  "open_server st = connected_server
     \<lparr>server_config := rtsp_server_set_default_config,
      clients := connected_client\<lparr>client_state := st\<rparr> # replicate 7 empty_client\<rparr>"

definition short_request :: "rtsp_method \<Rightarrow> string" where
  "short_request m = rtsp_method_name m @ '' /ch0 RTSP/1.0'' @ CRLF"

lemma open_asks:
  "asks (sample_env (short_request RTSP_METHOD_PAUSE)) [7] (open_server RTSP_CLIENT_STATE_PLAYING) 0 RTSP_METHOD_PAUSE ''/ch0'' 0"
  by code_simp

theorem pause_undone_witness:
  "\<exists>srv1. serve_client (sample_env (short_request RTSP_METHOD_PAUSE)) [7] (open_server RTSP_CLIENT_STATE_PLAYING) 0 = Some srv1 \<and>
     client_state (clients srv1 ! 0) = RTSP_CLIENT_STATE_PLAYING \<and> length (outbox (clients srv1 ! 0)) = 1"
proof -
  let ?srv = "open_server RTSP_CLIENT_STATE_PLAYING"
  have c: "clients ?srv ! 0 = connected_client\<lparr>client_state := RTSP_CLIENT_STATE_PLAYING\<rparr>" by (simp add: open_server_def)
  have "env_net (sample_env (short_request RTSP_METHOD_PAUSE)) = good_net" by (simp add: sample_env_def)
  from pause_undone [OF open_asks this refl] c show ?thesis by (auto simp: connected_client_def empty_client_def)
qed

text \<open>The same with a connection that does not take anything.\<close>

definition dead_net :: net where
  "dead_net = \<lparr>udp_send = (\<lambda>n d. -1), tcp_send = (\<lambda>n d. -1), tls_send = (\<lambda>n k d. SSL_ERROR_SYSCALL)\<rparr>"

lemma dead_asks:
  "asks ((sample_env (short_request RTSP_METHOD_TEARDOWN))\<lparr>env_net := dead_net\<rparr>) [7] (open_server RTSP_CLIENT_STATE_READY) 0
     RTSP_METHOD_TEARDOWN ''/ch0'' 0"
  by code_simp

theorem teardown_counted_twice_witness:
  "\<exists>srv1. serve_client ((sample_env (short_request RTSP_METHOD_TEARDOWN))\<lparr>env_net := dead_net\<rparr>) [7]
     (open_server RTSP_CLIENT_STATE_READY) 0 = Some srv1 \<and> client_count srv1 = -1"
proof -
  have "client_count (open_server RTSP_CLIENT_STATE_READY) = 1" "\<not> use_tls (clients (open_server RTSP_CLIENT_STATE_READY) ! 0)"
    by (simp_all add: open_server_def connected_server_def connected_client_def empty_client_def)
  with teardown_counted_twice [OF dead_asks] show ?thesis by (auto simp: dead_net_def)
qed

theorem setup_leaks_socket_witness:
  "\<exists>r srv1 c1. handle_setup_request (sample_env []) (open_server RTSP_CLIENT_STATE_READY)
      (connected_client\<lparr>rtp_socket_fd := 8\<rparr>) ''/ch0'' ''RTP/AVP;unicast;client_port=5000-5001'' = (r, srv1, c1) \<and>
    rtp_socket_fd c1 = 9 \<and> 8 \<notin> set (closed_fds (cleanup_client c1))"
proof -
  let ?srv = "open_server RTSP_CLIENT_STATE_READY" and ?c = "connected_client\<lparr>rtp_socket_fd := 8\<rparr>"
  obtain r srv1 c1 where h: "handle_setup_request (sample_env []) ?srv ?c ''/ch0''
      ''RTP/AVP;unicast;client_port=5000-5001'' = (r, srv1, c1)" by (metis prod_cases3)
  have "extract_stream_name_from_url (streams ?srv) ''/ch0'' = Some ''ch0''"
    "split_track ''ch0'' = (''ch0'', 0, False)" "find_stream (streams ?srv) ''ch0'' = Some sample_stream"
    "strstr ''RTP/AVP;unicast;client_port=5000-5001'' ''RTP/AVP/TCP'' = None"
    "scan_ports ''client_port='' ''RTP/AVP;unicast;client_port=5000-5001'' = Some (5000, 5001)"
    by code_simp+
  from setup_leaks_socket [OF this _ _ _ _ h] h show ?thesis
    by (simp add: sample_env_def connected_client_def empty_client_def)
qed


lemma refused_request:
  "handle_client_connection (sample_env play_without_setup) connected_server (clients connected_server ! 0) \<noteq> None"
  by code_simp

theorem rtsp_responses_fit_witness:
  "\<exists>r srv2 c. handle_client_connection (sample_env play_without_setup) connected_server (clients connected_server ! 0) = Some (r, srv2, c) \<and>
     (\<exists>ts. outbox c = outbox (clients connected_server ! 0) @ ts \<and> length ts \<le> 1 \<and> (\<forall>t \<in> set ts. length (transmitted t) < 4096))"
proof -
  obtain r srv2 c where h: "handle_client_connection (sample_env play_without_setup) connected_server (clients connected_server ! 0) = Some (r, srv2, c)"
    using refused_request by (metis option.exhaust prod_cases3)
  have "run_steps rtsp_step sample_server [Round (sample_env [])] = Some connected_server" by (simp add: connect_round)
  from rtsp_responses_fit [OF sample_started _ this _ _ h] h show ?thesis
    by (simp add: fitting_event_def sample_limits MAX_RTSP_CLIENTS_def)
qed

end
