(* ===== verification/RtspLifecycle.thy ===== *)
theory RtspLifecycle
  imports RtspSessions
begin

text \<open>
  Starting, stopping and destroying the RTSP server of \<open>rtsp_server.c\<close>, with the TLS context of the
  OpenSSL backend. Which calls of the system and of OpenSSL succeed is a record; descriptors that
  are closed go to the list of the server or of the client that had them.
\<close>

section \<open>Operations\<close>

record start_env =
  listen_fd :: int
  bound :: bool
  listening :: bool
  tls_fd :: int
  tls_bound :: bool
  tls_listening :: bool
  ctx_new :: bool
  cert_loads :: bool
  key_loads :: bool
  key_matches :: bool
  server_thread_starts :: bool
  rtp_thread_starts :: bool

definition rtsp_server_tls_init :: "start_env \<Rightarrow> rtsp_server \<Rightarrow> c_int \<times> rtsp_server" where
  "rtsp_server_tls_init e srv =
     (if \<not> tls_enabled (server_config srv) then (0, srv)
      else if \<not> ctx_new e then (-1, srv)
      else if cert_file (server_config srv) \<noteq> [] \<and> \<not> cert_loads e then (-1, srv)
      else if key_file (server_config srv) \<noteq> [] \<and> \<not> key_loads e then (-1, srv)
      else if key_file (server_config srv) \<noteq> [] \<and> \<not> key_matches e then (-1, srv)
      else (0, srv\<lparr>tls_context := True\<rparr>))"

definition rtsp_server_tls_cleanup :: "rtsp_server \<Rightarrow> rtsp_server" where
  "rtsp_server_tls_cleanup srv = srv\<lparr>tls_context := False\<rparr>"

definition close_listen :: "rtsp_server \<Rightarrow> rtsp_server" where
  "close_listen srv = srv\<lparr>server_closed := server_closed srv @ [listen_socket srv], listen_socket := -1\<rparr>"

definition close_tls_listen :: "rtsp_server \<Rightarrow> rtsp_server" where
  "close_tls_listen srv =
     srv\<lparr>server_closed := server_closed srv @ [tls_listen_socket srv], tls_listen_socket := -1\<rparr>"

text \<open>The TLS part of the start.\<close>

definition start_tls :: "start_env \<Rightarrow> rtsp_server \<Rightarrow> c_int \<times> rtsp_server" where
  "start_tls e srv =
     (if \<not> tls_enabled (server_config srv) then (0, srv)
      else
        (case rtsp_server_tls_init e srv of
           (r, srv1) \<Rightarrow>
             if r < 0 then (-1, close_listen srv1)
             else
               (let srv2 = srv1\<lparr>tls_listen_socket := tls_fd e\<rparr> in
                if tls_fd e < 0 then (-1, close_listen (rtsp_server_tls_cleanup srv2))
                else if \<not> tls_bound e \<or> \<not> tls_listening e
                then (-1, close_listen (rtsp_server_tls_cleanup (close_tls_listen srv2)))
                else (0, srv2))))"

definition rtsp_server_start :: "start_env \<Rightarrow> rtsp_server \<Rightarrow> c_int \<times> rtsp_server" where
  "rtsp_server_start e srv =
     (if media_running srv then (0, srv)
      else
        (let srv1 = srv\<lparr>listen_socket := listen_fd e\<rparr> in
         if listen_fd e < 0 then (-1, srv1)
         else if \<not> bound e \<or> \<not> listening e then (-1, close_listen srv1)
         else
           (case start_tls e srv1 of
              (r, srv2) \<Rightarrow>
                if r < 0 then (-1, srv2)
                else
                  (let srv3 = srv2\<lparr>media_running := True, should_stop := False\<rparr> in
                   if \<not> server_thread_starts e then (-1, close_listen (srv3\<lparr>media_running := False\<rparr>))
                   else if \<not> rtp_thread_starts e
                   then (-1, close_listen (srv3\<lparr>should_stop := True, media_running := False\<rparr>))
                   else (0, srv3)))))"

definition rtsp_server_stop :: "rtsp_server \<Rightarrow> c_int \<times> rtsp_server" where
  "rtsp_server_stop srv =
     (if \<not> media_running srv then (0, srv)
      else
        (let srv1 = srv\<lparr>should_stop := True\<rparr>;
             srv2 = (if 0 \<le> listen_socket srv1 then close_listen srv1 else srv1)
         in (0, srv2\<lparr>media_running := False\<rparr>)))"

text \<open>What is left when the memory of the server is freed.\<close>

definition rtsp_server_destroy :: "rtsp_server \<Rightarrow> rtsp_server" where
  "rtsp_server_destroy srv =
     (let srv1 = (if media_running srv then snd (rtsp_server_stop srv) else srv);
          srv2 = srv1\<lparr>streams := [], clients := map cleanup_client (clients srv1)\<rparr>;
          srv3 = (if 0 \<le> listen_socket srv2 then close_listen srv2 else srv2);
          srv4 = (if 0 \<le> tls_listen_socket srv3 then close_tls_listen srv3 else srv3)
      in rtsp_server_tls_cleanup srv4)"

section \<open>Descriptors\<close>

text \<open>Those the server still has, and those it has closed.\<close>

definition held_fds :: "rtsp_server \<Rightarrow> int set" where
  "held_fds srv =
     {fd. 0 \<le> fd \<and> (fd = listen_socket srv \<or> fd = tls_listen_socket srv \<or>
        (\<exists>c \<in> set (clients srv). fd = socket_fd c \<or> fd = rtp_socket_fd c))}"

definition all_closed :: "rtsp_server \<Rightarrow> int set" where
  "all_closed srv = set (server_closed srv) \<union> (\<Union>c \<in> set (clients srv). set (closed_fds c))"

lemma cleanup_closes:
  "0 \<le> socket_fd c \<Longrightarrow> socket_fd c \<in> set (closed_fds (cleanup_client c))"
  "0 \<le> rtp_socket_fd c \<Longrightarrow> rtp_socket_fd c \<in> set (closed_fds (cleanup_client c))"
  "set (closed_fds c) \<subseteq> set (closed_fds (cleanup_client c))"
  "socket_fd (cleanup_client c) < 0" "rtp_socket_fd (cleanup_client c) < 0"
  by (auto simp: cleanup_client_def rtsp_client_tls_cleanup_def Let_def)

text \<open>Everything for TLS is there.\<close>

definition tls_ready :: "start_env \<Rightarrow> rtsp_server \<Rightarrow> bool" where
  "tls_ready e srv \<longleftrightarrow>
     ctx_new e \<and> (cert_file (server_config srv) \<noteq> [] \<longrightarrow> cert_loads e) \<and>
     (key_file (server_config srv) \<noteq> [] \<longrightarrow> key_loads e \<and> key_matches e) \<and>
     0 \<le> tls_fd e \<and> tls_bound e \<and> tls_listening e"

lemma start_tls_effect:
  assumes "start_tls e srv = (r, srv1)" and "tls_enabled (server_config srv)"
  shows "if tls_ready e srv then r = 0 \<and> srv1 = srv\<lparr>tls_context := True, tls_listen_socket := tls_fd e\<rparr>
    else r = -1 \<and> listen_socket srv1 < 0 \<and> listen_socket srv \<in> set (server_closed srv1) \<and>
      media_running srv1 = media_running srv \<and>
      (tls_listen_socket srv < 0 \<longrightarrow> tls_listen_socket srv1 < 0)"
proof (cases "rtsp_server_tls_init e srv = (0, srv\<lparr>tls_context := True\<rparr>)")
  case True
  then have "ctx_new e" "cert_file (server_config srv) \<noteq> [] \<longrightarrow> cert_loads e"
    "key_file (server_config srv) \<noteq> [] \<longrightarrow> key_loads e \<and> key_matches e"
    using assms(2) by (auto simp: rtsp_server_tls_init_def split: if_splits)
  with True assms show ?thesis
    by (auto simp: tls_ready_def start_tls_def close_listen_def close_tls_listen_def rtsp_server_tls_cleanup_def Let_def
        split: if_splits)
next
  case False
  then have "rtsp_server_tls_init e srv = (-1, srv)" "\<not> tls_ready e srv"
    using assms(2) by (auto simp: rtsp_server_tls_init_def tls_ready_def split: if_splits)
  with assms show ?thesis by (auto simp: start_tls_def close_listen_def)
qed

lemma start_cases:
  assumes "\<not> media_running srv" and "rtsp_server_start e srv = (r, srv1)"
  obtains "listen_fd e < 0" and "r = -1" and "srv1 = srv\<lparr>listen_socket := listen_fd e\<rparr>"
    | "0 \<le> listen_fd e" and "\<not> (bound e \<and> listening e)" and "r = -1"
      and "srv1 = close_listen (srv\<lparr>listen_socket := listen_fd e\<rparr>)"
    | srv2 where "0 \<le> listen_fd e" and "bound e" and "listening e" and "r = -1"
      and "start_tls e (srv\<lparr>listen_socket := listen_fd e\<rparr>) = (-1, srv2)" and "srv1 = srv2"
    | srv2 b where "0 \<le> listen_fd e" and "bound e" and "listening e" and "r = -1"
      and "start_tls e (srv\<lparr>listen_socket := listen_fd e\<rparr>) = (0, srv2)"
      and "\<not> (server_thread_starts e \<and> rtp_thread_starts e)"
      and "srv1 = close_listen (srv2\<lparr>should_stop := b, media_running := False\<rparr>)"
    | srv2 where "0 \<le> listen_fd e" and "bound e" and "listening e" and "r = 0"
      and "start_tls e (srv\<lparr>listen_socket := listen_fd e\<rparr>) = (0, srv2)"
      and "server_thread_starts e" and "rtp_thread_starts e"
      and "srv1 = srv2\<lparr>should_stop := False, media_running := True\<rparr>"
proof (cases "0 \<le> listen_fd e \<and> bound e \<and> listening e")
  case False
  with assms that(1,2) show ?thesis by (auto simp: rtsp_server_start_def Let_def split: if_splits)
next
  case True
  obtain q srv2 where t: "start_tls e (srv\<lparr>listen_socket := listen_fd e\<rparr>) = (q, srv2)" by fastforce
  have "q = 0 \<or> q = -1"
    using start_tls_effect [OF t] t by (cases "tls_enabled (server_config srv)") (auto simp: start_tls_def split: if_splits)
  then show ?thesis
  proof
    assume "q = 0"
    with True t assms that(4) [of srv2 False] that(4) [of srv2 True] that(5) [of srv2] show ?thesis
      by (auto simp: rtsp_server_start_def Let_def split: if_splits)
  next
    assume "q = -1"
    with True t assms have "r = -1" "srv1 = srv2" by (simp_all add: rtsp_server_start_def Let_def)
    with True t \<open>q = -1\<close> that(3) [of srv2] show ?thesis by simp
  qed
qed

text \<open>
  Starting the server: 0 means it runs and listens, over TLS too if that is configured; -1 means
  it does not run and its listening socket is closed again. After a failed start the TLS socket is
  open exactly when TLS was set up and a thread could not be created.
\<close>

theorem rtsp_start_outcome:
  assumes "\<not> media_running srv" and "tls_listen_socket srv < 0" and "rtsp_server_start e srv = (r, srv1)"
  shows "if r = 0
    then media_running srv1 \<and> \<not> should_stop srv1 \<and> 0 \<le> listen_socket srv1 \<and>
      (tls_enabled (server_config srv) \<longrightarrow> 0 \<le> tls_listen_socket srv1 \<and> tls_context srv1)
    else r = -1 \<and> \<not> media_running srv1 \<and> listen_socket srv1 < 0 \<and>
      (0 \<le> listen_fd e \<longrightarrow> listen_fd e \<in> set (server_closed srv1)) \<and>
      (0 \<le> tls_listen_socket srv1 \<longleftrightarrow>
        0 \<le> listen_fd e \<and> bound e \<and> listening e \<and> tls_enabled (server_config srv) \<and> tls_ready e srv)"
proof -
  have ready: "tls_ready e (srv\<lparr>listen_socket := n\<rparr>) = tls_ready e srv" for n by (simp add: tls_ready_def)
  have plain: "start_tls e s = (0, s)" if "\<not> tls_enabled (server_config s)" for s using that by (simp add: start_tls_def)
  from assms(1,3) show ?thesis
  proof (cases rule: start_cases)
    case 1
    with assms(1,2) show ?thesis by simp
  next
    case 2
    with assms(1,2) show ?thesis by (auto simp: close_listen_def)
  next
    case (3 srv2)
    then have "tls_enabled (server_config srv)" using plain [of "srv\<lparr>listen_socket := listen_fd e\<rparr>"] by auto
    with start_tls_effect [OF 3(5)] 3 assms(1,2) show ?thesis by (auto simp: ready split: if_splits)
  next
    case (4 srv2 b)
    with start_tls_effect [OF 4(5)] plain [of "srv\<lparr>listen_socket := listen_fd e\<rparr>"] assms(2) show ?thesis
      by (cases "tls_enabled (server_config srv)") (auto simp: ready close_listen_def tls_ready_def split: if_splits)
  next
    case (5 srv2)
    with start_tls_effect [OF 5(5)] plain [of "srv\<lparr>listen_socket := listen_fd e\<rparr>"] show ?thesis
      by (cases "tls_enabled (server_config srv)") (auto simp: ready tls_ready_def split: if_splits)
  qed
qed

text \<open>
  Destroying the server closes every descriptor it and its clients still hold, and leaves none.
\<close>

theorem rtsp_destroy_closes:
  "held_fds srv \<subseteq> all_closed (rtsp_server_destroy srv) \<and> held_fds (rtsp_server_destroy srv) = {}"
proof
  have cl: "clients (rtsp_server_destroy srv) = map cleanup_client (clients srv)"
    by (simp add: rtsp_server_destroy_def rtsp_server_stop_def rtsp_server_tls_cleanup_def close_listen_def
        close_tls_listen_def Let_def)
  have ls: "listen_socket (rtsp_server_destroy srv) < 0" "tls_listen_socket (rtsp_server_destroy srv) < 0"
    "0 \<le> listen_socket srv \<Longrightarrow> listen_socket srv \<in> set (server_closed (rtsp_server_destroy srv))"
    "0 \<le> tls_listen_socket srv \<Longrightarrow> tls_listen_socket srv \<in> set (server_closed (rtsp_server_destroy srv))"
    by (simp_all add: rtsp_server_destroy_def rtsp_server_stop_def rtsp_server_tls_cleanup_def close_listen_def
        close_tls_listen_def Let_def)
  show "held_fds srv \<subseteq> all_closed (rtsp_server_destroy srv)"
    using cleanup_closes(1,2) ls(3,4) by (auto simp: held_fds_def all_closed_def cl)
  show "held_fds (rtsp_server_destroy srv) = {}"
    using cleanup_closes(4,5) ls(1,2) by (auto simp: held_fds_def cl not_le [symmetric])
qed

text \<open>
  Stopping a server with TLS leaves its TLS socket open; a start after that replaces it unclosed.
\<close>

lemma restart_leaks_tls_socket:
  assumes "media_running srv" and "tls_enabled (server_config srv)" and "tls_listen_socket srv \<notin> set (server_closed srv)"
    and "tls_listen_socket srv \<noteq> listen_socket srv"
    and "rtsp_server_start e (snd (rtsp_server_stop srv)) = (0, srv1)"
  shows "tls_listen_socket srv1 = tls_fd e \<and> tls_listen_socket srv \<notin> set (server_closed srv1)"
proof -
  let ?s = "snd (rtsp_server_stop srv)"
  have s: "\<not> media_running ?s" "tls_enabled (server_config ?s)" "tls_listen_socket srv \<notin> set (server_closed ?s)"
    using assms(1-4) by (auto simp: rtsp_server_stop_def close_listen_def Let_def)
  from s(1) assms(5) show ?thesis
  proof (cases rule: start_cases)
    case (5 srv2)
    have "tls_ready e (?s\<lparr>listen_socket := listen_fd e\<rparr>)"
      using start_tls_effect [OF 5(5)] s(2) by (auto split: if_splits)
    with start_tls_effect [OF 5(5)] s 5 show ?thesis by simp
  qed simp_all
qed

definition started_env :: start_env where
  "started_env =
     \<lparr>listen_fd = 3, bound = True, listening = True, tls_fd = 4, tls_bound = True, tls_listening = True, ctx_new = True,
      cert_loads = True, key_loads = True, key_matches = True, server_thread_starts = True, rtp_thread_starts = False\<rparr>"

theorem rtsp_start_outcome_witness:
  "\<exists>r srv1. rtsp_server_start started_env
      (rtsp_server_create (rtsp_server_set_default_config\<lparr>tls_enabled := True\<rparr>) []) = (r, srv1) \<and>
     r = -1 \<and> tls_listen_socket srv1 \<ge> 0"
proof -
  let ?srv = "rtsp_server_create (rtsp_server_set_default_config\<lparr>tls_enabled := True\<rparr>) []"
  obtain r srv1 where s: "rtsp_server_start started_env ?srv = (r, srv1)" by fastforce
  then have "r = -1"
    by (auto simp: rtsp_server_start_def start_tls_def rtsp_server_tls_init_def started_env_def rtsp_server_create_def
        rtsp_server_set_default_config_def)
  with rtsp_start_outcome [OF _ _ s] s show ?thesis
    by (simp add: rtsp_server_create_def rtsp_server_set_default_config_def tls_ready_def started_env_def)
qed

end
