(* ===== verification/Spec2Isabelle.thy ===== *)
theory Spec2Isabelle
  imports RtmpServer RtmpClientManager HttpServer Photosensing Motion OnvifServices ModuleSystem RtspProperties RtspLifecycle
begin

text \<open>
  A verification development for the streamer of IP cameras under \<open>src/src\<close>.

  \<^bold>\<open>The program.\<close> The encoder of the vendor library delivers H.264 or H.265 frames as packs in a ring
  buffer. The frame manager (\<open>frame_manager.c\<close>) copies them out, finds the parameter sets and hands
  each frame to the consumers that registered for its channel. The consumers are protocol servers
  and clients, which the module system (\<open>module_system.c\<close>) configures, starts and stops: the RTSP
  server (\<open>modules/rtsp\<close>), the RTMP server and client (\<open>modules/rtmp_server\<close>, \<open>modules/rtmp_client\<close>).
  HTTP requests are read by the HTTP module (\<open>modules/http/http_module.c\<close>) and go through the router
  (\<open>modules/http/http_router.c\<close>) to snapshots, MJPEG streams, JSON documents and the routes of other modules;
  HTTP, RTSP and ONVIF share the authentication of \<open>auth_utils.c\<close>. The photosensing module
  (\<open>modules/photosensing\<close>) reads the exposure and switches the ISP and the infrared filter between day and
  night; the motion module (\<open>modules/motion\<close>) reads the results of the vendor detection and runs a script
  when an event begins and ends. The ONVIF module (\<open>modules/onvif\<close>) answers the probes of WS-Discovery and, through
  the HTTP module, SOAP requests.

  \<^bold>\<open>Theories and sources.\<close> Each definition has the name of the C function or type it models, unless HOL
  has that name already.

  \<^item> \<open>StreamerPrelude\<close>: machine integers as words, the byte orders written out in the code, lists cut
    into blocks, and the interfaces: transition systems with an invariant (total and partial), tables
    with distinct keys and a capacity.
  \<^item> \<open>CStrings\<close>: the C string functions the program uses on strings without their NUL, \<open>snprintf\<close> of
    decimals, the conversions of \<open>sscanf\<close> that occur.
  \<^item> \<open>NetIO\<close>: sockets whose kernel side is a script of segments, time-outs and short writes; the exact-length
    reads and writes over them. Scripts are arbitrary, so the facts cover every segmentation.
  \<^item> \<open>RtmpChunk\<close>, \<open>RtmpAmf\<close>, \<open>RtmpServer\<close>: chunk headers, chunks and messages; the AMF0 codec; the handshake,
    commands and replies, the message loop, the connection table and frame distribution of
    \<open>rtmp_server.c\<close>.
  \<^item> \<open>RtmpClient\<close>, \<open>RtmpClientSession\<close>, \<open>RtmpClientMedia\<close>, \<open>RtmpClientThread\<close>, \<open>RtmpClientManager\<close>: messages of the RTMP client
    and its reading and writing, plain and over OpenSSL; handshake, commands and URL; frames as video messages;
    the thread of a connection; the manager and the module, of \<open>rtmp_client.c\<close>.
  \<^item> \<open>FrameManager\<close>: \<open>frame_manager.c\<close>, and the access to stream packs of \<open>hal/imp/imp_t31.c\<close>.
  \<^item> \<open>RtpPacket\<close>, \<open>RtspFrames\<close>: RTP packets, FU-A and H.265 fragmentation, writing through UDP, TCP and
    TLS, and the way of a frame to the playing clients, of \<open>rtsp_server.c\<close>.
  \<^item> \<open>RtspRequest\<close>, \<open>RtspServer\<close>, \<open>RtspSessions\<close>, \<open>RtspProperties\<close>, \<open>RtspLifecycle\<close>: the texts of RTSP, the
    handlers of its methods, the server thread, what holds over whole runs, starting and stopping.
  \<^item> \<open>HttpRouter\<close>, \<open>ModuleSystem\<close>, \<open>AuthUtils\<close>: the files of these names.
  \<^item> \<open>HttpResponses\<close>, \<open>HttpServer\<close>: \<open>http_module.c\<close>, first what its handlers send, then its configuration, the
    thread that reads, checks and routes requests, the tables of routes and the life cycle.
  \<^item> \<open>JsonConfig\<close>: the functions of the JSON library the parsers of configurations use, as a record of
    functions, and the \<open>float\<close> and \<open>double\<close> of the language: rounding to 24 and 53 bits, order, sum, truncation.
  \<^item> \<open>Photosensing\<close>: \<open>photosensing_module.c\<close>, with the rounds of its thread as steps over what the ISP reports.
  \<^item> \<open>Motion\<close>: \<open>motion_module.c\<close>: zones, the objects of the vendor library, events, scripts and life cycle.
  \<^item> \<open>OnvifDiscovery\<close>, \<open>OnvifServices\<close>: \<open>onvif_discovery.c\<close> with \<open>onvif_module.c\<close>, and \<open>onvif_services.c\<close>: the caches
    and the thread of the discovery, the module, and the SOAP handlers with the format their answers go through.

  \<^bold>\<open>State and steps.\<close> A struct is a record, an operation a function that returns its result code and the
  changed records. What a run can see from outside (datagrams, bytes on a stream, closed
  descriptors, calls of a module) is collected in fields of the records that the code does not have;
  they are named at the records. A loop that may not end is a partial function whose value \<open>None\<close>
  means that the call does not return; \<open>None\<close> is also undefined behaviour where the text at the
  definition says so. Threads: a round of the RTSP server thread and a frame of the sending thread are
  steps of one machine, interleaved in any order; the rounds themselves hold the client mutex in the
  code and are atomic in the model. The thread of an RTMP client connection is a step function over the places between
  its calls, interleaved with frames and with the request to stop.

  \<^bold>\<open>Groups of lemmas.\<close> For each protocol: what is written is what a reader that follows the standard
  reads back (chunk headers, messages, AMF0 values, commands, RTP packets, requests and URLs,
  Base64); bounds of every buffer write; the effect of each operation on the tables; invariants over
  any sequence of operations; the handlers of RTSP against the state table of RFC 2326, with the one step that differs; equivalence of the two
  copies of the frame sender; who is served by the HTTP thread, and what everybody else is told; when the
  photosensing thread switches, and when it never does; when motion events begin and end, and what is
  released; how often a probe is answered, which SOAP handler a request reaches and with which credentials, and that its
  answer is complete; the RTMP client against the RTMP server of the same program, handshake and
  commands; every call of the client returns, whatever the peer does; and the defects the manifest lists, each as a theorem about
  the code as it is.

  \<^bold>\<open>Fuel and bounds.\<close> The recursive AMF0 decoder takes one unit of fuel more than there are bytes, which
  is proved enough. Chunk writing, of server and client, and the RTMP message loop are partial functions with
  theorems about when they return (the message loop of the server reads until its peer has nothing more to give); sending in the client is one recursion through writing, reading and
  acknowledging, bounded by what the peer sent. The target has 32 bit \<open>int\<close>, \<open>long\<close> and \<open>size_t\<close> (MIPS uClibc), which matters where
  times are kept in \<open>unsigned long\<close>: they wrap around in the model as in the code.

  \<^bold>\<open>Parameters.\<close> Memory (\<open>mok\<close>, and \<open>dup\<close> for \<open>strdup\<close>), \<open>fork\<close>, the stack behind a buffer that is overread, the clock, \<open>rand\<close>, the socket layer, TLS, the JSON library, the file system and
  the vendor encoder and detection, with which of their calls release what they should, are arguments of the definitions that use them; nothing is assumed of them but what a
  theorem states as a hypothesis.

  \<^bold>\<open>Not modelled.\<close> Logging; the set-up of the vendor library (encoder, sensor, OSD, ISP, IVS); the mbedTLS
  backend, an alternative to the modelled OpenSSL calls; configuration files; metrics, audio.
  The manifest gives the reason for each.
\<close>

end
